(* ===== verification/Nvm_Prelude.thy ===== *)
theory Nvm_Prelude
  imports Main "HOL-Library.Word"
begin

text \<open>
  Shared vocabulary of the development: the machine types of the C sources, the values that
  stand for error returns and for undefined behaviour, bit fields, the C \<open>for\<close> loop, and
  the lemmas on words and lists that the component theories use.

  \<^item> \<open>uint8_t\<close> .. \<open>uint64_t\<close> and \<open>size_t\<close> (LP64) are words, so arithmetic wraps as in C.
  \<^item> A C \<open>int\<close> is an HOL \<open>int\<close>; the conversion of a wider value to \<open>int\<close> is \<open>c_int\<close>
    (two's complement truncation, what gcc and clang implement).
  \<^item> A pointer is its 64-bit address, \<open>NULL\<close> is 0. Buffer contents are not part of the model;
    which bytes a command reads or writes is the pair of its pointer and its length.
  \<^item> A function that reports errors through \<open>errno\<close> and \<open>-1\<close> or \<open>NULL\<close> has a result of type
    \<open>'a res\<close>: \<open>Inl (Errno e)\<close> for the error return, \<open>Inl (Fault f)\<close> where the C program has
    undefined behaviour (a division by zero, an access outside an array, a shift by the
    width or more, a read of an uninitialised variable, signed overflow), \<open>Inr x\<close> otherwise.
\<close>

unbundle bit_operations_syntax

section \<open>Machine types\<close>

type_synonym u8 = "8 word"
type_synonym u16 = "16 word"
type_synonym u32 = "32 word"
type_synonym u64 = "64 word"
type_synonym ptr = "64 word"

abbreviation (input) NULL :: ptr where "NULL \<equiv> 0"

definition c_int :: "int \<Rightarrow> int" where
  "c_int i = signed_take_bit 31 i"

lemma c_int_id [simp]: "- (2 ^ 31) \<le> i \<Longrightarrow> i < 2 ^ 31 \<Longrightarrow> c_int i = i"
  unfolding c_int_def by (simp add: signed_take_bit_int_eq_self)

section \<open>Error returns and undefined behaviour\<close>

datatype errno =
    EINVAL | ENOMEM | EIO | ENOSYS | EAGAIN | ENOTBLK
  | EOTHER int  \<comment> \<open>a value stored by the C library, the kernel or SPDK, which the code propagates\<close>
  | EKEEP       \<comment> \<open>the function fails without assigning \<open>errno\<close>\<close>

datatype fault = DivByZero | OutOfBounds | NullDeref | BadShift | Uninit | IntOverflow
  | NoReturn    \<comment> \<open>the call does not return\<close>

datatype failure = Errno errno | Fault fault

type_synonym 'a res = "failure + 'a"

definition no_fault :: "'a res \<Rightarrow> bool" where
  "no_fault r \<longleftrightarrow> (\<forall>f. r \<noteq> Inl (Fault f))"

lemma no_fault_simps [simp]:
  "no_fault (Inr x)" "no_fault (Inl (Errno e))" "\<not> no_fault (Inl (Fault f))"
  by (auto simp: no_fault_def)

section \<open>Simplification rules of the components\<close>

named_theorems bitfield_simps \<open>reading a bit field after writing one\<close>
named_theorems unat_arith_simps \<open>word arithmetic read as natural numbers\<close>

section \<open>Bit fields\<close>

text \<open>
  A bit field of width \<open>len\<close> at offset \<open>off\<close> of a storage unit, as gcc and clang lay out the
  \<open>uint64_t f : len\<close> members of the sources on a little-endian target. Storing keeps the low
  \<open>len\<close> bits of the value.
\<close>

definition bf_get :: "nat \<Rightarrow> nat \<Rightarrow> 'a::len word \<Rightarrow> 'a word" where
  "bf_get off len w = take_bit len (drop_bit off w)"

definition bf_set :: "nat \<Rightarrow> nat \<Rightarrow> 'a::len word \<Rightarrow> 'a word \<Rightarrow> 'a word" where
  "bf_set off len x w = (w AND NOT (push_bit off (mask len))) OR push_bit off (take_bit len x)"

lemma bit_bf_get [bit_simps]:
  "bit (bf_get off len w) n \<longleftrightarrow> n < len \<and> bit w (off + n)" for w :: "'a::len word"
  by (auto simp: bf_get_def bit_simps)

lemma bit_bf_set [bit_simps]:
  "bit (bf_set off len x w) n \<longleftrightarrow>
     n < LENGTH('a) \<and> (if off \<le> n \<and> n < off + len then bit x (n - off) else bit w n)"
  for w :: "'a::len word"
  by (auto simp: bf_set_def bit_simps not_le less_diff_conv2)

lemma bf_get_set_same [bitfield_simps]:
  "off + len \<le> LENGTH('a) \<Longrightarrow> bf_get off len (bf_set off len x w) = take_bit len x"
  for w :: "'a::len word"
  by (rule bit_word_eqI) (auto simp: bit_simps)

lemma bf_get_set_other [bitfield_simps]:
  "off + len \<le> off' \<or> off' + len' \<le> off \<Longrightarrow> bf_get off len (bf_set off' len' x w) = bf_get off len w"
  for w :: "'a::len word"
  by (rule bit_word_eqI) (auto simp: bit_simps dest: bit_imp_le_length)

lemma bf_get_lt: "unat (bf_get off len w) < 2 ^ len" for w :: "'a::len word"
  by (simp add: bf_get_def unsigned_take_bit_eq)

lemma take_bit_bf_get [simp]: "take_bit len (bf_get off len w) = bf_get off len w"
  by (simp add: bf_get_def)

lemma take_bit_id: "unat x < 2 ^ n \<Longrightarrow> take_bit n x = x" for x :: "'a::len word"
  by (metis take_bit_nat_eq_self unsigned_take_bit_eq word_unat_eq_iff)

lemma bf_get_zero [simp]: "bf_get off len 0 = 0"
  by (simp add: bf_get_def)

lemma take_bit_add_left: "take_bit n (take_bit n a + b) = take_bit n (a + b)" for a :: "'a::len word"
  by transfer (simp only: take_bit_eq_mod mod_simps)

section \<open>Words as natural numbers\<close>

lemma unat_of_nat_lt [unat_arith_simps]:
  "n < 2 ^ LENGTH('a) \<Longrightarrow> unat (of_nat n :: 'a::len word) = n"
  by (simp add: unat_of_nat take_bit_nat_eq_self)

lemma unat_u64: "n < 2 ^ 64 \<Longrightarrow> unat (of_nat n :: u64) = n"
  by (rule unat_of_nat_lt) simp

lemma unat_add_lt [unat_arith_simps]:
  "unat a + unat b < 2 ^ LENGTH('a) \<Longrightarrow> unat (a + b) = unat a + unat b" for a :: "'a::len word"
  by (simp add: unat_word_ariths)

lemma unat_mult_lt [unat_arith_simps]:
  "unat a * unat b < 2 ^ LENGTH('a) \<Longrightarrow> unat (a * b) = unat a * unat b" for a :: "'a::len word"
  by (simp add: unat_word_ariths)

lemma unat_ucast_up:
  fixes x :: "'a::len word"
  assumes "LENGTH('a) \<le> LENGTH('b)" shows "unat (ucast x :: 'b::len word) = unat x"
proof -
  have "unat x < 2 ^ LENGTH('a)" by simp
  also have "\<dots> \<le> 2 ^ LENGTH('b)" using assms by (simp add: power_increasing)
  finally show ?thesis by (simp add: unsigned_ucast_eq take_bit_nat_eq_self)
qed

lemma unat_half: "unat (drop_bit 1 x) = unat x div 2" for x :: "'a::len word"
  by (simp only: unat_drop_bit_eq) (simp add: drop_bit_eq_div)

lemma digit_lt: "a < m \<Longrightarrow> b < n \<Longrightarrow> a * n + b < m * n" for a b m n :: nat
proof -
  assume "a < m" "b < n"
  then have "a * n + b < Suc a * n" "Suc a * n \<le> m * n" by (simp, intro mult_le_mono1) simp
  then show ?thesis by linarith
qed

lemma digits_eq:
  fixes a b c d n :: nat
  assumes "b < n" "d < n"
  shows "a * n + b = c * n + d \<longleftrightarrow> a = c \<and> b = d"
proof -
  have "(a * n + b) div n = a" "(a * n + b) mod n = b" "(c * n + d) div n = c" "(c * n + d) mod n = d"
    using assms by auto
  then show ?thesis by metis
qed

lemma c_int_uint: "unat x < 2 ^ 31 \<Longrightarrow> c_int (uint x) = uint x" for x :: u64
proof -
  assume "unat x < 2 ^ 31"
  then have "uint x < 2 ^ 31" unfolding unat_eq_nat_uint by (subst (asm) nat_less_iff) simp_all
  then show ?thesis by (intro c_int_id order_trans [OF _ uint_ge_0]) simp_all
qed

lemma unat_word_of_c_int:
  "unat x < 2 ^ 31 \<Longrightarrow> unat (word_of_int (c_int (uint x)) :: u64) = unat x" for x :: u64
  by (simp add: c_int_uint)

text \<open>\<open>NVM_MIN\<close> of \<open>liblightnvm_util.h\<close> converts its arguments to \<open>int\<close> and returns one.\<close>

definition NVM_MIN :: "u64 \<Rightarrow> u64 \<Rightarrow> u64" where
  "NVM_MIN x y = word_of_int (min (c_int (uint x)) (c_int (uint y)))"

lemma NVM_MIN_small: "unat x < 2 ^ 31 \<Longrightarrow> unat y < 2 ^ 31 \<Longrightarrow> NVM_MIN x y = min x y"
  by (simp add: NVM_MIN_def c_int_uint min_def word_le_def)

section \<open>Operations on a world\<close>

text \<open>
  Code with effects outside its own data (the allocator, a backend, the kernel) is a function of
  a world of any type \<open>'w\<close>, which it returns updated beside its result. \<open>andThen\<close> stops at the
  first error return, \<open>on_error\<close> is the \<open>goto failed\<close> of the sources (the handler runs, then the
  error is returned), \<open>fold_op\<close> is a counting loop whose body may return early.
\<close>

type_synonym ('w, 'a) op = "'w \<Rightarrow> 'a res \<times> 'w"

definition ok :: "'a \<Rightarrow> ('w, 'a) op" where
  "ok x w = (Inr x, w)"

definition fail :: "failure \<Rightarrow> ('w, 'a) op" where
  "fail e w = (Inl e, w)"

definition upd :: "('w \<Rightarrow> 'w) \<Rightarrow> ('w, unit) op" where
  "upd f w = (Inr (), f w)"

definition andThen :: "('w, 'a) op \<Rightarrow> ('a \<Rightarrow> ('w, 'b) op) \<Rightarrow> ('w, 'b) op" where
  "andThen m f w = (case m w of (Inl e, w') \<Rightarrow> (Inl e, w') | (Inr x, w') \<Rightarrow> f x w')"

definition on_error :: "('w, 'a) op \<Rightarrow> ('w, unit) op \<Rightarrow> ('w, 'a) op" where
  "on_error m h w = (case m w of
       (Inl (Errno e), w') \<Rightarrow> (case h w' of (Inl f, w'') \<Rightarrow> (Inl f, w'') | (Inr _, w'') \<Rightarrow> (Inl (Errno e), w''))
     | r \<Rightarrow> r)"

primrec fold_op :: "('i \<Rightarrow> 's \<Rightarrow> ('w, 's) op) \<Rightarrow> 'i list \<Rightarrow> 's \<Rightarrow> ('w, 's) op" where
  "fold_op body [] s = ok s"
| "fold_op body (i # is) s = andThen (body i s) (fold_op body is)"

primrec each_op :: "('i \<Rightarrow> ('w, unit) op) \<Rightarrow> 'i list \<Rightarrow> ('w, unit) op" where
  "each_op body [] = ok ()"
| "each_op body (i # is) = andThen (body i) (\<lambda>_. each_op body is)"

definition lift_res :: "'a res \<Rightarrow> ('w, 'a) op" where
  "lift_res r w = (r, w)"

lemma op_simps [simp]:
  "andThen (ok x) f = f x" "andThen (fail e) f = fail e" "andThen m ok = m"
  "on_error (ok x) h = ok x" "andThen (lift_res (Inr x)) f = f x" "andThen (lift_res (Inl e)) f = fail e"
  by (auto simp: fun_eq_iff andThen_def ok_def fail_def on_error_def lift_res_def split: prod.splits sum.splits)

lemma andThen_assoc: "andThen (andThen m f) g = andThen m (\<lambda>x. andThen (f x) g)"
  by (auto simp: fun_eq_iff andThen_def split: prod.splits sum.splits)

lemma andThen_Inr: "andThen m f w = (Inr y, w') \<longleftrightarrow> (\<exists>x w1. m w = (Inr x, w1) \<and> f x w1 = (Inr y, w'))"
  by (auto simp: andThen_def split: prod.splits sum.splits)

lemma andThen_Inl:
  "andThen m f w = (Inl e, w') \<longleftrightarrow>
     m w = (Inl e, w') \<or> (\<exists>x w1. m w = (Inr x, w1) \<and> f x w1 = (Inl e, w'))"
  by (auto simp: andThen_def split: prod.splits sum.splits)

lemma fold_op_append: "fold_op body (is @ js) s = andThen (fold_op body is s) (fold_op body js)"
proof (induction "is" arbitrary: s)
  case (Cons i "is")
  then have "fold_op body (is @ js) = (\<lambda>s. andThen (fold_op body is s) (fold_op body js))"
    by blast
  then show ?case by (simp add: andThen_assoc)
qed simp

lemma each_op_append: "each_op body (is @ js) = andThen (each_op body is) (\<lambda>_. each_op body js)"
  by (induction "is") (simp_all add: andThen_assoc)

text \<open>An invariant of the body is an invariant of the loop.\<close>

lemma fold_op_inv:
  assumes "fold_op body is s w = (Inr s', w')" "P s w"
    and step: "\<And>i s w s' w'. i \<in> set is \<Longrightarrow> P s w \<Longrightarrow> body i s w = (Inr s', w') \<Longrightarrow> P s' w'"
  shows "P s' w'"
  using assms
proof (induction "is" arbitrary: s w)
  case Nil
  then show ?case by (simp add: ok_def)
next
  case (Cons i "is")
  from Cons.prems(1) obtain s1 w1 where "body i s w = (Inr s1, w1)" "fold_op body is s1 w1 = (Inr s', w')"
    by (auto simp: andThen_Inr)
  then show ?case
    using Cons by (metis list.set_intros)
qed

lemma fold_op_upt:
  assumes "fold_op body [a..<b] s w = (Inr s', w')" "a \<le> b" "P a s"
    and step: "\<And>i s w s' w'. a \<le> i \<Longrightarrow> i < b \<Longrightarrow> P i s \<Longrightarrow> body i s w = (Inr s', w') \<Longrightarrow> P (Suc i) s'"
  shows "P b s'"
  using assms(1-3) step
proof (induction "b - a" arbitrary: a s w)
  case 0
  then show ?case by (simp add: ok_def)
next
  case (Suc n)
  then have ab: "a < b" by simp
  then obtain s1 w1 where b: "body a s w = (Inr s1, w1)" "fold_op body [Suc a..<b] s1 w1 = (Inr s', w')"
    using Suc.prems(1) by (auto simp: upt_conv_Cons andThen_Inr)
  then have "P (Suc a) s1" using Suc.prems(3,4) ab by blast
  with Suc.hyps(1) [of "Suc a"] Suc.hyps(2) b(2) ab Suc.prems(4) show ?case by auto
qed

lemma on_error_Inr: "on_error m h w = (Inr x, w') \<longleftrightarrow> m w = (Inr x, w')"
  by (auto simp: on_error_def split: prod.splits sum.splits failure.splits)

lemma each_op_succeeds:
  assumes "\<And>i w. i \<in> set is \<Longrightarrow> P w \<Longrightarrow> \<exists>w'. body i w = (Inr (), w') \<and> P w'" "P w"
  shows "\<exists>w'. each_op body is w = (Inr (), w') \<and> P w'"
  using assms
proof (induction "is" arbitrary: w)
  case (Cons i "is")
  from Cons.prems(1) [OF _ Cons.prems(2), of i] obtain w1 where w1: "body i w = (Inr (), w1)" "P w1" by auto
  from Cons.IH [OF _ w1(2)] Cons.prems(1) obtain w2 where "each_op body is w1 = (Inr (), w2)" "P w2" by fastforce
  with w1 show ?case by (auto simp: andThen_Inr)
qed (simp add: ok_def)

lemma fold_op_map: "fold_op body (map f is) s = fold_op (\<lambda>i. body (f i)) is s"
  by (induction "is" arbitrary: s) (auto simp: fun_eq_iff andThen_def split: prod.splits sum.splits)

lemma fold_op_cong: "(\<And>i. i \<in> set is \<Longrightarrow> f i = g i) \<Longrightarrow> fold_op f is s = fold_op g is s"
  by (induction "is" arbitrary: s) (auto simp: fun_eq_iff andThen_def split: prod.splits sum.splits)

lemma each_op_snoc:
  assumes "each_op f [0..<Suc n] w = (Inr (), w')"
  obtains w1 where "each_op f [0..<n] w = (Inr (), w1)" "f n w1 = (Inr (), w')"
  using assms by (auto simp: each_op_append andThen_Inr)

section \<open>The C for loop\<close>

text \<open>
  \<open>for (i = b; c(i); i = st(i)) body\<close> with a body that may return early. \<open>None\<close> is a loop that does
  not end; the counters of the sources are words, so a test like \<open>i <= e\<close> may never fail.
\<close>

partial_function (option) for_op ::
  "('i \<Rightarrow> bool) \<Rightarrow> ('i \<Rightarrow> 'i) \<Rightarrow> ('i \<Rightarrow> 's \<Rightarrow> ('w, 's) op) \<Rightarrow> 'i \<Rightarrow> 's \<Rightarrow> 'w \<Rightarrow> ('s res \<times> 'w) option" where
  "for_op c st body i s w =
     (if c i then case body i s w of (r, w') \<Rightarrow> (case r of Inl e \<Rightarrow> Some (Inl e, w') | Inr s' \<Rightarrow> for_op c st body (st i) s' w')
      else Some (Inr s, w))"

declare for_op.simps [code]

lemma for_op_steps:
  assumes "\<forall>j<n. c ((st ^^ j) i)" "\<not> c ((st ^^ n) i)"
  shows "for_op c st body i s w = Some (fold_op body (map (\<lambda>j. (st ^^ j) i) [0..<n]) s w)"
  using assms
proof (induction n arbitrary: i s w)
  case 0
  then show ?case by (simp add: for_op.simps ok_def)
next
  case (Suc n)
  have "c i" using Suc.prems(1) by (metis funpow_0 zero_less_Suc)
  have step: "(st ^^ j) (st i) = (st ^^ Suc j) i" for j
    by (simp add: funpow_swap1)
  have "for_op c st body (st i) s' w' = Some (fold_op body (map (\<lambda>j. (st ^^ j) (st i)) [0..<n]) s' w')" for s' w'
    using Suc.prems by (intro Suc.IH) (auto simp only: step Suc_less_eq)
  then have "for_op c st body i s w = Some (fold_op body (i # map (\<lambda>j. (st ^^ j) (st i)) [0..<n]) s w)"
    using \<open>c i\<close> by (simp add: for_op.simps [of c st body i] andThen_def split: prod.splits sum.splits)
  moreover have "map (\<lambda>j. (st ^^ j) i) [0..<Suc n] = i # map (\<lambda>j. (st ^^ j) (st i)) [0..<n]"
    by (simp add: upt_conv_Cons map_Suc_upt [symmetric] o_def step del: upt_Suc funpow.simps(2))
  ultimately show ?case by (simp del: upt_Suc)
qed

lemma funpow_plus: "(((\<lambda>i. i + k) ^^ j) b :: 'a::len word) = b + of_nat j * k"
  by (induction j) (simp_all add: algebra_simps)

section \<open>Parallel loops\<close>

text \<open>
  \<open>#pragma omp parallel for\<close> on \<open>for (i = b; i < e; i += step)\<close>, or with \<open>i <= e\<close> when \<open>incl\<close>, for a \<open>size_t\<close> counter. The
  iterations are fixed when the loop is entered. OpenMP leaves a loop whose counter would wrap, or that has no
  step, without a meaning: a fault. The iterations are executed here in their order; an order is one of those that
  the threads may take.
\<close>

definition omp_iters :: "bool \<Rightarrow> u64 \<Rightarrow> u64 \<Rightarrow> u64 \<Rightarrow> u64 list res" where
  "omp_iters incl b e step =
     (let bound = (if incl then unat e + 1 else unat e); n = (bound - unat b + unat step - 1) div unat step in
      if step = 0 \<or> 2 ^ 64 \<le> unat b + n * unat step then Inl (Fault IntOverflow)
      else Inr (map (\<lambda>j. b + of_nat j * step) [0..<n]))"

definition omp_for :: "bool \<Rightarrow> u64 \<Rightarrow> u64 \<Rightarrow> u64 \<Rightarrow> (u64 \<Rightarrow> 's \<Rightarrow> ('w, 's) op) \<Rightarrow> 's \<Rightarrow> ('w, 's) op" where
  "omp_for incl b e step body s = andThen (lift_res (omp_iters incl b e step)) (\<lambda>is. fold_op body is s)"

lemma ceil_unique:
  fixes N k n :: nat
  assumes "0 < n" "N \<le> n * k" "(n - 1) * k < N"
  shows "(N + k - 1) div k = n"
proof -
  obtain m where n: "n = Suc m" using assms(1) by (cases n) auto
  have "k * n \<le> N + k - 1" "N + k - 1 < k * Suc n" using assms(2,3) by (simp_all add: n algebra_simps)
  then show ?thesis by (rule div_nat_eqI)
qed

text \<open>The iterations over \<open>N\<close> sectors from \<open>b\<close>, in steps of \<open>k\<close>.\<close>

lemma omp_iters_sectors:
  fixes b k n N :: nat
  assumes "0 < k" "b + n * k < 2 ^ 64" "N \<le> n * k" "(n - 1) * k < N" "0 < n"
  shows "omp_iters True (of_nat b) (of_nat b + of_nat N - 1) (of_nat k) = Inr (map (\<lambda>j. of_nat (b + j * k)) [0..<n])"
proof -
  have e: "(of_nat b + of_nat N - 1 :: u64) = of_nat (b + N - 1)" using assms(4) by (simp add: of_nat_diff)
  have "1 * k \<le> n * k" using assms(5) by (intro mult_le_mono1) simp
  then have lt: "b < 2 ^ 64" "b + N - 1 < 2 ^ 64" "k < 2 ^ 64" using assms(2,3) by linarith+
  have u: "unat (of_nat b :: u64) = b" "unat (of_nat (b + N - 1) :: u64) = b + N - 1" "unat (of_nat k :: u64) = k"
    using lt by (simp_all only: unat_u64)
  have n: "(b + N - 1 + 1 - b + k - 1) div k = n" using ceil_unique [OF assms(5,3,4)] assms(4) by simp
  have "(of_nat k :: u64) \<noteq> 0" using u(3) assms(1) by (metis unat_0 less_irrefl)
  then show ?thesis unfolding omp_iters_def e Let_def if_True u n using assms(2) by simp
qed

section \<open>Operations that may not end\<close>

text \<open>
  \<open>None\<close> is a call that does not return. In an operation table, where every operation returns a result,
  it is a fault.
\<close>

type_synonym ('w, 'a) lop = "'w \<Rightarrow> ('a res \<times> 'w) option"

definition lret :: "('w, 'a) op \<Rightarrow> ('w, 'a) lop" where
  "lret m w = Some (m w)"

definition lbind :: "('w, 'a) lop \<Rightarrow> ('a \<Rightarrow> ('w, 'b) lop) \<Rightarrow> ('w, 'b) lop" where
  "lbind m f w = (case m w of None \<Rightarrow> None | Some (r, w') \<Rightarrow>
     (case r of Inl e \<Rightarrow> Some (Inl e, w') | Inr x \<Rightarrow> f x w'))"

primrec fold_lop :: "('i \<Rightarrow> ('w, unit) lop) \<Rightarrow> 'i list \<Rightarrow> ('w, unit) lop" where
  "fold_lop body [] = lret (ok ())"
| "fold_lop body (i # is) = lbind (body i) (\<lambda>_. fold_lop body is)"

primrec map_res :: "('i \<Rightarrow> 'a res) \<Rightarrow> 'i list \<Rightarrow> 'a list res" where
  "map_res f [] = Inr []"
| "map_res f (i # is) = (case f i of Inl e \<Rightarrow> Inl e | Inr x \<Rightarrow>
     (case map_res f is of Inl e \<Rightarrow> Inl e | Inr xs \<Rightarrow> Inr (x # xs)))"

definition returning :: "('w, 'a) lop \<Rightarrow> ('w, 'a) op" where
  "returning m w = (case m w of None \<Rightarrow> (Inl (Fault NoReturn), w) | Some r \<Rightarrow> r)"

lemma map_res_Inr: "(\<And>i. i \<in> set is \<Longrightarrow> f i = Inr (g i)) \<Longrightarrow> map_res f is = Inr (map g is)"
  by (induction "is") auto

lemma lbind_lret: "lbind (lret (lift_res (Inr x))) f = f x"
  by (simp add: fun_eq_iff lbind_def lret_def lift_res_def)

lemma lbind_some: "m w = Some (n w) \<Longrightarrow> lbind m (\<lambda>x. lret (f x)) w = Some (andThen n f w)"
  by (simp add: lbind_def lret_def andThen_def split: prod.splits sum.splits)

lemma lbind_Inr:
  "lbind m f w = Some (Inr y, w') \<longleftrightarrow> (\<exists>x w1. m w = Some (Inr x, w1) \<and> f x w1 = Some (Inr y, w'))"
  by (auto simp: lbind_def split: option.splits prod.splits sum.splits)

lemma lret_Some: "lret m w = Some (r, w') \<longleftrightarrow> m w = (r, w')"
  by (simp add: lret_def)

end
