(* ===== verification/Nvm_Types.thy ===== *)
theory Nvm_Types
  imports Nvm_Prelude
begin

text \<open>
  The data of the library: the OCSSD structures of \<open>include/liblightnvm_spec.h\<close>, the public
  structures of \<open>include/liblightnvm.h\<close> and the internal device state of \<open>include/nvm_dev.h\<close>.

  A union whose members are views of the same bits is kept once, with one set of selectors per
  view (\<open>struct nvm_addr\<close>, \<open>struct nvm_geo\<close>, the unions of \<open>struct nvm_nvme_cmd\<close>). The union
  \<open>struct nvm_spec_idfy\<close> is discriminated by its first byte, so both revisions are kept side by
  side and the code reads the one its version identifier selects. Reserved bytes are left out.
\<close>

section \<open>Constants\<close>

abbreviation (input) NVM_SPEC_VERID_12 :: "'a::one" where "NVM_SPEC_VERID_12 \<equiv> 1"
abbreviation (input) NVM_SPEC_VERID_20 :: "'a::numeral" where "NVM_SPEC_VERID_20 \<equiv> 2"

abbreviation (input) NVM_NADDR_MAX :: "'a::numeral" where "NVM_NADDR_MAX \<equiv> 64"

abbreviation (input) NVM_BE_ANY :: u32 where "NVM_BE_ANY \<equiv> 0"
abbreviation (input) NVM_BE_IOCTL :: u32 where "NVM_BE_IOCTL \<equiv> 1"
abbreviation (input) NVM_BE_LBD :: u32 where "NVM_BE_LBD \<equiv> 2"
abbreviation (input) NVM_BE_SPDK :: u32 where "NVM_BE_SPDK \<equiv> 4"
abbreviation (input) NVM_BE_NOCD :: u32 where "NVM_BE_NOCD \<equiv> 8"
abbreviation (input) NVM_BE_ALL :: u32 where "NVM_BE_ALL \<equiv> 15"

abbreviation (input) NVM_CMD_SYNC :: u32 where "NVM_CMD_SYNC \<equiv> 0x10"
abbreviation (input) NVM_CMD_ASYNC :: u32 where "NVM_CMD_ASYNC \<equiv> 0x20"
abbreviation (input) NVM_CMD_SCALAR :: u32 where "NVM_CMD_SCALAR \<equiv> 0x40"
abbreviation (input) NVM_CMD_VECTOR :: u32 where "NVM_CMD_VECTOR \<equiv> 0x80"
abbreviation (input) NVM_CMD_PRP :: u32 where "NVM_CMD_PRP \<equiv> 0x100"
abbreviation (input) NVM_CMD_SGL :: u32 where "NVM_CMD_SGL \<equiv> 0x200"
abbreviation (input) NVM_CMD_SGL_META :: u32 where "NVM_CMD_SGL_META \<equiv> 0x400"
abbreviation (input) NVM_CMD_PIOC :: u32 where "NVM_CMD_PIOC \<equiv> 0x800"
abbreviation (input) NVM_CMD_PADC :: u32 where "NVM_CMD_PADC \<equiv> 0x1000"
abbreviation (input) NVM_CMD_MASK_IOMD :: u32 where "NVM_CMD_MASK_IOMD \<equiv> 0x30"
abbreviation (input) NVM_CMD_MASK_ADDR :: u32 where "NVM_CMD_MASK_ADDR \<equiv> 0xC0"
abbreviation (input) NVM_CMD_MASK_PLOD :: u32 where "NVM_CMD_MASK_PLOD \<equiv> 0x700"

abbreviation (input) NVM_FLAG_PMODE_SNGL :: int where "NVM_FLAG_PMODE_SNGL \<equiv> 0"
abbreviation (input) NVM_FLAG_PMODE_DUAL :: int where "NVM_FLAG_PMODE_DUAL \<equiv> 1"
abbreviation (input) NVM_FLAG_PMODE_QUAD :: int where "NVM_FLAG_PMODE_QUAD \<equiv> 2"
abbreviation (input) NVM_FLAG_DEFAULT :: u32 where "NVM_FLAG_DEFAULT \<equiv> 0x200"

abbreviation (input) NVM_META_MODE_NONE :: int where "NVM_META_MODE_NONE \<equiv> 0"
abbreviation (input) NVM_META_MODE_ALPHA :: int where "NVM_META_MODE_ALPHA \<equiv> 1"
abbreviation (input) NVM_META_MODE_CONST :: int where "NVM_META_MODE_CONST \<equiv> 2"

abbreviation (input) NVM_QUIRK_PMODE_ERASE_RUNROLL :: u32 where "NVM_QUIRK_PMODE_ERASE_RUNROLL \<equiv> 1"
abbreviation (input) NVM_QUIRK_OOB_READ_1ST4BYTES_NULL :: u32 where
  "NVM_QUIRK_OOB_READ_1ST4BYTES_NULL \<equiv> 4"
abbreviation (input) NVM_QUIRK_OOB_2LRG :: u32 where "NVM_QUIRK_OOB_2LRG \<equiv> 8"

abbreviation (input) NVM_BOUNDS_CHANNEL :: u32 where "NVM_BOUNDS_CHANNEL \<equiv> 0x1"
abbreviation (input) NVM_BOUNDS_LUN :: u32 where "NVM_BOUNDS_LUN \<equiv> 0x2"
abbreviation (input) NVM_BOUNDS_PLANE :: u32 where "NVM_BOUNDS_PLANE \<equiv> 0x4"
abbreviation (input) NVM_BOUNDS_BLOCK :: u32 where "NVM_BOUNDS_BLOCK \<equiv> 0x8"
abbreviation (input) NVM_BOUNDS_PAGE :: u32 where "NVM_BOUNDS_PAGE \<equiv> 0x10"
abbreviation (input) NVM_BOUNDS_SECTOR :: u32 where "NVM_BOUNDS_SECTOR \<equiv> 0x20"
abbreviation (input) NVM_BOUNDS_PUGRP :: u32 where "NVM_BOUNDS_PUGRP \<equiv> 0x40"
abbreviation (input) NVM_BOUNDS_PUNIT :: u32 where "NVM_BOUNDS_PUNIT \<equiv> 0x80"
abbreviation (input) NVM_BOUNDS_CHUNK :: u32 where "NVM_BOUNDS_CHUNK \<equiv> 0x100"
abbreviation (input) NVM_BOUNDS_SECTR :: u32 where "NVM_BOUNDS_SECTR \<equiv> 0x200"

abbreviation (input) NVM_BBT_FREE :: "'a::zero" where "NVM_BBT_FREE \<equiv> 0"
abbreviation (input) NVM_BBT_BAD :: "'a::one" where "NVM_BBT_BAD \<equiv> 1"
abbreviation (input) NVM_BBT_GBAD :: "'a::numeral" where "NVM_BBT_GBAD \<equiv> 2"
abbreviation (input) NVM_BBT_DMRK :: "'a::numeral" where "NVM_BBT_DMRK \<equiv> 4"
abbreviation (input) NVM_BBT_HMRK :: "'a::numeral" where "NVM_BBT_HMRK \<equiv> 8"

abbreviation (input) NVM_AOPC_IDFY :: "'a::numeral" where "NVM_AOPC_IDFY \<equiv> 0xE2"
abbreviation (input) NVM_AOPC_RPRT :: "'a::numeral" where "NVM_AOPC_RPRT \<equiv> 0x02"
abbreviation (input) NVM_AOPC_SFEAT :: "'a::numeral" where "NVM_AOPC_SFEAT \<equiv> 0x09"
abbreviation (input) NVM_AOPC_GFEAT :: "'a::numeral" where "NVM_AOPC_GFEAT \<equiv> 0x0A"
abbreviation (input) NVM_AOPC_SBBT :: "'a::numeral" where "NVM_AOPC_SBBT \<equiv> 0xF1"
abbreviation (input) NVM_AOPC_GBBT :: "'a::numeral" where "NVM_AOPC_GBBT \<equiv> 0xF2"

abbreviation (input) NVM_DOPC_SCALAR_ERASE :: u16 where "NVM_DOPC_SCALAR_ERASE \<equiv> 0x09"
abbreviation (input) NVM_DOPC_SCALAR_WRITE :: u16 where "NVM_DOPC_SCALAR_WRITE \<equiv> 0x01"
abbreviation (input) NVM_DOPC_SCALAR_READ :: u16 where "NVM_DOPC_SCALAR_READ \<equiv> 0x02"
abbreviation (input) NVM_DOPC_VECTOR_ERASE :: u16 where "NVM_DOPC_VECTOR_ERASE \<equiv> 0x90"
abbreviation (input) NVM_DOPC_VECTOR_WRITE :: u16 where "NVM_DOPC_VECTOR_WRITE \<equiv> 0x91"
abbreviation (input) NVM_DOPC_VECTOR_READ :: u16 where "NVM_DOPC_VECTOR_READ \<equiv> 0x92"
abbreviation (input) NVM_DOPC_VECTOR_COPY :: u16 where "NVM_DOPC_VECTOR_COPY \<equiv> 0x93"

abbreviation (input) sizeof_rprt_descr :: "'a::numeral" where "sizeof_rprt_descr \<equiv> 32"

section \<open>Addresses\<close>

text \<open>\<open>struct nvm_addr\<close>: one 64-bit value with the 1.2 view \<open>g\<close> and the 2.0 view \<open>l\<close>.\<close>

datatype nvm_addr = NvmAddr (val: u64)

instantiation nvm_addr :: linorder
begin

definition less_eq_nvm_addr :: "nvm_addr \<Rightarrow> nvm_addr \<Rightarrow> bool" where
  "less_eq_nvm_addr a b \<longleftrightarrow> val a \<le> val b"

definition less_nvm_addr :: "nvm_addr \<Rightarrow> nvm_addr \<Rightarrow> bool" where
  "less_nvm_addr a b \<longleftrightarrow> val a < val b"

instance
  by standard (auto simp: less_eq_nvm_addr_def less_nvm_addr_def intro: nvm_addr.expand)

end

definition addr_get :: "nat \<Rightarrow> nat \<Rightarrow> nvm_addr \<Rightarrow> u64" where
  "addr_get off len a = bf_get off len (val a)"

definition addr_set :: "nat \<Rightarrow> nat \<Rightarrow> u64 \<Rightarrow> nvm_addr \<Rightarrow> nvm_addr" where
  "addr_set off len x a = NvmAddr (bf_set off len x (val a))"

abbreviation g_sec :: "nvm_addr \<Rightarrow> u64" where "g_sec \<equiv> addr_get 0 8"
abbreviation g_pg :: "nvm_addr \<Rightarrow> u64" where "g_pg \<equiv> addr_get 8 16"
abbreviation g_pl :: "nvm_addr \<Rightarrow> u64" where "g_pl \<equiv> addr_get 24 8"
abbreviation g_blk :: "nvm_addr \<Rightarrow> u64" where "g_blk \<equiv> addr_get 32 16"
abbreviation g_lun :: "nvm_addr \<Rightarrow> u64" where "g_lun \<equiv> addr_get 48 8"
abbreviation g_ch :: "nvm_addr \<Rightarrow> u64" where "g_ch \<equiv> addr_get 56 8"

abbreviation l_sectr :: "nvm_addr \<Rightarrow> u64" where "l_sectr \<equiv> addr_get 0 32"
abbreviation l_chunk :: "nvm_addr \<Rightarrow> u64" where "l_chunk \<equiv> addr_get 32 16"
abbreviation l_punit :: "nvm_addr \<Rightarrow> u64" where "l_punit \<equiv> addr_get 48 8"
abbreviation l_pugrp :: "nvm_addr \<Rightarrow> u64" where "l_pugrp \<equiv> addr_get 56 8"

abbreviation set_g_sec :: "u64 \<Rightarrow> nvm_addr \<Rightarrow> nvm_addr" where "set_g_sec \<equiv> addr_set 0 8"
abbreviation set_g_pg :: "u64 \<Rightarrow> nvm_addr \<Rightarrow> nvm_addr" where "set_g_pg \<equiv> addr_set 8 16"
abbreviation set_g_pl :: "u64 \<Rightarrow> nvm_addr \<Rightarrow> nvm_addr" where "set_g_pl \<equiv> addr_set 24 8"
abbreviation set_g_blk :: "u64 \<Rightarrow> nvm_addr \<Rightarrow> nvm_addr" where "set_g_blk \<equiv> addr_set 32 16"
abbreviation set_g_lun :: "u64 \<Rightarrow> nvm_addr \<Rightarrow> nvm_addr" where "set_g_lun \<equiv> addr_set 48 8"
abbreviation set_g_ch :: "u64 \<Rightarrow> nvm_addr \<Rightarrow> nvm_addr" where "set_g_ch \<equiv> addr_set 56 8"

abbreviation set_l_sectr :: "u64 \<Rightarrow> nvm_addr \<Rightarrow> nvm_addr" where "set_l_sectr \<equiv> addr_set 0 32"
abbreviation set_l_chunk :: "u64 \<Rightarrow> nvm_addr \<Rightarrow> nvm_addr" where "set_l_chunk \<equiv> addr_set 32 16"
abbreviation set_l_punit :: "u64 \<Rightarrow> nvm_addr \<Rightarrow> nvm_addr" where "set_l_punit \<equiv> addr_set 48 8"
abbreviation set_l_pugrp :: "u64 \<Rightarrow> nvm_addr \<Rightarrow> nvm_addr" where "set_l_pugrp \<equiv> addr_set 56 8"

lemma addr_get_set_same [bitfield_simps]:
  "off + len \<le> 64 \<Longrightarrow> addr_get off len (addr_set off len x a) = take_bit len x"
  by (simp add: addr_get_def addr_set_def bf_get_set_same)

lemma addr_get_set_other [bitfield_simps]:
  "off + len \<le> off' \<or> off' + len' \<le> off \<Longrightarrow>
     addr_get off len (addr_set off' len' x a) = addr_get off len a"
  by (simp add: addr_get_def addr_set_def bf_get_set_other)

lemma addr_get_lt: "unat (addr_get off len a) < 2 ^ len"
  by (simp add: addr_get_def bf_get_lt)

lemma addr_get_zero [simp]: "addr_get off len (NvmAddr 0) = 0"
  by (simp add: addr_get_def)

lemma take_bit_addr_get [simp]: "take_bit len (addr_get off len a) = addr_get off len a"
  by (simp add: addr_get_def)

lemma bit_addr_get: "bit (addr_get off len a) n \<longleftrightarrow> n < len \<and> bit (val a) (off + n)"
  by (simp add: addr_get_def bit_simps)

text \<open>The fields of either view determine the address.\<close>

lemma bit_field_cover:
  assumes get: "addr_get off len a = addr_get off len b" and n: "off \<le> n" "n < off + len"
  shows "bit (val a) n = bit (val b) n"
proof -
  have "bit (addr_get off len a) (n - off) = bit (addr_get off len b) (n - off)"
    by (simp add: get)
  then show ?thesis using n by (simp add: bit_addr_get less_diff_conv2)
qed

lemma addr_eq_l:
  assumes "l_sectr a = l_sectr b" "l_chunk a = l_chunk b" "l_punit a = l_punit b" "l_pugrp a = l_pugrp b"
  shows "a = b"
proof (rule nvm_addr.expand, rule bit_word_eqI)
  fix n assume n: "n < LENGTH(64)"
  consider "n < 32" | "32 \<le> n \<and> n < 48" | "48 \<le> n \<and> n < 56" | "56 \<le> n \<and> n < 64"
    using n by force
  then show "bit (val a) n = bit (val b) n"
    using bit_field_cover [OF assms(1), of n] bit_field_cover [OF assms(2), of n]
      bit_field_cover [OF assms(3), of n] bit_field_cover [OF assms(4), of n]
    by cases simp_all
qed

lemma addr_eq_g:
  assumes "g_sec a = g_sec b" "g_pg a = g_pg b" "g_pl a = g_pl b" "g_blk a = g_blk b"
    "g_lun a = g_lun b" "g_ch a = g_ch b"
  shows "a = b"
proof (rule nvm_addr.expand, rule bit_word_eqI)
  fix n assume n: "n < LENGTH(64)"
  consider "n < 8" | "8 \<le> n \<and> n < 24" | "24 \<le> n \<and> n < 32" | "32 \<le> n \<and> n < 48"
    | "48 \<le> n \<and> n < 56" | "56 \<le> n \<and> n < 64"
    using n by force
  then show "bit (val a) n = bit (val b) n"
    using bit_field_cover [OF assms(1), of n] bit_field_cover [OF assms(2), of n]
      bit_field_cover [OF assms(3), of n] bit_field_cover [OF assms(4), of n]
      bit_field_cover [OF assms(5), of n] bit_field_cover [OF assms(6), of n]
    by cases simp_all
qed

section \<open>Geometry and address formats\<close>

text \<open>
  \<open>struct nvm_geo\<close>: the members of the 2.0 view share storage with the first six of the 1.2 view.
\<close>

record nvm_geo =
  nchannels :: u64
  nluns :: u64
  nblocks :: u64
  nsectors :: u64
  sector_nbytes :: u64
  meta_nbytes :: u64
  nplanes :: u64
  npages :: u64
  page_nbytes :: u64
  tbytes :: u64
  geo_verid :: int

abbreviation l_npugrp :: "nvm_geo \<Rightarrow> u64" where "l_npugrp \<equiv> nchannels"
abbreviation l_npunit :: "nvm_geo \<Rightarrow> u64" where "l_npunit \<equiv> nluns"
abbreviation l_nchunk :: "nvm_geo \<Rightarrow> u64" where "l_nchunk \<equiv> nblocks"
abbreviation l_nsectr :: "nvm_geo \<Rightarrow> u64" where "l_nsectr \<equiv> nsectors"
abbreviation l_nbytes :: "nvm_geo \<Rightarrow> u64" where "l_nbytes \<equiv> sector_nbytes"
abbreviation l_nbytes_oob :: "nvm_geo \<Rightarrow> u64" where "l_nbytes_oob \<equiv> meta_nbytes"

record nvm_spec_ppaf_nand =
  ch_off :: u8
  ch_len :: u8
  lun_off :: u8
  lun_len :: u8
  pl_off :: u8
  pl_len :: u8
  blk_off :: u8
  blk_len :: u8
  pg_off :: u8
  pg_len :: u8
  sec_off :: u8
  sec_len :: u8

text \<open>The view \<open>a\<close> of the format: the fields as consecutive bytes.\<close>

definition ppaf_a :: "nvm_spec_ppaf_nand \<Rightarrow> u8 list" where
  "ppaf_a p = [ch_off p, ch_len p, lun_off p, lun_len p, pl_off p, pl_len p,
     blk_off p, blk_len p, pg_off p, pg_len p, sec_off p, sec_len p]"

record nvm_spec_ppaf_nand_mask =
  m_ch :: u64
  m_lun :: u64
  m_pl :: u64
  m_blk :: u64
  m_pg :: u64
  m_sec :: u64

record nvm_spec_lbaf =
  lbaf_pugrp :: u8
  lbaf_punit :: u8
  lbaf_chunk :: u8
  lbaf_sectr :: u8

record nvm_spec_lbaz =
  lbaz_pugrp :: u64
  lbaz_punit :: u64
  lbaz_chunk :: u64
  lbaz_sectr :: u64

record nvm_spec_lbam =
  lbam_pugrp :: u64
  lbam_punit :: u64
  lbam_chunk :: u64
  lbam_sectr :: u64

section \<open>Identify data\<close>

record nvm_spec_idfy_cgrp =
  num_ch :: u8
  num_lun :: u8
  num_pln :: u8
  num_blk :: u16
  num_pg :: u16
  fpg_sz :: u16
  csecs :: u16
  sos :: u16
  cgrp_mccap :: u32

record nvm_spec_idfy_s12 =
  s12_cgroups :: u8
  s12_ppaf :: nvm_spec_ppaf_nand
  s12_grp0 :: nvm_spec_idfy_cgrp

record nvm_spec_lgeo =
  lgeo_npugrp :: u16
  lgeo_npunit :: u16
  lgeo_nchunk :: u32
  lgeo_nsectr :: u32

record nvm_spec_wrt =
  ws_min :: u32
  ws_opt :: u32
  mw_cunits :: u32
  maxoc :: u32
  maxocpu :: u32

record nvm_spec_idfy_s20 =
  s20_lbaf :: nvm_spec_lbaf
  s20_mccap :: u32
  s20_wit :: u8
  s20_lgeo :: nvm_spec_lgeo
  s20_wrt :: nvm_spec_wrt

record nvm_spec_idfy =
  idfy_verid :: u8
  idfy_s12 :: nvm_spec_idfy_s12
  idfy_s20 :: nvm_spec_idfy_s20

record nvm_nvme_lbaf =
  lbaf_ms :: u16
  lbaf_ds :: u8
  lbaf_rp :: u8

record nvm_nvme_ns =
  ns_nsze :: u64
  ns_ncap :: u64
  ns_nuse :: u64
  ns_flbas :: u8
  ns_lbaf :: "nvm_nvme_lbaf list"

section \<open>Reports, bad-block tables, command results\<close>

record nvm_spec_rprt_descr =
  descr_cs :: u8
  descr_ct :: u8
  descr_wli :: u8
  descr_addr :: u64
  descr_naddrs :: u64
  descr_wp :: u64

record nvm_spec_rprt =
  rprt_ndescr :: u32
  rprt_descr :: "nvm_spec_rprt_descr list"

record nvm_spec_bbt =
  sbbt_tblid :: "u8 list"
  sbbt_tblks :: u32
  sbbt_tfact :: u32
  sbbt_tgrown :: u32
  sbbt_tdresv :: u32
  sbbt_thresv :: u32
  sbbt_blk :: "u8 list"

record nvm_bbt =
  bbt_self :: ptr
  bbt_addr :: nvm_addr
  bbt_nblks :: u64
  bbt_nbad :: u32
  bbt_ngbad :: u32
  bbt_ndmrk :: u32
  bbt_nhmrk :: u32
  bbt_blks :: "u8 list"

text \<open>
  In \<open>struct nvm_bbt\<close> the address of the structure itself is \<open>bbt_self\<close>; the member \<open>dev\<close> is the device
  whose table it is.

  \<open>struct nvm_ret\<close>: \<open>result\<close> is the union of \<open>vio.cs\<close> and \<open>cdw0\<close>.
\<close>

record nvm_ret =
  ret_result :: u64
  ret_status :: u16

record nvm_nvme_status =
  st_sc :: u16
  st_sct :: u16
  st_m :: u16
  st_dnr :: u16

record nvm_nvme_cpl =
  cpl_cdw0 :: u32
  cpl_status :: nvm_nvme_status

section \<open>NVMe commands\<close>

text \<open>
  A scatter-gather descriptor is its address and the word of the other fields: \<open>len\<close> at bit 0 of
  width 32, \<open>subtype\<close> at 56 and \<open>type\<close> at 60 of width 4.
\<close>

record nvm_nvme_sgl_descriptor =
  sgld_addr :: u64
  sgld_word :: u64

record nvm_nvme_dsm_range =
  dsmr_cattr :: u32
  dsmr_nlb :: u32
  dsmr_slba :: u64

text \<open>
  \<open>struct nvm_nvme_cmd\<close>. \<open>cmd_dptr0\<close> and \<open>cmd_dptr1\<close> are the data pointer (two PRP entries or one
  descriptor); \<open>cmd_addrs\<close> holds dwords 10 and 11, with the views \<open>dsm\<close>, \<open>rprt\<close>, \<open>gfeat\<close>, \<open>sfeat\<close>;
  \<open>cmd_cdw12\<close> has the views \<open>nvme\<close>, \<open>s12\<close> and \<open>s20\<close>.
\<close>

record nvm_nvme_cmd =
  cmd_opcode :: u8
  cmd_fuse :: u8
  cmd_psdt :: u8
  cmd_cid :: u16
  cmd_nsid :: u32
  cmd_cdw02 :: u32
  cmd_cdw03 :: u32
  cmd_mptr :: u64
  cmd_dptr0 :: u64
  cmd_dptr1 :: u64
  cmd_addrs :: u64
  cmd_cdw12 :: u32
  cmd_cdw13 :: u32
  cmd_addrs_dst :: u64

definition cmd_zero :: nvm_nvme_cmd where
  "cmd_zero = \<lparr>cmd_opcode = 0, cmd_fuse = 0, cmd_psdt = 0, cmd_cid = 0, cmd_nsid = 0, cmd_cdw02 = 0,
     cmd_cdw03 = 0, cmd_mptr = 0, cmd_dptr0 = 0, cmd_dptr1 = 0, cmd_addrs = 0, cmd_cdw12 = 0,
     cmd_cdw13 = 0, cmd_addrs_dst = 0\<rparr>"

section \<open>The device\<close>

text \<open>\<open>struct nvm_async_ctx\<close>; \<open>ctx_self\<close> is its address.\<close>

record nvm_async_ctx =
  ctx_self :: ptr
  ctx_depth :: u32
  ctx_outstanding :: u32
  ctx_be_ctx :: ptr

text \<open>
  \<open>struct nvm_dev\<close>. The backend pointer \<open>be\<close> is the identifier of the entry of \<open>nvm_be_imps\<close> it
  points to (\<open>None\<close> for \<open>NULL\<close>); the operations of the backend are an argument of the
  definitions that call them.
\<close>

record nvm_dev =
  dev_fd :: int
  dev_name :: string
  dev_path :: string
  dev_nsid :: int
  dev_verid :: u8
  dev_idfy :: nvm_spec_idfy
  dev_ns :: nvm_nvme_ns
  dev_lbaf :: nvm_spec_lbaf
  dev_lbaz :: nvm_spec_lbaz
  dev_lbam :: nvm_spec_lbam
  dev_ppaf :: nvm_spec_ppaf_nand
  dev_mask :: nvm_spec_ppaf_nand_mask
  dev_geo :: nvm_geo
  dev_ssw :: u64
  dev_mccap :: u32
  dev_pmode :: int
  dev_erase_naddrs_max :: int
  dev_read_naddrs_max :: int
  dev_write_naddrs_max :: int
  dev_meta_mode :: int
  dev_bbts_cached :: int
  dev_nbbts :: u64
  dev_bbts :: "nvm_bbt option list"
  dev_quirks :: u32
  dev_be :: "u32 option"
  dev_be_state :: ptr
  dev_cmd_opts :: u32

section \<open>Two concrete devices\<close>

text \<open>
  The inputs of the witness theorems: a blank device as \<open>calloc\<close> returns it, a 2.0 device with 8
  parallel unit groups of 4 units, 1474 chunks of 6144 sectors of 4096 bytes, and a 1.2 device
  with 16 channels of 8 LUNs, 2 planes, 1067 blocks of 512 pages of 4 sectors of 4096 bytes.
\<close>

definition dev_zero :: nvm_dev where
  "dev_zero = \<lparr>dev_fd = 0, dev_name = [], dev_path = [], dev_nsid = 0, dev_verid = 0,
     dev_idfy = \<lparr>idfy_verid = 0,
       idfy_s12 = \<lparr>s12_cgroups = 0, s12_ppaf = \<lparr>ch_off = 0, ch_len = 0, lun_off = 0, lun_len = 0, pl_off = 0,
           pl_len = 0, blk_off = 0, blk_len = 0, pg_off = 0, pg_len = 0, sec_off = 0, sec_len = 0\<rparr>,
         s12_grp0 = \<lparr>num_ch = 0, num_lun = 0, num_pln = 0, num_blk = 0, num_pg = 0, fpg_sz = 0, csecs = 0,
           sos = 0, cgrp_mccap = 0\<rparr>\<rparr>,
       idfy_s20 = \<lparr>s20_lbaf = \<lparr>lbaf_pugrp = 0, lbaf_punit = 0, lbaf_chunk = 0, lbaf_sectr = 0\<rparr>, s20_mccap = 0,
         s20_wit = 0, s20_lgeo = \<lparr>lgeo_npugrp = 0, lgeo_npunit = 0, lgeo_nchunk = 0, lgeo_nsectr = 0\<rparr>,
         s20_wrt = \<lparr>ws_min = 0, ws_opt = 0, mw_cunits = 0, maxoc = 0, maxocpu = 0\<rparr>\<rparr>\<rparr>,
     dev_ns = \<lparr>ns_nsze = 0, ns_ncap = 0, ns_nuse = 0, ns_flbas = 0,
       ns_lbaf = replicate 16 \<lparr>lbaf_ms = 0, lbaf_ds = 0, lbaf_rp = 0\<rparr>\<rparr>,
     dev_lbaf = \<lparr>lbaf_pugrp = 0, lbaf_punit = 0, lbaf_chunk = 0, lbaf_sectr = 0\<rparr>,
     dev_lbaz = \<lparr>lbaz_pugrp = 0, lbaz_punit = 0, lbaz_chunk = 0, lbaz_sectr = 0\<rparr>,
     dev_lbam = \<lparr>lbam_pugrp = 0, lbam_punit = 0, lbam_chunk = 0, lbam_sectr = 0\<rparr>,
     dev_ppaf = \<lparr>ch_off = 0, ch_len = 0, lun_off = 0, lun_len = 0, pl_off = 0, pl_len = 0,
       blk_off = 0, blk_len = 0, pg_off = 0, pg_len = 0, sec_off = 0, sec_len = 0\<rparr>,
     dev_mask = \<lparr>m_ch = 0, m_lun = 0, m_pl = 0, m_blk = 0, m_pg = 0, m_sec = 0\<rparr>,
     dev_geo = \<lparr>nchannels = 0, nluns = 0, nblocks = 0, nsectors = 0, sector_nbytes = 0, meta_nbytes = 0,
       nplanes = 0, npages = 0, page_nbytes = 0, tbytes = 0, geo_verid = 0\<rparr>,
     dev_ssw = 0, dev_mccap = 0, dev_pmode = 0, dev_erase_naddrs_max = 0, dev_read_naddrs_max = 0,
     dev_write_naddrs_max = 0, dev_meta_mode = 0, dev_bbts_cached = 0, dev_nbbts = 0, dev_bbts = [],
     dev_quirks = 0, dev_be = None, dev_be_state = 0, dev_cmd_opts = 0\<rparr>"

definition ex_dev_s20 :: nvm_dev where
  "ex_dev_s20 = dev_zero\<lparr>dev_verid := 2,
     dev_lbaf := \<lparr>lbaf_pugrp = 3, lbaf_punit = 2, lbaf_chunk = 11, lbaf_sectr = 13\<rparr>,
     dev_lbaz := \<lparr>lbaz_pugrp = 26, lbaz_punit = 24, lbaz_chunk = 13, lbaz_sectr = 0\<rparr>,
     dev_lbam := \<lparr>lbam_pugrp = 0x1C000000, lbam_punit = 0x3000000, lbam_chunk = 0xFFE000,
       lbam_sectr = 0x1FFF\<rparr>,
     dev_geo := \<lparr>nchannels = 8, nluns = 4, nblocks = 1474, nsectors = 6144, sector_nbytes = 4096,
       meta_nbytes = 16, nplanes = 0, npages = 0, page_nbytes = 0, tbytes = 8 * 4 * 1474 * 6144 * 4096,
       geo_verid = 2\<rparr>,
     dev_ssw := 12, dev_erase_naddrs_max := 64, dev_read_naddrs_max := 64, dev_write_naddrs_max := 64,
     dev_cmd_opts := 0x150, dev_be := Some NVM_BE_SPDK\<rparr>"

definition ex_dev_s12 :: nvm_dev where
  "ex_dev_s12 = dev_zero\<lparr>dev_verid := 1,
     dev_ppaf := \<lparr>ch_off = 26, ch_len = 4, lun_off = 23, lun_len = 3, pl_off = 2, pl_len = 1,
       blk_off = 12, blk_len = 11, pg_off = 3, pg_len = 9, sec_off = 0, sec_len = 2\<rparr>,
     dev_mask := \<lparr>m_ch = 0x3C000000, m_lun = 0x3800000, m_pl = 4, m_blk = 0x7FF000, m_pg = 0xFF8,
       m_sec = 3\<rparr>,
     dev_geo := \<lparr>nchannels = 16, nluns = 8, nblocks = 1067, nsectors = 4, sector_nbytes = 4096,
       meta_nbytes = 16, nplanes = 2, npages = 512, page_nbytes = 16384,
       tbytes = 16 * 8 * 2 * 1067 * 512 * 4 * 4096, geo_verid = 1\<rparr>,
     dev_ssw := 12, dev_pmode := NVM_FLAG_PMODE_DUAL, dev_erase_naddrs_max := 64,
     dev_read_naddrs_max := 64, dev_write_naddrs_max := 64, dev_cmd_opts := 0x190, dev_be := Some NVM_BE_IOCTL\<rparr>"

end
