(* ===== verification/Nvm_Addr.thy ===== *)
theory Nvm_Addr
  imports Nvm_Types
begin

text \<open>
  Addressing, \<open>src/nvm_addr.c\<close>: bounds checks, conversion between the generic format
  (\<open>nvm_addr\<close>), the device format (a packed 64-bit word whose field positions the device
  reports), byte offsets and offsets in the chunk-report log page.

  The contract of a device format (what is encoded is decoded again) is the locale
  \<open>addr_codec\<close>; it is interpreted for the 1.2 and for the 2.0 format of the code.
\<close>

section \<open>Operations\<close>

definition bound_bit :: "u64 \<Rightarrow> u64 \<Rightarrow> u32 \<Rightarrow> u32" where
  "bound_bit x n b = (if n \<le> x then b else 0)"

definition nvm_addr_check :: "nvm_addr \<Rightarrow> nvm_dev \<Rightarrow> u32 res" where
  "nvm_addr_check addr dev =
     (let geo = dev_geo dev in
      if dev_verid dev = NVM_SPEC_VERID_12 then
        Inr (bound_bit (g_ch addr) (nchannels geo) NVM_BOUNDS_CHANNEL
          OR bound_bit (g_lun addr) (nluns geo) NVM_BOUNDS_LUN
          OR bound_bit (g_pl addr) (nplanes geo) NVM_BOUNDS_PLANE
          OR bound_bit (g_blk addr) (nblocks geo) NVM_BOUNDS_BLOCK
          OR bound_bit (g_pg addr) (npages geo) NVM_BOUNDS_PAGE
          OR bound_bit (g_sec addr) (nsectors geo) NVM_BOUNDS_SECTOR)
      else if dev_verid dev = NVM_SPEC_VERID_20 then
        Inr (bound_bit (l_pugrp addr) (l_npugrp geo) NVM_BOUNDS_PUGRP
          OR bound_bit (l_punit addr) (l_npunit geo) NVM_BOUNDS_PUNIT
          OR bound_bit (l_chunk addr) (l_nchunk geo) NVM_BOUNDS_CHUNK
          OR bound_bit (l_sectr addr) (l_nsectr geo) NVM_BOUNDS_SECTR)
      else Inl (Errno EINVAL))"

text \<open>The test \<open>if (nvm_addr_check(addr, dev))\<close> of the callers.\<close>

definition addr_check_fails :: "nvm_addr \<Rightarrow> nvm_dev \<Rightarrow> bool" where
  "addr_check_fails addr dev \<longleftrightarrow> nvm_addr_check addr dev \<noteq> Inr 0"

definition gen2dev_s20 :: "nvm_dev \<Rightarrow> nvm_addr \<Rightarrow> u64" where
  "gen2dev_s20 dev addr =
     push_bit (unat (lbaz_pugrp (dev_lbaz dev))) (l_pugrp addr)
     OR push_bit (unat (lbaz_punit (dev_lbaz dev))) (l_punit addr)
     OR push_bit (unat (lbaz_chunk (dev_lbaz dev))) (l_chunk addr)
     OR push_bit (unat (lbaz_sectr (dev_lbaz dev))) (l_sectr addr)"

definition gen2dev_s12 :: "nvm_dev \<Rightarrow> nvm_addr \<Rightarrow> u64" where
  "gen2dev_s12 dev addr =
     push_bit (unat (ch_off (dev_ppaf dev))) (g_ch addr)
     OR push_bit (unat (lun_off (dev_ppaf dev))) (g_lun addr)
     OR push_bit (unat (pl_off (dev_ppaf dev))) (g_pl addr)
     OR push_bit (unat (blk_off (dev_ppaf dev))) (g_blk addr)
     OR push_bit (unat (pg_off (dev_ppaf dev))) (g_pg addr)
     OR push_bit (unat (sec_off (dev_ppaf dev))) (g_sec addr)"

definition nvm_addr_gen2dev :: "nvm_dev \<Rightarrow> nvm_addr \<Rightarrow> u64" where
  "nvm_addr_gen2dev dev addr =
     (if dev_verid dev = NVM_SPEC_VERID_20 then gen2dev_s20 dev addr else gen2dev_s12 dev addr)"

definition dev_field :: "u64 \<Rightarrow> u64 \<Rightarrow> nat \<Rightarrow> u64" where
  "dev_field addr msk off = drop_bit off (addr AND msk)"

definition dev2gen_s20 :: "nvm_dev \<Rightarrow> u64 \<Rightarrow> nvm_addr" where
  "dev2gen_s20 dev addr =
     (let z = dev_lbaz dev; m = dev_lbam dev; gen = NvmAddr 0;
        gen = set_l_pugrp (dev_field addr (lbam_pugrp m) (unat (lbaz_pugrp z))) gen;
        gen = set_l_punit (dev_field addr (lbam_punit m) (unat (lbaz_punit z))) gen;
        gen = set_l_chunk (dev_field addr (lbam_chunk m) (unat (lbaz_chunk z))) gen
      in set_l_sectr (dev_field addr (lbam_sectr m) (unat (lbaz_sectr z))) gen)"

definition dev2gen_s12 :: "nvm_dev \<Rightarrow> u64 \<Rightarrow> nvm_addr" where
  "dev2gen_s12 dev addr =
     (let p = dev_ppaf dev; m = dev_mask dev; gen = NvmAddr 0;
        gen = set_g_ch (dev_field addr (m_ch m) (unat (ch_off p))) gen;
        gen = set_g_lun (dev_field addr (m_lun m) (unat (lun_off p))) gen;
        gen = set_g_pl (dev_field addr (m_pl m) (unat (pl_off p))) gen;
        gen = set_g_blk (dev_field addr (m_blk m) (unat (blk_off p))) gen;
        gen = set_g_pg (dev_field addr (m_pg m) (unat (pg_off p))) gen
      in set_g_sec (dev_field addr (m_sec m) (unat (sec_off p))) gen)"

definition nvm_addr_dev2gen :: "nvm_dev \<Rightarrow> u64 \<Rightarrow> nvm_addr" where
  "nvm_addr_dev2gen dev addr =
     (if dev_verid dev = NVM_SPEC_VERID_20 then dev2gen_s20 dev addr else dev2gen_s12 dev addr)"

definition nvm_addr_gen2off :: "nvm_dev \<Rightarrow> nvm_addr \<Rightarrow> u64" where
  "nvm_addr_gen2off dev addr = push_bit (unat (dev_ssw dev)) (nvm_addr_gen2dev dev addr)"

definition nvm_addr_off2gen :: "nvm_dev \<Rightarrow> u64 \<Rightarrow> nvm_addr" where
  "nvm_addr_off2gen dev off = nvm_addr_dev2gen dev (drop_bit (unat (dev_ssw dev)) off)"

definition nvm_addr_dev2off :: "nvm_dev \<Rightarrow> u64 \<Rightarrow> u64" where
  "nvm_addr_dev2off dev addr = push_bit (unat (dev_ssw dev)) addr"

definition nvm_addr_off2dev :: "nvm_dev \<Rightarrow> u64 \<Rightarrow> u64" where
  "nvm_addr_off2dev dev off = drop_bit (unat (dev_ssw dev)) off"

definition nvm_addr_gen2lpo :: "nvm_dev \<Rightarrow> nvm_addr \<Rightarrow> u64" where
  "nvm_addr_gen2lpo dev addr =
     (let geo = dev_geo dev; idx = 0;
        idx = idx + l_pugrp addr * l_npunit geo * l_nchunk geo;
        idx = idx + l_punit addr * l_nchunk geo;
        idx = idx + l_chunk addr
      in idx * sizeof_rprt_descr)"

definition nvm_addr_lpo2gen :: "nvm_dev \<Rightarrow> u64 \<Rightarrow> nvm_addr res" where
  "nvm_addr_lpo2gen dev lpo =
     (let geo = dev_geo dev; i = lpo div sizeof_rprt_descr in
      if l_nchunk geo = 0 \<or> l_npunit geo = 0 \<or> l_npugrp geo = 0 then Inl (Fault DivByZero)
      else Inr (set_l_pugrp (((i div l_nchunk geo) div l_npunit geo) mod l_npugrp geo)
        (set_l_punit ((i div l_nchunk geo) mod l_npunit geo)
          (set_l_chunk (i mod l_nchunk geo)
            (set_l_sectr 0 (NvmAddr 0))))))"

text \<open>
  \<open>nvm_addr_fill_crange\<close>: \<open>addrs\<close> is the caller's array; an index at or past its length is an
  access outside of it. The first element is assigned even when \<open>naddrs\<close> is 0.
\<close>

fun fill_crange_loop :: "nat \<Rightarrow> nat \<Rightarrow> nvm_addr list \<Rightarrow> nvm_addr list res" where
  "fill_crange_loop 0 i addrs = Inr addrs"
| "fill_crange_loop (Suc k) i addrs =
     (if i < length addrs then
        let a = addrs ! (i - 1)
        in fill_crange_loop k (Suc i) (addrs[i := set_l_sectr (l_sectr a + 1) a])
      else Inl (Fault OutOfBounds))"

definition nvm_addr_fill_crange :: "nvm_addr list \<Rightarrow> nvm_addr \<Rightarrow> u32 \<Rightarrow> nvm_addr list res" where
  "nvm_addr_fill_crange addrs addr naddrs =
     (if addrs = [] then Inl (Fault OutOfBounds)
      else fill_crange_loop (unat naddrs - 1) 1 (addrs[0 := addr]))"

section \<open>Bounds\<close>

lemma bound_bit_zero [simp]: "b \<noteq> 0 \<Longrightarrow> bound_bit x n b = 0 \<longleftrightarrow> x < n"
  by (auto simp: bound_bit_def)

lemma or_zero_iff: "a OR b = 0 \<longleftrightarrow> a = 0 \<and> b = (0 :: 'a::len word)"
  by (auto simp: bit_eq_iff bit_simps)

definition in_bounds_s20 :: "nvm_geo \<Rightarrow> nvm_addr \<Rightarrow> bool" where
  "in_bounds_s20 geo a \<longleftrightarrow> l_pugrp a < l_npugrp geo \<and> l_punit a < l_npunit geo
     \<and> l_chunk a < l_nchunk geo \<and> l_sectr a < l_nsectr geo"

definition in_bounds_s12 :: "nvm_geo \<Rightarrow> nvm_addr \<Rightarrow> bool" where
  "in_bounds_s12 geo a \<longleftrightarrow> g_ch a < nchannels geo \<and> g_lun a < nluns geo \<and> g_pl a < nplanes geo
     \<and> g_blk a < nblocks geo \<and> g_pg a < npages geo \<and> g_sec a < nsectors geo"

lemma addr_check_fails_s20:
  "dev_verid dev = 2 \<Longrightarrow> addr_check_fails a dev \<longleftrightarrow> \<not> in_bounds_s20 (dev_geo dev) a"
  by (simp add: addr_check_fails_def nvm_addr_check_def in_bounds_s20_def Let_def or_zero_iff)

lemma addr_check_fails_s12:
  "dev_verid dev = 1 \<Longrightarrow> addr_check_fails a dev \<longleftrightarrow> \<not> in_bounds_s12 (dev_geo dev) a"
  by (simp add: addr_check_fails_def nvm_addr_check_def in_bounds_s12_def Let_def or_zero_iff)

lemma addr_check_fails_other:
  "dev_verid dev \<noteq> 1 \<Longrightarrow> dev_verid dev \<noteq> 2 \<Longrightarrow> addr_check_fails a dev"
  by (simp add: addr_check_fails_def nvm_addr_check_def Let_def)

section \<open>Packed fields\<close>

text \<open>
  A device address is the disjunction of fields shifted to their offsets; a field is read back
  with its mask. Reading a field sees exactly its own summand when the fields do not overlap.
\<close>

definition field_disj :: "nat \<times> nat \<Rightarrow> nat \<times> nat \<Rightarrow> bool" where
  "field_disj f g \<longleftrightarrow> fst f + snd f \<le> fst g \<or> fst g + snd g \<le> fst f"

fun fields_disj :: "(nat \<times> nat) list \<Rightarrow> bool" where
  "fields_disj [] \<longleftrightarrow> True"
| "fields_disj (f # fs) \<longleftrightarrow> (\<forall>g \<in> set fs. field_disj f g) \<and> fields_disj fs"

definition field_mask :: "nat \<Rightarrow> nat \<Rightarrow> u64" where
  "field_mask off len = push_bit off (mask len)"

lemma bit_lt_of_fits: "unat y < 2 ^ len \<Longrightarrow> bit y n \<Longrightarrow> n < len" for y :: "'a::len word"
  by (metis bit_take_bit_iff take_bit_id)

lemma field_disj_sym: "field_disj f g \<Longrightarrow> field_disj g f"
  by (auto simp: field_disj_def)

lemma dev_field_or: "dev_field (a OR b) m off = dev_field a m off OR dev_field b m off"
  by (rule bit_word_eqI) (auto simp: dev_field_def bit_simps)

lemma dev_field_same:
  assumes "off + len \<le> 64" "unat x < 2 ^ len"
  shows "dev_field (push_bit off x) (field_mask off len) off = x"
proof (rule bit_word_eqI)
  fix n assume "n < LENGTH(64)"
  then show "bit (dev_field (push_bit off x) (field_mask off len) off) n = bit x n"
    using assms(1) bit_lt_of_fits [OF assms(2), of n]
    by (auto simp: dev_field_def field_mask_def bit_simps)
qed

lemma dev_field_disj:
  assumes "field_disj (off, len) (off', len')" "unat x < 2 ^ len'"
  shows "dev_field (push_bit off' x) (field_mask off len) off = 0"
proof (rule bit_word_eqI)
  fix n assume "n < LENGTH(64)"
  then show "bit (dev_field (push_bit off' x) (field_mask off len) off) n = bit 0 n"
    using assms(1) bit_lt_of_fits [OF assms(2), of "off + n - off'"]
    by (auto simp: dev_field_def field_mask_def bit_simps field_disj_def)
qed

lemma unat_push_bit: "unat (push_bit n x) = unat x * 2 ^ n mod 2 ^ LENGTH('a)" for x :: "'a::len word"
  by (simp only: unsigned_push_bit_eq) (simp add: push_bit_eq_mult take_bit_eq_mod)

lemma push_bit_lt:
  assumes "unat x < 2 ^ len" "off + len \<le> k" "k \<le> 64" shows "unat (push_bit off x :: u64) < 2 ^ k"
proof -
  have "unat (push_bit off x) \<le> unat x * 2 ^ off"
    by (simp add: unat_push_bit)
  also have "\<dots> < 2 ^ len * 2 ^ off"
    using assms(1) by simp
  also have "\<dots> \<le> 2 ^ k"
    using assms(2) by (simp add: power_add [symmetric] add.commute power_increasing)
  finally show ?thesis .
qed

lemma or_lt:
  fixes x :: "'a::len word"
  assumes "unat x < 2 ^ k" "unat y < 2 ^ k" shows "unat (x OR y) < 2 ^ k"
proof -
  have "take_bit k (x OR y) = x OR y"
    using assms by (simp add: take_bit_or take_bit_id)
  then show ?thesis
    by (metis take_bit_nat_less_exp unsigned_take_bit_eq)
qed

section \<open>The contract of a device format\<close>

text \<open>
  What the rest of the library relies on: on addresses that fit the format, decoding undoes
  encoding. The extension adds byte offsets, which need the address to leave room for the shift.
\<close>

locale addr_codec =
  fixes wf :: "'d \<Rightarrow> bool" and fits :: "'d \<Rightarrow> nvm_addr \<Rightarrow> bool"
    and enc :: "'d \<Rightarrow> nvm_addr \<Rightarrow> u64" and dec :: "'d \<Rightarrow> u64 \<Rightarrow> nvm_addr"
  assumes dec_enc: "wf d \<Longrightarrow> fits d a \<Longrightarrow> dec d (enc d a) = a"
begin

lemma enc_inj: "wf d \<Longrightarrow> inj_on (enc d) {a. fits d a}"
  by (rule inj_on_inverseI [where g = "dec d"]) (simp add: dec_enc)

lemma map_dec_enc: "wf d \<Longrightarrow> \<forall>a \<in> set as. fits d a \<Longrightarrow> map (dec d) (map (enc d) as) = as"
  by (induction as) (auto simp: dec_enc)

lemma distinct_enc: "wf d \<Longrightarrow> \<forall>a \<in> set as. fits d a \<Longrightarrow> distinct (map (enc d) as) = distinct as"
  by (metis distinct_map map_dec_enc)

end

locale addr_codec_off = addr_codec +
  fixes sh :: "'d \<Rightarrow> nat"
  assumes enc_lt: "wf d \<Longrightarrow> fits d a \<Longrightarrow> unat (enc d a) < 2 ^ (64 - sh d)"
    and sh_lt: "wf d \<Longrightarrow> sh d < 64"
begin

lemma unat_off: "wf d \<Longrightarrow> fits d a \<Longrightarrow> unat (push_bit (sh d) (enc d a)) = unat (enc d a) * 2 ^ sh d"
proof -
  assume d: "wf d" "fits d a"
  have "unat (enc d a) * 2 ^ sh d < 2 ^ (64 - sh d) * 2 ^ sh d"
    using enc_lt [OF d] by simp
  also have "\<dots> = 2 ^ 64"
    using sh_lt [OF d(1)] by (simp add: power_add [symmetric] del: power_Suc)
  finally show ?thesis
    by (simp add: unat_push_bit)
qed

lemma dec_off: "wf d \<Longrightarrow> fits d a \<Longrightarrow> dec d (drop_bit (sh d) (push_bit (sh d) (enc d a))) = a"
proof -
  assume d: "wf d" "fits d a"
  have "unat (drop_bit (sh d) (push_bit (sh d) (enc d a))) = unat (enc d a)"
    by (simp only: unat_drop_bit_eq unat_off [OF d]) (simp add: drop_bit_eq_div)
  then show ?thesis
    using dec_enc [OF d] by (simp only: word_unat_eq_iff [symmetric])
qed

text \<open>Distinct addresses name disjoint byte ranges of \<open>2 ^ sh\<close> bytes.\<close>

lemma off_disjoint:
  assumes "wf d" "fits d a" "fits d b" "a \<noteq> b" "i < 2 ^ sh d" "j < 2 ^ sh d"
  shows "unat (push_bit (sh d) (enc d a)) + i \<noteq> unat (push_bit (sh d) (enc d b)) + j"
proof
  assume eq: "unat (push_bit (sh d) (enc d a)) + i = unat (push_bit (sh d) (enc d b)) + j"
  have "unat (enc d a) = (unat (enc d a) * 2 ^ sh d + i) div 2 ^ sh d"
    using assms(5) by simp
  also have "\<dots> = (unat (enc d b) * 2 ^ sh d + j) div 2 ^ sh d"
    using eq unat_off assms(1-3) by simp
  also have "\<dots> = unat (enc d b)"
    using assms(6) by simp
  finally have "enc d a = enc d b"
    by (simp add: word_unat_eq_iff)
  then show False
    using dec_enc assms(1-4) by metis
qed

end

section \<open>The 2.0 format\<close>

text \<open>
  \<open>wf_lbaf\<close> is what \<open>nvm_be_populate\<close> establishes from an identify structure whose field widths
  make sense (theorem \<open>populate_wf_s20\<close>): offsets cumulative from the sector field, masks of the
  field widths, and every shift count below 64.
\<close>

definition wf_lbaf :: "nvm_dev \<Rightarrow> bool" where
  "wf_lbaf dev \<longleftrightarrow>
     (let f = dev_lbaf dev; z = dev_lbaz dev; m = dev_lbam dev;
        s = unat (lbaf_sectr f); c = unat (lbaf_chunk f);
        u = unat (lbaf_punit f); g = unat (lbaf_pugrp f)
      in lbaz_sectr z = 0 \<and> unat (lbaz_chunk z) = s \<and> unat (lbaz_punit z) = s + c
       \<and> unat (lbaz_pugrp z) = s + c + u \<and> s + c + u < 64 \<and> s + c + u + g \<le> 64
       \<and> lbam_sectr m = field_mask 0 s \<and> lbam_chunk m = field_mask s c
       \<and> lbam_punit m = field_mask (s + c) u \<and> lbam_pugrp m = field_mask (s + c + u) g)"

definition fits_s20 :: "nvm_dev \<Rightarrow> nvm_addr \<Rightarrow> bool" where
  "fits_s20 dev a \<longleftrightarrow>
     unat (l_sectr a) < 2 ^ unat (lbaf_sectr (dev_lbaf dev))
     \<and> unat (l_chunk a) < 2 ^ unat (lbaf_chunk (dev_lbaf dev))
     \<and> unat (l_punit a) < 2 ^ unat (lbaf_punit (dev_lbaf dev))
     \<and> unat (l_pugrp a) < 2 ^ unat (lbaf_pugrp (dev_lbaf dev))"

lemma dev2gen_gen2dev_s20:
  assumes wf: "wf_lbaf dev" and fits: "fits_s20 dev a"
  shows "dev2gen_s20 dev (gen2dev_s20 dev a) = a"
proof -
  define s c u g where "s = unat (lbaf_sectr (dev_lbaf dev))" "c = unat (lbaf_chunk (dev_lbaf dev))"
    "u = unat (lbaf_punit (dev_lbaf dev))" "g = unat (lbaf_pugrp (dev_lbaf dev))"
  have b: "unat (l_sectr a) < 2 ^ s" "unat (l_chunk a) < 2 ^ c" "unat (l_punit a) < 2 ^ u"
    "unat (l_pugrp a) < 2 ^ g"
    using fits by (simp_all add: fits_s20_def s_c_u_g_def)
  have sz: "s + c + u + g \<le> 64"
    using wf by (simp add: wf_lbaf_def Let_def s_c_u_g_def)
  note same = dev_field_same [where off = 0 and len = s, simplified, OF _ b(1)]
    dev_field_same [where off = s, OF _ b(2)] dev_field_same [where off = "s + c", OF _ b(3)]
    dev_field_same [where off = "s + c + u", OF _ b(4)]
  note disj = dev_field_disj [where off' = 0, simplified, OF _ b(1)]
    dev_field_disj [where off' = s, OF _ b(2)] dev_field_disj [where off' = "s + c", OF _ b(3)]
    dev_field_disj [where off' = "s + c + u", OF _ b(4)]
  show ?thesis
    using wf sz unfolding wf_lbaf_def Let_def s_c_u_g_def [symmetric]
    by (intro addr_eq_l)
      (simp_all add: dev2gen_s20_def gen2dev_s20_def Let_def dev_field_or same disj field_disj_def
        bitfield_simps)
qed

lemma gen2dev_s20_lt:
  assumes "wf_lbaf dev" "fits_s20 dev a"
  shows "unat (gen2dev_s20 dev a) < 2 ^ (unat (lbaz_pugrp (dev_lbaz dev)) + unat (lbaf_pugrp (dev_lbaf dev)))"
  using assms unfolding gen2dev_s20_def wf_lbaf_def fits_s20_def Let_def
  by (elim conjE, intro or_lt; elim push_bit_lt) simp_all

interpretation s20: addr_codec wf_lbaf fits_s20 gen2dev_s20 dev2gen_s20
  by unfold_locales (rule dev2gen_gen2dev_s20)

section \<open>The 1.2 format\<close>

definition ppaf_fields :: "nvm_spec_ppaf_nand \<Rightarrow> (nat \<times> nat) list" where
  "ppaf_fields p =
     [(unat (ch_off p), unat (ch_len p)), (unat (lun_off p), unat (lun_len p)),
      (unat (pl_off p), unat (pl_len p)), (unat (blk_off p), unat (blk_len p)),
      (unat (pg_off p), unat (pg_len p)), (unat (sec_off p), unat (sec_len p))]"

definition wf_ppaf :: "nvm_dev \<Rightarrow> bool" where
  "wf_ppaf dev \<longleftrightarrow>
     (let p = dev_ppaf dev; m = dev_mask dev in
      fields_disj (ppaf_fields p) \<and> (\<forall>f \<in> set (ppaf_fields p). fst f < 64 \<and> fst f + snd f \<le> 64)
      \<and> [m_ch m, m_lun m, m_pl m, m_blk m, m_pg m, m_sec m]
        = map (\<lambda>f. field_mask (fst f) (snd f)) (ppaf_fields p))"

definition fits_s12 :: "nvm_dev \<Rightarrow> nvm_addr \<Rightarrow> bool" where
  "fits_s12 dev a \<longleftrightarrow>
     unat (g_ch a) < 2 ^ unat (ch_len (dev_ppaf dev))
     \<and> unat (g_lun a) < 2 ^ unat (lun_len (dev_ppaf dev))
     \<and> unat (g_pl a) < 2 ^ unat (pl_len (dev_ppaf dev))
     \<and> unat (g_blk a) < 2 ^ unat (blk_len (dev_ppaf dev))
     \<and> unat (g_pg a) < 2 ^ unat (pg_len (dev_ppaf dev))
     \<and> unat (g_sec a) < 2 ^ unat (sec_len (dev_ppaf dev))"

lemma dev2gen_gen2dev_s12:
  assumes wf: "wf_ppaf dev" and fits: "fits_s12 dev a"
  shows "dev2gen_s12 dev (gen2dev_s12 dev a) = a"
proof -
  have b: "unat (g_ch a) < 2 ^ unat (ch_len (dev_ppaf dev))"
    "unat (g_lun a) < 2 ^ unat (lun_len (dev_ppaf dev))"
    "unat (g_pl a) < 2 ^ unat (pl_len (dev_ppaf dev))"
    "unat (g_blk a) < 2 ^ unat (blk_len (dev_ppaf dev))"
    "unat (g_pg a) < 2 ^ unat (pg_len (dev_ppaf dev))"
    "unat (g_sec a) < 2 ^ unat (sec_len (dev_ppaf dev))"
    using fits by (simp_all add: fits_s12_def)
  have p: "fields_disj (ppaf_fields (dev_ppaf dev))"
    "\<forall>f \<in> set (ppaf_fields (dev_ppaf dev)). fst f + snd f \<le> 64"
    using wf by (auto simp: wf_ppaf_def Let_def)
  note same = dev_field_same [OF _ b(1)] dev_field_same [OF _ b(2)] dev_field_same [OF _ b(3)]
    dev_field_same [OF _ b(4)] dev_field_same [OF _ b(5)] dev_field_same [OF _ b(6)]
  note disj = dev_field_disj [OF _ b(1)] dev_field_disj [OF _ b(2)] dev_field_disj [OF _ b(3)]
    dev_field_disj [OF _ b(4)] dev_field_disj [OF _ b(5)] dev_field_disj [OF _ b(6)]
  show ?thesis
    using wf p
    by (intro addr_eq_g)
      (simp_all add: dev2gen_s12_def gen2dev_s12_def Let_def dev_field_or same disj wf_ppaf_def
        ppaf_fields_def field_disj_sym bitfield_simps)
qed

lemma gen2dev_s12_lt:
  assumes "wf_ppaf dev" "fits_s12 dev a" "\<forall>f \<in> set (ppaf_fields (dev_ppaf dev)). fst f + snd f \<le> k" "k \<le> 64"
  shows "unat (gen2dev_s12 dev a) < 2 ^ k"
  using assms unfolding gen2dev_s12_def fits_s12_def ppaf_fields_def
  by (elim conjE, intro or_lt; elim push_bit_lt) simp_all

interpretation s12: addr_codec wf_ppaf fits_s12 gen2dev_s12 dev2gen_s12
  by unfold_locales (rule dev2gen_gen2dev_s12)

section \<open>The format of a device\<close>

definition wf_fmt :: "nvm_dev \<Rightarrow> bool" where
  "wf_fmt dev \<longleftrightarrow> (if dev_verid dev = NVM_SPEC_VERID_20 then wf_lbaf dev else wf_ppaf dev)"

definition fits :: "nvm_dev \<Rightarrow> nvm_addr \<Rightarrow> bool" where
  "fits dev a \<longleftrightarrow> (if dev_verid dev = NVM_SPEC_VERID_20 then fits_s20 dev a else fits_s12 dev a)"

text \<open>The number of low bits the format uses, and that a byte offset has room for them.\<close>

definition fmt_bits :: "nvm_dev \<Rightarrow> nat" where
  "fmt_bits dev =
     (if dev_verid dev = NVM_SPEC_VERID_20
      then unat (lbaz_pugrp (dev_lbaz dev)) + unat (lbaf_pugrp (dev_lbaf dev))
      else fold max (map (\<lambda>f. fst f + snd f) (ppaf_fields (dev_ppaf dev))) 0)"

definition wf_off :: "nvm_dev \<Rightarrow> bool" where
  "wf_off dev \<longleftrightarrow> wf_fmt dev \<and> fmt_bits dev + unat (dev_ssw dev) \<le> 64 \<and> unat (dev_ssw dev) < 64"

lemma fold_max_ge: "x \<in> set xs \<Longrightarrow> x \<le> fold max xs (n :: nat)" "n \<le> fold max xs n"
  by (induction xs arbitrary: n) (auto intro: order_trans [OF max.cobounded1] order_trans [OF max.cobounded2])

lemma gen2dev_lt:
  assumes wf: "wf_off dev" and fits: "fits dev a"
  shows "unat (nvm_addr_gen2dev dev a) < 2 ^ (64 - unat (dev_ssw dev))"
proof (cases "dev_verid dev = 2")
  case True
  then have "unat (gen2dev_s20 dev a) < 2 ^ fmt_bits dev"
    using assms gen2dev_s20_lt by (simp add: wf_off_def wf_fmt_def fits_def fmt_bits_def)
  also have "\<dots> \<le> 2 ^ (64 - unat (dev_ssw dev))"
    using wf by (intro power_increasing) (auto simp: wf_off_def)
  finally show ?thesis using True by (simp add: nvm_addr_gen2dev_def)
next
  case False
  have "\<forall>f \<in> set (ppaf_fields (dev_ppaf dev)). fst f + snd f \<le> 64 - unat (dev_ssw dev)"
  proof
    fix f assume "f \<in> set (ppaf_fields (dev_ppaf dev))"
    then have "fst f + snd f \<le> fmt_bits dev"
      unfolding fmt_bits_def using False by (simp add: fold_max_ge(1))
    then show "fst f + snd f \<le> 64 - unat (dev_ssw dev)"
      using wf unfolding wf_off_def by linarith
  qed
  with False show ?thesis
    using assms gen2dev_s12_lt by (simp add: wf_off_def wf_fmt_def fits_def nvm_addr_gen2dev_def)
qed

interpretation fmt: addr_codec wf_fmt fits nvm_addr_gen2dev nvm_addr_dev2gen
  by unfold_locales
    (auto simp: wf_fmt_def fits_def nvm_addr_gen2dev_def nvm_addr_dev2gen_def s20.dec_enc s12.dec_enc
      split: if_splits)

interpretation fmt_off: addr_codec_off wf_off fits nvm_addr_gen2dev nvm_addr_dev2gen "\<lambda>dev. unat (dev_ssw dev)"
  by unfold_locales (simp_all add: gen2dev_lt, simp_all add: wf_off_def fmt.dec_enc)

section \<open>Offsets in the chunk-report log page\<close>

definition wf_lgeo :: "nvm_geo \<Rightarrow> bool" where
  "wf_lgeo geo \<longleftrightarrow> l_npunit geo < 2 ^ 16 \<and> l_nchunk geo < 2 ^ 32"

lemma lpo_bound:
  fixes g u c nu nc :: nat
  assumes "g < 2 ^ 8" "u < 2 ^ 8" "c < 2 ^ 16" "nu < 2 ^ 16" "nc < 2 ^ 32"
  shows "((g * nu + u) * nc + c) * 32 < 2 ^ 64"
proof -
  have "g * nu \<le> 2 ^ 8 * 2 ^ 16"
    using assms by (intro mult_le_mono) auto
  then have "g * nu + u \<le> 2 ^ 25"
    using assms(2) by simp
  then have "(g * nu + u) * nc \<le> 2 ^ 25 * 2 ^ 32"
    using assms(5) by (intro mult_le_mono) auto
  then show ?thesis
    using assms(3) by simp
qed

lemma unat_gen2lpo:
  assumes "wf_lgeo (dev_geo dev)"
  shows "unat (nvm_addr_gen2lpo dev a) =
     ((unat (l_pugrp a) * unat (l_npunit (dev_geo dev)) + unat (l_punit a)) * unat (l_nchunk (dev_geo dev))
       + unat (l_chunk a)) * 32" (is "_ = ?n")
proof -
  have "nvm_addr_gen2lpo dev a = of_nat ?n"
    by (simp add: nvm_addr_gen2lpo_def Let_def algebra_simps)
  moreover have "?n < 2 ^ 64"
    using assms by (intro lpo_bound addr_get_lt) (auto simp: wf_lgeo_def word_less_nat_alt)
  ultimately show ?thesis
    by (simp only: unat_u64)
qed

lemma lpo_digits:
  fixes g u c nu nc :: nat
  assumes "u < nu" "c < nc"
  shows "((g * nu + u) * nc + c) mod nc = c" "((g * nu + u) * nc + c) div nc mod nu = u"
    "((g * nu + u) * nc + c) div nc div nu = g"
  using assms by simp_all

lemma lpo2gen_inverse:
  assumes geo: "wf_lgeo (dev_geo dev)"
    and a: "l_pugrp a < l_npugrp (dev_geo dev)" "l_punit a < l_npunit (dev_geo dev)"
      "l_chunk a < l_nchunk (dev_geo dev)"
  shows "nvm_addr_lpo2gen dev (nvm_addr_gen2lpo dev a) = Inr (set_l_sectr 0 a)"
proof -
  let ?g = "dev_geo dev"
  define i where "i = nvm_addr_gen2lpo dev a div 32"
  have unat_i: "unat i = (unat (l_pugrp a) * unat (l_npunit ?g) + unat (l_punit a)) * unat (l_nchunk ?g)
      + unat (l_chunk a)"
    using unat_gen2lpo [OF geo, of a] by (simp add: i_def unat_div)
  have lt: "unat (l_pugrp a) < unat (l_npugrp ?g)" "unat (l_punit a) < unat (l_npunit ?g)"
    "unat (l_chunk a) < unat (l_nchunk ?g)"
    using a by (simp_all add: word_less_nat_alt)
  have "i mod l_nchunk ?g = l_chunk a" "i div l_nchunk ?g mod l_npunit ?g = l_punit a"
    "i div l_nchunk ?g div l_npunit ?g mod l_npugrp ?g = l_pugrp a"
    using lt by (simp_all add: word_unat_eq_iff unat_div unat_mod unat_i lpo_digits)
  moreover have "l_nchunk ?g \<noteq> 0" "l_npunit ?g \<noteq> 0" "l_npugrp ?g \<noteq> 0"
    using a by auto
  ultimately show ?thesis
    by (auto simp: nvm_addr_lpo2gen_def Let_def i_def bitfield_simps intro!: addr_eq_l)
qed

section \<open>Consecutive addresses\<close>

definition next_sectr :: "nvm_addr \<Rightarrow> nat \<Rightarrow> nvm_addr" where
  "next_sectr a n = set_l_sectr (l_sectr a + of_nat n) a"

lemma next_sectr_0 [simp]: "next_sectr a 0 = a"
  by (auto simp: next_sectr_def bitfield_simps intro!: addr_eq_l)

lemma next_sectr_add: "next_sectr (next_sectr a m) n = next_sectr a (m + n)"
  by (rule addr_eq_l) (simp_all add: next_sectr_def bitfield_simps take_bit_add_left add.assoc)

lemma fill_crange_loop_ok:
  assumes "0 < i" "i + k \<le> length as"
  shows "fill_crange_loop k i as =
    Inr (take i as @ map (\<lambda>j. next_sectr (as ! (i - 1)) (Suc j)) [0..<k] @ drop (i + k) as)"
  using assms
proof (induction k arbitrary: i as)
  case (Suc k)
  let ?a = "as ! (i - 1)" let ?b = "next_sectr ?a 1"
  have i: "i < length as" using Suc.prems by simp
  have "fill_crange_loop (Suc k) i as = fill_crange_loop k (Suc i) (as[i := ?b])"
    using i by (simp add: Let_def next_sectr_def)
  also have "\<dots> = Inr (take (Suc i) (as[i := ?b]) @ map (\<lambda>j. next_sectr ?b (Suc j)) [0..<k]
      @ drop (Suc i + k) (as[i := ?b]))"
    using Suc.prems i by (subst Suc.IH) simp_all
  also have "take (Suc i) (as[i := ?b]) = take i as @ [?b]"
    using i by (simp add: take_Suc_conv_app_nth)
  also have "map (\<lambda>j. next_sectr ?b (Suc j)) [0..<k] = map (\<lambda>j. next_sectr ?a (Suc (Suc j))) [0..<k]"
    by (simp add: next_sectr_add)
  finally show ?case
    by (simp add: upt_conv_Cons map_Suc_upt [symmetric] o_def del: upt_Suc)
qed simp

lemma fill_crange_ok:
  assumes "0 < naddrs" "unat naddrs \<le> length as"
  shows "nvm_addr_fill_crange as a naddrs =
    Inr (map (next_sectr a) [0..<unat naddrs] @ drop (unat naddrs) as)"
proof -
  obtain k where k: "unat naddrs = Suc k"
    using assms(1) by (cases "unat naddrs") (auto simp: word_less_nat_alt)
  have "as \<noteq> []" using assms k by auto
  then have "nvm_addr_fill_crange as a naddrs = fill_crange_loop k 1 (as[0 := a])"
    by (simp add: nvm_addr_fill_crange_def k)
  also have "\<dots> = Inr (([a] @ map (\<lambda>j. next_sectr a (Suc j)) [0..<k]) @ drop (Suc k) as)"
    using assms(2) \<open>as \<noteq> []\<close> k by (subst fill_crange_loop_ok) (auto simp: take_Suc neq_Nil_conv)
  also have "[a] @ map (\<lambda>j. next_sectr a (Suc j)) [0..<k] = map (next_sectr a) [0..<Suc k]"
    by (simp add: upt_conv_Cons map_Suc_upt [symmetric] o_def del: upt_Suc)
  finally show ?thesis
    by (simp only: k)
qed

section \<open>Properties\<close>

text \<open>
  \<open>nvm_addr_check\<close> reports exactly the coordinates that are out of range: on a 2.0 device (and,
  with its six coordinates, on a 1.2 device) the result is 0 for an address inside the geometry
  and otherwise has the flag of a coordinate set exactly when that coordinate exceeds its bound;
  on any other version it fails with EINVAL.
\<close>

theorem nvm_addr_check_exact:
  "(dev_verid dev = 2 \<longrightarrow> (\<exists>w. nvm_addr_check a dev = Inr w
      \<and> (w = 0 \<longleftrightarrow> in_bounds_s20 (dev_geo dev) a)
      \<and> (bit w 6 \<longleftrightarrow> l_npugrp (dev_geo dev) \<le> l_pugrp a) \<and> (bit w 7 \<longleftrightarrow> l_npunit (dev_geo dev) \<le> l_punit a)
      \<and> (bit w 8 \<longleftrightarrow> l_nchunk (dev_geo dev) \<le> l_chunk a) \<and> (bit w 9 \<longleftrightarrow> l_nsectr (dev_geo dev) \<le> l_sectr a)))
   \<and> (dev_verid dev = 1 \<longrightarrow> (\<exists>w. nvm_addr_check a dev = Inr w
      \<and> (w = 0 \<longleftrightarrow> in_bounds_s12 (dev_geo dev) a)
      \<and> (bit w 0 \<longleftrightarrow> nchannels (dev_geo dev) \<le> g_ch a) \<and> (bit w 1 \<longleftrightarrow> nluns (dev_geo dev) \<le> g_lun a)
      \<and> (bit w 2 \<longleftrightarrow> nplanes (dev_geo dev) \<le> g_pl a) \<and> (bit w 3 \<longleftrightarrow> nblocks (dev_geo dev) \<le> g_blk a)
      \<and> (bit w 4 \<longleftrightarrow> npages (dev_geo dev) \<le> g_pg a) \<and> (bit w 5 \<longleftrightarrow> nsectors (dev_geo dev) \<le> g_sec a)))
   \<and> (dev_verid dev \<noteq> 1 \<longrightarrow> dev_verid dev \<noteq> 2 \<longrightarrow> nvm_addr_check a dev = Inl (Errno EINVAL))"
  by (auto simp: nvm_addr_check_def Let_def or_zero_iff in_bounds_s20_def in_bounds_s12_def
      bit_or_iff bound_bit_def bit_numeral_rec)

text \<open>Instance on the 2.0 example device: only the sector is out of range.\<close>

theorem nvm_addr_check_exact_witness:
  "nvm_addr_check (NvmAddr 0x0703000500001800) ex_dev_s20 = Inr 0x200
   \<and> \<not> in_bounds_s20 (dev_geo ex_dev_s20) (NvmAddr 0x0703000500001800)"
  using nvm_addr_check_exact [of ex_dev_s20 "NvmAddr 0x0703000500001800"]
  by (simp add: nvm_addr_check_def ex_dev_s20_def bound_bit_def addr_get_def bf_get_def)

lemma ex_dev_wf: "wf_off ex_dev_s20" "wf_off ex_dev_s12" "wf_lgeo (dev_geo ex_dev_s20)"
  by (simp_all add: wf_off_def wf_fmt_def fmt_bits_def wf_lbaf_def wf_ppaf_def ppaf_fields_def
      field_disj_def field_mask_def mask_eq_exp_minus_1 wf_lgeo_def ex_dev_s20_def ex_dev_s12_def)

text \<open>
  C1. Round trip through the device format, for both revisions: on a device with a well-formed
  format, \<open>nvm_addr_dev2gen\<close> undoes \<open>nvm_addr_gen2dev\<close> on every list of addresses that fit the
  field widths, and a list of distinct addresses becomes a list of distinct device words.
\<close>

theorem gen2dev_dev2gen:
  assumes "wf_fmt dev" "\<forall>a \<in> set addrs. fits dev a"
  shows "map (nvm_addr_dev2gen dev) (map (nvm_addr_gen2dev dev) addrs) = addrs
    \<and> distinct (map (nvm_addr_gen2dev dev) addrs) = distinct addrs"
  using fmt.map_dec_enc [OF assms] fmt.distinct_enc [OF assms] by blast

theorem gen2dev_dev2gen_witness:
  "map (nvm_addr_dev2gen ex_dev_s12) (map (nvm_addr_gen2dev ex_dev_s12)
      [NvmAddr 0x0F07042A01001F03, NvmAddr 0x0F07042A00001F03])
    = [NvmAddr 0x0F07042A01001F03, NvmAddr 0x0F07042A00001F03]
   \<and> nvm_addr_gen2dev ex_dev_s12 (NvmAddr 0x0F07042A01001F03) = 0x3FC2A0FF"
  using gen2dev_dev2gen [of ex_dev_s12 "[NvmAddr 0x0F07042A01001F03, NvmAddr 0x0F07042A00001F03]"]
    ex_dev_wf(2)
  by (simp add: wf_off_def fits_def fits_s12_def ex_dev_s12_def addr_get_def bf_get_def
      nvm_addr_gen2dev_def gen2dev_s12_def)

text \<open>
  C28. Byte offsets: on a device whose format leaves room for the sector shift,
  \<open>nvm_addr_off2gen\<close> undoes \<open>nvm_addr_gen2off\<close>, the offset is the device address times the
  sector size without wrap-around, and two different addresses never share a byte.
\<close>

theorem gen2off_off2gen:
  assumes "wf_off dev" "fits dev a" "fits dev b"
  shows "nvm_addr_off2gen dev (nvm_addr_gen2off dev a) = a
    \<and> unat (nvm_addr_gen2off dev a) = unat (nvm_addr_gen2dev dev a) * 2 ^ unat (dev_ssw dev)
    \<and> (\<forall>i j. a \<noteq> b \<longrightarrow> i < 2 ^ unat (dev_ssw dev) \<longrightarrow> j < 2 ^ unat (dev_ssw dev)
        \<longrightarrow> unat (nvm_addr_gen2off dev a) + i \<noteq> unat (nvm_addr_gen2off dev b) + j)"
  unfolding nvm_addr_off2gen_def nvm_addr_gen2off_def
  using fmt_off.dec_off [OF assms(1,2)] fmt_off.unat_off [OF assms(1,2)] fmt_off.off_disjoint [OF assms]
  by blast

theorem gen2off_off2gen_witness:
  "nvm_addr_off2gen ex_dev_s20 (nvm_addr_gen2off ex_dev_s20 (NvmAddr 0x0703000500000002)) = NvmAddr 0x0703000500000002"
  using gen2off_off2gen [of ex_dev_s20 "NvmAddr 0x0703000500000002" "NvmAddr 0x0703000500000003"] ex_dev_wf(1)
  by (simp add: fits_def fits_s20_def ex_dev_s20_def addr_get_def bf_get_def)

text \<open>
  C31. Offsets in the chunk-report log page: for an address inside the geometry of a 2.0 device,
  \<open>nvm_addr_gen2lpo\<close> is the index of the chunk (groups, then units, then chunks) times the size of
  a descriptor, and \<open>nvm_addr_lpo2gen\<close> returns the first sector of that chunk.
\<close>

theorem gen2lpo_lpo2gen:
  assumes "wf_lgeo (dev_geo dev)" "in_bounds_s20 (dev_geo dev) a"
  shows "nvm_addr_lpo2gen dev (nvm_addr_gen2lpo dev a) = Inr (set_l_sectr 0 a)
    \<and> unat (nvm_addr_gen2lpo dev a) =
       ((unat (l_pugrp a) * unat (l_npunit (dev_geo dev)) + unat (l_punit a)) * unat (l_nchunk (dev_geo dev))
         + unat (l_chunk a)) * 32"
  using assms lpo2gen_inverse [OF assms(1)] unat_gen2lpo [OF assms(1)] by (simp add: in_bounds_s20_def)

theorem gen2lpo_lpo2gen_witness:
  "nvm_addr_lpo2gen ex_dev_s20 (nvm_addr_gen2lpo ex_dev_s20 (NvmAddr 0x0703000500000002))
    = Inr (NvmAddr 0x0703000500000000)"
proof -
  have "in_bounds_s20 (dev_geo ex_dev_s20) (NvmAddr 0x0703000500000002)"
    "set_l_sectr 0 (NvmAddr 0x0703000500000002) = NvmAddr 0x0703000500000000"
    by code_simp+
  then show ?thesis
    using gen2lpo_lpo2gen [of ex_dev_s20 "NvmAddr 0x0703000500000002"] ex_dev_wf(3) by simp
qed

text \<open>
  \<open>nvm_addr_fill_crange\<close> fills the first \<open>naddrs\<close> entries of the array with the address and
  its successors in the same chunk (the sector field counts up, the other fields are kept),
  leaves the rest of the array alone and does not leave the array.
\<close>

theorem nvm_addr_fill_crange_consecutive:
  assumes "0 < naddrs" "unat naddrs \<le> length addrs"
  shows "\<exists>out. nvm_addr_fill_crange addrs addr naddrs = Inr out \<and> length out = length addrs
    \<and> (\<forall>j < unat naddrs. l_sectr (out ! j) = take_bit 32 (l_sectr addr + of_nat j)
        \<and> l_chunk (out ! j) = l_chunk addr \<and> l_punit (out ! j) = l_punit addr
        \<and> l_pugrp (out ! j) = l_pugrp addr)
    \<and> drop (unat naddrs) out = drop (unat naddrs) addrs"
  using assms by (auto simp: fill_crange_ok [OF assms] nth_append next_sectr_def bitfield_simps)

theorem nvm_addr_fill_crange_consecutive_witness:
  "nvm_addr_fill_crange (replicate 4 (NvmAddr 0)) (NvmAddr 0x0102000300000007) 3
    = Inr [NvmAddr 0x0102000300000007, NvmAddr 0x0102000300000008, NvmAddr 0x0102000300000009, NvmAddr 0]"
proof -
  have "nvm_addr_fill_crange (replicate 4 (NvmAddr 0)) (NvmAddr 0x0102000300000007) 3
    = Inr [NvmAddr 0x0102000300000007, NvmAddr 0x0102000300000008, NvmAddr 0x0102000300000009, NvmAddr 0]"
    by code_simp
  then show ?thesis
    using nvm_addr_fill_crange_consecutive [of 3 "replicate 4 (NvmAddr 0)" "NvmAddr 0x0102000300000007"]
    by simp
qed

end
