(* ===== verification/Nvm_Buf.thy ===== *)
theory Nvm_Buf
  imports Nvm_Types
begin

text \<open>
  Buffers, \<open>src/nvm_buf.c\<close>. The allocators of the C library and of SPDK are fields of the record
  \<open>sys\<close>, over a world of any type; what the code relies on (a fresh non-null pointer on success,
  no change on failure) is the predicate \<open>alloc_ok\<close>. The locale \<open>buf_provider\<close> is the contract that
  \<open>nvm_buf_alloc\<close> and \<open>nvm_buf_free\<close> give to the rest of the library.
\<close>

section \<open>The C library and SPDK\<close>

text \<open>
  An allocator returns \<open>Inl\<close> for \<open>NULL\<close>. The SPDK allocators also report a physical address.
  \<open>sys_rand\<close> and \<open>sys_getenv\<close> are \<open>rand\<close> and \<open>getenv\<close>. \<open>sys_store\<close> stores bytes at a pointer;
  \<open>sys_ret_async\<close> and \<open>sys_ret_clear\<close> assign the members \<open>async\<close> of a \<open>struct nvm_ret\<close> and clear it.
\<close>

record 'w sys =
  sys_aligned_alloc :: "u64 \<Rightarrow> u64 \<Rightarrow> ('w, ptr) op"
  sys_free :: "ptr \<Rightarrow> 'w \<Rightarrow> 'w"
  sys_malloc :: "u64 \<Rightarrow> ('w, ptr) op"
  sys_calloc :: "u64 \<Rightarrow> u64 \<Rightarrow> ('w, ptr) op"
  sys_spdk_dma_malloc :: "u64 \<Rightarrow> u64 \<Rightarrow> ('w, ptr \<times> u64) op"
  sys_spdk_dma_realloc :: "ptr \<Rightarrow> u64 \<Rightarrow> u64 \<Rightarrow> ('w, ptr \<times> u64) op"
  sys_spdk_dma_free :: "ptr \<Rightarrow> 'w \<Rightarrow> 'w"
  sys_spdk_vtophys :: "ptr \<Rightarrow> 'w \<Rightarrow> u64"
  sys_rand :: "'w \<Rightarrow> int \<times> 'w"
  sys_getenv :: "string \<Rightarrow> 'w \<Rightarrow> string option"
  sys_store :: "ptr \<Rightarrow> u8 list \<Rightarrow> 'w \<Rightarrow> 'w"
  sys_ret_async :: "ptr \<Rightarrow> ptr \<Rightarrow> 'w \<Rightarrow> 'w"
  sys_ret_clear :: "ptr \<Rightarrow> 'w \<Rightarrow> 'w"

abbreviation (input) SPDK_VTOPHYS_ERROR :: u64 where "SPDK_VTOPHYS_ERROR \<equiv> 0xFFFFFFFFFFFFFFFF"

text \<open>A build without SPDK replaces its functions by stubs.\<close>

definition without_spdk :: "'w sys \<Rightarrow> 'w sys" where
  "without_spdk sys = sys\<lparr>
     sys_spdk_dma_malloc := (\<lambda>size align. fail (Errno ENOSYS)),
     sys_spdk_dma_realloc := (\<lambda>buf size align. fail (Errno ENOSYS)),
     sys_spdk_dma_free := (\<lambda>buf w. w),
     sys_spdk_vtophys := (\<lambda>buf w. SPDK_VTOPHYS_ERROR)\<rparr>"

section \<open>Allocation\<close>

definition nvm_buf_virt_alloc :: "'w sys \<Rightarrow> u64 \<Rightarrow> u64 \<Rightarrow> ('w, ptr) op" where
  "nvm_buf_virt_alloc sys alignment nbytes =
     (if nbytes = 0 then fail (Errno EINVAL) else sys_aligned_alloc sys alignment nbytes)"

definition nvm_buf_virt_realloc :: "ptr \<Rightarrow> u64 \<Rightarrow> u64 \<Rightarrow> ('w, ptr) op" where
  "nvm_buf_virt_realloc buf alignment nbytes = fail (Errno ENOSYS)"

definition nvm_buf_virt_free :: "'w sys \<Rightarrow> ptr \<Rightarrow> ('w, unit) op" where
  "nvm_buf_virt_free sys buf = upd (sys_free sys buf)"

definition buf_alignment :: "nvm_dev \<Rightarrow> u64" where
  "buf_alignment dev =
     (if geo_verid (dev_geo dev) = NVM_SPEC_VERID_12 then sector_nbytes (dev_geo dev)
      else if geo_verid (dev_geo dev) = NVM_SPEC_VERID_20 then l_nbytes (dev_geo dev)
      else 4096)"

text \<open>
  The argument \<open>phys\<close> is the value of the caller's variable, which only the SPDK allocator assigns;
  a caller that passes \<open>NULL\<close> ignores it.
\<close>

definition nvm_buf_alloc :: "'w sys \<Rightarrow> nvm_dev \<Rightarrow> u64 \<Rightarrow> u64 \<Rightarrow> ('w, ptr \<times> u64) op" where
  "nvm_buf_alloc sys dev nbytes phys =
     (let alignment = buf_alignment dev in
      if nbytes = 0 then fail (Errno EINVAL)
      else case dev_be dev of
        None \<Rightarrow> fail (Fault NullDeref)
      | Some be_id \<Rightarrow>
          if be_id = NVM_BE_IOCTL \<or> be_id = NVM_BE_LBD
          then andThen (nvm_buf_virt_alloc sys alignment nbytes) (\<lambda>p. ok (p, phys))
          else if be_id = NVM_BE_SPDK \<or> be_id = NVM_BE_NOCD
          then sys_spdk_dma_malloc sys nbytes alignment
          else fail (Errno EINVAL))"

definition nvm_buf_realloc :: "'w sys \<Rightarrow> nvm_dev \<Rightarrow> ptr \<Rightarrow> u64 \<Rightarrow> u64 \<Rightarrow> ('w, ptr \<times> u64) op" where
  "nvm_buf_realloc sys dev buf nbytes phys =
     (let alignment = buf_alignment dev in
      if nbytes = 0 then fail (Errno EINVAL)
      else case dev_be dev of
        None \<Rightarrow> fail (Fault NullDeref)
      | Some be_id \<Rightarrow>
          if be_id = NVM_BE_IOCTL \<or> be_id = NVM_BE_LBD
          then andThen (nvm_buf_virt_realloc buf alignment nbytes) (\<lambda>p. ok (p, phys))
          else if be_id = NVM_BE_SPDK \<or> be_id = NVM_BE_NOCD
          then sys_spdk_dma_realloc sys buf nbytes alignment
          else fail (Errno EINVAL))"

definition nvm_buf_free :: "'w sys \<Rightarrow> nvm_dev \<Rightarrow> ptr \<Rightarrow> ('w, unit) op" where
  "nvm_buf_free sys dev buf =
     (case dev_be dev of
        None \<Rightarrow> fail (Fault NullDeref)
      | Some be_id \<Rightarrow>
          if be_id = NVM_BE_IOCTL \<or> be_id = NVM_BE_LBD then nvm_buf_virt_free sys buf
          else if be_id = NVM_BE_SPDK \<or> be_id = NVM_BE_NOCD then upd (sys_spdk_dma_free sys buf)
          else ok ())"

text \<open>\<open>nvm_buf_vtophys\<close> with a non-null \<open>phys\<close>, whose new value is the result.\<close>

definition nvm_buf_vtophys :: "'w sys \<Rightarrow> nvm_dev \<Rightarrow> ptr \<Rightarrow> ('w, u64) op" where
  "nvm_buf_vtophys sys dev buf w =
     (case dev_be dev of
        None \<Rightarrow> fail (Fault NullDeref) w
      | Some be_id \<Rightarrow>
          if be_id = NVM_BE_ANY then fail (Errno EINVAL) w
          else if be_id = NVM_BE_IOCTL \<or> be_id = NVM_BE_LBD then fail (Errno ENOSYS) w
          else if be_id = NVM_BE_SPDK \<or> be_id = NVM_BE_NOCD
          then (let phys = sys_spdk_vtophys sys buf w in
                if phys = SPDK_VTOPHYS_ERROR then fail (Errno EIO) w else ok phys w)
          else ok 0 w)"

section \<open>Contents\<close>

definition nvm_buf_fill :: "u8 list \<Rightarrow> nat \<Rightarrow> u8 list res" where
  "nvm_buf_fill buf nbytes =
     (if nbytes \<le> length buf
      then Inr (fold (\<lambda>i b. b[i := of_nat (i mod 26) + 65]) [0..<nbytes] buf)
      else Inl (Fault OutOfBounds))"

definition nvm_buf_diff :: "u8 list \<Rightarrow> u8 list \<Rightarrow> nat \<Rightarrow> u64 res" where
  "nvm_buf_diff expected actual nbytes =
     (if nbytes \<le> length expected \<and> nbytes \<le> length actual
      then Inr (fold (\<lambda>i diff. if expected ! i \<noteq> actual ! i then diff + 1 else diff) [0..<nbytes] 0)
      else Inl (Fault OutOfBounds))"

section \<open>Buffer sets\<close>

text \<open>\<open>bs_self\<close> is the address of the structure itself.\<close>

record nvm_buf_set =
  bs_self :: ptr
  bs_dev :: "nvm_dev option"
  bs_write :: ptr
  bs_write_meta :: ptr
  bs_read :: ptr
  bs_read_meta :: ptr
  bs_nbytes :: u64
  bs_nbytes_meta :: u64

definition nvm_buf_set_free :: "'w sys \<Rightarrow> nvm_buf_set option \<Rightarrow> ('w, unit) op" where
  "nvm_buf_set_free sys bufs =
     (case bufs of None \<Rightarrow> ok ()
      | Some b \<Rightarrow> (case bs_dev b of None \<Rightarrow> ok ()
        | Some dev \<Rightarrow>
            andThen (nvm_buf_free sys dev (bs_write b)) (\<lambda>_.
            andThen (nvm_buf_free sys dev (bs_write_meta b)) (\<lambda>_.
            andThen (nvm_buf_free sys dev (bs_read b)) (\<lambda>_.
            andThen (nvm_buf_free sys dev (bs_read_meta b)) (\<lambda>_.
            nvm_buf_free sys dev (bs_self b)))))))"

definition sizeof_buf_set :: u64 where "sizeof_buf_set = 56"

text \<open>The pair of a write and a read buffer of one size; on failure the set is freed.\<close>

definition buf_set_data :: "'w sys \<Rightarrow> nvm_dev \<Rightarrow> u64 \<Rightarrow> nvm_buf_set \<Rightarrow> ('w, nvm_buf_set) op" where
  "buf_set_data sys dev nbytes bufs =
     (if nbytes = 0 then ok bufs
      else let bufs = bufs\<lparr>bs_nbytes := nbytes\<rparr> in
        andThen (on_error (nvm_buf_alloc sys dev nbytes 0) (nvm_buf_set_free sys (Some bufs))) (\<lambda>(p, _).
        let bufs = bufs\<lparr>bs_write := p\<rparr> in
        andThen (on_error (nvm_buf_alloc sys dev nbytes 0) (nvm_buf_set_free sys (Some bufs))) (\<lambda>(q, _).
        ok (bufs\<lparr>bs_read := q\<rparr>))))"

definition buf_set_meta :: "'w sys \<Rightarrow> nvm_dev \<Rightarrow> u64 \<Rightarrow> nvm_buf_set \<Rightarrow> ('w, nvm_buf_set) op" where
  "buf_set_meta sys dev nbytes_meta bufs =
     (if nbytes_meta = 0 then ok bufs
      else let bufs = bufs\<lparr>bs_nbytes_meta := nbytes_meta\<rparr> in
        andThen (on_error (nvm_buf_alloc sys dev nbytes_meta 0) (nvm_buf_set_free sys (Some bufs))) (\<lambda>(p, _).
        let bufs = bufs\<lparr>bs_write_meta := p\<rparr> in
        andThen (on_error (nvm_buf_alloc sys dev nbytes_meta 0) (nvm_buf_set_free sys (Some bufs))) (\<lambda>(q, _).
        ok (bufs\<lparr>bs_read_meta := q\<rparr>))))"

definition nvm_buf_set_alloc :: "'w sys \<Rightarrow> nvm_dev \<Rightarrow> u64 \<Rightarrow> u64 \<Rightarrow> ('w, nvm_buf_set) op" where
  "nvm_buf_set_alloc sys dev nbytes nbytes_meta =
     andThen (nvm_buf_alloc sys dev sizeof_buf_set 0) (\<lambda>(self, _).
     let bufs = \<lparr>bs_self = self, bs_dev = Some dev, bs_write = NULL, bs_write_meta = NULL,
         bs_read = NULL, bs_read_meta = NULL, bs_nbytes = 0, bs_nbytes_meta = 0\<rparr> in
     andThen (buf_set_data sys dev nbytes bufs) (\<lambda>bufs.
     buf_set_meta sys dev nbytes_meta bufs))"

section \<open>Contents: lemmas\<close>

lemma fold_update:
  assumes "n \<le> length buf"
  shows "fold (\<lambda>i b. b[i := f i]) [0..<n] buf = map f [0..<n] @ drop n buf"
  using assms
proof (induction n)
  case (Suc n)
  have "(map f [0..<n] @ drop n buf)[n := f n] = map f [0..<n] @ (drop n buf)[0 := f n]"
    by (simp add: list_update_append)
  also have "(drop n buf)[0 := f n] = f n # drop (Suc n) buf"
    using Suc.prems by (simp add: Cons_nth_drop_Suc [symmetric])
  finally show ?case
    using Suc by simp
qed simp

lemma fold_count:
  "n \<le> m \<Longrightarrow> fold (\<lambda>i d. if P i then d + 1 else d) [0..<n] (d :: u64) = d + of_nat (card {i. i < n \<and> P i})"
proof (induction n)
  case (Suc n)
  have "{i. i < Suc n \<and> P i} = (if P n then insert n {i. i < n \<and> P i} else {i. i < n \<and> P i})"
    by (auto simp: less_Suc_eq)
  then show ?case using Suc by simp
qed simp

section \<open>The contract of the allocators\<close>

definition allocates :: "('w \<Rightarrow> ptr set) \<Rightarrow> ('a \<Rightarrow> ptr) \<Rightarrow> ('w, 'a) op \<Rightarrow> bool" where
  "allocates live pt m \<longleftrightarrow> (\<forall>w. case m w of
       (Inr x, w') \<Rightarrow> pt x \<noteq> 0 \<and> pt x \<notin> live w \<and> live w' = insert (pt x) (live w)
     | (Inl e, w') \<Rightarrow> (\<exists>x. e = Errno x) \<and> live w' = live w)"

definition alloc_ok :: "'w sys \<Rightarrow> ('w \<Rightarrow> ptr set) \<Rightarrow> bool" where
  "alloc_ok sys live \<longleftrightarrow>
     (\<forall>al n. allocates live id (sys_aligned_alloc sys al n))
     \<and> (\<forall>n al. allocates live fst (sys_spdk_dma_malloc sys n al))
     \<and> (\<forall>n. allocates live id (sys_malloc sys n))
     \<and> (\<forall>n sz. allocates live id (sys_calloc sys n sz))
     \<and> (\<forall>p w. live (sys_free sys p w) = live w - {p})
     \<and> (\<forall>p w. live (sys_spdk_dma_free sys p w) = live w - {p})
     \<and> (\<forall>p bs w. live (sys_store sys p bs w) = live w)"

lemma allocatesD:
  assumes "allocates live pt m"
  shows "m w = (Inr x, w') \<Longrightarrow> pt x \<noteq> 0 \<and> pt x \<notin> live w \<and> live w' = insert (pt x) (live w)"
    "m w = (Inl e, w') \<Longrightarrow> (\<exists>x. e = Errno x) \<and> live w' = live w"
  using assms by (auto simp: allocates_def split: prod.splits sum.splits dest: spec [of _ w])

lemma allocates_fail: "allocates live pt (fail (Errno e))"
  by (simp add: allocates_def fail_def)

lemma allocates_andThen:
  "allocates live pt m \<Longrightarrow> (\<And>x. pt' (f x) = pt x) \<Longrightarrow> allocates live pt' (andThen m (\<lambda>x. ok (f x)))"
  by (simp add: allocates_def andThen_def ok_def split: prod.splits sum.splits)

definition be_known :: "nvm_dev \<Rightarrow> bool" where
  "be_known dev \<longleftrightarrow> dev_be dev \<in> {Some NVM_BE_IOCTL, Some NVM_BE_LBD, Some NVM_BE_SPDK, Some NVM_BE_NOCD}"

text \<open>
  The interface: allocation returns a pointer that was not live, releasing a pointer makes it not
  live, and a failed allocation changes nothing.
\<close>

locale buf_provider =
  fixes good :: "'d \<Rightarrow> bool" and live :: "'d \<Rightarrow> 'w \<Rightarrow> ptr set"
    and alloc :: "'d \<Rightarrow> u64 \<Rightarrow> u64 \<Rightarrow> ('w, ptr \<times> u64) op" and release :: "'d \<Rightarrow> ptr \<Rightarrow> ('w, unit) op"
  assumes alloc_new: "good d \<Longrightarrow> alloc d n ph w = (Inr (p, ph'), w') \<Longrightarrow>
      p \<noteq> 0 \<and> p \<notin> live d w \<and> live d w' = insert p (live d w)"
    and alloc_fail: "good d \<Longrightarrow> alloc d n ph w = (Inl e, w') \<Longrightarrow> (\<exists>x. e = Errno x) \<and> live d w' = live d w"
    and release_live: "good d \<Longrightarrow> \<exists>w'. release d p w = (Inr (), w') \<and> live d w' = live d w - {p}"
begin

lemma alloc_cases:
  assumes "good d"
  obtains (new) p ph' w' where "alloc d n ph w = (Inr (p, ph'), w')" "p \<noteq> 0" "p \<notin> live d w"
      "live d w' = insert p (live d w)"
  | (fail) x w' where "alloc d n ph w = (Inl (Errno x), w')" "live d w' = live d w"
proof (cases "alloc d n ph w")
  case (Pair r w')
  show thesis
  proof (cases r)
    case (Inl e)
    then show thesis using Pair assms alloc_fail fail by blast
  next
    case (Inr q)
    obtain p ph' where "q = (p, ph')" by fastforce
    then show thesis using Pair Inr assms alloc_new new by blast
  qed
qed

lemma release_list:
  assumes "good d"
  shows "\<exists>w'. each_op (release d) ps w = (Inr (), w') \<and> live d w' = live d w - set ps"
proof (induction ps arbitrary: w)
  case (Cons p ps)
  obtain w1 where "release d p w = (Inr (), w1)" "live d w1 = live d w - {p}"
    using release_live assms by blast
  with Cons [of w1] show ?case
    by (auto simp: andThen_def)
qed (simp add: ok_def)

lemma release_alloc:
  assumes "good d" "alloc d n ph w = (Inr (p, ph'), w1)"
  shows "\<exists>w2. release d p w1 = (Inr (), w2) \<and> live d w2 = live d w"
  using alloc_new [OF assms] release_live [OF assms(1), of p w1] by auto

end

lemma nvm_buf_alloc_allocates:
  assumes "alloc_ok sys live" "be_known dev"
  shows "allocates live fst (nvm_buf_alloc sys dev n ph)"
  using assms
  by (auto simp: be_known_def nvm_buf_alloc_def nvm_buf_virt_alloc_def Let_def alloc_ok_def allocates_fail
      intro!: allocates_andThen [where pt = id])

interpretation bp: buf_provider
  "\<lambda>(sys, dev, live). alloc_ok sys live \<and> be_known dev" "\<lambda>(sys, dev, live). live"
  "\<lambda>(sys, dev, live). nvm_buf_alloc sys dev" "\<lambda>(sys, dev, live). nvm_buf_free sys dev"
proof (unfold_locales, goal_cases)
  case (1 d n ph w p ph' w')
  obtain sys dev live where d: "d = (sys, dev, live)" by (cases d)
  with 1 show ?case
    using allocatesD(1) [OF nvm_buf_alloc_allocates, of sys live dev n ph w] by fastforce
next
  case (2 d n ph w e w')
  obtain sys dev live where d: "d = (sys, dev, live)" by (cases d)
  with 2 show ?case
    using allocatesD(2) [OF nvm_buf_alloc_allocates, of sys live dev n ph w] by fastforce
next
  case (3 d p w)
  then show ?case
    by (auto simp: be_known_def nvm_buf_free_def nvm_buf_virt_free_def upd_def alloc_ok_def)
qed

section \<open>Buffer sets: no leak\<close>

definition bs_ptrs :: "nvm_buf_set \<Rightarrow> ptr set" where
  "bs_ptrs b = {bs_self b, bs_write b, bs_write_meta b, bs_read b, bs_read_meta b} - {0}"

text \<open>Beyond the pointers \<open>L\<close> that were live before, exactly the pointers of the set are live.\<close>

definition bs_owns :: "nvm_dev \<Rightarrow> ptr set \<Rightarrow> ptr set \<Rightarrow> nvm_buf_set \<Rightarrow> bool" where
  "bs_owns dev L L' b \<longleftrightarrow> bs_dev b = Some dev \<and> 0 \<notin> L \<and> bs_ptrs b \<inter> L = {} \<and> L' = L \<union> bs_ptrs b"

lemma set_free_owns:
  assumes "alloc_ok sys live" "be_known dev" "bs_owns dev L (live w) b"
  shows "\<exists>w'. nvm_buf_set_free sys (Some b) w = (Inr (), w') \<and> live w' = L"
proof -
  let ?ps = "[bs_write b, bs_write_meta b, bs_read b, bs_read_meta b, bs_self b]"
  have "nvm_buf_set_free sys (Some b) = each_op (nvm_buf_free sys dev) ?ps"
    using assms(3) by (simp add: nvm_buf_set_free_def bs_owns_def)
  then obtain w' where "nvm_buf_set_free sys (Some b) w = (Inr (), w')" "live w' = live w - set ?ps"
    using bp.release_list [of "(sys, dev, live)" ?ps w] assms(1,2) by auto
  moreover have "(L \<union> (S - {0})) - S = L" if "(S - {0}) \<inter> L = {}" "0 \<notin> L" for S :: "ptr set"
    using that by blast
  then have "live w - {bs_self b, bs_write b, bs_write_meta b, bs_read b, bs_read_meta b} = L"
    using assms(3) unfolding bs_owns_def bs_ptrs_def by metis
  moreover have "set ?ps = {bs_self b, bs_write b, bs_write_meta b, bs_read b, bs_read_meta b}"
    by auto
  ultimately show ?thesis by auto
qed

lemma set_alloc_step:
  assumes "alloc_ok sys live" "be_known dev" "bs_owns dev L (live w) b"
  obtains (new) p ph w' where "on_error (nvm_buf_alloc sys dev n 0) (nvm_buf_set_free sys (Some b)) w = (Inr (p, ph), w')"
      "p \<noteq> 0" "p \<notin> live w" "live w' = insert p (live w)"
  | (fail) x w' where "on_error (nvm_buf_alloc sys dev n 0) (nvm_buf_set_free sys (Some b)) w = (Inl (Errno x), w')"
      "live w' = L"
proof -
  have g: "case (sys, dev, live) of (sys, dev, live) \<Rightarrow> alloc_ok sys live \<and> be_known dev"
    using assms by simp
  show thesis
  proof (cases rule: bp.alloc_cases [OF g, where n = n and ph = 0 and w = w, case_names new fail])
    case (new p ph' w')
    then show thesis using that(1) by (simp add: on_error_def)
  next
    case (fail x w')
    then have "bs_owns dev L (live w') b" using assms(3) by simp
    from set_free_owns [OF assms(1,2) this] fail show thesis
      using that(2) by (auto simp: on_error_def)
  qed
qed

lemma buf_set_data_owns:
  assumes "alloc_ok sys live" "be_known dev" "bs_owns dev L (live w) b" "bs_write b = 0" "bs_read b = 0"
  shows "case buf_set_data sys dev n b w of
      (Inr b', w') \<Rightarrow> bs_owns dev L (live w') b' \<and> (n \<noteq> 0 \<longrightarrow> bs_write b' \<noteq> 0 \<and> bs_read b' \<noteq> 0 \<and> bs_nbytes b' = n)
        \<and> bs_write_meta b' = bs_write_meta b \<and> bs_read_meta b' = bs_read_meta b
    | (Inl e, w') \<Rightarrow> (\<exists>x. e = Errno x) \<and> live w' = L"
proof (cases "n = 0")
  case True
  then show ?thesis using assms by (simp add: buf_set_data_def ok_def)
next
  case False
  let ?b = "b\<lparr>bs_nbytes := n\<rparr>"
  have o1: "bs_owns dev L (live w) ?b"
    using assms(3) by (simp add: bs_owns_def bs_ptrs_def)
  show ?thesis
  proof (cases rule: set_alloc_step [OF assms(1,2) o1, where n = n, case_names new fail])
    case (new p ph w1)
    let ?b1 = "?b\<lparr>bs_write := p\<rparr>"
    have o2: "bs_owns dev L (live w1) ?b1"
      using o1 assms(4) new by (auto simp: bs_owns_def bs_ptrs_def)
    show ?thesis
    proof (cases rule: set_alloc_step [OF assms(1,2) o2, where n = n, case_names new fail])
      case new2: (new q ph w2)
      have "bs_owns dev L (live w2) (?b1\<lparr>bs_read := q\<rparr>)"
        using o2 assms(5) new2 by (auto simp: bs_owns_def bs_ptrs_def)
      then show ?thesis
        using False new new2 by (simp add: buf_set_data_def Let_def andThen_def ok_def)
    next
      case (fail x w2)
      then show ?thesis using False new by (simp add: buf_set_data_def Let_def andThen_def ok_def)
    qed
  next
    case (fail x w1)
    then show ?thesis using False by (simp add: buf_set_data_def Let_def andThen_def ok_def)
  qed
qed

lemma buf_set_meta_owns:
  assumes "alloc_ok sys live" "be_known dev" "bs_owns dev L (live w) b" "bs_write_meta b = 0" "bs_read_meta b = 0"
  shows "case buf_set_meta sys dev n b w of
      (Inr b', w') \<Rightarrow> bs_owns dev L (live w') b' \<and> (n \<noteq> 0 \<longrightarrow> bs_write_meta b' \<noteq> 0 \<and> bs_read_meta b' \<noteq> 0 \<and> bs_nbytes_meta b' = n)
        \<and> bs_write b' = bs_write b \<and> bs_read b' = bs_read b \<and> bs_nbytes b' = bs_nbytes b
    | (Inl e, w') \<Rightarrow> (\<exists>x. e = Errno x) \<and> live w' = L"
proof (cases "n = 0")
  case True
  then show ?thesis using assms by (simp add: buf_set_meta_def ok_def)
next
  case False
  let ?b = "b\<lparr>bs_nbytes_meta := n\<rparr>"
  have o1: "bs_owns dev L (live w) ?b"
    using assms(3) by (simp add: bs_owns_def bs_ptrs_def)
  show ?thesis
  proof (cases rule: set_alloc_step [OF assms(1,2) o1, where n = n, case_names new fail])
    case (new p ph w1)
    let ?b1 = "?b\<lparr>bs_write_meta := p\<rparr>"
    have o2: "bs_owns dev L (live w1) ?b1"
      using o1 assms(4) new by (auto simp: bs_owns_def bs_ptrs_def)
    show ?thesis
    proof (cases rule: set_alloc_step [OF assms(1,2) o2, where n = n, case_names new fail])
      case new2: (new q ph w2)
      have "bs_owns dev L (live w2) (?b1\<lparr>bs_read_meta := q\<rparr>)"
        using o2 assms(5) new2 by (auto simp: bs_owns_def bs_ptrs_def)
      then show ?thesis
        using False new new2 by (simp add: buf_set_meta_def Let_def andThen_def ok_def)
    next
      case (fail x w2)
      then show ?thesis using False new by (simp add: buf_set_meta_def Let_def andThen_def ok_def)
    qed
  next
    case (fail x w1)
    then show ?thesis using False by (simp add: buf_set_meta_def Let_def andThen_def ok_def)
  qed
qed

lemma buf_set_alloc_owns:
  assumes "alloc_ok sys live" "be_known dev" "0 \<notin> live w"
  shows "case nvm_buf_set_alloc sys dev n nm w of
      (Inr b, w') \<Rightarrow> bs_owns dev (live w) (live w') b
        \<and> (n \<noteq> 0 \<longrightarrow> bs_write b \<noteq> 0 \<and> bs_read b \<noteq> 0 \<and> bs_nbytes b = n)
        \<and> (nm \<noteq> 0 \<longrightarrow> bs_write_meta b \<noteq> 0 \<and> bs_read_meta b \<noteq> 0 \<and> bs_nbytes_meta b = nm)
    | (Inl e, w') \<Rightarrow> (\<exists>x. e = Errno x) \<and> live w' = live w"
proof -
  have g: "case (sys, dev, live) of (sys, dev, live) \<Rightarrow> alloc_ok sys live \<and> be_known dev"
    using assms by simp
  show ?thesis
  proof (cases rule: bp.alloc_cases [OF g, where n = sizeof_buf_set and ph = 0 and w = w, case_names new fail])
    case (new p ph w1)
    let ?b = "\<lparr>bs_self = p, bs_dev = Some dev, bs_write = NULL, bs_write_meta = NULL,
         bs_read = NULL, bs_read_meta = NULL, bs_nbytes = 0, bs_nbytes_meta = 0\<rparr>"
    have o: "bs_owns dev (live w) (live w1) ?b"
      using new assms(3) by (auto simp: bs_owns_def bs_ptrs_def)
    note d = buf_set_data_owns [OF assms(1,2) o, of n, simplified]
    show ?thesis
    proof (cases "buf_set_data sys dev n ?b w1")
      case (Pair r w2)
      show ?thesis
      proof (cases r)
        case (Inl e)
        then show ?thesis using new Pair d by (simp add: nvm_buf_set_alloc_def andThen_def)
      next
        case (Inr b2)
        have "bs_owns dev (live w) (live w2) b2" "bs_write_meta b2 = 0" "bs_read_meta b2 = 0"
          "n \<noteq> 0 \<longrightarrow> bs_write b2 \<noteq> 0 \<and> bs_read b2 \<noteq> 0 \<and> bs_nbytes b2 = n"
          using d Pair Inr by simp_all
        with buf_set_meta_owns [OF assms(1,2) this(1-3), of nm] show ?thesis
          using new Pair Inr by (auto simp: nvm_buf_set_alloc_def andThen_def split: prod.splits sum.splits)
      qed
    qed
  next
    case (fail x w')
    then show ?thesis by (simp add: nvm_buf_set_alloc_def andThen_def)
  qed
qed

section \<open>A concrete allocator\<close>

text \<open>
  For the witnesses: eight page-sized slots, the world is the list of slots in use. Allocation
  fails with ENOMEM when all are.
\<close>

definition ex_slots :: "ptr list" where
  "ex_slots = [0x1000, 0x2000, 0x3000, 0x4000, 0x5000, 0x6000, 0x7000, 0x8000]"

definition ex_alloc :: "(ptr list, ptr) op" where
  "ex_alloc w = (case find (\<lambda>p. p \<notin> set w) ex_slots of
     None \<Rightarrow> (Inl (Errno ENOMEM), w) | Some p \<Rightarrow> (Inr p, p # w))"

definition ex_sys :: "ptr list sys" where
  "ex_sys = \<lparr>sys_aligned_alloc = (\<lambda>al n. ex_alloc), sys_free = (\<lambda>p. filter (\<lambda>q. q \<noteq> p)),
     sys_malloc = (\<lambda>n. ex_alloc), sys_calloc = (\<lambda>n sz. ex_alloc),
     sys_spdk_dma_malloc = (\<lambda>n al. andThen ex_alloc (\<lambda>p. ok (p, p + 0x100000000))),
     sys_spdk_dma_realloc = (\<lambda>p n al. andThen (if p = 0 then ex_alloc else ok p) (\<lambda>p. ok (p, p + 0x100000000))),
     sys_spdk_dma_free = (\<lambda>p. filter (\<lambda>q. q \<noteq> p)),
     sys_spdk_vtophys = (\<lambda>p w. p + 0x100000000), sys_rand = (\<lambda>w. (7, w)), sys_getenv = (\<lambda>s w. None),
     sys_store = (\<lambda>p bs w. w), sys_ret_async = (\<lambda>r c w. w), sys_ret_clear = (\<lambda>r w. w)\<rparr>"

lemma ex_alloc_allocates: "allocates set id ex_alloc"
proof -
  have z: "0 \<notin> set ex_slots"
    by (simp add: ex_slots_def)
  have "p \<noteq> 0 \<and> p \<notin> set w" if "find (\<lambda>p. p \<notin> set w) ex_slots = Some p" for p w
    using that z unfolding find_Some_iff by (metis nth_mem)
  then show ?thesis
    unfolding allocates_def ex_alloc_def by (auto split: option.split)
qed

lemma ex_sys_ok: "alloc_ok ex_sys set"
  by (auto simp: alloc_ok_def ex_sys_def ex_alloc_allocates intro!: allocates_andThen [where pt = id])

section \<open>Properties\<close>

text \<open>
  C22. No leak in buffer sets: whatever the allocator answers, \<open>nvm_buf_set_alloc\<close> either fails
  with every buffer it had obtained released again, or returns a set whose live pointers are
  exactly those of its members, with the requested data and meta buffers present; and
  \<open>nvm_buf_set_free\<close> then restores the live pointers to what they were.
\<close>

theorem nvm_buf_set_alloc_no_leak:
  assumes "alloc_ok sys live" "be_known dev" "0 \<notin> live w"
  shows "case nvm_buf_set_alloc sys dev nbytes nbytes_meta w of
      (Inr b, w') \<Rightarrow> live w' = live w \<union> bs_ptrs b \<and> bs_ptrs b \<inter> live w = {}
        \<and> (nbytes \<noteq> 0 \<longrightarrow> bs_write b \<noteq> 0 \<and> bs_read b \<noteq> 0 \<and> bs_nbytes b = nbytes)
        \<and> (nbytes_meta \<noteq> 0 \<longrightarrow> bs_write_meta b \<noteq> 0 \<and> bs_read_meta b \<noteq> 0 \<and> bs_nbytes_meta b = nbytes_meta)
        \<and> (\<exists>w''. nvm_buf_set_free sys (Some b) w' = (Inr (), w'') \<and> live w'' = live w)
    | (Inl e, w') \<Rightarrow> (\<exists>x. e = Errno x) \<and> live w' = live w"
  using buf_set_alloc_owns [OF assms, of nbytes nbytes_meta] set_free_owns [OF assms(1,2)]
  by (auto split: prod.splits sum.splits simp: bs_owns_def)

theorem nvm_buf_set_alloc_no_leak_witness:
  "nvm_buf_set_alloc ex_sys ex_dev_s20 4096 16 [0x3000, 0x4000, 0x5000, 0x6000]
     = (Inl (Errno ENOMEM), [0x3000, 0x4000, 0x5000, 0x6000])"
proof -
  have "fst (nvm_buf_set_alloc ex_sys ex_dev_s20 4096 16 [0x3000, 0x4000, 0x5000, 0x6000]) = Inl (Errno ENOMEM)
     \<and> snd (nvm_buf_set_alloc ex_sys ex_dev_s20 4096 16 [0x3000, 0x4000, 0x5000, 0x6000])
       = [0x3000, 0x4000, 0x5000, 0x6000]"
    by code_simp
  then show ?thesis
    using nvm_buf_set_alloc_no_leak [OF ex_sys_ok, of ex_dev_s20 "[0x3000, 0x4000, 0x5000, 0x6000]" 4096 16]
    by (simp add: prod_eq_iff)
qed

text \<open>
  \<open>nvm_buf_fill\<close> writes the letters A to Z cyclically into the first \<open>nbytes\<close> bytes and
  nothing else, and \<open>nvm_buf_diff\<close> counts the positions at which two buffers differ, without
  wrap-around; so a buffer compared with itself after filling has no difference.
\<close>

theorem nvm_buf_fill_diff:
  assumes "n \<le> length buf" "n \<le> length a" "n \<le> length b" "n < 2 ^ 64"
  shows "nvm_buf_fill buf n = Inr (map (\<lambda>i. of_nat (i mod 26) + 65) [0..<n] @ drop n buf)
    \<and> (\<exists>d. nvm_buf_diff a b n = Inr d \<and> unat d = card {i. i < n \<and> a ! i \<noteq> b ! i}
        \<and> (d = 0 \<longleftrightarrow> take n a = take n b))"
proof -
  let ?D = "{i. i < n \<and> a ! i \<noteq> b ! i}"
  have "card ?D \<le> n"
    using card_mono [of "{..<n}" ?D] by auto
  then have u: "unat (of_nat (card ?D) :: u64) = card ?D"
    using assms(4) by (intro unat_u64) simp
  have "card ?D = 0 \<longleftrightarrow> (\<forall>i<n. a ! i = b ! i)"
    by auto
  also have "\<dots> \<longleftrightarrow> take n a = take n b"
    using assms(2,3) by (simp add: list_eq_iff_nth_eq)
  finally have "card ?D = 0 \<longleftrightarrow> take n a = take n b" .
  then have "(of_nat (card ?D) :: u64) = 0 \<longleftrightarrow> take n a = take n b"
    using u unat_eq_zero [of "of_nat (card ?D) :: u64"] by argo
  then show ?thesis
    using assms u fold_count [of n n "\<lambda>i. a ! i \<noteq> b ! i" 0]
    by (simp add: nvm_buf_fill_def nvm_buf_diff_def fold_update)
qed

theorem nvm_buf_fill_diff_witness:
  "nvm_buf_fill [0, 0, 0, 9] 3 = Inr [65, 66, 67, 9] \<and> nvm_buf_diff [65, 66, 67, 9] [65, 0, 67, 8] 4 = Inr 2"
proof -
  have "nvm_buf_fill [0, 0, 0, 9] 3 = Inr [65, 66, 67, 9]" "nvm_buf_diff [65, 66, 67, 9] [65, 0, 67, 8] 4 = Inr 2"
    by code_simp+
  then show ?thesis
    using nvm_buf_fill_diff [of 3 "[0, 0, 0, 9]" "[65, 66, 67, 9]" "[65, 0, 67, 8]"] by simp
qed

end
