(* ===== verification/Nvm_Dev.thy ===== *)
theory Nvm_Dev
  imports Nvm_Types
begin

text \<open>
  Device attributes and options, \<open>src/nvm_dev.c\<close>: getters with their C integer conversions,
  setters with their guards. \<open>vopts_ok\<close> is the invariant of the options of the virtual block
  layer; \<open>dev_step\<close> is one call of a setter by a client. Opening and closing are in \<open>Nvm_Be\<close> and
  \<open>Nvm_Bbt\<close>, which provide what they call.
\<close>

section \<open>Getters\<close>

definition nvm_dev_get_ws_min :: "nvm_dev \<Rightarrow> int res" where
  "nvm_dev_get_ws_min dev =
     (if dev_verid dev = NVM_SPEC_VERID_12 then Inr (c_int (uint (nsectors (dev_geo dev))))
      else if dev_verid dev = NVM_SPEC_VERID_20
      then Inr (c_int (uint (ws_min (s20_wrt (idfy_s20 (dev_idfy dev))))))
      else Inl (Errno EINVAL))"

definition nvm_dev_get_ws_opt :: "nvm_dev \<Rightarrow> int res" where
  "nvm_dev_get_ws_opt dev =
     (if dev_verid dev = NVM_SPEC_VERID_12
      then Inr (c_int (uint (nplanes (dev_geo dev) * nsectors (dev_geo dev))))
      else if dev_verid dev = NVM_SPEC_VERID_20
      then Inr (c_int (uint (ws_opt (s20_wrt (idfy_s20 (dev_idfy dev))))))
      else Inl (Errno EINVAL))"

definition nvm_dev_get_mw_cunits :: "nvm_dev \<Rightarrow> int res" where
  "nvm_dev_get_mw_cunits dev =
     (if dev_verid dev = NVM_SPEC_VERID_20
      then Inr (c_int (uint (mw_cunits (s20_wrt (idfy_s20 (dev_idfy dev))))))
      else Inl (Errno EINVAL))"

section \<open>Setters\<close>

definition nvm_dev_set_quirks :: "nvm_dev \<Rightarrow> u32 \<Rightarrow> nvm_dev res" where
  "nvm_dev_set_quirks dev quirks = Inr (dev\<lparr>dev_quirks := quirks\<rparr>)"

definition nvm_dev_set_pmode :: "nvm_dev \<Rightarrow> int \<Rightarrow> nvm_dev res" where
  "nvm_dev_set_pmode dev pmode =
     (if pmode = NVM_FLAG_PMODE_QUAD \<and> nplanes (dev_geo dev) < 4 then Inl (Errno EINVAL)
      else if (pmode = NVM_FLAG_PMODE_QUAD \<or> pmode = NVM_FLAG_PMODE_DUAL) \<and> nplanes (dev_geo dev) < 2
      then Inl (Errno EINVAL)
      else if pmode = NVM_FLAG_PMODE_QUAD \<or> pmode = NVM_FLAG_PMODE_DUAL \<or> pmode = NVM_FLAG_PMODE_SNGL
      then Inr (dev\<lparr>dev_pmode := pmode\<rparr>)
      else Inl (Errno EINVAL))"

definition nvm_dev_set_meta_mode :: "nvm_dev \<Rightarrow> int \<Rightarrow> nvm_dev res" where
  "nvm_dev_set_meta_mode dev meta_mode =
     (if meta_mode = NVM_META_MODE_NONE \<or> meta_mode = NVM_META_MODE_ALPHA \<or> meta_mode = NVM_META_MODE_CONST
      then Inr (dev\<lparr>dev_meta_mode := meta_mode\<rparr>)
      else Inl (Errno EINVAL))"

definition nvm_dev_set_erase_naddrs_max :: "nvm_dev \<Rightarrow> int \<Rightarrow> nvm_dev res" where
  "nvm_dev_set_erase_naddrs_max dev naddrs =
     (if naddrs > NVM_NADDR_MAX then Inl (Errno EINVAL)
      else if naddrs < 1 then Inl (Errno EINVAL)
      else Inr (dev\<lparr>dev_erase_naddrs_max := naddrs\<rparr>))"

definition nvm_dev_set_read_naddrs_max :: "nvm_dev \<Rightarrow> int \<Rightarrow> nvm_dev res" where
  "nvm_dev_set_read_naddrs_max dev naddrs =
     (let geo = dev_geo dev in
      if naddrs > NVM_NADDR_MAX then Inl (Errno EINVAL)
      else if naddrs < 1 then Inl (Errno EINVAL)
      else if dev_pmode dev \<noteq> 0 \<and> nplanes geo = 0 then Inl (Fault DivByZero)
      else if dev_pmode dev \<noteq> 0 \<and> word_of_int naddrs mod nplanes geo \<noteq> 0 then Inl (Errno EINVAL)
      else Inr (dev\<lparr>dev_read_naddrs_max := naddrs\<rparr>))"

definition nvm_dev_set_write_naddrs_max :: "nvm_dev \<Rightarrow> int \<Rightarrow> nvm_dev res" where
  "nvm_dev_set_write_naddrs_max dev naddrs =
     (let geo = dev_geo dev in
      if naddrs > NVM_NADDR_MAX then Inl (Errno EINVAL)
      else if naddrs < 1 then Inl (Errno EINVAL)
      else if dev_verid dev \<noteq> NVM_SPEC_VERID_20 then
        (if dev_pmode dev \<noteq> 0 \<and> nplanes geo * nsectors geo = 0 then Inl (Fault DivByZero)
         else if dev_pmode dev \<noteq> 0 \<and> word_of_int naddrs mod (nplanes geo * nsectors geo) \<noteq> 0
         then Inl (Errno EINVAL)
         else if nsectors geo = 0 then Inl (Fault DivByZero)
         else if word_of_int naddrs mod nsectors geo \<noteq> 0 then Inl (Errno EINVAL)
         else Inr (dev\<lparr>dev_write_naddrs_max := naddrs\<rparr>))
      else Inr (dev\<lparr>dev_write_naddrs_max := naddrs\<rparr>))"

definition nvm_dev_set_bbts_cached :: "nvm_dev \<Rightarrow> int \<Rightarrow> nvm_dev res" where
  "nvm_dev_set_bbts_cached dev bbts_cached =
     (if bbts_cached = 0 \<or> bbts_cached = 1 then Inr (dev\<lparr>dev_bbts_cached := bbts_cached\<rparr>)
      else Inl (Errno EINVAL))"

section \<open>Command options of an opened device\<close>

abbreviation (input) NVM_CMD_DEF_IOMD :: u32 where "NVM_CMD_DEF_IOMD \<equiv> NVM_CMD_SYNC"
abbreviation (input) NVM_CMD_DEF_ADDR :: u32 where "NVM_CMD_DEF_ADDR \<equiv> NVM_CMD_VECTOR"
abbreviation (input) NVM_CMD_DEF_PLOD :: u32 where "NVM_CMD_DEF_PLOD \<equiv> NVM_CMD_PRP"

text \<open>The last part of \<open>nvm_dev_openf\<close>.\<close>

definition openf_cmd_opts :: "u32 \<Rightarrow> u32" where
  "openf_cmd_opts flags =
     (let o0 = 0;
        o1 = (if flags AND NVM_CMD_MASK_IOMD \<noteq> 0 then o0 OR (flags AND NVM_CMD_MASK_IOMD) else o0 OR NVM_CMD_DEF_IOMD);
        o2 = (if flags AND NVM_CMD_MASK_ADDR \<noteq> 0 then o1 OR (flags AND NVM_CMD_MASK_ADDR) else o1 OR NVM_CMD_DEF_ADDR)
      in if flags AND NVM_CMD_MASK_PLOD \<noteq> 0 then o2 OR (flags AND NVM_CMD_MASK_PLOD) else o2 OR NVM_CMD_DEF_PLOD)"

section \<open>The option invariant\<close>

definition pmode_ok :: "nvm_dev \<Rightarrow> bool" where
  "pmode_ok dev \<longleftrightarrow> dev_pmode dev = 0 \<or> dev_pmode dev = 1 \<and> 2 \<le> nplanes (dev_geo dev)
     \<or> dev_pmode dev = 2 \<and> 4 \<le> nplanes (dev_geo dev)"

definition vopts_ok :: "nvm_dev \<Rightarrow> bool" where
  "vopts_ok dev \<longleftrightarrow> pmode_ok dev \<and> dev_meta_mode dev \<in> {0, 1, 2}
     \<and> dev_erase_naddrs_max dev \<in> {1..64} \<and> dev_read_naddrs_max dev \<in> {1..64}
     \<and> dev_write_naddrs_max dev \<in> {1..64} \<and> dev_bbts_cached dev \<in> {0, 1}"

text \<open>One successful call of a setter by a client.\<close>

inductive dev_step :: "nvm_dev \<Rightarrow> nvm_dev \<Rightarrow> bool" where
  quirks: "nvm_dev_set_quirks dev q = Inr dev' \<Longrightarrow> dev_step dev dev'"
| pmode: "nvm_dev_set_pmode dev m = Inr dev' \<Longrightarrow> dev_step dev dev'"
| meta: "nvm_dev_set_meta_mode dev m = Inr dev' \<Longrightarrow> dev_step dev dev'"
| erase: "nvm_dev_set_erase_naddrs_max dev n = Inr dev' \<Longrightarrow> dev_step dev dev'"
| read: "nvm_dev_set_read_naddrs_max dev n = Inr dev' \<Longrightarrow> dev_step dev dev'"
| writes: "nvm_dev_set_write_naddrs_max dev n = Inr dev' \<Longrightarrow> dev_step dev dev'"
| cached: "nvm_dev_set_bbts_cached dev n = Inr dev' \<Longrightarrow> dev_step dev dev'"

lemmas dev_setter_defs = nvm_dev_set_quirks_def nvm_dev_set_pmode_def nvm_dev_set_meta_mode_def
  nvm_dev_set_erase_naddrs_max_def nvm_dev_set_read_naddrs_max_def nvm_dev_set_write_naddrs_max_def
  nvm_dev_set_bbts_cached_def

lemma dev_step_keeps:
  assumes "dev_step dev dev'"
  shows "dev_geo dev' = dev_geo dev \<and> dev_verid dev' = dev_verid dev \<and> dev_cmd_opts dev' = dev_cmd_opts dev
    \<and> dev_be dev' = dev_be dev \<and> dev_bbts dev' = dev_bbts dev \<and> dev_lbaf dev' = dev_lbaf dev
    \<and> dev_lbaz dev' = dev_lbaz dev \<and> dev_lbam dev' = dev_lbam dev \<and> dev_ppaf dev' = dev_ppaf dev
    \<and> dev_mask dev' = dev_mask dev \<and> dev_ssw dev' = dev_ssw dev"
  using assms by cases (auto simp: dev_setter_defs Let_def split: if_splits)

lemma set_pmode_ok: "nvm_dev_set_pmode dev m = Inr dev' \<Longrightarrow> pmode_ok dev'"
  by (auto simp: nvm_dev_set_pmode_def pmode_ok_def split: if_splits)

lemma pmode_ok_cong: "dev_pmode d = dev_pmode e \<Longrightarrow> dev_geo d = dev_geo e \<Longrightarrow> pmode_ok d = pmode_ok e"
  by (simp add: pmode_ok_def)

lemma dev_step_vopts:
  assumes "dev_step dev dev'" "vopts_ok dev" shows "vopts_ok dev'"
  using assms
proof cases
  case (pmode m)
  then have "dev' = dev\<lparr>dev_pmode := m\<rparr>"
    by (simp add: nvm_dev_set_pmode_def split: if_splits)
  with set_pmode_ok [OF pmode] assms(2) show ?thesis
    by (simp add: vopts_ok_def)
qed (simp_all add: vopts_ok_def pmode_ok_def dev_setter_defs Let_def split: if_splits; clarsimp)+

lemma dev_steps_vopts: "dev_step\<^sup>*\<^sup>* dev dev' \<Longrightarrow> vopts_ok dev \<Longrightarrow> vopts_ok dev'"
  by (induction rule: rtranclp_induct) (auto intro: dev_step_vopts)

lemma dev_steps_keep:
  "dev_step\<^sup>*\<^sup>* dev dev' \<Longrightarrow> dev_geo dev' = dev_geo dev \<and> dev_verid dev' = dev_verid dev"
  by (induction rule: rtranclp_induct) (auto dest: dev_step_keeps)

lemma setters_no_fault:
  assumes "pmode_ok dev" "nplanes (dev_geo dev) * nsectors (dev_geo dev) \<noteq> 0"
  shows "no_fault (nvm_dev_set_read_naddrs_max dev n)" "no_fault (nvm_dev_set_write_naddrs_max dev n)"
  using assms by (auto simp: dev_setter_defs Let_def)

end
