(* ===== verification/Nvm_Be.thy ===== *)
theory Nvm_Be
  imports Nvm_Addr Nvm_Buf Nvm_Dev
begin

text \<open>
  Backends, \<open>include/nvm_be.h\<close> and \<open>src/nvm_be.c\<close>: the table of operations a backend provides, the
  operations of a backend that does not implement them, the initialisation of a device from its
  identify data, the choice of a backend, and \<open>nvm_dev_openf\<close> of \<open>src/nvm_dev.c\<close> on top of it.

  A backend is a record of operations on a world. A command that returns 0 or -1 has a unit
  result; a structure returned in a buffer comes with the address of the buffer. An argument
  \<open>ret\<close> is the caller's pointer to a \<open>struct nvm_ret\<close>.
\<close>

section \<open>The backend interface\<close>

text \<open>
  Reaping completions returns a number of events or an error and the callbacks it made on the way, in
  order: the \<open>struct nvm_ret\<close> each was called with and whether its status is an error.
\<close>

type_synonym 'w async_op = "'w \<Rightarrow> (int res \<times> (ptr \<times> bool) list) \<times> 'w"

record 'w nvm_be =
  be_id :: u32
  be_name :: string
  be_open :: "string \<Rightarrow> u32 \<Rightarrow> ('w, nvm_dev) op"
  be_close :: "nvm_dev \<Rightarrow> ('w, unit) op"
  be_pass :: "nvm_dev \<Rightarrow> nvm_nvme_cmd \<Rightarrow> ptr \<Rightarrow> u64 \<Rightarrow> ptr \<Rightarrow> u64 \<Rightarrow> u32 \<Rightarrow> ptr \<Rightarrow> ('w, unit) op"
  be_idfy :: "nvm_dev \<Rightarrow> ptr \<Rightarrow> ('w, ptr \<times> nvm_spec_idfy) op"
  be_rprt :: "nvm_dev \<Rightarrow> nvm_addr option \<Rightarrow> int \<Rightarrow> ptr \<Rightarrow> ('w, ptr \<times> nvm_spec_rprt) op"
  be_gfeat :: "nvm_dev \<Rightarrow> u8 \<Rightarrow> ptr \<Rightarrow> ('w, u32) op"
  be_sfeat :: "nvm_dev \<Rightarrow> u8 \<Rightarrow> u32 \<Rightarrow> ptr \<Rightarrow> ('w, unit) op"
  be_gbbt :: "nvm_dev \<Rightarrow> nvm_addr \<Rightarrow> ptr \<Rightarrow> ('w, ptr \<times> nvm_spec_bbt) op"
  be_sbbt :: "nvm_dev \<Rightarrow> nvm_addr list \<Rightarrow> int \<Rightarrow> u16 \<Rightarrow> ptr \<Rightarrow> ('w, unit) op"
  be_scalar_erase :: "nvm_dev \<Rightarrow> nvm_addr list \<Rightarrow> int \<Rightarrow> u16 \<Rightarrow> ptr \<Rightarrow> ('w, unit) op"
  be_scalar_write :: "nvm_dev \<Rightarrow> nvm_addr \<Rightarrow> int \<Rightarrow> ptr \<Rightarrow> ptr \<Rightarrow> u16 \<Rightarrow> ptr \<Rightarrow> ('w, unit) op"
  be_scalar_read :: "nvm_dev \<Rightarrow> nvm_addr \<Rightarrow> int \<Rightarrow> ptr \<Rightarrow> ptr \<Rightarrow> u16 \<Rightarrow> ptr \<Rightarrow> ('w, unit) op"
  be_vector_erase :: "nvm_dev \<Rightarrow> nvm_addr list \<Rightarrow> int \<Rightarrow> ptr \<Rightarrow> u16 \<Rightarrow> ptr \<Rightarrow> ('w, unit) op"
  be_vector_write :: "nvm_dev \<Rightarrow> nvm_addr list \<Rightarrow> int \<Rightarrow> ptr \<Rightarrow> ptr \<Rightarrow> u16 \<Rightarrow> ptr \<Rightarrow> ('w, unit) op"
  be_vector_read :: "nvm_dev \<Rightarrow> nvm_addr list \<Rightarrow> int \<Rightarrow> ptr \<Rightarrow> ptr \<Rightarrow> u16 \<Rightarrow> ptr \<Rightarrow> ('w, unit) op"
  be_vector_copy :: "nvm_dev \<Rightarrow> nvm_addr list \<Rightarrow> nvm_addr list \<Rightarrow> int \<Rightarrow> u16 \<Rightarrow> ptr \<Rightarrow> ('w, unit) op"
  be_async_init :: "nvm_dev \<Rightarrow> u32 \<Rightarrow> u16 \<Rightarrow> ('w, nvm_async_ctx) op"
  be_async_term :: "nvm_dev \<Rightarrow> ptr \<Rightarrow> ('w, unit) op"
  be_async_poke :: "nvm_dev \<Rightarrow> ptr \<Rightarrow> u32 \<Rightarrow> 'w async_op"
  be_async_wait :: "nvm_dev \<Rightarrow> ptr \<Rightarrow> 'w async_op"

section \<open>Operations that are not implemented\<close>

definition nvm_be_nosys_open :: "string \<Rightarrow> u32 \<Rightarrow> ('w, nvm_dev) op" where
  "nvm_be_nosys_open path flags = fail (Errno ENOSYS)"

text \<open>\<open>nvm_be_nosys_close\<close> returns nothing; it only assigns \<open>errno\<close>.\<close>

definition nvm_be_nosys_close :: "nvm_dev \<Rightarrow> ('w, unit) op" where
  "nvm_be_nosys_close dev = ok ()"

definition nvm_be_nosys_pass ::
  "nvm_dev \<Rightarrow> nvm_nvme_cmd \<Rightarrow> ptr \<Rightarrow> u64 \<Rightarrow> ptr \<Rightarrow> u64 \<Rightarrow> u32 \<Rightarrow> ptr \<Rightarrow> ('w, unit) op" where
  "nvm_be_nosys_pass dev cmd data data_len meta meta_len flags ret = fail (Errno ENOSYS)"

definition nvm_be_nosys_idfy :: "nvm_dev \<Rightarrow> ptr \<Rightarrow> ('w, ptr \<times> nvm_spec_idfy) op" where
  "nvm_be_nosys_idfy dev ret = fail (Errno ENOSYS)"

definition nvm_be_nosys_rprt :: "nvm_dev \<Rightarrow> nvm_addr option \<Rightarrow> int \<Rightarrow> ptr \<Rightarrow> ('w, ptr \<times> nvm_spec_rprt) op" where
  "nvm_be_nosys_rprt dev addr opt ret = fail (Errno ENOSYS)"

definition nvm_be_nosys_gfeat :: "nvm_dev \<Rightarrow> u8 \<Rightarrow> ptr \<Rightarrow> ('w, u32) op" where
  "nvm_be_nosys_gfeat dev fid ret = fail (Errno ENOSYS)"

definition nvm_be_nosys_sfeat :: "nvm_dev \<Rightarrow> u8 \<Rightarrow> u32 \<Rightarrow> ptr \<Rightarrow> ('w, unit) op" where
  "nvm_be_nosys_sfeat dev fid feat ret = fail (Errno ENOSYS)"

definition nvm_be_nosys_gbbt :: "nvm_dev \<Rightarrow> nvm_addr \<Rightarrow> ptr \<Rightarrow> ('w, ptr \<times> nvm_spec_bbt) op" where
  "nvm_be_nosys_gbbt dev addr ret = fail (Errno ENOSYS)"

definition nvm_be_nosys_sbbt :: "nvm_dev \<Rightarrow> nvm_addr list \<Rightarrow> int \<Rightarrow> u16 \<Rightarrow> ptr \<Rightarrow> ('w, unit) op" where
  "nvm_be_nosys_sbbt dev addrs naddrs flags ret = fail (Errno ENOSYS)"

definition nvm_be_nosys_scalar_erase :: "nvm_dev \<Rightarrow> nvm_addr list \<Rightarrow> int \<Rightarrow> u16 \<Rightarrow> ptr \<Rightarrow> ('w, unit) op" where
  "nvm_be_nosys_scalar_erase dev addrs naddrs flags ret = fail (Errno ENOSYS)"

definition nvm_be_nosys_scalar_write ::
  "nvm_dev \<Rightarrow> nvm_addr \<Rightarrow> int \<Rightarrow> ptr \<Rightarrow> ptr \<Rightarrow> u16 \<Rightarrow> ptr \<Rightarrow> ('w, unit) op" where
  "nvm_be_nosys_scalar_write dev addr naddrs data meta flags ret = fail (Errno ENOSYS)"

definition nvm_be_nosys_scalar_read ::
  "nvm_dev \<Rightarrow> nvm_addr \<Rightarrow> int \<Rightarrow> ptr \<Rightarrow> ptr \<Rightarrow> u16 \<Rightarrow> ptr \<Rightarrow> ('w, unit) op" where
  "nvm_be_nosys_scalar_read dev addr naddrs data meta flags ret = fail (Errno ENOSYS)"

definition nvm_be_nosys_vector_erase ::
  "nvm_dev \<Rightarrow> nvm_addr list \<Rightarrow> int \<Rightarrow> ptr \<Rightarrow> u16 \<Rightarrow> ptr \<Rightarrow> ('w, unit) op" where
  "nvm_be_nosys_vector_erase dev addrs naddrs meta flags ret = fail (Errno ENOSYS)"

definition nvm_be_nosys_vector_write ::
  "nvm_dev \<Rightarrow> nvm_addr list \<Rightarrow> int \<Rightarrow> ptr \<Rightarrow> ptr \<Rightarrow> u16 \<Rightarrow> ptr \<Rightarrow> ('w, unit) op" where
  "nvm_be_nosys_vector_write dev addrs naddrs data meta flags ret = fail (Errno ENOSYS)"

definition nvm_be_nosys_vector_read ::
  "nvm_dev \<Rightarrow> nvm_addr list \<Rightarrow> int \<Rightarrow> ptr \<Rightarrow> ptr \<Rightarrow> u16 \<Rightarrow> ptr \<Rightarrow> ('w, unit) op" where
  "nvm_be_nosys_vector_read dev addrs naddrs data meta flags ret = fail (Errno ENOSYS)"

definition nvm_be_nosys_vector_copy ::
  "nvm_dev \<Rightarrow> nvm_addr list \<Rightarrow> nvm_addr list \<Rightarrow> int \<Rightarrow> u16 \<Rightarrow> ptr \<Rightarrow> ('w, unit) op" where
  "nvm_be_nosys_vector_copy dev src dst naddrs flags ret = fail (Errno ENOSYS)"

definition nvm_be_nosys_async_init :: "nvm_dev \<Rightarrow> u32 \<Rightarrow> u16 \<Rightarrow> ('w, nvm_async_ctx) op" where
  "nvm_be_nosys_async_init dev depth flags = fail (Errno ENOSYS)"

definition nvm_be_nosys_async_term :: "nvm_dev \<Rightarrow> ptr \<Rightarrow> ('w, unit) op" where
  "nvm_be_nosys_async_term dev ctx = fail (Errno ENOSYS)"

definition nvm_be_nosys_async_poke :: "nvm_dev \<Rightarrow> ptr \<Rightarrow> u32 \<Rightarrow> 'w async_op" where
  "nvm_be_nosys_async_poke dev ctx max_cpl w = ((Inl (Errno ENOSYS), []), w)"

definition nvm_be_nosys_async_wait :: "nvm_dev \<Rightarrow> ptr \<Rightarrow> 'w async_op" where
  "nvm_be_nosys_async_wait dev ctx w = ((Inl (Errno ENOSYS), []), w)"

text \<open>A backend that is not part of the build.\<close>

definition nvm_be_disabled :: "u32 \<Rightarrow> string \<Rightarrow> 'w nvm_be" where
  "nvm_be_disabled bid name = \<lparr>be_id = bid, be_name = name, be_open = nvm_be_nosys_open,
     be_close = nvm_be_nosys_close, be_pass = nvm_be_nosys_pass, be_idfy = nvm_be_nosys_idfy,
     be_rprt = nvm_be_nosys_rprt, be_gfeat = nvm_be_nosys_gfeat, be_sfeat = nvm_be_nosys_sfeat,
     be_gbbt = nvm_be_nosys_gbbt, be_sbbt = nvm_be_nosys_sbbt,
     be_scalar_erase = nvm_be_nosys_scalar_erase, be_scalar_write = nvm_be_nosys_scalar_write,
     be_scalar_read = nvm_be_nosys_scalar_read, be_vector_erase = nvm_be_nosys_vector_erase,
     be_vector_write = nvm_be_nosys_vector_write, be_vector_read = nvm_be_nosys_vector_read,
     be_vector_copy = nvm_be_nosys_vector_copy, be_async_init = nvm_be_nosys_async_init,
     be_async_term = nvm_be_nosys_async_term, be_async_poke = nvm_be_nosys_async_poke,
     be_async_wait = nvm_be_nosys_async_wait\<rparr>"

section \<open>Identifiers, names and paths\<close>

definition ascii_lower :: "char \<Rightarrow> char" where
  "ascii_lower c = (let n = (of_char c :: nat) in if 65 \<le> n \<and> n \<le> 90 then char_of (n + 32) else c)"

fun nvm_be_name2id :: "'w nvm_be list \<Rightarrow> string \<Rightarrow> u32 option" where
  "nvm_be_name2id [] bname = None"
| "nvm_be_name2id (be # bes) bname =
     (if map ascii_lower bname \<noteq> map ascii_lower (be_name be) then nvm_be_name2id bes bname
      else Some (be_id be))"

fun nvm_be_id2name :: "'w nvm_be list \<Rightarrow> u32 \<Rightarrow> string" where
  "nvm_be_id2name [] bid = []"
| "nvm_be_id2name (be # bes) bid =
     (if be_id be \<noteq> bid then nvm_be_id2name bes bid else be_name be)"

text \<open>\<open>atoi\<close> on the last character: its digit, or 0.\<close>

definition atoi_char :: "char \<Rightarrow> int" where
  "atoi_char c = (let n = (of_char c :: int) in if 48 \<le> n \<and> n \<le> 57 then n - 48 else 0)"

text \<open>The result is the pair of \<open>nvme_name\<close> and \<open>nsid\<close>.\<close>

definition nvm_be_split_dpath :: "string \<Rightarrow> (string \<times> int) res" where
  "nvm_be_split_dpath path =
     (let prefix = ''/dev/nvme'' in
      if length path < length prefix + 3 then Inl (Errno EINVAL)
      else if take (length prefix) path \<noteq> prefix then Inl (Errno EINVAL)
      else let val = atoi_char (path ! (length path - 1)) in
        if val < 1 \<or> val > 1024 then Inl (Errno EINVAL)
        else Inr (take 5 (drop 5 path), val))"

section \<open>Derived attributes\<close>

function ilog2_loop :: "u64 \<Rightarrow> u64 \<Rightarrow> u64" where
  "ilog2_loop x v = (let x = drop_bit 1 x in if x \<noteq> 0 then ilog2_loop x (v + 1) else v)"
  by auto

termination
proof (relation "measure (\<lambda>(x, v). unat x)")
  fix x y v :: u64
  assume "y = drop_bit 1 x" "y \<noteq> 0"
  then have "unat y = unat x div 2" "unat y \<noteq> 0"
    using unat_half [of x] unat_eq_zero [of y] by argo+
  then show "((y, v + 1), (x, v)) \<in> measure (\<lambda>(x, v). unat x)"
    by simp
qed simp

definition ilog2 :: "u64 \<Rightarrow> u64" where
  "ilog2 x = ilog2_loop x 0"

text \<open>
  \<open>((uint64_t)1 << len) - 1) << off\<close>. In C a shift by 64 or more has no defined result.
\<close>

definition shift_mask :: "nat \<Rightarrow> nat \<Rightarrow> u64 res" where
  "shift_mask off len =
     (if off < 64 \<and> len < 64 then Inr (push_bit off (push_bit len 1 - 1)) else Inl (Fault BadShift))"

fun shift_masks :: "(nat \<times> nat) list \<Rightarrow> u64 list res" where
  "shift_masks [] = Inr []"
| "shift_masks ((off, len) # fs) =
     (case shift_mask off len of Inl e \<Rightarrow> Inl e
      | Inr m \<Rightarrow> (case shift_masks fs of Inl e \<Rightarrow> Inl e | Inr ms \<Rightarrow> Inr (m # ms)))"

text \<open>The odd entries of the view \<open>a\<close> are the widths, the entry before each is its offset.\<close>

fun off_len_pairs :: "u8 list \<Rightarrow> (nat \<times> nat) list" where
  "off_len_pairs (off # len # r) = (unat off, unat len) # off_len_pairs r"
| "off_len_pairs _ = []"

definition construct_ppaf_mask :: "nvm_spec_ppaf_nand \<Rightarrow> nvm_spec_ppaf_nand_mask res" where
  "construct_ppaf_mask ppaf =
     (case shift_masks (off_len_pairs (ppaf_a ppaf)) of
        Inr [a, b, c, d, e, f] \<Rightarrow> Inr \<lparr>m_ch = a, m_lun = b, m_pl = c, m_blk = d, m_pg = e, m_sec = f\<rparr>
      | Inr _ \<Rightarrow> Inl (Fault OutOfBounds)
      | Inl e \<Rightarrow> Inl e)"

text \<open>
  \<open>strncmp("CX8800ES", serial, n)\<close> with \<open>n\<close> the smaller of 8 and the length of \<open>serial\<close>. The test
  \<open>meta_nbytes > sector_nbytes * 0.1\<close> is on doubles; on the integers it compares it is
  \<open>10 * meta_nbytes > sector_nbytes\<close>.
\<close>

definition serial_is_cx8800es :: "string \<Rightarrow> bool" where
  "serial_is_cx8800es serial \<longleftrightarrow>
     (let n = min 8 (length serial) in take n ''CX8800ES'' = take n serial)"

definition nvm_be_populate_quirks :: "nvm_dev \<Rightarrow> string \<Rightarrow> nvm_dev" where
  "nvm_be_populate_quirks dev serial =
     (if serial_is_cx8800es serial then
        let dev = dev\<lparr>dev_quirks := dev_quirks dev OR NVM_QUIRK_PMODE_ERASE_RUNROLL\<rparr>;
          dev = (if dev_verid dev = NVM_SPEC_VERID_12
                 then dev\<lparr>dev_quirks := dev_quirks dev OR NVM_QUIRK_OOB_2LRG\<rparr>
                 else if dev_verid dev = NVM_SPEC_VERID_20
                 then dev\<lparr>dev_quirks := dev_quirks dev OR NVM_QUIRK_OOB_READ_1ST4BYTES_NULL\<rparr>
                 else dev);
          geo = dev_geo dev
        in if dev_quirks dev AND NVM_QUIRK_OOB_2LRG \<noteq> 0
              \<and> 10 * unat (meta_nbytes geo) > unat (sector_nbytes geo)
           then dev\<lparr>dev_geo := geo\<lparr>meta_nbytes := 16\<rparr>\<rparr> else dev
      else dev)"

text \<open>A setter whose result the caller ignores: an error return leaves the device as it was.\<close>

definition ignoring :: "nvm_dev \<Rightarrow> nvm_dev res \<Rightarrow> nvm_dev res" where
  "ignoring dev r = (case r of Inl (Errno e) \<Rightarrow> Inr dev | r \<Rightarrow> r)"

definition derived_defaults :: "nvm_dev \<Rightarrow> nvm_dev res" where
  "derived_defaults dev =
     (case ignoring dev (nvm_dev_set_erase_naddrs_max dev NVM_NADDR_MAX) of Inl e \<Rightarrow> Inl e | Inr dev \<Rightarrow>
      case ignoring dev (nvm_dev_set_write_naddrs_max dev NVM_NADDR_MAX) of Inl e \<Rightarrow> Inl e | Inr dev \<Rightarrow>
      case ignoring dev (nvm_dev_set_read_naddrs_max dev NVM_NADDR_MAX) of Inl e \<Rightarrow> Inl e | Inr dev \<Rightarrow>
      ignoring dev (nvm_dev_set_meta_mode dev NVM_META_MODE_NONE))"

definition derived_geo_s12 :: "nvm_geo \<Rightarrow> nvm_geo" where
  "derived_geo_s12 geo =
     (let geo = geo\<lparr>nsectors := page_nbytes geo div sector_nbytes geo\<rparr>
      in geo\<lparr>tbytes := nchannels geo * nluns geo * nplanes geo * nblocks geo * npages geo
           * nsectors geo * sector_nbytes geo\<rparr>)"

definition default_pmode :: "u64 \<Rightarrow> int option" where
  "default_pmode n = (if n = 4 then Some NVM_FLAG_PMODE_QUAD else if n = 2 then Some NVM_FLAG_PMODE_DUAL
     else if n = 1 then Some NVM_FLAG_PMODE_SNGL else None)"

definition nvm_be_populate_derived :: "nvm_dev \<Rightarrow> nvm_dev res" where
  "nvm_be_populate_derived dev =
     (let geo = dev_geo dev in
      if dev_verid dev = NVM_SPEC_VERID_12 then
        (if sector_nbytes geo = 0 then Inl (Fault DivByZero)
         else let dev = dev\<lparr>dev_geo := derived_geo_s12 geo, dev_ssw := ilog2 (sector_nbytes geo)\<rparr>
           in case default_pmode (nplanes geo) of
                Some pmode \<Rightarrow> (case ignoring dev (nvm_dev_set_pmode dev pmode) of
                  Inl e \<Rightarrow> Inl e | Inr dev \<Rightarrow> derived_defaults dev)
              | None \<Rightarrow> Inl (Errno EINVAL))
      else if dev_verid dev = NVM_SPEC_VERID_20 then
        derived_defaults (dev\<lparr>
          dev_geo := geo\<lparr>tbytes := l_npugrp geo * l_npunit geo * l_nchunk geo * l_nsectr geo * l_nbytes geo\<rparr>,
          dev_ssw := ilog2 (l_nbytes geo)\<rparr>)
      else derived_defaults dev)"

section \<open>Initialisation of a device\<close>

definition populate_s12 :: "nvm_dev \<Rightarrow> nvm_spec_idfy_s12 \<Rightarrow> nvm_dev res" where
  "populate_s12 dev s12 =
     (let geo = dev_geo dev; grp = s12_grp0 s12;
        geo = geo\<lparr>page_nbytes := ucast (fpg_sz grp), sector_nbytes := ucast (csecs grp),
          meta_nbytes := ucast (sos grp), nchannels := ucast (num_ch grp), nluns := ucast (num_lun grp),
          nplanes := ucast (num_pln grp), nblocks := ucast (num_blk grp), npages := ucast (num_pg grp)\<rparr>
      in case construct_ppaf_mask (s12_ppaf s12) of Inl e \<Rightarrow> Inl e
         | Inr msk \<Rightarrow> Inr (dev\<lparr>dev_geo := geo, dev_mccap := cgrp_mccap grp, dev_ppaf := s12_ppaf s12,
             dev_mask := msk\<rparr>))"

text \<open>\<open>1 << lbaf.ds\<close> is on C \<open>int\<close>: a shift by 31 or more has no defined result.\<close>

definition populate_s20 :: "nvm_dev \<Rightarrow> nvm_spec_idfy_s20 \<Rightarrow> nvm_dev res" where
  "populate_s20 dev s20 =
     (let lgeo = s20_lgeo s20; i = unat (ns_flbas (dev_ns dev) AND 0xF) in
      if length (ns_lbaf (dev_ns dev)) \<le> i then Inl (Fault OutOfBounds)
      else let lbaf = ns_lbaf (dev_ns dev) ! i in
        if 31 \<le> unat (lbaf_ds lbaf) then Inl (Fault BadShift)
        else let geo = (dev_geo dev)\<lparr>nchannels := ucast (lgeo_npugrp lgeo), nluns := ucast (lgeo_npunit lgeo),
              nblocks := ucast (lgeo_nchunk lgeo), nsectors := ucast (lgeo_nsectr lgeo),
              sector_nbytes := push_bit (unat (lbaf_ds lbaf)) 1, meta_nbytes := ucast (lbaf_ms lbaf)\<rparr>;
            f = s20_lbaf s20;
            z_chunk = ucast (lbaf_sectr f); z_punit = z_chunk + ucast (lbaf_chunk f);
            z_pugrp = z_punit + ucast (lbaf_punit f)
          in case shift_masks [(0, unat (lbaf_sectr f)), (unat z_chunk, unat (lbaf_chunk f)),
                (unat z_punit, unat (lbaf_punit f)), (unat z_pugrp, unat (lbaf_pugrp f))] of
               Inr [ms, mc, mu, mg] \<Rightarrow> Inr (dev\<lparr>dev_geo := geo, dev_mccap := s20_mccap s20, dev_lbaf := f,
                 dev_lbaz := \<lparr>lbaz_pugrp = z_pugrp, lbaz_punit = z_punit, lbaz_chunk = z_chunk, lbaz_sectr = 0\<rparr>,
                 dev_lbam := \<lparr>lbam_pugrp = mg, lbam_punit = mu, lbam_chunk = mc, lbam_sectr = ms\<rparr>\<rparr>)
             | Inr _ \<Rightarrow> Inl (Fault OutOfBounds)
             | Inl e \<Rightarrow> Inl e)"

text \<open>What \<open>nvm_be_populate\<close> does with the identify structure, once it has it.\<close>

definition populate_dev :: "nvm_dev \<Rightarrow> nvm_spec_idfy \<Rightarrow> nvm_dev res" where
  "populate_dev dev idfy =
     (let idfy = (if idfy_verid idfy = 3 then idfy\<lparr>idfy_verid := NVM_SPEC_VERID_20\<rparr> else idfy);
        dev = dev\<lparr>dev_idfy := idfy, dev_verid := idfy_verid idfy,
          dev_geo := (dev_geo dev)\<lparr>geo_verid := uint (idfy_verid idfy)\<rparr>\<rparr>
      in case (if idfy_verid idfy = NVM_SPEC_VERID_12 then populate_s12 dev (idfy_s12 idfy)
           else if idfy_verid idfy = NVM_SPEC_VERID_20 then populate_s20 dev (idfy_s20 idfy)
           else Inl (Errno ENOSYS)) of
         Inl e \<Rightarrow> Inl e
       | Inr dev \<Rightarrow> (case nvm_be_populate_derived dev of Inl e \<Rightarrow> Inl e
           | Inr dev \<Rightarrow> Inr (nvm_be_populate_quirks dev [])))"

definition nvm_be_populate :: "'w sys \<Rightarrow> 'w nvm_be \<Rightarrow> nvm_dev \<Rightarrow> ('w, nvm_dev) op" where
  "nvm_be_populate sys be dev =
     (let dev = dev\<lparr>dev_be := Some (be_id be)\<rparr> in
      andThen (be_idfy be dev NULL) (\<lambda>(buf, idfy).
      andThen (on_error (lift_res (populate_dev dev idfy)) (nvm_buf_free sys dev buf)) (\<lambda>dev.
      andThen (nvm_buf_free sys dev buf) (\<lambda>_.
      ok dev))))"

section \<open>Choice of a backend, opening a device\<close>

text \<open>\<open>errno\<close> is what the last \<open>open\<close> that failed left, starting from \<open>en\<close>.\<close>

fun factory_loop :: "u32 \<Rightarrow> string \<Rightarrow> u32 \<Rightarrow> errno \<Rightarrow> 'w nvm_be list \<Rightarrow> ('w, nvm_dev) op" where
  "factory_loop bid dev_ident flags en [] = fail (Errno en)"
| "factory_loop bid dev_ident flags en (be # bes) =
     (if bid \<noteq> 0 \<and> be_id be AND bid = 0 then factory_loop bid dev_ident flags en bes
      else (\<lambda>w. case be_open be dev_ident flags w of
          (Inr dev, w') \<Rightarrow> (Inr (dev\<lparr>dev_be := Some (be_id be)\<rparr>), w')
        | (Inl (Errno e), w') \<Rightarrow> factory_loop bid dev_ident flags (if e = EKEEP then en else e) bes w'
        | (Inl (Fault f), w') \<Rightarrow> (Inl (Fault f), w')))"

definition nvm_be_factory :: "'w sys \<Rightarrow> 'w nvm_be list \<Rightarrow> string \<Rightarrow> u32 \<Rightarrow> ('w, nvm_dev) op" where
  "nvm_be_factory sys nvm_be_imps dev_ident flags w =
     (let bid = flags AND NVM_BE_ALL;
        bid = (case sys_getenv sys ''NVM_BE'' w of
                 Some name \<Rightarrow> if bid = NVM_BE_ANY then nvm_be_name2id nvm_be_imps name else Some bid
               | None \<Rightarrow> Some bid)
      in case bid of
           Some b \<Rightarrow>
             if b = NVM_BE_IOCTL \<or> b = NVM_BE_LBD \<or> b = NVM_BE_SPDK \<or> b = NVM_BE_NOCD \<or> b = NVM_BE_ANY
             then factory_loop b dev_ident flags EKEEP nvm_be_imps w
             else fail (Errno EKEEP) w
         | None \<Rightarrow> fail (Errno EKEEP) w)"

text \<open>
  \<open>nvm_dev_openf\<close>. \<open>errno = errno ? errno : EIO\<close> is written for a call that starts with \<open>errno\<close> 0.
  The table of bad-block tables starts with every entry \<open>NULL\<close>.
\<close>

definition nvm_dev_openf :: "'w sys \<Rightarrow> 'w nvm_be list \<Rightarrow> string \<Rightarrow> u32 \<Rightarrow> ('w, nvm_dev) op" where
  "nvm_dev_openf sys nvm_be_imps path flags w =
     (case nvm_be_factory sys nvm_be_imps path flags w of
        (Inl (Errno e), w') \<Rightarrow> (Inl (Errno (if e = EKEEP then EIO else e)), w')
      | (Inl (Fault f), w') \<Rightarrow> (Inl (Fault f), w')
      | (Inr dev, w') \<Rightarrow>
          (let n = nchannels (dev_geo dev) * nluns (dev_geo dev) in
           case sys_malloc sys (8 * n) w' of
             (Inl (Errno e), w'') \<Rightarrow> (Inl (Errno ENOMEM), w'')
           | (Inl (Fault f), w'') \<Rightarrow> (Inl (Fault f), w'')
           | (Inr p, w'') \<Rightarrow> (Inr (dev\<lparr>dev_bbts_cached := 0, dev_nbbts := n,
               dev_bbts := replicate (unat n) None, dev_cmd_opts := openf_cmd_opts flags\<rparr>), w'')))"

definition nvm_dev_open :: "'w sys \<Rightarrow> 'w nvm_be list \<Rightarrow> string \<Rightarrow> ('w, nvm_dev) op" where
  "nvm_dev_open sys nvm_be_imps path = nvm_dev_openf sys nvm_be_imps path 0"

section \<open>Integer logarithm\<close>

lemma ilog2_loop_spec:
  assumes "x \<noteq> 0" "unat x < 2 ^ m" "unat v + m < 2 ^ 64"
  shows "\<exists>k. unat (ilog2_loop x v) = unat v + k \<and> 2 ^ k \<le> unat x \<and> unat x < 2 ^ Suc k"
  using assms
proof (induction x v arbitrary: m rule: ilog2_loop.induct)
  case (1 x v)
  define y where "y = drop_bit 1 x"
  have uy: "unat y = unat x div 2" by (simp only: y_def unat_half)
  have x: "unat x \<noteq> 0" using "1.prems"(1) by (simp add: unat_eq_zero)
  have step: "ilog2_loop x v = (if y \<noteq> 0 then ilog2_loop y (v + 1) else v)"
    by (subst ilog2_loop.simps) (simp add: y_def Let_def)
  show ?case
  proof (cases "y = 0")
    case True
    then have "unat x div 2 = 0" using uy by simp
    then have "unat x = 1" using x by linarith
    then show ?thesis using True step by (intro exI [of _ 0]) simp
  next
    case False
    then have "unat x div 2 \<noteq> 0" using uy by (metis unat_eq_zero)
    then obtain m' where m: "m = Suc m'" using "1.prems"(2) by (cases m) auto
    have "unat y < 2 ^ m'" using uy m "1.prems"(2) by simp
    moreover have v: "unat (v + 1) = unat v + 1" using "1.prems"(3) m by (subst unat_add_lt) simp_all
    ultimately obtain k where k: "unat (ilog2_loop y (v + 1)) = unat v + 1 + k" "2 ^ k \<le> unat y" "unat y < 2 ^ Suc k"
      using "1.IH" [OF y_def False False, of m'] "1.prems"(3) m by auto
    then show ?thesis
      using uy step False by (intro exI [of _ "Suc k"]) auto
  qed
qed

lemma ilog2_spec:
  assumes "x \<noteq> 0" shows "2 ^ unat (ilog2 x) \<le> unat x \<and> unat x < 2 ^ Suc (unat (ilog2 x))"
  using ilog2_loop_spec [of x 64 0] assms unsigned_less [of x, where ?'a = nat] by (auto simp: ilog2_def)

lemma ilog2_power: "n < 64 \<Longrightarrow> unat (ilog2 (push_bit n 1)) = n"
proof -
  assume n: "n < 64"
  then have u: "unat (push_bit n 1 :: u64) = 2 ^ n"
    using power_strict_increasing [of n 64 "2 :: nat"] by (simp add: unat_push_bit del: push_bit_of_1)
  then have "2 ^ unat (ilog2 (push_bit n 1)) \<le> (2 :: nat) ^ n \<and> (2 :: nat) ^ n < 2 ^ Suc (unat (ilog2 (push_bit n 1)))"
    using ilog2_spec [of "push_bit n 1"] by (metis power_not_zero unat_0 zero_neq_numeral)
  then show ?thesis
    by (metis le_antisym less_Suc_eq_le one_less_numeral_iff power_le_imp_le_exp power_less_imp_less_exp semiring_norm(76))
qed

section \<open>The formats of a populated device\<close>

lemma shift_mask_eq:
  "shift_mask off len = (if off < 64 \<and> len < 64 then Inr (field_mask off len) else Inl (Fault BadShift))"
  by (simp add: shift_mask_def field_mask_def mask_eq_exp_minus_1 push_bit_eq_mult)

lemma shift_masks_eq:
  "shift_masks fs = (if \<forall>f \<in> set fs. fst f < 64 \<and> snd f < 64
     then Inr (map (\<lambda>f. field_mask (fst f) (snd f)) fs) else Inl (Fault BadShift))"
  by (induction fs rule: shift_masks.induct) (auto simp: shift_mask_eq)

lemma ignoring_setters:
  "ignoring dev (nvm_dev_set_erase_naddrs_max dev 64) = Inr (dev\<lparr>dev_erase_naddrs_max := 64\<rparr>)"
  "ignoring dev (nvm_dev_set_meta_mode dev 0) = Inr (dev\<lparr>dev_meta_mode := 0\<rparr>)"
  "ignoring dev (nvm_dev_set_write_naddrs_max dev 64) = Inr d \<Longrightarrow> d = dev \<or> d = dev\<lparr>dev_write_naddrs_max := 64\<rparr>"
  "ignoring dev (nvm_dev_set_read_naddrs_max dev 64) = Inr d \<Longrightarrow> d = dev \<or> d = dev\<lparr>dev_read_naddrs_max := 64\<rparr>"
  by (auto simp: ignoring_def dev_setter_defs Let_def split: if_splits)

lemma derived_defaults_form:
  assumes "derived_defaults dev = Inr dev'"
  shows "\<exists>w r. dev' = dev\<lparr>dev_erase_naddrs_max := 64, dev_write_naddrs_max := w, dev_read_naddrs_max := r,
      dev_meta_mode := 0\<rparr>"
proof -
  let ?d1 = "dev\<lparr>dev_erase_naddrs_max := 64\<rparr>"
  from assms obtain d2 d3 where d: "ignoring ?d1 (nvm_dev_set_write_naddrs_max ?d1 64) = Inr d2"
    "ignoring d2 (nvm_dev_set_read_naddrs_max d2 64) = Inr d3" "dev' = d3\<lparr>dev_meta_mode := 0\<rparr>"
    by (auto simp: derived_defaults_def ignoring_setters(1,2) split: sum.splits)
  have "?d1 = ?d1\<lparr>dev_write_naddrs_max := dev_write_naddrs_max ?d1\<rparr>"
    "d2 = d2\<lparr>dev_read_naddrs_max := dev_read_naddrs_max d2\<rparr>"
    by simp_all
  with ignoring_setters(3) [OF d(1)] ignoring_setters(4) [OF d(2)]
  obtain w r where "d2 = ?d1\<lparr>dev_write_naddrs_max := w\<rparr>" "d3 = d2\<lparr>dev_read_naddrs_max := r\<rparr>"
    by metis
  then show ?thesis
    using d(3) by auto
qed

end
