(* ===== verification/Nvm_Populate.thy ===== *)
theory Nvm_Populate
  imports Nvm_Be
begin

text \<open>
  Correctness of the initialisation of a device (\<open>src/nvm_be.c\<close>, modelled in \<open>Nvm_Be\<close>): the format
  and the geometry that \<open>nvm_be_populate\<close> derives from the identify structure are those the address
  conversions of \<open>Nvm_Addr\<close> need, and the options of \<open>Nvm_Dev\<close> start inside their invariant.
\<close>

section \<open>What initialisation assigns\<close>

text \<open>64 addresses per command satisfy the guards of the setters.\<close>

definition naddrs_64_ok :: "nvm_dev \<Rightarrow> bool" where
  "naddrs_64_ok dev \<longleftrightarrow> (if dev_verid dev = 2 then dev_pmode dev = 0
     else nsectors (dev_geo dev) \<noteq> 0 \<and> nplanes (dev_geo dev) \<noteq> 0 \<and> nplanes (dev_geo dev) * nsectors (dev_geo dev) \<noteq> 0
       \<and> 64 mod (nplanes (dev_geo dev) * nsectors (dev_geo dev)) = 0
       \<and> 64 mod nsectors (dev_geo dev) = 0 \<and> 64 mod nplanes (dev_geo dev) = 0)"

lemma ignoring_Inr: "ignoring d (Inr x) = Inr x"
  by (simp add: ignoring_def)

lemma derived_defaults_64:
  assumes "naddrs_64_ok dev"
  shows "derived_defaults dev = Inr (dev\<lparr>dev_erase_naddrs_max := 64, dev_write_naddrs_max := 64,
      dev_read_naddrs_max := 64, dev_meta_mode := 0\<rparr>)"
proof -
  let ?d1 = "dev\<lparr>dev_erase_naddrs_max := 64\<rparr>"
  let ?d2 = "?d1\<lparr>dev_write_naddrs_max := 64\<rparr>"
  have "nvm_dev_set_write_naddrs_max ?d1 64 = Inr ?d2"
    using assms by (simp add: nvm_dev_set_write_naddrs_max_def naddrs_64_ok_def Let_def split: if_splits)
  moreover have "nvm_dev_set_read_naddrs_max ?d2 64 = Inr (?d2\<lparr>dev_read_naddrs_max := 64\<rparr>)"
    using assms by (simp add: nvm_dev_set_read_naddrs_max_def naddrs_64_ok_def Let_def split: if_splits)
  ultimately show ?thesis
    by (simp add: derived_defaults_def ignoring_setters(1,2) ignoring_Inr)
qed

lemma naddrs_64_ok_cong:
  "dev_verid d = dev_verid e \<Longrightarrow> dev_pmode d = dev_pmode e \<Longrightarrow> nsectors (dev_geo d) = nsectors (dev_geo e)
    \<Longrightarrow> nplanes (dev_geo d) = nplanes (dev_geo e) \<Longrightarrow> naddrs_64_ok d = naddrs_64_ok e"
  by (simp add: naddrs_64_ok_def)

lemma derived_defaults_form64:
  assumes "derived_defaults dev = Inr dev'"
  shows "\<exists>w r. dev' = dev\<lparr>dev_erase_naddrs_max := 64, dev_write_naddrs_max := w, dev_read_naddrs_max := r,
      dev_meta_mode := 0\<rparr> \<and> (naddrs_64_ok dev \<longrightarrow> w = 64 \<and> r = 64)"
proof (cases "naddrs_64_ok dev")
  case True
  then show ?thesis using derived_defaults_64 [OF True] assms by auto
next
  case False
  then show ?thesis using derived_defaults_form [OF assms] by blast
qed

lemma quirks_form:
  "nvm_be_populate_quirks dev s = dev\<lparr>dev_quirks := dev_quirks (nvm_be_populate_quirks dev s),
     dev_geo := (dev_geo dev)\<lparr>meta_nbytes := meta_nbytes (dev_geo (nvm_be_populate_quirks dev s))\<rparr>\<rparr>"
  unfolding nvm_be_populate_quirks_def Let_def by (simp split: if_split)

lemma populate_s20_Inr:
  assumes "populate_s20 dev s20 = Inr dev'"
  defines "f \<equiv> s20_lbaf s20" and "b \<equiv> ns_lbaf (dev_ns dev) ! unat (ns_flbas (dev_ns dev) AND 0xF)"
  shows "unat (lbaf_ds b) < 31 \<and> unat (lbaf_sectr f) < 64 \<and> unat (lbaf_chunk f) < 64
    \<and> unat (lbaf_punit f) < 64 \<and> unat (lbaf_pugrp f) < 64
    \<and> unat (lbaf_sectr f) + unat (lbaf_chunk f) + unat (lbaf_punit f) < 64
    \<and> dev_verid dev' = dev_verid dev \<and> dev_lbaf dev' = f \<and> dev_pmode dev' = dev_pmode dev
    \<and> dev_bbts_cached dev' = dev_bbts_cached dev \<and> dev_be dev' = dev_be dev
    \<and> dev_geo dev' = (dev_geo dev)\<lparr>nchannels := ucast (lgeo_npugrp (s20_lgeo s20)),
         nluns := ucast (lgeo_npunit (s20_lgeo s20)), nblocks := ucast (lgeo_nchunk (s20_lgeo s20)),
         nsectors := ucast (lgeo_nsectr (s20_lgeo s20)), sector_nbytes := push_bit (unat (lbaf_ds b)) 1,
         meta_nbytes := ucast (lbaf_ms b)\<rparr>
    \<and> wf_lbaf dev' = (unat (lbaf_sectr f) + unat (lbaf_chunk f) + unat (lbaf_punit f) + unat (lbaf_pugrp f) \<le> 64)"
proof -
  have u8: "unat (ucast x :: u64) = unat x" for x :: u8
    by (simp add: unat_ucast_up)
  have lt: "unat x < 256" for x :: u8
    using unsigned_less [of x, where ?'a = nat] by simp
  have c: "unat (ucast (lbaf_sectr f) + ucast (lbaf_chunk f) :: u64) = unat (lbaf_sectr f) + unat (lbaf_chunk f)"
    using lt [of "lbaf_sectr f"] lt [of "lbaf_chunk f"] by (subst unat_add_lt) (simp_all add: u8)
  have g: "unat (ucast (lbaf_sectr f) + ucast (lbaf_chunk f) + ucast (lbaf_punit f) :: u64)
      = unat (lbaf_sectr f) + unat (lbaf_chunk f) + unat (lbaf_punit f)"
    using lt [of "lbaf_sectr f"] lt [of "lbaf_chunk f"] lt [of "lbaf_punit f"]
    by (subst unat_add_lt) (simp_all add: u8 c)
  show ?thesis
    using assms(1) unfolding populate_s20_def Let_def f_def [symmetric] b_def [symmetric]
    by (auto simp: shift_masks_eq u8 c g wf_lbaf_def Let_def split: if_splits)
qed


text \<open>
  An identify structure that makes sense for a namespace: fields inside a 64-bit word with room for
  the sector shift and not overlapping, and a geometry that the fields can address.
\<close>

definition ns_fmt :: "nvm_nvme_ns \<Rightarrow> nvm_nvme_lbaf" where
  "ns_fmt ns = ns_lbaf ns ! unat (ns_flbas ns AND 0xF)"

definition sane_s20 :: "nvm_nvme_ns \<Rightarrow> nvm_spec_idfy_s20 \<Rightarrow> bool" where
  "sane_s20 ns s20 \<longleftrightarrow>
     (let f = s20_lbaf s20; g = s20_lgeo s20 in
      unat (lbaf_sectr f) + unat (lbaf_chunk f) + unat (lbaf_punit f) + unat (lbaf_pugrp f)
        + unat (lbaf_ds (ns_fmt ns)) \<le> 64
      \<and> unat (lgeo_npugrp g) \<le> 2 ^ unat (lbaf_pugrp f) \<and> unat (lgeo_npunit g) \<le> 2 ^ unat (lbaf_punit f)
      \<and> unat (lgeo_nchunk g) \<le> 2 ^ unat (lbaf_chunk f) \<and> unat (lgeo_nsectr g) \<le> 2 ^ unat (lbaf_sectr f))"

definition sane_s12 :: "nvm_spec_idfy_s12 \<Rightarrow> bool" where
  "sane_s12 s12 \<longleftrightarrow>
     (let p = s12_ppaf s12; g = s12_grp0 s12 in
      fields_disj (ppaf_fields p) \<and> (\<forall>f \<in> set (ppaf_fields p). fst f + snd f \<le> 48)
      \<and> unat (num_ch g) \<le> 2 ^ unat (ch_len p) \<and> unat (num_lun g) \<le> 2 ^ unat (lun_len p)
      \<and> unat (num_pln g) \<le> 2 ^ unat (pl_len p) \<and> unat (num_blk g) \<le> 2 ^ unat (blk_len p)
      \<and> unat (num_pg g) \<le> 2 ^ unat (pg_len p) \<and> unat (fpg_sz g) div unat (csecs g) \<le> 2 ^ unat (sec_len p))"

lemma wf_lbaf_cong:
  "dev_lbaf d = dev_lbaf e \<Longrightarrow> dev_lbaz d = dev_lbaz e \<Longrightarrow> dev_lbam d = dev_lbam e \<Longrightarrow> wf_lbaf d = wf_lbaf e"
  by (simp add: wf_lbaf_def)

lemma populate_dev_s20:
  assumes pop: "populate_dev dev idfy = Inr dev'" and v: "idfy_verid idfy = 2 \<or> idfy_verid idfy = 3"
  defines "f \<equiv> s20_lbaf (idfy_s20 idfy)" and "g \<equiv> s20_lgeo (idfy_s20 idfy)"
  shows "dev_verid dev' = 2 \<and> dev_lbaf dev' = f \<and> unat (dev_ssw dev') = unat (lbaf_ds (ns_fmt (dev_ns dev)))
    \<and> unat (dev_ssw dev') < 31 \<and> dev_pmode dev' = dev_pmode dev
    \<and> dev_erase_naddrs_max dev' = 64 \<and> dev_meta_mode dev' = 0 \<and> dev_bbts_cached dev' = dev_bbts_cached dev
    \<and> (naddrs_64_ok dev' \<longrightarrow> dev_write_naddrs_max dev' = 64 \<and> dev_read_naddrs_max dev' = 64)
    \<and> l_npugrp (dev_geo dev') = ucast (lgeo_npugrp g) \<and> l_npunit (dev_geo dev') = ucast (lgeo_npunit g)
    \<and> l_nchunk (dev_geo dev') = ucast (lgeo_nchunk g) \<and> l_nsectr (dev_geo dev') = ucast (lgeo_nsectr g)
    \<and> l_nbytes (dev_geo dev') = push_bit (unat (lbaf_ds (ns_fmt (dev_ns dev)))) 1
    \<and> wf_lbaf dev' = (unat (lbaf_sectr f) + unat (lbaf_chunk f) + unat (lbaf_punit f) + unat (lbaf_pugrp f) \<le> 64)"
proof -
  define idfy' where "idfy' = (if idfy_verid idfy = 3 then idfy\<lparr>idfy_verid := 2\<rparr> else idfy)"
  have v': "idfy_verid idfy' = 2" and s: "idfy_s20 idfy' = idfy_s20 idfy"
    using v by (auto simp: idfy'_def)
  define d0 where "d0 = dev\<lparr>dev_idfy := idfy', dev_verid := 2, dev_geo := (dev_geo dev)\<lparr>geo_verid := 2\<rparr>\<rparr>"
  from pop obtain d1 d2 where d: "populate_s20 d0 (idfy_s20 idfy) = Inr d1"
    "nvm_be_populate_derived d1 = Inr d2" "dev' = nvm_be_populate_quirks d2 []"
    unfolding populate_dev_def Let_def idfy'_def [symmetric]
    by (auto simp: v' s d0_def split: sum.splits)
  note p = populate_s20_Inr [OF d(1), folded f_def g_def]
  have ns: "ns_lbaf (dev_ns d0) ! unat (ns_flbas (dev_ns d0) AND 0xF) = ns_fmt (dev_ns dev)"
    and v0: "dev_verid d0 = 2"
    by (simp_all add: d0_def ns_fmt_def)
  define d1' where "d1' = d1\<lparr>dev_geo := (dev_geo d1)\<lparr>tbytes := l_npugrp (dev_geo d1) * l_npunit (dev_geo d1)
      * l_nchunk (dev_geo d1) * l_nsectr (dev_geo d1) * l_nbytes (dev_geo d1)\<rparr>, dev_ssw := ilog2 (l_nbytes (dev_geo d1))\<rparr>"
  have "derived_defaults d1' = Inr d2"
    using d(2) p v0 by (simp add: nvm_be_populate_derived_def Let_def d1'_def)
  then obtain w r where d2: "d2 = d1'\<lparr>dev_erase_naddrs_max := 64, dev_write_naddrs_max := w,
      dev_read_naddrs_max := r, dev_meta_mode := 0\<rparr>" and wr: "naddrs_64_ok d1' \<longrightarrow> w = 64 \<and> r = 64"
    using derived_defaults_form64 by blast
  obtain q m where dev': "dev' = d2\<lparr>dev_quirks := q, dev_geo := (dev_geo d2)\<lparr>meta_nbytes := m\<rparr>\<rparr>"
    using d(3) quirks_form by blast
  have "naddrs_64_ok dev' = naddrs_64_ok d1'"
    by (rule naddrs_64_ok_cong) (simp_all add: dev' d2 d1'_def)
  moreover have "dev_pmode d0 = dev_pmode dev" "dev_bbts_cached d0 = dev_bbts_cached dev"
    by (simp_all add: d0_def)
  moreover have "wf_lbaf dev' = wf_lbaf d1"
    by (rule wf_lbaf_cong) (simp_all add: dev' d2 d1'_def)
  moreover have "unat (ilog2 (push_bit (unat (lbaf_ds (ns_fmt (dev_ns dev)))) 1)) = unat (lbaf_ds (ns_fmt (dev_ns dev)))"
    using p unfolding ns by (intro ilog2_power) simp
  ultimately show ?thesis
    using p v0 wr unfolding ns by (simp add: dev' d2 d1'_def)
qed


lemma off_len_pairs_ppaf: "off_len_pairs (ppaf_a p) = ppaf_fields p"
  by (simp add: ppaf_a_def ppaf_fields_def)

lemma construct_ppaf_mask_Inr:
  assumes "construct_ppaf_mask p = Inr m"
  shows "(\<forall>f \<in> set (ppaf_fields p). fst f < 64 \<and> snd f < 64)
    \<and> [m_ch m, m_lun m, m_pl m, m_blk m, m_pg m, m_sec m] = map (\<lambda>f. field_mask (fst f) (snd f)) (ppaf_fields p)"
  using assms unfolding construct_ppaf_mask_def off_len_pairs_ppaf shift_masks_eq
  by (auto simp: ppaf_fields_def split: if_splits)

lemma set_pmode_default:
  assumes "default_pmode (nplanes (dev_geo dev)) = Some pm"
  shows "nvm_dev_set_pmode dev pm = Inr (dev\<lparr>dev_pmode := pm\<rparr>)"
proof -
  consider "nplanes (dev_geo dev) = 4" "pm = 2" | "nplanes (dev_geo dev) = 2" "pm = 1" | "nplanes (dev_geo dev) = 1" "pm = 0"
    using assms by (auto simp: default_pmode_def split: if_splits)
  then show ?thesis
    by cases (simp_all add: nvm_dev_set_pmode_def)
qed

lemma derived_s12:
  assumes "nvm_be_populate_derived dev = Inr dev'" "dev_verid dev = 1"
  shows "\<exists>pm w r. sector_nbytes (dev_geo dev) \<noteq> 0 \<and> default_pmode (nplanes (dev_geo dev)) = Some pm
    \<and> dev' = dev\<lparr>dev_geo := derived_geo_s12 (dev_geo dev), dev_ssw := ilog2 (sector_nbytes (dev_geo dev)),
        dev_pmode := pm, dev_erase_naddrs_max := 64, dev_write_naddrs_max := w, dev_read_naddrs_max := r,
        dev_meta_mode := 0\<rparr> \<and> (naddrs_64_ok dev' \<longrightarrow> w = 64 \<and> r = 64)"
proof -
  let ?d = "dev\<lparr>dev_geo := derived_geo_s12 (dev_geo dev), dev_ssw := ilog2 (sector_nbytes (dev_geo dev))\<rparr>"
  have s: "sector_nbytes (dev_geo dev) \<noteq> 0"
    using assms by (auto simp: nvm_be_populate_derived_def Let_def)
  with assms obtain pm where pm: "default_pmode (nplanes (dev_geo dev)) = Some pm"
    by (auto simp: nvm_be_populate_derived_def Let_def split: option.splits)
  have "nplanes (dev_geo ?d) = nplanes (dev_geo dev)"
    by (simp add: derived_geo_s12_def Let_def)
  then have "nvm_dev_set_pmode ?d pm = Inr (?d\<lparr>dev_pmode := pm\<rparr>)"
    using pm by (intro set_pmode_default) simp
  then have "derived_defaults (?d\<lparr>dev_pmode := pm\<rparr>) = Inr dev'"
    using assms s pm by (simp add: nvm_be_populate_derived_def Let_def ignoring_def)
  from derived_defaults_form64 [OF this] obtain w r where
    d: "dev' = ?d\<lparr>dev_pmode := pm, dev_erase_naddrs_max := 64, dev_write_naddrs_max := w, dev_read_naddrs_max := r,
        dev_meta_mode := 0\<rparr>" and wr: "naddrs_64_ok (?d\<lparr>dev_pmode := pm\<rparr>) \<longrightarrow> w = 64 \<and> r = 64"
    by blast
  have "naddrs_64_ok dev' = naddrs_64_ok (?d\<lparr>dev_pmode := pm\<rparr>)"
    by (rule naddrs_64_ok_cong) (simp_all add: d)
  with d wr s pm show ?thesis
    by auto
qed

lemma populate_dev_s12:
  assumes pop: "populate_dev dev idfy = Inr dev'" and v: "idfy_verid idfy = 1"
  defines "p \<equiv> s12_ppaf (idfy_s12 idfy)" and "g \<equiv> s12_grp0 (idfy_s12 idfy)"
  shows "dev_verid dev' = 1 \<and> dev_ppaf dev' = p \<and> csecs g \<noteq> 0 \<and> dev_ssw dev' = ilog2 (ucast (csecs g))
    \<and> nplanes (dev_geo dev') \<in> {1, 2, 4} \<and> pmode_ok dev'
    \<and> dev_erase_naddrs_max dev' = 64 \<and> dev_meta_mode dev' = 0 \<and> dev_bbts_cached dev' = dev_bbts_cached dev
    \<and> (naddrs_64_ok dev' \<longrightarrow> dev_write_naddrs_max dev' = 64 \<and> dev_read_naddrs_max dev' = 64)
    \<and> nchannels (dev_geo dev') = ucast (num_ch g) \<and> nluns (dev_geo dev') = ucast (num_lun g)
    \<and> nplanes (dev_geo dev') = ucast (num_pln g) \<and> nblocks (dev_geo dev') = ucast (num_blk g)
    \<and> npages (dev_geo dev') = ucast (num_pg g) \<and> sector_nbytes (dev_geo dev') = ucast (csecs g)
    \<and> nsectors (dev_geo dev') = ucast (fpg_sz g) div ucast (csecs g)
    \<and> wf_ppaf dev' = (fields_disj (ppaf_fields p) \<and> (\<forall>f \<in> set (ppaf_fields p). fst f + snd f \<le> 64))"
proof -
  define d0 where "d0 = dev\<lparr>dev_idfy := idfy, dev_verid := 1, dev_geo := (dev_geo dev)\<lparr>geo_verid := 1\<rparr>\<rparr>"
  from pop v obtain d1 d2 where d: "populate_s12 d0 (idfy_s12 idfy) = Inr d1"
    "nvm_be_populate_derived d1 = Inr d2" "dev' = nvm_be_populate_quirks d2 []"
    by (auto simp: populate_dev_def Let_def d0_def split: sum.splits)
  define geo where "geo = (dev_geo d0)\<lparr>page_nbytes := ucast (fpg_sz g), sector_nbytes := ucast (csecs g),
      meta_nbytes := ucast (sos g), nchannels := ucast (num_ch g), nluns := ucast (num_lun g),
      nplanes := ucast (num_pln g), nblocks := ucast (num_blk g), npages := ucast (num_pg g)\<rparr>"
  from d(1) obtain msk where msk: "construct_ppaf_mask p = Inr msk"
    and d1: "d1 = d0\<lparr>dev_geo := geo, dev_mccap := cgrp_mccap g, dev_ppaf := p, dev_mask := msk\<rparr>"
    by (auto simp: populate_s12_def Let_def p_def g_def geo_def split: sum.splits)
  have g1: "dev_geo d1 = geo" "dev_verid d1 = 1" by (simp_all add: d1 d0_def)
  from derived_s12 [OF d(2) g1(2), unfolded g1(1)]
  obtain pm w r where sec: "sector_nbytes geo \<noteq> 0" and pm: "default_pmode (nplanes geo) = Some pm"
    and d2: "d2 = d1\<lparr>dev_geo := derived_geo_s12 geo, dev_ssw := ilog2 (sector_nbytes geo), dev_pmode := pm,
      dev_erase_naddrs_max := 64, dev_write_naddrs_max := w, dev_read_naddrs_max := r, dev_meta_mode := 0\<rparr>"
    and wr: "naddrs_64_ok d2 \<longrightarrow> w = 64 \<and> r = 64"
    by blast
  obtain q m where dev': "dev' = d2\<lparr>dev_quirks := q, dev_geo := (dev_geo d2)\<lparr>meta_nbytes := m\<rparr>\<rparr>"
    using d(3) quirks_form by blast
  have "wf_ppaf dev' = (fields_disj (ppaf_fields p) \<and> (\<forall>f \<in> set (ppaf_fields p). fst f + snd f \<le> 64))"
    using construct_ppaf_mask_Inr [OF msk] unfolding wf_ppaf_def Let_def
    by (auto simp: dev' d2 d1)
  moreover have "naddrs_64_ok dev' \<longrightarrow> dev_write_naddrs_max dev' = 64 \<and> dev_read_naddrs_max dev' = 64"
  proof -
    have "naddrs_64_ok dev' = naddrs_64_ok d2"
      by (rule naddrs_64_ok_cong) (simp_all add: dev')
    moreover have "dev_write_naddrs_max dev' = w" "dev_read_naddrs_max dev' = r"
      by (simp_all add: dev' d2)
    ultimately show ?thesis using wr by blast
  qed
  moreover have np: "nplanes geo \<in> {1, 2, 4}"
    using pm by (auto simp: default_pmode_def split: if_splits)
  moreover have "pmode_ok dev'"
    using pm by (auto simp: pmode_ok_def dev' d2 default_pmode_def derived_geo_s12_def Let_def split: if_splits)
  moreover have "csecs g \<noteq> 0"
    using sec by (auto simp: geo_def)
  moreover have "dev_geo dev' = (derived_geo_s12 geo)\<lparr>meta_nbytes := m\<rparr>" "dev_ssw dev' = ilog2 (sector_nbytes geo)"
    "dev_verid dev' = 1" "dev_ppaf dev' = p" "dev_erase_naddrs_max dev' = 64" "dev_meta_mode dev' = 0"
    "dev_bbts_cached dev' = dev_bbts_cached dev"
    by (simp_all add: dev' d2 d1 d0_def)
  ultimately show ?thesis
    by (simp add: derived_geo_s12_def Let_def geo_def)
qed


section \<open>Addresses of an initialised device\<close>

definition sane_idfy :: "nvm_nvme_ns \<Rightarrow> nvm_spec_idfy \<Rightarrow> bool" where
  "sane_idfy ns idfy \<longleftrightarrow>
     (if idfy_verid idfy = 1 then sane_s12 (idfy_s12 idfy) else sane_s20 ns (idfy_s20 idfy))"

lemma lt_of_bound:
  fixes x :: u64 and n :: "'a::len word"
  assumes "x < ucast n" "unat n \<le> 2 ^ k" "LENGTH('a) \<le> 64" shows "unat x < 2 ^ k"
  using assms by (simp add: word_less_nat_alt unat_ucast_up)

lemma populated_s20_format:
  assumes pop: "populate_dev dev idfy = Inr dev'" and v: "idfy_verid idfy = 2 \<or> idfy_verid idfy = 3"
    and sum: "unat (lbaf_sectr (s20_lbaf (idfy_s20 idfy))) + unat (lbaf_chunk (s20_lbaf (idfy_s20 idfy)))
      + unat (lbaf_punit (s20_lbaf (idfy_s20 idfy))) + unat (lbaf_pugrp (s20_lbaf (idfy_s20 idfy)))
      + unat (lbaf_ds (ns_fmt (dev_ns dev))) \<le> 64"
  shows "wf_lbaf dev' \<and> wf_off dev'"
proof -
  note p = populate_dev_s20 [OF pop v]
  have v2: "dev_verid dev' = 2" and f: "dev_lbaf dev' = s20_lbaf (idfy_s20 idfy)"
    and ssw: "unat (dev_ssw dev') = unat (lbaf_ds (ns_fmt (dev_ns dev)))" "unat (dev_ssw dev') < 31"
    using p by blast+
  have wf: "wf_lbaf dev'" using p sum by simp
  then have "unat (lbaz_pugrp (dev_lbaz dev')) = unat (lbaf_sectr (dev_lbaf dev'))
      + unat (lbaf_chunk (dev_lbaf dev')) + unat (lbaf_punit (dev_lbaf dev'))"
    unfolding wf_lbaf_def Let_def by blast
  then have "fmt_bits dev' + unat (dev_ssw dev') \<le> 64" using sum v2 f ssw(1) by (simp add: fmt_bits_def)
  then show ?thesis using v2 wf ssw(2) by (simp add: wf_off_def wf_fmt_def)
qed

lemma populated_s20:
  assumes pop: "populate_dev dev idfy = Inr dev'" and v: "idfy_verid idfy = 2 \<or> idfy_verid idfy = 3"
    and sane: "sane_s20 (dev_ns dev) (idfy_s20 idfy)"
  shows "wf_off dev' \<and> (in_bounds_s20 (dev_geo dev') a \<longrightarrow> fits dev' a)"
proof -
  note p = populate_dev_s20 [OF pop v]
  have "fits dev' a" if "in_bounds_s20 (dev_geo dev') a"
    using that p sane unfolding in_bounds_s20_def sane_s20_def Let_def
    by (auto simp: fits_def fits_s20_def elim!: lt_of_bound)
  then show ?thesis using populated_s20_format [OF pop v] sane by (simp add: sane_s20_def Let_def)
qed

lemma populated_s12:
  assumes pop: "populate_dev dev idfy = Inr dev'" and v: "idfy_verid idfy = 1"
    and sane: "sane_s12 (idfy_s12 idfy)"
  shows "wf_off dev' \<and> (in_bounds_s12 (dev_geo dev') a \<longrightarrow> fits dev' a)"
proof -
  note p = populate_dev_s12 [OF pop v]
  let ?g = "s12_grp0 (idfy_s12 idfy)"
  have wf: "wf_ppaf dev'"
    using p sane by (fastforce simp: sane_s12_def Let_def)
  have "unat (ucast (csecs ?g) :: u64) = unat (csecs ?g)" "unat (csecs ?g) < 2 ^ 16"
    using unsigned_less [of "csecs ?g", where ?'a = nat] by (simp_all add: unat_ucast_up)
  moreover have "(ucast (csecs ?g) :: u64) \<noteq> 0"
    using p calculation(1) by (metis unat_eq_zero)
  ultimately have "(2 :: nat) ^ unat (dev_ssw dev') < 2 ^ 16"
    using p ilog2_spec [of "ucast (csecs ?g)"] by auto
  then have ssw: "unat (dev_ssw dev') < 16"
    by (rule power_less_imp_less_exp [rotated]) simp
  have "fold max (map (\<lambda>f. fst f + snd f) (ppaf_fields (dev_ppaf dev'))) 0 \<le> 48"
    using p sane by (auto simp: sane_s12_def Let_def ppaf_fields_def)
  then have "wf_off dev'"
    using p wf ssw by (auto simp: wf_off_def wf_fmt_def fmt_bits_def)
  moreover have "fits dev' a" if b: "in_bounds_s12 (dev_geo dev') a"
  proof -
    have "unat (g_sec a) < 2 ^ unat (sec_len (dev_ppaf dev'))"
      using b p sane by (auto simp: in_bounds_s12_def sane_s12_def Let_def word_less_nat_alt unat_div unat_ucast_up)
    then show ?thesis
      using b p sane unfolding in_bounds_s12_def sane_s12_def Let_def
      by (auto simp: fits_def fits_s12_def elim!: lt_of_bound)
  qed
  ultimately show ?thesis by blast
qed

section \<open>Options of an initialised device\<close>

lemma populate_options:
  assumes pop: "populate_dev dev idfy = Inr dev'" and fresh: "dev_pmode dev = 0" "dev_bbts_cached dev = 0"
    and ok: "naddrs_64_ok dev'"
  shows "vopts_ok dev' \<and> dev_erase_naddrs_max dev' = 64 \<and> dev_read_naddrs_max dev' = 64
    \<and> dev_write_naddrs_max dev' = 64"
proof -
  have v: "idfy_verid idfy = 1 \<or> idfy_verid idfy = 2 \<or> idfy_verid idfy = 3"
    using pop by (auto simp: populate_dev_def Let_def split: if_splits)
  show ?thesis
  proof (cases "idfy_verid idfy = 1")
    case True
    with populate_dev_s12 [OF pop True] fresh ok show ?thesis by (simp add: vopts_ok_def)
  next
    case False
    with v have "idfy_verid idfy = 2 \<or> idfy_verid idfy = 3" by blast
    with populate_dev_s20 [OF pop this] fresh ok show ?thesis by (simp add: vopts_ok_def pmode_ok_def)
  qed
qed

section \<open>A concrete backend\<close>

text \<open>For the witnesses: an SPDK backend of which only the identify command is given.\<close>

definition ex_ns :: nvm_nvme_ns where
  "ex_ns = \<lparr>ns_nsze = 0, ns_ncap = 0, ns_nuse = 0, ns_flbas = 0x10,
     ns_lbaf = \<lparr>lbaf_ms = 16, lbaf_ds = 12, lbaf_rp = 0\<rparr> # replicate 15 \<lparr>lbaf_ms = 0, lbaf_ds = 9, lbaf_rp = 0\<rparr>\<rparr>"

definition ex_idfy_s20 :: nvm_spec_idfy where
  "ex_idfy_s20 = (dev_idfy dev_zero)\<lparr>idfy_verid := 3,
     idfy_s20 := \<lparr>s20_lbaf = \<lparr>lbaf_pugrp = 3, lbaf_punit = 2, lbaf_chunk = 11, lbaf_sectr = 13\<rparr>, s20_mccap = 0,
         s20_wit = 0, s20_lgeo = \<lparr>lgeo_npugrp = 8, lgeo_npunit = 4, lgeo_nchunk = 1474, lgeo_nsectr = 6144\<rparr>,
         s20_wrt = \<lparr>ws_min = 4, ws_opt = 24, mw_cunits = 0, maxoc = 0, maxocpu = 0\<rparr>\<rparr>\<rparr>"

definition ex_be :: "nvm_spec_idfy \<Rightarrow> ptr list nvm_be" where
  "ex_be idfy = (nvm_be_disabled NVM_BE_SPDK ''NVM_BE_SPDK'')\<lparr>
     be_idfy := (\<lambda>dev ret. andThen ex_alloc (\<lambda>p. ok (p, idfy))),
     be_open := (\<lambda>path flags. ok ex_dev_s20)\<rparr>"

section \<open>Properties\<close>

text \<open>
  C2. After \<open>nvm_be_populate\<close> has initialised a device from an identify structure that makes sense
  (1.2, 2.0, or the revision 3 that is read as 2.0), every address that passes \<open>nvm_addr_check\<close>
  survives the round trip through the device format and through byte offsets, and its byte offset
  is the device address times \<open>2 ^ ssw\<close> without wrap-around.
\<close>

theorem populate_addressing:
  assumes "be_idfy be (dev\<lparr>dev_be := Some (be_id be)\<rparr>) NULL w = (Inr (buf, idfy), w1)"
    and "nvm_be_populate sys be dev w = (Inr dev', w')"
    and "idfy_verid idfy \<in> {1, 2, 3}" "sane_idfy (dev_ns dev) idfy"
    and "nvm_addr_check a dev' = Inr 0"
  shows "nvm_addr_dev2gen dev' (nvm_addr_gen2dev dev' a) = a
    \<and> nvm_addr_off2gen dev' (nvm_addr_gen2off dev' a) = a
    \<and> unat (nvm_addr_gen2off dev' a) = unat (nvm_addr_gen2dev dev' a) * 2 ^ unat (dev_ssw dev')"
proof -
  let ?d = "dev\<lparr>dev_be := Some (be_id be)\<rparr>"
  have pop: "populate_dev ?d idfy = Inr dev'"
    using assms(1,2) by (auto simp: nvm_be_populate_def Let_def andThen_def ok_def on_error_def lift_res_def
        split: prod.splits sum.splits failure.splits)
  have wf: "wf_off dev'" and fit: "fits dev' a"
  proof -
    have "wf_off dev' \<and> fits dev' a"
    proof (cases "idfy_verid idfy = 1")
      case True
      then have "sane_s12 (idfy_s12 idfy)" "dev_verid dev' = 1"
        using assms(4) populate_dev_s12 [OF pop] by (auto simp: sane_idfy_def)
      then show ?thesis
        using populated_s12 [OF pop True] addr_check_fails_s12 [of dev' a] assms(5)
        by (auto simp: addr_check_fails_def)
    next
      case False
      then have v: "idfy_verid idfy = 2 \<or> idfy_verid idfy = 3" and "sane_s20 (dev_ns ?d) (idfy_s20 idfy)"
        using assms(3,4) by (auto simp: sane_idfy_def)
      then show ?thesis
        using populated_s20 [OF pop v] populate_dev_s20 [OF pop v] addr_check_fails_s20 [of dev' a] assms(5)
        by (auto simp: addr_check_fails_def)
    qed
    then show "wf_off dev'" "fits dev' a" by auto
  qed
  from wf have "wf_fmt dev'" by (simp add: wf_off_def)
  with fmt.dec_enc fmt_off.dec_off [OF wf fit] fmt_off.unat_off [OF wf fit] fit show ?thesis
    by (simp add: nvm_addr_off2gen_def nvm_addr_gen2off_def)
qed

theorem populate_addressing_witness:
  "\<exists>dev' w'. nvm_be_populate ex_sys (ex_be ex_idfy_s20) (dev_zero\<lparr>dev_ns := ex_ns\<rparr>) [] = (Inr dev', w')
     \<and> nvm_addr_off2gen dev' (nvm_addr_gen2off dev' (NvmAddr 0x0703000500000002)) = NvmAddr 0x0703000500000002"
proof -
  let ?a = "NvmAddr 0x0703000500000002" and ?d = "dev_zero\<lparr>dev_ns := ex_ns\<rparr>"
  have i: "be_idfy (ex_be ex_idfy_s20) (?d\<lparr>dev_be := Some (be_id (ex_be ex_idfy_s20))\<rparr>) NULL []
      = (Inr (0x1000, ex_idfy_s20), [0x1000])"
    by (simp add: ex_be_def andThen_def ex_alloc_def ex_slots_def ok_def)
  have "case fst (nvm_be_populate ex_sys (ex_be ex_idfy_s20) ?d []) of
      Inl e \<Rightarrow> False | Inr dev' \<Rightarrow> nvm_addr_check ?a dev' = Inr 0"
    by code_simp
  then obtain dev' w' where p: "nvm_be_populate ex_sys (ex_be ex_idfy_s20) ?d [] = (Inr dev', w')"
    "nvm_addr_check ?a dev' = Inr 0"
    by (auto split: sum.splits) (metis prod.collapse)
  have "idfy_verid ex_idfy_s20 \<in> {1, 2, 3}" "sane_idfy (dev_ns ?d) ex_idfy_s20"
    by (simp_all add: sane_idfy_def sane_s20_def ex_idfy_s20_def ns_fmt_def ex_ns_def)
  from populate_addressing [OF i p(1) this p(2)] p(1) show ?thesis
    by blast
qed


text \<open>
  Error paths of \<open>nvm_be_populate\<close>: a failed identify command is passed on; an identify
  structure of an unknown revision gives ENOSYS, and a 1.2 device whose number of planes is not 1,
  2 or 4 gives EINVAL, in both cases after the identify buffer has been released.
\<close>

theorem populate_errors:
  fixes be :: "'w nvm_be" and dev :: nvm_dev
  defines "d \<equiv> dev\<lparr>dev_be := Some (be_id be)\<rparr>"
  shows "(\<forall>e w'. be_idfy be d NULL w = (Inl e, w') \<longrightarrow> nvm_be_populate sys be dev w = (Inl e, w'))
    \<and> (\<forall>buf idfy w1 w2. be_idfy be d NULL w = (Inr (buf, idfy), w1) \<longrightarrow> nvm_buf_free sys d buf w1 = (Inr (), w2) \<longrightarrow>
        (idfy_verid idfy \<notin> {1, 2, 3} \<longrightarrow> nvm_be_populate sys be dev w = (Inl (Errno ENOSYS), w2))
        \<and> (idfy_verid idfy = 1 \<longrightarrow> num_pln (s12_grp0 (idfy_s12 idfy)) \<notin> {1, 2, 4} \<longrightarrow>
            csecs (s12_grp0 (idfy_s12 idfy)) \<noteq> 0 \<longrightarrow>
            (\<forall>f \<in> set (ppaf_fields (s12_ppaf (idfy_s12 idfy))). fst f < 64 \<and> snd f < 64) \<longrightarrow>
            nvm_be_populate sys be dev w = (Inl (Errno EINVAL), w2)))"
proof (intro conjI allI impI)
  fix e w' assume "be_idfy be d NULL w = (Inl e, w')"
  then show "nvm_be_populate sys be dev w = (Inl e, w')"
    by (simp add: nvm_be_populate_def Let_def andThen_def d_def)
next
  fix buf idfy w1 w2
  assume i: "be_idfy be d NULL w = (Inr (buf, idfy), w1)" and f: "nvm_buf_free sys d buf w1 = (Inr (), w2)"
  have fail: "nvm_be_populate sys be dev w = (Inl (Errno e), w2)" if "populate_dev d idfy = Inl (Errno e)" for e
    using i f that by (simp add: nvm_be_populate_def Let_def andThen_def on_error_def lift_res_def d_def)
  show "nvm_be_populate sys be dev w = (Inl (Errno ENOSYS), w2)" if "idfy_verid idfy \<notin> {1, 2, 3}"
    using that by (intro fail) (simp add: populate_dev_def Let_def)
  show "nvm_be_populate sys be dev w = (Inl (Errno EINVAL), w2)"
    if v: "idfy_verid idfy = 1" "num_pln (s12_grp0 (idfy_s12 idfy)) \<notin> {1, 2, 4}" "csecs (s12_grp0 (idfy_s12 idfy)) \<noteq> 0"
      "\<forall>f \<in> set (ppaf_fields (s12_ppaf (idfy_s12 idfy))). fst f < 64 \<and> snd f < 64"
  proof (rule fail)
    let ?n = "num_pln (s12_grp0 (idfy_s12 idfy))"
    have u: "unat (ucast ?n :: u64) = unat ?n" "unat (ucast (csecs (s12_grp0 (idfy_s12 idfy))) :: u64) = unat (csecs (s12_grp0 (idfy_s12 idfy)))"
      by (simp_all add: unat_ucast_up)
    have "(ucast ?n :: u64) \<noteq> 4" "(ucast ?n :: u64) \<noteq> 2" "(ucast ?n :: u64) \<noteq> 1"
      "(ucast (csecs (s12_grp0 (idfy_s12 idfy))) :: u64) \<noteq> 0"
      using v(2,3) u by (auto simp: word_unat_eq_iff [where 'a = 8] word_unat_eq_iff [where 'a = 16])
    then show "populate_dev d idfy = Inl (Errno EINVAL)"
      using v(1,4) by (simp add: populate_dev_def populate_s12_def construct_ppaf_mask_def off_len_pairs_ppaf
          shift_masks_eq ppaf_fields_def Let_def nvm_be_populate_derived_def default_pmode_def)
  qed
qed

theorem populate_errors_witness:
  "nvm_be_populate ex_sys (ex_be (ex_idfy_s20\<lparr>idfy_verid := 7\<rparr>)) dev_zero [0x2000] = (Inl (Errno ENOSYS), [0x2000])"
proof -
  let ?be = "ex_be (ex_idfy_s20\<lparr>idfy_verid := 7\<rparr>)" and ?d = "dev_zero\<lparr>dev_be := Some 4\<rparr>"
  have "be_idfy ?be ?d NULL [0x2000] = (Inr (0x1000, ex_idfy_s20\<lparr>idfy_verid := 7\<rparr>), [0x1000, 0x2000])"
    by (simp add: ex_be_def andThen_def ex_alloc_def ex_slots_def ok_def)
  moreover have "nvm_buf_free ex_sys ?d 0x1000 [0x1000, 0x2000] = (Inr (), [0x2000])"
    by (simp add: nvm_buf_free_def upd_def ex_sys_def)
  moreover have "be_id ?be = 4"
    by (simp add: ex_be_def nvm_be_disabled_def)
  ultimately show ?thesis
    using populate_errors [of ?be dev_zero "[0x2000]" ex_sys] by (auto simp: ex_idfy_s20_def)
qed


text \<open>
  C29. The options of a device stay inside their bounds: from a freshly allocated device that
  \<open>nvm_be_populate\<close> initialised, with planes and sectors per page that divide 64 (any 2.0 device),
  every sequence of successful setter calls keeps the limits on addresses per command between 1 and
  64, the plane mode supported by the number of planes, and the other options at known values.
\<close>

theorem options_reachable:
  assumes "populate_dev dev idfy = Inr dev0" "dev_pmode dev = 0" "dev_bbts_cached dev = 0"
    and "naddrs_64_ok dev0" "dev_step\<^sup>*\<^sup>* dev0 dev'"
  shows "dev_erase_naddrs_max dev' \<in> {1..64} \<and> dev_read_naddrs_max dev' \<in> {1..64}
    \<and> dev_write_naddrs_max dev' \<in> {1..64} \<and> dev_meta_mode dev' \<in> {0, 1, 2} \<and> dev_bbts_cached dev' \<in> {0, 1}
    \<and> (dev_pmode dev' = 0 \<or> dev_pmode dev' = 1 \<and> 2 \<le> nplanes (dev_geo dev0)
       \<or> dev_pmode dev' = 2 \<and> 4 \<le> nplanes (dev_geo dev0))"
proof -
  have "vopts_ok dev'"
    using populate_options [OF assms(1-4)] dev_steps_vopts [OF assms(5)] by blast
  then show ?thesis
    using dev_steps_keep [OF assms(5)] by (auto simp: vopts_ok_def pmode_ok_def)
qed

lemma ex_populate_s20:
  obtains dev0 where "populate_dev (dev_zero\<lparr>dev_ns := ex_ns\<rparr>) ex_idfy_s20 = Inr dev0"
    "dev_verid dev0 = 2" "dev_pmode dev0 = 0" "nplanes (dev_geo dev0) = 0"
proof -
  have "case populate_dev (dev_zero\<lparr>dev_ns := ex_ns\<rparr>) ex_idfy_s20 of Inl e \<Rightarrow> False
      | Inr dev0 \<Rightarrow> dev_verid dev0 = 2 \<and> dev_pmode dev0 = 0 \<and> nplanes (dev_geo dev0) = 0"
    by code_simp
  then show thesis using that by (auto split: sum.splits)
qed

theorem options_reachable_witness:
  "\<exists>dev0 dev'. populate_dev (dev_zero\<lparr>dev_ns := ex_ns\<rparr>) ex_idfy_s20 = Inr dev0
     \<and> nvm_dev_set_write_naddrs_max dev0 24 = Inr dev' \<and> dev_write_naddrs_max dev' = 24 \<and> dev_pmode dev' = 0"
proof -
  obtain dev0 where d: "populate_dev (dev_zero\<lparr>dev_ns := ex_ns\<rparr>) ex_idfy_s20 = Inr dev0"
    "dev_verid dev0 = 2" "dev_pmode dev0 = 0" "nplanes (dev_geo dev0) = 0"
    by (rule ex_populate_s20)
  let ?d = "dev0\<lparr>dev_write_naddrs_max := 24\<rparr>"
  have s: "nvm_dev_set_write_naddrs_max dev0 24 = Inr ?d"
    using d by (simp add: nvm_dev_set_write_naddrs_max_def Let_def)
  then have "dev_step\<^sup>*\<^sup>* dev0 ?d"
    by (blast intro: dev_step.writes)
  with options_reachable [OF d(1), of ?d] d have "dev_pmode ?d = 0"
    by (simp add: naddrs_64_ok_def dev_zero_def)
  with d(1) s show ?thesis by auto
qed

text \<open>
  \<open>_ilog2\<close> terminates on every input and is the integer logarithm: for a non-zero value,
  \<open>2 ^ result \<le> x < 2 ^ (result + 1)\<close>; so the sector shift of a device with sectors of \<open>2 ^ n\<close> bytes
  is \<open>n\<close>.
\<close>

theorem ilog2_correct:
  "(x \<noteq> 0 \<longrightarrow> 2 ^ unat (ilog2 x) \<le> unat x \<and> unat x < 2 ^ (unat (ilog2 x) + 1))
   \<and> (n < 64 \<longrightarrow> unat (ilog2 (push_bit n 1)) = n) \<and> ilog2 0 = 0"
proof -
  have "ilog2 0 = 0"
    by (simp add: ilog2_def)
  then show ?thesis
    using ilog2_spec [of x] ilog2_power [of n] by simp
qed

theorem ilog2_correct_witness: "unat (ilog2 (push_bit 12 1)) = 12 \<and> 2 ^ unat (ilog2 5) \<le> (5 :: nat)"
  using ilog2_correct [of 5 12] by simp

lemma factory_loop_single:
  assumes "distinct (map be_id bes)" "be \<in> set bes" "be_id be = b"
    "\<forall>x \<in> set bes. be_id x AND b \<noteq> 0 \<longrightarrow> be_id x = b" "b \<noteq> 0"
  shows "factory_loop b ident flags en bes w = (case be_open be ident flags w of
      (Inr dev, w') \<Rightarrow> (Inr (dev\<lparr>dev_be := Some b\<rparr>), w')
    | (Inl (Errno e), w') \<Rightarrow> (Inl (Errno (if e = EKEEP then en else e)), w') | (Inl (Fault f), w') \<Rightarrow> (Inl (Fault f), w'))"
  using assms
proof (induction bes)
  case (Cons x xs)
  have none: "factory_loop b ident flags en ys w = (Inl (Errno en), w)" if "\<forall>y \<in> set ys. be_id y AND b = 0" for ys w en
    using that assms(5) by (induction ys) (auto simp: fail_def)
  show ?case
  proof (cases "x = be")
    case True
    have "be_id y AND b = 0" if "y \<in> set xs" for y
    proof (rule ccontr)
      assume "be_id y AND b \<noteq> 0"
      then have "be_id y = b" using Cons.prems(4) that by auto
      moreover have "be_id y \<in> be_id ` set xs" using that by blast
      ultimately show False using Cons.prems(1,3) True by simp
    qed
    with True Cons.prems(3,5) show ?thesis
      by (auto simp: none split: prod.splits sum.splits failure.splits)
  next
    case False
    have "be_id be \<in> be_id ` set xs" using Cons.prems(2) False by auto
    then have "be_id x \<noteq> b" using Cons.prems(1,3) by auto
    then have "be_id x AND b = 0" using Cons.prems(4) by force
    with Cons False show ?thesis by auto
  qed
qed simp

lemma factory_loop_sound:
  "factory_loop b ident flags en bes w = (Inr dev, w') \<Longrightarrow>
     \<exists>be \<in> set bes. (b = 0 \<or> be_id be AND b \<noteq> 0) \<and> dev_be dev = Some (be_id be)
       \<and> (\<exists>w1 d. be_open be ident flags w1 = (Inr d, w') \<and> dev = d\<lparr>dev_be := Some (be_id be)\<rparr>)"
proof (induction bes arbitrary: w en)
  case (Cons be bes)
  show ?case
  proof (cases "b \<noteq> 0 \<and> be_id be AND b = 0")
    case True
    with Cons show ?thesis by auto
  next
    case False
    obtain r w1 where o: "be_open be ident flags w = (r, w1)" by fastforce
    then consider d where "r = Inr d" "dev = d\<lparr>dev_be := Some (be_id be)\<rparr>" "w1 = w'"
      | e en' where "r = Inl (Errno e)" "factory_loop b ident flags en' bes w1 = (Inr dev, w')"
      using Cons.prems False by (auto split: sum.splits failure.splits)
    then show ?thesis
    proof cases
      case 1
      with o False show ?thesis by (intro bexI [of _ be]) auto
    next
      case 2
      with Cons.IH show ?thesis by auto
    qed
  qed
qed (simp add: fail_def)

text \<open>
  Choice of a backend: with a single backend selected in the flags, \<open>nvm_be_factory\<close> opens
  exactly that entry of the table and nothing else, with its error; whatever is selected, a device it returns was
  opened by an entry of the table that matches the selection and is tied to it.
\<close>

theorem factory_choice:
  fixes imps :: "'w nvm_be list"
  assumes ids: "map be_id imps = [NVM_BE_IOCTL, NVM_BE_LBD, NVM_BE_SPDK, NVM_BE_NOCD]"
  shows "(be \<in> set imps \<longrightarrow> flags AND NVM_BE_ALL = be_id be \<longrightarrow>
      nvm_be_factory sys imps ident flags w = (case be_open be ident flags w of
        (Inr dev, w') \<Rightarrow> (Inr (dev\<lparr>dev_be := Some (be_id be)\<rparr>), w')
      | (Inl (Errno e), w') \<Rightarrow> (Inl (Errno e), w') | (Inl (Fault f), w') \<Rightarrow> (Inl (Fault f), w')))
    \<and> (\<forall>dev w'. nvm_be_factory sys imps ident flags w = (Inr dev, w') \<longrightarrow>
        (\<exists>be \<in> set imps. dev_be dev = Some (be_id be)
          \<and> (flags AND NVM_BE_ALL \<noteq> 0 \<longrightarrow> be_id be AND flags AND NVM_BE_ALL \<noteq> 0)
          \<and> (\<exists>w1 d. be_open be ident flags w1 = (Inr d, w') \<and> dev = d\<lparr>dev_be := Some (be_id be)\<rparr>)))"
proof (intro conjI impI allI)
  assume be: "be \<in> set imps" "flags AND NVM_BE_ALL = be_id be"
  have id: "be_id x \<in> {1, 2, 4, 8}" if "x \<in> set imps" for x
    using ids that by (metis (no_types, lifting) image_eqI insert_iff list.set(2) list.set(1) list.set_map)
  have "factory_loop (be_id be) ident flags EKEEP imps w = (case be_open be ident flags w of
        (Inr dev, w') \<Rightarrow> (Inr (dev\<lparr>dev_be := Some (be_id be)\<rparr>), w')
      | (Inl (Errno e), w') \<Rightarrow> (Inl (Errno (if e = EKEEP then EKEEP else e)), w') | (Inl (Fault f), w') \<Rightarrow> (Inl (Fault f), w'))"
  proof (rule factory_loop_single)
    show "\<forall>x \<in> set imps. be_id x AND be_id be \<noteq> 0 \<longrightarrow> be_id x = be_id be"
      using id id [OF be(1)] by fastforce
  qed (use ids be id [OF be(1)] in auto)
  moreover have "be_id be \<noteq> 0" using id [OF be(1)] by auto
  ultimately show "nvm_be_factory sys imps ident flags w = (case be_open be ident flags w of
        (Inr dev, w') \<Rightarrow> (Inr (dev\<lparr>dev_be := Some (be_id be)\<rparr>), w')
      | (Inl (Errno e), w') \<Rightarrow> (Inl (Errno e), w') | (Inl (Fault f), w') \<Rightarrow> (Inl (Fault f), w'))"
    using be(2) id [OF be(1)] by (auto simp: nvm_be_factory_def Let_def split: option.split prod.split sum.split failure.split)
next
  fix dev w' assume "nvm_be_factory sys imps ident flags w = (Inr dev, w')"
  then obtain b where "factory_loop b ident flags EKEEP imps w = (Inr dev, w')"
    "flags AND NVM_BE_ALL \<noteq> 0 \<longrightarrow> b = flags AND NVM_BE_ALL"
    by (auto simp: nvm_be_factory_def Let_def fail_def split: option.splits if_splits)
  from this(2) factory_loop_sound [OF this(1)]
  show "\<exists>be \<in> set imps. dev_be dev = Some (be_id be)
      \<and> (flags AND NVM_BE_ALL \<noteq> 0 \<longrightarrow> be_id be AND flags AND NVM_BE_ALL \<noteq> 0)
      \<and> (\<exists>w1 d. be_open be ident flags w1 = (Inr d, w') \<and> dev = d\<lparr>dev_be := Some (be_id be)\<rparr>)"
    by (metis and.assoc)
qed


definition ex_imps :: "ptr list nvm_be list" where
  "ex_imps = [nvm_be_disabled NVM_BE_IOCTL ''NVM_BE_IOCTL'', nvm_be_disabled NVM_BE_LBD ''NVM_BE_LBD'',
     ex_be ex_idfy_s20, nvm_be_disabled NVM_BE_NOCD ''NVM_BE_NOCD'']"

lemma ex_imps_ids: "map be_id ex_imps = [1, 2, 4, 8]"
  by (simp add: ex_imps_def nvm_be_disabled_def ex_be_def)

theorem factory_choice_witness:
  "nvm_be_factory ex_sys ex_imps ''pci'' 0x14 [] = (Inr ex_dev_s20, [])"
proof -
  have "ex_be ex_idfy_s20 \<in> set ex_imps" "be_id (ex_be ex_idfy_s20) = 4"
    by (simp_all add: ex_imps_def ex_be_def nvm_be_disabled_def)
  moreover have "be_open (ex_be ex_idfy_s20) ''pci'' 0x14 [] = (Inr ex_dev_s20, [])"
    "ex_dev_s20\<lparr>dev_be := Some 4\<rparr> = ex_dev_s20"
    by (simp_all add: ex_be_def ok_def ex_dev_s20_def dev_zero_def)
  ultimately show ?thesis
    using factory_choice [OF ex_imps_ids, of "ex_be ex_idfy_s20" "0x14" ex_sys "''pci''" "[]"] by auto
qed

lemma openf_cmd_opts_groups:
  "openf_cmd_opts flags AND NVM_CMD_MASK_IOMD = (if flags AND NVM_CMD_MASK_IOMD \<noteq> 0 then flags AND NVM_CMD_MASK_IOMD else NVM_CMD_SYNC)"
  "openf_cmd_opts flags AND NVM_CMD_MASK_ADDR = (if flags AND NVM_CMD_MASK_ADDR \<noteq> 0 then flags AND NVM_CMD_MASK_ADDR else NVM_CMD_VECTOR)"
  "openf_cmd_opts flags AND NVM_CMD_MASK_PLOD = (if flags AND NVM_CMD_MASK_PLOD \<noteq> 0 then flags AND NVM_CMD_MASK_PLOD else NVM_CMD_PRP)"
  by (auto simp: openf_cmd_opts_def Let_def and.assoc bit.conj_disj_distrib2)

text \<open>
  A device that \<open>nvm_dev_openf\<close> returns has one option in each group: the groups for I/O mode,
  addressing and payload are those of the flags where the flags say something and the defaults
  (synchronous, vector, PRP) where they do not; it is tied to a backend, and its table of bad-block
  tables has one empty entry for every LUN.
\<close>

theorem openf_device:
  assumes "nvm_dev_openf sys imps path flags w = (Inr dev, w')"
  shows "(dev_cmd_opts dev AND NVM_CMD_MASK_IOMD = (if flags AND NVM_CMD_MASK_IOMD \<noteq> 0 then flags AND NVM_CMD_MASK_IOMD else NVM_CMD_SYNC))
    \<and> (dev_cmd_opts dev AND NVM_CMD_MASK_ADDR = (if flags AND NVM_CMD_MASK_ADDR \<noteq> 0 then flags AND NVM_CMD_MASK_ADDR else NVM_CMD_VECTOR))
    \<and> (dev_cmd_opts dev AND NVM_CMD_MASK_PLOD = (if flags AND NVM_CMD_MASK_PLOD \<noteq> 0 then flags AND NVM_CMD_MASK_PLOD else NVM_CMD_PRP))
    \<and> dev_bbts dev = replicate (unat (nchannels (dev_geo dev) * nluns (dev_geo dev))) None
    \<and> dev_nbbts dev = nchannels (dev_geo dev) * nluns (dev_geo dev) \<and> dev_bbts_cached dev = 0
    \<and> (\<exists>be \<in> set imps. dev_be dev = Some (be_id be))"
proof -
  obtain d w1 p where f: "nvm_be_factory sys imps path flags w = (Inr d, w1)"
    and dev: "dev = d\<lparr>dev_bbts_cached := 0, dev_nbbts := nchannels (dev_geo d) * nluns (dev_geo d),
       dev_bbts := replicate (unat (nchannels (dev_geo d) * nluns (dev_geo d))) None,
       dev_cmd_opts := openf_cmd_opts flags\<rparr>"
    using assms by (auto simp: nvm_dev_openf_def Let_def split: prod.splits sum.splits failure.splits)
  have "\<exists>be \<in> set imps. dev_be d = Some (be_id be)"
    using f factory_loop_sound
    by (fastforce simp: nvm_be_factory_def Let_def fail_def split: option.splits if_splits)
  then show ?thesis
    by (simp add: dev openf_cmd_opts_groups)
qed

theorem openf_device_witness:
  "\<exists>dev w'. nvm_dev_openf ex_sys ex_imps ''pci'' 0x44 [] = (Inr dev, w')
     \<and> dev_cmd_opts dev AND NVM_CMD_MASK_ADDR = NVM_CMD_SCALAR \<and> dev_cmd_opts dev AND NVM_CMD_MASK_IOMD = NVM_CMD_SYNC
     \<and> length (dev_bbts dev) = 32"
proof -
  have "case fst (nvm_dev_openf ex_sys ex_imps ''pci'' 0x44 []) of Inl e \<Rightarrow> False
      | Inr dev \<Rightarrow> nchannels (dev_geo dev) = 8 \<and> nluns (dev_geo dev) = 4"
    by code_simp
  then obtain dev w' where d: "nvm_dev_openf ex_sys ex_imps ''pci'' 0x44 [] = (Inr dev, w')"
    "nchannels (dev_geo dev) = 8" "nluns (dev_geo dev) = 4"
    by (auto split: sum.splits) (metis prod.collapse)
  with openf_device [OF d(1)] show ?thesis
    by auto
qed

end
