(* ===== verification/Nvm_Sgl.thy ===== *)
theory Nvm_Sgl
  imports Nvm_Buf
begin

text \<open>
  Scatter-gather lists and their pool, \<open>src/nvm_sgl.c\<close> and \<open>include/nvm_sgl.h\<close>. \<open>sgl_descrs\<close> is
  the content of the array that \<open>descriptors\<close> points to, one entry for each of the \<open>nalloc\<close>
  allocated ones, and \<open>sgl_indirect_descr\<close> what \<open>indirect\<close> points to; the argument \<open>junk\<close> is what uninitialised entries hold. \<open>sgl_abs\<close> is the list of
  transfers that a list stands for: adding refines appending to it.
\<close>

abbreviation (input) sizeof_descr :: u64 where "sizeof_descr \<equiv> 16"
abbreviation (input) sizeof_sgl :: u64 where "sizeof_sgl \<equiv> 40"
abbreviation (input) sizeof_sgl_pool :: u64 where "sizeof_sgl_pool \<equiv> 16"

abbreviation (input) NVM_NVME_SGL_DESCR_TYPE_DATA_BLOCK :: u64 where "NVM_NVME_SGL_DESCR_TYPE_DATA_BLOCK \<equiv> 0"
abbreviation (input) NVM_NVME_SGL_DESCR_TYPE_LAST_SEGMENT :: u64 where "NVM_NVME_SGL_DESCR_TYPE_LAST_SEGMENT \<equiv> 3"

text \<open>The views \<open>unkeyed.len\<close> and \<open>unkeyed.type\<close>.\<close>

definition descr_len :: "nvm_nvme_sgl_descriptor \<Rightarrow> u64" where
  "descr_len d = bf_get 0 32 (sgld_word d)"

definition descr_type :: "nvm_nvme_sgl_descriptor \<Rightarrow> u64" where
  "descr_type d = bf_get 60 4 (sgld_word d)"

definition set_descr_len :: "u64 \<Rightarrow> nvm_nvme_sgl_descriptor \<Rightarrow> nvm_nvme_sgl_descriptor" where
  "set_descr_len x d = d\<lparr>sgld_word := bf_set 0 32 x (sgld_word d)\<rparr>"

definition set_descr_type :: "u64 \<Rightarrow> nvm_nvme_sgl_descriptor \<Rightarrow> nvm_nvme_sgl_descriptor" where
  "set_descr_type x d = d\<lparr>sgld_word := bf_set 60 4 x (sgld_word d)\<rparr>"

section \<open>State\<close>

record nvm_sgl =
  sgl_self :: ptr
  sgl_indirect :: ptr
  sgl_indirect_descr :: nvm_nvme_sgl_descriptor
  sgl_descriptors :: ptr
  sgl_descrs :: "nvm_nvme_sgl_descriptor list"
  sgl_ndescr :: int
  sgl_nalloc :: int
  sgl_len :: u64

record nvm_sgl_pool =
  pool_self :: ptr
  pool_dev :: nvm_dev
  pool_free_list :: "nvm_sgl list"

section \<open>Operations\<close>

definition nvm_sgl_pool_create :: "'w sys \<Rightarrow> nvm_dev \<Rightarrow> ('w, nvm_sgl_pool) op" where
  "nvm_sgl_pool_create sys dev =
     andThen (sys_calloc sys 1 sizeof_sgl_pool) (\<lambda>p.
     ok \<lparr>pool_self = p, pool_dev = dev, pool_free_list = []\<rparr>)"

definition nvm_sgl_destroy :: "'w sys \<Rightarrow> nvm_dev \<Rightarrow> nvm_sgl \<Rightarrow> ('w, unit) op" where
  "nvm_sgl_destroy sys dev sgl =
     andThen (nvm_buf_free sys dev (sgl_descriptors sgl)) (\<lambda>_.
     andThen (nvm_buf_free sys dev (sgl_indirect sgl)) (\<lambda>_.
     upd (sys_free sys (sgl_self sgl))))"

definition nvm_sgl_pool_destroy :: "'w sys \<Rightarrow> nvm_sgl_pool \<Rightarrow> ('w, unit) op" where
  "nvm_sgl_pool_destroy sys pool =
     andThen (each_op (nvm_sgl_destroy sys (pool_dev pool)) (pool_free_list pool)) (\<lambda>_.
     upd (sys_free sys (pool_self pool)))"

text \<open>A failed allocation of the indirect descriptor is not checked: the pointer is \<open>NULL\<close>.\<close>

definition sgl_create_indirect :: "'w sys \<Rightarrow> nvm_dev \<Rightarrow> nvm_sgl \<Rightarrow> ('w, nvm_sgl) op" where
  "sgl_create_indirect sys dev sgl w =
     (case nvm_buf_alloc sys dev sizeof_descr 0 w of
        (Inr (q, _), w') \<Rightarrow> (Inr (sgl\<lparr>sgl_indirect := q\<rparr>), w')
      | (Inl (Errno e), w') \<Rightarrow> (Inr (sgl\<lparr>sgl_indirect := NULL\<rparr>), w')
      | (Inl (Fault f), w') \<Rightarrow> (Inl (Fault f), w'))"

definition nvm_sgl_create ::
  "'w sys \<Rightarrow> (nat \<Rightarrow> nvm_nvme_sgl_descriptor) \<Rightarrow> nvm_dev \<Rightarrow> int \<Rightarrow> ('w, nvm_sgl) op" where
  "nvm_sgl_create sys junk dev hint =
     andThen (sys_calloc sys 1 sizeof_sgl) (\<lambda>p.
     let sgl = \<lparr>sgl_self = p, sgl_indirect = NULL,
       sgl_indirect_descr = junk 0, sgl_descriptors = NULL, sgl_descrs = [],
       sgl_ndescr = 0, sgl_nalloc = 0, sgl_len = 0\<rparr> in
     andThen (if hint \<noteq> 0 then
         andThen (on_error (nvm_buf_alloc sys dev (word_of_int hint * sizeof_descr) 0) (upd (sys_free sys p))) (\<lambda>(q, _).
         ok (sgl\<lparr>sgl_descriptors := q, sgl_descrs := map junk [0..<nat hint]\<rparr>))
       else ok sgl) (\<lambda>sgl.
     sgl_create_indirect sys dev (sgl\<lparr>sgl_nalloc := hint\<rparr>)))"

definition nvm_sgl_alloc ::
  "'w sys \<Rightarrow> (nat \<Rightarrow> nvm_nvme_sgl_descriptor) \<Rightarrow> nvm_sgl_pool \<Rightarrow> ('w, nvm_sgl \<times> nvm_sgl_pool) op" where
  "nvm_sgl_alloc sys junk pool =
     (case pool_free_list pool of
        sgl # rest \<Rightarrow> ok (sgl, pool\<lparr>pool_free_list := rest\<rparr>)
      | [] \<Rightarrow> andThen (nvm_sgl_create sys junk (pool_dev pool) 1) (\<lambda>sgl. ok (sgl, pool)))"

definition nvm_sgl_reset :: "nvm_sgl \<Rightarrow> nvm_sgl" where
  "nvm_sgl_reset sgl = sgl\<lparr>sgl_ndescr := 0, sgl_len := 0\<rparr>"

definition nvm_sgl_free :: "nvm_sgl_pool \<Rightarrow> nvm_sgl \<Rightarrow> nvm_sgl_pool" where
  "nvm_sgl_free pool sgl =
     pool\<lparr>pool_free_list := sgl\<lparr>sgl_ndescr := 0, sgl_len := 0\<rparr> # pool_free_list pool\<rparr>"

text \<open>
  \<open>nvm_sgl_add\<close>, in the two steps of the code. The list is updated also when the call fails: when
  the array cannot grow, \<open>descriptors\<close> has become \<open>NULL\<close> and \<open>nalloc\<close> has doubled.
\<close>

definition sgl_grow ::
  "'w sys \<Rightarrow> (nat \<Rightarrow> nvm_nvme_sgl_descriptor) \<Rightarrow> nvm_dev \<Rightarrow> nvm_sgl \<Rightarrow> 'w \<Rightarrow> (unit res \<times> nvm_sgl) \<times> 'w" where
  "sgl_grow sys junk dev sgl w =
     (if sgl_ndescr sgl = sgl_nalloc sgl then
        let nalloc = (if sgl_nalloc sgl \<noteq> 0 then 2 * sgl_nalloc sgl else 1);
          sgl = sgl\<lparr>sgl_nalloc := nalloc\<rparr>;
          nbytes = word_of_int nalloc * sizeof_descr
        in case nvm_buf_realloc sys dev (sgl_descriptors sgl) nbytes 0 w of
             (Inr (p, _), w') \<Rightarrow> ((Inr (), sgl\<lparr>sgl_descriptors := p,
                sgl_descrs := sgl_descrs sgl @ map junk [length (sgl_descrs sgl)..<nat nalloc]\<rparr>), w')
           | (Inl e, w') \<Rightarrow> ((Inl e, sgl\<lparr>sgl_descriptors := NULL, sgl_descrs := []\<rparr>), w')
      else ((Inr (), sgl), w))"

definition sgl_put ::
  "'w sys \<Rightarrow> nvm_dev \<Rightarrow> nvm_sgl \<Rightarrow> ptr \<Rightarrow> u64 \<Rightarrow> 'w \<Rightarrow> (unit res \<times> nvm_sgl) \<times> 'w" where
  "sgl_put sys dev sgl addr len w =
     (if sgl_descriptors sgl = NULL then ((Inl (Fault NullDeref), sgl), w)
      else if sgl_ndescr sgl < 0 \<or> int (length (sgl_descrs sgl)) \<le> sgl_ndescr sgl
      then ((Inl (Fault OutOfBounds), sgl), w)
      else let i = nat (sgl_ndescr sgl);
          d = set_descr_len len (set_descr_type NVM_NVME_SGL_DESCR_TYPE_DATA_BLOCK (sgl_descrs sgl ! i));
          sgl = sgl\<lparr>sgl_descrs := (sgl_descrs sgl)[i := d]\<rparr>
        in case nvm_buf_vtophys sys dev addr w of
             (Inl e, w') \<Rightarrow> ((Inl e, sgl), w')
           | (Inr phys, w') \<Rightarrow> ((Inr (), sgl\<lparr>sgl_descrs := (sgl_descrs sgl)[i := d\<lparr>sgld_addr := phys\<rparr>],
               sgl_len := sgl_len sgl + len, sgl_ndescr := sgl_ndescr sgl + 1\<rparr>), w'))"

definition nvm_sgl_add ::
  "'w sys \<Rightarrow> (nat \<Rightarrow> nvm_nvme_sgl_descriptor) \<Rightarrow> nvm_dev \<Rightarrow> nvm_sgl \<Rightarrow> ptr \<Rightarrow> u64 \<Rightarrow> 'w
     \<Rightarrow> (unit res \<times> nvm_sgl) \<times> 'w" where
  "nvm_sgl_add sys junk dev sgl addr len w =
     (if sgl_ndescr sgl = 256 then ((Inl (Errno EINVAL), sgl), w)
      else case sgl_grow sys junk dev sgl w of
          ((Inl e, sgl), w') \<Rightarrow> ((Inl e, sgl), w')
        | ((Inr _, sgl), w') \<Rightarrow> sgl_put sys dev sgl addr len w')"

section \<open>Invariant and abstraction\<close>

definition sgl_wf :: "nvm_sgl \<Rightarrow> bool" where
  "sgl_wf sgl \<longleftrightarrow> 0 \<le> sgl_ndescr sgl \<and> sgl_ndescr sgl \<le> sgl_nalloc sgl \<and> sgl_ndescr sgl \<le> 256
     \<and> int (length (sgl_descrs sgl)) = sgl_nalloc sgl \<and> (0 < sgl_nalloc sgl \<longrightarrow> sgl_descriptors sgl \<noteq> NULL)
     \<and> (\<forall>d \<in> set (take (nat (sgl_ndescr sgl)) (sgl_descrs sgl)). descr_type d = NVM_NVME_SGL_DESCR_TYPE_DATA_BLOCK)"

text \<open>The transfers a list stands for: physical address and length.\<close>

definition sgl_abs :: "nvm_sgl \<Rightarrow> (u64 \<times> u64) list" where
  "sgl_abs sgl = map (\<lambda>d. (sgld_addr d, descr_len d)) (take (nat (sgl_ndescr sgl)) (sgl_descrs sgl))"

lemma descr_set_get [bitfield_simps]:
  "descr_len (set_descr_len x d) = take_bit 32 x" "descr_type (set_descr_len x d) = descr_type d"
  "descr_type (set_descr_type x d) = take_bit 4 x" "descr_len (set_descr_type x d) = descr_len d"
  by (simp_all add: descr_len_def descr_type_def set_descr_len_def set_descr_type_def bf_get_set_same bf_get_set_other)

lemma descr_addr_get [simp]:
  "descr_len (d\<lparr>sgld_addr := a\<rparr>) = descr_len d" "descr_type (d\<lparr>sgld_addr := a\<rparr>) = descr_type d"
  "sgld_addr (set_descr_len x d) = sgld_addr d" "sgld_addr (set_descr_type x d) = sgld_addr d"
  by (simp_all add: descr_len_def descr_type_def set_descr_len_def set_descr_type_def)

definition realloc_ok :: "'w sys \<Rightarrow> bool" where
  "realloc_ok sys \<longleftrightarrow> (\<forall>p n al w q ph w'. sys_spdk_dma_realloc sys p n al w = (Inr (q, ph), w') \<longrightarrow> q \<noteq> 0)"

lemma realloc_nonnull:
  assumes "nvm_buf_realloc sys dev buf n ph0 w = (Inr (p, ph), w')" "realloc_ok sys" shows "p \<noteq> 0"
proof -
  have "sys_spdk_dma_realloc sys buf n (buf_alignment dev) w = (Inr (p, ph), w')"
    using assms(1) by (auto simp: nvm_buf_realloc_def nvm_buf_virt_realloc_def fail_def Let_def
        split: if_splits option.splits)
  with assms(2) show ?thesis unfolding realloc_ok_def by blast
qed

lemma sgl_grow_wf:
  assumes "sgl_wf sgl" "realloc_ok sys" "sgl_grow sys junk dev sgl w = ((Inr (), sgl'), w')"
  shows "sgl_wf sgl' \<and> sgl_abs sgl' = sgl_abs sgl \<and> sgl_ndescr sgl' = sgl_ndescr sgl \<and> sgl_len sgl' = sgl_len sgl
    \<and> sgl_ndescr sgl' < sgl_nalloc sgl'"
proof (cases "sgl_ndescr sgl = sgl_nalloc sgl")
  case True
  let ?n = "if sgl_nalloc sgl \<noteq> 0 then 2 * sgl_nalloc sgl else 1"
  obtain p ph where p: "nvm_buf_realloc sys dev (sgl_descriptors sgl) (word_of_int ?n * 16) 0 w = (Inr (p, ph), w')"
    and s: "sgl' = sgl\<lparr>sgl_nalloc := ?n, sgl_descriptors := p,
      sgl_descrs := sgl_descrs sgl @ map junk [length (sgl_descrs sgl)..<nat ?n]\<rparr>"
    using assms(3) True by (auto simp: sgl_grow_def Let_def split: prod.splits sum.splits)
  have "p \<noteq> 0"
    using realloc_nonnull [OF p assms(2)] .
  then show ?thesis
    using assms(1) True by (auto simp: s sgl_wf_def sgl_abs_def)
next
  case False
  then show ?thesis using assms by (auto simp: sgl_grow_def sgl_wf_def)
qed

lemma sgl_put_ok:
  assumes "sgl_wf sgl" "sgl_ndescr sgl < sgl_nalloc sgl" "sgl_ndescr sgl \<noteq> 256"
    "sgl_put sys dev sgl addr len w = ((r, sgl'), w')"
  shows "sgl_wf sgl' \<and> (case r of
      Inr _ \<Rightarrow> (\<exists>phys. nvm_buf_vtophys sys dev addr w = (Inr phys, w')
          \<and> sgl_abs sgl' = sgl_abs sgl @ [(phys, take_bit 32 len)] \<and> sgl_len sgl' = sgl_len sgl + len)
    | Inl e \<Rightarrow> nvm_buf_vtophys sys dev addr w = (Inl e, w') \<and> sgl_abs sgl' = sgl_abs sgl \<and> sgl_len sgl' = sgl_len sgl)"
proof -
  let ?i = "nat (sgl_ndescr sgl)"
  let ?d = "set_descr_len len (set_descr_type 0 (sgl_descrs sgl ! ?i))"
  have i: "?i < length (sgl_descrs sgl)" "0 \<le> sgl_ndescr sgl" "sgl_descriptors sgl \<noteq> 0" "sgl_ndescr sgl < 256"
    "\<not> int (length (sgl_descrs sgl)) \<le> sgl_ndescr sgl"
    using assms(1-3) by (auto simp: sgl_wf_def)
  have ty: "descr_type ?d = 0" "descr_len ?d = take_bit 32 len"
    by (simp_all add: bitfield_simps)
  have tk: "take (Suc ?i) ((sgl_descrs sgl)[?i := x]) = take ?i (sgl_descrs sgl) @ [x]" for x
    using i by (simp add: take_Suc_conv_app_nth)
  have nd: "nat (sgl_ndescr sgl + 1) = Suc ?i"
    using i by simp
  show ?thesis
  proof (cases "nvm_buf_vtophys sys dev addr w")
    case (Pair v w1)
    show ?thesis
    proof (cases v)
      case (Inl e)
      then have "r = Inl e" "sgl' = sgl\<lparr>sgl_descrs := (sgl_descrs sgl)[?i := ?d]\<rparr>" "w' = w1"
        using assms(4) Pair i by (auto simp: sgl_put_def Let_def)
      then show ?thesis
        using assms(1) Pair Inl by (simp add: sgl_wf_def sgl_abs_def)
    next
      case (Inr phys)
      then have "r = Inr ()" "w' = w1" "sgl' = sgl\<lparr>sgl_descrs := (sgl_descrs sgl)[?i := ?d\<lparr>sgld_addr := phys\<rparr>],
          sgl_len := sgl_len sgl + len, sgl_ndescr := sgl_ndescr sgl + 1\<rparr>"
        using assms(4) Pair i by (auto simp: sgl_put_def Let_def)
      then show ?thesis
        using assms(1,2) Pair Inr i ty by (auto simp: sgl_wf_def sgl_abs_def nd tk)
    qed
  qed
qed

lemma sgl_add_cases:
  assumes wf: "sgl_wf sgl" and re: "realloc_ok sys"
    and add: "nvm_sgl_add sys junk dev sgl addr len w = ((r, sgl'), w')"
  shows "case r of
      Inr _ \<Rightarrow> sgl_wf sgl' \<and> sgl_len sgl' = sgl_len sgl + len
        \<and> (\<exists>phys w1. nvm_buf_vtophys sys dev addr w1 = (Inr phys, w') \<and> sgl_abs sgl' = sgl_abs sgl @ [(phys, take_bit 32 len)])
    | Inl e \<Rightarrow> sgl_ndescr sgl = 256 \<and> e = Errno EINVAL \<and> sgl' = sgl \<and> w' = w
        \<or> sgl_ndescr sgl \<noteq> 256 \<and> (\<exists>w1. nvm_buf_vtophys sys dev addr w1 = (Inl e, w'))
            \<and> sgl_wf sgl' \<and> sgl_abs sgl' = sgl_abs sgl \<and> sgl_len sgl' = sgl_len sgl
        \<or> sgl_ndescr sgl \<noteq> 256 \<and> sgl_ndescr sgl = sgl_nalloc sgl
            \<and> (let nalloc = (if sgl_nalloc sgl = 0 then 1 else 2 * sgl_nalloc sgl) in
                nvm_buf_realloc sys dev (sgl_descriptors sgl) (word_of_int nalloc * sizeof_descr) 0 w = (Inl e, w')
                \<and> sgl' = sgl\<lparr>sgl_nalloc := nalloc, sgl_descriptors := NULL, sgl_descrs := []\<rparr>)"
proof (cases "sgl_ndescr sgl = 256")
  case True
  then show ?thesis using add by (auto simp: nvm_sgl_add_def)
next
  case False
  obtain g sgl1 w1 where g: "sgl_grow sys junk dev sgl w = ((g, sgl1), w1)" by (metis surj_pair)
  show ?thesis
  proof (cases g)
    case (Inl e)
    then have "r = Inl e" "sgl' = sgl1" "w' = w1" using g add False by (simp_all add: nvm_sgl_add_def)
    with Inl g False show ?thesis by (auto simp: sgl_grow_def Let_def split: if_splits prod.splits sum.splits)
  next
    case (Inr u)
    with g have g': "sgl_grow sys junk dev sgl w = ((Inr (), sgl1), w1)" by simp
    note s1 = sgl_grow_wf [OF wf re g']
    have put: "sgl_put sys dev sgl1 addr len w1 = ((r, sgl'), w')"
      using g' add False by (simp add: nvm_sgl_add_def)
    have "sgl_ndescr sgl1 \<noteq> 256" using s1 False by simp
    with sgl_put_ok [OF _ _ this put] s1 False show ?thesis
      by (cases r) auto
  qed
qed

section \<open>Properties\<close>

text \<open>
  C26. Adding to a scatter-gather list refines appending to a list of transfers. On a well-formed list, a successful
  \<open>nvm_sgl_add\<close> appends one transfer (the physical address of the buffer, the length cut to 32 bits), adds the length to
  the total and keeps the list well-formed. A failed one is one of three: a 257th transfer, refused with EINVAL and
  without a change; a physical address that cannot be resolved, with the transfers and the total as they were, also
  when the array has grown before; or an array that was full and could not be reallocated, after which the list has
  the doubled capacity and no array, so that its transfers are lost.
\<close>

theorem nvm_sgl_add_appends:
  assumes "sgl_wf sgl" "realloc_ok sys"
    and "nvm_sgl_add sys junk dev sgl addr len w = ((r, sgl'), w')"
  shows "(sgl_ndescr sgl = 256 \<longrightarrow> r = Inl (Errno EINVAL)) \<and> (case r of
      Inr _ \<Rightarrow> sgl_wf sgl' \<and> sgl_len sgl' = sgl_len sgl + len
        \<and> (\<exists>phys w1. nvm_buf_vtophys sys dev addr w1 = (Inr phys, w') \<and> sgl_abs sgl' = sgl_abs sgl @ [(phys, take_bit 32 len)])
    | Inl e \<Rightarrow> sgl_ndescr sgl = 256 \<and> e = Errno EINVAL \<and> sgl' = sgl \<and> w' = w
        \<or> sgl_ndescr sgl \<noteq> 256 \<and> (\<exists>w1. nvm_buf_vtophys sys dev addr w1 = (Inl e, w'))
            \<and> sgl_wf sgl' \<and> sgl_abs sgl' = sgl_abs sgl \<and> sgl_len sgl' = sgl_len sgl
        \<or> sgl_ndescr sgl \<noteq> 256 \<and> sgl_ndescr sgl = sgl_nalloc sgl
            \<and> (let nalloc = (if sgl_nalloc sgl = 0 then 1 else 2 * sgl_nalloc sgl) in
                nvm_buf_realloc sys dev (sgl_descriptors sgl) (word_of_int nalloc * sizeof_descr) 0 w = (Inl e, w')
                \<and> sgl' = sgl\<lparr>sgl_nalloc := nalloc, sgl_descriptors := NULL, sgl_descrs := []\<rparr>))"
proof
  show "sgl_ndescr sgl = 256 \<longrightarrow> r = Inl (Errno EINVAL)" using assms(3) by (auto simp: nvm_sgl_add_def)
qed (rule sgl_add_cases [OF assms])

definition ex_sgl :: nvm_sgl where
  "ex_sgl = \<lparr>sgl_self = 0x1000, sgl_indirect = 0x3000,
     sgl_indirect_descr = \<lparr>sgld_addr = 0, sgld_word = 0\<rparr>, sgl_descriptors = 0x2000,
     sgl_descrs = [\<lparr>sgld_addr = 7, sgld_word = 0xF000000000000009\<rparr>], sgl_ndescr = 0, sgl_nalloc = 1, sgl_len = 0\<rparr>"

theorem nvm_sgl_add_appends_witness:
  "case nvm_sgl_add ex_sys (\<lambda>i. \<lparr>sgld_addr = 0, sgld_word = 0\<rparr>) ex_dev_s20 ex_sgl 0x9000 4096 [0x1000, 0x2000, 0x3000] of
     ((r, sgl'), w') \<Rightarrow> r = Inr () \<and> sgl_abs sgl' = [(0x100009000, 4096)] \<and> sgl_len sgl' = 4096"
proof -
  obtain r sgl' w' where a: "nvm_sgl_add ex_sys (\<lambda>i. \<lparr>sgld_addr = 0, sgld_word = 0\<rparr>) ex_dev_s20 ex_sgl 0x9000 4096
      [0x1000, 0x2000, 0x3000] = ((r, sgl'), w')"
    by (metis surj_pair)
  have r: "r = Inr ()"
    using a by (simp add: nvm_sgl_add_def sgl_grow_def sgl_put_def ex_sgl_def nvm_buf_vtophys_def ex_sys_def
        ex_dev_s20_def Let_def ok_def)
  have "realloc_ok ex_sys"
    using allocatesD(1) [OF ex_alloc_allocates]
    by (auto simp: realloc_ok_def ex_sys_def ok_def andThen_Inr split: if_splits)
  moreover have "sgl_wf ex_sgl" "sgl_abs ex_sgl = []" "sgl_len ex_sgl = 0"
    by (simp_all add: sgl_wf_def ex_sgl_def sgl_abs_def)
  ultimately show ?thesis
    using nvm_sgl_add_appends [OF _ _ a] r a
    by (auto simp: nvm_buf_vtophys_def ex_sys_def ex_dev_s20_def Let_def ok_def)
qed

text \<open>
  On the IOCTL and LBD backends, whose buffers cannot be reallocated, an \<open>nvm_sgl_add\<close> to a full
  list fails with ENOSYS and leaves the list with a null array and a doubled capacity, so that the
  next \<open>nvm_sgl_add\<close> writes through the null pointer.
\<close>

theorem nvm_sgl_add_full_virt:
  assumes "dev_be dev = Some NVM_BE_IOCTL \<or> dev_be dev = Some NVM_BE_LBD"
    and "sgl_ndescr sgl = sgl_nalloc sgl" "0 < sgl_nalloc sgl" "sgl_nalloc sgl < 256"
  shows "\<exists>sgl'. nvm_sgl_add sys junk dev sgl addr len w = ((Inl (Errno ENOSYS), sgl'), w)
    \<and> (\<forall>addr' len'. nvm_sgl_add sys junk dev sgl' addr' len' w = ((Inl (Fault NullDeref), sgl'), w))"
proof -
  let ?s = "sgl\<lparr>sgl_nalloc := 2 * sgl_nalloc sgl, sgl_descriptors := NULL, sgl_descrs := []\<rparr>"
  let ?n = "word_of_int (2 * sgl_nalloc sgl) * (16 :: u64)"
  have "?n \<noteq> 0"
  proof -
    obtain m where m: "sgl_nalloc sgl = int m" "0 < m" "m < 256"
      using assms(3,4) by (cases "sgl_nalloc sgl") auto
    then have "?n = of_nat (32 * m)" by simp
    moreover have "unat (of_nat (32 * m) :: u64) = 32 * m"
      using m by (intro unat_u64) simp
    ultimately show ?thesis
      using m(2) by (metis mult_eq_0_iff unat_0 not_less_zero zero_neq_numeral)
  qed
  then have "nvm_buf_realloc sys dev p ?n 0 w = (Inl (Errno ENOSYS), w)" for p
    using assms(1) by (auto simp: nvm_buf_realloc_def nvm_buf_virt_realloc_def fail_def Let_def)
  then have "nvm_sgl_add sys junk dev sgl addr len w = ((Inl (Errno ENOSYS), ?s), w)"
    using assms(2-4) by (simp add: nvm_sgl_add_def sgl_grow_def Let_def)
  moreover have "nvm_sgl_add sys junk dev ?s addr' len' w = ((Inl (Fault NullDeref), ?s), w)" for addr' len'
    using assms(2-4) by (simp add: nvm_sgl_add_def sgl_grow_def sgl_put_def)
  ultimately show ?thesis by blast
qed

theorem nvm_sgl_add_full_virt_witness:
  "\<exists>sgl'. nvm_sgl_add ex_sys (\<lambda>i. \<lparr>sgld_addr = 0, sgld_word = 0\<rparr>) ex_dev_s12 (ex_sgl\<lparr>sgl_ndescr := 1\<rparr>) 0x9000 4096 []
     = ((Inl (Errno ENOSYS), sgl'), [])"
  using nvm_sgl_add_full_virt [of ex_dev_s12 "ex_sgl\<lparr>sgl_ndescr := 1\<rparr>" ex_sys "\<lambda>i. \<lparr>sgld_addr = 0, sgld_word = 0\<rparr>" "0x9000" 4096 "[] :: ptr list"]
  by (auto simp: ex_dev_s12_def ex_sgl_def)

end
