(* ===== verification/Nvm_Cmd.thy ===== *)
theory Nvm_Cmd
  imports Nvm_Be Nvm_Sgl
begin

text \<open>
  Commands, \<open>src/nvm_cmd.c\<close> and \<open>include/nvm_cmd.h\<close>: the submission entry and the DMA lists that a
  backend sends (\<open>nvm_cmd_wrap_setup\<close>), the completion (\<open>nvm_cmd_wrap_cpl\<close>), the dispatch of a
  command to the scalar or vector operation of the backend, and the two helpers that pick chunks
  or blocks in a given state.

  The array behind a DMA pointer is kept beside it (\<open>wrap_addrs\<close>, \<open>wrap_dst\<close>, \<open>wrap_dsmr\<close>);
  \<open>wrap_indirect\<close> is what the code stores in the indirect descriptor of a metadata list. When the
  flags select scatter-gather lists, \<open>data\<close> and \<open>meta\<close> point to the lists \<open>dsgl\<close> and \<open>msgl\<close>.
\<close>

section \<open>The submission entry\<close>

record nvm_cmd_wrap =
  wrap_self :: ptr
  wrap_dev :: nvm_dev
  wrap_ret :: ptr
  wrap_cmd :: nvm_nvme_cmd
  wrap_meta :: ptr
  wrap_meta_len :: u64
  wrap_data :: ptr
  wrap_data_len :: u64
  wrap_dsmr_dma :: ptr
  wrap_dsmr :: "nvm_nvme_dsm_range list"
  wrap_dsmr_len :: u64
  wrap_naddrs :: int
  wrap_addrs_dma :: ptr
  wrap_addrs :: "u64 list"
  wrap_addrs_len :: u64
  wrap_dst_dma :: ptr
  wrap_dst :: "u64 list"
  wrap_indirect :: "nvm_nvme_sgl_descriptor option"
  wrap_completed :: int

definition nvm_cmd_is_scalar :: "u16 \<Rightarrow> bool" where
  "nvm_cmd_is_scalar opcode \<longleftrightarrow>
     opcode = NVM_DOPC_SCALAR_WRITE \<or> opcode = NVM_DOPC_SCALAR_READ \<or> opcode = NVM_DOPC_SCALAR_ERASE"

definition nvm_cmd_wrap_term :: "'w sys \<Rightarrow> nvm_cmd_wrap \<Rightarrow> ('w, unit) op" where
  "nvm_cmd_wrap_term sys wrap =
     andThen (nvm_buf_free sys (wrap_dev wrap) (wrap_dsmr_dma wrap)) (\<lambda>_.
     andThen (nvm_buf_free sys (wrap_dev wrap) (wrap_addrs_dma wrap)) (\<lambda>_.
     andThen (nvm_buf_free sys (wrap_dev wrap) (wrap_dst_dma wrap)) (\<lambda>_.
     upd (sys_free sys (wrap_self wrap)))))"

text \<open>The result is the updated wrapper and, when \<open>ret\<close> is given, what is stored there.\<close>

definition nvm_cmd_wrap_cpl :: "nvm_cmd_wrap \<Rightarrow> nvm_nvme_cpl \<Rightarrow> nvm_cmd_wrap \<times> nvm_ret option" where
  "nvm_cmd_wrap_cpl wrap cpl =
     (let s = cpl_status cpl;
        ret = (if wrap_ret wrap \<noteq> NULL
          then Some \<lparr>ret_result = ucast (cpl_cdw0 cpl),
            ret_status = st_sc s OR push_bit 8 (st_sct s) OR push_bit 13 (st_m s) OR push_bit 14 (st_dnr s)\<rparr>
          else None)
      in (wrap\<lparr>wrap_completed := (if st_sc s \<noteq> 0 \<or> st_sct s \<noteq> 0 then -1 else 1)\<rparr>, ret))"

text \<open>
  A call of \<open>nvm_buf_vtophys\<close> whose result is ignored: the variable keeps the error value of SPDK
  when the translation fails, and stays uninitialised on the other backends.
\<close>

definition vtophys_unchecked :: "'w sys \<Rightarrow> nvm_dev \<Rightarrow> ptr \<Rightarrow> ('w, u64) op" where
  "vtophys_unchecked sys dev buf w =
     (case nvm_buf_vtophys sys dev buf w of
        (Inl (Errno EIO), w') \<Rightarrow> (Inr SPDK_VTOPHYS_ERROR, w')
      | (Inl (Errno e), w') \<Rightarrow> (Inl (Fault Uninit), w')
      | r \<Rightarrow> r)"

definition setup_sgl_data :: "'w sys \<Rightarrow> nvm_cmd_wrap \<Rightarrow> nvm_sgl \<Rightarrow> ('w, nvm_cmd_wrap) op" where
  "setup_sgl_data sys wrap sgl =
     (let wrap = wrap\<lparr>wrap_cmd := (wrap_cmd wrap)\<lparr>cmd_psdt := 1\<rparr>\<rparr> in
      andThen (if sgl_ndescr sgl = 1 then
          (if sgl_descrs sgl = [] then fail (Fault NullDeref)
           else ok (wrap\<lparr>wrap_cmd := (wrap_cmd wrap)\<lparr>cmd_dptr0 := sgld_addr (sgl_descrs sgl ! 0),
             cmd_dptr1 := sgld_word (sgl_descrs sgl ! 0)\<rparr>\<rparr>))
        else andThen (vtophys_unchecked sys (wrap_dev wrap) (sgl_descriptors sgl)) (\<lambda>phys.
          ok (wrap\<lparr>wrap_cmd := (wrap_cmd wrap)\<lparr>cmd_dptr0 := phys,
            cmd_dptr1 := bf_set 0 32 (word_of_int (sgl_ndescr sgl) * sizeof_descr)
              (bf_set 60 4 NVM_NVME_SGL_DESCR_TYPE_LAST_SEGMENT (cmd_dptr1 (wrap_cmd wrap)))\<rparr>\<rparr>))) (\<lambda>wrap.
      ok (wrap\<lparr>wrap_data := NULL, wrap_data_len := 0\<rparr>)))"

definition setup_sgl_meta :: "'w sys \<Rightarrow> nvm_cmd_wrap \<Rightarrow> nvm_sgl \<Rightarrow> ('w, nvm_cmd_wrap) op" where
  "setup_sgl_meta sys wrap sgl =
     (let wrap = wrap\<lparr>wrap_cmd := (wrap_cmd wrap)\<lparr>cmd_psdt := 2\<rparr>\<rparr> in
      andThen (vtophys_unchecked sys (wrap_dev wrap) (sgl_descriptors sgl)) (\<lambda>phys.
      andThen (if sgl_ndescr sgl = 1 then ok (phys, None)
        else if sgl_indirect sgl = NULL then fail (Fault NullDeref)
        else let d = set_descr_len (word_of_int (sgl_ndescr sgl) * sizeof_descr)
              (set_descr_type NVM_NVME_SGL_DESCR_TYPE_LAST_SEGMENT (sgl_indirect_descr sgl))
          in andThen (vtophys_unchecked sys (wrap_dev wrap) (sgl_indirect sgl)) (\<lambda>mptr.
             ok (mptr, Some (d\<lparr>sgld_addr := phys\<rparr>)))) (\<lambda>(mptr, ind).
      ok (wrap\<lparr>wrap_cmd := (wrap_cmd wrap)\<lparr>cmd_mptr := mptr\<rparr>, wrap_indirect := ind, wrap_meta := NULL,
        wrap_meta_len := 0\<rparr>))))"

definition cmd_wrap_setup_sgl ::
  "'w sys \<Rightarrow> nvm_cmd_wrap \<Rightarrow> nvm_sgl option \<Rightarrow> nvm_sgl option \<Rightarrow> u32 \<Rightarrow> ('w, nvm_cmd_wrap) op" where
  "cmd_wrap_setup_sgl sys wrap dsgl msgl flags =
     (if flags AND NVM_CMD_SGL = 0 then ok wrap
      else case dsgl of
        None \<Rightarrow> fail (Fault NullDeref)
      | Some sgl \<Rightarrow> andThen (setup_sgl_data sys wrap sgl) (\<lambda>wrap.
          if flags AND NVM_CMD_SGL_META = 0 then ok wrap
          else case msgl of
            None \<Rightarrow> fail (Fault NullDeref)
          | Some sgl \<Rightarrow> setup_sgl_meta sys wrap sgl))"

abbreviation (input) sizeof_wrap :: u64 where "sizeof_wrap \<equiv> 184"
abbreviation (input) sizeof_dsm_range :: u64 where "sizeof_dsm_range \<equiv> 16"

definition wrap_init :: "ptr \<Rightarrow> nvm_dev \<Rightarrow> u16 \<Rightarrow> ptr \<Rightarrow> ptr \<Rightarrow> int \<Rightarrow> ptr \<Rightarrow> nvm_cmd_wrap" where
  "wrap_init self dev opcode data meta naddrs ret =
     \<lparr>wrap_self = self, wrap_dev = dev, wrap_ret = ret,
      wrap_cmd = cmd_zero\<lparr>cmd_opcode := ucast opcode, cmd_nsid := word_of_int (dev_nsid dev)\<rparr>,
      wrap_meta = meta, wrap_meta_len = 0, wrap_data = data, wrap_data_len = 0, wrap_dsmr_dma = NULL,
      wrap_dsmr = [], wrap_dsmr_len = 0, wrap_naddrs = naddrs, wrap_addrs_dma = NULL, wrap_addrs = [],
      wrap_addrs_len = word_of_int naddrs * 8, wrap_dst_dma = NULL, wrap_dst = [],
      wrap_indirect = None, wrap_completed = 0\<rparr>"

text \<open>The first \<open>naddrs\<close> elements of an array argument; reading more than it has is a fault.\<close>

definition arg_addrs :: "nvm_addr list \<Rightarrow> int \<Rightarrow> nvm_addr list res" where
  "arg_addrs addrs naddrs =
     (if nat naddrs \<le> length addrs then Inr (take (nat naddrs) addrs) else Inl (Fault OutOfBounds))"

definition arg_addr0 :: "nvm_addr list \<Rightarrow> nvm_addr res" where
  "arg_addr0 addrs = (case addrs of a # _ \<Rightarrow> Inr a | [] \<Rightarrow> Inl (Fault OutOfBounds))"

definition wrap_setup_scalar_erase :: "'w sys \<Rightarrow> nvm_cmd_wrap \<Rightarrow> nvm_addr list \<Rightarrow> int \<Rightarrow> ('w, nvm_cmd_wrap) op" where
  "wrap_setup_scalar_erase sys wrap addrs naddrs =
     (let dev = wrap_dev wrap; wrap = wrap\<lparr>wrap_dsmr_len := sizeof_dsm_range * word_of_int naddrs\<rparr> in
      andThen (on_error (nvm_buf_alloc sys dev (wrap_dsmr_len wrap) 0) (nvm_cmd_wrap_term sys wrap)) (\<lambda>(p, _).
      andThen (lift_res (arg_addrs addrs naddrs)) (\<lambda>as.
      ok (wrap\<lparr>wrap_dsmr_dma := p, wrap_data := p, wrap_data_len := wrap_dsmr_len wrap,
        wrap_dsmr := map (\<lambda>a. \<lparr>dsmr_cattr = 0, dsmr_nlb = ucast (l_nsectr (dev_geo dev)),
          dsmr_slba = nvm_addr_gen2dev dev a\<rparr>) as,
        wrap_cmd := (wrap_cmd wrap)\<lparr>cmd_addrs :=
          bf_set 34 1 1 (bf_set 0 8 (word_of_int (naddrs - 1)) (cmd_addrs (wrap_cmd wrap)))\<rparr>\<rparr>))))"

text \<open>The lengths and the count field, by version.\<close>

definition wrap_setup_len :: "nvm_cmd_wrap \<Rightarrow> u16 \<Rightarrow> ptr \<Rightarrow> ptr \<Rightarrow> int \<Rightarrow> u32 \<Rightarrow> nvm_cmd_wrap res" where
  "wrap_setup_len wrap opcode data meta naddrs flags =
     (let dev = wrap_dev wrap; geo = dev_geo dev; cmd = wrap_cmd wrap in
      if dev_verid dev = NVM_SPEC_VERID_12 then
        Inr (wrap\<lparr>wrap_cmd := cmd\<lparr>cmd_cdw12 :=
            bf_set 16 16 flags (bf_set 0 16 (word_of_int (naddrs - 1)) (cmd_cdw12 cmd))\<rparr>,
          wrap_data_len := (if data \<noteq> NULL then sector_nbytes geo * word_of_int naddrs else 0),
          wrap_meta_len := meta_nbytes geo * word_of_int naddrs\<rparr>)
      else if dev_verid dev = NVM_SPEC_VERID_20 then
        Inr (wrap\<lparr>wrap_cmd := cmd\<lparr>cmd_cdw12 :=
            (if nvm_cmd_is_scalar opcode then bf_set 0 16 (word_of_int (naddrs - 1)) (cmd_cdw12 cmd)
             else bf_set 0 6 (word_of_int (naddrs - 1)) (cmd_cdw12 cmd))\<rparr>,
          wrap_data_len := (if data \<noteq> NULL then l_nbytes geo * word_of_int naddrs else 0),
          wrap_meta_len := (if meta \<noteq> NULL then l_nbytes_oob geo * word_of_int naddrs else 0)\<rparr>)
      else Inl (Errno EINVAL))"

text \<open>The special case of a vector erase with a buffer for chunk reports.\<close>

definition wrap_setup_erase_meta ::
  "'w sys \<Rightarrow> nvm_cmd_wrap \<Rightarrow> u16 \<Rightarrow> ptr \<Rightarrow> int \<Rightarrow> ('w, nvm_cmd_wrap) op" where
  "wrap_setup_erase_meta sys wrap opcode meta naddrs =
     (if opcode = NVM_DOPC_VECTOR_ERASE \<and> meta \<noteq> NULL then
        andThen (nvm_buf_vtophys sys (wrap_dev wrap) meta) (\<lambda>phys.
        ok (wrap\<lparr>wrap_meta_len := word_of_int naddrs * sizeof_rprt_descr,
          wrap_cmd := (wrap_cmd wrap)\<lparr>cmd_mptr := phys\<rparr>\<rparr>))
      else ok wrap)"

text \<open>The list of device addresses of a vector command: in place for one, in DMA memory for more.\<close>

definition wrap_setup_list ::
  "'w sys \<Rightarrow> nvm_cmd_wrap \<Rightarrow> nvm_addr list \<Rightarrow> int \<Rightarrow> ('w, ptr \<times> u64 list \<times> u64) op" where
  "wrap_setup_list sys wrap addrs naddrs =
     (let dev = wrap_dev wrap in
      if naddrs > 1 then
        andThen (nvm_buf_alloc sys dev (wrap_addrs_len wrap) 0) (\<lambda>(p, phys).
        andThen (lift_res (arg_addrs addrs naddrs)) (\<lambda>as.
        ok (p, map (nvm_addr_gen2dev dev) as, phys)))
      else andThen (lift_res (arg_addr0 addrs)) (\<lambda>a. ok (NULL, [], nvm_addr_gen2dev dev a)))"

definition wrap_setup_vector ::
  "'w sys \<Rightarrow> nvm_cmd_wrap \<Rightarrow> nvm_addr list \<Rightarrow> nvm_addr list option \<Rightarrow> int \<Rightarrow> ('w, nvm_cmd_wrap) op" where
  "wrap_setup_vector sys wrap addrs dst naddrs =
     andThen (on_error (wrap_setup_list sys wrap addrs naddrs) (nvm_cmd_wrap_term sys wrap)) (\<lambda>(p, ds, slba).
     let wrap = wrap\<lparr>wrap_addrs_dma := p, wrap_addrs := ds, wrap_cmd := (wrap_cmd wrap)\<lparr>cmd_addrs := slba\<rparr>\<rparr> in
     case dst of None \<Rightarrow> ok wrap
     | Some dst \<Rightarrow>
         andThen (on_error (wrap_setup_list sys wrap dst naddrs) (nvm_cmd_wrap_term sys wrap)) (\<lambda>(p, ds, dlba).
         ok (wrap\<lparr>wrap_dst_dma := p, wrap_dst := ds, wrap_cmd := (wrap_cmd wrap)\<lparr>cmd_addrs_dst := dlba\<rparr>\<rparr>)))"

definition nvm_cmd_wrap_setup ::
  "'w sys \<Rightarrow> nvm_dev \<Rightarrow> u16 \<Rightarrow> ptr \<Rightarrow> ptr \<Rightarrow> nvm_sgl option \<Rightarrow> nvm_sgl option \<Rightarrow> nvm_addr list
     \<Rightarrow> nvm_addr list option \<Rightarrow> int \<Rightarrow> u32 \<Rightarrow> ptr \<Rightarrow> ('w, nvm_cmd_wrap) op" where
  "nvm_cmd_wrap_setup sys dev opcode data meta dsgl msgl addrs dst naddrs flags ret =
     andThen (sys_calloc sys 1 sizeof_wrap) (\<lambda>self.
     let wrap = wrap_init self dev opcode data meta naddrs ret in
     if opcode = NVM_DOPC_SCALAR_ERASE then wrap_setup_scalar_erase sys wrap addrs naddrs
     else
       andThen (on_error (lift_res (wrap_setup_len wrap opcode data meta naddrs flags)) (nvm_cmd_wrap_term sys wrap)) (\<lambda>wrap.
       andThen (on_error (wrap_setup_erase_meta sys wrap opcode meta naddrs) (nvm_cmd_wrap_term sys wrap)) (\<lambda>wrap.
       andThen (cmd_wrap_setup_sgl sys wrap dsgl msgl flags) (\<lambda>wrap.
       if opcode = NVM_DOPC_SCALAR_WRITE \<or> opcode = NVM_DOPC_SCALAR_READ then
         andThen (lift_res (arg_addr0 addrs)) (\<lambda>a.
         ok (wrap\<lparr>wrap_cmd := (wrap_cmd wrap)\<lparr>cmd_addrs := nvm_addr_gen2dev dev a\<rparr>\<rparr>))
       else wrap_setup_vector sys wrap addrs dst naddrs))))"

definition nvm_cmd_wrap_pass ::
  "'w sys \<Rightarrow> nvm_dev \<Rightarrow> ptr \<Rightarrow> u64 \<Rightarrow> ptr \<Rightarrow> u64 \<Rightarrow> ptr \<Rightarrow> ('w, nvm_cmd_wrap) op" where
  "nvm_cmd_wrap_pass sys dev data data_len meta meta_len ret =
     andThen (sys_calloc sys 1 sizeof_wrap) (\<lambda>self.
     ok ((wrap_init self dev 0 data meta 0 ret)\<lparr>wrap_cmd := cmd_zero, wrap_data_len := data_len,
       wrap_meta_len := meta_len\<rparr>))"

section \<open>Commands\<close>

definition nvm_cmd_pass ::
  "'w nvm_be \<Rightarrow> nvm_dev \<Rightarrow> nvm_nvme_cmd \<Rightarrow> ptr \<Rightarrow> u64 \<Rightarrow> ptr \<Rightarrow> u64 \<Rightarrow> u32 \<Rightarrow> ptr \<Rightarrow> ('w, unit) op" where
  "nvm_cmd_pass be dev cmd data data_len meta meta_len flags ret =
     be_pass be dev cmd data data_len meta meta_len flags ret"

definition nvm_cmd_idfy :: "'w nvm_be \<Rightarrow> nvm_dev \<Rightarrow> ptr \<Rightarrow> ('w, ptr \<times> nvm_spec_idfy) op" where
  "nvm_cmd_idfy be dev ret = be_idfy be dev ret"

definition nvm_cmd_rprt ::
  "'w nvm_be \<Rightarrow> nvm_dev \<Rightarrow> nvm_addr option \<Rightarrow> int \<Rightarrow> ptr \<Rightarrow> ('w, ptr \<times> nvm_spec_rprt) op" where
  "nvm_cmd_rprt be dev addr opt ret = be_rprt be dev addr opt ret"

definition nvm_cmd_gbbt :: "'w nvm_be \<Rightarrow> nvm_dev \<Rightarrow> nvm_addr \<Rightarrow> ptr \<Rightarrow> ('w, ptr \<times> nvm_spec_bbt) op" where
  "nvm_cmd_gbbt be dev addr ret = be_gbbt be dev addr ret"

definition nvm_cmd_sbbt :: "'w nvm_be \<Rightarrow> nvm_dev \<Rightarrow> nvm_addr list \<Rightarrow> int \<Rightarrow> u16 \<Rightarrow> ptr \<Rightarrow> ('w, unit) op" where
  "nvm_cmd_sbbt be dev addrs naddrs flags ret = be_sbbt be dev addrs naddrs flags ret"

definition nvm_cmd_gfeat :: "'w nvm_be \<Rightarrow> nvm_dev \<Rightarrow> u8 \<Rightarrow> ptr \<Rightarrow> ('w, u32) op" where
  "nvm_cmd_gfeat be dev fid ret = be_gfeat be dev fid ret"

definition nvm_cmd_sfeat :: "'w nvm_be \<Rightarrow> nvm_dev \<Rightarrow> u8 \<Rightarrow> u32 \<Rightarrow> ptr \<Rightarrow> ('w, unit) op" where
  "nvm_cmd_sfeat be dev fid feat ret = be_sfeat be dev fid feat ret"

text \<open>The addressing option of a command: the flags, or else the option of the device.\<close>

definition cmd_opt :: "nvm_dev \<Rightarrow> u16 \<Rightarrow> u32" where
  "cmd_opt dev flags =
     (let opt = ucast flags AND NVM_CMD_MASK_ADDR
      in if opt \<noteq> 0 then opt else dev_cmd_opts dev AND NVM_CMD_MASK_ADDR)"

definition nvm_cmd_erase ::
  "'w nvm_be \<Rightarrow> nvm_dev \<Rightarrow> nvm_addr list \<Rightarrow> int \<Rightarrow> ptr \<Rightarrow> u16 \<Rightarrow> ptr \<Rightarrow> ('w, unit) op" where
  "nvm_cmd_erase be dev addrs naddrs meta flags ret =
     (let opt = cmd_opt dev flags in
      if opt = NVM_CMD_SCALAR then
        (if meta \<noteq> NULL then fail (Errno EINVAL) else be_scalar_erase be dev addrs naddrs flags ret)
      else if opt = NVM_CMD_VECTOR then be_vector_erase be dev addrs naddrs meta flags ret
      else fail (Errno EINVAL))"

definition nvm_cmd_write ::
  "'w nvm_be \<Rightarrow> nvm_dev \<Rightarrow> nvm_addr list \<Rightarrow> int \<Rightarrow> ptr \<Rightarrow> ptr \<Rightarrow> u16 \<Rightarrow> ptr \<Rightarrow> ('w, unit) op" where
  "nvm_cmd_write be dev addrs naddrs data meta flags ret =
     (let opt = cmd_opt dev flags in
      if opt = NVM_CMD_SCALAR then
        andThen (lift_res (arg_addr0 addrs)) (\<lambda>a. be_scalar_write be dev a naddrs data meta flags ret)
      else if opt = NVM_CMD_VECTOR then be_vector_write be dev addrs naddrs data meta flags ret
      else fail (Errno EINVAL))"

definition nvm_cmd_read ::
  "'w nvm_be \<Rightarrow> nvm_dev \<Rightarrow> nvm_addr list \<Rightarrow> int \<Rightarrow> ptr \<Rightarrow> ptr \<Rightarrow> u16 \<Rightarrow> ptr \<Rightarrow> ('w, unit) op" where
  "nvm_cmd_read be dev addrs naddrs data meta flags ret =
     (let opt = cmd_opt dev flags in
      if opt = NVM_CMD_SCALAR then
        andThen (lift_res (arg_addr0 addrs)) (\<lambda>a. be_scalar_read be dev a naddrs data meta flags ret)
      else if opt = NVM_CMD_VECTOR then be_vector_read be dev addrs naddrs data meta flags ret
      else fail (Errno EINVAL))"

definition nvm_cmd_copy ::
  "'w nvm_be \<Rightarrow> nvm_dev \<Rightarrow> nvm_addr list \<Rightarrow> nvm_addr list \<Rightarrow> int \<Rightarrow> u16 \<Rightarrow> ptr \<Rightarrow> ('w, unit) op" where
  "nvm_cmd_copy be dev src dst naddrs flags ret = be_vector_copy be dev src dst naddrs flags ret"

section \<open>Arbitrary chunks and blocks in a given state\<close>

text \<open>
  \<open>rand\<close> returns a value between 0 and \<open>RAND_MAX\<close>; the sum \<open>idx + arb\<close> of two C \<open>int\<close>s is a fault when
  it exceeds \<open>INT_MAX\<close>.
\<close>

fun rprt_scan :: "nvm_spec_rprt \<Rightarrow> int \<Rightarrow> nat \<Rightarrow> nat list \<Rightarrow> nat option res" where
  "rprt_scan rprt cs arb [] = Inr None"
| "rprt_scan rprt cs arb (des_idx # r) =
     (let des_cur = c_int (int ((des_idx + arb) mod unat (rprt_ndescr rprt))) in
      if des_cur < 0 \<or> int (length (rprt_descr rprt)) \<le> des_cur then Inl (Fault OutOfBounds)
      else if uint (descr_cs (rprt_descr rprt ! nat des_cur)) \<noteq> cs then rprt_scan rprt cs arb r
      else Inr (Some (nat des_cur)))"

definition rprt_arbs_addr :: "nvm_geo \<Rightarrow> nat \<Rightarrow> nvm_addr" where
  "rprt_arbs_addr geo cur =
     set_l_punit ((of_nat cur div l_npugrp geo) mod l_npunit geo)
       (set_l_pugrp (of_nat cur mod l_npugrp geo) (NvmAddr 0))"

definition rprt_arbs_step ::
  "'w sys \<Rightarrow> 'w nvm_be \<Rightarrow> nvm_dev \<Rightarrow> int \<Rightarrow> int \<Rightarrow> int \<Rightarrow> nat \<Rightarrow> nvm_addr list \<Rightarrow> ('w, nvm_addr list) op" where
  "rprt_arbs_step sys be dev cs naddrs arb idx addrs w =
     (let geo = dev_geo dev in
      if int idx + arb \<ge> 2 ^ 31 then fail (Fault IntOverflow) w
      else let cur = nat ((int idx + arb) mod naddrs) in
        if l_npugrp geo = 0 \<or> l_npunit geo = 0 then fail (Fault DivByZero) w
        else let addr = rprt_arbs_addr geo cur in
          case nvm_cmd_rprt be dev (Some addr) 0 NULL w of
            (Inl (Fault f), w') \<Rightarrow> (Inl (Fault f), w')
          | (Inl (Errno e), w') \<Rightarrow> andThen (nvm_buf_free sys dev NULL) (\<lambda>_. fail (Errno EINVAL)) w'
          | (Inr (buf, rprt), w') \<Rightarrow>
              if ucast (rprt_ndescr rprt) \<noteq> l_nchunk geo
              then andThen (nvm_buf_free sys dev buf) (\<lambda>_. fail (Errno EINVAL)) w'
              else (case rprt_scan rprt cs (nat arb) [0..<unat (rprt_ndescr rprt)] of
                Inl e \<Rightarrow> (Inl e, w')
              | Inr None \<Rightarrow> andThen (nvm_buf_free sys dev buf) (\<lambda>_. fail (Errno EINVAL)) w'
              | Inr (Some des_cur) \<Rightarrow>
                  if length addrs \<le> idx then (Inl (Fault OutOfBounds), w')
                  else andThen (nvm_buf_free sys dev buf) (\<lambda>_.
                    ok (addrs[idx := set_l_chunk (of_nat des_cur) addr])) w'))"

definition nvm_cmd_rprt_arbs ::
  "'w sys \<Rightarrow> 'w nvm_be \<Rightarrow> nvm_dev \<Rightarrow> int \<Rightarrow> int \<Rightarrow> nvm_addr list \<Rightarrow> ('w, nvm_addr list) op" where
  "nvm_cmd_rprt_arbs sys be dev cs naddrs addrs w =
     (let geo = dev_geo dev; tpunit = c_int (uint (l_npugrp geo * l_npunit geo));
        (arb, w) = sys_rand sys w
      in if naddrs < 0 \<or> naddrs > tpunit then fail (Errno EINVAL) w
         else fold_op (rprt_arbs_step sys be dev cs naddrs arb) [0..<nat naddrs] addrs w)"

text \<open>
  \<open>nvm_cmd_gbbt_arbs\<close> as written: the loop over the blocks tests and increments the index \<open>idx\<close> of
  the loop around it instead of \<open>blk_idx\<close>, which stays 0. The result of a pass is the new \<open>idx\<close>.
\<close>

definition gbbt_plane_state :: "nvm_spec_bbt \<Rightarrow> u64 \<Rightarrow> u64 \<Rightarrow> u8 res" where
  "gbbt_plane_state bbt blk_cur npl =
     (let first = unat (blk_cur * npl) in
      if first + unat npl \<le> length (sbbt_blk bbt)
      then Inr (fold (\<lambda>i s. s OR sbbt_blk bbt ! i) [first..<first + unat npl] 0)
      else Inl (Fault OutOfBounds))"

fun gbbt_scan :: "u8 \<Rightarrow> int \<Rightarrow> u64 \<Rightarrow> nvm_addr \<Rightarrow> nat \<Rightarrow> nat \<Rightarrow> nvm_addr list \<Rightarrow> (nat \<times> nvm_addr list) res" where
  "gbbt_scan state bs blk_cur addr 0 idx addrs = Inr (idx, addrs)"
| "gbbt_scan state bs blk_cur addr (Suc k) idx addrs =
     (if bs \<noteq> uint state then gbbt_scan state bs blk_cur addr k (Suc idx) addrs
      else if idx < length addrs then Inr (idx, addrs[idx := set_g_blk blk_cur addr])
      else Inl (Fault OutOfBounds))"

definition gbbt_arbs_step ::
  "'w nvm_be \<Rightarrow> nvm_dev \<Rightarrow> int \<Rightarrow> nat \<Rightarrow> nat \<Rightarrow> nat \<Rightarrow> nvm_addr list \<Rightarrow> ('w, nat \<times> nvm_addr list) op" where
  "gbbt_arbs_step be dev bs naddrs arb idx addrs =
     (let geo = dev_geo dev; cur = of_nat ((idx + arb) mod naddrs) in
      if nchannels geo = 0 \<or> nluns geo = 0 then fail (Fault DivByZero)
      else let addr = set_g_lun ((cur div nchannels geo) mod nluns geo) (set_g_ch (cur mod nchannels geo) (NvmAddr 0)) in
        andThen (nvm_cmd_gbbt be dev addr NULL) (\<lambda>(buf, bbt).
        if idx < unat (nblocks geo) then
          let blk_cur = of_nat (arb mod unat (nblocks geo)) in
          lift_res (case gbbt_plane_state bbt blk_cur (nplanes geo) of Inl e \<Rightarrow> Inl e
            | Inr state \<Rightarrow> gbbt_scan state bs blk_cur addr (unat (nblocks geo) - idx) idx addrs)
        else if nblocks geo = 0 then fail (Errno EKEEP) else ok (idx, addrs)))"

lemma gbbt_scan_mono: "gbbt_scan state bs blk_cur addr k idx addrs = Inr (idx', addrs') \<Longrightarrow> idx \<le> idx'"
  by (induction k arbitrary: idx) (auto split: if_splits dest: Suc_leD)

lemma gbbt_step_mono:
  "gbbt_arbs_step be dev bs naddrs arb idx addrs w = (Inr (idx', addrs'), w') \<Longrightarrow> idx \<le> idx'"
  by (auto simp: gbbt_arbs_step_def Let_def andThen_Inr fail_def ok_def lift_res_def
      split: if_splits sum.splits dest: gbbt_scan_mono)

function gbbt_arbs_loop ::
  "'w nvm_be \<Rightarrow> nvm_dev \<Rightarrow> int \<Rightarrow> nat \<Rightarrow> nat \<Rightarrow> nat \<Rightarrow> nvm_addr list \<Rightarrow> ('w, nvm_addr list) op" where
  "gbbt_arbs_loop be dev bs naddrs arb idx addrs w =
     (if idx < naddrs then
        case gbbt_arbs_step be dev bs naddrs arb idx addrs w of
          (Inl e, w') \<Rightarrow> (Inl e, w')
        | (Inr (idx', addrs'), w') \<Rightarrow> gbbt_arbs_loop be dev bs naddrs arb (Suc idx') addrs' w'
      else (Inr addrs, w))"
  by auto

termination
  by (relation "measure (\<lambda>(be, dev, bs, naddrs, arb, idx, addrs, w). naddrs - idx)")
    (auto dest!: gbbt_step_mono [OF sym])

definition nvm_cmd_gbbt_arbs ::
  "'w sys \<Rightarrow> 'w nvm_be \<Rightarrow> nvm_dev \<Rightarrow> int \<Rightarrow> int \<Rightarrow> nvm_addr list \<Rightarrow> ('w, nvm_addr list) op" where
  "nvm_cmd_gbbt_arbs sys be dev bs naddrs addrs w =
     (let geo = dev_geo dev; tluns = c_int (uint (nchannels geo * nluns geo)); (arb, w) = sys_rand sys w
      in if naddrs < 0 \<or> naddrs > tluns then fail (Errno EINVAL) w
         else gbbt_arbs_loop be dev bs (nat naddrs) (nat arb) 0 addrs w)"

section \<open>Arbitrary chunks: correctness\<close>

lemma rprt_scan_sound:
  "rprt_scan rprt cs arb is = Inr (Some c) \<Longrightarrow> rprt_ndescr rprt \<noteq> 0 \<Longrightarrow>
     c < unat (rprt_ndescr rprt) \<and> c < length (rprt_descr rprt) \<and> uint (descr_cs (rprt_descr rprt ! c)) = cs"
proof (induction "is")
  case (Cons i "is")
  let ?m = "(i + arb) mod unat (rprt_ndescr rprt)"
  have m: "?m < unat (rprt_ndescr rprt)"
    using Cons.prems(2) by (simp add: unat_gt_0)
  have "c_int (int ?m) \<le> int ?m"
    unfolding c_int_def by (simp add: signed_take_bit_int_less_eq_self_iff)
  with Cons m show ?case
    by (auto simp: Let_def split: if_splits)
qed simp

definition rprt_pick :: "'w nvm_be \<Rightarrow> nvm_dev \<Rightarrow> int \<Rightarrow> nvm_addr \<Rightarrow> nvm_addr \<Rightarrow> bool" where
  "rprt_pick be dev cs base a \<longleftrightarrow>
     (\<exists>w1 w2 buf rprt c. nvm_cmd_rprt be dev (Some base) 0 NULL w1 = (Inr (buf, rprt), w2)
       \<and> ucast (rprt_ndescr rprt) = l_nchunk (dev_geo dev) \<and> c < unat (rprt_ndescr rprt) \<and> c < length (rprt_descr rprt)
       \<and> uint (descr_cs (rprt_descr rprt ! c)) = cs \<and> a = set_l_chunk (of_nat c) base)"

lemma rprt_step_pick:
  assumes "rprt_arbs_step sys be dev cs naddrs arb idx addrs w = (Inr out, w')" "l_nchunk (dev_geo dev) \<noteq> 0"
  defines "base \<equiv> rprt_arbs_addr (dev_geo dev) (nat ((int idx + arb) mod naddrs))"
  shows "idx < length addrs \<and> (\<exists>a. out = addrs[idx := a] \<and> rprt_pick be dev cs base a)"
proof -
  from assms(1) obtain buf rprt w1 c where r: "nvm_cmd_rprt be dev (Some base) 0 NULL w = (Inr (buf, rprt), w1)"
    "ucast (rprt_ndescr rprt) = l_nchunk (dev_geo dev)"
    "rprt_scan rprt cs (nat arb) [0..<unat (rprt_ndescr rprt)] = Inr (Some c)"
    and o: "idx < length addrs" "out = addrs[idx := set_l_chunk (of_nat c) base]"
    by (auto simp: rprt_arbs_step_def Let_def fail_def ok_def andThen_Inr base_def
        split: if_splits prod.splits sum.splits failure.splits option.splits)
  have "rprt_ndescr rprt \<noteq> 0" using r(2) assms(2) by auto
  with rprt_scan_sound [OF r(3)] r o show ?thesis
    unfolding rprt_pick_def by blast
qed

text \<open>Distinct indices give distinct parallel units.\<close>

lemma add_mod_inj:
  fixes i j a n :: nat
  assumes "i \<le> j" "j < n" "(i + a) mod n = (j + a) mod n"
  shows "i = j"
proof -
  have "n dvd (j + a) - (i + a)"
    using assms(1,3) by (subst mod_eq_dvd_iff_nat [symmetric]) simp_all
  then have "n dvd j - i" by simp
  then show ?thesis
    using assms(1,2) by (metis diff_diff_cancel diff_is_0_eq dvd_imp_le le_antisym less_imp_diff_less not_le zero_less_iff_neq_zero)
qed

lemma arbs_cur_inj:
  fixes i j n :: nat
  assumes "i < n" "j < n" "0 \<le> arb" "nat ((int i + arb) mod int n) = nat ((int j + arb) mod int n)"
  shows "i = j"
proof -
  have "(i + nat arb) mod n = (j + nat arb) mod n"
    using assms(3,4) by (simp add: nat_mod_distrib nat_add_distrib)
  then show ?thesis
    using assms(1,2) add_mod_inj [of i j n "nat arb"] add_mod_inj [of j i n "nat arb"] by (metis nat_le_linear)
qed

lemma rprt_arbs_addr_units:
  assumes "cur < unat (l_npugrp geo) * unat (l_npunit geo)" "unat (l_npugrp geo) \<le> 256" "unat (l_npunit geo) \<le> 256"
  shows "unat (l_pugrp (rprt_arbs_addr geo cur)) = cur mod unat (l_npugrp geo)
    \<and> unat (l_punit (rprt_arbs_addr geo cur)) = cur div unat (l_npugrp geo)"
proof -
  let ?g = "l_npugrp geo" and ?u = "l_npunit geo"
  have g0: "unat ?g \<noteq> 0" using assms(1) by (metis mult_0 not_less_zero)
  have d: "cur div unat ?g < unat ?u"
    using assms(1) by (simp add: less_mult_imp_div_less mult.commute)
  have "cur < 2 ^ 64"
    using assms(1) mult_le_mono [OF assms(2,3)] by simp
  then have c: "unat (of_nat cur :: u64) = cur"
    by (rule unat_u64)
  have m: "unat (of_nat cur mod ?g) = cur mod unat ?g" "unat (of_nat cur div ?g mod ?u) = cur div unat ?g"
    using d by (simp_all add: unat_mod unat_div c)
  have "cur mod unat ?g < unat ?g"
    using g0 by simp
  then have "cur mod unat ?g < 2 ^ 8" "cur div unat ?g < 2 ^ 8"
    using assms(2,3) d by simp_all
  then show ?thesis
    using m by (simp add: rprt_arbs_addr_def bitfield_simps take_bit_id)
qed

lemma rprt_arbs_picks:
  assumes "nvm_cmd_rprt_arbs sys be dev cs naddrs addrs w = (Inr out, w')" "l_nchunk (dev_geo dev) \<noteq> 0"
    and "sys_rand sys w = (arb, w1)"
  shows "length out = length addrs \<and> 0 \<le> naddrs \<and> naddrs \<le> c_int (uint (l_npugrp (dev_geo dev) * l_npunit (dev_geo dev)))
    \<and> (\<forall>i < nat naddrs. i < length addrs
        \<and> rprt_pick be dev cs (rprt_arbs_addr (dev_geo dev) (nat ((int i + arb) mod naddrs))) (out ! i))
    \<and> (\<forall>i. nat naddrs \<le> i \<longrightarrow> i < length addrs \<longrightarrow> out ! i = addrs ! i)"
proof -
  let ?base = "\<lambda>i. rprt_arbs_addr (dev_geo dev) (nat ((int i + arb) mod naddrs))"
  let ?P = "\<lambda>k out. length out = length addrs \<and> (\<forall>i < k. i < length addrs \<and> rprt_pick be dev cs (?base i) (out ! i))
    \<and> (\<forall>i. k \<le> i \<longrightarrow> i < length addrs \<longrightarrow> out ! i = addrs ! i)"
  have n: "0 \<le> naddrs" "naddrs \<le> c_int (uint (l_npugrp (dev_geo dev) * l_npunit (dev_geo dev)))"
    and f: "fold_op (rprt_arbs_step sys be dev cs naddrs arb) [0..<nat naddrs] addrs w1 = (Inr out, w')"
    using assms(1,3) by (auto simp: nvm_cmd_rprt_arbs_def Let_def fail_def split: if_splits)
  have "?P (nat naddrs) out"
  proof (rule fold_op_upt [OF f])
    fix i s w s' w' assume s: "?P i s" "rprt_arbs_step sys be dev cs naddrs arb i s w = (Inr s', w')"
    from rprt_step_pick [OF s(2) assms(2)] obtain a where "i < length s" "s' = s[i := a]" "rprt_pick be dev cs (?base i) a"
      by blast
    with s(1) show "?P (Suc i) s'"
      by (auto simp: less_Suc_eq nth_list_update)
  qed simp_all
  with n show ?thesis by blast
qed

lemma tpunit_eq:
  assumes "unat (l_npugrp geo) \<le> 256" "unat (l_npunit geo) \<le> 256"
  shows "c_int (uint (l_npugrp geo * l_npunit geo)) = int (unat (l_npugrp geo) * unat (l_npunit geo))"
proof -
  have le: "unat (l_npugrp geo) * unat (l_npunit geo) \<le> 256 * 256"
    using assms by (rule mult_le_mono)
  then have "unat (l_npugrp geo * l_npunit geo) = unat (l_npugrp geo) * unat (l_npunit geo)"
    by (intro unat_mult_lt) simp
  then have "uint (l_npugrp geo * l_npunit geo) = int (unat (l_npugrp geo) * unat (l_npunit geo))"
    by (metis uint_nat)
  moreover have "c_int (int m) = int m" if "m \<le> 256 * 256" for m
    using that by (intro c_int_id) auto
  ultimately show ?thesis using le by metis
qed

lemma rprt_pick_facts:
  assumes pick: "rprt_pick be dev cs (rprt_arbs_addr (dev_geo dev) cur) a"
    and geo: "unat (l_npugrp (dev_geo dev)) \<le> 256" "unat (l_npunit (dev_geo dev)) \<le> 256"
      "unat (l_nchunk (dev_geo dev)) \<le> 2 ^ 16"
    and cur: "cur < unat (l_npugrp (dev_geo dev)) * unat (l_npunit (dev_geo dev))"
  shows "unat (l_pugrp a) = cur mod unat (l_npugrp (dev_geo dev)) \<and> unat (l_punit a) = cur div unat (l_npugrp (dev_geo dev))
    \<and> l_sectr a = 0 \<and> l_chunk a < l_nchunk (dev_geo dev)
    \<and> (\<exists>wa wb buf rprt. be_rprt be dev (Some (set_l_chunk 0 a)) 0 NULL wa = (Inr (buf, rprt), wb)
          \<and> uint (descr_cs (rprt_descr rprt ! unat (l_chunk a))) = cs)"
proof -
  let ?b = "rprt_arbs_addr (dev_geo dev) cur"
  from pick obtain wa wb buf rprt c where p: "nvm_cmd_rprt be dev (Some ?b) 0 NULL wa = (Inr (buf, rprt), wb)"
    "ucast (rprt_ndescr rprt) = l_nchunk (dev_geo dev)" "c < unat (rprt_ndescr rprt)"
    "uint (descr_cs (rprt_descr rprt ! c)) = cs" and a: "a = set_l_chunk (of_nat c) ?b"
    unfolding rprt_pick_def by blast
  have n: "unat (rprt_ndescr rprt) = unat (l_nchunk (dev_geo dev))"
    by (simp add: p(2) [symmetric] unat_ucast_up)
  then have c: "unat (of_nat c :: u64) = c" "c < 2 ^ 16"
    using p(3) geo(3) by (auto intro!: unat_u64)
  then have lc: "l_chunk a = of_nat c"
    by (simp add: a bitfield_simps take_bit_id)
  have "l_chunk a < l_nchunk (dev_geo dev)"
    using lc c n p(3) by (simp add: word_less_nat_alt)
  moreover have "set_l_chunk 0 a = ?b"
    by (rule addr_eq_l) (simp_all add: a rprt_arbs_addr_def bitfield_simps)
  moreover have "l_pugrp a = l_pugrp ?b" "l_punit a = l_punit ?b" "l_sectr a = 0"
    by (simp_all add: a rprt_arbs_addr_def bitfield_simps)
  ultimately show ?thesis
    using rprt_arbs_addr_units [OF cur geo(1,2)] p(1,4) lc c by (simp add: nvm_cmd_rprt_def) blast
qed

section \<open>Properties\<close>

lemma rprt_arbs_facts:
  fixes naddrs arb :: int
  assumes ok: "nvm_cmd_rprt_arbs sys be dev cs naddrs addrs w = (Inr out, w')" and rnd: "sys_rand sys w = (arb, w1)"
    and geo: "unat (l_npugrp (dev_geo dev)) \<le> 256" "unat (l_npunit (dev_geo dev)) \<le> 256" "l_nchunk (dev_geo dev) \<noteq> 0"
      "unat (l_nchunk (dev_geo dev)) \<le> 2 ^ 16" and i: "i < nat naddrs"
  defines "G \<equiv> unat (l_npugrp (dev_geo dev))" and "c \<equiv> nat ((int i + arb) mod naddrs)"
  shows "c < G * unat (l_npunit (dev_geo dev)) \<and> unat (l_pugrp (out ! i)) = c mod G \<and> unat (l_punit (out ! i)) = c div G
      \<and> l_sectr (out ! i) = 0 \<and> l_chunk (out ! i) < l_nchunk (dev_geo dev)
      \<and> (\<exists>wa wb buf rprt. be_rprt be dev (Some (set_l_chunk 0 (out ! i))) 0 NULL wa = (Inr (buf, rprt), wb)
          \<and> uint (descr_cs (rprt_descr rprt ! unat (l_chunk (out ! i)))) = cs)"
proof -
  note p = rprt_arbs_picks [OF ok geo(3) rnd]
  have n: "naddrs \<le> int (G * unat (l_npunit (dev_geo dev)))" using p tpunit_eq [OF geo(1,2)] by (simp add: G_def)
  have "(int i + arb) mod naddrs < naddrs" "0 \<le> (int i + arb) mod naddrs" using i by simp_all
  then have cur: "c < G * unat (l_npunit (dev_geo dev))" using n unfolding c_def by linarith
  moreover have "unat (l_pugrp (out ! i)) = c mod G \<and> unat (l_punit (out ! i)) = c div G
      \<and> l_sectr (out ! i) = 0 \<and> l_chunk (out ! i) < l_nchunk (dev_geo dev)
      \<and> (\<exists>wa wb buf rprt. be_rprt be dev (Some (set_l_chunk 0 (out ! i))) 0 NULL wa = (Inr (buf, rprt), wb)
          \<and> uint (descr_cs (rprt_descr rprt ! unat (l_chunk (out ! i)))) = cs)"
    unfolding G_def c_def using p i cur by (intro rprt_pick_facts geo(1,2,4)) (auto simp: G_def c_def)
  ultimately show ?thesis by blast
qed

text \<open>
  C27. \<open>nvm_cmd_rprt_arbs\<close>: when it succeeds, it has filled the first \<open>naddrs\<close> entries with chunks
  that a report of the device showed in the requested state, all on different parallel units inside
  the geometry, and has left the rest of the array alone; asking for more addresses than there are
  parallel units, or a negative number, gives EINVAL.
\<close>

theorem rprt_arbs_correct:
  assumes "sys_rand sys w = (arb, w1)" "0 \<le> arb" "unat (l_npugrp (dev_geo dev)) \<le> 256"
    "unat (l_npunit (dev_geo dev)) \<le> 256" "l_nchunk (dev_geo dev) \<noteq> 0" "unat (l_nchunk (dev_geo dev)) \<le> 2 ^ 16"
  shows "(\<forall>out w'. nvm_cmd_rprt_arbs sys be dev cs naddrs addrs w = (Inr out, w') \<longrightarrow>
      length out = length addrs \<and> drop (nat naddrs) out = drop (nat naddrs) addrs
      \<and> (\<forall>i < nat naddrs. l_pugrp (out ! i) < l_npugrp (dev_geo dev) \<and> l_punit (out ! i) < l_npunit (dev_geo dev)
          \<and> l_chunk (out ! i) < l_nchunk (dev_geo dev) \<and> l_sectr (out ! i) = 0
          \<and> (\<exists>wa wb buf rprt. be_rprt be dev (Some (set_l_chunk 0 (out ! i))) 0 NULL wa = (Inr (buf, rprt), wb)
              \<and> uint (descr_cs (rprt_descr rprt ! unat (l_chunk (out ! i)))) = cs))
      \<and> (\<forall>i < nat naddrs. \<forall>j < nat naddrs. i \<noteq> j \<longrightarrow>
          l_pugrp (out ! i) \<noteq> l_pugrp (out ! j) \<or> l_punit (out ! i) \<noteq> l_punit (out ! j)))
    \<and> (naddrs < 0 \<or> naddrs > int (unat (l_npugrp (dev_geo dev)) * unat (l_npunit (dev_geo dev))) \<longrightarrow>
        nvm_cmd_rprt_arbs sys be dev cs naddrs addrs w = (Inl (Errno EINVAL), w1))"
proof (rule conjI; intro allI impI)
  fix out w' assume ok: "nvm_cmd_rprt_arbs sys be dev cs naddrs addrs w = (Inr out, w')"
  let ?G = "unat (l_npugrp (dev_geo dev))" and ?U = "unat (l_npunit (dev_geo dev))"
  let ?cur = "\<lambda>i. nat ((int i + arb) mod naddrs)"
  note p = rprt_arbs_picks [OF ok assms(5,1)] and facts = rprt_arbs_facts [OF ok assms(1,3-6)]
  have "l_pugrp (out ! i) < l_npugrp (dev_geo dev)" "l_punit (out ! i) < l_npunit (dev_geo dev)"
    if "i < nat naddrs" for i
  proof -
    have "?G \<noteq> 0" using facts [OF that] by (metis mult_0 not_less_zero)
    then show "l_pugrp (out ! i) < l_npugrp (dev_geo dev)" "l_punit (out ! i) < l_npunit (dev_geo dev)"
      using facts [OF that]
      by (simp_all add: word_less_nat_alt less_mult_imp_div_less mult.commute)
  qed
  moreover have "l_pugrp (out ! i) \<noteq> l_pugrp (out ! j) \<or> l_punit (out ! i) \<noteq> l_punit (out ! j)"
    if "i < nat naddrs" "j < nat naddrs" "i \<noteq> j" for i j
  proof (rule ccontr)
    assume "\<not> ?thesis"
    then have "?cur i mod ?G = ?cur j mod ?G" "?cur i div ?G = ?cur j div ?G"
      using facts [OF that(1)] facts [OF that(2)] by metis+
    then have "?cur i = ?cur j" by (metis div_mult_mod_eq)
    with arbs_cur_inj [of i "nat naddrs" j arb] that assms(2) p show False by simp
  qed
  moreover have "drop (nat naddrs) out = drop (nat naddrs) addrs"
    using p by (intro nth_equalityI) auto
  ultimately show "length out = length addrs \<and> drop (nat naddrs) out = drop (nat naddrs) addrs
      \<and> (\<forall>i < nat naddrs. l_pugrp (out ! i) < l_npugrp (dev_geo dev) \<and> l_punit (out ! i) < l_npunit (dev_geo dev)
          \<and> l_chunk (out ! i) < l_nchunk (dev_geo dev) \<and> l_sectr (out ! i) = 0
          \<and> (\<exists>wa wb buf rprt. be_rprt be dev (Some (set_l_chunk 0 (out ! i))) 0 NULL wa = (Inr (buf, rprt), wb)
              \<and> uint (descr_cs (rprt_descr rprt ! unat (l_chunk (out ! i)))) = cs))
      \<and> (\<forall>i < nat naddrs. \<forall>j < nat naddrs. i \<noteq> j \<longrightarrow>
          l_pugrp (out ! i) \<noteq> l_pugrp (out ! j) \<or> l_punit (out ! i) \<noteq> l_punit (out ! j))"
    using p facts by blast
next
  assume "naddrs < 0 \<or> naddrs > int (unat (l_npugrp (dev_geo dev)) * unat (l_npunit (dev_geo dev)))"
  then show "nvm_cmd_rprt_arbs sys be dev cs naddrs addrs w = (Inl (Errno EINVAL), w1)"
    using assms(1) tpunit_eq [OF assms(3,4)] by (auto simp: nvm_cmd_rprt_arbs_def Let_def fail_def)
qed


definition ex_rprt :: nvm_spec_rprt where
  "ex_rprt = \<lparr>rprt_ndescr = 1474, rprt_descr = replicate 1474
     \<lparr>descr_cs = 1, descr_ct = 1, descr_wli = 0, descr_addr = 0, descr_naddrs = 6144, descr_wp = 0\<rparr>\<rparr>"

definition ex_be_rprt :: "ptr list nvm_be" where
  "ex_be_rprt = (nvm_be_disabled NVM_BE_SPDK ''NVM_BE_SPDK'')\<lparr>
     be_rprt := (\<lambda>dev addr opt ret. andThen ex_alloc (\<lambda>p. ok (p, ex_rprt)))\<rparr>"

lemma ex_rprt_scan: "rprt_scan ex_rprt 1 7 [0..<unat (rprt_ndescr ex_rprt)] = Inr (Some 7)"
proof -
  have "unat (rprt_ndescr ex_rprt) = 1474" "length (rprt_descr ex_rprt) = 1474"
    "uint (descr_cs (rprt_descr ex_rprt ! 7)) = 1"
    by (simp_all add: ex_rprt_def)
  moreover have "[0..<1474] = 0 # [1..<1474]"
    by (simp add: upt_rec [of 0])
  ultimately show ?thesis
    by (simp del: upt.simps)
qed

theorem rprt_arbs_correct_witness:
  "\<exists>out w'. nvm_cmd_rprt_arbs ex_sys ex_be_rprt ex_dev_s20 1 1 [NvmAddr 0, NvmAddr 5] [] = (Inr out, w')
     \<and> length out = 2 \<and> l_chunk (out ! 0) < 1474 \<and> out ! 1 = NvmAddr 5"
proof -
  have d: "l_npugrp (dev_geo ex_dev_s20) = 8" "l_npunit (dev_geo ex_dev_s20) = 4" "l_nchunk (dev_geo ex_dev_s20) = 1474"
    "dev_be ex_dev_s20 = Some 4"
    by (simp_all add: ex_dev_s20_def)
  have r: "nvm_cmd_rprt ex_be_rprt ex_dev_s20 (Some a) 0 NULL [] = (Inr (0x1000, ex_rprt), [0x1000])" for a
    by (simp add: nvm_cmd_rprt_def ex_be_rprt_def andThen_def ex_alloc_def ex_slots_def ok_def)
  have "rprt_arbs_step ex_sys ex_be_rprt ex_dev_s20 1 1 7 0 [NvmAddr 0, NvmAddr 5] []
      = (Inr [set_l_chunk 7 (rprt_arbs_addr (dev_geo ex_dev_s20) 0), NvmAddr 5], [])"
    using ex_rprt_scan
    by (simp add: rprt_arbs_step_def Let_def d r andThen_def nvm_buf_free_def upd_def ex_sys_def ok_def)
      (simp add: ex_rprt_def)
  then have o: "nvm_cmd_rprt_arbs ex_sys ex_be_rprt ex_dev_s20 1 1 [NvmAddr 0, NvmAddr 5] []
      = (Inr [set_l_chunk 7 (rprt_arbs_addr (dev_geo ex_dev_s20) 0), NvmAddr 5], [])"
    by (simp add: nvm_cmd_rprt_arbs_def Let_def d andThen_def ok_def ex_sys_def)
  have "sys_rand ex_sys [] = (7, [])" by (simp add: ex_sys_def)
  from rprt_arbs_correct [OF this, where dev = ex_dev_s20 and be = ex_be_rprt and cs = 1 and naddrs = 1
      and addrs = "[NvmAddr 0, NvmAddr 5]"] o d
  show ?thesis by auto
qed

end
