(* ===== verification/Nvm_Wrap.thy ===== *)
theory Nvm_Wrap
  imports Nvm_Cmd
begin

text \<open>
  Correctness of the submission entries of \<open>src/nvm_cmd.c\<close> (modelled in \<open>Nvm_Cmd\<close>): who owns the
  memory of an entry, on the error paths too; what the entry and its address lists say; what a
  completion reports.
\<close>

section \<open>Submission entries: ownership of memory\<close>

definition wrap_ptrs :: "nvm_cmd_wrap \<Rightarrow> ptr set" where
  "wrap_ptrs wrap = {wrap_self wrap, wrap_dsmr_dma wrap, wrap_addrs_dma wrap, wrap_dst_dma wrap} - {0}"

definition wrap_owns :: "nvm_dev \<Rightarrow> ptr set \<Rightarrow> ptr set \<Rightarrow> nvm_cmd_wrap \<Rightarrow> bool" where
  "wrap_owns dev L L' wrap \<longleftrightarrow> wrap_dev wrap = dev \<and> 0 \<notin> L \<and> wrap_ptrs wrap \<inter> L = {} \<and> L' = L \<union> wrap_ptrs wrap"

lemma owned_minus: "(L \<union> (S - {0})) - S = L" if "(S - {0}) \<inter> L = {}" "0 \<notin> L" for S L :: "ptr set"
  using that by blast

lemma wrap_term_owns:
  assumes "alloc_ok sys live" "be_known dev" "wrap_owns dev L (live w) wrap"
  shows "\<exists>w'. nvm_cmd_wrap_term sys wrap w = (Inr (), w') \<and> live w' = L"
proof -
  let ?ps = "[wrap_dsmr_dma wrap, wrap_addrs_dma wrap, wrap_dst_dma wrap]"
  have "nvm_cmd_wrap_term sys wrap = andThen (each_op (nvm_buf_free sys dev) ?ps) (\<lambda>_. upd (sys_free sys (wrap_self wrap)))"
    using assms(3) by (simp add: nvm_cmd_wrap_term_def wrap_owns_def andThen_assoc)
  moreover obtain w1 where "each_op (nvm_buf_free sys dev) ?ps w = (Inr (), w1)" "live w1 = live w - set ?ps"
    using bp.release_list [of "(sys, dev, live)" ?ps w] assms(1,2) by auto
  ultimately have "nvm_cmd_wrap_term sys wrap w = (Inr (), sys_free sys (wrap_self wrap) w1)
      \<and> live (sys_free sys (wrap_self wrap) w1) = live w - {wrap_self wrap, wrap_dsmr_dma wrap, wrap_addrs_dma wrap, wrap_dst_dma wrap}"
    using assms(1) by (auto simp: andThen_def upd_def alloc_ok_def)
  moreover have "live w - {wrap_self wrap, wrap_dsmr_dma wrap, wrap_addrs_dma wrap, wrap_dst_dma wrap} = L"
    using assms(3) owned_minus [of "{wrap_self wrap, wrap_dsmr_dma wrap, wrap_addrs_dma wrap, wrap_dst_dma wrap}" L]
    unfolding wrap_owns_def wrap_ptrs_def by simp
  ultimately show ?thesis by auto
qed

lemma on_error_term:
  assumes "alloc_ok sys live" "be_known dev" "wrap_owns dev L (live w) wrap"
    and "on_error m (nvm_cmd_wrap_term sys wrap) w = (Inl (Errno e), w')"
    and "\<And>x w1. m w = (Inl (Errno x), w1) \<Longrightarrow> live w1 = live w"
  shows "live w' = L"
proof -
  obtain x w1 where m: "m w = (Inl (Errno x), w1)"
    using assms(4) by (auto simp: on_error_def split: prod.splits sum.splits failure.splits)
  then have "wrap_owns dev L (live w1) wrap" using assms(3,5) by simp
  from wrap_term_owns [OF assms(1,2) this] m assms(4) show ?thesis
    by (auto simp: on_error_def)
qed

lemma vtophys_world: "nvm_buf_vtophys sys dev buf w = (r, w') \<Longrightarrow> w' = w"
  by (auto simp: nvm_buf_vtophys_def Let_def fail_def ok_def split: option.splits if_splits)

lemma vtophys_unchecked_world:
  "vtophys_unchecked sys dev buf w = (r, w') \<Longrightarrow> w' = w \<and> (\<forall>e. r \<noteq> Inl (Errno e))"
  by (auto simp: vtophys_unchecked_def split: prod.splits sum.splits failure.splits errno.splits dest: vtophys_world)

definition same_ptrs :: "nvm_cmd_wrap \<Rightarrow> nvm_cmd_wrap \<Rightarrow> bool" where
  "same_ptrs a b \<longleftrightarrow> wrap_dev a = wrap_dev b \<and> wrap_self a = wrap_self b \<and> wrap_dsmr_dma a = wrap_dsmr_dma b
     \<and> wrap_addrs_dma a = wrap_addrs_dma b \<and> wrap_dst_dma a = wrap_dst_dma b"

lemma setup_sgl_data_keeps:
  assumes "setup_sgl_data sys wrap sgl w = (r, w')"
  shows "w' = w \<and> (\<forall>e. r \<noteq> Inl (Errno e)) \<and> (\<forall>x. r = Inr x \<longrightarrow> same_ptrs x wrap)"
  using assms
  by (auto simp: setup_sgl_data_def Let_def andThen_def ok_def fail_def same_ptrs_def wrap_ptrs_def
      split: if_splits prod.splits sum.splits dest!: vtophys_unchecked_world)

lemma setup_sgl_meta_keeps:
  assumes "setup_sgl_meta sys wrap sgl w = (r, w')"
  shows "w' = w \<and> (\<forall>e. r \<noteq> Inl (Errno e)) \<and> (\<forall>x. r = Inr x \<longrightarrow> same_ptrs x wrap)"
  using assms
  by (auto simp: setup_sgl_meta_def Let_def andThen_def ok_def fail_def same_ptrs_def wrap_ptrs_def
      split: if_splits prod.splits sum.splits dest!: vtophys_unchecked_world)

lemma setup_sgl_keeps:
  assumes "cmd_wrap_setup_sgl sys wrap dsgl msgl flags w = (r, w')"
  shows "w' = w \<and> (\<forall>e. r \<noteq> Inl (Errno e)) \<and> (\<forall>x. r = Inr x \<longrightarrow> same_ptrs x wrap)"
proof -
  consider "flags AND NVM_CMD_SGL = 0" | "flags AND NVM_CMD_SGL \<noteq> 0" "dsgl = None"
    | sgl where "flags AND NVM_CMD_SGL \<noteq> 0" "dsgl = Some sgl" by fastforce
  then show ?thesis
  proof cases
    case 3
    obtain r1 w1 where d: "setup_sgl_data sys wrap sgl w = (r1, w1)" by fastforce
    note k = setup_sgl_data_keeps [OF d]
    with 3 d assms show ?thesis
      by (auto simp: cmd_wrap_setup_sgl_def andThen_def ok_def fail_def same_ptrs_def
          split: sum.splits if_splits option.splits dest!: setup_sgl_meta_keeps)
  qed (use assms in \<open>auto simp: cmd_wrap_setup_sgl_def ok_def fail_def same_ptrs_def\<close>)
qed


lemma same_ptrs_owns: "same_ptrs x wrap \<Longrightarrow> wrap_owns dev L L' wrap \<Longrightarrow> wrap_owns dev L L' x"
  by (simp add: same_ptrs_def wrap_owns_def wrap_ptrs_def)

text \<open>What a step of the setup promises: it keeps the ownership, or fails with everything released.\<close>

definition wrap_step_ok :: "nvm_dev \<Rightarrow> ('w \<Rightarrow> ptr set) \<Rightarrow> ptr set \<Rightarrow> nvm_cmd_wrap res \<times> 'w \<Rightarrow> bool" where
  "wrap_step_ok dev live L rw \<longleftrightarrow> (case rw of
       (Inr x, w') \<Rightarrow> wrap_owns dev L (live w') x
     | (Inl (Errno e), w') \<Rightarrow> live w' = L
     | (Inl (Fault f), w') \<Rightarrow> True)"

lemma wrap_step_andThen:
  assumes "wrap_step_ok dev live L (m w)"
    "\<And>x w1. m w = (Inr x, w1) \<Longrightarrow> wrap_owns dev L (live w1) x \<Longrightarrow> wrap_step_ok dev live L (f x w1)"
  shows "wrap_step_ok dev live L (andThen m f w)"
  using assms by (auto simp: wrap_step_ok_def andThen_def split: prod.splits sum.splits failure.splits)

lemma list_step:
  assumes "alloc_ok sys live" "be_known dev" "wrap_owns dev L (live w) wrap"
    and ok: "\<And>p ds x w1. wrap_setup_list sys wrap as naddrs w = (Inr (p, ds, x), w1) \<Longrightarrow>
      (p = 0 \<and> w1 = w \<or> p \<noteq> 0 \<and> p \<notin> live w \<and> live w1 = insert p (live w)) \<Longrightarrow> wrap_step_ok dev live L (f (p, ds, x) w1)"
  shows "wrap_step_ok dev live L (andThen (on_error (wrap_setup_list sys wrap as naddrs) (nvm_cmd_wrap_term sys wrap)) f w)"
proof -
  have d: "wrap_dev wrap = dev" using assms(3) by (simp add: wrap_owns_def)
  have "be_known (wrap_dev wrap)" using d assms(2) by simp
  note al = nvm_buf_alloc_allocates [OF assms(1) this]
  have new: "p = 0 \<and> w1 = w \<or> p \<noteq> 0 \<and> p \<notin> live w \<and> live w1 = insert p (live w)"
    if "wrap_setup_list sys wrap as naddrs w = (Inr (p, ds, x), w1)" for p ds x w1
  proof (cases "naddrs > 1")
    case True
    with that obtain ph where "nvm_buf_alloc sys (wrap_dev wrap) (wrap_addrs_len wrap) 0 w = (Inr (p, ph), w1)"
      by (auto simp: wrap_setup_list_def Let_def andThen_Inr ok_def lift_res_def)
    from allocatesD(1) [OF al this] show ?thesis by simp
  qed (use that in \<open>auto simp: wrap_setup_list_def Let_def andThen_Inr ok_def lift_res_def\<close>)
  have fl: "live w1 = live w" if "wrap_setup_list sys wrap as naddrs w = (Inl (Errno e), w1)" for e w1
  proof (cases "naddrs > 1")
    case True
    with that have "nvm_buf_alloc sys (wrap_dev wrap) (wrap_addrs_len wrap) 0 w = (Inl (Errno e), w1)"
      by (auto simp: wrap_setup_list_def Let_def andThen_Inl ok_def lift_res_def arg_addrs_def split: if_splits)
    from allocatesD(2) [OF al this] show ?thesis by simp
  qed (use that in \<open>auto simp: wrap_setup_list_def Let_def andThen_Inl ok_def lift_res_def arg_addr0_def split: list.splits\<close>)
  obtain r w1 where m: "on_error (wrap_setup_list sys wrap as naddrs) (nvm_cmd_wrap_term sys wrap) w = (r, w1)" by fastforce
  show ?thesis
  proof (cases r)
    case (Inr y)
    obtain p ds x where y: "y = (p, ds, x)" by (cases y)
    with m Inr have l: "wrap_setup_list sys wrap as naddrs w = (Inr (p, ds, x), w1)" by (simp add: on_error_Inr)
    with ok [OF l new [OF l]] m Inr y show ?thesis by (simp add: andThen_def)
  next
    case (Inl e)
    show ?thesis
    proof (cases e)
      case (Errno x)
      with on_error_term [OF assms(1-3)] m Inl fl have "live w1 = L" by blast
      with m Inl Errno show ?thesis by (simp add: andThen_def wrap_step_ok_def)
    qed (use m Inl in \<open>simp add: andThen_def wrap_step_ok_def\<close>)
  qed
qed

lemma owns_extend:
  assumes "wrap_owns dev L L1 wrap" "wrap_dev x = dev" "wrap_ptrs x = wrap_ptrs wrap \<union> ({p} - {0})"
    "p = 0 \<and> L2 = L1 \<or> p \<noteq> 0 \<and> p \<notin> L1 \<and> L2 = insert p L1"
  shows "wrap_owns dev L L2 x"
  using assms unfolding wrap_owns_def by blast

lemma wrap_ptrs_extend:
  "wrap_addrs_dma wrap = 0 \<Longrightarrow> wrap_ptrs (wrap\<lparr>wrap_addrs_dma := p\<rparr>) = wrap_ptrs wrap \<union> ({p} - {0})"
  "wrap_dst_dma wrap = 0 \<Longrightarrow> wrap_ptrs (wrap\<lparr>wrap_dst_dma := p\<rparr>) = wrap_ptrs wrap \<union> ({p} - {0})"
  "wrap_dsmr_dma wrap = 0 \<Longrightarrow> wrap_ptrs (wrap\<lparr>wrap_dsmr_dma := p\<rparr>) = wrap_ptrs wrap \<union> ({p} - {0})"
  by (simp_all add: wrap_ptrs_def insert_Diff_if insert_commute)

lemma wrap_ptrs_other [simp]:
  "wrap_ptrs (wrap\<lparr>wrap_addrs := a\<rparr>) = wrap_ptrs wrap" "wrap_ptrs (wrap\<lparr>wrap_cmd := c\<rparr>) = wrap_ptrs wrap"
  "wrap_ptrs (wrap\<lparr>wrap_dst := a\<rparr>) = wrap_ptrs wrap" "wrap_ptrs (wrap\<lparr>wrap_dsmr := d\<rparr>) = wrap_ptrs wrap"
  "wrap_ptrs (wrap\<lparr>wrap_data := b\<rparr>) = wrap_ptrs wrap" "wrap_ptrs (wrap\<lparr>wrap_data_len := n\<rparr>) = wrap_ptrs wrap"
  "wrap_ptrs (wrap\<lparr>wrap_meta_len := n\<rparr>) = wrap_ptrs wrap" "wrap_ptrs (wrap\<lparr>wrap_dsmr_len := n\<rparr>) = wrap_ptrs wrap"
  by (simp_all add: wrap_ptrs_def)

lemma vector_step:
  assumes "alloc_ok sys live" "be_known dev" "wrap_owns dev L (live w) wrap"
    "wrap_addrs_dma wrap = 0" "wrap_dst_dma wrap = 0"
  shows "wrap_step_ok dev live L (wrap_setup_vector sys wrap addrs dst naddrs w)"
  unfolding wrap_setup_vector_def
proof (rule list_step [OF assms(1-3)])
  fix p ds x w1 assume new: "p = 0 \<and> w1 = w \<or> p \<noteq> 0 \<and> p \<notin> live w \<and> live w1 = insert p (live w)"
  let ?w = "wrap\<lparr>wrap_addrs_dma := p, wrap_addrs := ds, wrap_cmd := (wrap_cmd wrap)\<lparr>cmd_addrs := x\<rparr>\<rparr>"
  have o: "wrap_owns dev L (live w1) ?w"
  proof (rule owns_extend [OF assms(3)])
    show "wrap_dev ?w = dev" using assms(3) by (simp add: wrap_owns_def)
    show "wrap_ptrs ?w = wrap_ptrs wrap \<union> ({p} - {0})" using assms(4) by (simp add: wrap_ptrs_extend)
    show "p = 0 \<and> live w1 = live w \<or> p \<noteq> 0 \<and> p \<notin> live w \<and> live w1 = insert p (live w)" using new by blast
  qed
  show "wrap_step_ok dev live L ((case (p, ds, x) of (p, ds, slba) \<Rightarrow>
      let wrap = wrap\<lparr>wrap_addrs_dma := p, wrap_addrs := ds, wrap_cmd := (wrap_cmd wrap)\<lparr>cmd_addrs := slba\<rparr>\<rparr>
      in case dst of None \<Rightarrow> ok wrap
         | Some dst \<Rightarrow> andThen (on_error (wrap_setup_list sys wrap dst naddrs) (nvm_cmd_wrap_term sys wrap)) (\<lambda>(p, ds, dlba).
             ok (wrap\<lparr>wrap_dst_dma := p, wrap_dst := ds, wrap_cmd := (wrap_cmd wrap)\<lparr>cmd_addrs_dst := dlba\<rparr>\<rparr>))) w1)"
  proof (cases dst)
    case None
    with o show ?thesis by (simp add: ok_def wrap_step_ok_def)
  next
    case (Some dst')
    have "wrap_step_ok dev live L (andThen (on_error (wrap_setup_list sys ?w dst' naddrs) (nvm_cmd_wrap_term sys ?w)) (\<lambda>(p, ds, dlba).
             ok (?w\<lparr>wrap_dst_dma := p, wrap_dst := ds, wrap_cmd := (wrap_cmd ?w)\<lparr>cmd_addrs_dst := dlba\<rparr>\<rparr>)) w1)"
    proof (rule list_step [OF assms(1,2) o])
      fix q ds' y w2 assume new2: "q = 0 \<and> w2 = w1 \<or> q \<noteq> 0 \<and> q \<notin> live w1 \<and> live w2 = insert q (live w1)"
      let ?w2 = "?w\<lparr>wrap_dst_dma := q, wrap_dst := ds', wrap_cmd := (wrap_cmd ?w)\<lparr>cmd_addrs_dst := y\<rparr>\<rparr>"
      have "wrap_owns dev L (live w2) ?w2"
      proof (rule owns_extend [OF o])
        show "wrap_dev ?w2 = dev" using assms(3) by (simp add: wrap_owns_def)
        have "wrap_ptrs ?w2 = wrap_ptrs (?w\<lparr>wrap_dst_dma := q\<rparr>)" by (simp add: wrap_ptrs_def)
        also have "\<dots> = wrap_ptrs ?w \<union> ({q} - {0})" using assms(5) by (intro wrap_ptrs_extend) simp
        finally show "wrap_ptrs ?w2 = wrap_ptrs ?w \<union> ({q} - {0})" .
        show "q = 0 \<and> live w2 = live w1 \<or> q \<noteq> 0 \<and> q \<notin> live w1 \<and> live w2 = insert q (live w1)" using new2 by blast
      qed
      then show "wrap_step_ok dev live L ((case (q, ds', y) of (p, ds, dlba) \<Rightarrow>
             ok (?w\<lparr>wrap_dst_dma := p, wrap_dst := ds, wrap_cmd := (wrap_cmd ?w)\<lparr>cmd_addrs_dst := dlba\<rparr>\<rparr>)) w2)"
        by (simp add: ok_def wrap_step_ok_def)
    qed
    with Some show ?thesis by (simp add: Let_def)
  qed
qed


lemma scalar_erase_step:
  assumes "alloc_ok sys live" "be_known dev" "wrap_owns dev L (live w) wrap" "wrap_dsmr_dma wrap = 0"
  shows "wrap_step_ok dev live L (wrap_setup_scalar_erase sys wrap addrs naddrs w)"
proof -
  let ?w = "wrap\<lparr>wrap_dsmr_len := 16 * word_of_int naddrs\<rparr>"
  have d: "wrap_dev wrap = dev" using assms(3) by (simp add: wrap_owns_def)
  have o: "wrap_owns dev L (live w) ?w"
    using assms(3) by (simp add: wrap_owns_def)
  note al = nvm_buf_alloc_allocates [OF assms(1,2), of "16 * word_of_int naddrs" 0]
  obtain r w1 where m: "on_error (nvm_buf_alloc sys dev (16 * word_of_int naddrs) 0) (nvm_cmd_wrap_term sys ?w) w = (r, w1)"
    by fastforce
  show ?thesis
  proof (cases r)
    case (Inl e)
    show ?thesis
    proof (cases e)
      case (Errno x)
      have "live w1 = L"
        by (rule on_error_term [OF assms(1,2) o m [unfolded Inl Errno]]) (use allocatesD(2) [OF al] in blast)
      with m Inl Errno d show ?thesis by (simp add: wrap_setup_scalar_erase_def Let_def andThen_def wrap_step_ok_def)
    qed (use m Inl d in \<open>simp add: wrap_setup_scalar_erase_def Let_def andThen_def wrap_step_ok_def\<close>)
  next
    case (Inr q)
    obtain p ph where q: "q = (p, ph)" by fastforce
    with m Inr have "nvm_buf_alloc sys dev (16 * word_of_int naddrs) 0 w = (Inr (p, ph), w1)" by (simp add: on_error_Inr)
    from allocatesD(1) [OF al this] have new: "p \<noteq> 0 \<and> p \<notin> live w \<and> live w1 = insert p (live w)" by simp
    have "wrap_owns dev L (live w1) (wrap\<lparr>wrap_dsmr_len := n, wrap_dsmr_dma := p, wrap_data := b, wrap_data_len := k,
        wrap_dsmr := ds, wrap_cmd := c\<rparr>)" (is "wrap_owns _ _ _ ?x") for n b k ds c
    proof (rule owns_extend [OF assms(3)])
      show "wrap_dev ?x = dev" using d by simp
      have "wrap_ptrs ?x = wrap_ptrs (wrap\<lparr>wrap_dsmr_dma := p\<rparr>)" by (simp add: wrap_ptrs_def)
      then show "wrap_ptrs ?x = wrap_ptrs wrap \<union> ({p} - {0})" using assms(4) by (simp only: wrap_ptrs_extend(3))
      show "p = 0 \<and> live w1 = live w \<or> p \<noteq> 0 \<and> p \<notin> live w \<and> live w1 = insert p (live w)" using new by blast
    qed
    with m Inr q d show ?thesis
      by (auto simp: wrap_setup_scalar_erase_def Let_def andThen_def wrap_step_ok_def lift_res_def ok_def arg_addrs_def)
  qed
qed

lemma wrap_setup_len_keeps:
  assumes "wrap_setup_len wrap opcode data meta naddrs flags = Inr x"
  shows "same_ptrs x wrap"
  using assms by (auto simp: wrap_setup_len_def Let_def same_ptrs_def split: if_splits)


lemma erase_meta_keeps:
  assumes "wrap_setup_erase_meta sys wrap opcode meta naddrs w = (r, w')"
  shows "w' = w \<and> (\<forall>x. r = Inr x \<longrightarrow> same_ptrs x wrap)"
  using assms by (auto simp: wrap_setup_erase_meta_def andThen_def ok_def same_ptrs_def
      split: if_splits prod.splits sum.splits dest!: vtophys_world)

lemma on_error_step:
  assumes "alloc_ok sys live" "be_known dev" "wrap_owns dev L (live w) wrap"
    and fl: "\<And>x w1. m w = (Inl (Errno x), w1) \<Longrightarrow> live w1 = live w"
    and nw: "\<And>x w1. m w = (Inr x, w1) \<Longrightarrow> w1 = w \<and> same_ptrs x wrap"
  shows "wrap_step_ok dev live L (on_error m (nvm_cmd_wrap_term sys wrap) w)"
proof -
  obtain r w1 where m: "on_error m (nvm_cmd_wrap_term sys wrap) w = (r, w1)" by fastforce
  show ?thesis
  proof (cases r)
    case (Inr x)
    with m have "m w = (Inr x, w1)" by (simp add: on_error_Inr)
    with nw [OF this] same_ptrs_owns assms(3) have "wrap_owns dev L (live w1) x" by blast
    with m Inr show ?thesis by (simp add: wrap_step_ok_def)
  next
    case (Inl e)
    show ?thesis
    proof (cases e)
      case (Errno x)
      with on_error_term [OF assms(1-3) m [unfolded Inl Errno] fl] m Inl show ?thesis by (simp add: wrap_step_ok_def)
    qed (use m Inl in \<open>simp add: wrap_step_ok_def\<close>)
  qed
qed

text \<open>The steps between the allocation of the entry and its addresses keep the ownership.\<close>

lemma setup_steps_ok:
  assumes "alloc_ok sys live" "be_known dev" "wrap_owns dev L (live w1) x0"
    and rest: "\<And>x w2. wrap_owns dev L (live w2) x \<Longrightarrow> same_ptrs x x0 \<Longrightarrow> wrap_step_ok dev live L (rest x w2)"
  shows "wrap_step_ok dev live L (andThen (on_error (lift_res (wrap_setup_len x0 opcode data meta naddrs flags)) (nvm_cmd_wrap_term sys x0)) (\<lambda>x.
       andThen (on_error (wrap_setup_erase_meta sys x opcode meta naddrs) (nvm_cmd_wrap_term sys x)) (\<lambda>x.
       andThen (cmd_wrap_setup_sgl sys x dsgl msgl flags) rest)) w1)"
proof (rule wrap_step_andThen)
  show "wrap_step_ok dev live L (on_error (lift_res (wrap_setup_len x0 opcode data meta naddrs flags)) (nvm_cmd_wrap_term sys x0) w1)"
    by (rule on_error_step [OF assms(1-3)]) (auto simp: lift_res_def dest: wrap_setup_len_keeps)
  fix x w2 assume x: "on_error (lift_res (wrap_setup_len x0 opcode data meta naddrs flags)) (nvm_cmd_wrap_term sys x0) w1 = (Inr x, w2)"
    "wrap_owns dev L (live w2) x"
  then have sx: "same_ptrs x x0" by (auto simp: on_error_Inr lift_res_def dest: wrap_setup_len_keeps)
  show "wrap_step_ok dev live L (andThen (on_error (wrap_setup_erase_meta sys x opcode meta naddrs) (nvm_cmd_wrap_term sys x)) (\<lambda>x.
     andThen (cmd_wrap_setup_sgl sys x dsgl msgl flags) rest) w2)"
  proof (rule wrap_step_andThen)
    show "wrap_step_ok dev live L (on_error (wrap_setup_erase_meta sys x opcode meta naddrs) (nvm_cmd_wrap_term sys x) w2)"
      by (rule on_error_step [OF assms(1,2) x(2)]) (auto dest: erase_meta_keeps)
    fix y w3 assume y: "on_error (wrap_setup_erase_meta sys x opcode meta naddrs) (nvm_cmd_wrap_term sys x) w2 = (Inr y, w3)"
      "wrap_owns dev L (live w3) y"
    then have sy: "same_ptrs y x" by (auto simp: on_error_Inr dest: erase_meta_keeps)
    show "wrap_step_ok dev live L (andThen (cmd_wrap_setup_sgl sys y dsgl msgl flags) rest w3)"
    proof (rule wrap_step_andThen)
      obtain r4 w4 where s: "cmd_wrap_setup_sgl sys y dsgl msgl flags w3 = (r4, w4)" by fastforce
      from setup_sgl_keeps [OF s] y(2) same_ptrs_owns [OF _ y(2)] s
      show "wrap_step_ok dev live L (cmd_wrap_setup_sgl sys y dsgl msgl flags w3)"
        by (auto simp: wrap_step_ok_def split: sum.splits failure.splits)
      fix z w5 assume z: "cmd_wrap_setup_sgl sys y dsgl msgl flags w3 = (Inr z, w5)" "wrap_owns dev L (live w5) z"
      with setup_sgl_keeps [OF z(1)] sx sy have "same_ptrs z x0" by (auto simp: same_ptrs_def)
      with rest z(2) show "wrap_step_ok dev live L (rest z w5)" by blast
    qed
  qed
qed

lemma wrap_setup_owns:
  assumes "alloc_ok sys live" "be_known dev" "0 \<notin> live w"
  shows "wrap_step_ok dev live (live w) (nvm_cmd_wrap_setup sys dev opcode data meta dsgl msgl addrs dst naddrs flags ret w)"
proof -
  let ?L = "live w"
  obtain r w1 where c: "sys_calloc sys 1 184 w = (r, w1)" by fastforce
  have al: "allocates live id (sys_calloc sys 1 184)" using assms(1) by (simp add: alloc_ok_def)
  show ?thesis
  proof (cases r)
    case (Inl e)
    with c allocatesD(2) [OF al] obtain x where "e = Errno x" "live w1 = live w" by blast
    with c Inl show ?thesis by (simp add: nvm_cmd_wrap_setup_def andThen_def wrap_step_ok_def)
  next
    case (Inr self)
    let ?w0 = "wrap_init self dev opcode data meta naddrs ret"
    have o: "wrap_owns dev ?L (live w1) ?w0"
      using allocatesD(1) [OF al c [unfolded Inr]] assms(3) by (auto simp: wrap_owns_def wrap_ptrs_def wrap_init_def)
    have dma: "wrap_dsmr_dma ?w0 = 0" "wrap_addrs_dma ?w0 = 0" "wrap_dst_dma ?w0 = 0" by (simp_all add: wrap_init_def)
    let ?rest = "\<lambda>x. if opcode = NVM_DOPC_SCALAR_WRITE \<or> opcode = NVM_DOPC_SCALAR_READ then
         andThen (lift_res (arg_addr0 addrs)) (\<lambda>a. ok (x\<lparr>wrap_cmd := (wrap_cmd x)\<lparr>cmd_addrs := nvm_addr_gen2dev dev a\<rparr>\<rparr>))
       else wrap_setup_vector sys x addrs dst naddrs"
    have rest: "wrap_step_ok dev live ?L (?rest x w2)" if "wrap_owns dev ?L (live w2) x" "same_ptrs x ?w0" for x w2
      using that vector_step [OF assms(1,2) that(1)] dma
      by (auto simp: same_ptrs_def wrap_step_ok_def lift_res_def ok_def andThen_def arg_addr0_def wrap_owns_def split: list.splits)
    have "wrap_step_ok dev live ?L (andThen (on_error (lift_res (wrap_setup_len ?w0 opcode data meta naddrs flags)) (nvm_cmd_wrap_term sys ?w0)) (\<lambda>x.
       andThen (on_error (wrap_setup_erase_meta sys x opcode meta naddrs) (nvm_cmd_wrap_term sys x)) (\<lambda>x.
       andThen (cmd_wrap_setup_sgl sys x dsgl msgl flags) ?rest)) w1)"
      by (rule setup_steps_ok [OF assms(1,2) o rest])
    moreover have "wrap_step_ok dev live ?L (wrap_setup_scalar_erase sys ?w0 addrs naddrs w1)"
      by (rule scalar_erase_step [OF assms(1,2) o dma(1)])
    ultimately show ?thesis
      using c Inr by (cases "opcode = 9") (simp_all add: nvm_cmd_wrap_setup_def andThen_def Let_def)
  qed
qed


section \<open>Submission entries: contents\<close>

lemma bf_get_or: "bf_get off len (a OR b) = bf_get off len a OR bf_get off len b" for a :: "'a::len word"
  by (rule bit_word_eqI) (auto simp: bit_simps)

lemma bf_get_push_same:
  fixes x :: "'a::len word"
  assumes "unat x < 2 ^ len" "off + len \<le> LENGTH('a)"
  shows "bf_get off len (push_bit off x) = x"
proof (rule bit_word_eqI)
  fix n assume "n < LENGTH('a)"
  then show "bit (bf_get off len (push_bit off x)) n = bit x n"
    using assms(2) bit_lt_of_fits [OF assms(1), of n] by (auto simp: bit_simps)
qed

lemma bf_get_push_other:
  fixes x :: "'a::len word"
  assumes "unat x < 2 ^ len'" "off + len \<le> off' \<or> off' + len' \<le> off"
  shows "bf_get off len (push_bit off' x) = 0"
proof (rule bit_word_eqI)
  fix n assume "n < LENGTH('a)"
  then show "bit (bf_get off len (push_bit off' x)) n = bit 0 n"
    using assms(2) bit_lt_of_fits [OF assms(1), of "off + n - off'"] by (auto simp: bit_simps)
qed

lemma count_field:
  assumes "1 \<le> naddrs" "naddrs \<le> 2 ^ k" "k \<le> 16" "off + k \<le> 32"
  shows "unat (bf_get off k (bf_set off k (word_of_int (naddrs - 1)) x :: u32)) + 1 = nat naddrs"
proof -
  obtain m where m: "naddrs = int m + 1" using assms(1) by (metis add.commute nonneg_int_cases le_add_diff_inverse zle_iff_zadd)
  have "int m < 2 ^ k" using assms(2) m by linarith
  then have lt: "m < 2 ^ k" by (metis of_nat_less_iff of_nat_numeral of_nat_power)
  also have "(2 :: nat) ^ k \<le> 2 ^ 16" using assms(3) by (intro power_increasing) auto
  finally have "unat (of_nat m :: u32) = m" by (intro unat_of_nat_lt) simp
  then have "unat (take_bit k (of_nat m :: u32)) = m" using lt by (simp add: take_bit_id)
  then show ?thesis using m assms(4) by (simp add: bf_get_set_same)
qed

text \<open>
  How a command names addresses: a single one stands in its field; for more the field is the physical address that the
  allocation of the list returned, and the list behind the DMA pointer holds the addresses in the format of the device.
\<close>

definition carries :: "'w sys \<Rightarrow> nvm_dev \<Rightarrow> int \<Rightarrow> u64 \<Rightarrow> ptr \<Rightarrow> u64 list \<Rightarrow> nvm_addr list \<Rightarrow> bool" where
  "carries sys dev naddrs field dma lst addrs \<longleftrightarrow>
     (if naddrs = 1 then addrs \<noteq> [] \<and> nvm_addr_dev2gen dev field = hd addrs
      else (\<exists>w w'. nvm_buf_alloc sys dev (word_of_int naddrs * 8) 0 w = (Inr (dma, field), w'))
        \<and> nat naddrs \<le> length addrs \<and> map (nvm_addr_dev2gen dev) lst = take (nat naddrs) addrs)"

lemma setup_list_carries:
  assumes "wrap_setup_list sys wrap addrs naddrs w = (Inr (p, ds, field), w')" "1 \<le> naddrs"
    and "wf_fmt (wrap_dev wrap)" "\<forall>a \<in> set addrs. fits (wrap_dev wrap) a" "wrap_addrs_len wrap = word_of_int naddrs * 8"
  shows "carries sys (wrap_dev wrap) naddrs field p ds addrs"
proof (cases "naddrs = 1")
  case True
  then obtain a as where "addrs = a # as" "field = nvm_addr_gen2dev (wrap_dev wrap) a"
    using assms(1) by (auto simp: wrap_setup_list_def Let_def andThen_Inr lift_res_def ok_def arg_addr0_def split: list.splits)
  then show ?thesis using True assms(3,4) by (simp add: carries_def fmt.dec_enc)
next
  case False
  then obtain w1 where l: "nvm_buf_alloc sys (wrap_dev wrap) (wrap_addrs_len wrap) 0 w = (Inr (p, field), w1)" "nat naddrs \<le> length addrs"
    "ds = map (nvm_addr_gen2dev (wrap_dev wrap)) (take (nat naddrs) addrs)"
    using assms(1,2) by (auto simp: wrap_setup_list_def Let_def andThen_Inr lift_res_def ok_def arg_addrs_def split: if_splits)
  have "\<forall>a \<in> set (take (nat naddrs) addrs). fits (wrap_dev wrap) a" using assms(4) by (meson in_set_takeD)
  from fmt.map_dec_enc [OF assms(3) this] l False show ?thesis unfolding carries_def assms(5) by auto
qed

lemma wrap_vector_ok:
  assumes "wrap_setup_vector sys wrap addrs dst naddrs w = (Inr x, w')" "1 \<le> naddrs" "wf_fmt (wrap_dev wrap)"
    and "\<forall>a \<in> set addrs. fits (wrap_dev wrap) a" "\<forall>ds. dst = Some ds \<longrightarrow> (\<forall>a \<in> set ds. fits (wrap_dev wrap) a)"
    and "wrap_addrs_len wrap = word_of_int naddrs * 8"
  shows "carries sys (wrap_dev wrap) naddrs (cmd_addrs (wrap_cmd x)) (wrap_addrs_dma x) (wrap_addrs x) addrs"
    "\<forall>ds. dst = Some ds \<longrightarrow> carries sys (wrap_dev wrap) naddrs (cmd_addrs_dst (wrap_cmd x)) (wrap_dst_dma x) (wrap_dst x) ds"
    "cmd_cdw12 (wrap_cmd x) = cmd_cdw12 (wrap_cmd wrap)" "wrap_data_len x = wrap_data_len wrap"
proof -
  obtain p ds slba w1 where l: "wrap_setup_list sys wrap addrs naddrs w = (Inr (p, ds, slba), w1)"
    using assms(1) by (auto simp: wrap_setup_vector_def andThen_Inr on_error_Inr)
  note c = setup_list_carries [OF l assms(2-4,6)]
  let ?y = "wrap\<lparr>wrap_addrs_dma := p, wrap_addrs := ds, wrap_cmd := (wrap_cmd wrap)\<lparr>cmd_addrs := slba\<rparr>\<rparr>"
  consider "dst = None" "x = ?y"
    | ts q es dlba w2 where "dst = Some ts" "wrap_setup_list sys ?y ts naddrs w1 = (Inr (q, es, dlba), w2)"
      "x = ?y\<lparr>wrap_dst_dma := q, wrap_dst := es, wrap_cmd := (wrap_cmd ?y)\<lparr>cmd_addrs_dst := dlba\<rparr>\<rparr>"
    using assms(1) l by (cases dst) (auto simp: wrap_setup_vector_def andThen_Inr on_error_Inr Let_def ok_def)
  then have "carries sys (wrap_dev wrap) naddrs (cmd_addrs (wrap_cmd x)) (wrap_addrs_dma x) (wrap_addrs x) addrs
    \<and> (\<forall>ds. dst = Some ds \<longrightarrow> carries sys (wrap_dev wrap) naddrs (cmd_addrs_dst (wrap_cmd x)) (wrap_dst_dma x) (wrap_dst x) ds)
    \<and> cmd_cdw12 (wrap_cmd x) = cmd_cdw12 (wrap_cmd wrap) \<and> wrap_data_len x = wrap_data_len wrap"
  proof cases
    case 2
    from setup_list_carries [OF 2(2) assms(2)] assms(3,5,6) 2(1)
    have "carries sys (wrap_dev wrap) naddrs dlba q es ts" by simp
    then show ?thesis using 2 c by simp
  qed (use c in simp)
  then show "carries sys (wrap_dev wrap) naddrs (cmd_addrs (wrap_cmd x)) (wrap_addrs_dma x) (wrap_addrs x) addrs"
    "\<forall>ds. dst = Some ds \<longrightarrow> carries sys (wrap_dev wrap) naddrs (cmd_addrs_dst (wrap_cmd x)) (wrap_dst_dma x) (wrap_dst x) ds"
    "cmd_cdw12 (wrap_cmd x) = cmd_cdw12 (wrap_cmd wrap)" "wrap_data_len x = wrap_data_len wrap" by blast+
qed

section \<open>Properties\<close>

text \<open>
  C23. No leak in \<open>nvm_cmd_wrap_setup\<close>: whatever the allocators and the address translation answer,
  a failed setup has released everything it obtained; after a successful one exactly the
  entry and its DMA lists are live beyond what was, and \<open>nvm_cmd_wrap_term\<close> releases them all.
\<close>

theorem wrap_setup_no_leak:
  assumes "alloc_ok sys live" "be_known dev" "0 \<notin> live w"
    and "nvm_cmd_wrap_setup sys dev opcode data meta dsgl msgl addrs dst naddrs flags ret w = (r, w')"
  shows "(\<forall>e. r = Inl (Errno e) \<longrightarrow> live w' = live w)
    \<and> (\<forall>wrap. r = Inr wrap \<longrightarrow> live w' = live w \<union> wrap_ptrs wrap \<and> wrap_ptrs wrap \<inter> live w = {}
        \<and> (\<exists>w''. nvm_cmd_wrap_term sys wrap w' = (Inr (), w'') \<and> live w'' = live w))"
  using wrap_setup_owns [OF assms(1-3), of opcode data meta dsgl msgl addrs dst naddrs flags ret]
    wrap_term_owns [OF assms(1,2)] assms(4)
  by (auto simp: wrap_step_ok_def wrap_owns_def split: sum.splits failure.splits)

text \<open>A vector read of two addresses finds room for the entry but not for the address list.\<close>

theorem wrap_setup_no_leak_witness:
  "nvm_cmd_wrap_setup ex_sys ex_dev_s20 NVM_DOPC_VECTOR_READ 0x9000 0 None None [NvmAddr 0, NvmAddr 1] None 2 0 0
      [0x1000, 0x2000, 0x3000, 0x4000, 0x5000, 0x6000, 0x7000]
    = (Inl (Errno ENOMEM), [0x1000, 0x2000, 0x3000, 0x4000, 0x5000, 0x6000, 0x7000])"
proof -
  let ?w = "[0x1000, 0x2000, 0x3000, 0x4000, 0x5000, 0x6000, 0x7000] :: ptr list"
  let ?s = "nvm_cmd_wrap_setup ex_sys ex_dev_s20 NVM_DOPC_VECTOR_READ 0x9000 0 None None [NvmAddr 0, NvmAddr 1] None 2 0 0 ?w"
  have "isl (fst ?s) \<and> projl (fst ?s) = Errno ENOMEM \<and> snd ?s = ?w"
    by code_simp
  then have e: "?s = (Inl (Errno ENOMEM), ?w)" by (metis isl_def prod.collapse sum.sel(1))
  from wrap_setup_no_leak [OF ex_sys_ok _ _ e] e show ?thesis
    by (simp add: be_known_def ex_dev_s20_def)
qed


lemma wrap_setup_vector_Inr:
  assumes "nvm_cmd_wrap_setup sys dev opcode data meta dsgl msgl addrs dst naddrs flags ret w = (Inr wrap, w')"
    and "\<not> nvm_cmd_is_scalar opcode" "flags AND NVM_CMD_SGL = 0"
  obtains self x y w1 w2 where "wrap_setup_len (wrap_init self dev opcode data meta naddrs ret) opcode data meta naddrs flags = Inr x"
    "wrap_setup_erase_meta sys x opcode meta naddrs w1 = (Inr y, w2)"
    "wrap_setup_vector sys y addrs dst naddrs w2 = (Inr wrap, w')"
  using assms
  by (auto simp: nvm_cmd_wrap_setup_def Let_def andThen_Inr on_error_Inr lift_res_def ok_def cmd_wrap_setup_sgl_def
      nvm_cmd_is_scalar_def split: if_splits)

text \<open>
  C20. What a vector command says, on a 2.0 device with a well-formed format: for 1 to 64 addresses that fit the format, a
  successful setup without scatter-gather lists has the number of addresses in the 6-bit count field (minus one), the
  transfer length of that many sectors, and the addresses. A single address stands in the command itself; for more, the
  field of the command is the physical address of the list that was allocated, and the list decodes to exactly the
  requested addresses, in order. The same holds for the destinations of a copy and their field.
\<close>

theorem wrap_setup_encodes:
  assumes "nvm_cmd_wrap_setup sys dev opcode data meta dsgl msgl addrs dst naddrs flags ret w = (Inr wrap, w')"
    and "\<not> nvm_cmd_is_scalar opcode" "flags AND NVM_CMD_SGL = 0" "dev_verid dev = 2"
    and "1 \<le> naddrs" "naddrs \<le> 64" "wf_fmt dev" "\<forall>a \<in> set addrs. fits dev a" "\<forall>ds. dst = Some ds \<longrightarrow> (\<forall>a \<in> set ds. fits dev a)"
  shows "unat (bf_get 0 6 (cmd_cdw12 (wrap_cmd wrap))) + 1 = nat naddrs
    \<and> wrap_data_len wrap = (if data \<noteq> NULL then l_nbytes (dev_geo dev) * word_of_int naddrs else 0)
    \<and> carries sys dev naddrs (cmd_addrs (wrap_cmd wrap)) (wrap_addrs_dma wrap) (wrap_addrs wrap) addrs
    \<and> (\<forall>ds. dst = Some ds \<longrightarrow> carries sys dev naddrs (cmd_addrs_dst (wrap_cmd wrap)) (wrap_dst_dma wrap) (wrap_dst wrap) ds)"
proof -
  from wrap_setup_vector_Inr [OF assms(1-3)] obtain self x y w1 w2 where
    x: "wrap_setup_len (wrap_init self dev opcode data meta naddrs ret) opcode data meta naddrs flags = Inr x"
    and y: "wrap_setup_erase_meta sys x opcode meta naddrs w1 = (Inr y, w2)"
    and v: "wrap_setup_vector sys y addrs dst naddrs w2 = (Inr wrap, w')" .
  have xd: "wrap_dev x = dev" "wrap_data_len x = (if data \<noteq> 0 then l_nbytes (dev_geo dev) * word_of_int naddrs else 0)"
    "cmd_cdw12 (wrap_cmd x) = bf_set 0 6 (word_of_int (naddrs - 1)) 0" "wrap_addrs_len x = word_of_int naddrs * 8"
    using x assms(2,4) by (auto simp: wrap_setup_len_def wrap_init_def cmd_zero_def Let_def)
  have yd: "wrap_dev y = dev" "wrap_data_len y = wrap_data_len x" "cmd_cdw12 (wrap_cmd y) = cmd_cdw12 (wrap_cmd x)"
    "wrap_addrs_len y = word_of_int naddrs * 8"
    using y xd by (auto simp: wrap_setup_erase_meta_def andThen_Inr ok_def split: if_splits)
  note vo = wrap_vector_ok [OF v assms(5), unfolded yd(1), OF assms(7-9) yd(4)]
  have "unat (bf_get 0 6 (cmd_cdw12 (wrap_cmd wrap))) + 1 = nat naddrs"
    using vo(3) yd xd count_field [of naddrs 6 0 0] assms(5,6) by simp
  then show ?thesis using vo yd xd by simp
qed

theorem wrap_setup_encodes_witness:
  "\<exists>wrap w'. nvm_cmd_wrap_setup ex_sys ex_dev_s20 NVM_DOPC_VECTOR_WRITE 0x9000 0 None None
      [NvmAddr 0x0703000500000002, NvmAddr 0x0102000300000004] None 2 0 0 [] = (Inr wrap, w')
     \<and> map (nvm_addr_dev2gen ex_dev_s20) (wrap_addrs wrap) = [NvmAddr 0x0703000500000002, NvmAddr 0x0102000300000004]
     \<and> (\<exists>w w'. nvm_buf_alloc ex_sys ex_dev_s20 16 0 w = (Inr (wrap_addrs_dma wrap, cmd_addrs (wrap_cmd wrap)), w'))"
proof -
  let ?as = "[NvmAddr 0x0703000500000002, NvmAddr 0x0102000300000004]"
  let ?s = "nvm_cmd_wrap_setup ex_sys ex_dev_s20 NVM_DOPC_VECTOR_WRITE 0x9000 0 None None ?as None 2 0 0 []"
  have "\<not> isl (fst ?s)" by code_simp
  then obtain wrap w' where s: "?s = (Inr wrap, w')" by (metis isl_def sum.collapse(2) prod.collapse)
  have "\<forall>a \<in> set ?as. fits ex_dev_s20 a" by code_simp
  moreover have "wf_fmt ex_dev_s20" "dev_verid ex_dev_s20 = 2" "\<not> nvm_cmd_is_scalar NVM_DOPC_VECTOR_WRITE"
    using ex_dev_wf(1) by (simp_all add: wf_off_def ex_dev_s20_def nvm_cmd_is_scalar_def)
  ultimately have "carries ex_sys ex_dev_s20 2 (cmd_addrs (wrap_cmd wrap)) (wrap_addrs_dma wrap) (wrap_addrs wrap) ?as"
    using wrap_setup_encodes [OF s] by simp
  with s show ?thesis by (auto simp: carries_def)
qed

text \<open>
  Completions: \<open>nvm_cmd_wrap_cpl\<close> marks the entry completed with 1 exactly when both the status
  code and the status code type are 0 and with -1 otherwise, and the status word it stores in a
  given result holds the four fields of the completion unchanged at their bit positions.
\<close>

theorem wrap_cpl_status:
  fixes cpl :: nvm_nvme_cpl
  defines "s \<equiv> cpl_status cpl"
  assumes "unat (st_sc s) < 2 ^ 8" "unat (st_sct s) < 2 ^ 3" "unat (st_m s) < 2 ^ 1" "unat (st_dnr s) < 2 ^ 1"
    and "nvm_cmd_wrap_cpl wrap cpl = (wrap', ret)"
  shows "wrap_completed wrap' = (if st_sc s = 0 \<and> st_sct s = 0 then 1 else -1)
    \<and> (wrap_ret wrap = NULL \<longrightarrow> ret = None)
    \<and> (wrap_ret wrap \<noteq> NULL \<longrightarrow> (\<exists>r. ret = Some r \<and> bf_get 0 8 (ret_status r) = st_sc s \<and> bf_get 8 3 (ret_status r) = st_sct s
        \<and> bf_get 13 1 (ret_status r) = st_m s \<and> bf_get 14 1 (ret_status r) = st_dnr s
        \<and> unat (ret_result r) = unat (cpl_cdw0 cpl)))"
proof -
  let ?w = "st_sc s OR push_bit 8 (st_sct s) OR push_bit 13 (st_m s) OR push_bit 14 (st_dnr s)"
  note same = bf_get_push_same [OF assms(2), of 0] bf_get_push_same [OF assms(3), of 8]
    bf_get_push_same [OF assms(4), of 13] bf_get_push_same [OF assms(5), of 14]
  note other = bf_get_push_other [OF assms(2), where off' = 0] bf_get_push_other [OF assms(3), where off' = 8]
    bf_get_push_other [OF assms(4), where off' = 13] bf_get_push_other [OF assms(5), where off' = 14]
  have "bf_get 0 8 ?w = st_sc s" "bf_get 8 3 ?w = st_sct s" "bf_get 13 1 ?w = st_m s" "bf_get 14 1 ?w = st_dnr s"
    using same other by (simp_all add: bf_get_or)
  then show ?thesis
    using assms(6) by (auto simp: nvm_cmd_wrap_cpl_def Let_def s_def unat_ucast_up)
qed


theorem wrap_cpl_status_witness:
  "\<exists>wrap' r. nvm_cmd_wrap_cpl (wrap_init 0x1000 ex_dev_s20 0x91 0 0 1 0x5000)
      \<lparr>cpl_cdw0 = 7, cpl_status = \<lparr>st_sc = 0xFF, st_sct = 2, st_m = 0, st_dnr = 1\<rparr>\<rparr> = (wrap', Some r)
     \<and> wrap_completed wrap' = -1 \<and> bf_get 0 8 (ret_status r) = 0xFF \<and> bf_get 8 3 (ret_status r) = 2"
proof -
  let ?c = "\<lparr>cpl_cdw0 = 7, cpl_status = \<lparr>st_sc = 0xFF, st_sct = 2, st_m = 0, st_dnr = 1\<rparr>\<rparr>"
  let ?w = "wrap_init 0x1000 ex_dev_s20 0x91 0 0 1 0x5000"
  obtain wrap' ret where c: "nvm_cmd_wrap_cpl ?w ?c = (wrap', ret)" by fastforce
  have "wrap_ret ?w \<noteq> 0" by (simp add: wrap_init_def)
  with wrap_cpl_status [OF _ _ _ _ c] c show ?thesis by auto
qed

end
