(* ===== verification/Nvm_Bbt.thy ===== *)
theory Nvm_Bbt
  imports Nvm_Cmd
begin

text \<open>
  Bad-block tables and their cache, \<open>src/nvm_bbt.c\<close>, and \<open>nvm_dev_close\<close> of \<open>src/nvm_dev.c\<close>, which
  flushes the cache. The operations update the device (its array \<open>bbts\<close>) also when they fail, so
  they are operations on the pair of the device and the world.
\<close>

section \<open>Operations\<close>

type_synonym ('w, 'a) dev_op = "(nvm_dev \<times> 'w, 'a) op"

definition on_world :: "('w, 'a) op \<Rightarrow> ('w, 'a) dev_op" where
  "on_world m s = (case m (snd s) of (r, w') \<Rightarrow> (r, (fst s, w')))"

definition get_dev :: "('w, nvm_dev) dev_op" where
  "get_dev s = (Inr (fst s), s)"

definition bbt_idx :: "nvm_dev \<Rightarrow> nvm_addr \<Rightarrow> u64" where
  "bbt_idx dev addr = word_of_int (c_int (uint (g_ch addr * nluns (dev_geo dev) + g_lun addr)))"

definition blk_idx :: "nvm_dev \<Rightarrow> nvm_addr \<Rightarrow> u64" where
  "blk_idx dev addr = word_of_int (c_int (uint (g_blk addr * nplanes (dev_geo dev) + g_pl addr)))"

text \<open>The entries of \<open>dev->bbts\<close>.\<close>

definition bbts_read :: "u64 \<Rightarrow> ('w, nvm_bbt option) dev_op" where
  "bbts_read i s = (if unat i < length (dev_bbts (fst s)) then (Inr (dev_bbts (fst s) ! unat i), s)
     else (Inl (Fault OutOfBounds), s))"

definition bbts_write :: "u64 \<Rightarrow> nvm_bbt option \<Rightarrow> ('w, unit) dev_op" where
  "bbts_write i e s = (if unat i < length (dev_bbts (fst s))
     then (Inr (), ((fst s)\<lparr>dev_bbts := (dev_bbts (fst s))[unat i := e]\<rparr>, snd s))
     else (Inl (Fault OutOfBounds), s))"

definition count_state :: "u8 \<Rightarrow> u8 list \<Rightarrow> int" where
  "count_state st blks = int (length (filter (\<lambda>b. b = st) blks))"

text \<open>\<open>nbad / dev->geo.nplanes\<close> is a division of \<open>size_t\<close>.\<close>

definition per_plane :: "nvm_dev \<Rightarrow> int \<Rightarrow> int" where
  "per_plane dev n = c_int (uint (word_of_int n div nplanes (dev_geo dev)))"

definition refresh_counters :: "nvm_dev \<Rightarrow> nvm_bbt \<Rightarrow> nvm_bbt res" where
  "refresh_counters dev bbt =
     (if length (bbt_blks bbt) < unat (bbt_nblks bbt) then Inl (Fault OutOfBounds)
      else let blks = take (unat (bbt_nblks bbt)) (bbt_blks bbt) in
        if \<exists>b \<in> set blks. b \<notin> {NVM_BBT_FREE, NVM_BBT_BAD, NVM_BBT_GBAD, NVM_BBT_DMRK, NVM_BBT_HMRK}
        then Inl (Errno EINVAL)
        else if dev_verid dev = NVM_SPEC_VERID_20 \<and> nplanes (dev_geo dev) = 0 then Inl (Fault DivByZero)
        else let c = (\<lambda>st. if dev_verid dev = NVM_SPEC_VERID_20 then per_plane dev (count_state st blks)
            else count_state st blks)
          in Inr (bbt\<lparr>bbt_nbad := word_of_int (c NVM_BBT_BAD), bbt_ngbad := word_of_int (c NVM_BBT_GBAD),
            bbt_ndmrk := word_of_int (c NVM_BBT_DMRK), bbt_nhmrk := word_of_int (c NVM_BBT_HMRK)\<rparr>))"

text \<open>The call whose result the callers ignore.\<close>

definition refresh_entry :: "u64 \<Rightarrow> ('w, unit) dev_op" where
  "refresh_entry i =
     andThen get_dev (\<lambda>dev. andThen (bbts_read i) (\<lambda>e. case e of
       None \<Rightarrow> fail (Fault NullDeref)
     | Some bbt \<Rightarrow> (case refresh_counters dev bbt of
         Inr bbt' \<Rightarrow> bbts_write i (Some bbt') | Inl (Errno _) \<Rightarrow> ok () | Inl f \<Rightarrow> fail f)))"

definition nvm_bbt_free :: "'w sys \<Rightarrow> nvm_bbt option \<Rightarrow> ('w, unit) op" where
  "nvm_bbt_free sys bbt = (case bbt of None \<Rightarrow> ok () | Some b \<Rightarrow> upd (sys_free sys (bbt_self b)))"

definition flush_blk_addr :: "nvm_dev \<Rightarrow> nvm_bbt \<Rightarrow> nat \<Rightarrow> nvm_addr" where
  "flush_blk_addr dev cached i =
     set_g_pl (of_nat i mod nplanes (dev_geo dev)) (set_g_blk (of_nat i div nplanes (dev_geo dev)) (bbt_addr cached))"

text \<open>One round of the loop that updates the table on the device.\<close>

definition flush_step ::
  "'w nvm_be \<Rightarrow> nvm_dev \<Rightarrow> nvm_bbt \<Rightarrow> nvm_spec_bbt \<Rightarrow> ptr \<Rightarrow> nat \<Rightarrow> ('w, unit) op" where
  "flush_step be dev cached spec ret i =
     (if length (bbt_blks cached) \<le> i \<or> length (sbbt_blk spec) \<le> i then fail (Fault OutOfBounds)
      else if bbt_blks cached ! i = sbbt_blk spec ! i then ok ()
      else if nplanes (dev_geo dev) = 0 then fail (Fault DivByZero)
      else nvm_cmd_sbbt be dev [flush_blk_addr dev cached i] 1 (ucast (bbt_blks cached ! i)) ret)"

definition nvm_bbt_flush :: "'w sys \<Rightarrow> 'w nvm_be \<Rightarrow> nvm_addr \<Rightarrow> ptr \<Rightarrow> ('w, unit) dev_op" where
  "nvm_bbt_flush sys be addr ret =
     andThen get_dev (\<lambda>dev.
     if addr_check_fails addr dev then fail (Errno EINVAL)
     else let i = bbt_idx dev addr in
       andThen (bbts_read i) (\<lambda>e. case e of
         None \<Rightarrow> ok ()
       | Some cached \<Rightarrow>
           andThen (on_world (nvm_cmd_gbbt be dev addr ret)) (\<lambda>(buf, spec).
           if bbt_nblks cached \<noteq> ucast (sbbt_tblks spec) then
             andThen (on_world (upd (sys_free sys buf))) (\<lambda>_. fail (Errno EINVAL))
           else
             andThen (on_error (on_world (each_op (flush_step be dev cached spec ret) [0..<unat (bbt_nblks cached)]))
               (on_world (upd (sys_free sys buf)))) (\<lambda>_.
             andThen (on_world (upd (sys_free sys buf))) (\<lambda>_.
             andThen (on_world (nvm_bbt_free sys (Some cached))) (\<lambda>_.
             bbts_write i None))))))"

definition flush_all_addr :: "nvm_dev \<Rightarrow> nat \<Rightarrow> nvm_addr" where
  "flush_all_addr dev i =
     set_g_lun ((of_nat i div nchannels (dev_geo dev)) mod nluns (dev_geo dev))
       (set_g_ch (of_nat i mod nchannels (dev_geo dev)) (NvmAddr 0))"

definition nvm_bbt_flush_all :: "'w sys \<Rightarrow> 'w nvm_be \<Rightarrow> ptr \<Rightarrow> ('w, unit) dev_op" where
  "nvm_bbt_flush_all sys be ret =
     andThen get_dev (\<lambda>dev.
     each_op (\<lambda>i. if nchannels (dev_geo dev) = 0 \<or> nluns (dev_geo dev) = 0 then fail (Fault DivByZero)
       else nvm_bbt_flush sys be (flush_all_addr dev i) ret) [0..<unat (dev_nbbts dev)])"

text \<open>
  The allocation of an entry. Its states are uninitialised until the table is read; they stand as 0.
\<close>

definition bbt_entry_alloc :: "'w sys \<Rightarrow> nvm_addr \<Rightarrow> u64 \<Rightarrow> ('w, unit) dev_op" where
  "bbt_entry_alloc sys addr i =
     andThen get_dev (\<lambda>dev.
     let nblks = c_int (uint (nblocks (dev_geo dev) * nplanes (dev_geo dev))) in
     andThen (\<lambda>s. case on_world (sys_malloc sys (48 + word_of_int nblks)) s of
         (Inl (Errno _), s') \<Rightarrow> (Inl (Errno ENOMEM), s') | r \<Rightarrow> r) (\<lambda>p.
     bbts_write i (Some \<lparr>bbt_self = p, bbt_addr = addr, bbt_nblks = word_of_int nblks, bbt_nbad = 0, bbt_ngbad = 0,
       bbt_ndmrk = 0, bbt_nhmrk = 0, bbt_blks = replicate (nat nblks) 0\<rparr>)))"

text \<open>The entry with the table of the device, when the sizes agree.\<close>

definition bbt_entry_fill :: "nvm_bbt \<Rightarrow> nvm_spec_bbt \<Rightarrow> nvm_bbt res" where
  "bbt_entry_fill bbt spec =
     (let n = unat (bbt_nblks bbt) in
      if length (sbbt_blk spec) < n \<or> length (bbt_blks bbt) < n then Inl (Fault OutOfBounds)
      else Inr (bbt\<lparr>bbt_blks := take n (sbbt_blk spec) @ drop n (bbt_blks bbt), bbt_nbad := sbbt_tfact spec,
        bbt_ngbad := sbbt_tgrown spec, bbt_ndmrk := sbbt_tdresv spec, bbt_nhmrk := sbbt_thresv spec\<rparr>))"

text \<open>The entry updated with the table of the device; it is dropped when that fails.\<close>

definition bbt_entry_read ::
  "'w sys \<Rightarrow> 'w nvm_be \<Rightarrow> nvm_dev \<Rightarrow> nvm_addr \<Rightarrow> ptr \<Rightarrow> u64 \<Rightarrow> nvm_bbt \<Rightarrow> ('w, nvm_bbt) dev_op" where
  "bbt_entry_read sys be dev addr ret i bbt s =
     (case on_world (nvm_cmd_gbbt be dev addr ret) s of
        (Inl (Fault f), s') \<Rightarrow> (Inl (Fault f), s')
      | (Inl (Errno err), s') \<Rightarrow>
          andThen (on_world (upd (sys_free sys (bbt_self bbt)))) (\<lambda>_.
          andThen (bbts_write i None) (\<lambda>_. fail (Errno err))) s'
      | (Inr (buf, spec), s') \<Rightarrow>
          if bbt_nblks bbt \<noteq> ucast (sbbt_tblks spec) then
            andThen (on_world (upd (sys_free sys (bbt_self bbt)))) (\<lambda>_.
            andThen (on_world (upd (sys_free sys buf))) (\<lambda>_.
            andThen (bbts_write i None) (\<lambda>_. fail (Errno EKEEP)))) s'
          else
            andThen (lift_res (bbt_entry_fill bbt spec)) (\<lambda>bbt'.
            andThen (bbts_write i (Some bbt')) (\<lambda>_.
            andThen (on_world (upd (sys_free sys buf))) (\<lambda>_.
            ok bbt'))) s')"

definition nvm_bbt_get :: "'w sys \<Rightarrow> 'w nvm_be \<Rightarrow> nvm_addr \<Rightarrow> ptr \<Rightarrow> ('w, nvm_bbt) dev_op" where
  "nvm_bbt_get sys be addr ret =
     andThen get_dev (\<lambda>dev.
     if addr_check_fails addr dev then fail (Errno EINVAL)
     else let i = bbt_idx dev addr in
       andThen (bbts_read i) (\<lambda>e.
       if dev_bbts_cached dev \<noteq> 0 \<and> e \<noteq> None then ok (the e)
       else
         andThen (if e = None then bbt_entry_alloc sys addr i else ok ()) (\<lambda>_.
         andThen (bbts_read i) (\<lambda>e'. case e' of None \<Rightarrow> fail (Fault NullDeref) | Some bbt \<Rightarrow>
         bbt_entry_read sys be dev addr ret i bbt))))"

definition nvm_bbt_set :: "'w sys \<Rightarrow> 'w nvm_be \<Rightarrow> nvm_bbt \<Rightarrow> ptr \<Rightarrow> ('w, unit) dev_op" where
  "nvm_bbt_set sys be bbt ret =
     (let addr = bbt_addr bbt in
      andThen get_dev (\<lambda>dev.
      if addr_check_fails addr dev then fail (Errno EINVAL)
      else andThen (nvm_bbt_get sys be addr ret) (\<lambda>e.
        let i = bbt_idx dev addr; n = unat (bbt_nblks bbt) in
        if length (bbt_blks bbt) < n \<or> length (bbt_blks e) < n then fail (Fault OutOfBounds)
        else andThen (bbts_write i (Some (e\<lparr>bbt_blks := take n (bbt_blks bbt) @ drop n (bbt_blks e)\<rparr>))) (\<lambda>_.
          andThen (refresh_entry i) (\<lambda>_.
          if dev_bbts_cached dev \<noteq> 0 then ok () else nvm_bbt_flush sys be addr ret)))))"

definition mark_step :: "'w sys \<Rightarrow> 'w nvm_be \<Rightarrow> u16 \<Rightarrow> ptr \<Rightarrow> nvm_addr \<Rightarrow> ('w, unit) dev_op" where
  "mark_step sys be flags ret addr =
     andThen get_dev (\<lambda>dev.
     andThen (nvm_bbt_get sys be addr ret) (\<lambda>e.
     if length (bbt_blks e) \<le> unat (blk_idx dev addr) then fail (Fault OutOfBounds)
     else andThen (bbts_write (bbt_idx dev addr)
         (Some (e\<lparr>bbt_blks := (bbt_blks e)[unat (blk_idx dev addr) := ucast flags]\<rparr>))) (\<lambda>_.
       refresh_entry (bbt_idx dev addr))))"

definition nvm_bbt_mark :: "'w sys \<Rightarrow> 'w nvm_be \<Rightarrow> nvm_addr list \<Rightarrow> int \<Rightarrow> u16 \<Rightarrow> ptr \<Rightarrow> ('w, unit) dev_op" where
  "nvm_bbt_mark sys be addrs naddrs flags ret =
     andThen get_dev (\<lambda>dev.
     if dev_bbts_cached dev = 0 then on_world (nvm_cmd_sbbt be dev addrs naddrs flags ret)
     else andThen (lift_res (arg_addrs addrs naddrs)) (\<lambda>as. each_op (mark_step sys be flags ret) as))"

definition nvm_bbt_alloc_cp :: "'w sys \<Rightarrow> nvm_bbt option \<Rightarrow> ('w, nvm_bbt) op" where
  "nvm_bbt_alloc_cp sys bbt w =
     (case bbt of None \<Rightarrow> (Inl (Errno EINVAL), w)
      | Some b \<Rightarrow> (case sys_malloc sys (48 + bbt_nblks b) w of
          (Inl (Errno _), w') \<Rightarrow> (Inl (Errno ENOMEM), w')
        | (Inl f, w') \<Rightarrow> (Inl f, w')
        | (Inr p, w') \<Rightarrow> (Inr (b\<lparr>bbt_self := p, bbt_blks := take (unat (bbt_nblks b)) (bbt_blks b)\<rparr>), w')))"

text \<open>\<open>nvm_dev_close\<close> ignores the result of the flush.\<close>

definition nvm_dev_close :: "'w sys \<Rightarrow> 'w nvm_be \<Rightarrow> ptr \<Rightarrow> ptr \<Rightarrow> nvm_dev option \<Rightarrow> ('w, unit) op" where
  "nvm_dev_close sys be bbts_ptr dev_ptr dev w =
     (case dev of None \<Rightarrow> (Inr (), w)
      | Some d \<Rightarrow> (case nvm_bbt_flush_all sys be NULL (d, w) of
          (Inl (Fault f), (d', w')) \<Rightarrow> (Inl (Fault f), w')
        | (_, (d', w')) \<Rightarrow>
            andThen (be_close be d') (\<lambda>_. andThen (upd (sys_free sys bbts_ptr)) (\<lambda>_. upd (sys_free sys dev_ptr))) w'))"

section \<open>Indices\<close>

text \<open>
  The geometry of a 1.2 device: its coordinates fit the fields of the generic address, whose channel
  and LUN take 8 bits, block 16 bits and plane 8 bits.
\<close>

definition bbt_geo_ok :: "nvm_dev \<Rightarrow> bool" where
  "bbt_geo_ok dev \<longleftrightarrow> dev_verid dev = NVM_SPEC_VERID_12 \<and>
     (let g = dev_geo dev in
      0 < nchannels g \<and> nchannels g \<le> 256 \<and> 0 < nluns g \<and> nluns g \<le> 256 \<and> 0 < nplanes g \<and> nplanes g \<le> 256 \<and>
      0 < nblocks g \<and> nblocks g \<le> 65536 \<and> 0 < npages g \<and> 0 < nsectors g)"

abbreviation ntabs :: "nvm_dev \<Rightarrow> nat" where
  "ntabs dev \<equiv> unat (nchannels (dev_geo dev)) * unat (nluns (dev_geo dev))"

abbreviation tab_len :: "nvm_dev \<Rightarrow> nat" where
  "tab_len dev \<equiv> unat (nblocks (dev_geo dev)) * unat (nplanes (dev_geo dev))"

lemma bbt_geo_okD:
  assumes "bbt_geo_ok dev"
  shows "dev_verid dev = 1" "0 < unat (nchannels (dev_geo dev))" "unat (nchannels (dev_geo dev)) \<le> 256"
    "0 < unat (nluns (dev_geo dev))" "unat (nluns (dev_geo dev)) \<le> 256"
    "0 < unat (nplanes (dev_geo dev))" "unat (nplanes (dev_geo dev)) \<le> 256"
    "0 < unat (nblocks (dev_geo dev))" "unat (nblocks (dev_geo dev)) \<le> 65536"
    "nchannels (dev_geo dev) \<noteq> 0" "nluns (dev_geo dev) \<noteq> 0" "nplanes (dev_geo dev) \<noteq> 0"
  using assms by (auto simp: bbt_geo_ok_def Let_def word_le_nat_alt word_less_nat_alt)

lemma unat_digits:
  fixes a b n :: u64
  assumes "unat a \<le> 65536" "unat n \<le> 256" "unat b < 256"
  shows "unat (word_of_int (c_int (uint (a * n + b))) :: u64) = unat a * unat n + unat b"
proof -
  have "unat a * unat n \<le> 65536 * 256" using assms by (intro mult_mono) auto
  then have m: "unat (a * n) = unat a * unat n" "unat a * unat n + unat b < 2 ^ 31"
    using assms(3) by (auto intro!: unat_mult_lt)
  then have "unat (a * n + b) = unat a * unat n + unat b"
    by (subst unat_add_lt) auto
  with m(2) show ?thesis by (subst unat_word_of_c_int) auto
qed

lemma unat_bbt_idx:
  assumes "bbt_geo_ok dev"
  shows "unat (bbt_idx dev a) = unat (g_ch a) * unat (nluns (dev_geo dev)) + unat (g_lun a)"
  using addr_get_lt [of 56 8 a] addr_get_lt [of 48 8 a] bbt_geo_okD [OF assms]
  unfolding bbt_idx_def by (intro unat_digits) auto

lemma unat_blk_idx:
  assumes "bbt_geo_ok dev"
  shows "unat (blk_idx dev a) = unat (g_blk a) * unat (nplanes (dev_geo dev)) + unat (g_pl a)"
  using addr_get_lt [of 32 16 a] addr_get_lt [of 40 8 a] bbt_geo_okD [OF assms]
  unfolding blk_idx_def by (intro unat_digits) (use addr_get_lt [of _ 8 a] in auto)

lemma checked_idx_lt:
  assumes "bbt_geo_ok dev" "\<not> addr_check_fails a dev"
  shows "unat (bbt_idx dev a) < ntabs dev" "unat (blk_idx dev a) < tab_len dev"
  using assms bbt_geo_okD(1) [OF assms(1)]
  by (auto simp: unat_bbt_idx unat_blk_idx addr_check_fails_s12 in_bounds_s12_def word_less_nat_alt intro!: digit_lt)

text \<open>Checked addresses of different LUNs have different tables.\<close>

lemma bbt_idx_inj:
  assumes "bbt_geo_ok dev" "\<not> addr_check_fails a dev" "\<not> addr_check_fails b dev"
  shows "bbt_idx dev a = bbt_idx dev b \<longleftrightarrow> g_ch a = g_ch b \<and> g_lun a = g_lun b"
proof -
  have lt: "unat (g_lun a) < unat (nluns (dev_geo dev))" "unat (g_lun b) < unat (nluns (dev_geo dev))"
    using assms bbt_geo_okD(1) [OF assms(1)]
    by (auto simp: addr_check_fails_s12 in_bounds_s12_def word_less_nat_alt)
  show ?thesis
    by (simp add: word_unat_eq_iff unat_bbt_idx [OF assms(1)] digits_eq [OF lt])
qed

lemma flush_blk_addr_idx:
  assumes "bbt_geo_ok dev" "i < tab_len dev"
  shows "unat (blk_idx dev (flush_blk_addr dev b i)) = i"
    "bbt_idx dev (flush_blk_addr dev b i) = bbt_idx dev (bbt_addr b)"
proof -
  let ?n = "unat (nplanes (dev_geo dev))"
  have "i < 65536 * 256"
    using assms(2) bbt_geo_okD(7,9) [OF assms(1)] by (meson le_less_trans less_le_trans mult_le_mono)
  then have u: "unat (of_nat i :: u64) = i" by (intro unat_u64) simp
  have "i div ?n < 2 ^ 16" "i mod ?n < 2 ^ 8"
    using assms(2) bbt_geo_okD(6,7,9) [OF assms(1)]
    by (auto simp: less_mult_imp_div_less intro: less_le_trans [OF less_mult_imp_div_less] less_le_trans [OF mod_less_divisor])
  then show "unat (blk_idx dev (flush_blk_addr dev b i)) = i"
    by (simp add: unat_blk_idx [OF assms(1)] flush_blk_addr_def bitfield_simps take_bit_id unat_div_distrib unat_mod_distrib u)
  show "bbt_idx dev (flush_blk_addr dev b i) = bbt_idx dev (bbt_addr b)"
    by (simp add: bbt_idx_def flush_blk_addr_def bitfield_simps)
qed

section \<open>Writing a table back\<close>

text \<open>
  A loop that brings a table of a store to wanted contents, entry by entry, when each step writes its
  entry or finds it equal already.
\<close>

locale write_back =
  fixes good :: "'c \<Rightarrow> bool"
    and step :: "'c \<Rightarrow> nat \<Rightarrow> ('w, unit) op"
    and tab :: "'c \<Rightarrow> 'w \<Rightarrow> 'k \<Rightarrow> 'a list"
    and key :: "'c \<Rightarrow> 'k"
    and old :: "'c \<Rightarrow> 'a list"
    and want :: "'c \<Rightarrow> 'a list"
  assumes len: "good c \<Longrightarrow> length (old c) = length (want c)"
    and step_writes: "good c \<Longrightarrow> i < length (want c) \<Longrightarrow> tab c w (key c) ! i = old c ! i \<Longrightarrow>
      length (tab c w (key c)) = length (want c) \<Longrightarrow> step c i w = (Inr (), w') \<Longrightarrow>
      tab c w' = (tab c w)(key c := (tab c w (key c))[i := want c ! i])"
begin

lemma writes_from:
  assumes "good c" "n \<le> length (want c)" "tab c w (key c) = take (length (want c) - n) (want c) @ drop (length (want c) - n) (old c)"
    "each_op (step c) [length (want c) - n..<length (want c)] w = (Inr (), w')"
  shows "tab c w' = (tab c w)(key c := want c)"
  using assms
proof (induction n arbitrary: w)
  case 0
  then show ?case using len [of c] by (auto simp: ok_def fun_eq_iff)
next
  case (Suc n)
  let ?i = "length (want c) - Suc n"
  from Suc.prems(2) have i: "?i < length (want c)" "length (want c) - n = Suc ?i" by auto
  obtain w1 where w1: "step c ?i w = (Inr (), w1)"
      "each_op (step c) [length (want c) - n..<length (want c)] w1 = (Inr (), w')"
    using Suc.prems(4) i by (auto simp: upt_conv_Cons andThen_Inr)
  have l: "length (old c) = length (want c)" using len Suc.prems(1) by blast
  then have t: "tab c w (key c) ! ?i = old c ! ?i" "length (tab c w (key c)) = length (want c)"
    using i(1) by (auto simp: Suc.prems(3) nth_append)
  from step_writes [OF Suc.prems(1) i(1) t w1(1)]
  have w1': "tab c w1 = (tab c w)(key c := (tab c w (key c))[?i := want c ! ?i])" .
  have "(tab c w (key c))[?i := want c ! ?i] = take (Suc ?i) (want c) @ drop (Suc ?i) (old c)"
    using i(1) l by (simp add: Suc.prems(3) list_update_append take_Suc_conv_app_nth Cons_nth_drop_Suc [symmetric])
  then have "tab c w1 (key c) = take (Suc ?i) (want c) @ drop (Suc ?i) (old c)" by (simp add: w1')
  then have "tab c w' = (tab c w1)(key c := want c)"
    using Suc.IH [of w1] Suc.prems(1,2) w1(2) by (simp add: i(2) fun_upd_def)
  then show ?case by (simp add: w1')
qed

lemma writes_all:
  assumes "good c" "tab c w (key c) = old c" "each_op (step c) [0..<length (want c)] w = (Inr (), w')"
  shows "tab c w' = (tab c w)(key c := want c)"
  using writes_from [of c "length (want c)"] assms by simp

end

text \<open>
  What the cache relies on of a backend: \<open>gbbt\<close> returns the table of the LUN of the address with its
  size, \<open>sbbt\<close> sets the state of the block and plane of the address. \<open>tab\<close> gives the tables of the
  device in a state of the world, by their index.
\<close>

definition bbt_laws :: "'w sys \<Rightarrow> 'w nvm_be \<Rightarrow> nvm_geo \<Rightarrow> ('w \<Rightarrow> nat \<Rightarrow> u8 list) \<Rightarrow> bool" where
  "bbt_laws sys be geo tab \<longleftrightarrow>
     (\<forall>d a ret w p spec w'. dev_geo d = geo \<longrightarrow> be_gbbt be d a ret w = (Inr (p, spec), w') \<longrightarrow>
        tab w' = tab w \<and> sbbt_blk spec = tab w (unat (bbt_idx d a)) \<and> unat (sbbt_tblks spec) = length (sbbt_blk spec)) \<and>
     (\<forall>d a st ret w w'. dev_geo d = geo \<longrightarrow> be_sbbt be d [a] 1 st ret w = (Inr (), w') \<longrightarrow>
        tab w' = (tab w)(unat (bbt_idx d a) := (tab w (unat (bbt_idx d a)))[unat (blk_idx d a) := ucast st])) \<and>
     (\<forall>p w. tab (sys_free sys p w) = tab w) \<and>
     (\<forall>n w. tab (snd (sys_malloc sys n w)) = tab w)"

lemma bbt_laws_gbbt:
  assumes "bbt_laws sys be (dev_geo d) tab" "nvm_cmd_gbbt be d a ret w = (Inr (p, spec), w')"
  shows "tab w' = tab w" "sbbt_blk spec = tab w (unat (bbt_idx d a))" "unat (sbbt_tblks spec) = length (sbbt_blk spec)"
  using assms unfolding bbt_laws_def nvm_cmd_gbbt_def by blast+

lemma bbt_laws_sbbt:
  assumes "bbt_laws sys be (dev_geo d) tab" "nvm_cmd_sbbt be d [a] 1 st ret w = (Inr (), w')"
  shows "tab w' = (tab w)(unat (bbt_idx d a) := (tab w (unat (bbt_idx d a)))[unat (blk_idx d a) := ucast st])"
  using assms unfolding bbt_laws_def nvm_cmd_sbbt_def by blast

lemma bbt_laws_free: "bbt_laws sys be geo tab \<Longrightarrow> tab (sys_free sys p w) = tab w"
  unfolding bbt_laws_def by blast

lemma bbt_laws_malloc: "bbt_laws sys be geo tab \<Longrightarrow> sys_malloc sys n w = (r, w') \<Longrightarrow> tab w' = tab w"
  unfolding bbt_laws_def by (metis snd_conv)

lemma ucast_u8_u16 [simp]: "ucast (ucast x :: u16) = x" for x :: u8
  by (rule bit_word_eqI) (simp add: bit_simps)

text \<open>The entry of a LUN in the cache.\<close>

definition entry_wf :: "nvm_dev \<Rightarrow> nat \<Rightarrow> nvm_bbt \<Rightarrow> bool" where
  "entry_wf dev i b \<longleftrightarrow> unat (bbt_idx dev (bbt_addr b)) = i \<and> unat (bbt_nblks b) = tab_len dev \<and>
     length (bbt_blks b) = tab_len dev"

record 'w flush_ctx =
  fc_sys :: "'w sys"
  fc_be :: "'w nvm_be"
  fc_dev :: nvm_dev
  fc_bbt :: nvm_bbt
  fc_spec :: nvm_spec_bbt
  fc_ret :: ptr
  fc_tab :: "'w \<Rightarrow> nat \<Rightarrow> u8 list"

abbreviation fc_idx :: "'w flush_ctx \<Rightarrow> nat" where
  "fc_idx c \<equiv> unat (bbt_idx (fc_dev c) (bbt_addr (fc_bbt c)))"

definition flush_good :: "'w flush_ctx \<Rightarrow> bool" where
  "flush_good c \<longleftrightarrow> bbt_geo_ok (fc_dev c) \<and> bbt_laws (fc_sys c) (fc_be c) (dev_geo (fc_dev c)) (fc_tab c) \<and>
     entry_wf (fc_dev c) (fc_idx c) (fc_bbt c) \<and> length (sbbt_blk (fc_spec c)) = length (bbt_blks (fc_bbt c))"

lemma flush_step_writes:
  assumes "flush_good c" "i < length (bbt_blks (fc_bbt c))"
    "fc_tab c w (fc_idx c) ! i = sbbt_blk (fc_spec c) ! i"
    "flush_step (fc_be c) (fc_dev c) (fc_bbt c) (fc_spec c) (fc_ret c) i w = (Inr (), w')"
  shows "fc_tab c w' = (fc_tab c w)(fc_idx c := (fc_tab c w (fc_idx c))[i := bbt_blks (fc_bbt c) ! i])"
proof (cases "bbt_blks (fc_bbt c) ! i = sbbt_blk (fc_spec c) ! i")
  case True
  have "w' = w" using assms(1,2,4) True by (auto simp: flush_step_def flush_good_def ok_def fail_def)
  then show ?thesis using assms(3) True
    by (metis fun_upd_triv list_update_id)
next
  case False
  from assms(1) have geo: "bbt_geo_ok (fc_dev c)"
    and laws: "bbt_laws (fc_sys c) (fc_be c) (dev_geo (fc_dev c)) (fc_tab c)"
    and l: "length (bbt_blks (fc_bbt c)) = tab_len (fc_dev c)" "length (sbbt_blk (fc_spec c)) = length (bbt_blks (fc_bbt c))"
    by (auto simp: flush_good_def entry_wf_def)
  have "nvm_cmd_sbbt (fc_be c) (fc_dev c) [flush_blk_addr (fc_dev c) (fc_bbt c) i] 1 (ucast (bbt_blks (fc_bbt c) ! i))
      (fc_ret c) w = (Inr (), w')"
    using assms(2,4) False l bbt_geo_okD(12) [OF geo] by (simp add: flush_step_def)
  from bbt_laws_sbbt [OF laws this] show ?thesis
    using assms(2) l by (simp add: flush_blk_addr_idx [OF geo])
qed

interpretation bbt_wb: write_back flush_good
  "\<lambda>c. flush_step (fc_be c) (fc_dev c) (fc_bbt c) (fc_spec c) (fc_ret c)" fc_tab fc_idx
  "\<lambda>c. sbbt_blk (fc_spec c)" "\<lambda>c. bbt_blks (fc_bbt c)"
  by unfold_locales (simp add: flush_good_def, rule flush_step_writes)

section \<open>Flushing\<close>

definition cache_wf :: "nvm_dev \<Rightarrow> bool" where
  "cache_wf dev \<longleftrightarrow> bbt_geo_ok dev \<and> length (dev_bbts dev) = ntabs dev \<and> unat (dev_nbbts dev) = ntabs dev \<and>
     (\<forall>i < ntabs dev. \<forall>b. dev_bbts dev ! i = Some b \<longrightarrow> entry_wf dev i b)"

lemma cache_wfD:
  assumes "cache_wf dev"
  shows "bbt_geo_ok dev" "length (dev_bbts dev) = ntabs dev" "unat (dev_nbbts dev) = ntabs dev"
    "i < ntabs dev \<Longrightarrow> dev_bbts dev ! i = Some b \<Longrightarrow> entry_wf dev i b"
  using assms by (auto simp: cache_wf_def)

text \<open>Changing the cache changes nothing else of the device that the operations read.\<close>

lemma bbts_update_simps [simp]:
  "bbt_geo_ok (dev\<lparr>dev_bbts := bs\<rparr>) = bbt_geo_ok dev" "bbt_idx (dev\<lparr>dev_bbts := bs\<rparr>) = bbt_idx dev"
  "blk_idx (dev\<lparr>dev_bbts := bs\<rparr>) = blk_idx dev" "entry_wf (dev\<lparr>dev_bbts := bs\<rparr>) = entry_wf dev"
  "addr_check_fails a (dev\<lparr>dev_bbts := bs\<rparr>) = addr_check_fails a dev"
  by (simp_all add: bbt_geo_ok_def bbt_idx_def blk_idx_def entry_wf_def addr_check_fails_def nvm_addr_check_def
      fun_eq_iff cong: if_cong)

lemma cache_wf_update:
  assumes "cache_wf dev" "\<And>b. e = Some b \<Longrightarrow> entry_wf dev i b"
  shows "cache_wf (dev\<lparr>dev_bbts := (dev_bbts dev)[i := e]\<rparr>)"
proof -
  have "entry_wf dev j b" if "j < ntabs dev" "(dev_bbts dev)[i := e] ! j = Some b" for j b
    using that assms(2) cache_wfD(2,4) [OF assms(1)] by (cases "j = i") auto
  then show ?thesis using assms(1) by (simp add: cache_wf_def)
qed

lemma on_world_Inr: "on_world m (d, w) = (r, s') \<longleftrightarrow> (\<exists>w'. m w = (r, w') \<and> s' = (d, w'))"
  by (auto simp: on_world_def split: prod.splits)

lemmas bbt_op_simps = get_dev_def andThen_Inr on_world_Inr ok_def fail_def upd_def

text \<open>Operations that leave the device as it is, always or when they fail.\<close>

definition keeps_dev :: "('w, 'a) dev_op \<Rightarrow> bool" where
  "keeps_dev m \<longleftrightarrow> (\<forall>s. fst (snd (m s)) = fst s)"

definition fails_clean :: "('w, 'a) dev_op \<Rightarrow> bool" where
  "fails_clean m \<longleftrightarrow> (\<forall>s. isl (fst (m s)) \<longrightarrow> fst (snd (m s)) = fst s)"

lemma keeps_dev_basic:
  "keeps_dev (ok x)" "keeps_dev (fail e)" "keeps_dev get_dev" "keeps_dev (on_world m')" "keeps_dev (bbts_read i)"
  by (simp_all add: keeps_dev_def ok_def fail_def get_dev_def on_world_def bbts_read_def split: prod.splits)

lemma keeps_dev_andThen:
  assumes "keeps_dev m" "\<And>x. keeps_dev (f x)"
  shows "keeps_dev (andThen m f)"
  unfolding keeps_dev_def
proof
  fix s
  obtain r s1 where "m s = (r, s1)" by (cases "m s") blast
  with assms(1) have m: "m s = (r, s1)" "fst s1 = fst s" unfolding keeps_dev_def by (metis snd_conv)+
  then show "fst (snd (andThen m f s)) = fst s"
    using assms(2) by (cases r; cases s1) (auto simp: andThen_def keeps_dev_def)
qed

lemma keeps_dev_on_error:
  assumes "keeps_dev m" "keeps_dev h"
  shows "keeps_dev (on_error m h)"
  unfolding keeps_dev_def
proof
  fix s
  obtain r s1 where "m s = (r, s1)" by (cases "m s") blast
  with assms(1) have m: "m s = (r, s1)" "fst s1 = fst s" unfolding keeps_dev_def by (metis snd_conv)+
  obtain r' s2 where "h s1 = (r', s2)" by (cases "h s1") blast
  with assms(2) have h: "h s1 = (r', s2)" "fst s2 = fst s1" unfolding keeps_dev_def by (metis snd_conv)+
  show "fst (snd (on_error m h s)) = fst s"
    using m h by (simp add: on_error_def split: sum.splits failure.splits)
qed

lemmas keeps_devI = keeps_dev_basic keeps_dev_andThen keeps_dev_on_error

lemma fails_clean_andThen:
  assumes "keeps_dev m" "\<And>x. fails_clean (f x)"
  shows "fails_clean (andThen m f)"
  unfolding fails_clean_def
proof
  fix s
  obtain r s1 where "m s = (r, s1)" by (cases "m s") blast
  with assms(1) have m: "m s = (r, s1)" "fst s1 = fst s" unfolding keeps_dev_def by (metis snd_conv)+
  then show "isl (fst (andThen m f s)) \<longrightarrow> fst (snd (andThen m f s)) = fst s"
    using assms(2) by (cases r; cases s1) (auto simp: andThen_def fails_clean_def)
qed

lemma fails_cleanI:
  "fails_clean (ok x)" "fails_clean (fail e)" "fails_clean (bbts_write i b)"
  by (simp_all add: fails_clean_def bbts_write_def ok_def fail_def)

lemma flush_fails_clean: "fails_clean (nvm_bbt_flush sys be addr ret)"
  unfolding nvm_bbt_flush_def Let_def
  by (auto intro!: fails_clean_andThen fails_cleanI keeps_devI split: option.splits)

lemma flush_writes:
  assumes wf: "cache_wf d" and laws: "bbt_laws sys be (dev_geo d) tab"
    and run: "nvm_bbt_flush sys be a ret (d, w) = (Inr (), (d', w'))"
  shows "\<not> addr_check_fails a d" "d' = d\<lparr>dev_bbts := (dev_bbts d)[unat (bbt_idx d a) := None]\<rparr>"
    "tab w' = (case dev_bbts d ! unat (bbt_idx d a) of None \<Rightarrow> tab w
       | Some b \<Rightarrow> (tab w)(unat (bbt_idx d a) := bbt_blks b))"
proof -
  let ?i = "unat (bbt_idx d a)"
  show chk: "\<not> addr_check_fails a d"
    using run by (auto simp: nvm_bbt_flush_def get_dev_def andThen_def fail_def)
  have i: "?i < ntabs d" "?i < length (dev_bbts d)"
    using checked_idx_lt(1) [OF cache_wfD(1) [OF wf] chk] by (simp_all add: cache_wfD(2) [OF wf])
  have "d' = d\<lparr>dev_bbts := (dev_bbts d)[?i := None]\<rparr> \<and>
    tab w' = (case dev_bbts d ! ?i of None \<Rightarrow> tab w | Some b \<Rightarrow> (tab w)(?i := bbt_blks b))"
  proof (cases "dev_bbts d ! ?i")
    case None
    then have "d' = d" "w' = w"
      using run chk i by (auto simp: nvm_bbt_flush_def bbt_op_simps Let_def bbts_read_def)
    moreover have "d\<lparr>dev_bbts := (dev_bbts d)[?i := None]\<rparr> = d" by (simp add: None list_update_same_conv i)
    ultimately show ?thesis by (simp add: None)
  next
    case (Some b)
    note wfb = cache_wfD(4) [OF wf i(1) Some]
    obtain p spec w1 w2 where g: "nvm_cmd_gbbt be d a ret w = (Inr (p, spec), w1)"
      and n: "bbt_nblks b = ucast (sbbt_tblks spec)"
      and each: "each_op (flush_step be d b spec ret) [0..<unat (bbt_nblks b)] w1 = (Inr (), w2)"
      and out: "w' = sys_free sys (bbt_self b) (sys_free sys p w2)" "d' = d\<lparr>dev_bbts := (dev_bbts d)[?i := None]\<rparr>"
      using run chk i Some
      by (auto simp: nvm_bbt_flush_def bbt_op_simps Let_def bbts_read_def bbts_write_def on_error_Inr nvm_bbt_free_def
          split: if_splits)
    let ?c = "\<lparr>fc_sys = sys, fc_be = be, fc_dev = d, fc_bbt = b, fc_spec = spec, fc_ret = ret, fc_tab = tab\<rparr>"
    note tg = bbt_laws_gbbt [OF laws g]
    have "unat (bbt_nblks b) = length (sbbt_blk spec)"
      by (simp add: n tg(3) unat_ucast_up)
    then have good: "flush_good ?c" and l: "unat (bbt_nblks b) = length (bbt_blks b)"
      using wfb cache_wfD(1) [OF wf] laws by (auto simp: flush_good_def entry_wf_def)
    have "bbt_idx d (bbt_addr b) = bbt_idx d a" using wfb by (simp add: entry_wf_def word_unat_eq_iff)
    then have "tab w2 = (tab w1)(?i := bbt_blks b)"
      using bbt_wb.writes_all [OF good, of w1 w2] each tg l by simp
    then show ?thesis by (simp add: out Some bbt_laws_free [OF laws] tg(1))
  qed
  then show "d' = d\<lparr>dev_bbts := (dev_bbts d)[?i := None]\<rparr>"
    "tab w' = (case dev_bbts d ! ?i of None \<Rightarrow> tab w | Some b \<Rightarrow> (tab w)(?i := bbt_blks b))" by blast+
qed

text \<open>The order in which \<open>nvm_bbt_flush_all\<close> visits the tables: every one of them.\<close>

lemma flush_all_addr_idx:
  assumes "bbt_geo_ok dev" "i < ntabs dev"
  shows "unat (bbt_idx dev (flush_all_addr dev i)) =
      (i mod unat (nchannels (dev_geo dev))) * unat (nluns (dev_geo dev)) + i div unat (nchannels (dev_geo dev))"
    "\<not> addr_check_fails (flush_all_addr dev i) dev"
proof -
  let ?c = "unat (nchannels (dev_geo dev))" and ?l = "unat (nluns (dev_geo dev))"
  note g = bbt_geo_okD [OF assms(1)]
  have "i < 256 * 256" using assms(2) g(3,5) by (meson le_less_trans less_le_trans mult_le_mono)
  then have u: "unat (of_nat i :: u64) = i" by (intro unat_u64) simp
  have q: "i div ?c < ?l" using assms(2) by (simp add: less_mult_imp_div_less mult.commute)
  have r: "i mod ?c < ?c" using g(2) by simp
  have b: "i div ?c mod ?l < 2 ^ 8" "i mod ?c < 2 ^ 8" using q r g(3,5) by auto
  have f: "unat (g_ch (flush_all_addr dev i)) = i mod ?c" "unat (g_lun (flush_all_addr dev i)) = i div ?c"
    using b q by (simp_all add: flush_all_addr_def bitfield_simps take_bit_id unat_div_distrib unat_mod_distrib u)
  show "unat (bbt_idx dev (flush_all_addr dev i)) = (i mod ?c) * ?l + i div ?c"
    by (simp add: unat_bbt_idx [OF assms(1)] f)
  have "g_pl (flush_all_addr dev i) = 0" "g_blk (flush_all_addr dev i) = 0" "g_pg (flush_all_addr dev i) = 0"
    "g_sec (flush_all_addr dev i) = 0" by (simp_all add: flush_all_addr_def bitfield_simps)
  then show "\<not> addr_check_fails (flush_all_addr dev i) dev"
    using assms(1) f q r by (simp add: addr_check_fails_s12 in_bounds_s12_def word_less_nat_alt bbt_geo_ok_def Let_def)
qed

lemma flush_all_covers:
  assumes "bbt_geo_ok dev" "k < ntabs dev"
  shows "\<exists>i < ntabs dev. unat (bbt_idx dev (flush_all_addr dev i)) = k"
proof -
  let ?c = "unat (nchannels (dev_geo dev))" and ?l = "unat (nluns (dev_geo dev))"
  let ?i = "(k mod ?l) * ?c + k div ?l"
  have q: "k div ?l < ?c" "k mod ?l < ?l"
    using assms(2) bbt_geo_okD(4) [OF assms(1)] by (simp_all add: less_mult_imp_div_less)
  then have i: "?i < ntabs dev" using digit_lt [of "k mod ?l" ?l "k div ?l" ?c] by (simp add: mult.commute)
  moreover have "?i mod ?c = k div ?l" "?i div ?c = k mod ?l" using q by auto
  ultimately show ?thesis
    by (intro exI [of _ ?i]) (simp add: flush_all_addr_idx [OF assms(1) i])
qed

definition flushed :: "nvm_dev \<Rightarrow> nat set \<Rightarrow> nvm_bbt option list" where
  "flushed d K = map (\<lambda>k. if k \<in> K then None else dev_bbts d ! k) [0..<ntabs d]"

definition flushed_tab :: "nvm_dev \<Rightarrow> (nat \<Rightarrow> u8 list) \<Rightarrow> nat set \<Rightarrow> nat \<Rightarrow> u8 list" where
  "flushed_tab d t K k = (if k \<in> K then (case dev_bbts d ! k of None \<Rightarrow> t k | Some b \<Rightarrow> bbt_blks b) else t k)"

lemma cache_wf_flushed: "cache_wf d \<Longrightarrow> cache_wf (d\<lparr>dev_bbts := flushed d K\<rparr>)"
  by (auto simp: cache_wf_def flushed_def split: if_splits)

lemma flushed_insert: "(flushed d K)[k := None] = flushed d (insert k K)"
  by (cases "k < ntabs d"; rule nth_equalityI) (auto simp: flushed_def nth_list_update)

lemma flush_loop:
  assumes wf: "cache_wf d" and laws: "bbt_laws sys be (dev_geo d) tab" and n: "n \<le> ntabs d"
    and run: "each_op (\<lambda>i. nvm_bbt_flush sys be (flush_all_addr d i) ret) [0..<n] (d, w) = (Inr (), (d', w'))"
  defines "K \<equiv> (\<lambda>i. unat (bbt_idx d (flush_all_addr d i))) ` {..<n}"
  shows "d' = d\<lparr>dev_bbts := flushed d K\<rparr> \<and> tab w' = flushed_tab d (tab w) K"
  using n run unfolding K_def
proof (induction n arbitrary: d' w')
  case 0
  have "flushed d {} = dev_bbts d"
    using cache_wfD(2) [OF wf] by (simp add: flushed_def list_eq_iff_nth_eq)
  with 0 show ?case by (simp add: ok_def flushed_tab_def fun_eq_iff)
next
  case (Suc n)
  let ?K = "(\<lambda>i. unat (bbt_idx d (flush_all_addr d i))) ` {..<n}" and ?k = "unat (bbt_idx d (flush_all_addr d n))"
  obtain d1 w1 where 1: "each_op (\<lambda>i. nvm_bbt_flush sys be (flush_all_addr d i) ret) [0..<n] (d, w) = (Inr (), (d1, w1))"
      "nvm_bbt_flush sys be (flush_all_addr d n) ret (d1, w1) = (Inr (), (d', w'))"
    using Suc.prems(2) by (auto simp: each_op_append andThen_Inr)
  from Suc.IH [OF _ 1(1)] Suc.prems(1) have IH: "d1 = d\<lparr>dev_bbts := flushed d ?K\<rparr>" "tab w1 = flushed_tab d (tab w) ?K"
    by simp_all
  have k: "?k < ntabs d"
    using Suc.prems(1) checked_idx_lt(1) flush_all_addr_idx(2) cache_wfD(1) [OF wf] by simp
  have laws1: "bbt_laws sys be (dev_geo d1) tab" using laws by (simp add: IH)
  have wf1: "cache_wf d1" using cache_wf_flushed [OF wf, of ?K] by (simp add: IH(1))
  have idx: "bbt_idx d1 = bbt_idx d" "dev_bbts d1 = flushed d ?K" by (simp_all add: IH(1))
  note fl = flush_writes(2,3) [OF wf1 laws1 1(2), unfolded idx]
  from fl(1) have d': "d' = d\<lparr>dev_bbts := (flushed d ?K)[?k := None]\<rparr>" by (simp add: IH(1))
  note t' = fl(2)
  have K: "(\<lambda>i. unat (bbt_idx d (flush_all_addr d i))) ` {..<Suc n} = insert ?k ?K"
    by (simp add: lessThan_Suc)
  have "(flushed d ?K)[?k := None] = flushed d (insert ?k ?K)"
    by (rule flushed_insert)
  moreover have "tab w' = flushed_tab d (tab w) (insert ?k ?K)"
    using k by (auto simp: t' IH(2) flushed_def flushed_tab_def fun_eq_iff split: option.splits if_splits)
  ultimately show ?case by (simp add: K d')
qed

lemma nvm_bbt_flush_all_eq:
  assumes "cache_wf d"
  shows "nvm_bbt_flush_all sys be ret (d, w) =
    each_op (\<lambda>i. nvm_bbt_flush sys be (flush_all_addr d i) ret) [0..<ntabs d] (d, w)"
  using bbt_geo_okD(10,11) [OF cache_wfD(1) [OF assms]]
  by (simp add: nvm_bbt_flush_all_def get_dev_def andThen_def cache_wfD(3) [OF assms])

lemma flush_all_writes:
  assumes wf: "cache_wf d" and laws: "bbt_laws sys be (dev_geo d) tab"
    and run: "nvm_bbt_flush_all sys be ret (d, w) = (Inr (), (d', w'))"
  shows "d' = d\<lparr>dev_bbts := replicate (ntabs d) None\<rparr>"
    "k < ntabs d \<Longrightarrow> tab w' k = (case dev_bbts d ! k of None \<Rightarrow> tab w k | Some b \<Rightarrow> bbt_blks b)"
proof -
  let ?K = "(\<lambda>i. unat (bbt_idx d (flush_all_addr d i))) ` {..<ntabs d}"
  have K: "k \<in> ?K" if "k < ntabs d" for k
    using flush_all_covers [OF cache_wfD(1) [OF wf] that] by (metis imageI lessThan_iff)
  have l: "d' = d\<lparr>dev_bbts := flushed d ?K\<rparr> \<and> tab w' = flushed_tab d (tab w) ?K"
    by (rule flush_loop [OF wf laws order_refl run [unfolded nvm_bbt_flush_all_eq [OF wf]]])
  have "flushed d ?K = replicate (ntabs d) None"
    using K by (auto simp: flushed_def list_eq_iff_nth_eq simp del: image_iff)
  with l show "d' = d\<lparr>dev_bbts := replicate (ntabs d) None\<rparr>" by simp
  show "tab w' k = (case dev_bbts d ! k of None \<Rightarrow> tab w k | Some b \<Rightarrow> bbt_blks b)" if "k < ntabs d"
    using l K [OF that] by (simp add: flushed_tab_def del: image_iff)
qed

text \<open>When the device answers every command, a flush succeeds.\<close>

definition bbt_answers :: "'w nvm_be \<Rightarrow> bool" where
  "bbt_answers be \<longleftrightarrow> (\<forall>d a ret w. \<exists>p spec w'. be_gbbt be d a ret w = (Inr (p, spec), w')) \<and>
     (\<forall>d as n st ret w. \<exists>w'. be_sbbt be d as n st ret w = (Inr (), w'))"

lemma flush_succeeds:
  assumes wf: "cache_wf d" and laws: "bbt_laws sys be (dev_geo d) tab" and ans: "bbt_answers be"
    and chk: "\<not> addr_check_fails a d" and len: "length (tab w (unat (bbt_idx d a))) = tab_len d"
  shows "\<exists>d' w'. nvm_bbt_flush sys be a ret (d, w) = (Inr (), (d', w'))"
proof (cases "dev_bbts d ! unat (bbt_idx d a)")
  case None
  then show ?thesis
    using chk checked_idx_lt(1) [OF cache_wfD(1) [OF wf] chk]
    by (auto simp: nvm_bbt_flush_def bbt_op_simps Let_def bbts_read_def cache_wfD(2) [OF wf])
next
  case (Some b)
  have i: "unat (bbt_idx d a) < ntabs d" by (rule checked_idx_lt(1) [OF cache_wfD(1) [OF wf] chk])
  note wfb = cache_wfD(4) [OF wf i Some]
  obtain p spec w1 where g: "nvm_cmd_gbbt be d a ret w = (Inr (p, spec), w1)"
    using ans unfolding bbt_answers_def nvm_cmd_gbbt_def by metis
  note tg = bbt_laws_gbbt [OF laws g]
  have n: "bbt_nblks b = ucast (sbbt_tblks spec)"
    using wfb by (simp add: word_unat_eq_iff unat_ucast_up tg(2,3) len entry_wf_def)
  have "\<exists>w'. flush_step be d b spec ret j v = (Inr (), w')" if "j < unat (bbt_nblks b)" for j v
    using that wfb len ans bbt_geo_okD(12) [OF cache_wfD(1) [OF wf]]
    by (auto simp: flush_step_def entry_wf_def tg(2) ok_def bbt_answers_def nvm_cmd_sbbt_def)
  then obtain w2 where "each_op (flush_step be d b spec ret) [0..<unat (bbt_nblks b)] w1 = (Inr (), w2)"
    using each_op_succeeds [of "[0..<unat (bbt_nblks b)]" "\<lambda>_. True" "flush_step be d b spec ret" w1] by auto
  then show ?thesis
    using chk i g n Some
    by (auto simp: nvm_bbt_flush_def bbt_op_simps Let_def bbts_read_def bbts_write_def on_error_Inr nvm_bbt_free_def
        cache_wfD(2) [OF wf])
qed

section \<open>Reading and marking\<close>

text \<open>The tables as a client of the cache sees them: the cached table, or that of the device.\<close>

definition bbt_view :: "nvm_dev \<Rightarrow> (nat \<Rightarrow> u8 list) \<Rightarrow> nat \<Rightarrow> u8 list" where
  "bbt_view d t k = (case dev_bbts d ! k of None \<Rightarrow> t k | Some b \<Rightarrow> bbt_blks b)"

lemma entry_alloc_ok:
  assumes geo: "bbt_geo_ok d" and laws: "bbt_laws sys be (dev_geo d) tab"
    and run: "bbt_entry_alloc sys a i (d, w) = (Inr (), (d', w'))" and i: "unat (bbt_idx d a) = unat i"
  shows "\<exists>b. d' = d\<lparr>dev_bbts := (dev_bbts d)[unat i := Some b]\<rparr> \<and> entry_wf d (unat i) b" "tab w' = tab w"
proof -
  let ?n = "c_int (uint (nblocks (dev_geo d) * nplanes (dev_geo d)))"
  have "tab_len d \<le> 65536 * 256" using bbt_geo_okD(7,9) [OF geo] by (intro mult_mono) auto
  then have u: "unat (nblocks (dev_geo d) * nplanes (dev_geo d)) = tab_len d" "tab_len d < 2 ^ 31"
    by (auto intro!: unat_mult_lt)
  then have n: "unat (word_of_int ?n :: u64) = tab_len d" "nat ?n = tab_len d"
    by (simp_all add: unat_word_of_c_int c_int_uint unat_eq_nat_uint [symmetric])
  obtain p w1 where "sys_malloc sys (48 + word_of_int ?n) w = (Inr p, w1)" "w' = w1"
     "d' = d\<lparr>dev_bbts := (dev_bbts d)[unat i := Some \<lparr>bbt_self = p, bbt_addr = a, bbt_nblks = word_of_int ?n,
        bbt_nbad = 0, bbt_ngbad = 0, bbt_ndmrk = 0, bbt_nhmrk = 0, bbt_blks = replicate (nat ?n) 0\<rparr>]\<rparr>"
    using run
    by (auto simp: bbt_entry_alloc_def Let_def andThen_def get_dev_def on_world_def bbts_write_def
        split: prod.splits sum.splits failure.splits if_splits)
  with n i bbt_laws_malloc [OF laws]
  show "\<exists>b. d' = d\<lparr>dev_bbts := (dev_bbts d)[unat i := Some b]\<rparr> \<and> entry_wf d (unat i) b" "tab w' = tab w"
    by (auto simp: entry_wf_def)
qed

lemma entry_fill_ok:
  assumes "entry_wf d i b" "sbbt_blk spec = t" "unat (sbbt_tblks spec) = length t" "bbt_nblks b = ucast (sbbt_tblks spec)"
  shows "\<exists>b'. bbt_entry_fill b spec = Inr b' \<and> entry_wf d i b' \<and> bbt_blks b' = t"
proof -
  have "length t = tab_len d" using assms by (simp add: entry_wf_def unat_ucast_up)
  then show ?thesis using assms by (simp add: bbt_entry_fill_def Let_def entry_wf_def)
qed

lemma bbts_same: "dev_bbts d ! i = e \<Longrightarrow> d\<lparr>dev_bbts := (dev_bbts d)[i := e]\<rparr> = d"
  by auto

lemma entry_read_ok:
  assumes laws: "bbt_laws sys be (dev_geo d) tab" and i: "unat (bbt_idx d a) < length (dev_bbts d1)"
    and wfb: "entry_wf d (unat (bbt_idx d a)) b1"
    and run: "bbt_entry_read sys be d a ret (bbt_idx d a) b1 (d1, w1) = (Inr b, (d', w'))"
  shows "d' = d1\<lparr>dev_bbts := (dev_bbts d1)[unat (bbt_idx d a) := Some b]\<rparr>" "entry_wf d (unat (bbt_idx d a)) b"
    "tab w' = tab w1" "bbt_blks b = tab w1 (unat (bbt_idx d a))"
proof -
  obtain p spec w2 where g: "nvm_cmd_gbbt be d a ret w1 = (Inr (p, spec), w2)"
    and n: "bbt_nblks b1 = ucast (sbbt_tblks spec)" and f: "bbt_entry_fill b1 spec = Inr b"
    and d': "d' = d1\<lparr>dev_bbts := (dev_bbts d1)[unat (bbt_idx d a) := Some b]\<rparr>" "w' = sys_free sys p w2"
    using run i
    by (auto simp: bbt_entry_read_def on_world_def andThen_def bbts_write_def fail_def upd_def ok_def lift_res_def
        split: prod.splits sum.splits failure.splits if_splits)
  note tg = bbt_laws_gbbt [OF laws g]
  from entry_fill_ok [OF wfb tg(2) tg(3) [unfolded tg(2)] n] f d' tg(1)
  show "d' = d1\<lparr>dev_bbts := (dev_bbts d1)[unat (bbt_idx d a) := Some b]\<rparr>" "entry_wf d (unat (bbt_idx d a)) b"
    "tab w' = tab w1" "bbt_blks b = tab w1 (unat (bbt_idx d a))"
    by (auto simp: bbt_laws_free [OF laws])
qed

lemma get_checked: "nvm_bbt_get sys be a ret (d, w) = (Inr b, s') \<Longrightarrow> \<not> addr_check_fails a d"
  by (auto simp: nvm_bbt_get_def get_dev_def andThen_def fail_def)

text \<open>A table that \<open>nvm_bbt_get\<close> reads from the device.\<close>

lemma get_reads:
  assumes wf: "cache_wf d" and laws: "bbt_laws sys be (dev_geo d) tab"
    and run: "nvm_bbt_get sys be a ret (d, w) = (Inr b, (d', w'))"
    and un: "\<not> (dev_bbts_cached d \<noteq> 0 \<and> dev_bbts d ! unat (bbt_idx d a) \<noteq> None)"
  shows "d' = d\<lparr>dev_bbts := (dev_bbts d)[unat (bbt_idx d a) := Some b]\<rparr>" "entry_wf d (unat (bbt_idx d a)) b"
    "tab w' = tab w" "bbt_blks b = tab w (unat (bbt_idx d a))"
proof -
  let ?i = "unat (bbt_idx d a)"
  note chk = get_checked [OF run]
  have i: "?i < ntabs d" "?i < length (dev_bbts d)"
    using checked_idx_lt(1) [OF cache_wfD(1) [OF wf] chk] by (simp_all add: cache_wfD(2) [OF wf])
  obtain d1 w1 b1 where
      e: "(if dev_bbts d ! ?i = None then bbt_entry_alloc sys a (bbt_idx d a) else ok ()) (d, w) = (Inr (), (d1, w1))"
    and b1: "dev_bbts d1 ! ?i = Some b1"
    and r1: "bbt_entry_read sys be d a ret (bbt_idx d a) b1 (d1, w1) = (Inr b, (d', w'))"
    using run chk i un
    by (auto simp: nvm_bbt_get_def get_dev_def andThen_def Let_def bbts_read_def fail_def
        split: prod.splits sum.splits option.splits if_splits)
  have d1: "d1 = d\<lparr>dev_bbts := (dev_bbts d)[?i := Some b1]\<rparr> \<and> entry_wf d ?i b1 \<and> tab w1 = tab w"
  proof (cases "dev_bbts d ! ?i")
    case None
    from e None have "bbt_entry_alloc sys a (bbt_idx d a) (d, w) = (Inr (), (d1, w1))" by simp
    from entry_alloc_ok [OF cache_wfD(1) [OF wf] laws this refl] b1 i show ?thesis by auto
  next
    case (Some b2)
    with e b1 cache_wfD(4) [OF wf i(1)] show ?thesis by (auto simp: ok_def bbts_same)
  qed
  then have "?i < length (dev_bbts d1)" using i by simp
  from entry_read_ok [OF laws this _ r1] d1
  show "d' = d\<lparr>dev_bbts := (dev_bbts d)[?i := Some b]\<rparr>" "entry_wf d ?i b" "tab w' = tab w" "bbt_blks b = tab w ?i"
    by auto
qed

lemma get_ok:
  assumes wf: "cache_wf d" and laws: "bbt_laws sys be (dev_geo d) tab"
    and run: "nvm_bbt_get sys be a ret (d, w) = (Inr b, (d', w'))"
  shows "d' = d\<lparr>dev_bbts := (dev_bbts d)[unat (bbt_idx d a) := Some b]\<rparr>"
    "entry_wf d (unat (bbt_idx d a)) b" "tab w' = tab w"
    "bbt_blks b = (if dev_bbts_cached d \<noteq> 0 then bbt_view d (tab w) (unat (bbt_idx d a)) else tab w (unat (bbt_idx d a)))"
proof -
  let ?i = "unat (bbt_idx d a)"
  have i: "?i < ntabs d" "?i < length (dev_bbts d)"
    using checked_idx_lt(1) [OF cache_wfD(1) [OF wf] get_checked [OF run]] by (simp_all add: cache_wfD(2) [OF wf])
  have "d' = d\<lparr>dev_bbts := (dev_bbts d)[?i := Some b]\<rparr> \<and> entry_wf d ?i b \<and> tab w' = tab w \<and>
    bbt_blks b = (if dev_bbts_cached d \<noteq> 0 then bbt_view d (tab w) ?i else tab w ?i)"
  proof (cases "dev_bbts_cached d \<noteq> 0 \<and> dev_bbts d ! ?i \<noteq> None")
    case True
    then have "dev_bbts d ! ?i = Some b" "d' = d" "w' = w"
      using run get_checked [OF run] i by (auto simp: nvm_bbt_get_def bbt_op_simps Let_def bbts_read_def)
    then show ?thesis using True cache_wfD(4) [OF wf i(1)] by (simp add: bbt_view_def bbts_same)
  next
    case False
    with get_reads [OF wf laws run False] show ?thesis by (auto simp: bbt_view_def)
  qed
  then show "d' = d\<lparr>dev_bbts := (dev_bbts d)[?i := Some b]\<rparr>" "entry_wf d ?i b" "tab w' = tab w"
    "bbt_blks b = (if dev_bbts_cached d \<noteq> 0 then bbt_view d (tab w) ?i else tab w ?i)" by blast+
qed

lemma refresh_counters_blks:
  "refresh_counters dev b = Inr b' \<Longrightarrow> bbt_blks b' = bbt_blks b \<and> bbt_addr b' = bbt_addr b \<and> bbt_nblks b' = bbt_nblks b"
  by (auto simp: refresh_counters_def Let_def split: if_splits)

lemma refresh_entry_ok:
  assumes "refresh_entry i (d, w) = (Inr (), (d', w'))" "dev_bbts d ! unat i = Some b" "entry_wf d (unat i) b"
  shows "\<exists>b'. d' = d\<lparr>dev_bbts := (dev_bbts d)[unat i := Some b']\<rparr> \<and> bbt_blks b' = bbt_blks b \<and> entry_wf d (unat i) b'"
    "w' = w"
proof -
  have "(d' = d \<or> (\<exists>b'. refresh_counters d b = Inr b' \<and> d' = d\<lparr>dev_bbts := (dev_bbts d)[unat i := Some b']\<rparr>)) \<and> w' = w"
    using assms(1,2)
    by (auto simp: refresh_entry_def get_dev_def andThen_def bbts_read_def bbts_write_def ok_def fail_def
        split: sum.splits failure.splits if_splits)
  moreover have "entry_wf d (unat i) b' \<and> bbt_blks b' = bbt_blks b" if "refresh_counters d b = Inr b'" for b'
    using assms(3) refresh_counters_blks [OF that] by (simp add: entry_wf_def)
  moreover have "d = d\<lparr>dev_bbts := (dev_bbts d)[unat i := Some b]\<rparr>" by (simp add: bbts_same [OF assms(2)])
  ultimately show "\<exists>b'. d' = d\<lparr>dev_bbts := (dev_bbts d)[unat i := Some b']\<rparr> \<and> bbt_blks b' = bbt_blks b \<and>
      entry_wf d (unat i) b'" "w' = w"
    using assms(3) by metis+
qed

text \<open>Marking and setting change the view at the block, or the table, that is given.\<close>

definition view_mark :: "nvm_dev \<Rightarrow> u8 \<Rightarrow> nvm_addr \<Rightarrow> (nat \<Rightarrow> u8 list) \<Rightarrow> nat \<Rightarrow> u8 list" where
  "view_mark d st a v = v(unat (bbt_idx d a) := (v (unat (bbt_idx d a)))[unat (blk_idx d a) := st])"

lemma view_mark_update [simp]: "view_mark (d\<lparr>dev_bbts := bs\<rparr>) = view_mark d"
  by (simp add: view_mark_def fun_eq_iff)

lemma bbt_view_update:
  assumes "cache_wf d" "i < ntabs d"
  shows "bbt_view (d\<lparr>dev_bbts := (dev_bbts d)[i := Some b]\<rparr>) t = (bbt_view d t)(i := bbt_blks b)"
  using assms by (auto simp: bbt_view_def fun_eq_iff cache_wfD(2))

lemma mark_step_ok:
  assumes wf: "cache_wf d" and laws: "bbt_laws sys be (dev_geo d) tab" and c: "dev_bbts_cached d \<noteq> 0"
    and run: "mark_step sys be flags ret a (d, w) = (Inr (), (d', w'))"
  shows "cache_wf d'" "\<exists>bs. d' = d\<lparr>dev_bbts := bs\<rparr>" "tab w' = tab w" "\<not> addr_check_fails a d"
    "bbt_view d' (tab w') = view_mark d (ucast flags) a (bbt_view d (tab w))"
proof -
  let ?i = "unat (bbt_idx d a)"
  obtain b d1 w1 where g: "nvm_bbt_get sys be a ret (d, w) = (Inr b, (d1, w1))"
    and r: "andThen (bbts_write (bbt_idx d a) (Some (b\<lparr>bbt_blks := (bbt_blks b)[unat (blk_idx d a) := ucast flags]\<rparr>)))
      (\<lambda>_. refresh_entry (bbt_idx d a)) (d1, w1) = (Inr (), (d', w'))"
    using run by (auto simp: mark_step_def bbt_op_simps split: if_splits)
  note go = get_ok [OF wf laws g]
  let ?b = "b\<lparr>bbt_blks := (bbt_blks b)[unat (blk_idx d a) := ucast flags]\<rparr>"
  show chk: "\<not> addr_check_fails a d" by (rule get_checked [OF g])
  have i: "?i < ntabs d" by (rule checked_idx_lt(1) [OF cache_wfD(1) [OF wf] chk])
  have wfb: "entry_wf d ?i ?b" using go(2) by (simp add: entry_wf_def)
  have "refresh_entry (bbt_idx d a) (d\<lparr>dev_bbts := (dev_bbts d)[?i := Some ?b]\<rparr>, w1) = (Inr (), (d', w'))"
    using r i by (simp add: andThen_def bbts_write_def go(1) cache_wfD(2) [OF wf])
  from refresh_entry_ok [OF this, of ?b] i wfb obtain b' where
    d': "d' = d\<lparr>dev_bbts := (dev_bbts d)[?i := Some b']\<rparr>" "bbt_blks b' = bbt_blks ?b" "entry_wf d ?i b'" "w' = w1"
    by (auto simp: cache_wfD(2) [OF wf])
  show "cache_wf d'" unfolding d'(1) by (rule cache_wf_update [OF wf]) (simp add: d'(3))
  show "\<exists>bs. d' = d\<lparr>dev_bbts := bs\<rparr>" using d'(1) by blast
  show t: "tab w' = tab w" by (simp add: d'(4) go(3))
  show "bbt_view d' (tab w') = view_mark d (ucast flags) a (bbt_view d (tab w))"
    using go(4) c by (simp add: t d'(1,2) bbt_view_update [OF wf i] view_mark_def)
qed

lemma mark_loop_ok:
  assumes "cache_wf d" "bbt_laws sys be (dev_geo d) tab" "dev_bbts_cached d \<noteq> 0"
    "each_op (mark_step sys be flags ret) as (d, w) = (Inr (), (d', w'))"
  shows "cache_wf d' \<and> (\<exists>bs. d' = d\<lparr>dev_bbts := bs\<rparr>) \<and> tab w' = tab w \<and> (\<forall>a \<in> set as. \<not> addr_check_fails a d) \<and>
    bbt_view d' (tab w') = fold (view_mark d (ucast flags)) as (bbt_view d (tab w))"
  using assms
proof (induction as arbitrary: d w)
  case Nil
  then show ?case by (auto simp: ok_def intro: exI [of _ "dev_bbts d"])
next
  case (Cons a as)
  from Cons.prems(4) obtain d1 w1 where 1: "mark_step sys be flags ret a (d, w) = (Inr (), (d1, w1))"
      "each_op (mark_step sys be flags ret) as (d1, w1) = (Inr (), (d', w'))"
    by (auto simp: andThen_Inr)
  note s = mark_step_ok [OF Cons.prems(1-3) 1(1)]
  from s(2) obtain bs where bs: "d1 = d\<lparr>dev_bbts := bs\<rparr>" by blast
  have "bbt_laws sys be (dev_geo d1) tab" "dev_bbts_cached d1 \<noteq> 0" using Cons.prems(2,3) by (simp_all add: bs)
  from Cons.IH [OF s(1) this 1(2)] s(3-5) show ?case by (auto simp: bs)
qed

lemma set_ok:
  assumes wf: "cache_wf d" and laws: "bbt_laws sys be (dev_geo d) tab" and c: "dev_bbts_cached d \<noteq> 0"
    and n: "unat (bbt_nblks b) = tab_len d" "length (bbt_blks b) = tab_len d"
    and run: "nvm_bbt_set sys be b ret (d, w) = (Inr (), (d', w'))"
  shows "cache_wf d'" "tab w' = tab w"
    "bbt_view d' (tab w') = (bbt_view d (tab w))(unat (bbt_idx d (bbt_addr b)) := bbt_blks b)"
    "\<exists>bs. d' = d\<lparr>dev_bbts := bs\<rparr>"
proof -
  let ?a = "bbt_addr b" let ?i = "unat (bbt_idx d ?a)"
  obtain e d1 w1 where g: "nvm_bbt_get sys be ?a ret (d, w) = (Inr e, (d1, w1))"
    and r: "andThen (bbts_write (bbt_idx d ?a) (Some (e\<lparr>bbt_blks := take (tab_len d) (bbt_blks b) @ drop (tab_len d) (bbt_blks e)\<rparr>)))
      (\<lambda>_. andThen (refresh_entry (bbt_idx d ?a)) (\<lambda>_. ok ())) (d1, w1) = (Inr (), (d', w'))"
    using run c by (auto simp: nvm_bbt_set_def Let_def bbt_op_simps n split: if_splits)
  note go = get_ok [OF wf laws g]
  have i: "?i < ntabs d" by (rule checked_idx_lt(1) [OF cache_wfD(1) [OF wf] get_checked [OF g]])
  let ?e = "e\<lparr>bbt_blks := bbt_blks b\<rparr>"
  have wfe: "entry_wf d ?i ?e" "drop (tab_len d) (bbt_blks e) = []" using go(2) n by (simp_all add: entry_wf_def)
  have "refresh_entry (bbt_idx d ?a) (d\<lparr>dev_bbts := (dev_bbts d)[?i := Some ?e]\<rparr>, w1) = (Inr (), (d', w'))"
    using r i wfe(2) n(2) by (simp add: andThen_def bbts_write_def go(1) cache_wfD(2) [OF wf] ok_def split: prod.splits sum.splits)
  from refresh_entry_ok [OF this, of ?e] i wfe(1) obtain b' where
    d': "d' = d\<lparr>dev_bbts := (dev_bbts d)[?i := Some b']\<rparr>" "bbt_blks b' = bbt_blks b" "entry_wf d ?i b'" "w' = w1"
    by (auto simp: cache_wfD(2) [OF wf])
  show "cache_wf d'" unfolding d'(1) by (rule cache_wf_update [OF wf]) (simp add: d'(3))
  show t: "tab w' = tab w" by (simp add: d'(4) go(3))
  show "\<exists>bs. d' = d\<lparr>dev_bbts := bs\<rparr>" using d'(1) by blast
  show "bbt_view d' (tab w') = (bbt_view d (tab w))(?i := bbt_blks b)"
    by (simp add: t d'(1,2) bbt_view_update [OF wf i])
qed

definition tab_lens :: "nvm_dev \<Rightarrow> (nat \<Rightarrow> u8 list) \<Rightarrow> bool" where
  "tab_lens d t \<longleftrightarrow> (\<forall>k < ntabs d. length (t k) = tab_len d)"

lemma flush_all_succeeds:
  assumes wf: "cache_wf d" and laws: "bbt_laws sys be (dev_geo d) tab" and ans: "bbt_answers be" and len: "tab_lens d (tab w)"
  shows "\<exists>d' w'. nvm_bbt_flush_all sys be ret (d, w) = (Inr (), (d', w'))"
proof -
  let ?P = "\<lambda>(d', w'). cache_wf d' \<and> (\<exists>bs. d' = d\<lparr>dev_bbts := bs\<rparr>) \<and> tab_lens d (tab w')"
  have "\<exists>s'. nvm_bbt_flush sys be (flush_all_addr d i) ret s = (Inr (), s') \<and> ?P s'"
    if i: "i < ntabs d" and P: "?P s" for i s
  proof -
    obtain d1 w1 bs where s: "s = (d1, w1)" "cache_wf d1" "d1 = d\<lparr>dev_bbts := bs\<rparr>" "tab_lens d (tab w1)"
      using P by auto
    let ?a = "flush_all_addr d i" let ?i = "unat (bbt_idx d ?a)"
    have chk: "\<not> addr_check_fails ?a d" and k: "?i < ntabs d"
      using flush_all_addr_idx(2) checked_idx_lt(1) cache_wfD(1) [OF wf] i by simp_all
    have l1: "bbt_laws sys be (dev_geo d1) tab" "\<not> addr_check_fails ?a d1" "bbt_idx d1 ?a = bbt_idx d ?a"
      "ntabs d1 = ntabs d" "tab_len d1 = tab_len d" using laws chk by (simp_all add: s(3))
    have "length (tab w1 (unat (bbt_idx d1 ?a))) = tab_len d1" using s(4) k by (simp add: l1 tab_lens_def)
    then obtain d2 w2 where f: "nvm_bbt_flush sys be ?a ret (d1, w1) = (Inr (), (d2, w2))"
      using flush_succeeds [OF s(2) l1(1) ans l1(2)] by blast
    note fw = flush_writes(2,3) [OF s(2) l1(1) f, unfolded l1(3)]
    have "cache_wf d2" unfolding fw(1) by (rule cache_wf_update [OF s(2)]) simp
    moreover have "length (bbt_blks b) = tab_len d" if "dev_bbts d1 ! ?i = Some b" for b
      using cache_wfD(4) [OF s(2) _ that] k l1 by (simp add: entry_wf_def)
    then have "tab_lens d (tab w2)"
      using s(4) by (auto simp: fw(2) tab_lens_def split: option.splits)
    ultimately show ?thesis using f fw(1) s(1,3) by auto
  qed
  moreover have "?P (d, w)" using wf len by (auto intro: exI [of _ "dev_bbts d"])
  ultimately have "\<exists>s'. each_op (\<lambda>i. nvm_bbt_flush sys be (flush_all_addr d i) ret) [0..<ntabs d] (d, w) = (Inr (), s') \<and> ?P s'"
    by (intro each_op_succeeds) auto
  then show ?thesis by (auto simp: nvm_bbt_flush_all_eq [OF wf])
qed

lemma fold_view_mark_nth:
  assumes "\<And>k. k < ntabs d \<Longrightarrow> length (v k) = tab_len d" "k < ntabs d" "j < tab_len d"
  shows "fold (view_mark d st) as v k ! j =
    (if \<exists>a \<in> set as. unat (bbt_idx d a) = k \<and> unat (blk_idx d a) = j then st else v k ! j)"
  using assms(1)
proof (induction as arbitrary: v)
  case (Cons a as)
  have "length (view_mark d st a v k') = tab_len d" if "k' < ntabs d" for k'
    using Cons.prems that by (simp add: view_mark_def)
  note IH = Cons.IH [OF this]
  have "view_mark d st a v k ! j = (if unat (bbt_idx d a) = k \<and> unat (blk_idx d a) = j then st else v k ! j)"
    using Cons.prems [OF assms(2)] assms(3) by (auto simp: view_mark_def nth_list_update)
  with IH show ?case by auto
qed simp

lemma bbt_view_lens: "cache_wf d \<Longrightarrow> tab_lens d t \<Longrightarrow> k < ntabs d \<Longrightarrow> length (bbt_view d t k) = tab_len d"
  using cache_wfD(4) [of d k] by (auto simp: bbt_view_def tab_lens_def entry_wf_def split: option.splits)

lemma mark_cached_ok:
  assumes "cache_wf d" "bbt_laws sys be (dev_geo d) tab" "dev_bbts_cached d \<noteq> 0"
    and run: "nvm_bbt_mark sys be addrs naddrs flags ret (d, w) = (Inr (), (d', w'))"
  shows "cache_wf d'" "\<exists>bs. d' = d\<lparr>dev_bbts := bs\<rparr>" "tab w' = tab w"
    "bbt_view d' (tab w') = fold (view_mark d (ucast flags)) (take (nat naddrs) addrs) (bbt_view d (tab w))"
proof -
  have "each_op (mark_step sys be flags ret) (take (nat naddrs) addrs) (d, w) = (Inr (), (d', w'))"
    using run assms(3) by (auto simp: nvm_bbt_mark_def bbt_op_simps arg_addrs_def lift_res_def split: if_splits)
  from mark_loop_ok [OF assms(1-3) this]
  show "cache_wf d'" "\<exists>bs. d' = d\<lparr>dev_bbts := bs\<rparr>" "tab w' = tab w"
    "bbt_view d' (tab w') = fold (view_mark d (ucast flags)) (take (nat naddrs) addrs) (bbt_view d (tab w))" by blast+
qed

section \<open>Properties\<close>

text \<open>A device with four LUNs of two blocks and two planes; its tables are the state of the world.\<close>

definition ex_dev_bbt :: nvm_dev where
  "ex_dev_bbt = ex_dev_s12\<lparr>dev_geo := \<lparr>nchannels = 2, nluns = 2, nblocks = 2, nsectors = 4, sector_nbytes = 4096,
     meta_nbytes = 16, nplanes = 2, npages = 4, page_nbytes = 16384, tbytes = 2 * 2 * 2 * 2 * 4 * 4 * 4096, geo_verid = 1\<rparr>,
     dev_bbts_cached := 1, dev_nbbts := 4, dev_bbts := replicate 4 None\<rparr>"

definition ex_tab :: "u8 list list \<Rightarrow> nat \<Rightarrow> u8 list" where
  "ex_tab w k = (if k < length w then take 4 (w ! k) else [])"

definition ex_tab_set :: "nvm_dev \<Rightarrow> u16 \<Rightarrow> nvm_addr \<Rightarrow> u8 list list \<Rightarrow> u8 list list" where
  "ex_tab_set d st a w = w[unat (bbt_idx d a) := (w ! unat (bbt_idx d a))[unat (blk_idx d a) := ucast st]]"

definition ex_be_bbt :: "u8 list list nvm_be" where
  "ex_be_bbt = (nvm_be_disabled NVM_BE_IOCTL ''NVM_BE_IOCTL'')\<lparr>
     be_gbbt := \<lambda>d a ret w. (Inr (0x1000, \<lparr>sbbt_tblid = [], sbbt_tblks = of_nat (length (ex_tab w (unat (bbt_idx d a)))),
       sbbt_tfact = 0, sbbt_tgrown = 0, sbbt_tdresv = 0, sbbt_thresv = 0, sbbt_blk = ex_tab w (unat (bbt_idx d a))\<rparr>), w),
     be_sbbt := \<lambda>d as n st ret w. (Inr (), fold (ex_tab_set d st) as w)\<rparr>"

definition ex_sys_bbt :: "u8 list list sys" where
  "ex_sys_bbt = \<lparr>sys_aligned_alloc = \<lambda>_ _ w. (Inr 0x2000, w), sys_free = \<lambda>_ w. w, sys_malloc = \<lambda>_ w. (Inr 0x3000, w),
     sys_calloc = \<lambda>_ _ w. (Inr 0x4000, w), sys_spdk_dma_malloc = \<lambda>_ _ w. (Inl (Errno ENOMEM), w),
     sys_spdk_dma_realloc = \<lambda>_ _ _ w. (Inl (Errno ENOMEM), w), sys_spdk_dma_free = \<lambda>_ w. w,
     sys_spdk_vtophys = \<lambda>_ _. 0, sys_rand = \<lambda>w. (0, w), sys_getenv = \<lambda>_ _. None,
     sys_store = \<lambda>_ _ w. w, sys_ret_async = \<lambda>_ _ w. w, sys_ret_clear = \<lambda>_ w. w\<rparr>"

definition ex_tables :: "u8 list list" where
  "ex_tables = [[0, 0, 0, 0], [0, 1, 0, 0], [0, 0, 2, 2], [0, 0, 0, 0]]"

lemma ex_bbt_laws: "bbt_laws ex_sys_bbt ex_be_bbt geo ex_tab"
proof -
  have "unat (of_nat (length (ex_tab w k)) :: u32) = length (ex_tab w k)" for w k
    by (intro unat_of_nat_lt) (auto simp: ex_tab_def min_def)
  moreover have "ex_tab (ex_tab_set d st a w) = (ex_tab w)(unat (bbt_idx d a) :=
      (ex_tab w (unat (bbt_idx d a)))[unat (blk_idx d a) := ucast st])" for d st a w
    by (auto simp: ex_tab_def ex_tab_set_def fun_eq_iff take_update_swap)
  ultimately show ?thesis by (simp add: bbt_laws_def ex_be_bbt_def ex_sys_bbt_def)
qed

lemma ex_bbt_answers: "bbt_answers ex_be_bbt"
  by (simp add: bbt_answers_def ex_be_bbt_def)

lemma ex_cache_wf: "cache_wf ex_dev_bbt" "tab_lens ex_dev_bbt (ex_tab ex_tables)"
proof -
  have "bbt_geo_ok ex_dev_bbt" "ntabs ex_dev_bbt = 4" "unat (dev_nbbts ex_dev_bbt) = 4" by code_simp+
  moreover have "dev_bbts ex_dev_bbt = replicate 4 None" by (simp add: ex_dev_bbt_def)
  ultimately show "cache_wf ex_dev_bbt" by (simp add: cache_wf_def)
  show "tab_lens ex_dev_bbt (ex_tab ex_tables)" by code_simp
qed

text \<open>
  C21. \<open>nvm_bbt_flush_all\<close>, which \<open>nvm_dev_close\<close> calls, writes back every cached table: when the
  device answers the commands it succeeds, the cache is empty afterwards, and the table of each LUN on
  the device is the cached table where there was one and the old table elsewhere. The walk over the
  indices visits every LUN, although it numbers them in another order than the cache does.
\<close>

theorem nvm_bbt_flush_all_writes_back:
  assumes "cache_wf d" "bbt_laws sys be (dev_geo d) tab" "bbt_answers be" "tab_lens d (tab w)"
  shows "\<exists>w'. nvm_bbt_flush_all sys be ret (d, w) = (Inr (), (d\<lparr>dev_bbts := replicate (ntabs d) None\<rparr>, w')) \<and>
    (\<forall>k < ntabs d. tab w' k = bbt_view d (tab w) k)"
proof -
  obtain d' w' where run: "nvm_bbt_flush_all sys be ret (d, w) = (Inr (), (d', w'))"
    using flush_all_succeeds [OF assms] by blast
  note fa = flush_all_writes [OF assms(1,2) run]
  have "\<forall>k < ntabs d. tab w' k = bbt_view d (tab w) k" using fa(2) by (simp add: bbt_view_def)
  then show ?thesis using run fa(1) by blast
qed

definition ex_dev_marked :: nvm_dev where
  "ex_dev_marked = ex_dev_bbt\<lparr>dev_bbts := (dev_bbts ex_dev_bbt)[1 := Some \<lparr>bbt_self = 0x5000,
     bbt_addr = set_g_lun 1 (NvmAddr 0), bbt_nblks = 4, bbt_nbad = 0, bbt_ngbad = 0, bbt_ndmrk = 0, bbt_nhmrk = 0,
     bbt_blks = [8, 1, 0, 8]\<rparr>]\<rparr>"

lemma ex_marked_wf: "cache_wf ex_dev_marked" "tab_lens ex_dev_marked (ex_tab ex_tables)"
proof -
  have "cache_wf (ex_dev_bbt\<lparr>dev_bbts := (dev_bbts ex_dev_bbt)[1 := Some b]\<rparr>)" if "entry_wf ex_dev_bbt 1 b" for b
    using that by (intro cache_wf_update ex_cache_wf(1)) simp
  then show "cache_wf ex_dev_marked" unfolding ex_dev_marked_def by this code_simp
  show "tab_lens ex_dev_marked (ex_tab ex_tables)" by code_simp
qed

theorem nvm_bbt_flush_all_writes_back_witness:
  "\<exists>w'. nvm_bbt_flush_all ex_sys_bbt ex_be_bbt 0 (ex_dev_marked, ex_tables) =
      (Inr (), (ex_dev_marked\<lparr>dev_bbts := replicate (ntabs ex_dev_marked) None\<rparr>, w')) \<and>
    (\<forall>k < ntabs ex_dev_marked. ex_tab w' k = bbt_view ex_dev_marked (ex_tab ex_tables) k)"
  by (rule nvm_bbt_flush_all_writes_back [OF ex_marked_wf(1) ex_bbt_laws ex_bbt_answers ex_marked_wf(2)])

text \<open>
  C32. A flush of a LUN that fails, at the address check, at a command or on tables of different sizes,
  leaves the cache as it was: the cached table, with its unwritten changes, is not dropped.
\<close>

theorem nvm_bbt_flush_error_keeps:
  assumes "nvm_bbt_flush sys be a ret (d, w) = (Inl e, (d', w'))"
  shows "d' = d"
  using flush_fails_clean [of sys be a ret] assms unfolding fails_clean_def by (metis fst_conv isl_def snd_conv)

theorem nvm_bbt_flush_error_keeps_witness:
  "\<exists>w'. nvm_bbt_flush ex_sys_bbt (nvm_be_disabled NVM_BE_LBD ''NVM_BE_LBD'') (set_g_lun 1 (NvmAddr 0)) 0
     (ex_dev_marked, ex_tables) = (Inl (Errno ENOSYS), (ex_dev_marked, w'))"
proof -
  have "fst (nvm_bbt_flush ex_sys_bbt (nvm_be_disabled NVM_BE_LBD ''NVM_BE_LBD'') (set_g_lun 1 (NvmAddr 0)) 0
     (ex_dev_marked, ex_tables)) = Inl (Errno ENOSYS)" by code_simp
  then obtain d' w' where r: "nvm_bbt_flush ex_sys_bbt (nvm_be_disabled NVM_BE_LBD ''NVM_BE_LBD'') (set_g_lun 1 (NvmAddr 0)) 0
     (ex_dev_marked, ex_tables) = (Inl (Errno ENOSYS), (d', w'))" by (metis prod.collapse)
  from nvm_bbt_flush_error_keeps [OF r] r show ?thesis by blast
qed

text \<open>
  C24. With the cache enabled, \<open>nvm_bbt_mark\<close> changes no table on the device; the marks reach it with
  the next \<open>nvm_bbt_flush_all\<close>, after which every block and plane that was given has the marked state
  and every other one the state it had for a client of the cache before.
\<close>

theorem nvm_bbt_mark_reaches_device:
  assumes "cache_wf d" "bbt_laws sys be (dev_geo d) tab" "bbt_answers be" "tab_lens d (tab w)" "dev_bbts_cached d \<noteq> 0"
    and run: "nvm_bbt_mark sys be addrs naddrs flags ret (d, w) = (Inr (), (d1, w1))"
  shows "tab w1 = tab w \<and> (\<exists>d2 w2. nvm_bbt_flush_all sys be ret (d1, w1) = (Inr (), (d2, w2)) \<and>
    (\<forall>k < ntabs d. \<forall>j < tab_len d. tab w2 k ! j =
       (if \<exists>a \<in> set (take (nat naddrs) addrs). unat (bbt_idx d a) = k \<and> unat (blk_idx d a) = j
        then ucast flags else bbt_view d (tab w) k ! j)))"
proof -
  note m = mark_cached_ok [OF assms(1,2,5) run]
  from m(2) obtain bs where bs: "d1 = d\<lparr>dev_bbts := bs\<rparr>" by blast
  have l1: "bbt_laws sys be (dev_geo d1) tab" "tab_lens d1 (tab w1)" "ntabs d1 = ntabs d"
    using assms(2,4) by (simp_all add: bs m(3) tab_lens_def)
  obtain d2 w2 where f: "nvm_bbt_flush_all sys be ret (d1, w1) = (Inr (), (d2, w2))"
    using flush_all_succeeds [OF m(1) l1(1) assms(3) l1(2)] by blast
  have "tab w2 k = fold (view_mark d (ucast flags)) (take (nat naddrs) addrs) (bbt_view d (tab w)) k" if "k < ntabs d" for k
    using flush_all_writes(2) [OF m(1) l1(1) f, of k] that l1(3) m(4) by (simp add: bbt_view_def fun_eq_iff)
  then show ?thesis
    using f m(3) fold_view_mark_nth [OF bbt_view_lens [OF assms(1,4)]] by auto
qed

definition ex_marks :: "nvm_addr list" where
  "ex_marks = [set_g_pl 1 (set_g_blk 1 (set_g_ch 1 (NvmAddr 0))), set_g_lun 1 (NvmAddr 0)]"

theorem nvm_bbt_mark_reaches_device_witness:
  "\<exists>d1 w1 d2 w2. nvm_bbt_mark ex_sys_bbt ex_be_bbt ex_marks 2 NVM_BBT_HMRK 0 (ex_dev_bbt, ex_tables) = (Inr (), (d1, w1)) \<and>
     ex_tab w1 = ex_tab ex_tables \<and>
     nvm_bbt_flush_all ex_sys_bbt ex_be_bbt 0 (d1, w1) = (Inr (), (d2, w2)) \<and>
     ex_tab w2 2 ! 3 = NVM_BBT_HMRK \<and> ex_tab w2 1 ! 0 = NVM_BBT_HMRK \<and> ex_tab w2 1 ! 1 = 1"
proof -
  have "fst (nvm_bbt_mark ex_sys_bbt ex_be_bbt ex_marks 2 NVM_BBT_HMRK 0 (ex_dev_bbt, ex_tables)) = Inr ()" by code_simp
  then obtain d1 w1 where r: "nvm_bbt_mark ex_sys_bbt ex_be_bbt ex_marks 2 NVM_BBT_HMRK 0 (ex_dev_bbt, ex_tables) = (Inr (), (d1, w1))"
    by (metis prod.collapse)
  have c: "dev_bbts_cached ex_dev_bbt \<noteq> 0" "ntabs ex_dev_bbt = 4" "tab_len ex_dev_bbt = 4" by code_simp+
  note t = nvm_bbt_mark_reaches_device [OF ex_cache_wf(1) ex_bbt_laws ex_bbt_answers ex_cache_wf(2) c(1) r]
  from t obtain d2 w2 where f: "nvm_bbt_flush_all ex_sys_bbt ex_be_bbt 0 (d1, w1) = (Inr (), (d2, w2))" and
    v: "\<And>k j. k < 4 \<Longrightarrow> j < 4 \<Longrightarrow> ex_tab w2 k ! j =
       (if \<exists>a \<in> set (take (nat 2) ex_marks). unat (bbt_idx ex_dev_bbt a) = k \<and> unat (blk_idx ex_dev_bbt a) = j
        then ucast (NVM_BBT_HMRK :: u16) else bbt_view ex_dev_bbt (ex_tab ex_tables) k ! j)" unfolding c(2,3) by metis
  have "(\<exists>a \<in> set (take (nat 2) ex_marks). unat (bbt_idx ex_dev_bbt a) = 2 \<and> unat (blk_idx ex_dev_bbt a) = 3)"
    "(\<exists>a \<in> set (take (nat 2) ex_marks). unat (bbt_idx ex_dev_bbt a) = 1 \<and> unat (blk_idx ex_dev_bbt a) = 0)"
    "\<not> (\<exists>a \<in> set (take (nat 2) ex_marks). unat (bbt_idx ex_dev_bbt a) = 1 \<and> unat (blk_idx ex_dev_bbt a) = 1)"
    "bbt_view ex_dev_bbt (ex_tab ex_tables) 1 ! 1 = 1" by code_simp+
  then have "ex_tab w2 2 ! 3 = NVM_BBT_HMRK \<and> ex_tab w2 1 ! 0 = NVM_BBT_HMRK \<and> ex_tab w2 1 ! 1 = 1"
    using v [of 2 3] v [of 1 0] v [of 1 1] by simp
  with r f t show ?thesis by blast
qed

text \<open>
  C25. The cache as a store of tables: with the cache enabled, after a successful \<open>nvm_bbt_set\<close> a
  successful \<open>nvm_bbt_get\<close> for any address of the same LUN returns the states that were set, and for
  an address of another LUN the states a client saw before; neither changes the device.
\<close>

theorem nvm_bbt_set_get:
  assumes "cache_wf d" "bbt_laws sys be (dev_geo d) tab" "dev_bbts_cached d \<noteq> 0"
    and "unat (bbt_nblks b) = tab_len d" "length (bbt_blks b) = tab_len d"
    and "nvm_bbt_set sys be b ret (d, w) = (Inr (), (d1, w1))"
    and "nvm_bbt_get sys be a ret (d1, w1) = (Inr e, (d2, w2))"
  shows "bbt_blks e = (if bbt_idx d a = bbt_idx d (bbt_addr b) then bbt_blks b else bbt_view d (tab w) (unat (bbt_idx d a)))
    \<and> tab w2 = tab w"
proof -
  note st = set_ok [OF assms(1-6)]
  from st(4) obtain bs where bs: "d1 = d\<lparr>dev_bbts := bs\<rparr>" by blast
  have l: "bbt_laws sys be (dev_geo d1) tab" "bbt_idx d1 = bbt_idx d" "dev_bbts_cached d1 \<noteq> 0"
    using assms(2,3) by (simp_all add: bs)
  note g = get_ok [OF st(1) l(1) assms(7)]
  show ?thesis
    using g(3,4) l(3) st(3) [unfolded st(2)] by (simp add: l(2) st(2) word_unat_eq_iff)
qed

definition ex_bbt :: nvm_bbt where
  "ex_bbt = \<lparr>bbt_self = 0x6000, bbt_addr = set_g_ch 1 (NvmAddr 0), bbt_nblks = 4, bbt_nbad = 0, bbt_ngbad = 0,
     bbt_ndmrk = 0, bbt_nhmrk = 0, bbt_blks = [1, 2, 1, 8]\<rparr>"

theorem nvm_bbt_set_get_witness:
  "\<exists>e d2 w2. andThen (nvm_bbt_set ex_sys_bbt ex_be_bbt ex_bbt 0) (\<lambda>_. nvm_bbt_get ex_sys_bbt ex_be_bbt (set_g_blk 1 (set_g_ch 1 (NvmAddr 0))) 0)
     (ex_dev_bbt, ex_tables) = (Inr e, (d2, w2)) \<and> bbt_blks e = [1, 2, 1, 8] \<and> ex_tab w2 = ex_tab ex_tables"
proof -
  let ?m = "\<lambda>_. nvm_bbt_get ex_sys_bbt ex_be_bbt (set_g_blk 1 (set_g_ch 1 (NvmAddr 0))) 0"
  have "\<not> isl (fst (andThen (nvm_bbt_set ex_sys_bbt ex_be_bbt ex_bbt 0) ?m (ex_dev_bbt, ex_tables)))" by code_simp
  then obtain e d2 w2 where r: "andThen (nvm_bbt_set ex_sys_bbt ex_be_bbt ex_bbt 0) ?m (ex_dev_bbt, ex_tables) = (Inr e, (d2, w2))"
    by (metis isl_def prod.collapse sum.exhaust_sel)
  then obtain d1 w1 where 1: "nvm_bbt_set ex_sys_bbt ex_be_bbt ex_bbt 0 (ex_dev_bbt, ex_tables) = (Inr (), (d1, w1))"
    "?m () (d1, w1) = (Inr e, (d2, w2))" by (auto simp: andThen_Inr)
  have c: "dev_bbts_cached ex_dev_bbt \<noteq> 0" "unat (bbt_nblks ex_bbt) = tab_len ex_dev_bbt" "length (bbt_blks ex_bbt) = tab_len ex_dev_bbt"
    "bbt_idx ex_dev_bbt (set_g_blk 1 (set_g_ch 1 (NvmAddr 0))) = bbt_idx ex_dev_bbt (bbt_addr ex_bbt)" "bbt_blks ex_bbt = [1, 2, 1, 8]"
    by code_simp+
  from nvm_bbt_set_get [OF ex_cache_wf(1) ex_bbt_laws c(1-3) 1] c(4,5) r show ?thesis by auto
qed

text \<open>
  The counters of a table: on a 1.2 device, when every state is a known one, \<open>_refresh_counters\<close>
  sets each counter to the number of blocks in that state and keeps the states; an unknown state is
  refused with EINVAL.
\<close>

theorem refresh_counters_exact:
  assumes "dev_verid dev = NVM_SPEC_VERID_12" "length (bbt_blks b) = unat (bbt_nblks b)" "unat (bbt_nblks b) < 2 ^ 32"
  shows "(set (bbt_blks b) \<subseteq> {0, 1, 2, 4, 8} \<longrightarrow> (\<exists>b'. refresh_counters dev b = Inr b' \<and> bbt_blks b' = bbt_blks b
      \<and> unat (bbt_nbad b') = count_list (bbt_blks b) 1 \<and> unat (bbt_ngbad b') = count_list (bbt_blks b) 2
      \<and> unat (bbt_ndmrk b') = count_list (bbt_blks b) 4 \<and> unat (bbt_nhmrk b') = count_list (bbt_blks b) 8))
    \<and> (\<not> set (bbt_blks b) \<subseteq> {0, 1, 2, 4, 8} \<longrightarrow> refresh_counters dev b = Inl (Errno EINVAL))"
proof -
  have c: "unat (word_of_int (count_state st (bbt_blks b)) :: u32) = count_list (bbt_blks b) st" for st
  proof -
    have e: "count_list (bbt_blks b) st = length (filter (\<lambda>x. x = st) (bbt_blks b))"
      unfolding count_list_eq_length_filter by (rule arg_cong [of _ _ length], rule filter_cong) auto
    have "length (filter (\<lambda>x. x = st) (bbt_blks b)) < 2 ^ 32"
      using assms(2,3) length_filter_le [of "\<lambda>x. x = st" "bbt_blks b"] by linarith
    then show ?thesis by (simp add: count_state_def e unat_of_nat_lt)
  qed
  show ?thesis
    using assms c by (auto simp: refresh_counters_def Let_def subset_iff)
qed

theorem refresh_counters_exact_witness:
  "(\<exists>b'. refresh_counters ex_dev_s12 ex_bbt = Inr b' \<and> unat (bbt_nbad b') = 2 \<and> unat (bbt_nhmrk b') = 1) \<and>
   refresh_counters ex_dev_s12 (ex_bbt\<lparr>bbt_blks := [1, 3, 0, 0]\<rparr>) = Inl (Errno EINVAL)"
proof -
  have a: "dev_verid ex_dev_s12 = NVM_SPEC_VERID_12" by code_simp
  have b: "length (bbt_blks ex_bbt) = unat (bbt_nblks ex_bbt)" "unat (bbt_nblks ex_bbt) < 2 ^ 32" by (simp_all add: ex_bbt_def)
  show ?thesis
    using refresh_counters_exact [OF a b] refresh_counters_exact [OF a, of "ex_bbt\<lparr>bbt_blks := [1, 3, 0, 0]\<rparr>"]
    by (auto simp: ex_bbt_def)
qed

text \<open>
  C30. A lost update without the cache: when the cache is disabled, \<open>nvm_bbt_get\<close> leaves the table it
  read in \<open>dev->bbts\<close>. A later \<open>nvm_bbt_mark\<close> goes to the device directly, and the flush when the
  device is closed writes the old table back, so that the mark is gone from the device.
\<close>

theorem nvm_bbt_mark_uncached_lost:
  assumes "cache_wf d" "bbt_laws sys be (dev_geo d) tab" "bbt_answers be" "tab_lens d (tab w)" "dev_bbts_cached d = 0"
    and get: "nvm_bbt_get sys be a ret (d, w) = (Inr e, (d1, w1))"
    and mark: "nvm_bbt_mark sys be [a] 1 flags ret (d1, w1) = (Inr (), (d2, w2))"
  shows "tab w2 (unat (bbt_idx d a)) = (tab w (unat (bbt_idx d a)))[unat (blk_idx d a) := ucast flags]
    \<and> (\<exists>d3 w3. nvm_bbt_flush_all sys be ret (d2, w2) = (Inr (), (d3, w3)) \<and>
       tab w3 (unat (bbt_idx d a)) = tab w (unat (bbt_idx d a)))"
proof -
  let ?i = "unat (bbt_idx d a)"
  note g = get_ok [OF assms(1,2) get]
  have i: "?i < ntabs d" by (rule checked_idx_lt(1) [OF cache_wfD(1) [OF assms(1)] get_checked [OF get]])
  have wf1: "cache_wf d1" unfolding g(1) by (rule cache_wf_update [OF assms(1)]) (simp add: g(2))
  have l1: "bbt_laws sys be (dev_geo d1) tab" "bbt_idx d1 = bbt_idx d" "blk_idx d1 = blk_idx d" "ntabs d1 = ntabs d"
    "dev_bbts d1 ! ?i = Some e" using assms(2) i by (simp_all add: g(1) cache_wfD(2) [OF assms(1)])
  have "d2 = d1" "nvm_cmd_sbbt be d1 [a] 1 flags ret w1 = (Inr (), w2)"
    using mark assms(5) by (auto simp: nvm_bbt_mark_def bbt_op_simps g(1))
  note m = this bbt_laws_sbbt [OF l1(1) this(2), unfolded l1]
  have "tab w2 ?i = (tab w ?i)[unat (blk_idx d a) := ucast flags]" by (simp add: m(3) g(3))
  moreover have "tab_lens d2 (tab w2)" using assms(4) by (simp add: m(1,3) tab_lens_def l1(4) g(1,3))
  then obtain d3 w3 where f: "nvm_bbt_flush_all sys be ret (d1, w2) = (Inr (), (d3, w3))"
    using flush_all_succeeds [OF wf1 l1(1) assms(3)] m(1) by blast
  moreover have "tab w3 ?i = bbt_blks e" using flush_all_writes(2) [OF wf1 l1(1) f, of ?i] i by (simp add: l1)
  ultimately show ?thesis
    using f g(4) assms(5) by (simp add: m(1))
qed

definition ex_dev_uncached :: nvm_dev where
  "ex_dev_uncached = ex_dev_bbt\<lparr>dev_bbts_cached := 0\<rparr>"

theorem nvm_bbt_mark_uncached_lost_witness:
  "\<exists>d2 w2 d3 w3. andThen (nvm_bbt_get ex_sys_bbt ex_be_bbt (NvmAddr 0) 0) (\<lambda>_. nvm_bbt_mark ex_sys_bbt ex_be_bbt [NvmAddr 0] 1 NVM_BBT_BAD 0)
      (ex_dev_uncached, ex_tables) = (Inr (), (d2, w2)) \<and> ex_tab w2 0 = [1, 0, 0, 0] \<and>
    nvm_bbt_flush_all ex_sys_bbt ex_be_bbt 0 (d2, w2) = (Inr (), (d3, w3)) \<and> ex_tab w3 0 = [0, 0, 0, 0]"
proof -
  have "fst (andThen (nvm_bbt_get ex_sys_bbt ex_be_bbt (NvmAddr 0) 0) (\<lambda>_. nvm_bbt_mark ex_sys_bbt ex_be_bbt [NvmAddr 0] 1 NVM_BBT_BAD 0)
      (ex_dev_uncached, ex_tables)) = Inr ()" by code_simp
  then obtain d2 w2 where r: "andThen (nvm_bbt_get ex_sys_bbt ex_be_bbt (NvmAddr 0) 0)
      (\<lambda>_. nvm_bbt_mark ex_sys_bbt ex_be_bbt [NvmAddr 0] 1 NVM_BBT_BAD 0) (ex_dev_uncached, ex_tables) = (Inr (), (d2, w2))"
    by (metis prod.collapse)
  then obtain e d1 w1 where 1: "nvm_bbt_get ex_sys_bbt ex_be_bbt (NvmAddr 0) 0 (ex_dev_uncached, ex_tables) = (Inr e, (d1, w1))"
    "nvm_bbt_mark ex_sys_bbt ex_be_bbt [NvmAddr 0] 1 NVM_BBT_BAD 0 (d1, w1) = (Inr (), (d2, w2))" by (auto simp: andThen_Inr)
  have wf: "cache_wf ex_dev_uncached"
    using ex_cache_wf(1) by (simp add: cache_wf_def ex_dev_uncached_def bbt_geo_ok_def entry_wf_def bbt_idx_def)
  have c: "tab_lens ex_dev_uncached (ex_tab ex_tables)" "dev_bbts_cached ex_dev_uncached = 0" "unat (bbt_idx ex_dev_uncached (NvmAddr 0)) = 0"
    "unat (blk_idx ex_dev_uncached (NvmAddr 0)) = 0" "ex_tab ex_tables 0 = [0, 0, 0, 0]" by code_simp+
  from nvm_bbt_mark_uncached_lost [OF wf ex_bbt_laws ex_bbt_answers c(1,2) 1] r show ?thesis unfolding c(3-5) by auto
qed

end
