(* ===== verification/Nvm_Vblk.thy ===== *)
theory Nvm_Vblk
  imports Nvm_Cmd "HOL-Library.Signed_Division"
begin

text \<open>
  Virtual blocks, \<open>src/nvm_vblk.c\<close>: a set of blocks or chunks used as one array of bytes, with
  erasing, reading, writing and copying striped over them, synchronously and asynchronously, and
  the public operations of \<open>src/nvm_async.c\<close> they use.

  The device a virtual block points to is an argument beside it; \<open>vblk_dev\<close> is the pointer, which
  only \<open>nvm_vblk_copy\<close> compares. The argument \<open>ret\<close> of the synchronous operations is the address of
  their local \<open>struct nvm_ret\<close>. A parallel loop is executed in the order of its index. An operation
  with a loop that may not end returns \<open>None\<close> when it does not.
\<close>

section \<open>Counted errors\<close>

text \<open>A command whose error return is counted and otherwise ignored.\<close>

definition counted :: "('w, unit) op \<Rightarrow> u64 \<Rightarrow> ('w, u64) op" where
  "counted m nerr w = (case m w of (Inr _, w') \<Rightarrow> (Inr nerr, w') | (Inl (Errno _), w') \<Rightarrow> (Inr (nerr + 1), w')
     | (Inl (Fault f), w') \<Rightarrow> (Inl (Fault f), w'))"

section \<open>Data\<close>

abbreviation (input) NVM_VBLK_CMD_OPTS :: u32 where
  "NVM_VBLK_CMD_OPTS \<equiv> NVM_CMD_SYNC OR NVM_CMD_VECTOR OR NVM_CMD_PRP"

record nvm_vblk =
  vblk_self :: ptr
  vblk_dev :: ptr
  vblk_blks :: "nvm_addr list"
  vblk_nblks :: int
  vblk_nbytes :: u64
  vblk_pos_write :: u64
  vblk_pos_read :: u64
  vblk_flags :: u32
  vblk_async_ctx :: "nvm_async_ctx option"
  vblk_rets :: "ptr list"
  vblk_retsp :: u32

definition vblk_zero :: "ptr \<Rightarrow> nvm_vblk" where
  "vblk_zero p = \<lparr>vblk_self = p, vblk_dev = NULL, vblk_blks = replicate 128 (NvmAddr 0), vblk_nblks = 0, vblk_nbytes = 0,
     vblk_pos_write = 0, vblk_pos_read = 0, vblk_flags = 0, vblk_async_ctx = None, vblk_rets = [], vblk_retsp = 0\<rparr>"

definition blk_at :: "nvm_vblk \<Rightarrow> int \<Rightarrow> nvm_addr res" where
  "blk_at vblk i = (if 0 \<le> i \<and> nat i < length (vblk_blks vblk) then Inr (vblk_blks vblk ! nat i) else Inl (Fault OutOfBounds))"

section \<open>Asynchronous contexts\<close>

definition nvm_async_init :: "'w nvm_be \<Rightarrow> nvm_dev \<Rightarrow> u32 \<Rightarrow> u16 \<Rightarrow> ('w, nvm_async_ctx) op" where
  "nvm_async_init be dev depth flags = be_async_init be dev depth flags"

definition nvm_async_term :: "'w nvm_be \<Rightarrow> nvm_dev \<Rightarrow> nvm_async_ctx \<Rightarrow> ('w, unit) op" where
  "nvm_async_term be dev ctx = be_async_term be dev (ctx_self ctx)"

definition nvm_async_wait :: "'w nvm_be \<Rightarrow> nvm_dev \<Rightarrow> nvm_async_ctx \<Rightarrow> 'w async_op" where
  "nvm_async_wait be dev ctx = be_async_wait be dev (ctx_self ctx)"

definition nvm_async_poke :: "'w nvm_be \<Rightarrow> nvm_dev \<Rightarrow> nvm_async_ctx \<Rightarrow> u32 \<Rightarrow> 'w async_op" where
  "nvm_async_poke be dev ctx max_cpl = be_async_poke be dev (ctx_self ctx) max_cpl"

definition nvm_async_get_depth :: "nvm_async_ctx \<Rightarrow> u32" where
  "nvm_async_get_depth ctx = ctx_depth ctx"

definition nvm_async_get_outstanding :: "nvm_async_ctx \<Rightarrow> u32" where
  "nvm_async_get_outstanding ctx = ctx_outstanding ctx"

section \<open>Allocation and attributes\<close>

text \<open>The array \<open>rets\<close>: the allocations are not checked; a null array is dereferenced when it is filled.\<close>

definition alloc_or_null :: "'w sys \<Rightarrow> u64 \<Rightarrow> u64 \<Rightarrow> ('w, ptr) op" where
  "alloc_or_null sys n sz w = (case sys_calloc sys n sz w of (Inl (Errno _), w') \<Rightarrow> (Inr NULL, w') | r \<Rightarrow> r)"

definition alloc_rets :: "'w sys \<Rightarrow> u32 \<Rightarrow> ('w, ptr list) op" where
  "alloc_rets sys depth =
     andThen (alloc_or_null sys (ucast depth) 8) (\<lambda>p.
     if p = NULL \<and> depth \<noteq> 0 then fail (Fault NullDeref)
     else fold_op (\<lambda>_ rets. andThen (alloc_or_null sys 1 40) (\<lambda>r. ok (rets @ [r]))) [0..<unat depth] [])"

definition nvm_vblk_set_async :: "'w sys \<Rightarrow> 'w nvm_be \<Rightarrow> nvm_dev \<Rightarrow> u32 \<Rightarrow> (nvm_vblk \<times> 'w, unit) op" where
  "nvm_vblk_set_async sys be dev depth = (\<lambda>(vblk, w).
     let vblk = vblk\<lparr>vblk_flags := (vblk_flags vblk AND NOT NVM_CMD_SYNC) OR NVM_CMD_ASYNC\<rparr> in
     case vblk_async_ctx vblk of Some _ \<Rightarrow> (Inr (), (vblk, w))
     | None \<Rightarrow> (case nvm_async_init be dev depth 0 w of
         (Inl e, w') \<Rightarrow> (Inl e, (vblk, w'))
       | (Inr ctx, w') \<Rightarrow>
           let vblk = vblk\<lparr>vblk_async_ctx := Some ctx\<rparr>;
             depth = (if depth = 0 then nvm_async_get_depth ctx else depth) in
           (case alloc_rets sys depth w' of
              (Inl e, w'') \<Rightarrow> (Inl e, (vblk, w''))
            | (Inr rets, w'') \<Rightarrow> (Inr (), (vblk\<lparr>vblk_rets := rets\<rparr>, w'')))))"

definition nvm_vblk_set_scalar :: "nvm_vblk \<Rightarrow> nvm_vblk" where
  "nvm_vblk_set_scalar vblk = vblk\<lparr>vblk_flags := (vblk_flags vblk AND NOT NVM_CMD_VECTOR) OR NVM_CMD_SCALAR\<rparr>"

definition vblk_tbytes :: "nvm_dev \<Rightarrow> int \<Rightarrow> u64 res" where
  "vblk_tbytes dev nblks =
     (let geo = dev_geo dev in
      if dev_verid dev = NVM_SPEC_VERID_12
      then Inr (word_of_int nblks * nplanes geo * npages geo * nsectors geo * sector_nbytes geo)
      else if dev_verid dev = NVM_SPEC_VERID_20 then Inr (word_of_int nblks * l_nsectr geo * l_nbytes geo)
      else Inl (Errno ENOSYS))"

text \<open>The loop that checks and copies the addresses; it stops at the first that is out of bounds.\<close>

fun vblk_alloc_addrs :: "nvm_dev \<Rightarrow> nvm_addr list \<Rightarrow> nat list \<Rightarrow> nvm_addr list \<Rightarrow> nvm_addr list res" where
  "vblk_alloc_addrs dev addrs [] blks = Inr blks"
| "vblk_alloc_addrs dev addrs (i # is) blks =
     (if length addrs \<le> i \<or> length blks \<le> i then Inl (Fault OutOfBounds)
      else if addr_check_fails (addrs ! i) dev then Inl (Errno EINVAL)
      else vblk_alloc_addrs dev addrs is (blks[i := addrs ! i]))"

definition nvm_vblk_alloc :: "'w sys \<Rightarrow> ptr \<Rightarrow> nvm_dev \<Rightarrow> nvm_addr list \<Rightarrow> int \<Rightarrow> ('w, nvm_vblk) op" where
  "nvm_vblk_alloc sys devp dev addrs naddrs w =
     (if naddrs > 128 then (Inl (Errno EINVAL), w)
      else case sys_calloc sys 1 1096 w of
        (Inl (Errno _), w1) \<Rightarrow> (Inl (Errno ENOMEM), w1)
      | (Inl f, w1) \<Rightarrow> (Inl f, w1)
      | (Inr p, w1) \<Rightarrow>
          on_error (lift_res (case vblk_alloc_addrs dev addrs [0..<nat naddrs] (vblk_blks (vblk_zero p)) of
              Inl e \<Rightarrow> Inl e
            | Inr blks \<Rightarrow> (case vblk_tbytes dev naddrs of Inl e \<Rightarrow> Inl e | Inr nbytes \<Rightarrow>
                Inr ((vblk_zero p)\<lparr>vblk_dev := devp, vblk_blks := blks, vblk_nblks := naddrs, vblk_nbytes := nbytes,
                  vblk_flags := NVM_VBLK_CMD_OPTS\<rparr>))))
            (upd (sys_free sys p)) w1)"

definition line_addr :: "nvm_dev \<Rightarrow> int \<Rightarrow> int \<Rightarrow> int \<Rightarrow> nvm_addr" where
  "line_addr dev ch lun blk =
     (if dev_verid dev = NVM_SPEC_VERID_12
      then set_g_blk (word_of_int blk) (set_g_lun (word_of_int lun) (set_g_ch (word_of_int ch) (NvmAddr 0)))
      else set_l_chunk (word_of_int blk) (set_l_punit (word_of_int lun) (set_l_pugrp (word_of_int ch) (NvmAddr 0))))"

definition line_addrs :: "nvm_dev \<Rightarrow> int \<Rightarrow> int \<Rightarrow> int \<Rightarrow> int \<Rightarrow> int \<Rightarrow> nvm_addr list" where
  "line_addrs dev ch_bgn ch_end lun_bgn lun_end blk =
     concat (map (\<lambda>lun. map (\<lambda>ch. line_addr dev ch lun blk) [ch_bgn..ch_end]) [lun_bgn..lun_end])"

definition nvm_vblk_alloc_line ::
  "'w sys \<Rightarrow> ptr \<Rightarrow> nvm_dev \<Rightarrow> int \<Rightarrow> int \<Rightarrow> int \<Rightarrow> int \<Rightarrow> int \<Rightarrow> ('w, nvm_vblk) op" where
  "nvm_vblk_alloc_line sys devp dev ch_bgn ch_end lun_bgn lun_end blk =
     andThen (nvm_vblk_alloc sys devp dev [] 0) (\<lambda>vblk.
     if dev_verid dev \<noteq> NVM_SPEC_VERID_12 \<and> dev_verid dev \<noteq> NVM_SPEC_VERID_20 then
       andThen (nvm_buf_free sys dev (vblk_self vblk)) (\<lambda>_. fail (Errno ENOSYS))
     else let addrs = line_addrs dev ch_bgn ch_end lun_bgn lun_end blk in
       if length (vblk_blks vblk) < length addrs then fail (Fault OutOfBounds)
       else andThen (lift_res (vblk_tbytes dev (int (length addrs)))) (\<lambda>nbytes.
         if \<exists>a \<in> set addrs. addr_check_fails a dev then
           andThen (upd (sys_free sys (vblk_self vblk))) (\<lambda>_. fail (Errno EINVAL))
         else ok (vblk\<lparr>vblk_blks := addrs @ drop (length addrs) (vblk_blks vblk), vblk_nblks := int (length addrs),
           vblk_nbytes := nbytes\<rparr>)))"

definition nvm_vblk_free :: "'w sys \<Rightarrow> nvm_vblk \<Rightarrow> ('w, unit) op" where
  "nvm_vblk_free sys vblk = upd (sys_free sys (vblk_self vblk))"

definition nvm_vblk_set_pos_read :: "u64 \<Rightarrow> nvm_vblk \<Rightarrow> nvm_vblk res" where
  "nvm_vblk_set_pos_read pos vblk = (if pos > vblk_nbytes vblk then Inl (Errno EINVAL) else Inr (vblk\<lparr>vblk_pos_read := pos\<rparr>))"

definition nvm_vblk_set_pos_write :: "u64 \<Rightarrow> nvm_vblk \<Rightarrow> nvm_vblk res" where
  "nvm_vblk_set_pos_write pos vblk = (if pos > vblk_nbytes vblk then Inl (Errno EINVAL) else Inr (vblk\<lparr>vblk_pos_write := pos\<rparr>))"

section \<open>Erasing\<close>

text \<open>The largest number up to a maximum that divides the number of blocks.\<close>

function divisor_loop :: "int \<Rightarrow> int \<Rightarrow> int res" where
  "divisor_loop nblks count =
     (if count = 0 then Inl (Fault DivByZero)
      else if nblks mod count \<noteq> 0 \<and> count > 1 then divisor_loop nblks (count - 1)
      else Inr count)"
  by auto

termination by (relation "measure (\<lambda>(n, c). nat c)") auto

definition cmd_nblks :: "int \<Rightarrow> int \<Rightarrow> int res" where
  "cmd_nblks nblks cmd_nblks_max = divisor_loop nblks cmd_nblks_max"

definition cmd_nspages :: "int \<Rightarrow> int \<Rightarrow> int res" where
  "cmd_nspages nblks cmd_nspages_max = divisor_loop nblks cmd_nspages_max"

text \<open>\<open>a / b\<close> on C \<open>int\<close>s.\<close>

definition c_div :: "int \<Rightarrow> int \<Rightarrow> int res" where
  "c_div a b = (if b = 0 then Inl (Fault DivByZero) else Inr (a sdiv b))"

definition erase_addr_s12 :: "nvm_dev \<Rightarrow> nvm_vblk \<Rightarrow> int \<Rightarrow> int \<Rightarrow> nat \<Rightarrow> nvm_addr res" where
  "erase_addr_s12 dev vblk blk_naddrs off i =
     (case blk_at vblk (off + int i sdiv blk_naddrs) of Inl e \<Rightarrow> Inl e
      | Inr a \<Rightarrow> Inr (set_g_pl (of_nat i mod nplanes (dev_geo dev)) a))"

definition vblk_reset :: "nvm_vblk \<Rightarrow> nvm_vblk" where
  "vblk_reset vblk = vblk\<lparr>vblk_pos_write := 0, vblk_pos_read := 0\<rparr>"

definition erase_done :: "nvm_vblk \<Rightarrow> u64 \<Rightarrow> ('w, int \<times> nvm_vblk) op" where
  "erase_done vblk nerr = (if nerr \<noteq> 0 then fail (Errno EIO) else ok (sint (vblk_nbytes vblk), vblk_reset vblk))"

definition vblk_erase_s12 :: "'w nvm_be \<Rightarrow> nvm_dev \<Rightarrow> ptr \<Rightarrow> nvm_vblk \<Rightarrow> ('w, int \<times> nvm_vblk) lop" where
  "vblk_erase_s12 be dev ret vblk =
     (let blk_naddrs = c_int (uint (nplanes (dev_geo dev))) in
      lbind (lret (lift_res (c_div (dev_erase_naddrs_max dev) blk_naddrs))) (\<lambda>m.
      lbind (lret (lift_res (cmd_nblks (vblk_nblks vblk) m))) (\<lambda>CMD_NBLKS.
      lbind (for_op (\<lambda>off. off < vblk_nblks vblk) (\<lambda>off. off + CMD_NBLKS) (\<lambda>off nerr.
          let nblks = min CMD_NBLKS (vblk_nblks vblk - off); naddrs = nblks * blk_naddrs in
          andThen (lift_res (map_res (erase_addr_s12 dev vblk blk_naddrs off) [0..<nat naddrs])) (\<lambda>addrs.
          counted (nvm_cmd_erase be dev addrs naddrs NULL (ucast (word_of_int (dev_pmode dev) OR NVM_VBLK_CMD_OPTS)) ret)
            nerr)) 0 0) (\<lambda>nerr.
      lret (erase_done vblk nerr)))))"

definition vblk_erase_s20 :: "'w nvm_be \<Rightarrow> nvm_dev \<Rightarrow> ptr \<Rightarrow> nvm_vblk \<Rightarrow> ('w, int \<times> nvm_vblk) lop" where
  "vblk_erase_s20 be dev ret vblk =
     lbind (lret (lift_res (cmd_nblks (vblk_nblks vblk) (dev_erase_naddrs_max dev)))) (\<lambda>CMD_NBLKS.
     lbind (for_op (\<lambda>off. off < vblk_nblks vblk) (\<lambda>off. off + CMD_NBLKS) (\<lambda>off nerr.
         let naddrs = min CMD_NBLKS (vblk_nblks vblk - off) in
         andThen (lift_res (map_res (\<lambda>i. blk_at vblk (off + int i)) [0..<nat naddrs])) (\<lambda>addrs.
         counted (nvm_cmd_erase be dev addrs naddrs NULL 0 ret) nerr)) 0 0) (\<lambda>nerr.
     lret (erase_done vblk nerr)))"

definition nvm_vblk_erase :: "'w nvm_be \<Rightarrow> nvm_dev \<Rightarrow> ptr \<Rightarrow> nvm_vblk \<Rightarrow> ('w, int \<times> nvm_vblk) lop" where
  "nvm_vblk_erase be dev ret vblk =
     (if dev_verid dev = NVM_SPEC_VERID_12 then vblk_erase_s12 be dev ret vblk
      else if dev_verid dev = NVM_SPEC_VERID_20 then vblk_erase_s20 be dev ret vblk
      else lret (fail (Errno ENOSYS)))"

section \<open>Synchronous reads and writes, version 2.0\<close>

text \<open>
  The loops over the commands of a request are parallel loops (\<open>omp_for\<close>) with one command in each iteration; the threads add
  up the number of errors. When the last sector of an empty request wraps, the loop has no meaning.
\<close>

text \<open>\<open>const uint32_t WS_OPT = nvm_dev_get_ws_opt(dev)\<close>; an error return of -1 becomes the largest value.\<close>

definition ws_u32 :: "int res \<Rightarrow> u64" where
  "ws_u32 r = ucast (word_of_int (case r of Inl _ \<Rightarrow> -1 | Inr i \<Rightarrow> i) :: u32)"

text \<open>The address of a sector of a virtual block: write units go round the chunks.\<close>

definition stripe_addr :: "nvm_vblk \<Rightarrow> u64 \<Rightarrow> u64 \<Rightarrow> nvm_addr res" where
  "stripe_addr vblk ws sectr =
     (let nchunks = word_of_int (vblk_nblks vblk); wunit = sectr div ws; rnd = wunit div nchunks; chunk = wunit mod nchunks;
        chunk_sectr = sectr mod ws + rnd * ws in
      if nchunks = 0 then Inl (Fault DivByZero)
      else case blk_at vblk (uint chunk) of Inl e \<Rightarrow> Inl e | Inr a \<Rightarrow> Inr (set_l_sectr chunk_sectr a))"

definition pread_cmd :: "'w nvm_be \<Rightarrow> nvm_dev \<Rightarrow> nvm_vblk \<Rightarrow> ptr \<Rightarrow> u64 \<Rightarrow> u64 \<Rightarrow> u64 \<Rightarrow> u64 \<Rightarrow> u64 \<Rightarrow> ('w, u64) op" where
  "pread_cmd be dev vblk buf ws cmd_nsectr sectr_bgn sectr_ofz nerr =
     (let n = (if vblk_flags vblk AND NVM_CMD_SCALAR \<noteq> 0 then min 1 (unat cmd_nsectr) else unat cmd_nsectr) in
      andThen (lift_res (map_res (\<lambda>idx. stripe_addr vblk ws (sectr_ofz + of_nat idx)) [0..<n])) (\<lambda>addrs.
      counted (nvm_cmd_read be dev addrs (c_int (uint cmd_nsectr)) (buf + (sectr_ofz - sectr_bgn) * l_nbytes (dev_geo dev)) NULL
        (ucast (vblk_flags vblk)) NULL) nerr))"

definition io_done :: "u64 \<Rightarrow> u64 \<Rightarrow> ('w, int) op" where
  "io_done count nerr = (if nerr \<noteq> 0 then fail (Errno EIO) else ok (sint count))"

definition vblk_sync_pread_s20 :: "'w nvm_be \<Rightarrow> nvm_dev \<Rightarrow> nvm_vblk \<Rightarrow> ptr \<Rightarrow> u64 \<Rightarrow> u64 \<Rightarrow> ('w, int) lop" where
  "vblk_sync_pread_s20 be dev vblk buf count offset =
     (let ws = ws_u32 (nvm_dev_get_ws_opt dev); nbytes = l_nbytes (dev_geo dev); nsectr = count div nbytes;
        sectr_bgn = offset div nbytes; sectr_end = sectr_bgn + nsectr - 1;
        cmd_nsectr = (if vblk_flags vblk AND NVM_CMD_VECTOR \<noteq> 0 then NVM_NADDR_MAX else ws) in
      if nbytes = 0 \<or> ws = 0 then lret (fail (Fault DivByZero))
      else if nsectr mod ws \<noteq> 0 then lret (fail (Errno EINVAL))
      else if sectr_bgn mod ws \<noteq> 0 then lret (fail (Errno EINVAL))
      else lbind (lret (omp_for True sectr_bgn sectr_end cmd_nsectr (pread_cmd be dev vblk buf ws cmd_nsectr sectr_bgn) 0)) (\<lambda>nerr.
        lret (io_done count nerr)))"

text \<open>
  The buffers of a write: padding when there is no data, and meta data as the meta mode says.
\<close>

definition buf_alloc_or_nomem :: "'w sys \<Rightarrow> nvm_dev \<Rightarrow> u64 \<Rightarrow> ('w, unit) op \<Rightarrow> ('w, ptr) op" where
  "buf_alloc_or_nomem sys dev nbytes cleanup w =
     (case nvm_buf_alloc sys dev nbytes 0 w of
        (Inr (p, _), w') \<Rightarrow> (Inr p, w')
      | (Inl (Errno _), w') \<Rightarrow> andThen cleanup (\<lambda>_. fail (Errno ENOMEM)) w'
      | (Inl (Fault f), w') \<Rightarrow> (Inl (Fault f), w'))"

definition fill_at :: "'w sys \<Rightarrow> ptr \<Rightarrow> u64 \<Rightarrow> ('w, unit) op" where
  "fill_at sys p nbytes =
     andThen (lift_res (nvm_buf_fill (replicate (unat nbytes) 0) (unat nbytes))) (\<lambda>bs. upd (sys_store sys p bs))"

definition pad_alloc :: "'w sys \<Rightarrow> nvm_dev \<Rightarrow> ptr \<Rightarrow> u64 \<Rightarrow> ('w, ptr) op" where
  "pad_alloc sys dev buf nbytes =
     (if buf \<noteq> NULL then ok NULL
      else andThen (buf_alloc_or_nomem sys dev nbytes (ok ())) (\<lambda>p. andThen (fill_at sys p nbytes) (\<lambda>_. ok p)))"

definition meta_alloc :: "'w sys \<Rightarrow> nvm_dev \<Rightarrow> u64 \<Rightarrow> ('w, unit) op \<Rightarrow> ('w, ptr) op" where
  "meta_alloc sys dev nbytes cleanup =
     (let mode = dev_meta_mode dev in
      if mode = NVM_META_MODE_NONE then ok NULL
      else andThen (buf_alloc_or_nomem sys dev nbytes cleanup) (\<lambda>p.
        andThen (if mode = NVM_META_MODE_ALPHA then fill_at sys p nbytes
          else if mode = NVM_META_MODE_CONST then
            upd (sys_store sys p (replicate (unat nbytes) (65 + of_nat (unat nbytes mod 20))))
          else ok ()) (\<lambda>_. ok p)))"

definition pwrite_cmd ::
  "'w nvm_be \<Rightarrow> nvm_dev \<Rightarrow> nvm_vblk \<Rightarrow> ptr \<Rightarrow> ptr \<Rightarrow> ptr \<Rightarrow> ptr \<Rightarrow> u64 \<Rightarrow> u64 \<Rightarrow> u64 \<Rightarrow> u64 \<Rightarrow> ('w, u64) op" where
  "pwrite_cmd be dev vblk ret buf pad_buf meta_buf ws sectr_bgn sectr_ofz nerr =
     (let buf_off = (if pad_buf \<noteq> NULL then pad_buf else buf + (sectr_ofz - sectr_bgn) * l_nbytes (dev_geo dev)) in
      andThen (lift_res (map_res (\<lambda>idx. stripe_addr vblk ws (sectr_ofz + of_nat idx)) [0..<unat ws])) (\<lambda>addrs.
      counted (nvm_cmd_write be dev addrs (c_int (uint ws)) buf_off meta_buf (ucast (vblk_flags vblk)) ret) nerr))"

definition vblk_sync_pwrite_s20 ::
  "'w sys \<Rightarrow> 'w nvm_be \<Rightarrow> nvm_dev \<Rightarrow> ptr \<Rightarrow> nvm_vblk \<Rightarrow> ptr \<Rightarrow> u64 \<Rightarrow> u64 \<Rightarrow> ('w, int) lop" where
  "vblk_sync_pwrite_s20 sys be dev ret vblk buf count offset =
     (let ws = ws_u32 (nvm_dev_get_ws_opt dev); nbytes = l_nbytes (dev_geo dev); nsectr = count div nbytes;
        sectr_bgn = offset div nbytes; sectr_end = sectr_bgn + nsectr - 1 in
      if nbytes = 0 \<or> ws = 0 then lret (fail (Fault DivByZero))
      else if nsectr mod ws \<noteq> 0 then lret (fail (Errno EINVAL))
      else if sectr_bgn mod ws \<noteq> 0 then lret (fail (Errno EINVAL))
      else lbind (lret (pad_alloc sys dev buf (ws * nsectr * nbytes))) (\<lambda>pad_buf.
        lbind (lret (meta_alloc sys dev (ws * l_nbytes_oob (dev_geo dev)) (nvm_buf_free sys dev pad_buf))) (\<lambda>meta_buf.
        lbind (lret (omp_for True sectr_bgn sectr_end ws (pwrite_cmd be dev vblk ret buf pad_buf meta_buf ws sectr_bgn) 0)) (\<lambda>nerr.
        lret (andThen (nvm_buf_free sys dev pad_buf) (\<lambda>_.
              andThen (nvm_buf_free sys dev meta_buf) (\<lambda>_. io_done count nerr)))))))"

section \<open>Reads and writes, version 1.2\<close>

text \<open>
  The sizes of a request: \<open>SPAGE_NADDRS\<close>, \<open>CMD_NSPAGES\<close> and \<open>ALIGN\<close>.
\<close>

definition spage_naddrs :: "nvm_dev \<Rightarrow> int" where
  "spage_naddrs dev = c_int (uint (nplanes (dev_geo dev) * nsectors (dev_geo dev)))"

definition s12_sizes :: "nvm_dev \<Rightarrow> nvm_vblk \<Rightarrow> int \<Rightarrow> (int \<times> int) res" where
  "s12_sizes dev vblk naddrs_max =
     (case c_div naddrs_max (spage_naddrs dev) of Inl e \<Rightarrow> Inl e | Inr m \<Rightarrow>
     (case cmd_nspages (vblk_nblks vblk) m of Inl e \<Rightarrow> Inl e | Inr CMD_NSPAGES \<Rightarrow>
       let ALIGN = c_int (uint (word_of_int (spage_naddrs dev) * sector_nbytes (dev_geo dev))) in
       if ALIGN = 0 then Inl (Fault DivByZero) else Inr (CMD_NSPAGES, ALIGN)))"

definition s12_addr :: "nvm_dev \<Rightarrow> nvm_vblk \<Rightarrow> u64 \<Rightarrow> nat \<Rightarrow> nvm_addr res" where
  "s12_addr dev vblk off i =
     (let geo = dev_geo dev; spg = c_int (uint (off + word_of_int (int i sdiv spage_naddrs dev))) in
      if vblk_nblks vblk = 0 \<or> npages geo = 0 then Inl (Fault DivByZero)
      else case blk_at vblk (spg smod vblk_nblks vblk) of Inl e \<Rightarrow> Inl e
        | Inr a \<Rightarrow> Inr (set_g_sec (of_nat i mod nsectors geo) (set_g_pl ((of_nat i div nsectors geo) mod nplanes geo)
            (set_g_pg (word_of_int (spg sdiv vblk_nblks vblk) mod npages geo) a))))"

definition s12_cmd ::
  "(nvm_addr list \<Rightarrow> int \<Rightarrow> ptr \<Rightarrow> ('w, unit) op) \<Rightarrow> nvm_dev \<Rightarrow> nvm_vblk \<Rightarrow> ptr \<Rightarrow> ptr \<Rightarrow> int \<Rightarrow> u64 \<Rightarrow> u64 \<Rightarrow> u64 \<Rightarrow> u64 \<Rightarrow> ('w, u64) op" where
  "s12_cmd cmd dev vblk buf pad_buf CMD_NSPAGES bgn end_off off nerr =
     (let nspages = min CMD_NSPAGES (c_int (uint (end_off - off))); naddrs = nspages * spage_naddrs dev;
        buf_off = (if pad_buf \<noteq> NULL then pad_buf
          else buf + (off - bgn) * sector_nbytes (dev_geo dev) * word_of_int (spage_naddrs dev)) in
      andThen (lift_res (map_res (s12_addr dev vblk off) [0..<nat naddrs])) (\<lambda>addrs.
      counted (cmd addrs naddrs buf_off) nerr))"

definition vblk_pwrite_s12 ::
  "'w sys \<Rightarrow> 'w nvm_be \<Rightarrow> nvm_dev \<Rightarrow> ptr \<Rightarrow> nvm_vblk \<Rightarrow> ptr \<Rightarrow> u64 \<Rightarrow> u64 \<Rightarrow> ('w, int) lop" where
  "vblk_pwrite_s12 sys be dev ret vblk buf count offset =
     lbind (lret (lift_res (s12_sizes dev vblk (dev_write_naddrs_max dev)))) (\<lambda>(CMD_NSPAGES, ALIGN).
     let geo = dev_geo dev; bgn = offset div word_of_int ALIGN; end_off = bgn + count div word_of_int ALIGN;
       cmd_nbytes = word_of_int (CMD_NSPAGES * spage_naddrs dev) in
     if offset + count > vblk_nbytes vblk then lret (fail (Errno EINVAL))
     else if count mod word_of_int ALIGN \<noteq> 0 \<or> offset mod word_of_int ALIGN \<noteq> 0 then lret (fail (Errno EINVAL))
     else lbind (lret (pad_alloc sys dev buf (cmd_nbytes * sector_nbytes geo))) (\<lambda>pad_buf.
       lbind (lret (meta_alloc sys dev (cmd_nbytes * meta_nbytes geo) (ok ()))) (\<lambda>meta.
       lbind (lret (omp_for False bgn end_off (word_of_int CMD_NSPAGES)
           (s12_cmd (\<lambda>addrs naddrs b. nvm_cmd_write be dev addrs naddrs b meta (word_of_int (dev_pmode dev)) ret)
             dev vblk buf pad_buf CMD_NSPAGES bgn end_off) 0)) (\<lambda>nerr.
       lret (andThen (nvm_buf_free sys dev pad_buf) (\<lambda>_.
             andThen (nvm_buf_free sys dev meta) (\<lambda>_. io_done count nerr)))))))"

definition vblk_pread_s12 :: "'w nvm_be \<Rightarrow> nvm_dev \<Rightarrow> ptr \<Rightarrow> nvm_vblk \<Rightarrow> ptr \<Rightarrow> u64 \<Rightarrow> u64 \<Rightarrow> ('w, int) lop" where
  "vblk_pread_s12 be dev ret vblk buf count offset =
     lbind (lret (lift_res (s12_sizes dev vblk (dev_read_naddrs_max dev)))) (\<lambda>(CMD_NSPAGES, ALIGN).
     let bgn = offset div word_of_int ALIGN; end_off = bgn + count div word_of_int ALIGN in
     if offset + count > vblk_nbytes vblk then lret (fail (Errno EINVAL))
     else if count mod word_of_int ALIGN \<noteq> 0 \<or> offset mod word_of_int ALIGN \<noteq> 0 then lret (fail (Errno EINVAL))
     else lbind (lret (omp_for False bgn end_off (word_of_int CMD_NSPAGES)
           (s12_cmd (\<lambda>addrs naddrs b. nvm_cmd_read be dev addrs naddrs b NULL (word_of_int (dev_pmode dev)) ret)
             dev vblk buf NULL CMD_NSPAGES bgn end_off) 0)) (\<lambda>nerr.
       lret (io_done count nerr)))"

section \<open>Copying\<close>

definition copy_cmd :: "'w nvm_be \<Rightarrow> nvm_dev \<Rightarrow> ptr \<Rightarrow> nvm_vblk \<Rightarrow> nvm_vblk \<Rightarrow> u64 \<Rightarrow> u64 \<Rightarrow> u64 \<Rightarrow> u64 \<Rightarrow> u64 \<Rightarrow> ('w, u64) op" where
  "copy_cmd be dev ret src dst ws cmd_nsectr_max sectr_end sectr_ofz nerr =
     (let cmd_nsectr = NVM_MIN (sectr_end - sectr_ofz + 1) cmd_nsectr_max; idxs = [0..<unat cmd_nsectr];
        dst' = dst\<lparr>vblk_nblks := vblk_nblks src\<rparr> in
      andThen (lift_res (map_res (\<lambda>idx. stripe_addr src ws (sectr_ofz + of_nat idx)) idxs)) (\<lambda>addrs_src.
      andThen (lift_res (map_res (\<lambda>idx. stripe_addr dst' ws (sectr_ofz + of_nat idx)) idxs)) (\<lambda>addrs_dst.
      counted (nvm_cmd_copy be dev addrs_src addrs_dst (c_int (uint cmd_nsectr)) (ucast NVM_VBLK_CMD_OPTS) ret) nerr)))"

definition vblk_copy_s20 :: "'w nvm_be \<Rightarrow> nvm_dev \<Rightarrow> ptr \<Rightarrow> nvm_vblk \<Rightarrow> nvm_vblk \<Rightarrow> ('w, int) lop" where
  "vblk_copy_s20 be dev ret src dst =
     (let count = vblk_nbytes src; ws = ws_u32 (nvm_dev_get_ws_min dev); nbytes = l_nbytes (dev_geo dev);
        nsectr = count div nbytes; sectr_bgn = 0 div nbytes; sectr_end = sectr_bgn + nsectr - 1;
        cmd_nsectr_max = (NVM_NADDR_MAX div ws) * ws in
      if nbytes = 0 \<or> ws = 0 then lret (fail (Fault DivByZero))
      else if nsectr mod ws \<noteq> 0 then lret (fail (Errno EINVAL))
      else if sectr_bgn mod ws \<noteq> 0 then lret (fail (Errno EINVAL))
      else lbind (for_op (\<lambda>ofz. ofz \<le> sectr_end) (\<lambda>ofz. ofz + cmd_nsectr_max)
            (copy_cmd be dev ret src dst ws cmd_nsectr_max sectr_end) sectr_bgn 0) (\<lambda>nerr.
        lret (io_done count nerr)))"

definition nvm_vblk_copy :: "'w nvm_be \<Rightarrow> nvm_dev \<Rightarrow> ptr \<Rightarrow> nvm_vblk \<Rightarrow> nvm_vblk \<Rightarrow> ('w, int) lop" where
  "nvm_vblk_copy be dev ret src dst =
     (if vblk_dev src \<noteq> vblk_dev dst \<or> vblk_nblks src \<noteq> vblk_nblks dst \<or> vblk_nbytes src \<noteq> vblk_nbytes dst
      then lret (fail (Errno ENOSYS))
      else if dev_verid dev = NVM_SPEC_VERID_20 then vblk_copy_s20 be dev ret src dst
      else lret (fail (Errno ENOSYS)))"

section \<open>Asynchronous reads and writes, version 2.0\<close>

text \<open>
  The state of an asynchronous request: the virtual block, whose stack of free result structures the
  callbacks change, the number of errors the callbacks counted, and the world.
\<close>

type_synonym ('w, 'a) io_op = "(nvm_vblk \<times> u64 \<times> 'w, 'a) op"
type_synonym ('w, 'a) io_lop = "(nvm_vblk \<times> u64 \<times> 'w, 'a) lop"

definition io_world :: "('w, 'a) op \<Rightarrow> ('w, 'a) io_op" where
  "io_world m = (\<lambda>(v, nerr, w). case m w of (r, w') \<Rightarrow> (r, (v, nerr, w')))"

definition vblk_async_callback :: "'w sys \<Rightarrow> ptr \<times> bool \<Rightarrow> ('w, unit) io_op" where
  "vblk_async_callback sys = (\<lambda>(ret, err) (v, nerr, w).
     let nerr = (if err then nerr + 1 else nerr); w = sys_ret_clear sys ret w; sp = vblk_retsp v - 1;
       v = v\<lparr>vblk_retsp := sp\<rparr> in
     if length (vblk_rets v) \<le> unat sp then (Inl (Fault OutOfBounds), (v, nerr, w))
     else (Inr (), (v\<lparr>vblk_rets := (vblk_rets v)[unat sp := ret]\<rparr>, nerr, w)))"

text \<open>A call that reaps completions, with its callbacks.\<close>

definition reaping :: "'w sys \<Rightarrow> 'w async_op \<Rightarrow> ('w, int) io_op" where
  "reaping sys m = (\<lambda>(v, nerr, w). case m w of ((r, evs), w') \<Rightarrow>
     andThen (each_op (vblk_async_callback sys) evs) (\<lambda>_. lift_res r) (v, nerr, w'))"

definition vblk_ctx :: "('w, nvm_async_ctx) io_op" where
  "vblk_ctx = (\<lambda>(v, nerr, w). case vblk_async_ctx v of None \<Rightarrow> (Inl (Fault NullDeref), (v, nerr, w))
     | Some ctx \<Rightarrow> (Inr ctx, (v, nerr, w)))"

definition vblk_poke :: "'w sys \<Rightarrow> 'w nvm_be \<Rightarrow> nvm_dev \<Rightarrow> ('w, int) io_op" where
  "vblk_poke sys be dev = andThen vblk_ctx (\<lambda>ctx. reaping sys (nvm_async_poke be dev ctx 0))"

definition vblk_wait :: "'w sys \<Rightarrow> 'w nvm_be \<Rightarrow> nvm_dev \<Rightarrow> ('w, int) io_op" where
  "vblk_wait sys be dev = andThen vblk_ctx (\<lambda>ctx. reaping sys (nvm_async_wait be dev ctx))"

text \<open>The two loops of \<open>_vblk_async_greedy_reap\<close>: until something is reaped, then until nothing is.\<close>

partial_function (option) reap_first :: "('w, int) io_op \<Rightarrow> ('w, int) io_lop" where
  "reap_first poke s = (case poke s of (r, s') \<Rightarrow> (case r of Inl e \<Rightarrow> Some (Inl e, s')
     | Inr n \<Rightarrow> if n = 0 then reap_first poke s' else Some (Inr n, s')))"

partial_function (option) reap_rest :: "('w, int) io_op \<Rightarrow> int \<Rightarrow> ('w, int) io_lop" where
  "reap_rest poke nevents s = (case poke s of (r, s') \<Rightarrow> (case r of Inl e \<Rightarrow> Some (Inl e, s')
     | Inr n \<Rightarrow> if n \<noteq> 0 then reap_rest poke (nevents + n) s' else Some (Inr nevents, s')))"

declare reap_first.simps [code] reap_rest.simps [code]

definition vblk_async_greedy_reap :: "'w sys \<Rightarrow> 'w nvm_be \<Rightarrow> nvm_dev \<Rightarrow> ('w, int) io_lop" where
  "vblk_async_greedy_reap sys be dev =
     (let poke = vblk_poke sys be dev in lbind (reap_first poke) (\<lambda>n. reap_rest poke n))"

text \<open>A negative result is an error return; \<open>errno\<close> is then what the backend left.\<close>

definition non_negative :: "int \<Rightarrow> ('w, unit) op" where
  "non_negative n = (if n < 0 then fail (Errno EKEEP) else ok ())"

text \<open>The loop that submits a command until it is not refused with \<open>EAGAIN\<close>.\<close>

partial_function (option) io_submit :: "('w, unit) io_op \<Rightarrow> ('w, unit) io_lop \<Rightarrow> ('w, unit) io_lop" where
  "io_submit cmd reap s = (case cmd s of (r, s') \<Rightarrow> (case r of Inr _ \<Rightarrow> Some (Inr (), s')
     | Inl e \<Rightarrow> if e = Errno EAGAIN then (case reap s' of None \<Rightarrow> None | Some (q, s'') \<Rightarrow>
           (case q of Inl f \<Rightarrow> Some (Inl f, s'') | Inr _ \<Rightarrow> io_submit cmd reap s''))
         else Some (Inl e, s')))"

declare io_submit.simps [code]

definition io_get :: "('w, nvm_vblk) io_op" where
  "io_get = (\<lambda>(v, nerr, w). (Inr v, (v, nerr, w)))"

text \<open>\<open>vblk->rets[vblk->retsp++]\<close>.\<close>

definition take_ret :: "('w, ptr) io_op" where
  "take_ret = (\<lambda>(v, nerr, w).
     if length (vblk_rets v) \<le> unat (vblk_retsp v) then (Inl (Fault OutOfBounds), (v, nerr, w))
     else let ret = vblk_rets v ! unat (vblk_retsp v); v' = v\<lparr>vblk_retsp := vblk_retsp v + 1\<rparr> in
       if ret = NULL then (Inl (Errno ENOMEM), (v', nerr, w)) else (Inr ret, (v', nerr, w)))"

definition io_stripe_addr :: "nvm_vblk \<Rightarrow> u64 \<Rightarrow> u64 \<Rightarrow> u64 \<Rightarrow> nat \<Rightarrow> nvm_addr res" where
  "io_stripe_addr v stripe_nsectrs cnk_bgn stripe i =
     (let nblks = word_of_int (vblk_nblks v); cnk_idx = (cnk_bgn + stripe) mod nblks;
        cnk_off = (stripe div nblks) * stripe_nsectrs in
      case blk_at v (uint cnk_idx) of Inl e \<Rightarrow> Inl e | Inr a \<Rightarrow> Inr (set_l_sectr (cnk_off + of_nat i) a))"

definition io_stripe ::
  "'w sys \<Rightarrow> 'w nvm_be \<Rightarrow> nvm_dev \<Rightarrow> ptr \<Rightarrow> ptr \<Rightarrow> ptr \<Rightarrow> bool \<Rightarrow> u64 \<Rightarrow> u64 \<Rightarrow> nat \<Rightarrow> ('w, unit) io_lop" where
  "io_stripe sys be dev buf meta_buf pad_buf write n cnk_bgn k =
     (let stripe = of_nat k; reap = lbind (vblk_async_greedy_reap sys be dev) (\<lambda>r. lret (non_negative r));
        bufp = (if pad_buf \<noteq> NULL then pad_buf else buf + l_nbytes (dev_geo dev) * n * stripe) in
      lbind (lret io_get) (\<lambda>v.
      lbind (lret (lift_res (map_res (io_stripe_addr v n cnk_bgn stripe) [0..<unat n]))) (\<lambda>addrs.
      lbind (lret vblk_ctx) (\<lambda>ctx.
      lbind (if vblk_retsp v = nvm_async_get_depth ctx - 1 then reap else lret (ok ())) (\<lambda>_.
      lbind (lret take_ret) (\<lambda>ret.
      lbind (lret (io_world (upd (sys_ret_async sys ret (ctx_self ctx))))) (\<lambda>_.
      lbind (io_submit (io_world (
          (if write then nvm_cmd_write else nvm_cmd_read) be dev addrs (c_int (uint n)) bufp meta_buf (ucast (vblk_flags v)) ret))
        reap) (\<lambda>_.
      if (stripe + 1) mod word_of_int (vblk_nblks v) = 0
      then lret (andThen (vblk_wait sys be dev) non_negative) else lret (ok ())))))))))"

definition vblk_io_async ::
  "'w sys \<Rightarrow> 'w nvm_be \<Rightarrow> nvm_dev \<Rightarrow> u64 \<Rightarrow> u64 \<Rightarrow> ptr \<Rightarrow> ptr \<Rightarrow> ptr \<Rightarrow> bool \<Rightarrow> (nvm_vblk \<times> 'w, int) lop" where
  "vblk_io_async sys be dev vsectr_bgn count buf meta_buf pad_buf write = (\<lambda>(vblk, w).
     let nbytes = l_nbytes (dev_geo dev); nsectrs = count div nbytes;
       stripe_nsectrs = word_of_int (case nvm_dev_get_ws_opt dev of Inl _ \<Rightarrow> -1 | Inr i \<Rightarrow> i);
       nblks = word_of_int (vblk_nblks vblk); cnk_bgn = (vsectr_bgn div stripe_nsectrs) mod nblks in
     if nbytes = 0 \<or> stripe_nsectrs = 0 \<or> nblks = (0 :: u64) then Some (Inl (Fault DivByZero), (vblk, w))
     else case lbind (fold_lop (io_stripe sys be dev buf meta_buf pad_buf write stripe_nsectrs cnk_bgn)
           [0..<unat (nsectrs div stripe_nsectrs)]) (\<lambda>_. lret (andThen (vblk_wait sys be dev) non_negative)) (vblk, 0, w) of
         None \<Rightarrow> None
       | Some (r, (v, nerr, w')) \<Rightarrow>
           Some (case r of Inl e \<Rightarrow> Inl e | Inr _ \<Rightarrow> Inr (c_int (uint nerr)), (v, w')))"

text \<open>The caller turns a negative result, like a positive one, into \<open>EIO\<close>.\<close>

definition io_result :: "u64 \<Rightarrow> (nvm_vblk \<times> 'w, int) lop \<Rightarrow> (nvm_vblk \<times> 'w, unit) op \<Rightarrow> (nvm_vblk \<times> 'w, int) lop" where
  "io_result count m cleanup s = (case m s of None \<Rightarrow> None
     | Some (Inl (Fault f), s') \<Rightarrow> Some (Inl (Fault f), s')
     | Some (r, s') \<Rightarrow> Some (andThen cleanup (\<lambda>_. if r \<noteq> Inr 0 then fail (Errno EIO) else ok (sint count)) s'))"

definition with_vblk :: "('w, 'a) op \<Rightarrow> (nvm_vblk \<times> 'w, 'a) op" where
  "with_vblk m = (\<lambda>(v, w). case m w of (r, w') \<Rightarrow> (r, (v, w')))"

definition vblk_async_pwrite_s20 ::
  "'w sys \<Rightarrow> 'w nvm_be \<Rightarrow> nvm_dev \<Rightarrow> ptr \<Rightarrow> u64 \<Rightarrow> u64 \<Rightarrow> (nvm_vblk \<times> 'w, int) lop" where
  "vblk_async_pwrite_s20 sys be dev buf count offset =
     (let ws = ws_u32 (nvm_dev_get_ws_opt dev); nbytes = l_nbytes (dev_geo dev); nsectr = count div nbytes;
        vsectr_bgn = offset div nbytes in
      if nbytes = 0 \<or> ws = 0 then lret (fail (Fault DivByZero))
      else if nsectr mod ws \<noteq> 0 then lret (fail (Errno EINVAL))
      else if vsectr_bgn mod ws \<noteq> 0 then lret (fail (Errno EINVAL))
      else lbind (lret (with_vblk (pad_alloc sys dev buf (ws * nsectr * nbytes)))) (\<lambda>pad_buf.
        lbind (lret (with_vblk (meta_alloc sys dev (ws * l_nbytes_oob (dev_geo dev)) (nvm_buf_free sys dev pad_buf)))) (\<lambda>meta_buf.
        io_result count (vblk_io_async sys be dev vsectr_bgn count buf meta_buf pad_buf True)
          (with_vblk (andThen (nvm_buf_free sys dev pad_buf) (\<lambda>_. nvm_buf_free sys dev meta_buf))))))"

definition vblk_async_pread_s20 ::
  "'w sys \<Rightarrow> 'w nvm_be \<Rightarrow> nvm_dev \<Rightarrow> ptr \<Rightarrow> u64 \<Rightarrow> u64 \<Rightarrow> (nvm_vblk \<times> 'w, int) lop" where
  "vblk_async_pread_s20 sys be dev buf count offset =
     (let ws = ws_u32 (nvm_dev_get_ws_opt dev); nbytes = l_nbytes (dev_geo dev); nsectr = count div nbytes;
        vsectr_bgn = offset div nbytes in
      if nbytes = 0 \<or> ws = 0 then lret (fail (Fault DivByZero))
      else if nsectr mod ws \<noteq> 0 then lret (fail (Errno EINVAL))
      else if vsectr_bgn mod ws \<noteq> 0 then lret (fail (Errno EINVAL))
      else io_result count (vblk_io_async sys be dev vsectr_bgn count buf NULL NULL False) (ok ()))"

section \<open>The public operations\<close>

definition reading_vblk :: "(nvm_vblk \<Rightarrow> ('w, 'a) lop) \<Rightarrow> (nvm_vblk \<times> 'w, 'a) lop" where
  "reading_vblk m = (\<lambda>(v, w). case m v w of None \<Rightarrow> None | Some (r, w') \<Rightarrow> Some (r, (v, w')))"

definition nvm_vblk_pwrite ::
  "'w sys \<Rightarrow> 'w nvm_be \<Rightarrow> nvm_dev \<Rightarrow> ptr \<Rightarrow> ptr \<Rightarrow> u64 \<Rightarrow> u64 \<Rightarrow> (nvm_vblk \<times> 'w, int) lop" where
  "nvm_vblk_pwrite sys be dev ret buf count offset s =
     (if dev_verid dev = NVM_SPEC_VERID_12 then reading_vblk (\<lambda>v. vblk_pwrite_s12 sys be dev ret v buf count offset) s
      else if dev_verid dev = NVM_SPEC_VERID_20 then
        (if vblk_flags (fst s) AND NVM_CMD_ASYNC \<noteq> 0 then vblk_async_pwrite_s20 sys be dev buf count offset s
         else reading_vblk (\<lambda>v. vblk_sync_pwrite_s20 sys be dev ret v buf count offset) s)
      else lret (fail (Errno ENOSYS)) s)"

definition nvm_vblk_pread ::
  "'w sys \<Rightarrow> 'w nvm_be \<Rightarrow> nvm_dev \<Rightarrow> ptr \<Rightarrow> ptr \<Rightarrow> u64 \<Rightarrow> u64 \<Rightarrow> (nvm_vblk \<times> 'w, int) lop" where
  "nvm_vblk_pread sys be dev ret buf count offset s =
     (if dev_verid dev = NVM_SPEC_VERID_12 then reading_vblk (\<lambda>v. vblk_pread_s12 be dev ret v buf count offset) s
      else if dev_verid dev = NVM_SPEC_VERID_20 then
        (if vblk_flags (fst s) AND NVM_CMD_ASYNC \<noteq> 0 then vblk_async_pread_s20 sys be dev buf count offset s
         else reading_vblk (\<lambda>v. vblk_sync_pread_s20 be dev v buf count offset) s)
      else lret (fail (Errno ENOSYS)) s)"

text \<open>A result that is negative as a \<open>ssize_t\<close> leaves the position.\<close>

definition nvm_vblk_write ::
  "'w sys \<Rightarrow> 'w nvm_be \<Rightarrow> nvm_dev \<Rightarrow> ptr \<Rightarrow> ptr \<Rightarrow> u64 \<Rightarrow> (nvm_vblk \<times> 'w, int) lop" where
  "nvm_vblk_write sys be dev ret buf count s =
     lbind (nvm_vblk_pwrite sys be dev ret buf count (vblk_pos_write (fst s))) (\<lambda>nbytes (v, w).
       Some (Inr nbytes, (if nbytes < 0 then v else v\<lparr>vblk_pos_write := vblk_pos_write v + word_of_int nbytes\<rparr>, w))) s"

definition nvm_vblk_pad :: "'w sys \<Rightarrow> 'w nvm_be \<Rightarrow> nvm_dev \<Rightarrow> ptr \<Rightarrow> (nvm_vblk \<times> 'w, int) lop" where
  "nvm_vblk_pad sys be dev ret s = nvm_vblk_write sys be dev ret NULL (vblk_nbytes (fst s) - vblk_pos_write (fst s)) s"

definition nvm_vblk_read ::
  "'w sys \<Rightarrow> 'w nvm_be \<Rightarrow> nvm_dev \<Rightarrow> ptr \<Rightarrow> ptr \<Rightarrow> u64 \<Rightarrow> (nvm_vblk \<times> 'w, int) lop" where
  "nvm_vblk_read sys be dev ret buf count s =
     lbind (nvm_vblk_pread sys be dev ret buf count (vblk_pos_read (fst s))) (\<lambda>nbytes (v, w).
       Some (Inr nbytes, (if nbytes < 0 then v else v\<lparr>vblk_pos_read := vblk_pos_read v + word_of_int nbytes\<rparr>, w))) s"

end
