(* ===== verification/Nvm_Stripe.thy ===== *)
theory Nvm_Stripe
  imports Nvm_Vblk
begin

text \<open>
  How a virtual block spreads its sectors: the layout of version 2.0 (write units of \<open>WS_OPT\<close> sectors
  go round the chunks) and that of version 1.2 (pages of all planes go round the blocks). Both fill
  every chunk from its first sector to its last without gaps, which the media require of writes.
\<close>

section \<open>Layouts\<close>

text \<open>
  A layout gives each index of a linear space a chunk and an offset in it. It is a bijection, and
  within a chunk the order of the offsets is that of the indices.
\<close>

locale layout =
  fixes wf :: "'c \<Rightarrow> bool"
    and total :: "'c \<Rightarrow> nat"
    and nchunks :: "'c \<Rightarrow> nat"
    and chunk_len :: "'c \<Rightarrow> nat"
    and place :: "'c \<Rightarrow> nat \<Rightarrow> nat \<times> nat"
  assumes bij: "wf c \<Longrightarrow> bij_betw (place c) {..<total c} ({..<nchunks c} \<times> {..<chunk_len c})"
    and mono: "wf c \<Longrightarrow> s < t \<Longrightarrow> t < total c \<Longrightarrow> fst (place c s) = fst (place c t) \<Longrightarrow>
      snd (place c s) < snd (place c t)"
begin

lemma in_range: "wf c \<Longrightarrow> s < total c \<Longrightarrow> fst (place c s) < nchunks c \<and> snd (place c s) < chunk_len c"
  using bij_betwE [OF bij, of c] by (metis SigmaE fst_conv snd_conv lessThan_iff)

lemma place_inj: "wf c \<Longrightarrow> s < total c \<Longrightarrow> t < total c \<Longrightarrow> place c s = place c t \<longleftrightarrow> s = t"
  using bij_betw_imp_inj_on [OF bij, of c] by (auto simp: inj_on_def)

text \<open>Going through the whole space fills each chunk in the order of its offsets.\<close>

lemma chunk_in_order:
  assumes "wf c" "k < nchunks c"
  shows "map (\<lambda>s. snd (place c s)) (filter (\<lambda>s. fst (place c s) = k) [0..<total c]) = [0..<chunk_len c]"
proof (rule sorted_distinct_set_unique)
  let ?xs = "filter (\<lambda>s. fst (place c s) = k) [0..<total c]"
  have ss: "sorted_wrt (<) ?xs" by (simp add: sorted_wrt_filter)
  have "sorted_wrt (<) (map (\<lambda>s. snd (place c s)) ?xs)"
    unfolding sorted_wrt_map
    by (rule sorted_wrt_mono_rel [OF _ ss]) (auto intro!: mono [OF assms(1)])
  then show "sorted (map (\<lambda>s. snd (place c s)) ?xs)" "distinct (map (\<lambda>s. snd (place c s)) ?xs)"
    by (simp_all add: strict_sorted_iff)
  have "\<exists>s < total c. place c s = (k, x)" if "x < chunk_len c" for x
    using bij_betw_imp_surj_on [OF bij [OF assms(1)]] that assms(2)
    by (metis (no_types, lifting) SigmaI imageE lessThan_iff)
  then show "set (map (\<lambda>s. snd (place c s)) ?xs) = set [0..<chunk_len c]"
    using in_range [OF assms(1)] by (fastforce simp: image_iff)
qed auto

end

section \<open>Version 2.0\<close>

text \<open>Write units of \<open>u\<close> sectors on \<open>n\<close> chunks of \<open>len\<close> sectors.\<close>

record stripe =
  st_unit :: nat
  st_chunks :: nat
  st_len :: nat

definition stripe_wf :: "stripe \<Rightarrow> bool" where
  "stripe_wf c \<longleftrightarrow> 0 < st_unit c \<and> 0 < st_chunks c \<and> st_unit c dvd st_len c"

definition stripe_total :: "stripe \<Rightarrow> nat" where
  "stripe_total c = st_chunks c * st_len c"

definition stripe_place :: "stripe \<Rightarrow> nat \<Rightarrow> nat \<times> nat" where
  "stripe_place c s = (let q = s div st_unit c in
     (q mod st_chunks c, s mod st_unit c + (q div st_chunks c) * st_unit c))"

definition stripe_back :: "stripe \<Rightarrow> nat \<times> nat \<Rightarrow> nat" where
  "stripe_back c = (\<lambda>(k, x). ((x div st_unit c) * st_chunks c + k) * st_unit c + x mod st_unit c)"

lemma stripe_back_place: "stripe_wf c \<Longrightarrow> stripe_back c (stripe_place c s) = s"
  by (simp add: stripe_wf_def stripe_back_def stripe_place_def Let_def)

lemma stripe_place_back:
  assumes "stripe_wf c" "k < st_chunks c"
  shows "stripe_place c (stripe_back c (k, x)) = (k, x)"
proof -
  let ?u = "st_unit c" and ?n = "st_chunks c"
  have "stripe_back c (k, x) div ?u = (x div ?u) * ?n + k" "stripe_back c (k, x) mod ?u = x mod ?u"
    using assms(1) by (simp_all add: stripe_back_def stripe_wf_def)
  then show ?thesis using assms by (simp add: stripe_place_def Let_def)
qed

lemma stripe_place_lt:
  assumes "stripe_wf c" "s < stripe_total c"
  shows "fst (stripe_place c s) < st_chunks c" "snd (stripe_place c s) < st_len c"
proof -
  let ?u = "st_unit c" and ?n = "st_chunks c"
  from assms(1) obtain m where m: "st_len c = ?u * m" "0 < ?u" "0 < ?n" by (auto simp: stripe_wf_def)
  then show "fst (stripe_place c s) < ?n" by (simp add: stripe_place_def Let_def)
  have "s < (m * ?n) * ?u" using assms(2) by (simp add: stripe_total_def m(1) ac_simps)
  then have "s div ?u div ?n < m" by (simp add: less_mult_imp_div_less)
  then have "(s div ?u div ?n) * ?u + s mod ?u < m * ?u" using m(2) by (intro digit_lt) auto
  then show "snd (stripe_place c s) < st_len c" by (simp add: stripe_place_def Let_def m(1) ac_simps)
qed

lemma stripe_back_lt:
  assumes "stripe_wf c" "k < st_chunks c" "x < st_len c"
  shows "stripe_back c (k, x) < stripe_total c"
proof -
  let ?u = "st_unit c" and ?n = "st_chunks c"
  from assms(1) obtain m where m: "st_len c = m * ?u" "0 < ?u" by (auto simp: stripe_wf_def ac_simps)
  then have "x div ?u < m" using assms(3) by (simp add: less_mult_imp_div_less)
  then have "(x div ?u) * ?n + k < m * ?n" using assms(2) by (rule digit_lt)
  then have "((x div ?u) * ?n + k) * ?u + x mod ?u < (m * ?n) * ?u" by (rule digit_lt) (simp add: m(2))
  then show ?thesis by (simp add: stripe_back_def stripe_total_def m(1) ac_simps)
qed

lemma stripe_place_mono:
  assumes "stripe_wf c" "s < t" "fst (stripe_place c s) = fst (stripe_place c t)"
  shows "snd (stripe_place c s) < snd (stripe_place c t)"
proof -
  let ?u = "st_unit c" and ?n = "st_chunks c"
  have u: "0 < ?u" "0 < ?n" using assms(1) by (auto simp: stripe_wf_def)
  let ?a = "s div ?u" and ?b = "t div ?u"
  have m: "?a mod ?n = ?b mod ?n" using assms(3) by (simp add: stripe_place_def Let_def)
  have "?a \<le> ?b" using assms(2) by (simp add: div_le_mono)
  then consider "?a = ?b" | "?a div ?n < ?b div ?n"
    by (metis m div_le_mono div_mult_mod_eq le_neq_implies_less)
  then show ?thesis
  proof cases
    case 1
    have "s mod ?u < t mod ?u" using assms(2) 1 by (metis add_less_cancel_left mult_div_mod_eq)
    then show ?thesis by (simp add: stripe_place_def Let_def 1)
  next
    case 2
    have "(?a div ?n) * ?u + s mod ?u < (?b div ?n) * ?u" using 2 u(1) by (intro digit_lt) auto
    then show ?thesis by (simp add: stripe_place_def Let_def)
  qed
qed

interpretation lay20: layout stripe_wf stripe_total st_chunks st_len stripe_place
proof
  fix c
  assume wf: "stripe_wf c"
  show "bij_betw (stripe_place c) {..<stripe_total c} ({..<st_chunks c} \<times> {..<st_len c})"
  proof (rule bij_betw_byWitness [where f' = "stripe_back c"])
    show "\<forall>s \<in> {..<stripe_total c}. stripe_back c (stripe_place c s) = s" using stripe_back_place [OF wf] by blast
    show "\<forall>p \<in> {..<st_chunks c} \<times> {..<st_len c}. stripe_place c (stripe_back c p) = p"
      using stripe_place_back [OF wf] by auto
    show "stripe_place c ` {..<stripe_total c} \<subseteq> {..<st_chunks c} \<times> {..<st_len c}"
      using stripe_place_lt [OF wf] by (intro image_subsetI) (simp add: mem_Times_iff)
    show "stripe_back c ` ({..<st_chunks c} \<times> {..<st_len c}) \<subseteq> {..<stripe_total c}"
      using stripe_back_lt [OF wf] by auto
  qed
qed (rule stripe_place_mono)

section \<open>Version 1.2\<close>

text \<open>A page of all planes goes to one block: the same layout with units of one.\<close>

definition spage_place :: "stripe \<Rightarrow> nat \<Rightarrow> nat \<times> nat" where
  "spage_place c s = (s mod st_chunks c, s div st_chunks c)"

lemma spage_place_stripe: "spage_place c s = stripe_place (c\<lparr>st_unit := 1\<rparr>) s"
  by (simp add: spage_place_def stripe_place_def)

interpretation lay12: layout "\<lambda>c. 0 < st_chunks c" stripe_total st_chunks st_len spage_place
proof
  fix c :: stripe
  assume "0 < st_chunks c"
  then have wf: "stripe_wf (c\<lparr>st_unit := 1\<rparr>)" by (simp add: stripe_wf_def)
  have t: "stripe_total (c\<lparr>st_unit := 1\<rparr>) = stripe_total c" by (simp add: stripe_total_def)
  show "bij_betw (spage_place c) {..<stripe_total c} ({..<st_chunks c} \<times> {..<st_len c})"
    using lay20.bij [OF wf] by (simp add: t [simplified] spage_place_stripe [abs_def])
  show "snd (spage_place c s) < snd (spage_place c t)" if "s < t" "t < stripe_total c" "fst (spage_place c s) = fst (spage_place c t)" for s t
    using lay20.mono [OF wf that(1)] that(2,3) by (simp add: spage_place_stripe t [simplified])
qed

section \<open>Addresses\<close>

lemma word_div_mod_of_nat:
  assumes "a < 2 ^ 64" "b < 2 ^ 64"
  shows "(of_nat a :: u64) div of_nat b = of_nat (a div b)" "(of_nat a :: u64) mod of_nat b = of_nat (a mod b)"
proof -
  have "a div b < 2 ^ 64" "a mod b < 2 ^ 64"
    using assms(1) by (meson div_le_dividend le_less_trans, meson mod_less_eq_dividend le_less_trans)
  then show "(of_nat a :: u64) div of_nat b = of_nat (a div b)" "(of_nat a :: u64) mod of_nat b = of_nat (a mod b)"
    using assms by (simp_all add: word_unat_eq_iff unat_div_distrib unat_mod_distrib unat_u64 del: of_nat_numeral)
qed

text \<open>The blocks of a virtual block, and the address of one of its sectors.\<close>

definition vblk_wf :: "nvm_vblk \<Rightarrow> bool" where
  "vblk_wf v \<longleftrightarrow> 0 < vblk_nblks v \<and> vblk_nblks v \<le> 128 \<and> length (vblk_blks v) = 128"

abbreviation nblks_of :: "nvm_vblk \<Rightarrow> nat" where
  "nblks_of v \<equiv> nat (vblk_nblks v)"

definition sector_addr :: "nvm_vblk \<Rightarrow> nat \<Rightarrow> nat \<Rightarrow> nvm_addr" where
  "sector_addr v u s = (case stripe_place \<lparr>st_unit = u, st_chunks = nblks_of v, st_len = 0\<rparr> s of
     (k, x) \<Rightarrow> set_l_sectr (of_nat x) (vblk_blks v ! k))"

lemma blk_at_of_nat: "vblk_wf v \<Longrightarrow> k < nblks_of v \<Longrightarrow> blk_at v (int k) = Inr (vblk_blks v ! k)"
  by (auto simp: blk_at_def vblk_wf_def)

lemma nblks_word: "vblk_wf v \<Longrightarrow> (word_of_int (vblk_nblks v) :: u64) = of_nat (nblks_of v)"
  by (auto simp: vblk_wf_def)

lemma stripe_addr_eq:
  assumes wf: "vblk_wf v" and u: "0 < u" "u < 2 ^ 64" and s: "s < 2 ^ 64"
  shows "stripe_addr v (of_nat u) (of_nat s) = Inr (sector_addr v u s)"
proof -
  let ?n = "nblks_of v"
  have n: "0 < ?n" "?n < 2 ^ 64" "?n \<le> 128" using wf by (auto simp: vblk_wf_def)
  have q: "s div u < 2 ^ 64" using s by (meson div_le_dividend le_less_trans)
  have k: "s div u mod ?n < ?n" "s div u mod ?n < 2 ^ 64" using n by (simp_all add: less_trans [OF mod_less_divisor])
  have u0: "(of_nat ?n :: u64) \<noteq> 0" using n(1) unat_u64 [OF n(2)] by (metis unat_0 less_irrefl)
  have "uint (of_nat (s div u mod ?n) :: u64) = int (s div u mod ?n)"
    using unat_u64 [OF k(2)] by (metis int_eq_iff of_nat_unat)
  then show ?thesis
    using u0 blk_at_of_nat [OF wf k(1)]
    by (simp add: stripe_addr_def Let_def nblks_word [OF wf] word_div_mod_of_nat [OF s u(2)] word_div_mod_of_nat [OF q n(2)]
        sector_addr_def stripe_place_def)
qed

section \<open>Loops over sectors\<close>

text \<open>A loop up to and including the last sector, in steps of \<open>k\<close> sectors.\<close>

lemma for_sectors:
  fixes b k n N :: nat
  assumes "0 < k" "b + n * k < 2 ^ 64" "N \<le> n * k" "(n - 1) * k < N" "0 < n"
  shows "for_op (\<lambda>ofz. ofz \<le> of_nat b + of_nat N - 1) (\<lambda>ofz. ofz + of_nat k) body (of_nat b :: u64) s w
    = Some (fold_op (\<lambda>j. body (of_nat (b + j * k))) [0..<n] s w)"
proof -
  have st: "((\<lambda>ofz. ofz + of_nat k) ^^ j) (of_nat b :: u64) = of_nat (b + j * k)" for j
    by (simp add: funpow_plus)
  have e: "(of_nat b + of_nat N - 1 :: u64) = of_nat (b + N - 1)" using assms(4) by (simp add: of_nat_diff)
  have le: "(of_nat (b + j * k) :: u64) \<le> of_nat (b + N - 1) \<longleftrightarrow> b + j * k \<le> b + N - 1" if "j \<le> n" for j
  proof -
    have "b + j * k \<le> b + n * k" using that by simp
    then have "b + j * k < 2 ^ 64" "b + N - 1 < 2 ^ 64" using assms(2,3) by linarith+
    then show ?thesis by (simp add: word_le_nat_alt unat_u64 del: of_nat_add of_nat_mult)
  qed
  have in_: "b + j * k \<le> b + N - 1" if "j < n" for j
  proof -
    have "j * k \<le> (n - 1) * k" using that by (intro mult_le_mono1) simp
    then show ?thesis using assms(4) by linarith
  qed
  have out: "\<not> b + n * k \<le> b + N - 1" using assms(3,4) by linarith
  have "for_op (\<lambda>ofz. ofz \<le> of_nat b + of_nat N - 1) (\<lambda>ofz. ofz + of_nat k) body (of_nat b :: u64) s w =
      Some (fold_op body (map (\<lambda>j. ((\<lambda>ofz. ofz + of_nat k) ^^ j) (of_nat b)) [0..<n]) s w)"
  proof (rule for_op_steps; unfold st e)
    show "\<forall>j<n. (of_nat (b + j * k) :: u64) \<le> of_nat (b + N - 1)" using le in_ by (meson less_imp_le)
    show "\<not> (of_nat (b + n * k) :: u64) \<le> of_nat (b + N - 1)" using le [of n] out by blast
  qed
  then show ?thesis by (simp only: st fold_op_map)
qed

lemma omp_sectors:
  fixes b k n N :: nat
  assumes "0 < k" "b + n * k < 2 ^ 64" "N \<le> n * k" "(n - 1) * k < N" "0 < n"
  shows "omp_for True (of_nat b) (of_nat b + of_nat N - 1) (of_nat k) body s = fold_op (\<lambda>j. body (of_nat (b + j * k))) [0..<n] s"
  by (simp add: omp_for_def omp_iters_sectors [OF assms] fold_op_map fun_eq_iff andThen_def lift_res_def del: of_nat_add of_nat_mult)

text \<open>The addresses of the sectors \<open>[a..<a + n]\<close> of a virtual block.\<close>

definition sector_addrs :: "nvm_vblk \<Rightarrow> nat \<Rightarrow> nat \<Rightarrow> nat \<Rightarrow> nvm_addr list" where
  "sector_addrs v u a n = map (sector_addr v u) [a..<a + n]"

lemma stripe_addrs_eq:
  assumes "vblk_wf v" "0 < u" "u < 2 ^ 64" "a + n \<le> 2 ^ 64"
  shows "map_res (\<lambda>idx. stripe_addr v (of_nat u) (of_nat a + of_nat idx)) [0..<n] = Inr (sector_addrs v u a n)"
proof -
  have "map_res (\<lambda>idx. stripe_addr v (of_nat u) (of_nat a + of_nat idx)) [0..<n] = Inr (map (\<lambda>idx. sector_addr v u (a + idx)) [0..<n])"
  proof (rule map_res_Inr)
    fix i assume "i \<in> set [0..<n]"
    then show "stripe_addr v (of_nat u) (of_nat a + of_nat i) = Inr (sector_addr v u (a + i))"
      using stripe_addr_eq [OF assms(1-3), of "a + i"] assms(4) by simp
  qed
  also have "map (\<lambda>idx. sector_addr v u (a + idx)) [0..<n] = sector_addrs v u a n"
    by (rule nth_equalityI) (simp_all add: sector_addrs_def)
  finally show ?thesis .
qed

text \<open>
  The reference for a write of version 2.0: one command per write unit, with the addresses of its
  sectors and the data that belongs to them.
\<close>

definition write_units ::
  "'w nvm_be \<Rightarrow> nvm_dev \<Rightarrow> nvm_vblk \<Rightarrow> ptr \<Rightarrow> (nat \<Rightarrow> ptr) \<Rightarrow> ptr \<Rightarrow> nat \<Rightarrow> nat \<Rightarrow> nat \<Rightarrow> ('w, u64) op" where
  "write_units be dev v ret data meta u first n =
     fold_op (\<lambda>j. counted (nvm_cmd_write be dev (sector_addrs v u (first + j * u) u) (int u) (data (j * u)) meta
       (ucast (vblk_flags v)) ret)) [0..<n] 0"

definition at_sector :: "nvm_dev \<Rightarrow> ptr \<Rightarrow> nat \<Rightarrow> ptr" where
  "at_sector dev buf i = buf + of_nat i * l_nbytes (dev_geo dev)"

text \<open>The command of one iteration.\<close>

lemma pwrite_cmd_eq:
  assumes wf: "vblk_wf v" and u: "0 < u" "u < 2 ^ 31" and n: "j < n" "first + n * u < 2 ^ 64"
  shows "pwrite_cmd be dev v ret buf pad meta (of_nat u) (of_nat first) (of_nat (first + j * u)) =
      counted (nvm_cmd_write be dev (sector_addrs v u (first + j * u) u) (int u)
        ((if pad \<noteq> 0 then \<lambda>_. pad else at_sector dev buf) (j * u)) meta (ucast (vblk_flags v)) ret)"
proof -
  have cu: "c_int (uint (of_nat u :: u64)) = int u" "unat (of_nat u :: u64) = u"
    using u(2) by (simp_all add: c_int_uint unat_u64 uint_nat)
  have "Suc j * u \<le> n * u" using n(1) by (intro mult_le_mono1) simp
  then have "first + j * u + u \<le> 2 ^ 64" using n(2) by simp
  from stripe_addrs_eq [OF wf u(1) _ this] u(2)
  have "map_res (\<lambda>idx. stripe_addr v (of_nat u) (of_nat (first + j * u) + of_nat idx)) [0..<u] =
      Inr (sector_addrs v u (first + j * u) u)" by simp
  then show ?thesis by (auto simp: pwrite_cmd_def cu at_sector_def fun_eq_iff)
qed

lemma pwrite_loop:
  assumes wf: "vblk_wf v" and u: "0 < u" "u < 2 ^ 31" and n: "0 < n" "first + n * u < 2 ^ 64"
  shows "omp_for True (of_nat first) (of_nat first + of_nat (n * u) - 1) (of_nat u)
      (pwrite_cmd be dev v ret buf pad meta (of_nat u) (of_nat first)) 0 w =
    write_units be dev v ret (if pad \<noteq> 0 then \<lambda>_. pad else at_sector dev buf) meta u first n w"
proof -
  have lt: "(n - 1) * u < n * u" using n(1) u(1) by simp
  have step: "pwrite_cmd be dev v ret buf pad meta (of_nat u) (of_nat first) (of_nat (first + j * u)) =
      counted (nvm_cmd_write be dev (sector_addrs v u (first + j * u) u) (int u)
        ((if pad \<noteq> 0 then \<lambda>_. pad else at_sector dev buf) (j * u)) meta (ucast (vblk_flags v)) ret)"
    if "j \<in> set [0..<n]" for j using that by (intro pwrite_cmd_eq [OF wf u _ n(2)]) simp
  show ?thesis
    unfolding omp_sectors [OF u(1) n(2) order_refl lt n(1)] write_units_def
    by (subst fold_op_cong [OF step], assumption, rule refl)
qed

text \<open>A 2.0 device with write units of \<open>u\<close> sectors of \<open>B\<close> bytes.\<close>

definition unit_dev :: "nvm_dev \<Rightarrow> nat \<Rightarrow> nat \<Rightarrow> bool" where
  "unit_dev dev u B \<longleftrightarrow> dev_verid dev = NVM_SPEC_VERID_20 \<and> unat (ws_opt (s20_wrt (idfy_s20 (dev_idfy dev)))) = u \<and>
     unat (l_nbytes (dev_geo dev)) = B \<and> 0 < u \<and> u < 2 ^ 31 \<and> 0 < B"

lemma c_int_uint32: "unat x < 2 ^ 31 \<Longrightarrow> c_int (uint x) = uint x" for x :: u32
proof -
  assume "unat x < 2 ^ 31"
  then have "uint x < 2 ^ 31" unfolding unat_eq_nat_uint by (subst (asm) nat_less_iff) simp_all
  then show ?thesis by (intro c_int_id order_trans [OF _ uint_ge_0]) simp_all
qed

lemma unat_u64_lt: "unat x < 2 ^ 64" for x :: u64
  by (rule order_less_le_trans [OF unsigned_less]) simp

lemma ucast_of_unat: "unat x = u \<Longrightarrow> (ucast x :: u64) = of_nat u" for x :: u32
  by auto

lemma unit_devD:
  assumes "unit_dev dev u B"
  shows "ws_u32 (nvm_dev_get_ws_opt dev) = of_nat u" "l_nbytes (dev_geo dev) = of_nat B" "(of_nat B :: u64) \<noteq> 0"
    "(of_nat u :: u64) \<noteq> 0" "0 < u" "u < 2 ^ 31" "0 < B" "B < 2 ^ 64" "dev_verid dev = 2"
proof -
  from assms have d: "dev_verid dev = 2" "unat (ws_opt (s20_wrt (idfy_s20 (dev_idfy dev)))) = u"
    "unat (l_nbytes (dev_geo dev)) = B" "0 < u" "u < 2 ^ 31" "0 < B" by (simp_all add: unit_dev_def)
  then show "0 < u" "u < 2 ^ 31" "0 < B" "dev_verid dev = 2" by blast+
  show "ws_u32 (nvm_dev_get_ws_opt dev) = of_nat u"
    using d(1,5) d(2) [symmetric] by (simp add: ws_u32_def nvm_dev_get_ws_opt_def c_int_uint32)
  show "l_nbytes (dev_geo dev) = of_nat B" using d(3) by auto
  show B: "B < 2 ^ 64" using d(3) unat_u64_lt by blast
  show "(of_nat B :: u64) \<noteq> 0" using unat_u64 [OF B] d(6) by (metis unat_0 less_irrefl)
  have "unat (of_nat u :: u64) = u" using d(5) by (intro unat_u64) simp
  then show "(of_nat u :: u64) \<noteq> 0" using d(4) by (metis unat_0 less_irrefl)
qed

lemma sectors_of_bytes:
  assumes "unat x = k * B" "0 < B" "B < 2 ^ 64"
  shows "x div of_nat B = (of_nat k :: u64)" "k < 2 ^ 64"
proof -
  have x: "x = of_nat (k * B)" unfolding assms(1) [symmetric] by simp
  have lt: "k * B < 2 ^ 64" using assms(1) unat_u64_lt by metis
  show "x div of_nat B = (of_nat k :: u64)" unfolding x word_div_mod_of_nat(1) [OF lt assms(3)] using assms(2) by simp
  have "k * 1 \<le> k * B" using assms(2) by (intro mult_le_mono2) simp
  then show "k < 2 ^ 64" using lt by linarith
qed

lemma sync_pwrite_eq:
  assumes dev: "unit_dev dev u B" and wf: "vblk_wf v" and buf: "buf \<noteq> 0" and meta: "dev_meta_mode dev = NVM_META_MODE_NONE"
    and count: "unat count = n * u * B" "0 < n" and offset: "unat offset = m * u * B" and lt: "(m + n) * u < 2 ^ 64"
  shows "vblk_sync_pwrite_s20 sys be dev ret v buf count offset w =
    Some (andThen (write_units be dev v ret (at_sector dev buf) 0 u (m * u) n) (\<lambda>nerr.
      andThen (nvm_buf_free sys dev 0) (\<lambda>_. andThen (nvm_buf_free sys dev 0) (\<lambda>_. io_done count nerr))) w)"
proof -
  note d = unit_devD [OF dev]
  note c = sectors_of_bytes [OF count(1) d(7,8)] and o = sectors_of_bytes [OF offset d(7,8)]
  have u64: "u < 2 ^ 64" using d(6) by simp
  have al: "(of_nat (n * u) :: u64) mod of_nat u = 0" "(of_nat (m * u) :: u64) mod of_nat u = 0"
    by (simp_all only: word_div_mod_of_nat(2) [OF c(2) u64] word_div_mod_of_nat(2) [OF o(2) u64]) simp_all
  have lt': "m * u + n * u < 2 ^ 64" using lt by (simp add: algebra_simps)
  have loop: "omp_for True (of_nat (m * u)) (of_nat (m * u) + of_nat (n * u) - 1) (of_nat u)
      (pwrite_cmd be dev v ret buf 0 0 (of_nat u) (of_nat (m * u))) 0 w =
    write_units be dev v ret (at_sector dev buf) 0 u (m * u) n w"
    using pwrite_loop [OF wf d(5,6) count(2) lt', where pad = 0] by simp
  show ?thesis
    unfolding vblk_sync_pwrite_s20_def Let_def d(1,2) c(1) o(1) al
    using loop d(3,4) buf meta
    by (simp add: pad_alloc_def meta_alloc_def lbind_def lret_def ok_def andThen_def del: of_nat_mult split: prod.splits sum.splits)
qed

text \<open>
  The reference for a read: a vector command always asks for 64 sectors, a scalar one for a write
  unit, of which it gives the first address.
\<close>

definition read_step :: "nvm_vblk \<Rightarrow> nat \<Rightarrow> nat" where
  "read_step v u = (if vblk_flags v AND NVM_CMD_VECTOR \<noteq> 0 then 64 else u)"

definition read_naddrs :: "nvm_vblk \<Rightarrow> nat \<Rightarrow> nat" where
  "read_naddrs v k = (if vblk_flags v AND NVM_CMD_SCALAR \<noteq> 0 then min 1 k else k)"

definition read_units :: "'w nvm_be \<Rightarrow> nvm_dev \<Rightarrow> nvm_vblk \<Rightarrow> ptr \<Rightarrow> nat \<Rightarrow> nat \<Rightarrow> nat \<Rightarrow> nat \<Rightarrow> ('w, u64) op" where
  "read_units be dev v buf u k first c =
     fold_op (\<lambda>j. counted (nvm_cmd_read be dev (sector_addrs v u (first + j * k) (read_naddrs v k)) (int k)
       (at_sector dev buf (j * k)) 0 (ucast (vblk_flags v)) 0)) [0..<c] 0"

lemma pread_loop:
  assumes wf: "vblk_wf v" and u: "0 < u" "u < 2 ^ 31" and k: "0 < k" "k < 2 ^ 31"
    and n: "0 < c" "first + c * k < 2 ^ 64" "N \<le> c * k" "(c - 1) * k < N"
  shows "omp_for True (of_nat first) (of_nat first + of_nat N - 1) (of_nat k)
      (pread_cmd be dev v buf (of_nat u) (of_nat k) (of_nat first)) 0 w =
    read_units be dev v buf u k first c w"
proof -
  have ck: "c_int (uint (of_nat k :: u64)) = int k" "unat (of_nat k :: u64) = k"
    using k(2) by (simp_all add: c_int_uint unat_u64 uint_nat)
  have step: "pread_cmd be dev v buf (of_nat u) (of_nat k) (of_nat first) (of_nat (first + j * k)) =
      counted (nvm_cmd_read be dev (sector_addrs v u (first + j * k) (read_naddrs v k)) (int k)
       (at_sector dev buf (j * k)) 0 (ucast (vblk_flags v)) 0)"
    if "j \<in> set [0..<c]" for j
  proof -
    have "Suc j * k \<le> c * k" using that by (intro mult_le_mono1) simp
    then have "first + j * k + read_naddrs v k \<le> 2 ^ 64" using n(2) by (simp add: read_naddrs_def min_def)
    from stripe_addrs_eq [OF wf u(1) _ this] u(2)
    have "map_res (\<lambda>idx. stripe_addr v (of_nat u) (of_nat (first + j * k) + of_nat idx)) [0..<read_naddrs v k] =
        Inr (sector_addrs v u (first + j * k) (read_naddrs v k))" by simp
    then show ?thesis by (auto simp: pread_cmd_def Let_def ck at_sector_def fun_eq_iff read_naddrs_def)
  qed
  show ?thesis
    unfolding omp_sectors [OF k(1) n(2-4,1)] read_units_def
    by (subst fold_op_cong [OF step], assumption, rule refl)
qed

lemma ceil_div:
  fixes N k :: nat
  assumes "0 < N" "0 < k"
  defines "c \<equiv> (N + k - 1) div k"
  shows "0 < c" "N \<le> c * k" "(c - 1) * k < N" "c * k < N + k"
proof -
  have m: "c * k + (N + k - 1) mod k = N + k - 1" unfolding c_def by simp
  moreover have "(N + k - 1) mod k < k" using assms(2) by simp
  ultimately show le: "N \<le> c * k" and "c * k < N + k" using assms(1) by linarith+
  show c: "0 < c" using le assms(1) by (cases c) auto
  have "c * k = (c - 1) * k + k" using c by (cases c) auto
  then show "(c - 1) * k < N" using \<open>c * k < N + k\<close> by linarith
qed

lemma sync_pread_eq:
  assumes dev: "unit_dev dev u B" and wf: "vblk_wf v"
    and count: "unat count = n * u * B" "0 < n" and offset: "unat offset = m * u * B" and lt: "(m + n) * u + read_step v u < 2 ^ 64"
  shows "vblk_sync_pread_s20 be dev v buf count offset w =
    Some (andThen (read_units be dev v buf u (read_step v u) (m * u) ((n * u + read_step v u - 1) div read_step v u)) (io_done count) w)"
proof -
  note d = unit_devD [OF dev]
  note c = sectors_of_bytes [OF count(1) d(7,8)] and o = sectors_of_bytes [OF offset d(7,8)]
  have u64: "u < 2 ^ 64" using d(6) by simp
  have al: "(of_nat (n * u) :: u64) mod of_nat u = 0" "(of_nat (m * u) :: u64) mod of_nat u = 0"
    by (simp_all only: word_div_mod_of_nat(2) [OF c(2) u64] word_div_mod_of_nat(2) [OF o(2) u64]) simp_all
  let ?k = "read_step v u" and ?c = "(n * u + read_step v u - 1) div read_step v u"
  have k: "0 < ?k" "?k < 2 ^ 31" "(if vblk_flags v AND NVM_CMD_VECTOR \<noteq> 0 then NVM_NADDR_MAX else of_nat u :: u64) = of_nat ?k"
    using d(5,6) by (simp_all add: read_step_def)
  have N: "0 < n * u" using count(2) d(5) by simp
  note cd = ceil_div [OF N k(1)]
  have lt': "m * u + ?c * ?k < 2 ^ 64" using lt cd(4) by (simp add: algebra_simps)
  note loop = pread_loop [OF wf d(5,6) k(1,2) cd(1) lt' cd(2,3), of be dev buf w]
  show ?thesis
    unfolding vblk_sync_pread_s20_def Let_def d(1,2) c(1) o(1) al k(3)
    using loop d(3,4)
    by (simp add: lbind_def lret_def ok_def andThen_def del: of_nat_mult split: prod.splits sum.splits)
qed

end
