(* ===== verification/Nvm_Vblk_IO.thy ===== *)
theory Nvm_Vblk_IO
  imports Nvm_Stripe
begin

text \<open>
  What reads and writes of a virtual block do to the media, and the properties of \<open>src/nvm_vblk.c\<close>.
\<close>

section \<open>Counted commands\<close>

lemma counted_Inr:
  "counted m e w = (Inr r, w') \<longleftrightarrow> (\<exists>x. m w = (Inr x, w') \<and> r = e) \<or> (\<exists>x. m w = (Inl (Errno x), w') \<and> r = e + 1)"
  by (auto simp: counted_def split: prod.splits sum.splits failure.splits)

lemma counted_fold:
  assumes "fold_op (\<lambda>j. counted (f j)) is e w = (Inr r, w')"
  shows "\<exists>c \<le> length is. r = e + of_nat c \<and> (c = 0 \<longrightarrow> each_op f is w = (Inr (), w'))"
  using assms
proof (induction "is" arbitrary: e w)
  case Nil
  then show ?case by (simp add: ok_def)
next
  case (Cons i "is")
  from Cons.prems obtain e1 w1 where 1: "counted (f i) e w = (Inr e1, w1)" "fold_op (\<lambda>j. counted (f j)) is e1 w1 = (Inr r, w')"
    by (auto simp: andThen_Inr)
  from Cons.IH [OF 1(2)] obtain c where c: "c \<le> length is" "r = e1 + of_nat c" "c = 0 \<longrightarrow> each_op f is w1 = (Inr (), w')"
    by blast
  from 1(1) consider (ok) "\<exists>x. f i w = (Inr x, w1)" "e1 = e" | (err) "e1 = e + 1" by (auto simp: counted_Inr)
  then show ?case
  proof cases
    case ok
    then show ?thesis using c by (intro exI [of _ c]) (auto simp: andThen_def)
  next
    case err
    then show ?thesis using c by (intro exI [of _ "Suc c"]) auto
  qed
qed

lemma counted_fold_zero:
  assumes "fold_op (\<lambda>j. counted (f j)) is 0 w = (Inr 0, w')" "length is < 2 ^ 64"
  shows "each_op f is w = (Inr (), w')"
proof -
  from counted_fold [OF assms(1)] obtain c where c: "c \<le> length is" "(of_nat c :: u64) = 0" "c = 0 \<longrightarrow> each_op f is w = (Inr (), w')"
    by auto
  have "unat (of_nat c :: u64) = c" using c(1) assms(2) by (intro unat_u64) simp
  with c show ?thesis by simp
qed

section \<open>The media\<close>

text \<open>
  What the library relies on of a backend's vector commands: a successful write stores the bytes of
  the buffer in the addressed sectors and nothing else, a successful read copies the bytes of the
  sectors to the buffer and changes nothing else. \<open>sec\<close> gives the bytes of a sector, \<open>mem\<close> those of
  the memory of the process, \<open>D\<close> is the set of the addresses that the format of the device can express.
  Commands have 1 to 64 addresses and the flags \<open>NVM_VBLK_CMD_OPTS\<close>.
\<close>

definition media_laws :: "'w sys \<Rightarrow> 'w nvm_be \<Rightarrow> nvm_dev \<Rightarrow> nat \<Rightarrow> nvm_addr set \<Rightarrow> ('w \<Rightarrow> nvm_addr \<Rightarrow> nat \<Rightarrow> u8) \<Rightarrow>
    ('w \<Rightarrow> ptr \<Rightarrow> u8) \<Rightarrow> bool" where
  "media_laws sys be dev B D sec mem \<longleftrightarrow>
     (\<forall>as data ret w w'. distinct as \<longrightarrow> set as \<subseteq> D \<longrightarrow> 0 < length as \<longrightarrow> length as \<le> 64 \<longrightarrow> data \<noteq> 0 \<longrightarrow>
        be_vector_write be dev as (int (length as)) data 0 0x190 ret w = (Inr (), w') \<longrightarrow>
        mem w' = mem w \<and> (\<forall>t < length as * B. sec w' (as ! (t div B)) (t mod B) = mem w (data + of_nat t)) \<and>
        (\<forall>a \<in> D - set as. sec w' a = sec w a)) \<and>
     (\<forall>as data ret w w'. 0 < length as \<longrightarrow> length as \<le> 64 \<longrightarrow> data \<noteq> 0 \<longrightarrow>
        be_vector_read be dev as (int (length as)) data 0 0x190 ret w = (Inr (), w') \<longrightarrow>
        sec w' = sec w \<and> (\<forall>t < length as * B. mem w' (data + of_nat t) = sec w (as ! (t div B)) (t mod B)) \<and>
        (\<forall>q. (\<forall>t < length as * B. q \<noteq> data + of_nat t) \<longrightarrow> mem w' q = mem w q)) \<and>
     (\<forall>p w. sec (sys_free sys p w) = sec w \<and> mem (sys_free sys p w) = mem w) \<and>
     (\<forall>p w. sec (sys_spdk_dma_free sys p w) = sec w \<and> mem (sys_spdk_dma_free sys p w) = mem w)"

lemma media_write:
  assumes "media_laws sys be dev B D sec mem" "distinct as" "set as \<subseteq> D" "0 < length as" "length as \<le> 64" "data \<noteq> 0"
    "be_vector_write be dev as (int (length as)) data 0 0x190 ret w = (Inr (), w')"
  shows "mem w' = mem w" "t < length as * B \<Longrightarrow> sec w' (as ! (t div B)) (t mod B) = mem w (data + of_nat t)"
    "a \<in> D \<Longrightarrow> a \<notin> set as \<Longrightarrow> sec w' a = sec w a"
  using assms(1) [unfolded media_laws_def, THEN conjunct1, rule_format, OF assms(2-7)] by blast+

lemma media_read:
  assumes "media_laws sys be dev B D sec mem" "0 < length as" "length as \<le> 64" "data \<noteq> 0"
    "be_vector_read be dev as (int (length as)) data 0 0x190 ret w = (Inr (), w')"
  shows "sec w' = sec w" "t < length as * B \<Longrightarrow> mem w' (data + of_nat t) = sec w (as ! (t div B)) (t mod B)"
    "(\<And>t. t < length as * B \<Longrightarrow> q \<noteq> data + of_nat t) \<Longrightarrow> mem w' q = mem w q"
  using assms(1) [unfolded media_laws_def, THEN conjunct2, THEN conjunct1, rule_format, OF assms(2-5)] by blast+

lemma media_free:
  assumes "media_laws sys be dev B D sec mem" "nvm_buf_free sys dev p w = (Inr (), w')"
  shows "sec w' = sec w" "mem w' = mem w"
  using assms
  by (auto simp: nvm_buf_free_def nvm_buf_virt_free_def upd_def ok_def fail_def media_laws_def split: option.splits if_splits)

section \<open>Distinct sectors\<close>

text \<open>The chunks of a virtual block are different ones.\<close>

definition chunks_distinct :: "nvm_vblk \<Rightarrow> bool" where
  "chunks_distinct v \<longleftrightarrow> distinct (map (set_l_sectr 0) (take (nblks_of v) (vblk_blks v)))"

lemma set_l_sectr_eq:
  assumes "set_l_sectr x a = set_l_sectr y b"
  shows "take_bit 32 x = take_bit 32 y" "set_l_sectr 0 a = set_l_sectr 0 b"
proof -
  have "l_sectr (set_l_sectr x a) = l_sectr (set_l_sectr y b)" by (simp only: assms)
  then show "take_bit 32 x = take_bit 32 y" by (simp add: bitfield_simps)
  show "set_l_sectr 0 a = set_l_sectr 0 b"
  proof (rule addr_eq_l)
  qed (use arg_cong [OF assms, of l_chunk] arg_cong [OF assms, of l_punit] arg_cong [OF assms, of l_pugrp] in \<open>simp_all add: bitfield_simps\<close>)
qed

text \<open>A request inside a virtual block whose chunks have \<open>len\<close> sectors.\<close>

definition geo_wf :: "nvm_vblk \<Rightarrow> nat \<Rightarrow> nat \<Rightarrow> bool" where
  "geo_wf v u len \<longleftrightarrow> vblk_wf v \<and> chunks_distinct v \<and> 0 < u \<and> u dvd len \<and> len \<le> 2 ^ 32"

lemma sector_addr_inj:
  assumes wf: "geo_wf v u len" and st: "s < nblks_of v * len" "t < nblks_of v * len"
  shows "sector_addr v u s = sector_addr v u t \<longleftrightarrow> s = t"
proof
  let ?c = "\<lparr>st_unit = u, st_chunks = nblks_of v, st_len = len\<rparr>"
  have c: "stripe_wf ?c" "s < stripe_total ?c" "t < stripe_total ?c"
    using wf st by (auto simp: geo_wf_def stripe_wf_def stripe_total_def vblk_wf_def)
  have pl: "stripe_place \<lparr>st_unit = u, st_chunks = nblks_of v, st_len = 0\<rparr> = stripe_place ?c"
    by (simp add: stripe_place_def fun_eq_iff)
  obtain k x l y where p: "stripe_place ?c s = (k, x)" "stripe_place ?c t = (l, y)" by fastforce
  have b: "k < nblks_of v" "x < len" "l < nblks_of v" "y < len"
    using lay20.in_range [OF c(1,2)] lay20.in_range [OF c(1,3)] by (simp_all add: p)
  assume "sector_addr v u s = sector_addr v u t"
  then have eq: "set_l_sectr (of_nat x) (vblk_blks v ! k) = set_l_sectr (of_nat y) (vblk_blks v ! l)"
    by (simp add: sector_addr_def pl p)
  have len: "len \<le> 2 ^ 32" and dist: "chunks_distinct v" "vblk_wf v" using wf by (auto simp: geo_wf_def)
  have u32: "unat (of_nat z :: u64) = z" "take_bit 32 (of_nat z :: u64) = of_nat z" if "z < len" for z
  proof -
    show "unat (of_nat z :: u64) = z" using that len by (intro unat_u64) simp
    then show "take_bit 32 (of_nat z :: u64) = of_nat z" using that len by (intro take_bit_id) simp
  qed
  have nl: "nblks_of v \<le> length (vblk_blks v)" using dist(2) by (auto simp: vblk_wf_def)
  have "x = y" using set_l_sectr_eq(1) [OF eq] u32 b(2,4) by metis
  moreover have "map (set_l_sectr 0) (take (nblks_of v) (vblk_blks v)) ! k = map (set_l_sectr 0) (take (nblks_of v) (vblk_blks v)) ! l"
    using set_l_sectr_eq(2) [OF eq] b nl by simp
  then have "k = l" using dist b nl unfolding chunks_distinct_def by (subst (asm) nth_eq_iff_index_eq) auto
  ultimately show "s = t" using lay20.place_inj [OF c] p by simp
qed simp

lemma sector_addr_place:
  assumes "geo_wf v u len" "s < nblks_of v * len"
  shows "\<exists>k x. k < nblks_of v \<and> x < len \<and> sector_addr v u s = set_l_sectr (of_nat x) (vblk_blks v ! k)"
proof -
  let ?c = "\<lparr>st_unit = u, st_chunks = nblks_of v, st_len = len\<rparr>"
  have c: "stripe_wf ?c" "s < stripe_total ?c" using assms by (auto simp: geo_wf_def stripe_wf_def stripe_total_def vblk_wf_def)
  have "stripe_place \<lparr>st_unit = u, st_chunks = nblks_of v, st_len = 0\<rparr> = stripe_place ?c" by (simp add: stripe_place_def fun_eq_iff)
  then show ?thesis using lay20.in_range [OF c] by (auto simp: sector_addr_def split_beta)
qed

lemma sector_addrs_distinct:
  assumes "geo_wf v u len" "a + n \<le> nblks_of v * len"
  shows "distinct (sector_addrs v u a n)"
  using assms sector_addr_inj [OF assms(1)] unfolding sector_addrs_def by (auto simp: distinct_map inj_on_def)

definition sectors_in :: "nvm_addr set \<Rightarrow> nvm_vblk \<Rightarrow> nat \<Rightarrow> nat \<Rightarrow> bool" where
  "sectors_in D v u len \<longleftrightarrow> (\<forall>s < nblks_of v * len. sector_addr v u s \<in> D)"

lemma sector_addrs_in: "sectors_in D v u len \<Longrightarrow> a + n \<le> nblks_of v * len \<Longrightarrow> set (sector_addrs v u a n) \<subseteq> D"
  by (auto simp: sectors_in_def sector_addrs_def)

lemma cmd_vector:
  assumes "vblk_flags v = NVM_VBLK_CMD_OPTS"
  shows "nvm_cmd_write be dev as n data meta (ucast (vblk_flags v)) ret = be_vector_write be dev as n data meta 0x190 ret"
    "nvm_cmd_read be dev as n data meta (ucast (vblk_flags v)) ret = be_vector_read be dev as n data meta 0x190 ret"
proof -
  have "cmd_opt dev (ucast (vblk_flags v)) = NVM_CMD_VECTOR" "(ucast (vblk_flags v) :: u16) = 0x190"
    unfolding assms by (simp_all add: cmd_opt_def Let_def)
  then show "nvm_cmd_write be dev as n data meta (ucast (vblk_flags v)) ret = be_vector_write be dev as n data meta 0x190 ret"
    "nvm_cmd_read be dev as n data meta (ucast (vblk_flags v)) ret = be_vector_read be dev as n data meta 0x190 ret"
    by (simp_all add: nvm_cmd_write_def nvm_cmd_read_def)
qed

section \<open>What a write stores and a read returns\<close>

text \<open>The bytes of the sectors \<open>first, first + 1, ...\<close> of a virtual block in a state of the media.\<close>

definition vbyte :: "(nvm_addr \<Rightarrow> nat \<Rightarrow> u8) \<Rightarrow> nvm_vblk \<Rightarrow> nat \<Rightarrow> nat \<Rightarrow> nat \<Rightarrow> nat \<Rightarrow> u8" where
  "vbyte m v u B first t = m (sector_addr v u (first + t div B)) (t mod B)"

lemma sector_addrs_nth: "i < n \<Longrightarrow> sector_addrs v u a n ! i = sector_addr v u (a + i)"
  by (simp add: sector_addrs_def)

lemma sector_addrs_length [simp]: "length (sector_addrs v u a n) = n"
  by (simp add: sector_addrs_def)

lemma at_sector_byte:
  assumes "l_nbytes (dev_geo dev) = of_nat B"
  shows "at_sector dev buf i + of_nat t = buf + of_nat (i * B + t)"
  by (simp add: at_sector_def assms)

lemma at_sector_nonnull:
  assumes "l_nbytes (dev_geo dev) = of_nat B" "buf \<noteq> 0" "unat buf + i * B < 2 ^ 64"
  shows "at_sector dev buf i \<noteq> 0"
proof -
  have "unat (of_nat (i * B) :: u64) = i * B" using assms(3) by (intro unat_u64) simp
  then have "unat (buf + of_nat (i * B)) = unat buf + i * B" using assms(3) by (subst unat_add_lt) simp_all
  then have "buf + of_nat (i * B) \<noteq> 0" using assms(2) by (metis add_eq_0_iff_both_eq_0 unat_0 unat_eq_zero)
  then show ?thesis using at_sector_byte [OF assms(1), of buf i 0] by simp
qed

lemma div_offset:
  assumes "i * B \<le> t" "0 < B"
  shows "t div B = i + (t - i * B) div B" "t mod B = (t - i * B) mod (B :: nat)"
proof -
  have "t = i * B + (t - i * B)" using assms(1) by simp
  then show "t div B = i + (t - i * B) div B" "t mod B = (t - i * B) mod B"
    using assms(2) by (metis div_mult_self3 less_irrefl, metis mod_mult_self3)
qed

text \<open>The commands of a write in any order: each unit is stored, and the sectors of no other unit change.\<close>

lemma unit_disjoint:
  assumes "geo_wf v u len" "first + n * u \<le> nblks_of v * len" "i < n" "j < n" "i \<noteq> j" "q < u"
  shows "sector_addr v u (first + j * u + q) \<notin> set (sector_addrs v u (first + i * u) u)"
proof
  have in_: "first + k * u + x < nblks_of v * len" if "k < n" "x < u" for k x
  proof -
    have "Suc k * u \<le> n * u" using that(1) by (intro mult_le_mono1) simp
    then show ?thesis using assms(2) that(2) by simp
  qed
  assume "sector_addr v u (first + j * u + q) \<in> set (sector_addrs v u (first + i * u) u)"
  then obtain x where x: "x < u" "sector_addr v u (first + j * u + q) = sector_addr v u (first + i * u + x)"
    by (auto simp: in_set_conv_nth sector_addrs_nth)
  then have "j * u + q = i * u + x"
    using sector_addr_inj [OF assms(1) in_ in_, OF assms(4,6) assms(3) x(1)] by simp
  then show False using digits_eq [OF assms(6) x(1), of j i] assms(5) by simp
qed

lemma units_written_any:
  assumes laws: "media_laws sys be dev B D sec mem" and B: "l_nbytes (dev_geo dev) = of_nat B" "0 < B" and u: "0 < u" "u \<le> 64"
    and geo: "geo_wf v u len" and D: "sectors_in D v u len" and inside: "first + n * u \<le> nblks_of v * len"
    and room: "buf \<noteq> 0" "unat buf + n * u * B \<le> 2 ^ 64"
    and run: "each_op (\<lambda>j. be_vector_write be dev (sector_addrs v u (first + j * u) u) (int u) (at_sector dev buf (j * u)) 0 0x190 ret)
      is w = (Inr (), w')" and js: "distinct is" "set is \<subseteq> {..<n}"
  shows "mem w' = mem w \<and> (\<forall>j \<in> set is. \<forall>t < u * B. sec w' (sector_addr v u (first + j * u + t div B)) (t mod B) = mem w (buf + of_nat (j * u * B + t)))
    \<and> (\<forall>a \<in> D. (\<forall>j \<in> set is. a \<notin> set (sector_addrs v u (first + j * u) u)) \<longrightarrow> sec w' a = sec w a)"
  using run js
proof (induction "is" arbitrary: w)
  case Nil
  then show ?case by (simp add: ok_def)
next
  case (Cons i "is")
  let ?as = "sector_addrs v u (first + i * u) u"
  from Cons.prems(1) obtain w1 where 1: "be_vector_write be dev ?as (int u) (at_sector dev buf (i * u)) 0 0x190 ret w = (Inr (), w1)"
    "each_op (\<lambda>j. be_vector_write be dev (sector_addrs v u (first + j * u) u) (int u) (at_sector dev buf (j * u)) 0 0x190 ret) is w1 = (Inr (), w')"
    by (auto simp: andThen_Inr)
  note IH = Cons.IH [OF 1(2)]
  have i: "i < n" "i \<notin> set is" "distinct is" "set is \<subseteq> {..<n}" using Cons.prems(2,3) by auto
  have le: "Suc i * u \<le> n * u" using i(1) by (intro mult_le_mono1) simp
  then have le2: "first + i * u + u \<le> nblks_of v * len" using inside by simp
  have "Suc i * u * B \<le> n * u * B" using le by (rule mult_le_mono1)
  then have "i * u * B + u * B \<le> n * u * B" by (simp add: algebra_simps)
  moreover have "0 < u * B" using u(1) B(2) by simp
  ultimately have lt: "unat buf + i * u * B < 2 ^ 64" using room(2) by linarith
  note m = media_write [OF laws sector_addrs_distinct [OF geo le2] sector_addrs_in [OF D le2], unfolded sector_addrs_length,
    OF u at_sector_nonnull [OF B(1) room(1) lt] 1(1)]
  have own: "sec w' (sector_addr v u (first + i * u + t div B)) (t mod B) = mem w (buf + of_nat (i * u * B + t))" if t: "t < u * B" for t
  proof -
    have q: "t div B < u" using t by (simp add: less_mult_imp_div_less)
    have "sector_addr v u (first + i * u + t div B) \<notin> set (sector_addrs v u (first + j * u) u)" if "j \<in> set is" for j
      using that i by (intro unit_disjoint [OF geo inside _ _ _ q]) auto
    moreover have "sector_addr v u (first + i * u + t div B) \<in> D" using q le2 D by (simp add: sectors_in_def)
    ultimately have "sec w' (sector_addr v u (first + i * u + t div B)) = sec w1 (sector_addr v u (first + i * u + t div B))"
      using IH i by blast
    then show ?thesis using m(2) [OF t] by (simp add: sector_addrs_nth q at_sector_byte [OF B(1)] del: of_nat_add of_nat_mult)
  qed
  show ?case
  proof (intro conjI ballI impI allI)
    show "mem w' = mem w" using IH i m(1) by simp
  next
    fix j t assume "j \<in> set (i # is)" "t < u * B"
    then show "sec w' (sector_addr v u (first + j * u + t div B)) (t mod B) = mem w (buf + of_nat (j * u * B + t))"
      using own IH i m(1) by auto
  next
    fix a assume "a \<in> D" "\<forall>j \<in> set (i # is). a \<notin> set (sector_addrs v u (first + j * u) u)"
    then show "sec w' a = sec w a" using IH i m(3) by simp
  qed
qed

lemma units_written:
  assumes laws: "media_laws sys be dev B D sec mem" and B: "l_nbytes (dev_geo dev) = of_nat B" "0 < B" and u: "0 < u" "u \<le> 64"
    and geo: "geo_wf v u len" and D: "sectors_in D v u len" and inside: "first + n * u \<le> nblks_of v * len"
    and room: "buf \<noteq> 0" "unat buf + n * u * B \<le> 2 ^ 64"
    and run: "each_op (\<lambda>j. be_vector_write be dev (sector_addrs v u (first + j * u) u) (int u) (at_sector dev buf (j * u)) 0 0x190 ret)
      is w = (Inr (), w')" and js: "distinct is" "set is = {..<n}"
  shows "mem w' = mem w \<and> (\<forall>t < n * u * B. vbyte (sec w') v u B first t = mem w (buf + of_nat t))"
proof -
  have sub: "set is \<subseteq> {..<n}" using js(2) by simp
  note any = units_written_any [OF laws B u geo D inside room run js(1) sub]
  have "vbyte (sec w') v u B first t = mem w (buf + of_nat t)" if t: "t < n * u * B" for t
  proof -
    have uB: "0 < u * B" using u(1) B(2) by simp
    define j r where "j = t div (u * B)" and "r = t mod (u * B)"
    have tt: "t = (j * u) * B + r" unfolding j_def r_def by (simp only: mult.assoc div_mult_mod_eq)
    have j: "j < n" unfolding j_def using t by (simp add: less_mult_imp_div_less mult.assoc)
    have r: "r < u * B" unfolding r_def using uB by simp
    have "j \<in> set is" using j js(2) by simp
    then have "sec w' (sector_addr v u (first + j * u + r div B)) (r mod B) = mem w (buf + of_nat (j * u * B + r))" using any r by blast
    moreover have "t div B = j * u + r div B" "t mod B = r mod B" unfolding tt using B(2) by simp_all
    ultimately show ?thesis using tt by (simp add: vbyte_def add.assoc del: of_nat_add of_nat_mult)
  qed
  then show ?thesis using any by blast
qed

lemma of_nat_u64_eq: "a < 2 ^ 64 \<Longrightarrow> b < 2 ^ 64 \<Longrightarrow> (of_nat a :: u64) = of_nat b \<longleftrightarrow> a = b"
  by (metis unat_u64)

lemma units_read:
  assumes laws: "media_laws sys be dev B D sec mem" and B: "l_nbytes (dev_geo dev) = of_nat B" "0 < B" and k: "0 < k" "k \<le> 64"
    and inside: "buf \<noteq> 0" "unat buf + n * k * B \<le> 2 ^ 64"
    and run: "each_op (\<lambda>j. be_vector_read be dev (sector_addrs v u (first + j * k) k) (int k) (at_sector dev buf (j * k)) 0 0x190 ret)
      [0..<n] w = (Inr (), w')"
  shows "sec w' = sec w \<and> (\<forall>t < n * k * B. mem w' (buf + of_nat t) = vbyte (sec w) v u B first t)"
  using inside(2) run
proof (induction n arbitrary: w')
  case 0
  then show ?case by (simp add: ok_def)
next
  case (Suc n)
  from Suc.prems(2) obtain w1 where 1: "each_op (\<lambda>j. be_vector_read be dev (sector_addrs v u (first + j * k) k) (int k)
        (at_sector dev buf (j * k)) 0 0x190 ret) [0..<n] w = (Inr (), w1)"
    "be_vector_read be dev (sector_addrs v u (first + n * k) k) (int k) (at_sector dev buf (n * k)) 0 0x190 ret w1 = (Inr (), w')"
    by (rule each_op_snoc)
  let ?as = "sector_addrs v u (first + n * k) k"
  have "0 < k * B" using k(1) B(2) by simp
  then have lt: "unat buf + n * k * B < 2 ^ 64" using Suc.prems(1) unfolding mult_Suc add_mult_distrib by linarith
  then have IH: "sec w1 = sec w" "\<And>t. t < n * k * B \<Longrightarrow> mem w1 (buf + of_nat t) = vbyte (sec w) v u B first t"
    using Suc.IH [OF _ 1(1)] by auto
  note m = media_read [OF laws, of ?as, unfolded sector_addrs_length, OF k at_sector_nonnull [OF B(1) inside(1) lt] 1(2)]
  have "mem w' (buf + of_nat t) = vbyte (sec w) v u B first t" if t: "t < Suc n * k * B" for t
  proof (cases "t < n * k * B")
    case True
    have "buf + of_nat t \<noteq> at_sector dev buf (n * k) + of_nat t'" if "t' < k * B" for t'
    proof -
      have "n * k * B + t' < 2 ^ 64" "t < 2 ^ 64" "t \<noteq> n * k * B + t'" using that True Suc.prems(1) by (simp_all add: algebra_simps)
      then show ?thesis using of_nat_u64_eq by (simp add: at_sector_byte [OF B(1)] del: of_nat_add of_nat_mult)
    qed
    then show ?thesis using m(3) IH(2) [OF True] by simp
  next
    case False
    then have le: "n * k * B \<le> t" by simp
    let ?t = "t - n * k * B"
    have t': "?t < k * B" using t le by (simp add: algebra_simps)
    then have q: "?t div B < k" by (simp add: less_mult_imp_div_less)
    from m(2) [OF t'] have "mem w' (buf + of_nat (n * k * B + ?t)) = sec w (sector_addr v u (first + n * k + ?t div B)) (?t mod B)"
      by (simp add: sector_addrs_nth q IH(1) at_sector_byte [OF B(1)] del: of_nat_add of_nat_mult)
    then show ?thesis using le div_offset [OF le B(2)] by (simp add: vbyte_def add.assoc)
  qed
  then show ?case using m(1) IH(1) by simp
qed

lemma io_done_Inr: "io_done count nerr w = (Inr r, w') \<longleftrightarrow> nerr = 0 \<and> r = sint count \<and> w' = w"
  by (auto simp: io_done_def ok_def fail_def)

lemma set_upt_lt: "set [0..<n] = {..<n}"
  by auto

lemma sync_pwrite_stores:
  assumes dev: "unit_dev dev u B" and u: "u \<le> 64" and geo: "geo_wf v u len" and D: "sectors_in D v u len" and fl: "vblk_flags v = NVM_VBLK_CMD_OPTS"
    and laws: "media_laws sys be dev B D sec mem" and buf: "buf \<noteq> 0" and meta: "dev_meta_mode dev = NVM_META_MODE_NONE"
    and count: "unat count = n * u * B" "0 < n" and offset: "unat offset = m * u * B" and inside: "(m + n) * u \<le> nblks_of v * len"
    and room: "unat buf + unat count \<le> 2 ^ 64"
    and run: "vblk_sync_pwrite_s20 sys be dev ret v buf count offset w = Some (Inr r, w')"
  shows "mem w' = mem w" "t < unat count \<Longrightarrow> vbyte (sec w') v u B (m * u) t = mem w (buf + of_nat t)"
proof -
  note d = unit_devD [OF dev]
  have wf: "vblk_wf v" "len \<le> 2 ^ 32" "nblks_of v \<le> 128" using geo by (auto simp: geo_wf_def vblk_wf_def)
  have "nblks_of v * len \<le> 128 * 2 ^ 32" using wf(2,3) by (intro mult_le_mono)
  then have lt: "(m + n) * u < 2 ^ 64" using inside by simp
  obtain w1 w2 where a: "write_units be dev v ret (at_sector dev buf) 0 u (m * u) n w = (Inr 0, w1)"
    "nvm_buf_free sys dev 0 w1 = (Inr (), w2)" "nvm_buf_free sys dev 0 w2 = (Inr (), w')"
    using run unfolding sync_pwrite_eq [OF dev wf(1) buf meta count offset lt] by (auto simp: andThen_Inr io_done_Inr)
  have n64: "n < 2 ^ 64" using lt d(5) by (metis le_add2 le_less_trans mult.right_neutral mult_le_mono Suc_leI One_nat_def)
  have each: "each_op (\<lambda>j. be_vector_write be dev (sector_addrs v u (m * u + j * u) u) (int u) (at_sector dev buf (j * u)) 0 0x190 ret)
      [0..<n] w = (Inr (), w1)"
    using counted_fold_zero [OF a(1) [unfolded write_units_def cmd_vector(1) [OF fl]]] n64 by simp
  have in': "m * u + n * u \<le> nblks_of v * len" using inside by (simp add: algebra_simps)
  note un = units_written [OF laws d(2,7,5) u geo D in' buf room [unfolded count(1)] each distinct_upt set_upt_lt]
  note fr = media_free [OF laws a(2)] media_free [OF laws a(3)]
  show "mem w' = mem w" using un fr by simp
  show "vbyte (sec w') v u B (m * u) t = mem w (buf + of_nat t)" if "t < unat count"
    using un fr that by (simp add: count(1))
qed

lemma sync_pread_returns:
  assumes dev: "unit_dev dev u B" and geo: "vblk_wf v" and fl: "vblk_flags v = NVM_VBLK_CMD_OPTS"
    and laws: "media_laws sys be dev B D sec mem"
    and count: "unat count = n * u * B" "0 < n" and offset: "unat offset = m * u * B"
    and lt: "(m + n) * u + 64 < 2 ^ 64" and room: "buf \<noteq> 0" "unat buf + (n * u + 63) * B \<le> 2 ^ 64"
    and run: "vblk_sync_pread_s20 be dev v buf count offset w = Some (Inr r, w')"
  shows "sec w' = sec w" "t < ((n * u + 63) div 64 * 64) * B \<Longrightarrow> mem w' (buf + of_nat t) = vbyte (sec w) v u B (m * u) t"
proof -
  note d = unit_devD [OF dev]
  let ?c = "(n * u + 63) div 64"
  have k: "read_step v u = 64" "read_naddrs v 64 = 64" unfolding read_step_def read_naddrs_def fl by simp_all
  have lt': "(m + n) * u + read_step v u < 2 ^ 64" using lt by (simp add: k)
  have a: "read_units be dev v buf u 64 (m * u) ?c w = (Inr 0, w')"
    using run unfolding sync_pread_eq [OF dev geo count offset lt'] by (auto simp: andThen_Inr io_done_Inr k add.commute)
  have "?c \<le> n * u + 63" by (rule div_le_dividend)
  then have c64: "?c < 2 ^ 64" using lt by (simp add: algebra_simps)
  have each: "each_op (\<lambda>j. be_vector_read be dev (sector_addrs v u (m * u + j * 64) 64) (int 64) (at_sector dev buf (j * 64)) 0 0x190 0)
      [0..<?c] w = (Inr (), w')"
    using counted_fold_zero [OF a [unfolded read_units_def cmd_vector(2) [OF fl] k(2)]] c64 by simp
  have "?c * 64 * B \<le> (n * u + 63) * B" by (intro mult_le_mono1) (metis div_times_less_eq_dividend)
  then have in': "unat buf + ?c * 64 * B \<le> 2 ^ 64" using room(2) by linarith
  note un = units_read [OF laws d(2,7) _ order_refl room(1) in' each, simplified]
  show "sec w' = sec w" using un by simp
  show "mem w' (buf + of_nat t) = vbyte (sec w) v u B (m * u) t" if "t < ?c * 64 * B" using un that by simp
qed

text \<open>A device that executes every command of 1 to 64 addresses.\<close>

definition media_answers :: "'w nvm_be \<Rightarrow> nvm_dev \<Rightarrow> bool" where
  "media_answers be dev \<longleftrightarrow> (\<forall>as data ret w. 0 < length as \<longrightarrow> length as \<le> 64 \<longrightarrow>
     (\<exists>w'. be_vector_write be dev as (int (length as)) data 0 0x190 ret w = (Inr (), w')) \<and>
     (\<exists>w'. be_vector_read be dev as (int (length as)) data 0 0x190 ret w = (Inr (), w')))"

lemma media_answers_sectors:
  assumes "media_answers be dev" "0 < n" "n \<le> 64"
  shows "\<exists>w'. be_vector_write be dev (sector_addrs v u a n) (int n) data 0 0x190 ret w = (Inr (), w')"
    "\<exists>w'. be_vector_read be dev (sector_addrs v u a n) (int n) data 0 0x190 ret w = (Inr (), w')"
proof -
  have "0 < length (sector_addrs v u a n)" "length (sector_addrs v u a n) \<le> 64" using assms(2,3) by simp_all
  from assms(1) [unfolded media_answers_def, rule_format, OF this]
  show "\<exists>w'. be_vector_write be dev (sector_addrs v u a n) (int n) data 0 0x190 ret w = (Inr (), w')"
    "\<exists>w'. be_vector_read be dev (sector_addrs v u a n) (int n) data 0 0x190 ret w = (Inr (), w')" by simp_all
qed

lemma counted_succeeds:
  assumes "\<And>i w. \<exists>w'. f i w = (Inr (), w')"
  shows "\<exists>w'. fold_op (\<lambda>j. counted (f j)) is e w = (Inr e, w')"
proof (induction "is" arbitrary: w)
  case (Cons i "is")
  obtain w1 where "f i w = (Inr (), w1)" using assms by blast
  then show ?case using Cons.IH [of w1] by (simp add: andThen_def counted_def)
qed (simp add: ok_def)

lemma buf_free_succeeds: "be_known dev \<Longrightarrow> \<exists>w'. nvm_buf_free sys dev p w = (Inr (), w')"
  by (auto simp: be_known_def nvm_buf_free_def nvm_buf_virt_free_def upd_def)

lemma pwrite_succeeds:
  assumes dev: "unit_dev dev u B" "be_known dev" and u: "u \<le> 64" and wf: "vblk_wf v" and fl: "vblk_flags v = NVM_VBLK_CMD_OPTS"
    and ans: "media_answers be dev" and buf: "buf \<noteq> 0" and meta: "dev_meta_mode dev = NVM_META_MODE_NONE"
    and count: "unat count = n * u * B" "0 < n" and offset: "unat offset = m * u * B" and lt: "(m + n) * u < 2 ^ 64"
  shows "\<exists>w'. vblk_sync_pwrite_s20 sys be dev ret v buf count offset w = Some (Inr (sint count), w')"
proof -
  have "\<exists>w1. write_units be dev v ret (at_sector dev buf) 0 u (m * u) n w = (Inr 0, w1)"
    unfolding write_units_def cmd_vector(1) [OF fl]
    by (rule counted_succeeds) (rule media_answers_sectors(1) [OF ans unit_devD(5) [OF dev(1)] u])
  then obtain w1 where "write_units be dev v ret (at_sector dev buf) 0 u (m * u) n w = (Inr 0, w1)" by blast
  moreover obtain w2 where "nvm_buf_free sys dev 0 w1 = (Inr (), w2)" using buf_free_succeeds [OF dev(2), of sys 0 w1] by blast
  moreover obtain w3 where "nvm_buf_free sys dev 0 w2 = (Inr (), w3)" using buf_free_succeeds [OF dev(2), of sys 0 w2] by blast
  ultimately show ?thesis
    unfolding sync_pwrite_eq [OF dev(1) wf buf meta count offset lt] by (auto simp: andThen_def io_done_def ok_def)
qed

lemma pread_succeeds:
  assumes dev: "unit_dev dev u B" and wf: "vblk_wf v" and fl: "vblk_flags v = NVM_VBLK_CMD_OPTS" and ans: "media_answers be dev"
    and count: "unat count = n * u * B" "0 < n" and offset: "unat offset = m * u * B" and lt: "(m + n) * u + read_step v u < 2 ^ 64"
  shows "\<exists>w'. vblk_sync_pread_s20 be dev v buf count offset w = Some (Inr (sint count), w')"
proof -
  have k: "read_step v u = 64" "read_naddrs v 64 = 64" unfolding read_step_def read_naddrs_def fl by simp_all
  have "\<exists>w1. read_units be dev v buf u (read_step v u) (m * u) ((n * u + read_step v u - 1) div read_step v u) w = (Inr 0, w1)"
    unfolding read_units_def cmd_vector(2) [OF fl] k
    by (rule counted_succeeds) (rule media_answers_sectors(2) [OF ans _ order_refl], simp)
  then show ?thesis
    unfolding sync_pread_eq [OF dev wf count offset lt] by (auto simp: andThen_def io_done_def ok_def)
qed

lemma sync_dispatch:
  assumes "dev_verid dev = 2" "vblk_flags v = NVM_VBLK_CMD_OPTS"
  shows "nvm_vblk_pwrite sys be dev ret buf count offset (v, w) =
      map_option (\<lambda>(r, w'). (r, (v, w'))) (vblk_sync_pwrite_s20 sys be dev ret v buf count offset w)"
    "nvm_vblk_pread sys be dev ret buf count offset (v, w) =
      map_option (\<lambda>(r, w'). (r, (v, w'))) (vblk_sync_pread_s20 be dev v buf count offset w)"
  using assms by (auto simp: nvm_vblk_pwrite_def nvm_vblk_pread_def reading_vblk_def split: option.splits)

lemma block_write_read:
  assumes "unit_dev dev u B" "be_known dev" "u \<le> 64" "geo_wf v u len" "vblk_flags v = NVM_VBLK_CMD_OPTS"
    and "media_laws sys be dev B D sec mem" "media_answers be dev" "buf \<noteq> 0" "dev_meta_mode dev = NVM_META_MODE_NONE"
    and "unat count = n * u * B" "0 < n" "unat offset = m * u * B" "(m + n) * u \<le> nblks_of v * len" "unat buf + unat count \<le> 2 ^ 64"
    and "dbuf \<noteq> 0" "unat dbuf + (n * u + 63) * B \<le> 2 ^ 64" "sectors_in D v u len"
  shows "\<exists>w1 w2. nvm_vblk_pwrite sys be dev ret buf count offset (v, w) = Some (Inr (sint count), (v, w1))
    \<and> nvm_vblk_pread sys be dev ret dbuf count offset (v, w1) = Some (Inr (sint count), (v, w2))
    \<and> (\<forall>t < unat count. mem w2 (dbuf + of_nat t) = mem w (buf + of_nat t))"
proof -
  have wf: "vblk_wf v" "len \<le> 2 ^ 32" "nblks_of v \<le> 128" using assms(4) by (auto simp: geo_wf_def vblk_wf_def)
  have "nblks_of v * len \<le> 128 * 2 ^ 32" using wf(2,3) by (intro mult_le_mono)
  then have lt: "(m + n) * u + 64 < 2 ^ 64" "(m + n) * u < 2 ^ 64" "(m + n) * u + read_step v u < 2 ^ 64"
    using assms(3,13) by (simp_all add: read_step_def)
  obtain w1 where wr: "vblk_sync_pwrite_s20 sys be dev ret v buf count offset w = Some (Inr (sint count), w1)"
    using pwrite_succeeds [OF assms(1-3) wf(1) assms(5,7-12) lt(2)] by blast
  obtain w2 where rd: "vblk_sync_pread_s20 be dev v dbuf count offset w1 = Some (Inr (sint count), w2)"
    using pread_succeeds [OF assms(1) wf(1) assms(5,7,10-12) lt(3)] by blast
  have "n * u \<le> (n * u + 63) div 64 * 64" by presburger
  then have le: "unat count \<le> ((n * u + 63) div 64 * 64) * B" unfolding assms(10) by (rule mult_le_mono1)
  have "mem w2 (dbuf + of_nat t) = mem w (buf + of_nat t)" if "t < unat count" for t
    using sync_pread_returns(2) [OF assms(1) wf(1) assms(5,6,10-12) lt(1) assms(15,16) rd, of t]
      sync_pwrite_stores(2) [OF assms(1,3,4,17,5,6,8-14) wr that] that le by simp
  then show ?thesis
    using wr rd by (auto simp: sync_dispatch [OF unit_devD(9) [OF assms(1)] assms(5)])
qed



section \<open>Properties\<close>

text \<open>
  C3. What is written is read back: on a 2.0 device that executes the commands, for a virtual block
  with the default options on different chunks that the device can address, a synchronous write of whole write units inside the
  block and a read of the same range both return \<open>count\<close>, and the read returns the bytes that were
  written, byte for byte, whatever the number of chunks, the size of the write unit (up to 64
  sectors) and the position are.
\<close>

theorem vblk_write_read:
  assumes "unit_dev dev u B" "be_known dev" "u \<le> 64" "geo_wf v u len" "vblk_flags v = NVM_VBLK_CMD_OPTS"
    and "media_laws sys be dev B D sec mem" "media_answers be dev" "buf \<noteq> 0" "dev_meta_mode dev = NVM_META_MODE_NONE"
    and "unat count = n * u * B" "0 < n" "unat offset = m * u * B" "(m + n) * u \<le> nblks_of v * len" "unat buf + unat count \<le> 2 ^ 64"
    and "dbuf \<noteq> 0" "unat dbuf + (n * u + 63) * B \<le> 2 ^ 64" "sectors_in D v u len"
  shows "\<exists>w1 w2. nvm_vblk_pwrite sys be dev ret buf count offset (v, w) = Some (Inr (sint count), (v, w1))
    \<and> nvm_vblk_pread sys be dev ret dbuf count offset (v, w1) = Some (Inr (sint count), (v, w2))
    \<and> (\<forall>t < unat count. mem w2 (dbuf + of_nat t) = mem w (buf + of_nat t))"
  using assms by (rule block_write_read)

text \<open>A device with write units of 8 sectors whose media and memory are functions, and a virtual block on two chunks.\<close>

definition ex_dev_unit :: nvm_dev where
  "ex_dev_unit = ex_dev_s20\<lparr>dev_idfy := (dev_idfy dev_zero)\<lparr>idfy_s20 := (idfy_s20 (dev_idfy dev_zero))\<lparr>
     s20_wrt := \<lparr>ws_min = 4, ws_opt = 8, mw_cunits = 0, maxoc = 0, maxocpu = 0\<rparr>\<rparr>\<rparr>\<rparr>"

type_synonym 'a media = "('a \<Rightarrow> nat \<Rightarrow> u8) \<times> (ptr \<Rightarrow> u8)"

definition ex_media_write :: "nat \<Rightarrow> 'a list \<Rightarrow> ptr \<Rightarrow> 'a media \<Rightarrow> 'a media" where
  "ex_media_write B as data = (\<lambda>(s, m). (\<lambda>a. case map_of (zip as [0..<length as]) a of None \<Rightarrow> s a
     | Some i \<Rightarrow> \<lambda>j. m (data + of_nat (i * B + j)), m))"

definition ex_media_read :: "nat \<Rightarrow> 'a list \<Rightarrow> ptr \<Rightarrow> 'a media \<Rightarrow> 'a media" where
  "ex_media_read B as data = (\<lambda>(s, m). (s, \<lambda>q. let t = unat (q - data) in
     if t < length as * B then s (as ! (t div B)) (t mod B) else m q))"

definition ex_be_media :: "nvm_addr media nvm_be" where
  "ex_be_media = (nvm_be_disabled NVM_BE_SPDK ''NVM_BE_SPDK'')\<lparr>
     be_vector_write := \<lambda>dev as n data meta fl ret w. (Inr (), ex_media_write 4096 as data w),
     be_vector_read := \<lambda>dev as n data meta fl ret w. (Inr (), ex_media_read 4096 as data w)\<rparr>"

definition ex_sys_media :: "'a media sys" where
  "ex_sys_media = \<lparr>sys_aligned_alloc = \<lambda>_ _ w. (Inr 0x2000, w), sys_free = \<lambda>_ w. w, sys_malloc = \<lambda>_ w. (Inr 0x3000, w),
     sys_calloc = \<lambda>_ _ w. (Inr 0x4000, w), sys_spdk_dma_malloc = \<lambda>_ _ w. (Inl (Errno ENOMEM), w),
     sys_spdk_dma_realloc = \<lambda>_ _ _ w. (Inl (Errno ENOMEM), w), sys_spdk_dma_free = \<lambda>_ w. w,
     sys_spdk_vtophys = \<lambda>_ _. 0, sys_rand = \<lambda>w. (0, w), sys_getenv = \<lambda>_ _. None,
     sys_store = \<lambda>_ _ w. w, sys_ret_async = \<lambda>_ _ w. w, sys_ret_clear = \<lambda>_ w. w\<rparr>"

definition ex_vblk :: nvm_vblk where
  "ex_vblk = (vblk_zero 0x7000)\<lparr>vblk_blks := [set_l_chunk 5 (NvmAddr 0), set_l_chunk 5 (set_l_punit 1 (NvmAddr 0))] @ replicate 126 (NvmAddr 0),
     vblk_nblks := 2, vblk_nbytes := 2 * 6144 * 4096, vblk_flags := NVM_VBLK_CMD_OPTS\<rparr>"

lemma ex_media_write_laws:
  "snd (ex_media_write B as data w) = snd w" "a \<notin> set as \<Longrightarrow> fst (ex_media_write B as data w) a = fst w a"
  by (auto simp: ex_media_write_def split_beta split: option.splits dest: map_of_SomeD set_zip_leftD)

lemma ex_media_written:
  assumes "distinct as" "t < length as * B"
  shows "fst (ex_media_write B as data w) (as ! (t div B)) (t mod B) = snd w (data + of_nat t)"
proof -
  have "t div B < length as" using assms(2) by (simp add: less_mult_imp_div_less)
  then have "map_of (zip as [0..<length as]) (as ! (t div B)) = Some (t div B)" using assms(1) by (simp add: map_of_zip_nth)
  then show ?thesis by (simp add: ex_media_write_def split_beta del: of_nat_add of_nat_mult)
qed

lemma ex_media_read_laws:
  "fst (ex_media_read B as data w) = fst w"
  "(\<And>t. t < length as * B \<Longrightarrow> q \<noteq> data + of_nat t) \<Longrightarrow> snd (ex_media_read B as data w) q = snd w q"
  "length as * B \<le> 2 ^ 64 \<Longrightarrow> t < length as * B \<Longrightarrow>
    snd (ex_media_read B as data w) (data + of_nat t) = fst w (as ! (t div B)) (t mod B)"
proof -
  show "fst (ex_media_read B as data w) = fst w" by (simp add: ex_media_read_def split_beta)
  show "snd (ex_media_read B as data w) q = snd w q" if "\<And>t. t < length as * B \<Longrightarrow> q \<noteq> data + of_nat t"
    using that [of "unat (q - data)"] by (auto simp: ex_media_read_def split_beta Let_def)
  show "snd (ex_media_read B as data w) (data + of_nat t) = fst w (as ! (t div B)) (t mod B)"
    if "length as * B \<le> 2 ^ 64" "t < length as * B"
    using that(2) unat_u64 [of t] that by (simp add: ex_media_read_def split_beta)
qed

lemma ex_media_laws: "media_laws ex_sys_media ex_be_media dev 4096 UNIV fst snd"
  unfolding media_laws_def
  by (simp add: ex_be_media_def ex_sys_media_def ex_media_write_laws ex_media_written ex_media_read_laws)

lemma ex_unit_facts:
  "unit_dev ex_dev_unit 8 4096" "be_known ex_dev_unit" "geo_wf ex_vblk 8 6144" "vblk_wf ex_vblk" "media_answers ex_be_media ex_dev_unit"
  "vblk_flags ex_vblk = NVM_VBLK_CMD_OPTS" "dev_meta_mode ex_dev_unit = NVM_META_MODE_NONE" "nblks_of ex_vblk = 2" "sectors_in UNIV ex_vblk 8 6144"
proof -
  show "unit_dev ex_dev_unit 8 4096" by (simp add: unit_dev_def ex_dev_unit_def ex_dev_s20_def)
  show "be_known ex_dev_unit" "dev_meta_mode ex_dev_unit = NVM_META_MODE_NONE" by code_simp+
  show wf: "vblk_wf ex_vblk" by (simp add: vblk_wf_def ex_vblk_def)
  have "chunks_distinct ex_vblk" by code_simp
  then show "geo_wf ex_vblk 8 6144" using wf by (simp add: geo_wf_def)
  show "media_answers ex_be_media ex_dev_unit" by (simp add: media_answers_def ex_be_media_def)
  show "sectors_in UNIV ex_vblk 8 6144" by (simp add: sectors_in_def)
  show "vblk_flags ex_vblk = NVM_VBLK_CMD_OPTS" "nblks_of ex_vblk = 2" by (simp_all add: ex_vblk_def)
qed

theorem vblk_write_read_witness:
  "\<exists>w1 w2. nvm_vblk_pwrite ex_sys_media ex_be_media ex_dev_unit 0 0x100000 (24 * 4096) (16 * 4096) (ex_vblk, (\<lambda>_ _. 0, \<lambda>q. ucast q)) =
      Some (Inr (24 * 4096), (ex_vblk, w1)) \<and>
    nvm_vblk_pread ex_sys_media ex_be_media ex_dev_unit 0 0x900000 (24 * 4096) (16 * 4096) (ex_vblk, w1) = Some (Inr (24 * 4096), (ex_vblk, w2)) \<and>
    snd w2 (0x900000 + of_nat 5000) = ucast (0x100000 + of_nat 5000 :: ptr)"
proof -
  note e = ex_unit_facts
  have a: "(0x100000 :: ptr) \<noteq> 0" "unat (24 * 4096 :: u64) = 3 * 8 * 4096" "unat (16 * 4096 :: u64) = 2 * 8 * 4096"
    "(2 + 3) * 8 \<le> nblks_of ex_vblk * 6144" "unat (0x100000 :: ptr) + unat (24 * 4096 :: u64) \<le> 2 ^ 64" "(0x900000 :: ptr) \<noteq> 0" "sint (24 * 4096 :: u64) = 24 * 4096" by (simp_all add: e(8))
  have b: "(8 :: nat) \<le> 64" "(0 :: nat) < 3" "unat (0x900000 :: ptr) + (3 * 8 + 63) * 4096 \<le> 2 ^ 64" "(5000 :: nat) < 3 * 8 * 4096" by simp_all
  note x = vblk_write_read [OF e(1,2) b(1) e(3,6) ex_media_laws e(5) a(1) e(7) a(2) b(2) a(3-6) b(3) e(9), where w = "(\<lambda>_ _. 0, \<lambda>q. ucast q)" and ret = "0"]
  from x obtain w1 w2 where "nvm_vblk_pwrite ex_sys_media ex_be_media ex_dev_unit 0 0x100000 (24 * 4096) (16 * 4096) (ex_vblk, (\<lambda>_ _. 0, \<lambda>q. ucast q)) =
      Some (Inr (24 * 4096), (ex_vblk, w1))"
    "nvm_vblk_pread ex_sys_media ex_be_media ex_dev_unit 0 0x900000 (24 * 4096) (16 * 4096) (ex_vblk, w1) = Some (Inr (24 * 4096), (ex_vblk, w2))"
    "\<And>t. t < 3 * 8 * 4096 \<Longrightarrow> snd w2 (0x900000 + of_nat t) = ucast (0x100000 + of_nat t :: ptr)" unfolding a(2,7) snd_conv by metis
  then show ?thesis using b(4) by blast
qed

lemma units_concat: "concat (map (\<lambda>j. sector_addrs v u (first + j * u) u) [0..<n]) = sector_addrs v u first (n * u)"
proof (induction n)
  case (Suc n)
  have "[first..<first + Suc n * u] = [first..<first + n * u] @ [first + n * u..<first + n * u + u]"
    by (subst upt_add_eq_append [symmetric]) (simp_all add: algebra_simps)
  then show ?case using Suc.IH by (simp add: sector_addrs_def)
qed (simp add: sector_addrs_def)

lemma sector_addr_fields:
  assumes "geo_wf v u len" "s < nblks_of v * len"
  shows "l_sectr (sector_addr v u s) = of_nat (snd (stripe_place \<lparr>st_unit = u, st_chunks = nblks_of v, st_len = len\<rparr> s))"
    "set_l_sectr 0 (sector_addr v u s) = set_l_sectr 0 (vblk_blks v ! fst (stripe_place \<lparr>st_unit = u, st_chunks = nblks_of v, st_len = len\<rparr> s))"
proof -
  let ?c = "\<lparr>st_unit = u, st_chunks = nblks_of v, st_len = len\<rparr>"
  have c: "stripe_wf ?c" "s < stripe_total ?c"
    using assms by (auto simp: geo_wf_def stripe_wf_def stripe_total_def vblk_wf_def)
  obtain k x where p: "stripe_place ?c s = (k, x)" by fastforce
  have a: "sector_addr v u s = set_l_sectr (of_nat x) (vblk_blks v ! k)"
    using p by (simp add: sector_addr_def stripe_place_def)
  have x: "x < 2 ^ 32" using lay20.in_range [OF c] assms(1) by (simp add: p geo_wf_def)
  then have "unat (of_nat x :: u64) < 2 ^ 32" by (subst unat_u64) simp_all
  then show "l_sectr (sector_addr v u s) = of_nat (snd (stripe_place ?c s))" by (simp add: a p bitfield_simps take_bit_id)
  show "set_l_sectr 0 (sector_addr v u s) = set_l_sectr 0 (vblk_blks v ! fst (stripe_place ?c s))"
    unfolding a p fst_conv by (rule addr_eq_l) (simp_all add: bitfield_simps)
qed

text \<open>
  C15. Writing a whole virtual block fills its chunks the way the media demand: the commands that the
  write submits are one per write unit, in order, and the sectors of any one chunk among their
  addresses are exactly its sectors from the first to the last, each once and in ascending order.
\<close>

theorem vblk_write_sequential:
  assumes "unit_dev dev u B" "geo_wf v u len" "buf \<noteq> 0" "dev_meta_mode dev = NVM_META_MODE_NONE"
    and "n * u = nblks_of v * len" "0 < n" "unat count = n * u * B" and "k < nblks_of v"
  shows "vblk_sync_pwrite_s20 sys be dev ret v buf count 0 w =
      Some (andThen (fold_op (\<lambda>j. counted (nvm_cmd_write be dev (sector_addrs v u (j * u) u) (int u) (at_sector dev buf (j * u)) 0
          (ucast (vblk_flags v)) ret)) [0..<n] 0)
        (\<lambda>nerr. andThen (nvm_buf_free sys dev 0) (\<lambda>_. andThen (nvm_buf_free sys dev 0) (\<lambda>_. io_done count nerr))) w)
    \<and> map l_sectr (filter (\<lambda>a. set_l_sectr 0 a = set_l_sectr 0 (vblk_blks v ! k))
        (concat (map (\<lambda>j. sector_addrs v u (j * u) u) [0..<n]))) = map of_nat [0..<len]"
proof -
  let ?c = "\<lparr>st_unit = u, st_chunks = nblks_of v, st_len = len\<rparr>"
  have wf: "vblk_wf v" "len \<le> 2 ^ 32" "nblks_of v \<le> 128" "chunks_distinct v" "nblks_of v \<le> length (vblk_blks v)"
    using assms(2) by (auto simp: geo_wf_def vblk_wf_def)
  have c: "stripe_wf ?c" "k < st_chunks ?c"
    using assms(2,8) by (auto simp: geo_wf_def stripe_wf_def vblk_wf_def)
  have "nblks_of v * len \<le> 128 * 2 ^ 32" using wf(2,3) by (intro mult_le_mono)
  then have lt: "(0 + n) * u < 2 ^ 64" using assms(5) by simp
  have off: "unat (0 :: u64) = 0 * u * B" by simp
  note eq = sync_pwrite_eq [OF assms(1) wf(1) assms(3,4,7,6) off lt, of sys be ret w, unfolded write_units_def mult_0 add_0_left]
  have same: "set_l_sectr 0 (sector_addr v u s) = set_l_sectr 0 (vblk_blks v ! k) \<longleftrightarrow> fst (stripe_place ?c s) = k"
    if "s < nblks_of v * len" for s
  proof -
    let ?l = "fst (stripe_place ?c s)" and ?ds = "map (set_l_sectr 0) (take (nblks_of v) (vblk_blks v))"
    have l: "?l < nblks_of v" using lay20.in_range [OF c(1), of s] that by (simp add: stripe_total_def)
    have "?ds ! ?l = ?ds ! k \<longleftrightarrow> ?l = k"
      using wf(4,5) l assms(8) unfolding chunks_distinct_def by (subst nth_eq_iff_index_eq) auto
    then show ?thesis using sector_addr_fields(2) [OF assms(2) that] l wf(5) assms(8) by simp
  qed
  have "map l_sectr (filter (\<lambda>a. set_l_sectr 0 a = set_l_sectr 0 (vblk_blks v ! k)) (sector_addrs v u 0 (n * u)))
      = map (\<lambda>s. l_sectr (sector_addr v u s)) (filter (\<lambda>s. set_l_sectr 0 (sector_addr v u s) = set_l_sectr 0 (vblk_blks v ! k)) [0..<stripe_total ?c])"
    by (simp add: sector_addrs_def assms(5) stripe_total_def filter_map o_def)
  also have "\<dots> = map (\<lambda>s. of_nat (snd (stripe_place ?c s))) (filter (\<lambda>s. fst (stripe_place ?c s) = k) [0..<stripe_total ?c])"
    by (rule map_cong [OF filter_cong [OF refl same]]) (auto simp: stripe_total_def sector_addr_fields(1) [OF assms(2)])
  also have "\<dots> = map of_nat [0..<len]"
    using arg_cong [OF lay20.chunk_in_order [OF c], of "map of_nat"] by (simp add: o_def)
  finally show ?thesis using eq units_concat [of v u 0 n] by simp
qed

theorem vblk_write_sequential_witness:
  "map l_sectr (filter (\<lambda>a. set_l_sectr 0 a = set_l_sectr 0 (vblk_blks ex_vblk ! 1))
     (concat (map (\<lambda>j. sector_addrs ex_vblk 8 (j * 8) 8) [0..<1536]))) = map of_nat [0..<6144]"
proof -
  note e = ex_unit_facts
  have a: "(0x100000 :: ptr) \<noteq> 0" "1536 * 8 = nblks_of ex_vblk * 6144" "(0 :: nat) < 1536" "unat (2 * 6144 * 4096 :: u64) = 1536 * 8 * 4096"
    "1 < nblks_of ex_vblk" by (simp_all add: e(8))
  show ?thesis
    by (rule conjunct2 [OF vblk_write_sequential [OF e(1,3) a(1) e(7) a(2-5), where sys = ex_sys_media and be = ex_be_media and ret = "0" and w = "(\<lambda>_ _. 7, \<lambda>_. 0)"]])
qed



text \<open>
  C33. A read returns more than it is asked for: with the default options every read command asks for
  64 sectors, so a read of \<open>n\<close> write units changes the memory of the caller up to the next multiple of
  64 sectors, past the end of the buffer of \<open>count\<close> bytes.
\<close>

theorem vblk_read_past_end:
  assumes "unit_dev dev u B" "vblk_wf v" "vblk_flags v = NVM_VBLK_CMD_OPTS" "media_laws sys be dev B D sec mem" "media_answers be dev"
    and "unat count = n * u * B" "0 < n" "unat offset = m * u * B" "(m + n) * u + 64 < 2 ^ 64"
    and "buf \<noteq> 0" "unat buf + (n * u + 63) * B \<le> 2 ^ 64" "unat count \<le> t" "t < ((n * u + 63) div 64 * 64) * B"
  shows "\<exists>w'. nvm_vblk_pread sys be dev ret buf count offset (v, w) = Some (Inr (sint count), (v, w'))
    \<and> mem w' (buf + of_nat t) = vbyte (sec w) v u B (m * u) t"
proof -
  have k: "(m + n) * u + read_step v u < 2 ^ 64" using assms(9) unfolding read_step_def assms(3) by simp
  obtain w' where rd: "vblk_sync_pread_s20 be dev v buf count offset w = Some (Inr (sint count), w')"
    using pread_succeeds [OF assms(1-3,5-8) k] by blast
  then show ?thesis
    using sync_pread_returns(2) [OF assms(1-4,6-11) rd assms(13)]
    by (auto simp: sync_dispatch [OF unit_devD(9) [OF assms(1)] assms(3)])
qed

theorem vblk_read_past_end_witness:
  "\<exists>w'. nvm_vblk_pread ex_sys_media ex_be_media ex_dev_unit 0 0x900000 (8 * 4096) 0 (ex_vblk, (\<lambda>_ _. 7, \<lambda>_. 0)) =
      Some (Inr (8 * 4096), (ex_vblk, w')) \<and> snd w' (0x900000 + of_nat (8 * 4096)) = 7"
proof -
  note e = ex_unit_facts
  have a: "unat (8 * 4096 :: u64) = 1 * 8 * 4096" "unat (0 :: u64) = 0 * 8 * 4096" "sint (8 * 4096 :: u64) = 8 * 4096" by simp_all
  from vblk_read_past_end [OF e(1,4,6) ex_media_laws e(5) a(1) _ a(2), where t = "8 * 4096" and w = "(\<lambda>_ _. 7, \<lambda>_. 0)" and buf = "0x900000" and ret = "0"]
  show ?thesis unfolding a(3) by (simp add: vbyte_def)
qed

end
