(* ===== verification/Nvm_Vblk_Ops.thy ===== *)
theory Nvm_Vblk_Ops
  imports Nvm_Vblk_IO
begin

text \<open>
  Erasing, copying and allocating virtual blocks, the invariant of their positions, requests that
  do not return, and the addresses of asynchronous requests.
\<close>

section \<open>Erasing\<close>

text \<open>The loop of \<open>cmd_nblks\<close> ends with the largest divisor that is not above the maximum.\<close>

declare divisor_loop.simps [simp del]

lemma divisor_loop_largest:
  assumes "0 < m"
  shows "\<exists>d. divisor_loop n m = Inr d \<and> 1 \<le> d \<and> d \<le> m \<and> d dvd n \<and> (\<forall>e. 1 \<le> e \<and> e \<le> m \<and> e dvd n \<longrightarrow> e \<le> d)"
  using assms
proof (induction n m rule: divisor_loop.induct)
  case (1 n m)
  show ?case
  proof (cases "n mod m \<noteq> 0 \<and> m > 1")
    case True
    with 1 obtain d where d: "divisor_loop n (m - 1) = Inr d" "1 \<le> d" "d \<le> m - 1" "d dvd n"
      "\<And>e. 1 \<le> e \<Longrightarrow> e \<le> m - 1 \<Longrightarrow> e dvd n \<Longrightarrow> e \<le> d" by fastforce
    have "e \<le> d" if "1 \<le> e" "e \<le> m" "e dvd n" for e
      using that d(5) [of e] True by (cases "e = m") (auto simp: dvd_eq_mod_eq_0)
    moreover have "divisor_loop n m = Inr d" using d(1) True by (subst divisor_loop.simps) simp
    ultimately show ?thesis using d(2-4) by (intro exI [of _ d]) auto
  next
    case False
    then have "divisor_loop n m = Inr m" using 1(2) by (subst divisor_loop.simps) auto
    moreover have "m dvd n" using False 1(2) by (cases "m = 1") (auto simp: dvd_eq_mod_eq_0)
    ultimately show ?thesis using 1(2) by auto
  qed
qed

lemma for_op_int:
  fixes d :: int
  assumes "0 < d"
  shows "for_op (\<lambda>off. off < int m * d) (\<lambda>off. off + d) body 0 s w = Some (fold_op (\<lambda>j. body (int j * d)) [0..<m] s w)"
proof -
  have st: "((\<lambda>off. off + d) ^^ j) 0 = int j * d" for j by (induction j) (simp_all add: algebra_simps)
  have "for_op (\<lambda>off. off < int m * d) (\<lambda>off. off + d) body 0 s w =
      Some (fold_op body (map (\<lambda>j. ((\<lambda>off. off + d) ^^ j) 0) [0..<m]) s w)"
    by (rule for_op_steps) (use assms in \<open>simp_all add: st\<close>)
  then show ?thesis by (simp only: st fold_op_map)
qed

text \<open>
  What the library relies on of an erase command: it frees the addressed chunks and nothing else.
  \<open>st\<close> gives the state of a chunk.
\<close>

definition erase_laws :: "'w nvm_be \<Rightarrow> nvm_dev \<Rightarrow> ('w \<Rightarrow> nvm_addr \<Rightarrow> 'c) \<Rightarrow> 'c \<Rightarrow> bool" where
  "erase_laws be dev st fre \<longleftrightarrow>
     (\<forall>as fl ret w w'. be_scalar_erase be dev as (int (length as)) fl ret w = (Inr (), w') \<longrightarrow>
        (\<forall>a. st w' a = (if a \<in> set as then fre else st w a))) \<and>
     (\<forall>as fl ret w w'. be_vector_erase be dev as (int (length as)) 0 fl ret w = (Inr (), w') \<longrightarrow>
        (\<forall>a. st w' a = (if a \<in> set as then fre else st w a)))"

text \<open>An erase command returns success or an error.\<close>

definition erase_returns :: "'w nvm_be \<Rightarrow> nvm_dev \<Rightarrow> bool" where
  "erase_returns be dev \<longleftrightarrow>
     (\<forall>as n fl ret w. no_fault (fst (be_scalar_erase be dev as n fl ret w))) \<and>
     (\<forall>as n meta fl ret w. no_fault (fst (be_vector_erase be dev as n meta fl ret w)))"

lemma cmd_erase_frees:
  assumes "erase_laws be dev st fre" "nvm_cmd_erase be dev as (int (length as)) 0 fl ret w = (Inr (), w')"
  shows "st w' a = (if a \<in> set as then fre else st w a)"
proof -
  from assms(2) have "be_scalar_erase be dev as (int (length as)) fl ret w = (Inr (), w') \<or>
      be_vector_erase be dev as (int (length as)) 0 fl ret w = (Inr (), w')"
    by (auto simp: nvm_cmd_erase_def Let_def fail_def split: if_splits)
  then show ?thesis using assms(1) unfolding erase_laws_def by blast
qed

lemma cmd_erase_returns:
  "erase_returns be dev \<Longrightarrow> no_fault (fst (nvm_cmd_erase be dev as n 0 fl ret w))"
  by (auto simp: nvm_cmd_erase_def erase_returns_def Let_def fail_def)

lemma counted_fold_returns:
  assumes "\<And>i w. i \<in> set is \<Longrightarrow> no_fault (fst (f i w))"
  shows "\<exists>r w'. fold_op (\<lambda>j. counted (f j)) is e w = (Inr r, w')"
  using assms
proof (induction "is" arbitrary: e w)
  case (Cons i "is")
  have "no_fault (fst (f i w))" using Cons.prems by simp
  then have "\<exists>e1 w1. counted (f i) e w = (Inr e1, w1)"
    by (auto simp: counted_def no_fault_def split: prod.splits sum.splits failure.splits)
  then obtain e1 w1 where "counted (f i) e w = (Inr e1, w1)" by blast
  then show ?case using Cons.IH [of e1 w1] Cons.prems by (simp add: andThen_def)
qed (simp add: ok_def)

lemma each_erase_frees:
  assumes "erase_laws be dev st fre"
    and "each_op (\<lambda>j. nvm_cmd_erase be dev (A j) (int (length (A j))) 0 fl ret) is w = (Inr (), w')"
  shows "st w' a = (if \<exists>j \<in> set is. a \<in> set (A j) then fre else st w a)"
  using assms(2)
proof (induction "is" arbitrary: w)
  case (Cons i "is")
  then obtain w1 where w1: "nvm_cmd_erase be dev (A i) (int (length (A i))) 0 fl ret w = (Inr (), w1)"
    "each_op (\<lambda>j. nvm_cmd_erase be dev (A j) (int (length (A j))) 0 fl ret) is w1 = (Inr (), w')" by (auto simp: andThen_Inr)
  show ?case using Cons.IH [OF w1(2)] cmd_erase_frees [OF assms(1) w1(1), of a] by auto
qed (simp add: ok_def)

text \<open>The commands of an erase, their outcome and their effect.\<close>

lemma erase_outcome:
  assumes laws: "erase_laws be dev st fre" "erase_returns be dev" and m: "m < 2 ^ 64"
    and run: "res = andThen (fold_op (\<lambda>j. counted (nvm_cmd_erase be dev (A j) (int (length (A j))) 0 fl ret)) [0..<m] 0) (erase_done v) w"
  shows "\<exists>w'. res = (Inl (Errno EIO), w') \<or> res = (Inr (sint (vblk_nbytes v), vblk_reset v), w') \<and>
      (\<forall>a. st w' a = (if \<exists>j<m. a \<in> set (A j) then fre else st w a))"
proof -
  obtain r w' where f: "fold_op (\<lambda>j. counted (nvm_cmd_erase be dev (A j) (int (length (A j))) 0 fl ret)) [0..<m] 0 w = (Inr r, w')"
    using counted_fold_returns [where f = "\<lambda>j. nvm_cmd_erase be dev (A j) (int (length (A j))) 0 fl ret"] cmd_erase_returns [OF laws(2)]
    by blast
  show ?thesis
  proof (cases "r = 0")
    case True
    from each_erase_frees [OF laws(1) counted_fold_zero [OF f [unfolded True]]] m
    have "st w' a = (if \<exists>j<m. a \<in> set (A j) then fre else st w a)" for a by auto
    then show ?thesis using run f True by (auto simp: andThen_def erase_done_def ok_def)
  next
    case False
    then show ?thesis using run f by (auto simp: andThen_def erase_done_def fail_def)
  qed
qed

lemma for_counted:
  fixes d :: int
  assumes "0 < d" "\<And>j nerr. j < m \<Longrightarrow> body (int j * d) nerr = counted (c j) nerr"
  shows "for_op (\<lambda>off. off < int m * d) (\<lambda>off. off + d) body 0 0 w = Some (fold_op (\<lambda>j. counted (c j)) [0..<m] 0 w)"
proof -
  have "fold_op (\<lambda>j. body (int j * d)) [0..<m] 0 = fold_op (\<lambda>j. counted (c j)) [0..<m] 0"
    by (rule fold_op_cong) (use assms(2) in auto)
  then show ?thesis by (simp add: for_op_int [OF assms(1)])
qed

lemma chunk_index:
  fixes k m d :: nat
  assumes "0 < d"
  shows "k < m * d \<longleftrightarrow> (\<exists>j<m. \<exists>i<d. k = j * d + i)"
proof
  assume "k < m * d"
  then have "k div d < m" "k mod d < d" "k = k div d * d + k mod d" using assms by (simp_all add: less_mult_imp_div_less)
  then show "\<exists>j<m. \<exists>i<d. k = j * d + i" by blast
qed (auto intro: digit_lt)

lemma nblks_factor:
  assumes "vblk_wf v" "0 < mx"
  obtains d m where "cmd_nblks (vblk_nblks v) mx = Inr (int d)" "0 < d" "vblk_nblks v = int m * int d" "nblks_of v = m * d" "m < 2 ^ 64"
proof -
  obtain d where d: "cmd_nblks (vblk_nblks v) mx = Inr d" "1 \<le> d" "d dvd vblk_nblks v"
    using divisor_loop_largest [OF assms(2)] unfolding cmd_nblks_def by blast
  obtain q where q: "vblk_nblks v = d * q" using d(3) by (auto simp: dvd_def)
  have v: "0 < vblk_nblks v" "nblks_of v \<le> 128" "nblks_of v = nat (vblk_nblks v)" using assms(1) by (auto simp: vblk_wf_def)
  then have q0: "0 < q" using q d(2) by (simp add: zero_less_mult_iff)
  have n: "nblks_of v = nat q * nat d" using v(3) q q0 d(2) by (simp add: nat_mult_distrib mult.commute)
  have "nat q * 1 \<le> nat q * nat d" using d(2) by (intro mult_le_mono2) simp
  then have "nat q \<le> 128" using n v(2) by linarith
  then have "nat q < 2 ^ 64" by simp
  then show thesis using that [of "nat d" "nat q"] d q q0 n by (simp add: mult.commute)
qed

text \<open>The addresses of the \<open>j\<close>-th command.\<close>

definition erase_chunks :: "nvm_vblk \<Rightarrow> nat \<Rightarrow> nat \<Rightarrow> nvm_addr list" where
  "erase_chunks v d j = map (\<lambda>i. vblk_blks v ! (j * d + i)) [0..<d]"

lemma erase_s20_cmds:
  assumes wf: "vblk_wf v" and mx: "0 < dev_erase_naddrs_max dev"
  obtains d m where "vblk_erase_s20 be dev ret v w = Some (andThen (fold_op (\<lambda>j. counted (nvm_cmd_erase be dev
        (erase_chunks v d j) (int (length (erase_chunks v d j))) 0 0 ret)) [0..<m] 0) (erase_done v) w)"
    "0 < d" "nblks_of v = m * d" "m < 2 ^ 64"
proof -
  obtain d m where d: "cmd_nblks (vblk_nblks v) (dev_erase_naddrs_max dev) = Inr (int d)" "0 < d" "vblk_nblks v = int m * int d"
    "nblks_of v = m * d" "m < 2 ^ 64" using nblks_factor [OF assms] by blast
  let ?body = "\<lambda>off nerr. let naddrs = min (int d) (vblk_nblks v - off) in
         andThen (lift_res (map_res (\<lambda>i. blk_at v (off + int i)) [0..<nat naddrs])) (\<lambda>addrs.
         counted (nvm_cmd_erase be dev addrs naddrs 0 0 ret) nerr)"
  have body: "?body (int j * int d) nerr =
      counted (nvm_cmd_erase be dev (erase_chunks v d j) (int (length (erase_chunks v d j))) 0 0 ret) nerr" if "j < m" for j nerr
  proof -
    have "Suc j * d \<le> m * d" using that by (intro mult_le_mono1) simp
    then have le: "int j * int d + int d \<le> vblk_nblks v" using d(3) by (simp flip: of_nat_mult of_nat_add)
    then have mn: "min (int d) (vblk_nblks v - int j * int d) = int d" by simp
    have "map_res (\<lambda>i. blk_at v (int j * int d + int i)) [0..<d] = Inr (erase_chunks v d j)"
      unfolding erase_chunks_def
    proof (rule map_res_Inr)
      fix i assume "i \<in> set [0..<d]"
      then have "j * d + i < nblks_of v" using that d(4) by (simp add: digit_lt)
      from blk_at_of_nat [OF wf this] show "blk_at v (int j * int d + int i) = Inr (vblk_blks v ! (j * d + i))" by simp
    qed
    then show ?thesis by (simp add: mn Let_def erase_chunks_def)
  qed
  have d0: "0 < int d" using d(2) by simp
  have loop: "for_op (\<lambda>off. off < vblk_nblks v) (\<lambda>off. off + int d) ?body 0 0 w = Some (fold_op (\<lambda>j. counted (nvm_cmd_erase be dev
        (erase_chunks v d j) (int (length (erase_chunks v d j))) 0 0 ret)) [0..<m] 0 w)"
    unfolding d(3) by (rule for_counted [OF d0]) (rule body [unfolded d(3)])
  have "vblk_erase_s20 be dev ret v w = Some (andThen (fold_op (\<lambda>j. counted (nvm_cmd_erase be dev
        (erase_chunks v d j) (int (length (erase_chunks v d j))) 0 0 ret)) [0..<m] 0) (erase_done v) w)"
    unfolding vblk_erase_s20_def d(1) lbind_lret by (rule lbind_some) (rule loop)
  then show thesis using that d by blast
qed

text \<open>A 1.2 device that erases at least one block, on all its planes, with a command.\<close>

definition addressing :: "u32 \<Rightarrow> bool" where
  "addressing opt \<longleftrightarrow> opt = NVM_CMD_SCALAR \<or> opt = NVM_CMD_VECTOR"

definition erase_dev_s12 :: "nvm_dev \<Rightarrow> nat \<Rightarrow> bool" where
  "erase_dev_s12 dev np \<longleftrightarrow> unat (nplanes (dev_geo dev)) = np \<and> 0 < np \<and> np < 2 ^ 31 \<and> int np \<le> dev_erase_naddrs_max dev
     \<and> (dev_pmode dev = NVM_FLAG_PMODE_SNGL \<or> dev_pmode dev = NVM_FLAG_PMODE_DUAL \<or> dev_pmode dev = NVM_FLAG_PMODE_QUAD)"

definition erase_planes :: "nvm_vblk \<Rightarrow> nat \<Rightarrow> nat \<Rightarrow> nat \<Rightarrow> nvm_addr list" where
  "erase_planes v np d j = map (\<lambda>i. set_g_pl (of_nat (i mod np)) (vblk_blks v ! (j * d + i div np))) [0..<d * np]"

lemma erase_s12_cmds:
  assumes wf: "vblk_wf v" and dev: "erase_dev_s12 dev np"
  obtains d m where "vblk_erase_s12 be dev ret v w = Some (andThen (fold_op (\<lambda>j. counted (nvm_cmd_erase be dev
        (erase_planes v np d j) (int (length (erase_planes v np d j))) 0 (ucast (word_of_int (dev_pmode dev) OR NVM_VBLK_CMD_OPTS)) ret)) [0..<m] 0) (erase_done v) w)"
    "0 < d" "nblks_of v = m * d" "m < 2 ^ 64"
proof -
  let ?fl = "ucast (word_of_int (dev_pmode dev) OR NVM_VBLK_CMD_OPTS)"
  have np: "unat (nplanes (dev_geo dev)) = np" "0 < np" "np < 2 ^ 31" "int np \<le> dev_erase_naddrs_max dev"
    using dev by (auto simp: erase_dev_s12_def)
  then have bn: "c_int (uint (nplanes (dev_geo dev))) = int np" by (simp add: c_int_uint uint_nat)
  have npw: "nplanes (dev_geo dev) = of_nat np" using np(1) by auto
  let ?mx = "dev_erase_naddrs_max dev sdiv int np"
  have mx: "0 < ?mx" using np(2,4) by (simp add: signed_divide_int_def sgn_if pos_imp_zdiv_pos_iff)
  obtain d m where d: "cmd_nblks (vblk_nblks v) ?mx = Inr (int d)" "0 < d" "vblk_nblks v = int m * int d"
    "nblks_of v = m * d" "m < 2 ^ 64" using nblks_factor [OF wf mx] by blast
  let ?body = "\<lambda>off nerr. let nblks = min (int d) (vblk_nblks v - off); naddrs = nblks * int np in
         andThen (lift_res (map_res (erase_addr_s12 dev v (int np) off) [0..<nat naddrs])) (\<lambda>addrs.
         counted (nvm_cmd_erase be dev addrs naddrs 0 ?fl ret) nerr)"
  have body: "?body (int j * int d) nerr =
      counted (nvm_cmd_erase be dev (erase_planes v np d j) (int (length (erase_planes v np d j))) 0 ?fl ret) nerr" if "j < m" for j nerr
  proof -
    have "Suc j * d \<le> m * d" using that by (intro mult_le_mono1) simp
    then have "int j * int d + int d \<le> vblk_nblks v" using d(3) by (simp flip: of_nat_mult of_nat_add)
    then have mn: "min (int d) (vblk_nblks v - int j * int d) = int d" by simp
    have na: "nat (int d * int np) = d * np" by (simp add: nat_mult_distrib)
    have "nblks_of v \<le> 128" using wf by (auto simp: vblk_wf_def)
    then have "d \<le> 128" using \<open>Suc j * d \<le> m * d\<close> d(4) by simp
    then have "d * np \<le> 128 * 2 ^ 31" using np(3) by (intro mult_le_mono) simp_all
    then have i64: "d * np < 2 ^ 64" by simp
    have "map_res (erase_addr_s12 dev v (int np) (int j * int d)) [0..<d * np] = Inr (erase_planes v np d j)"
      unfolding erase_planes_def
    proof (rule map_res_Inr)
      fix i assume "i \<in> set [0..<d * np]"
      then have i: "i < d * np" "i div np < d" by (simp_all add: less_mult_imp_div_less)
      have "j * d + i div np < nblks_of v" using that d(4) i(2) by (simp add: digit_lt)
      from blk_at_of_nat [OF wf this] have "blk_at v (int j * int d + int i sdiv int np) = Inr (vblk_blks v ! (j * d + i div np))"
        using np(2) by (auto simp: signed_divide_int_def sgn_if zdiv_int)
      moreover have "(of_nat i mod of_nat np :: u64) = of_nat (i mod np)" using i64 i(1) np(3) by (intro word_div_mod_of_nat(2)) simp_all
      ultimately show "erase_addr_s12 dev v (int np) (int j * int d) i = Inr (set_g_pl (of_nat (i mod np)) (vblk_blks v ! (j * d + i div np)))"
        by (simp add: erase_addr_s12_def npw)
    qed
    then show ?thesis by (simp add: mn Let_def na erase_planes_def)
  qed
  have d0: "0 < int d" using d(2) by simp
  have loop: "for_op (\<lambda>off. off < vblk_nblks v) (\<lambda>off. off + int d) ?body 0 0 w = Some (fold_op (\<lambda>j. counted (nvm_cmd_erase be dev
        (erase_planes v np d j) (int (length (erase_planes v np d j))) 0 ?fl ret)) [0..<m] 0 w)"
    unfolding d(3) by (rule for_counted [OF d0]) (rule body [unfolded d(3)])
  have mxd: "c_div (dev_erase_naddrs_max dev) (int np) = Inr ?mx" using np(2) by (simp add: c_div_def)
  have "vblk_erase_s12 be dev ret v w = Some (andThen (fold_op (\<lambda>j. counted (nvm_cmd_erase be dev
        (erase_planes v np d j) (int (length (erase_planes v np d j))) 0 ?fl ret)) [0..<m] 0) (erase_done v) w)"
    unfolding vblk_erase_s12_def bn Let_def [of "int np"] mxd lbind_lret d(1) by (rule lbind_some) (rule loop)
  then show thesis using that d by blast
qed

text \<open>What an erase of a virtual block is to free: its chunks, or all planes of its blocks.\<close>

definition erase_set :: "nvm_dev \<Rightarrow> nvm_vblk \<Rightarrow> nvm_addr set" where
  "erase_set dev v = (let blks = set (take (nblks_of v) (vblk_blks v)) in
     if dev_verid dev = NVM_SPEC_VERID_12 then (\<Union>b \<in> blks. (\<lambda>p. set_g_pl (of_nat p) b) ` {..<unat (nplanes (dev_geo dev))}) else blks)"

definition erase_dev :: "nvm_dev \<Rightarrow> bool" where
  "erase_dev dev \<longleftrightarrow> dev_verid dev = NVM_SPEC_VERID_20 \<and> 0 < dev_erase_naddrs_max dev \<and> addressing (cmd_opt dev 0)
     \<or> dev_verid dev = NVM_SPEC_VERID_12 \<and> erase_dev_s12 dev (unat (nplanes (dev_geo dev)))"

lemma blks_nth: "vblk_wf v \<Longrightarrow> a \<in> set (take (nblks_of v) (vblk_blks v)) \<longleftrightarrow> (\<exists>k<nblks_of v. a = vblk_blks v ! k)"
  using nth_image [of "nblks_of v" "vblk_blks v"] by (fastforce simp: vblk_wf_def)

lemma erase_chunks_all:
  assumes "vblk_wf v" "0 < d" "nblks_of v = m * d"
  shows "(\<exists>j<m. a \<in> set (erase_chunks v d j)) \<longleftrightarrow> a \<in> set (take (nblks_of v) (vblk_blks v))"
  unfolding blks_nth [OF assms(1)] unfolding assms(3) chunk_index [OF assms(2)] by (fastforce simp: erase_chunks_def)

lemma erase_planes_all:
  assumes "vblk_wf v" "0 < d" "nblks_of v = m * d" "0 < np"
  shows "(\<exists>j<m. a \<in> set (erase_planes v np d j)) \<longleftrightarrow>
    a \<in> (\<Union>b \<in> set (take (nblks_of v) (vblk_blks v)). (\<lambda>p. set_g_pl (of_nat p) b) ` {..<np})"
proof -
  have cmd: "a \<in> set (erase_planes v np d j) \<longleftrightarrow> (\<exists>i<d. \<exists>p<np. a = set_g_pl (of_nat p) (vblk_blks v ! (j * d + i)))" for j a
  proof -
    have "(\<exists>k<d * np. a = set_g_pl (of_nat (k mod np)) (vblk_blks v ! (j * d + k div np))) \<longleftrightarrow>
        (\<exists>i<d. \<exists>p<np. a = set_g_pl (of_nat p) (vblk_blks v ! (j * d + i)))"
    proof
      assume "\<exists>i<d. \<exists>p<np. a = set_g_pl (of_nat p) (vblk_blks v ! (j * d + i))"
      then obtain i p where "i < d" "p < np" "a = set_g_pl (of_nat p) (vblk_blks v ! (j * d + i))" by blast
      then show "\<exists>k<d * np. a = set_g_pl (of_nat (k mod np)) (vblk_blks v ! (j * d + k div np))"
        by (intro exI [of _ "i * np + p"]) (simp add: digit_lt)
    next
      assume "\<exists>k<d * np. a = set_g_pl (of_nat (k mod np)) (vblk_blks v ! (j * d + k div np))"
      then obtain k where "k div np < d" "k mod np < np" "a = set_g_pl (of_nat (k mod np)) (vblk_blks v ! (j * d + k div np))"
        using assms(4) by (metis less_mult_imp_div_less mod_less_divisor)
      then show "\<exists>i<d. \<exists>p<np. a = set_g_pl (of_nat p) (vblk_blks v ! (j * d + i))" by blast
    qed
    then show ?thesis by (simp add: erase_planes_def image_iff Bex_def)
  qed
  have all: "a \<in> (\<Union>b \<in> set (take (nblks_of v) (vblk_blks v)). (\<lambda>p. set_g_pl (of_nat p) b) ` {..<np}) \<longleftrightarrow>
      (\<exists>k<m * d. \<exists>p<np. a = set_g_pl (of_nat p) (vblk_blks v ! k))"
    unfolding UN_iff Bex_def blks_nth [OF assms(1)] image_iff unfolding assms(3) by blast
  show ?thesis unfolding cmd all chunk_index [OF assms(2)] by blast
qed

lemma erase_s20_frees:
  assumes "vblk_wf v" "dev_verid dev = NVM_SPEC_VERID_20" "0 < dev_erase_naddrs_max dev" "addressing (cmd_opt dev 0)"
  obtains m A fl where "m < 2 ^ 64" "addressing (cmd_opt dev fl)" "\<And>a. (\<exists>j<m. a \<in> set (A j)) \<longleftrightarrow> a \<in> erase_set dev v"
    "nvm_vblk_erase be dev ret v w = Some (andThen (fold_op (\<lambda>j. counted (nvm_cmd_erase be dev (A j) (int (length (A j))) 0 fl ret)) [0..<m] 0) (erase_done v) w)"
proof -
  obtain d m where d: "vblk_erase_s20 be dev ret v w = Some (andThen (fold_op (\<lambda>j. counted (nvm_cmd_erase be dev
        (erase_chunks v d j) (int (length (erase_chunks v d j))) 0 0 ret)) [0..<m] 0) (erase_done v) w)"
    "0 < d" "nblks_of v = m * d" "m < 2 ^ 64" by (rule erase_s20_cmds [OF assms(1,3)])
  have "nvm_vblk_erase be dev ret v = vblk_erase_s20 be dev ret v" "erase_set dev v = set (take (nblks_of v) (vblk_blks v))"
    using assms(2) by (simp_all add: nvm_vblk_erase_def erase_set_def)
  note eq = this
  have all: "(\<exists>j<m. a \<in> set (erase_chunks v d j)) \<longleftrightarrow> a \<in> erase_set dev v" for a
    unfolding eq(2) by (rule erase_chunks_all [OF assms(1) d(2,3)])
  show thesis by (rule that [OF d(4) assms(4) all d(1) [folded eq(1)]])
qed

lemma erase_s12_frees:
  assumes "vblk_wf v" "dev_verid dev = NVM_SPEC_VERID_12" "erase_dev_s12 dev (unat (nplanes (dev_geo dev)))"
  obtains m A fl where "m < 2 ^ 64" "addressing (cmd_opt dev fl)" "\<And>a. (\<exists>j<m. a \<in> set (A j)) \<longleftrightarrow> a \<in> erase_set dev v"
    "nvm_vblk_erase be dev ret v w = Some (andThen (fold_op (\<lambda>j. counted (nvm_cmd_erase be dev (A j) (int (length (A j))) 0 fl ret)) [0..<m] 0) (erase_done v) w)"
proof -
  let ?np = "unat (nplanes (dev_geo dev))"
  let ?fl = "ucast (word_of_int (dev_pmode dev) OR NVM_VBLK_CMD_OPTS)"
  obtain d m where d: "vblk_erase_s12 be dev ret v w = Some (andThen (fold_op (\<lambda>j. counted (nvm_cmd_erase be dev
        (erase_planes v ?np d j) (int (length (erase_planes v ?np d j))) 0 ?fl ret)) [0..<m] 0) (erase_done v) w)"
    "0 < d" "nblks_of v = m * d" "m < 2 ^ 64" by (rule erase_s12_cmds [OF assms(1,3)])
  have np: "0 < ?np" using assms(3) by (simp add: erase_dev_s12_def)
  have "nvm_vblk_erase be dev ret v = vblk_erase_s12 be dev ret v"
    "erase_set dev v = (\<Union>b \<in> set (take (nblks_of v) (vblk_blks v)). (\<lambda>p. set_g_pl (of_nat p) b) ` {..<?np})"
    using assms(2) by (simp_all add: nvm_vblk_erase_def erase_set_def)
  note eq = this
  have all: "(\<exists>j<m. a \<in> set (erase_planes v ?np d j)) \<longleftrightarrow> a \<in> erase_set dev v" for a
    unfolding eq(2) by (rule erase_planes_all [OF assms(1) d(2,3) np])
  have "addressing (cmd_opt dev ?fl)" using assms(3) by (auto simp: erase_dev_s12_def addressing_def cmd_opt_def Let_def)
  then show thesis by (rule that [OF d(4) _ all d(1) [folded eq(1)]])
qed

lemma erase_dev_cmds:
  assumes "vblk_wf v" "erase_dev dev"
  obtains m A fl where "m < 2 ^ 64" "addressing (cmd_opt dev fl)" "\<And>a. (\<exists>j<m. a \<in> set (A j)) \<longleftrightarrow> a \<in> erase_set dev v"
    "nvm_vblk_erase be dev ret v w = Some (andThen (fold_op (\<lambda>j. counted (nvm_cmd_erase be dev (A j) (int (length (A j))) 0 fl ret)) [0..<m] 0) (erase_done v) w)"
proof -
  from assms(2) consider "dev_verid dev = NVM_SPEC_VERID_20" "0 < dev_erase_naddrs_max dev" "addressing (cmd_opt dev 0)"
    | "dev_verid dev = NVM_SPEC_VERID_12" "erase_dev_s12 dev (unat (nplanes (dev_geo dev)))"
    unfolding erase_dev_def by blast
  then show thesis
  proof cases
    case 1
    then show ?thesis by (rule erase_s20_frees [OF assms(1)]) (rule that)
  next
    case 2
    then show ?thesis by (rule erase_s12_frees [OF assms(1)]) (rule that)
  qed
qed

text \<open>A device that executes every erase command.\<close>

definition erase_answers :: "'w nvm_be \<Rightarrow> nvm_dev \<Rightarrow> bool" where
  "erase_answers be dev \<longleftrightarrow> (\<forall>as n fl ret w. \<exists>w'. be_scalar_erase be dev as n fl ret w = (Inr (), w')) \<and>
     (\<forall>as n fl ret w. \<exists>w'. be_vector_erase be dev as n 0 fl ret w = (Inr (), w'))"

lemma cmd_erase_answers:
  "erase_answers be dev \<Longrightarrow> addressing (cmd_opt dev fl) \<Longrightarrow> \<exists>w'. nvm_cmd_erase be dev as n 0 fl ret w = (Inr (), w')"
  by (auto simp: erase_answers_def addressing_def nvm_cmd_erase_def)

text \<open>
  C6. Erasing frees the virtual block: on a 2.0 device, and on a 1.2 device with any number of planes,
  \<open>nvm_vblk_erase\<close> always returns, for every number of chunks and every limit on the addresses of a
  command; when it returns the size of the block, the positions are back at 0 and exactly the chunks of
  the block (on 1.2, all planes of its blocks) are freed, every other address keeps its state; the only
  error is \<open>EIO\<close>, and there is none when the device executes the commands.
\<close>

theorem vblk_erase_frees:
  assumes "vblk_wf v" "erase_dev dev" "erase_laws be dev st fre" "erase_returns be dev"
  shows "\<exists>r w'. nvm_vblk_erase be dev ret v w = Some (r, w') \<and>
    (r = Inl (Errno EIO) \<and> \<not> erase_answers be dev \<or>
     r = Inr (sint (vblk_nbytes v), v\<lparr>vblk_pos_write := 0, vblk_pos_read := 0\<rparr>) \<and>
       (\<forall>a. st w' a = (if a \<in> erase_set dev v then fre else st w a)))"
proof -
  obtain m A fl where c: "m < 2 ^ 64" "addressing (cmd_opt dev fl)" "\<And>a. (\<exists>j<m. a \<in> set (A j)) \<longleftrightarrow> a \<in> erase_set dev v"
    "nvm_vblk_erase be dev ret v w = Some (andThen (fold_op (\<lambda>j. counted (nvm_cmd_erase be dev (A j) (int (length (A j))) 0 fl ret)) [0..<m] 0) (erase_done v) w)"
    by (rule erase_dev_cmds [OF assms(1,2), where be = be and ret = ret and w = w]) (rule that)
  let ?run = "andThen (fold_op (\<lambda>j. counted (nvm_cmd_erase be dev (A j) (int (length (A j))) 0 fl ret)) [0..<m] 0) (erase_done v) w"
  obtain w' where o: "?run = (Inl (Errno EIO), w') \<or> ?run = (Inr (sint (vblk_nbytes v), vblk_reset v), w') \<and>
      (\<forall>a. st w' a = (if a \<in> erase_set dev v then fre else st w a))"
    using erase_outcome [OF assms(3,4) c(1) refl, where A = A and fl = fl and ret = ret and v = v and w = w] unfolding c(3) by blast
  have "fst ?run \<noteq> Inl (Errno EIO)" if "erase_answers be dev"
    using counted_succeeds [of "\<lambda>j. nvm_cmd_erase be dev (A j) (int (length (A j))) 0 fl ret" "[0..<m]" 0 w]
      cmd_erase_answers [OF that c(2)] by (auto simp: andThen_def erase_done_def ok_def)
  note na = this
  from o show ?thesis
  proof
    assume r: "?run = (Inl (Errno EIO), w')"
    then have "\<not> erase_answers be dev" using na by auto
    then show ?thesis using c(4) r by simp
  next
    assume "?run = (Inr (sint (vblk_nbytes v), vblk_reset v), w') \<and> (\<forall>a. st w' a = (if a \<in> erase_set dev v then fre else st w a))"
    then show ?thesis using c(4) unfolding vblk_reset_def by simp
  qed
qed

text \<open>A backend whose world is the list of the addresses it erased.\<close>

definition ex_be_erase :: "nvm_addr list nvm_be" where
  "ex_be_erase = (nvm_be_disabled NVM_BE_SPDK ''NVM_BE_SPDK'')\<lparr>
     be_scalar_erase := \<lambda>dev as n fl ret w. (Inr (), as @ w), be_vector_erase := \<lambda>dev as n meta fl ret w. (Inr (), as @ w)\<rparr>"

definition ex_dev_erase :: nvm_dev where
  "ex_dev_erase = ex_dev_unit\<lparr>dev_cmd_opts := NVM_VBLK_CMD_OPTS, dev_erase_naddrs_max := 64\<rparr>"

theorem vblk_erase_frees_witness:
  "\<exists>r w'. nvm_vblk_erase ex_be_erase ex_dev_erase 0 ex_vblk [] = Some (r, w') \<and>
    r = Inr (2 * 6144 * 4096, ex_vblk\<lparr>vblk_pos_write := 0, vblk_pos_read := 0\<rparr>) \<and> set_l_chunk 5 (NvmAddr 0) \<in> set w'"
proof -
  have l: "erase_laws ex_be_erase ex_dev_erase (\<lambda>w a. a \<in> set w) True" "erase_returns ex_be_erase ex_dev_erase"
    by (auto simp: erase_laws_def erase_returns_def ex_be_erase_def)
  have a: "erase_answers ex_be_erase ex_dev_erase" by (simp add: erase_answers_def ex_be_erase_def)
  have d: "erase_dev ex_dev_erase" by (simp add: erase_dev_def addressing_def cmd_opt_def ex_dev_erase_def ex_dev_unit_def ex_dev_s20_def)
  have m: "set_l_chunk 5 (NvmAddr 0) \<in> erase_set ex_dev_erase ex_vblk"
    by (simp add: erase_set_def ex_dev_erase_def ex_dev_unit_def ex_dev_s20_def ex_vblk_def)
  have n: "sint (vblk_nbytes ex_vblk) = 2 * 6144 * 4096" by (simp add: ex_vblk_def)
  from vblk_erase_frees [OF ex_unit_facts(4) d l, of 0 "[]"] show ?thesis unfolding n using a m by auto
qed

section \<open>Allocation of a line\<close>

lemma length_line: "length (line_addrs dev cb ce lb le blk) = nat (ce - cb + 1) * nat (le - lb + 1)"
  by (simp add: line_addrs_def length_concat o_def sum_list_triv)

lemma take_bit_word_of_int: "(take_bit 8 (word_of_int i) :: u64) = word_of_int (i mod 256)"
proof -
  have "i mod 256 = take_bit 8 i" by (simp add: take_bit_eq_mod)
  then show ?thesis by (simp only:) (rule bit_word_eqI, auto simp: bit_simps)
qed

lemma small_range_mod:
  fixes a b x y :: int
  assumes "x \<in> {a..b}" "y \<in> {a..b}" "b - a < 128" "(word_of_int (x mod 256) :: u64) = word_of_int (y mod 256)"
  shows "x = y"
proof -
  have "uint (word_of_int (x mod 256) :: u64) = x mod 256" "uint (word_of_int (y mod 256) :: u64) = y mod 256"
    by (simp_all add: uint_word_of_int)
  then have "x mod 256 = y mod 256" using assms(4) by metis
  then have "256 dvd x - y" by (simp add: mod_eq_dvd_iff)
  then obtain k where "x - y = 256 * k" by (auto simp: dvd_def)
  moreover from this have "k < 1" "-1 < k" using assms(1-3) by simp_all
  ultimately show ?thesis by simp
qed

lemma line_addr_inj:
  assumes "dev_verid dev = NVM_SPEC_VERID_20" "set_l_sectr 0 (line_addr dev c l blk) = set_l_sectr 0 (line_addr dev c' l' blk)"
  shows "(word_of_int (c mod 256) :: u64) = word_of_int (c' mod 256) \<and> (word_of_int (l mod 256) :: u64) = word_of_int (l' mod 256)"
  using arg_cong [OF assms(2), of l_pugrp] arg_cong [OF assms(2), of l_punit] assms(1)
  by (simp add: line_addr_def bitfield_simps take_bit_word_of_int)

lemma line_product:
  "line_addrs dev cb ce lb le blk = map (\<lambda>(lun, ch). line_addr dev ch lun blk) (List.product [lb..le] [cb..ce])"
  by (simp add: line_addrs_def product_concat_map map_concat o_def)

lemma line_distinct:
  assumes "dev_verid dev = NVM_SPEC_VERID_20" "length (line_addrs dev cb ce lb le blk) \<le> 128"
  shows "distinct (map (set_l_sectr 0) (line_addrs dev cb ce lb le blk))"
proof -
  have "inj_on (\<lambda>(lun, ch). set_l_sectr 0 (line_addr dev ch lun blk)) ({lb..le} \<times> {cb..ce})"
  proof (rule inj_onI, clarify)
    fix l c l' c'
    assume r: "l \<in> {lb..le}" "c \<in> {cb..ce}" "l' \<in> {lb..le}" "c' \<in> {cb..ce}"
      and eq: "set_l_sectr 0 (line_addr dev c l blk) = set_l_sectr 0 (line_addr dev c' l' blk)"
    have p: "0 < nat (ce - cb + 1)" "0 < nat (le - lb + 1)" using r by auto
    have len: "nat (ce - cb + 1) * nat (le - lb + 1) \<le> 128" using assms(2) unfolding length_line .
    have "nat (ce - cb + 1) * 1 \<le> nat (ce - cb + 1) * nat (le - lb + 1)" "1 * nat (le - lb + 1) \<le> nat (ce - cb + 1) * nat (le - lb + 1)"
      using p by (intro mult_le_mono; simp)+
    then have "ce - cb < 128" "le - lb < 128" using len p by linarith+
    then show "l = l' \<and> c = c'"
      using small_range_mod [OF r(2,4)] small_range_mod [OF r(1,3)] line_addr_inj [OF assms(1) eq] by blast
  qed
  then show ?thesis
    unfolding line_product by (auto simp: distinct_map distinct_product o_def case_prod_beta' inj_on_def)
qed

lemma alloc_empty:
  assumes "alloc_ok sys live" "dev_verid dev = NVM_SPEC_VERID_20"
  obtains (new) p w1 where "nvm_vblk_alloc sys devp dev [] 0 w = (Inr ((vblk_zero p)\<lparr>vblk_dev := devp, vblk_flags := NVM_VBLK_CMD_OPTS\<rparr>), w1)"
      "p \<notin> live w" "live w1 = insert p (live w)"
  | (fail) e w1 where "nvm_vblk_alloc sys devp dev [] 0 w = (Inl (Errno e), w1)" "live w1 = live w"
proof -
  have "allocates live id (sys_calloc sys 1 1096)" using assms(1) by (simp add: alloc_ok_def)
  note a = allocatesD [OF this, of w]
  obtain r w1 where r: "sys_calloc sys 1 1096 w = (r, w1)" by fastforce
  show thesis
  proof (cases r)
    case (Inl e)
    then obtain x where "e = Errno x" "live w1 = live w" using a(2) r by auto
    then show thesis using fail r Inl by (simp add: nvm_vblk_alloc_def)
  next
    case (Inr p)
    then have "p \<notin> live w" "live w1 = insert p (live w)" using a(1) r by auto
    moreover have "nvm_vblk_alloc sys devp dev [] 0 w = (Inr ((vblk_zero p)\<lparr>vblk_dev := devp, vblk_flags := NVM_VBLK_CMD_OPTS\<rparr>), w1)"
      using r Inr assms(2) by (simp add: nvm_vblk_alloc_def vblk_tbytes_def on_error_def lift_res_def vblk_zero_def)
    ultimately show thesis using new by blast
  qed
qed

text \<open>
  C34. \<open>nvm_vblk_alloc_line\<close> on a 2.0 device builds the block it names: when it succeeds the chunks are
  those of the line, parallel unit by parallel unit and group by group, all in bounds and all
  different, the positions are at the start and the block is the only new allocation; when it returns
  an error nothing stays allocated; and what it does with a line of more than 128 chunks is to store past
  the end of the array.
\<close>

theorem vblk_alloc_line_wf:
  assumes "dev_verid dev = NVM_SPEC_VERID_20" "alloc_ok sys live"
  shows "case nvm_vblk_alloc_line sys devp dev cb ce lb le blk w of
      (Inr v, w') \<Rightarrow> nblks_of v = nat (ce - cb + 1) * nat (le - lb + 1) \<and> length (vblk_blks v) = 128
        \<and> take (nblks_of v) (vblk_blks v) = line_addrs dev cb ce lb le blk
        \<and> list_all (\<lambda>a. \<not> addr_check_fails a dev) (line_addrs dev cb ce lb le blk) \<and> chunks_distinct v
        \<and> vblk_nbytes v = of_nat (nblks_of v) * l_nsectr (dev_geo dev) * l_nbytes (dev_geo dev)
        \<and> vblk_pos_write v = 0 \<and> vblk_pos_read v = 0 \<and> vblk_flags v = NVM_VBLK_CMD_OPTS
        \<and> vblk_self v \<notin> live w \<and> live w' = insert (vblk_self v) (live w)
    | (Inl (Errno e), w') \<Rightarrow> live w' = live w
    | (Inl (Fault f), w') \<Rightarrow> f = OutOfBounds \<and> nat (ce - cb + 1) * nat (le - lb + 1) > 128"
proof (cases rule: alloc_empty [OF assms(2,1), where devp = devp and w = w, case_names new fail])
  case (fail e w1)
  then show ?thesis by (simp add: nvm_vblk_alloc_line_def andThen_def)
next
  case (new p w1)
  define addrs where "addrs = line_addrs dev cb ce lb le blk"
  have fr: "live (sys_free sys p w1) = live w" using assms(2) new(2,3) by (simp add: alloc_ok_def)
  have run: "nvm_vblk_alloc_line sys devp dev cb ce lb le blk w =
      (if 128 < length addrs then (Inl (Fault OutOfBounds), w1)
       else if \<exists>a \<in> set addrs. addr_check_fails a dev then (Inl (Errno EINVAL), sys_free sys p w1)
       else (Inr ((vblk_zero p)\<lparr>vblk_dev := devp, vblk_flags := NVM_VBLK_CMD_OPTS, vblk_blks := addrs @ replicate (128 - length addrs) (NvmAddr 0),
         vblk_nblks := int (length addrs), vblk_nbytes := of_nat (length addrs) * l_nsectr (dev_geo dev) * l_nbytes (dev_geo dev)\<rparr>), w1))"
    using new(1) assms(1)
    by (simp add: nvm_vblk_alloc_line_def andThen_def vblk_zero_def Let_def fail_def upd_def ok_def lift_res_def vblk_tbytes_def
        addrs_def [symmetric])
  have "distinct (map (set_l_sectr 0) addrs)" if "length addrs \<le> 128"
    using line_distinct [OF assms(1)] that unfolding addrs_def by blast
  then show ?thesis
    unfolding length_line [of dev cb ce lb le blk, symmetric] addrs_def [symmetric] run
    using new fr by (auto simp: vblk_zero_def list_all_iff chunks_distinct_def)
qed

theorem vblk_alloc_line_wf_witness:
  "\<exists>v w'. nvm_vblk_alloc_line ex_sys 0x10 ex_dev_unit 0 1 0 2 5 [] = (Inr v, w') \<and> nblks_of v = 6 \<and> chunks_distinct v"
proof -
  have "\<not> isl (fst (nvm_vblk_alloc_line ex_sys 0x10 ex_dev_unit 0 1 0 2 5 []))" by code_simp
  then obtain v w' where r: "nvm_vblk_alloc_line ex_sys 0x10 ex_dev_unit 0 1 0 2 5 [] = (Inr v, w')"
    by (metis prod.collapse sum.collapse(2))
  have "dev_verid ex_dev_unit = NVM_SPEC_VERID_20" by (simp add: ex_dev_unit_def ex_dev_s20_def)
  from vblk_alloc_line_wf [OF this ex_sys_ok, where devp = "0x10" and cb = "0" and ce = "1" and lb = "0" and le = "2" and blk = "5" and w = "[]"]
  show ?thesis unfolding r by simp
qed

section \<open>Copying\<close>

text \<open>A 2.0 device whose smallest write is \<open>u\<close> sectors of \<open>B\<close> bytes.\<close>

definition copy_dev :: "nvm_dev \<Rightarrow> nat \<Rightarrow> nat \<Rightarrow> bool" where
  "copy_dev dev u B \<longleftrightarrow> dev_verid dev = NVM_SPEC_VERID_20 \<and> unat (ws_min (s20_wrt (idfy_s20 (dev_idfy dev)))) = u \<and>
     unat (l_nbytes (dev_geo dev)) = B \<and> 0 < u \<and> u \<le> 64 \<and> 0 < B"

lemma copy_devD:
  assumes "copy_dev dev u B"
  shows "ws_u32 (nvm_dev_get_ws_min dev) = of_nat u" "l_nbytes (dev_geo dev) = of_nat B" "(of_nat B :: u64) \<noteq> 0"
    "(of_nat u :: u64) \<noteq> 0" "0 < u" "u \<le> 64" "0 < B" "B < 2 ^ 64" "dev_verid dev = 2"
proof -
  from assms have d: "dev_verid dev = 2" "unat (ws_min (s20_wrt (idfy_s20 (dev_idfy dev)))) = u"
    "unat (l_nbytes (dev_geo dev)) = B" "0 < u" "u \<le> 64" "0 < B" by (simp_all add: copy_dev_def)
  then show "0 < u" "u \<le> 64" "0 < B" "dev_verid dev = 2" by blast+
  show "ws_u32 (nvm_dev_get_ws_min dev) = of_nat u"
    using d(1,5) d(2) [symmetric] by (simp add: ws_u32_def nvm_dev_get_ws_min_def c_int_uint32)
  show "l_nbytes (dev_geo dev) = of_nat B" using d(3) by auto
  show B: "B < 2 ^ 64" using d(3) unat_u64_lt by blast
  show "(of_nat B :: u64) \<noteq> 0" using unat_u64 [OF B] d(6) by (metis unat_0 less_irrefl)
  have "unat (of_nat u :: u64) = u" using d(5) by (intro unat_u64) simp
  then show "(of_nat u :: u64) \<noteq> 0" using d(4) by (metis unat_0 less_irrefl)
qed

text \<open>Commands of at most \<open>K\<close> sectors for \<open>N\<close> sectors: the size of the \<open>j\<close>-th, and the reference for the copy.\<close>

definition copy_len :: "nat \<Rightarrow> nat \<Rightarrow> nat \<Rightarrow> nat" where
  "copy_len N K j = min (N - j * K) K"

definition copy_units ::
  "'w nvm_be \<Rightarrow> nvm_dev \<Rightarrow> ptr \<Rightarrow> nvm_vblk \<Rightarrow> nvm_vblk \<Rightarrow> nat \<Rightarrow> nat \<Rightarrow> nat \<Rightarrow> nat \<Rightarrow> ('w, unit) op" where
  "copy_units be dev ret src dst u N K j =
     be_vector_copy be dev (sector_addrs src u (j * K) (copy_len N K j)) (sector_addrs dst u (j * K) (copy_len N K j))
       (int (copy_len N K j)) (ucast NVM_VBLK_CMD_OPTS) ret"

lemma copy_loop:
  assumes wf: "vblk_wf src" "vblk_wf dst" "vblk_nblks dst = vblk_nblks src" and u: "0 < u" "u \<le> 64"
    and K: "0 < K" "K \<le> 64" and N: "0 < N" "N < 2 ^ 31"
  defines "c \<equiv> (N + K - 1) div K"
  shows "for_op (\<lambda>ofz. ofz \<le> 0 + of_nat N - 1) (\<lambda>ofz. ofz + of_nat K) (copy_cmd be dev ret src dst (of_nat u) (of_nat K) (0 + of_nat N - 1)) 0 0 w =
    Some (fold_op (\<lambda>j. counted (copy_units be dev ret src dst u N K j)) [0..<c] 0 w)"
proof -
  note cd = ceil_div [OF N(1) K(1), folded c_def]
  have u64: "u < 2 ^ 64" using u(2) by simp
  have lt: "0 + c * K < 2 ^ 64" using cd(4) N(2) K(2) by simp
  have step: "copy_cmd be dev ret src dst (of_nat u) (of_nat K) (0 + of_nat N - 1) (of_nat (0 + j * K)) = counted (copy_units be dev ret src dst u N K j)"
    if "j \<in> set [0..<c]" for j
  proof -
    have "j * K \<le> (c - 1) * K" using that by (intro mult_le_mono1) simp
    then have jN: "j * K < N" using cd(3) by linarith
    let ?l = "copy_len N K j"
    have "(0 + of_nat N - 1 - of_nat (j * K) + 1 :: u64) = of_nat (N - j * K)" using jN by (simp add: of_nat_diff)
    moreover have "NVM_MIN (of_nat (N - j * K)) (of_nat K) = (of_nat ?l :: u64)"
    proof -
      have "unat (of_nat (N - j * K) :: u64) < 2 ^ 31" "unat (of_nat K :: u64) < 2 ^ 31" using N(2) K(2) by (simp_all add: unat_u64)
      then show ?thesis using N(2) K(2) by (simp add: NVM_MIN_small copy_len_def min_def word_le_nat_alt unat_u64)
    qed
    moreover have l: "?l \<le> 64" "j * K + ?l \<le> 2 ^ 64" using K(2) N(2) jN by (simp_all add: copy_len_def)
    moreover have "unat (of_nat ?l :: u64) = ?l" "c_int (uint (of_nat ?l :: u64)) = int ?l"
      using l(1) by (simp_all add: c_int_uint unat_u64 uint_nat)
    moreover have "map_res (\<lambda>idx. stripe_addr v (of_nat u) (of_nat (j * K) + of_nat idx)) [0..<?l] = Inr (sector_addrs v u (j * K) ?l)"
      if "vblk_wf v" for v by (rule stripe_addrs_eq [OF that u(1) u64 l(2)])
    moreover have same: "dst\<lparr>vblk_nblks := vblk_nblks src\<rparr> = dst" using wf(3) by (cases dst) simp
    ultimately show ?thesis
      using wf by (simp add: same copy_cmd_def copy_units_def Let_def fun_eq_iff nvm_cmd_copy_def del: of_nat_mult of_nat_diff)
  qed
  show ?thesis
    using for_sectors [OF K(1) lt cd(2,3,1), where body = "copy_cmd be dev ret src dst (of_nat u) (of_nat K) (0 + of_nat N - 1)" and s = 0 and w = w]
    by (simp only: fold_op_cong [OF step]) simp
qed

text \<open>
  What the library relies on of a copy command: it stores the contents of the source sectors, as they
  were before, in the destination sectors and changes no other sector.
\<close>

definition copy_laws :: "'w nvm_be \<Rightarrow> nvm_dev \<Rightarrow> ('w \<Rightarrow> nvm_addr \<Rightarrow> 'c) \<Rightarrow> bool" where
  "copy_laws be dev sec \<longleftrightarrow> (\<forall>src dst fl ret w w'. distinct dst \<longrightarrow> length src = length dst \<longrightarrow> length dst \<le> 64 \<longrightarrow>
     be_vector_copy be dev src dst (int (length dst)) fl ret w = (Inr (), w') \<longrightarrow>
     (\<forall>i < length dst. sec w' (dst ! i) = sec w (src ! i)) \<and> (\<forall>a. a \<notin> set dst \<longrightarrow> sec w' a = sec w a))"

lemma copy_lawsD:
  assumes "copy_laws be dev sec" "distinct dst" "length src = length dst" "length dst \<le> 64"
    "be_vector_copy be dev src dst (int (length dst)) fl ret w = (Inr (), w')"
  shows "i < length dst \<Longrightarrow> sec w' (dst ! i) = sec w (src ! i)" "a \<notin> set dst \<Longrightarrow> sec w' a = sec w a"
  using assms unfolding copy_laws_def by blast+

lemma units_copied:
  assumes laws: "copy_laws be dev sec" and geo: "geo_wf src u len" "geo_wf dst u len" and N: "N = nblks_of dst * len"
    and apart: "\<And>s t. s < N \<Longrightarrow> t < N \<Longrightarrow> sector_addr src u s \<noteq> sector_addr dst u t" and K: "0 < K" "K \<le> 64"
    and run: "each_op (copy_units be dev ret src dst u N K) [0..<n] w = (Inr (), w')"
  shows "(\<forall>s < min (n * K) N. sec w' (sector_addr dst u s) = sec w (sector_addr src u s)) \<and>
    (\<forall>a. (\<forall>s < min (n * K) N. a \<noteq> sector_addr dst u s) \<longrightarrow> sec w' a = sec w a)"
  using run
proof (induction n arbitrary: w')
  case 0
  then show ?case by (simp add: ok_def)
next
  case (Suc n)
  from Suc.prems obtain w1 where 1: "each_op (copy_units be dev ret src dst u N K) [0..<n] w = (Inr (), w1)"
    "copy_units be dev ret src dst u N K n w1 = (Inr (), w')" by (rule each_op_snoc)
  note IH = Suc.IH [OF 1(1)]
  let ?l = "copy_len N K n" and ?D = "sector_addrs dst u (n * K) (copy_len N K n)" and ?S = "sector_addrs src u (n * K) (copy_len N K n)"
  have cov: "s < min (Suc n * K) N \<longleftrightarrow> s < min (n * K) N \<or> n * K \<le> s \<and> s < n * K + ?l" for s
    by (auto simp: copy_len_def min_def)
  show ?case
  proof (cases "n * K < N")
    case False
    then have "?l = 0" by (simp add: copy_len_def)
    then have "sec w' a = sec w1 a" for a
      using copy_lawsD(2) [OF laws, of ?D ?S] 1(2) by (simp add: copy_units_def sector_addrs_def)
    then show ?thesis using IH cov \<open>?l = 0\<close> by auto
  next
    case True
    then have le: "n * K + ?l \<le> nblks_of dst * len" using N by (simp add: copy_len_def)
    have "distinct ?D" by (rule sector_addrs_distinct [OF geo(2) le])
    note m = copy_lawsD [OF laws this, of ?S, unfolded sector_addrs_length, OF refl _ 1(2) [unfolded copy_units_def]]
    have l64: "?l \<le> 64" using K(2) by (simp add: copy_len_def)
    have notin: "sector_addr dst u s \<notin> set ?D" if "s < n * K" for s
      using that le N sector_addr_inj [OF geo(2)] by (auto simp: sector_addrs_def)
    have "sec w' (sector_addr dst u s) = sec w (sector_addr src u s)" if s: "s < min (Suc n * K) N" for s
    proof (cases "s < min (n * K) N")
      case True
      then show ?thesis using m(2) [OF l64 notin] IH by simp
    next
      case False
      then have i: "s - n * K < ?l" "n * K \<le> s" using s cov [of s] by auto
      have "sec w1 (sector_addr src u s) = sec w (sector_addr src u s)" using IH apart s by simp
      then show ?thesis using m(1) [OF l64 i(1)] i by (simp add: sector_addrs_nth)
    qed
    moreover have "sec w' a = sec w a" if "\<forall>s < min (Suc n * K) N. a \<noteq> sector_addr dst u s" for a
    proof -
      have "a \<noteq> sector_addr dst u s" if "n * K \<le> s" "s < n * K + ?l" for s
        using \<open>\<forall>s < min (Suc n * K) N. a \<noteq> sector_addr dst u s\<close> that cov by blast
      then have "a \<notin> set ?D" by (simp add: sector_addrs_def image_iff Ball_def)
      then have "sec w' a = sec w1 a" by (rule m(2) [OF l64])
      also have "\<dots> = sec w a" using IH that unfolding cov by blast
      finally show ?thesis .
    qed
    ultimately show ?thesis by blast
  qed
qed

text \<open>Every sector of every chunk is a sector of the virtual block, and the chunk of a sector is one of the block.\<close>

lemma sector_addr_onto:
  assumes "geo_wf v u len" "k < nblks_of v" "x < len"
  obtains s where "s < nblks_of v * len" "stripe_place \<lparr>st_unit = u, st_chunks = nblks_of v, st_len = 0\<rparr> s = (k, x)"
proof -
  let ?c = "\<lparr>st_unit = u, st_chunks = nblks_of v, st_len = len\<rparr>"
  have c: "stripe_wf ?c" using assms by (auto simp: geo_wf_def stripe_wf_def vblk_wf_def)
  have "(k, x) \<in> stripe_place ?c ` {..<stripe_total ?c}"
    using bij_betw_imp_surj_on [OF lay20.bij [OF c]] assms(2,3) by simp
  then obtain s where "s < stripe_total ?c" "stripe_place ?c s = (k, x)" by auto
  then show thesis using that by (simp add: stripe_total_def stripe_place_def)
qed

definition chunk_set :: "nvm_vblk \<Rightarrow> nvm_addr set" where
  "chunk_set v = set_l_sectr 0 ` set (take (nblks_of v) (vblk_blks v))"

lemma sector_in_chunk:
  assumes "geo_wf v u len" "s < nblks_of v * len"
  shows "set_l_sectr 0 (sector_addr v u s) \<in> chunk_set v"
proof -
  let ?c = "\<lparr>st_unit = u, st_chunks = nblks_of v, st_len = len\<rparr>"
  have c: "stripe_wf ?c" "s < stripe_total ?c" using assms by (auto simp: geo_wf_def stripe_wf_def stripe_total_def vblk_wf_def)
  have "fst (stripe_place ?c s) < nblks_of v" using lay20.in_range [OF c] by simp
  then show ?thesis
    using blks_nth [of v "vblk_blks v ! fst (stripe_place ?c s)"] assms(1)
    unfolding sector_addr_fields(2) [OF assms] chunk_set_def by (auto simp: geo_wf_def)
qed

definition copy_answers :: "'w nvm_be \<Rightarrow> nvm_dev \<Rightarrow> bool" where
  "copy_answers be dev \<longleftrightarrow> (\<forall>src dst n fl ret w. \<exists>w'. be_vector_copy be dev src dst n fl ret w = (Inr (), w'))"

lemma vblk_copy_eq:
  assumes dev: "copy_dev dev u B" and wf: "vblk_wf src" "vblk_wf dst"
    and same: "vblk_dev src = vblk_dev dst" "vblk_nblks src = vblk_nblks dst" "vblk_nbytes src = vblk_nbytes dst"
    and N: "unat (vblk_nbytes src) = N * B" "0 < N" "u dvd N" "N < 2 ^ 31"
  defines "K \<equiv> 64 div u * u"
  shows "nvm_vblk_copy be dev ret src dst w =
    Some (andThen (fold_op (\<lambda>j. counted (copy_units be dev ret src dst u N K j)) [0..<(N + K - 1) div K] 0) (io_done (vblk_nbytes src)) w)"
proof -
  note d = copy_devD [OF dev]
  note n = sectors_of_bytes [OF N(1) d(7,8)]
  have u64: "u < 2 ^ 64" using d(6) by simp
  have K: "0 < K" "K \<le> 64" using d(5,6) by (auto simp: K_def div_greater_zero_iff)
  have Kw: "(64 div of_nat u) * of_nat u = (of_nat K :: u64)"
    using word_div_mod_of_nat(1) [of 64 u] u64 by (simp add: K_def)
  have al: "(of_nat N :: u64) mod of_nat u = 0" using word_div_mod_of_nat(2) [OF n(2) u64] N(3) by simp
  note loop = copy_loop [OF wf same(2) [symmetric] d(5,6) K N(2,4), of be dev ret w]
  show ?thesis
    unfolding nvm_vblk_copy_def vblk_copy_s20_def Let_def d(1,2) n(1) Kw al
    using d(3,4,9) same loop by (simp add: lbind_some)
qed

text \<open>
  C14. A copy copies: on a 2.0 device that executes the commands, \<open>nvm_vblk_copy\<close> between two virtual
  blocks of the same size without a common chunk returns the size of the block, afterwards every sector of
  every chunk of the destination holds what the same sector of the corresponding source chunk held, and
  no address outside the destination changes, however the sectors divide into commands. The sectors must
  number less than \<open>2 ^ 31\<close>, because the code compares their number as an \<open>int\<close>.
\<close>

theorem vblk_copy_copies:
  assumes "copy_dev dev u B" "geo_wf src u len" "geo_wf dst u len" "0 < len" "chunk_set src \<inter> chunk_set dst = {}"
    and "vblk_dev src = vblk_dev dst" "vblk_nblks src = vblk_nblks dst" "vblk_nbytes src = vblk_nbytes dst"
    and "unat (vblk_nbytes src) = nblks_of src * len * B" "nblks_of src * len < 2 ^ 31" "copy_laws be dev sec" "copy_answers be dev"
  shows "\<exists>w'. nvm_vblk_copy be dev ret src dst w = Some (Inr (sint (vblk_nbytes src)), w') \<and>
    (\<forall>k < nblks_of src. \<forall>x < len. sec w' (set_l_sectr (of_nat x) (vblk_blks dst ! k)) = sec w (set_l_sectr (of_nat x) (vblk_blks src ! k))) \<and>
    (\<forall>a. set_l_sectr 0 a \<notin> chunk_set dst \<longrightarrow> sec w' a = sec w a)"
proof -
  let ?N = "nblks_of src * len" and ?K = "64 div u * u"
  note d = copy_devD [OF assms(1)]
  have g: "vblk_wf src" "vblk_wf dst" "u dvd len" "len \<le> 2 ^ 32" "nblks_of src \<le> 128" "0 < nblks_of src"
    using assms(2,3) by (auto simp: geo_wf_def vblk_wf_def)
  have N: "0 < ?N" "u dvd ?N" "?N < 2 ^ 31" using g(3,6) assms(4,10) by simp_all
  have K: "0 < ?K" "?K \<le> 64" using d(5,6) by (auto simp: div_greater_zero_iff)
  define c where "c = (?N + ?K - 1) div ?K"
  note cd = ceil_div [OF N(1) K(1), folded c_def]
  have "c * 1 \<le> c * ?K" using K(1) by (intro mult_le_mono2) simp
  then have "c < 2 ^ 31 + 64" using cd(4) K(2) N(3) by linarith
  then have c64: "c < 2 ^ 64" by simp
  obtain w' where w': "fold_op (\<lambda>j. counted (copy_units be dev ret src dst u ?N ?K j)) [0..<c] 0 w = (Inr 0, w')"
    using counted_succeeds [of "copy_units be dev ret src dst u ?N ?K"] assms(12) unfolding copy_units_def copy_answers_def by blast
  have run: "nvm_vblk_copy be dev ret src dst w = Some (Inr (sint (vblk_nbytes src)), w')"
    unfolding vblk_copy_eq [OF assms(1) g(1,2) assms(6-9) N, folded c_def] by (simp add: andThen_def w' io_done_def ok_def)
  have apart: "sector_addr src u s \<noteq> sector_addr dst u t" if "s < ?N" "t < ?N" for s t
    using sector_in_chunk [OF assms(2) that(1)] sector_in_chunk [OF assms(3), of t] that(2) assms(5,7) by auto
  have cov: "min (c * ?K) ?N = ?N" using cd(2) by simp
  note un = units_copied [OF assms(11,2,3) _ apart K counted_fold_zero [OF w'], unfolded cov]
  have un1: "sec w' (sector_addr dst u s) = sec w (sector_addr src u s)" if "s < ?N" for s
    using un that c64 assms(7) by simp
  have un2: "sec w' a = sec w a" if "set_l_sectr 0 a \<notin> chunk_set dst" for a
  proof -
    have "a \<noteq> sector_addr dst u s" if "s < ?N" for s
      using sector_in_chunk [OF assms(3), of s] that \<open>set_l_sectr 0 a \<notin> chunk_set dst\<close> assms(7) by auto
    then show ?thesis using un c64 assms(7) by simp
  qed
  have "sec w' (set_l_sectr (of_nat x) (vblk_blks dst ! k)) = sec w (set_l_sectr (of_nat x) (vblk_blks src ! k))"
    if k: "k < nblks_of src" and x: "x < len" for k x
  proof -
    obtain s where "s < ?N" "stripe_place \<lparr>st_unit = u, st_chunks = nblks_of src, st_len = 0\<rparr> s = (k, x)"
      using sector_addr_onto [OF assms(2) k x] by blast
    then show ?thesis using un1 [of s] assms(7) by (simp add: sector_addr_def)
  qed
  then show ?thesis using run un2 by blast
qed

definition ex_be_copy :: "(nvm_addr \<Rightarrow> nat) nvm_be" where
  "ex_be_copy = (nvm_be_disabled NVM_BE_SPDK ''NVM_BE_SPDK'')\<lparr>be_vector_copy := \<lambda>dev src dst n fl ret w.
     (Inr (), \<lambda>a. case map_of (zip dst src) a of None \<Rightarrow> w a | Some b \<Rightarrow> w b)\<rparr>"

definition ex_vblk2 :: nvm_vblk where
  "ex_vblk2 = ex_vblk\<lparr>vblk_blks := [set_l_chunk 9 (NvmAddr 0), set_l_chunk 7 (set_l_pugrp 1 (NvmAddr 0))] @ replicate 126 (NvmAddr 0)\<rparr>"

lemma ex_copy_laws: "copy_laws ex_be_copy dev id"
  unfolding copy_laws_def ex_be_copy_def by (auto simp: map_of_zip_nth split: option.splits dest: map_of_SomeD set_zip_leftD)

theorem vblk_copy_copies_witness:
  "\<exists>w'. nvm_vblk_copy ex_be_copy ex_dev_unit 0 ex_vblk ex_vblk2 (\<lambda>a. unat (l_sectr a)) = Some (Inr (2 * 6144 * 4096), w') \<and>
    w' (set_l_sectr (of_nat 100) (vblk_blks ex_vblk2 ! 1)) = 100"
proof -
  have d: "copy_dev ex_dev_unit 4 4096" by (simp add: copy_dev_def ex_dev_unit_def ex_dev_s20_def)
  have g: "geo_wf ex_vblk 4 6144" using ex_unit_facts(3) by (simp add: geo_wf_def)
  have "chunks_distinct ex_vblk2" by code_simp
  then have g2: "geo_wf ex_vblk2 4 6144" by (simp add: geo_wf_def vblk_wf_def ex_vblk2_def ex_vblk_def)
  have ap: "chunk_set ex_vblk \<inter> chunk_set ex_vblk2 = {}" by code_simp
  have e: "vblk_dev ex_vblk = vblk_dev ex_vblk2" "vblk_nblks ex_vblk = vblk_nblks ex_vblk2" "vblk_nbytes ex_vblk = vblk_nbytes ex_vblk2"
    "unat (vblk_nbytes ex_vblk) = nblks_of ex_vblk * 6144 * 4096" "(0 :: nat) < 6144" "sint (vblk_nbytes ex_vblk) = 2 * 6144 * 4096" "nblks_of ex_vblk * 6144 < 2 ^ 31"
    by (simp_all add: ex_vblk2_def ex_vblk_def)
  have an: "copy_answers ex_be_copy ex_dev_unit" by (simp add: copy_answers_def ex_be_copy_def)
  have k: "1 < nblks_of ex_vblk" "(100 :: nat) < 6144" by (simp_all add: ex_vblk_def)
  from vblk_copy_copies [OF d g g2 e(5) ap e(1-4,7) ex_copy_laws an, where ret = "0" and w = "\<lambda>a. unat (l_sectr a)"] k
  obtain w' where "nvm_vblk_copy ex_be_copy ex_dev_unit 0 ex_vblk ex_vblk2 (\<lambda>a. unat (l_sectr a)) = Some (Inr (2 * 6144 * 4096), w')"
    "w' (set_l_sectr (of_nat 100) (vblk_blks ex_vblk2 ! 1)) = unat (l_sectr (set_l_sectr (of_nat 100) (vblk_blks ex_vblk ! 1)))"
    unfolding e(6) id_apply by blast
  then show ?thesis by (simp add: bitfield_simps)
qed

section \<open>The addresses of asynchronous requests\<close>

lemma io_stripe_addr_eq:
  assumes wf: "vblk_wf v" and u: "0 < u" and lt: "(k0 + k + 1) * u \<le> 2 ^ 32" and i: "i < u"
  shows "io_stripe_addr v (of_nat u) ((of_nat (k0 * u) div of_nat u) mod word_of_int (vblk_nblks v)) (of_nat k) i =
    Inr (set_l_sectr (of_nat (k div nblks_of v * u + i)) (vblk_blks v ! ((k0 + k) mod nblks_of v)))"
proof -
  let ?n = "nblks_of v"
  have n: "0 < ?n" "?n \<le> 128" using wf by (auto simp: vblk_wf_def)
  have "(k0 + k + 1) * 1 \<le> (k0 + k + 1) * u" "1 * u \<le> (k0 + k + 1) * u" using u by (intro mult_le_mono; simp)+
  then have b: "k0 + k < 2 ^ 64" "u < 2 ^ 64" "k0 * u < 2 ^ 64" "?n < 2 ^ 64" using lt n(2) by (simp_all add: algebra_simps)
  have w: "(of_nat (k0 * u) div of_nat u :: u64) = of_nat k0" using word_div_mod_of_nat(1) [OF b(3,2)] u by simp
  have kn: "(of_nat k0 mod of_nat ?n :: u64) = of_nat (k0 mod ?n)" "(of_nat k div of_nat ?n :: u64) = of_nat (k div ?n)"
    using word_div_mod_of_nat [of k0 ?n] word_div_mod_of_nat [of k ?n] b by simp_all
  have "k0 mod ?n + k < 2 ^ 64" using b(1) by (meson add_mono le_less_trans mod_less_eq_dividend order_refl)
  then have "(of_nat (k0 mod ?n) + of_nat k :: u64) mod of_nat ?n = of_nat ((k0 mod ?n + k) mod ?n)"
    using word_div_mod_of_nat(2) [of "k0 mod ?n + k" ?n] b(4) by simp
  then have c: "(of_nat (k0 mod ?n) + of_nat k :: u64) mod of_nat ?n = of_nat ((k0 + k) mod ?n)" by (simp add: mod_add_left_eq)
  have "(k0 + k) mod ?n < ?n" using n(1) by simp
  then have "uint (of_nat ((k0 + k) mod ?n) :: u64) = int ((k0 + k) mod ?n)"
    using n(2) unat_u64 [of "(k0 + k) mod ?n"] by (metis int_eq_iff of_nat_unat b(4) less_trans)
  then show ?thesis
    unfolding io_stripe_addr_def Let_def w nblks_word [OF wf] kn c
    using blk_at_of_nat [OF wf \<open>(k0 + k) mod ?n < ?n\<close>] by simp
qed

text \<open>
  The address formula of the asynchronous requests: the \<open>i\<close>-th sector of the \<open>k\<close>-th stripe of a request that
  starts at write unit \<open>k0\<close> is the sector that the synchronous request addresses if and only if \<open>k0 + k\<close> and
  \<open>k\<close> are in the same round over the chunks. From the start of the block (\<open>k0 = 0\<close>) the two always agree; a
  request that starts in a later round is sent to an earlier one.
\<close>

theorem vblk_async_addr_agrees:
  assumes "vblk_wf v" "0 < u" "(k0 + k + 1) * u \<le> 2 ^ 32" "i < u"
  shows "io_stripe_addr v (of_nat u) ((of_nat (k0 * u) div of_nat u) mod word_of_int (vblk_nblks v)) (of_nat k) i
      = stripe_addr v (of_nat u) (of_nat ((k0 + k) * u + i))
    \<longleftrightarrow> (k0 + k) div nblks_of v = k div nblks_of v"
proof -
  let ?n = "nblks_of v" and ?s = "(k0 + k) * u + i"
  have "1 * u \<le> (k0 + k + 1) * u" by (intro mult_le_mono) simp_all
  then have b: "u < 2 ^ 64" "?s < 2 ^ 32" using assms(3,4) by (simp_all add: algebra_simps)
  have "?s < 2 ^ 64" using b(2) by simp
  note st = stripe_addr_eq [OF assms(1,2) b(1) this]
  have pl: "sector_addr v u ?s = set_l_sectr (of_nat ((k0 + k) div ?n * u + i)) (vblk_blks v ! ((k0 + k) mod ?n))"
    using assms(4) by (simp add: sector_addr_def stripe_place_def Let_def add.commute)
  have x: "q div ?n * u + i < 2 ^ 32" if "q \<le> k0 + k" for q
  proof -
    have "q div ?n * u \<le> (k0 + k) * u" using that by (intro mult_le_mono1) (meson div_le_dividend order_trans)
    then show ?thesis using b(2) by linarith
  qed
  have eq: "set_l_sectr (of_nat x) a = set_l_sectr (of_nat y) a \<longleftrightarrow> x = y" if "x < 2 ^ 32" "y < 2 ^ 32" for x y a
  proof
    assume "set_l_sectr (of_nat x) a = set_l_sectr (of_nat y) a"
    then have "(take_bit 32 (of_nat x) :: u64) = take_bit 32 (of_nat y)" by (rule set_l_sectr_eq(1))
    moreover have "unat (of_nat z :: u64) = z \<and> take_bit 32 (of_nat z :: u64) = of_nat z" if "z < 2 ^ 32" for z
      using that by (simp add: unat_u64 take_bit_id)
    ultimately show "x = y" using that by metis
  qed simp
  show ?thesis
    unfolding st io_stripe_addr_eq [OF assms] pl sum.inject eq [OF x x, OF le_add2 order_refl]
    using assms(2) by auto
qed

theorem vblk_async_addr_agrees_witness:
  "io_stripe_addr ex_vblk 8 ((of_nat (2 * 8) div 8) mod word_of_int (vblk_nblks ex_vblk)) (of_nat 0) 3 \<noteq> stripe_addr ex_vblk 8 (of_nat ((2 + 0) * 8 + 3))"
  using vblk_async_addr_agrees [OF ex_unit_facts(4), of 8 2 0 3] by (simp add: ex_unit_facts(8))

section \<open>The positions of a virtual block, version 1.2\<close>

text \<open>A request that succeeds lies inside the block.\<close>

lemma s12_request_inside:
  assumes "vblk_pwrite_s12 sys be dev ret v buf count offset w = Some (Inr n, w') \<or>
    vblk_pread_s12 be dev ret v buf count offset w = Some (Inr n, w')"
  shows "n = sint count" "offset + count \<le> vblk_nbytes v"
  using assms
  by (auto simp: vblk_pwrite_s12_def vblk_pread_s12_def lbind_Inr lret_Some andThen_Inr io_done_Inr Let_def fail_def not_less
      split: prod.splits if_splits)

text \<open>
  The operations of a virtual block, each on every branch: a failing one leaves what it leaves.
\<close>

inductive vblk_step :: "'w sys \<Rightarrow> 'w nvm_be \<Rightarrow> nvm_dev \<Rightarrow> nvm_vblk \<times> 'w \<Rightarrow> nvm_vblk \<times> 'w \<Rightarrow> bool" for sys be dev where
  vwrite: "nvm_vblk_write sys be dev ret buf count s = Some (r, s') \<Longrightarrow> vblk_step sys be dev s s'"
| vpad: "nvm_vblk_pad sys be dev ret s = Some (r, s') \<Longrightarrow> vblk_step sys be dev s s'"
| vread: "nvm_vblk_read sys be dev ret buf count s = Some (r, s') \<Longrightarrow> vblk_step sys be dev s s'"
| pwrite: "nvm_vblk_pwrite sys be dev ret buf count offset s = Some (r, s') \<Longrightarrow> vblk_step sys be dev s s'"
| pread: "nvm_vblk_pread sys be dev ret buf count offset s = Some (r, s') \<Longrightarrow> vblk_step sys be dev s s'"
| erase: "nvm_vblk_erase be dev ret v w = Some (Inr (n, v'), w') \<Longrightarrow> vblk_step sys be dev (v, w) (v', w')"
| erase_fails: "nvm_vblk_erase be dev ret v w = Some (Inl e, w') \<Longrightarrow> vblk_step sys be dev (v, w) (v, w')"
| set_pos_read: "nvm_vblk_set_pos_read pos v = Inr v' \<Longrightarrow> vblk_step sys be dev (v, w) (v', w)"
| set_pos_write: "nvm_vblk_set_pos_write pos v = Inr v' \<Longrightarrow> vblk_step sys be dev (v, w) (v', w)"
| set_scalar: "vblk_step sys be dev (v, w) (nvm_vblk_set_scalar v, w)"
| set_async: "nvm_vblk_set_async sys be dev depth s = (r, s') \<Longrightarrow> vblk_step sys be dev s s'"

text \<open>Both positions are inside the block or at its end, and the block is the one that was allocated.\<close>

definition pos_inv :: "nvm_vblk \<Rightarrow> nvm_vblk \<Rightarrow> bool" where
  "pos_inv v0 v \<longleftrightarrow> vblk_pos_write v \<le> vblk_nbytes v \<and> vblk_pos_read v \<le> vblk_nbytes v
     \<and> vblk_nbytes v = vblk_nbytes v0 \<and> vblk_blks v = vblk_blks v0 \<and> vblk_nblks v = vblk_nblks v0"

lemma reading_vblk_Some:
  "reading_vblk m (v, w) = Some (r, s') \<longleftrightarrow> (\<exists>w'. m v w = Some (r, w') \<and> s' = (v, w'))"
  by (auto simp: reading_vblk_def split: option.splits)

lemma pwrite_s12_step:
  assumes "dev_verid dev = NVM_SPEC_VERID_12" "nvm_vblk_pwrite sys be dev ret buf count offset (v, w) = Some (r, s')"
  shows "fst s' = v" "r = Inr n \<Longrightarrow> n = sint count \<and> offset + count \<le> vblk_nbytes v"
  using assms s12_request_inside [of sys be dev ret v buf count offset w] by (auto simp: nvm_vblk_pwrite_def reading_vblk_Some)

lemma pread_s12_step:
  assumes "dev_verid dev = NVM_SPEC_VERID_12" "nvm_vblk_pread sys be dev ret buf count offset (v, w) = Some (r, s')"
  shows "fst s' = v" "r = Inr n \<Longrightarrow> n = sint count \<and> offset + count \<le> vblk_nbytes v"
  using assms s12_request_inside [of sys be dev ret v buf count offset w] by (auto simp: nvm_vblk_pread_def reading_vblk_Some)

lemma write_s12_step:
  assumes "dev_verid dev = NVM_SPEC_VERID_12" "nvm_vblk_write sys be dev ret buf count (v, w) = Some (r, s')"
  shows "fst s' = v \<or> fst s' = v\<lparr>vblk_pos_write := vblk_pos_write v + count\<rparr> \<and> vblk_pos_write v + count \<le> vblk_nbytes v"
  using assms(2) pwrite_s12_step [OF assms(1)]
  by (fastforce simp: nvm_vblk_write_def lbind_def split: option.splits prod.splits sum.splits if_splits)

lemma read_s12_step:
  assumes "dev_verid dev = NVM_SPEC_VERID_12" "nvm_vblk_read sys be dev ret buf count (v, w) = Some (r, s')"
  shows "fst s' = v \<or> fst s' = v\<lparr>vblk_pos_read := vblk_pos_read v + count\<rparr> \<and> vblk_pos_read v + count \<le> vblk_nbytes v"
  using assms(2) pread_s12_step [OF assms(1)]
  by (fastforce simp: nvm_vblk_read_def lbind_def split: option.splits prod.splits sum.splits if_splits)

lemma erase_keeps:
  "nvm_vblk_erase be dev ret v w = Some (Inr (n, v'), w') \<Longrightarrow> v' = vblk_reset v"
  by (auto simp: nvm_vblk_erase_def vblk_erase_s12_def vblk_erase_s20_def lbind_Inr lret_Some erase_done_def ok_def fail_def Let_def
      split: if_splits)

lemma set_async_keeps:
  assumes "nvm_vblk_set_async sys be dev depth (v, w) = (r, s')"
  shows "vblk_pos_write (fst s') = vblk_pos_write v" "vblk_pos_read (fst s') = vblk_pos_read v" "vblk_nbytes (fst s') = vblk_nbytes v"
    "vblk_blks (fst s') = vblk_blks v" "vblk_nblks (fst s') = vblk_nblks v"
  using assms by (auto simp: nvm_vblk_set_async_def Let_def split: option.splits prod.splits sum.splits)

lemma pos_inv_step:
  assumes "dev_verid dev = NVM_SPEC_VERID_12" "vblk_step sys be dev s s'" "pos_inv v0 (fst s)"
  shows "pos_inv v0 (fst s')"
  using assms(2)
proof cases
  case (vwrite ret buf count r)
  then show ?thesis using write_s12_step [OF assms(1), of sys be ret buf count "fst s" "snd s" r s'] assms(3) by (auto simp: pos_inv_def)
next
  case (vpad ret r)
  then show ?thesis
    using write_s12_step [OF assms(1), of sys be ret 0 "vblk_nbytes (fst s) - vblk_pos_write (fst s)" "fst s" "snd s" r s'] assms(3)
    by (auto simp: pos_inv_def nvm_vblk_pad_def)
next
  case (vread ret buf count r)
  then show ?thesis using read_s12_step [OF assms(1), of sys be ret buf count "fst s" "snd s" r s'] assms(3) by (auto simp: pos_inv_def)
next
  case (pwrite ret buf count offset r)
  then show ?thesis using pwrite_s12_step(1) [OF assms(1), of sys be ret buf count offset "fst s" "snd s" r s'] assms(3) by simp
next
  case (pread ret buf count offset r)
  then show ?thesis using pread_s12_step(1) [OF assms(1), of sys be ret buf count offset "fst s" "snd s" r s'] assms(3) by simp
next
  case (erase ret v w n v' w')
  then show ?thesis using erase_keeps assms(3) by (fastforce simp: pos_inv_def vblk_reset_def)
next
  case (set_async depth r)
  then show ?thesis using set_async_keeps [of sys be dev depth "fst s" "snd s" r s'] assms(3) by (auto simp: pos_inv_def)
qed (use assms(3) in \<open>auto simp: pos_inv_def nvm_vblk_set_pos_read_def nvm_vblk_set_pos_write_def nvm_vblk_set_scalar_def split: if_splits\<close>)

text \<open>
  On a 1.2 device the positions never leave the virtual block: after any sequence of writes,
  reads, pads, erases and changes of position or mode, successful or not, starting from a new block, both
  positions are at most \<open>nbytes\<close>, whatever sizes the calls were given, also such that \<open>offset + count\<close>
  wraps, and the block still has its chunks and its size.
\<close>

theorem vblk_s12_positions:
  assumes "dev_verid dev = NVM_SPEC_VERID_12" "(vblk_step sys be dev)\<^sup>*\<^sup>* (v0, w0) (v, w)"
    and "vblk_pos_write v0 = 0" "vblk_pos_read v0 = 0"
  shows "vblk_pos_write v \<le> vblk_nbytes v \<and> vblk_pos_read v \<le> vblk_nbytes v
    \<and> vblk_nbytes v = vblk_nbytes v0 \<and> vblk_blks v = vblk_blks v0 \<and> vblk_nblks v = vblk_nblks v0"
proof -
  have "pos_inv v0 (fst s)" if "(vblk_step sys be dev)\<^sup>*\<^sup>* (v0, w0) s" for s
    using that by (induction rule: rtranclp_induct) (use assms(3,4) in \<open>auto simp: pos_inv_def [of v0 v0] intro: pos_inv_step [OF assms(1)]\<close>)
  from this [OF assms(2)] show ?thesis unfolding pos_inv_def fst_conv .
qed

theorem vblk_s12_positions_witness:
  "vblk_pos_write (ex_vblk\<lparr>vblk_pos_write := 2 * 6144 * 4096\<rparr>) \<le> vblk_nbytes (ex_vblk\<lparr>vblk_pos_write := 2 * 6144 * 4096\<rparr>)"
proof -
  let ?w = "(\<lambda>_ _. 7, \<lambda>_. 0) :: nvm_addr media"
  have e: "dev_verid ex_dev_s12 = NVM_SPEC_VERID_12" "vblk_pos_write ex_vblk = 0" "vblk_pos_read ex_vblk = 0"
    by (simp_all add: ex_dev_s12_def ex_vblk_def vblk_zero_def)
  have "vblk_step ex_sys_media ex_be_media ex_dev_s12 (ex_vblk, ?w) (ex_vblk\<lparr>vblk_pos_write := 2 * 6144 * 4096\<rparr>, ?w)"
    by (rule vblk_step.set_pos_write [where pos = "2 * 6144 * 4096"]) (simp add: nvm_vblk_set_pos_write_def ex_vblk_def)
  from vblk_s12_positions [OF e(1) r_into_rtranclp [where r = "vblk_step ex_sys_media ex_be_media ex_dev_s12", OF this] e(2,3)] show ?thesis by (rule conjunct1)
qed

end
