(* ===== verification/Nvm_Ioctl.thy ===== *)
theory Nvm_Ioctl
  imports Nvm_Cmd
begin

text \<open>
  The backend \<open>NVM_BE_IOCTL\<close>, \<open>src/nvm_be_ioctl.c\<close>: commands are built in one of the views of
  \<open>struct nvm_cmd\<close> (\<open>include/nvm_be_ioctl.h\<close>) and given to the kernel with \<open>ioctl\<close>. The kernel is the
  record \<open>kern\<close>.
\<close>

section \<open>Commands\<close>

text \<open>The member \<open>ppa_list\<close>: one address, or a pointer to a list of them.\<close>

datatype ppa_list = PpaOne u64 | PpaList "u64 list"

record nvm_cmd_vuser =
  vu_opcode :: u8
  vu_control :: u16
  vu_nppas :: u16
  vu_metadata :: u64
  vu_addr :: u64
  vu_ppa_list :: ppa_list
  vu_metadata_len :: u32
  vu_data_len :: u32

record nvm_cmd_vadmin =
  va_opcode :: u8
  va_addr :: u64
  va_data_len :: u32
  va_ppa_list :: ppa_list
  va_nppas :: u16
  va_control :: u16

text \<open>The views \<open>admin\<close> and \<open>passthru\<close> have the same members at the same places.\<close>

record nvm_cmd_admin =
  ad_opcode :: u8
  ad_nsid :: u32
  ad_metadata :: u64
  ad_addr :: u64
  ad_metadata_len :: u32
  ad_data_len :: u32
  ad_cdw10 :: u32
  ad_cdw11 :: u32
  ad_cdw12 :: u32
  ad_cdw13 :: u32

record nvm_cmd_user =
  us_opcode :: u8
  us_nblocks :: u16
  us_metadata :: u64
  us_addr :: u64
  us_slba :: u64

definition vuser_zero :: nvm_cmd_vuser where
  "vuser_zero = \<lparr>vu_opcode = 0, vu_control = 0, vu_nppas = 0, vu_metadata = 0, vu_addr = 0, vu_ppa_list = PpaOne 0,
     vu_metadata_len = 0, vu_data_len = 0\<rparr>"

definition vadmin_zero :: nvm_cmd_vadmin where
  "vadmin_zero = \<lparr>va_opcode = 0, va_addr = 0, va_data_len = 0, va_ppa_list = PpaOne 0, va_nppas = 0, va_control = 0\<rparr>"

definition admin_zero :: nvm_cmd_admin where
  "admin_zero = \<lparr>ad_opcode = 0, ad_nsid = 0, ad_metadata = 0, ad_addr = 0, ad_metadata_len = 0, ad_data_len = 0,
     ad_cdw10 = 0, ad_cdw11 = 0, ad_cdw12 = 0, ad_cdw13 = 0\<rparr>"

text \<open>
  The requests of the \<open>ioctl\<close> calls. A request to erase carries the ranges its buffer holds. The answer
  is the return value, \<open>errno\<close>, and the members \<open>status\<close> and \<open>result\<close> the kernel stores in the command.
\<close>

datatype ioctl_req =
    SubmitVio nvm_cmd_vuser
  | AdminVio nvm_cmd_vadmin
  | AdminCmd nvm_cmd_admin
  | IoCmd nvm_cmd_admin "nvm_nvme_dsm_range list"
  | SubmitIo nvm_cmd_user
  | Discard u64 u64
  | IoctlId

record ioctl_ret =
  ir_err :: int
  ir_errno :: errno
  ir_status :: u64
  ir_result :: u32

text \<open>
  The kernel, and the memory of the process as far as the kernel fills it: \<open>k_ret_vio\<close> and \<open>k_ret_status\<close>
  assign to a \<open>struct nvm_ret\<close>, the fields \<open>at\<close> read the structure at an address.
\<close>

record 'w kern =
  k_ioctl :: "int \<Rightarrow> ioctl_req \<Rightarrow> 'w \<Rightarrow> ioctl_ret \<times> 'w"
  k_open :: "string \<Rightarrow> bool \<Rightarrow> ('w, int) op"
  k_is_blk :: "int \<Rightarrow> ('w, bool) op"
  k_close :: "int \<Rightarrow> 'w \<Rightarrow> 'w"
  k_pread :: "int \<Rightarrow> ptr \<Rightarrow> u64 \<Rightarrow> u64 \<Rightarrow> ('w, int) op"
  k_pwrite :: "int \<Rightarrow> ptr \<Rightarrow> u64 \<Rightarrow> u64 \<Rightarrow> ('w, int) op"
  k_ret_vio :: "ptr \<Rightarrow> u64 \<Rightarrow> u16 \<Rightarrow> 'w \<Rightarrow> 'w"
  k_ret_status :: "ptr \<Rightarrow> u16 \<Rightarrow> 'w \<Rightarrow> 'w"
  k_idfy_at :: "ptr \<Rightarrow> 'w \<Rightarrow> nvm_spec_idfy"
  k_ns_at :: "ptr \<Rightarrow> 'w \<Rightarrow> nvm_nvme_ns"
  k_bbt_at :: "ptr \<Rightarrow> nat \<Rightarrow> 'w \<Rightarrow> nvm_spec_bbt"
  k_descr_at :: "ptr \<Rightarrow> 'w \<Rightarrow> nvm_spec_rprt_descr"

section \<open>Submission\<close>

text \<open>A positive return value is a status of the device and leaves \<open>errno\<close>.\<close>

definition ioctl_failure :: "ioctl_ret \<Rightarrow> failure" where
  "ioctl_failure r = Errno (if ir_err r < 0 then ir_errno r else EKEEP)"

definition vio_done :: "'w kern \<Rightarrow> ptr \<Rightarrow> ioctl_ret \<times> 'w \<Rightarrow> (unit res \<times> u32) \<times> 'w" where
  "vio_done k ret = (\<lambda>(r, w).
     let w = (if ret \<noteq> NULL then k_ret_vio k ret (ir_status r) (ucast (ir_result r)) w else w) in
     ((if ir_err r \<noteq> 0 then Inl (ioctl_failure r) else if ir_result r \<noteq> 0 then Inl (Errno EIO) else Inr (), ir_result r), w))"

definition ioctl_vio :: "'w kern \<Rightarrow> nvm_dev \<Rightarrow> nvm_cmd_vuser \<Rightarrow> ptr \<Rightarrow> 'w \<Rightarrow> (unit res \<times> u32) \<times> 'w" where
  "ioctl_vio k dev cmd ret w = vio_done k ret (k_ioctl k (dev_fd dev) (SubmitVio cmd) w)"

definition ioctl_vam :: "'w kern \<Rightarrow> nvm_dev \<Rightarrow> nvm_cmd_vadmin \<Rightarrow> ptr \<Rightarrow> ('w, unit) op" where
  "ioctl_vam k dev cmd ret w = (case vio_done k ret (k_ioctl k (dev_fd dev) (AdminVio cmd) w) of ((r, _), w') \<Rightarrow> (r, w'))"

definition ioctl_wrap :: "'w kern \<Rightarrow> nvm_dev \<Rightarrow> ioctl_req \<Rightarrow> ptr \<Rightarrow> ('w, u32) op" where
  "ioctl_wrap k dev req ret w =
     (case k_ioctl k (dev_fd dev) req w of (r, w') \<Rightarrow>
        if ir_err r = 0 then (Inr (ir_result r), w')
        else if ret = NULL then (Inl (ioctl_failure r), w')
        else let err = (if ir_err r = -1 \<and> ir_errno r = EINVAL then 2 else ir_err r) in
          (Inl (ioctl_failure r), if err > 0 then k_ret_status k ret (word_of_int err) w' else w'))"

section \<open>Administration\<close>

definition buf_or_nomem :: "('w, ptr \<times> u64) op \<Rightarrow> ('w, ptr) op" where
  "buf_or_nomem m w = (case m w of (Inr (p, _), w') \<Rightarrow> (Inr p, w') | (Inl (Errno _), w') \<Rightarrow> (Inl (Errno ENOMEM), w')
     | (Inl (Fault f), w') \<Rightarrow> (Inl (Fault f), w'))"

definition clear_buf :: "'w sys \<Rightarrow> ptr \<Rightarrow> u64 \<Rightarrow> ('w, unit) op" where
  "clear_buf sys p n = upd (sys_store sys p (replicate (unat n) 0))"

definition nvm_be_ioctl_idfy :: "'w sys \<Rightarrow> 'w kern \<Rightarrow> nvm_dev \<Rightarrow> ptr \<Rightarrow> ('w, ptr \<times> nvm_spec_idfy) op" where
  "nvm_be_ioctl_idfy sys k dev ret =
     andThen (buf_or_nomem (nvm_buf_alloc sys dev 4096 0)) (\<lambda>p.
     andThen (clear_buf sys p 4096) (\<lambda>_.
     andThen (on_error (ioctl_vam k dev (vadmin_zero\<lparr>va_opcode := NVM_AOPC_IDFY, va_addr := p, va_data_len := 4096\<rparr>) ret)
       (nvm_buf_free sys dev p)) (\<lambda>_ w. (Inr (p, k_idfy_at k p w), w))))"

definition nvm_be_ioctl_gfeat :: "'w kern \<Rightarrow> nvm_dev \<Rightarrow> u8 \<Rightarrow> ptr \<Rightarrow> ('w, u32) op" where
  "nvm_be_ioctl_gfeat k dev fid ret =
     ioctl_wrap k dev (AdminCmd (admin_zero\<lparr>ad_opcode := NVM_AOPC_GFEAT, ad_nsid := word_of_int (dev_nsid dev), ad_cdw10 := ucast fid\<rparr>)) ret"

definition nvm_be_ioctl_sfeat :: "'w kern \<Rightarrow> nvm_dev \<Rightarrow> u8 \<Rightarrow> u32 \<Rightarrow> ptr \<Rightarrow> ('w, unit) op" where
  "nvm_be_ioctl_sfeat k dev fid feat ret =
     andThen (ioctl_wrap k dev (AdminCmd (admin_zero\<lparr>ad_opcode := NVM_AOPC_SFEAT, ad_nsid := word_of_int (dev_nsid dev),
       ad_cdw10 := ucast fid, ad_cdw11 := feat\<rparr>)) ret) (\<lambda>_. ok ())"

text \<open>
  The report is read in pieces of at most 512 descriptors. The descriptors start 8 bytes into the
  structure; the length of the buffer counts 4.
\<close>

definition rprt_cmd :: "nvm_dev \<Rightarrow> ptr \<Rightarrow> u64 \<Rightarrow> u64 \<Rightarrow> u32 \<Rightarrow> nvm_cmd_admin" where
  "rprt_cmd dev rprt lpo_off ndescr i =
     (let data_len = NVM_MIN 512 (ndescr - ucast i) * sizeof_rprt_descr; numd = ucast (drop_bit 2 data_len) - 1 :: u32;
        numdu = ucast (drop_bit 16 numd) :: u16; numdl = ucast (numd AND 0xFFFF) :: u16;
        lpo = lpo_off + ucast i * sizeof_rprt_descr in
      admin_zero\<lparr>ad_opcode := NVM_AOPC_RPRT, ad_nsid := word_of_int (dev_nsid dev),
        ad_addr := rprt + 8 + ucast i * sizeof_rprt_descr, ad_data_len := ucast data_len,
        ad_cdw10 := 0xCA OR push_bit 16 (ucast numdl), ad_cdw11 := ucast numdu,
        ad_cdw12 := ucast lpo, ad_cdw13 := ucast (drop_bit 32 lpo)\<rparr>)"

definition rprt_ndescrs :: "nvm_dev \<Rightarrow> nvm_addr option \<Rightarrow> u64" where
  "rprt_ndescrs dev addr = (let geo = dev_geo dev in
     case addr of Some _ \<Rightarrow> l_nchunk geo | None \<Rightarrow> l_nchunk geo * l_npunit geo * l_npugrp geo)"

definition rprt_buf_len :: "u64 \<Rightarrow> u64" where
  "rprt_buf_len ndescr = ndescr * sizeof_rprt_descr + 4"

definition nvm_be_ioctl_rprt ::
  "'w sys \<Rightarrow> 'w kern \<Rightarrow> nvm_dev \<Rightarrow> nvm_addr option \<Rightarrow> int \<Rightarrow> ptr \<Rightarrow> ('w, ptr \<times> nvm_spec_rprt) lop" where
  "nvm_be_ioctl_rprt sys k dev addr opt ret =
     (if dev_verid dev \<noteq> NVM_SPEC_VERID_20 then lret (fail (Errno EINVAL))
      else let lpo_off = (case addr of Some a \<Rightarrow> nvm_addr_gen2lpo dev a | None \<Rightarrow> 0); ndescr = rprt_ndescrs dev addr in
        lbind (lret (buf_or_nomem (nvm_buf_alloc sys dev (rprt_buf_len ndescr) 0))) (\<lambda>p.
        lbind (lret (clear_buf sys p (rprt_buf_len ndescr))) (\<lambda>_.
        lbind (for_op (\<lambda>i. ucast i < ndescr) (\<lambda>i. i + 512 :: u32) (\<lambda>i _.
            andThen (on_error (ioctl_wrap k dev (AdminCmd (rprt_cmd dev p lpo_off ndescr i)) ret) (nvm_buf_free sys dev p)) (\<lambda>_. ok ())) 0 ())
          (\<lambda>_ w. Some (Inr (p, \<lparr>rprt_ndescr = ucast ndescr,
            rprt_descr = map (\<lambda>j. k_descr_at k (p + 8 + of_nat j * sizeof_rprt_descr) w) [0..<unat ndescr]\<rparr>), w)))))"

definition nvm_be_ioctl_gbbt :: "'w sys \<Rightarrow> 'w kern \<Rightarrow> nvm_dev \<Rightarrow> nvm_addr \<Rightarrow> ptr \<Rightarrow> ('w, ptr \<times> nvm_spec_bbt) op" where
  "nvm_be_ioctl_gbbt sys k dev addr ret =
     (let nblks = ucast (nblocks (dev_geo dev) * nplanes (dev_geo dev)) :: u32; sz = 64 + ucast nblks :: u64 in
      andThen (buf_or_nomem (nvm_buf_alloc sys dev sz 0)) (\<lambda>p w.
      case ioctl_vam k dev (vadmin_zero\<lparr>va_opcode := NVM_AOPC_GBBT, va_addr := p, va_data_len := ucast sz,
          va_ppa_list := PpaOne (nvm_addr_gen2dev dev addr)\<rparr>) ret w of
        (Inl (Fault f), w') \<Rightarrow> (Inl (Fault f), w')
      | (r, w') \<Rightarrow>
          let bbt = k_bbt_at k p (unat nblks) w' in
          if r \<noteq> Inr () \<or> sbbt_tblks bbt \<noteq> nblks \<or> sbbt_tblid bbt \<noteq> [0x42, 0x42, 0x4C, 0x54]
          then andThen (nvm_buf_free sys dev p) (\<lambda>_. fail (Errno EIO)) w'
          else (Inr (p, bbt), w')))"

text \<open>The addresses of a command, in the format of the device. A negative length of the array is a fault.\<close>

definition dev_addrs :: "nvm_dev \<Rightarrow> nvm_addr list \<Rightarrow> int \<Rightarrow> bool \<Rightarrow> u64 list res" where
  "dev_addrs dev addrs naddrs check = map_res (\<lambda>i. if length addrs \<le> i then Inl (Fault OutOfBounds)
     else if check \<and> addr_check_fails (addrs ! i) dev then Inl (Errno EINVAL) else Inr (nvm_addr_gen2dev dev (addrs ! i))) [0..<nat naddrs]"

definition ppas :: "u64 list \<Rightarrow> ppa_list" where
  "ppas as = (case as of [a] \<Rightarrow> PpaOne a | _ \<Rightarrow> PpaList as)"

definition nvm_be_ioctl_sbbt :: "'w kern \<Rightarrow> nvm_dev \<Rightarrow> nvm_addr list \<Rightarrow> int \<Rightarrow> u16 \<Rightarrow> ptr \<Rightarrow> ('w, unit) op" where
  "nvm_be_ioctl_sbbt k dev addrs naddrs flags ret =
     (if naddrs < 0 then fail (Fault OutOfBounds)
      else if flags \<notin> {NVM_BBT_FREE, NVM_BBT_BAD, NVM_BBT_DMRK, NVM_BBT_GBAD, NVM_BBT_HMRK} then fail (Errno EINVAL)
      else if naddrs > NVM_NADDR_MAX then fail (Errno EINVAL)
      else andThen (lift_res (dev_addrs dev addrs naddrs True)) (\<lambda>as w.
        case ioctl_vam k dev (vadmin_zero\<lparr>va_opcode := NVM_AOPC_SBBT, va_control := flags, va_nppas := word_of_int (naddrs - 1),
            va_ppa_list := ppas as\<rparr>) ret w of
          (Inl (Errno _), w') \<Rightarrow> (Inl (Errno EIO), w')
        | r \<Rightarrow> r))"

section \<open>Scalar commands\<close>

definition nvm_be_ioctl_scalar_erase :: "'w sys \<Rightarrow> 'w kern \<Rightarrow> nvm_dev \<Rightarrow> nvm_addr list \<Rightarrow> int \<Rightarrow> u16 \<Rightarrow> ptr \<Rightarrow> ('w, unit) op" where
  "nvm_be_ioctl_scalar_erase sys k dev addrs naddrs flags ret =
     (if flags AND 0x20 \<noteq> 0 then fail (Errno EINVAL)
      else if naddrs = 0 \<or> naddrs > NVM_NADDR_MAX then fail (Errno EINVAL)
      else andThen (nvm_buf_alloc sys dev (16 * word_of_int naddrs) 0) (\<lambda>(p, _).
        andThen (lift_res (dev_addrs dev addrs naddrs False)) (\<lambda>as.
        let dsmr = map (\<lambda>a. \<lparr>dsmr_cattr = 0, dsmr_nlb = ucast (l_nsectr (dev_geo dev)), dsmr_slba = a\<rparr>) as;
          cmd = admin_zero\<lparr>ad_opcode := 0x09, ad_nsid := word_of_int (dev_nsid dev), ad_addr := p,
            ad_data_len := word_of_int naddrs * 16, ad_cdw10 := word_of_int (naddrs - 1), ad_cdw11 := 4\<rparr> in
        andThen (on_error (ioctl_wrap k dev (IoCmd cmd dsmr) ret) (nvm_buf_free sys dev p)) (\<lambda>_.
        nvm_buf_free sys dev p))))"

definition cmd_scalar_wr_dep_ioc :: "'w kern \<Rightarrow> nvm_dev \<Rightarrow> nvm_addr \<Rightarrow> int \<Rightarrow> ptr \<Rightarrow> ptr \<Rightarrow> u16 \<Rightarrow> ptr \<Rightarrow> ('w, unit) op" where
  "cmd_scalar_wr_dep_ioc k dev addr naddrs data meta opcode ret =
     andThen (ioctl_wrap k dev (SubmitIo \<lparr>us_opcode = ucast opcode, us_nblocks = word_of_int (naddrs - 1), us_metadata = meta,
       us_addr = data, us_slba = nvm_addr_gen2dev dev addr\<rparr>) ret) (\<lambda>_. ok ())"

definition cmd_scalar_wr ::
  "'w kern \<Rightarrow> nvm_dev \<Rightarrow> nvm_addr \<Rightarrow> int \<Rightarrow> ptr \<Rightarrow> ptr \<Rightarrow> u16 \<Rightarrow> u16 \<Rightarrow> ptr \<Rightarrow> ('w, unit) op" where
  "cmd_scalar_wr k dev addr naddrs data meta flags opcode ret =
     (if flags AND 0x20 \<noteq> 0 then fail (Errno EINVAL)
      else if meta \<noteq> NULL then cmd_scalar_wr_dep_ioc k dev addr naddrs data meta opcode ret
      else let slba = nvm_addr_gen2dev dev addr;
          cmd = admin_zero\<lparr>ad_opcode := ucast opcode, ad_nsid := word_of_int (dev_nsid dev), ad_metadata := meta, ad_addr := data,
            ad_metadata_len := 0, ad_data_len := ucast (sector_nbytes (dev_geo dev) * word_of_int naddrs),
            ad_cdw10 := ucast slba, ad_cdw11 := ucast (drop_bit 32 slba), ad_cdw12 := word_of_int (naddrs - 1)\<rparr> in
        andThen (ioctl_wrap k dev (IoCmd cmd []) ret) (\<lambda>_. ok ()))"

definition nvm_be_ioctl_scalar_write :: "'w kern \<Rightarrow> nvm_dev \<Rightarrow> nvm_addr \<Rightarrow> int \<Rightarrow> ptr \<Rightarrow> ptr \<Rightarrow> u16 \<Rightarrow> ptr \<Rightarrow> ('w, unit) op" where
  "nvm_be_ioctl_scalar_write k dev addr naddrs data meta flags ret =
     cmd_scalar_wr k dev addr naddrs data meta flags NVM_DOPC_SCALAR_WRITE ret"

definition nvm_be_ioctl_scalar_read :: "'w kern \<Rightarrow> nvm_dev \<Rightarrow> nvm_addr \<Rightarrow> int \<Rightarrow> ptr \<Rightarrow> ptr \<Rightarrow> u16 \<Rightarrow> ptr \<Rightarrow> ('w, unit) op" where
  "nvm_be_ioctl_scalar_read k dev addr naddrs data meta flags ret =
     cmd_scalar_wr k dev addr naddrs data meta flags NVM_DOPC_SCALAR_READ ret"

section \<open>Vector commands\<close>

definition vector_cmd :: "nvm_dev \<Rightarrow> u64 list \<Rightarrow> int \<Rightarrow> ptr \<Rightarrow> ptr \<Rightarrow> u16 \<Rightarrow> u16 \<Rightarrow> nvm_cmd_vuser" where
  "vector_cmd dev as naddrs data meta flags opcode =
     (let geo = dev_geo dev;
        cmd = vuser_zero\<lparr>vu_opcode := ucast opcode, vu_control := flags OR ucast NVM_FLAG_DEFAULT, vu_nppas := word_of_int (naddrs - 1),
          vu_ppa_list := ppas as, vu_addr := data,
          vu_data_len := (if data \<noteq> NULL then ucast (sector_nbytes geo * word_of_int naddrs) else 0), vu_metadata := meta,
          vu_metadata_len := (if meta \<noteq> NULL then ucast (meta_nbytes geo * word_of_int naddrs) else 0)\<rparr> in
      if opcode = NVM_DOPC_VECTOR_ERASE \<and> meta \<noteq> NULL then
        cmd\<lparr>vu_addr := dev_be_state dev, vu_data_len := ucast (l_nbytes geo), vu_metadata_len := sizeof_rprt_descr * word_of_int naddrs\<rparr>
      else cmd)"

definition cmd_vector_ewr ::
  "'w kern \<Rightarrow> nvm_dev \<Rightarrow> nvm_addr list \<Rightarrow> int \<Rightarrow> ptr \<Rightarrow> ptr \<Rightarrow> u16 \<Rightarrow> u16 \<Rightarrow> ptr \<Rightarrow> ('w, unit) op" where
  "cmd_vector_ewr k dev addrs naddrs data meta flags opcode ret =
     (if flags AND 0x20 \<noteq> 0 then fail (Errno EINVAL)
      else if naddrs < 0 then fail (Fault OutOfBounds)
      else if naddrs > NVM_NADDR_MAX then fail (Errno EINVAL)
      else andThen (lift_res (dev_addrs dev addrs naddrs False)) (\<lambda>as w.
        case ioctl_vio k dev (vector_cmd dev as naddrs data meta flags opcode) ret w of ((r, result), w') \<Rightarrow>
          (case r of Inr _ \<Rightarrow> (Inr (), w') | Inl e \<Rightarrow>
             if result = 0x700 \<or> result = 0x4700 then (Inr (), w') else (Inl e, w'))))"

definition nvm_be_ioctl_vector_erase :: "'w kern \<Rightarrow> nvm_dev \<Rightarrow> nvm_addr list \<Rightarrow> int \<Rightarrow> ptr \<Rightarrow> u16 \<Rightarrow> ptr \<Rightarrow> ('w, unit) op" where
  "nvm_be_ioctl_vector_erase k dev addrs naddrs meta flags ret =
     cmd_vector_ewr k dev addrs naddrs NULL meta flags NVM_DOPC_VECTOR_ERASE ret"

definition nvm_be_ioctl_vector_write :: "'w kern \<Rightarrow> nvm_dev \<Rightarrow> nvm_addr list \<Rightarrow> int \<Rightarrow> ptr \<Rightarrow> ptr \<Rightarrow> u16 \<Rightarrow> ptr \<Rightarrow> ('w, unit) op" where
  "nvm_be_ioctl_vector_write k dev addrs naddrs data meta flags ret =
     cmd_vector_ewr k dev addrs naddrs data meta flags NVM_DOPC_VECTOR_WRITE ret"

definition nvm_be_ioctl_vector_read :: "'w kern \<Rightarrow> nvm_dev \<Rightarrow> nvm_addr list \<Rightarrow> int \<Rightarrow> ptr \<Rightarrow> ptr \<Rightarrow> u16 \<Rightarrow> ptr \<Rightarrow> ('w, unit) op" where
  "nvm_be_ioctl_vector_read k dev addrs naddrs data meta flags ret =
     cmd_vector_ewr k dev addrs naddrs data meta flags NVM_DOPC_VECTOR_READ ret"

section \<open>Opening and closing\<close>

definition nvm_be_ioctl_close :: "'w sys \<Rightarrow> 'w kern \<Rightarrow> nvm_dev \<Rightarrow> ('w, unit) op" where
  "nvm_be_ioctl_close sys k dev = andThen (nvm_buf_free sys dev (dev_be_state dev)) (\<lambda>_. upd (k_close k (dev_fd dev)))"

text \<open>The table without \<open>open\<close>, which is what the initialisation of a device uses of it.\<close>

definition ioctl_ops :: "'w sys \<Rightarrow> 'w kern \<Rightarrow> 'w nvm_be" where
  "ioctl_ops sys k = (nvm_be_disabled NVM_BE_IOCTL ''NVM_BE_IOCTL'')\<lparr>
     be_close := nvm_be_ioctl_close sys k, be_idfy := nvm_be_ioctl_idfy sys k,
     be_rprt := (\<lambda>dev addr opt ret. returning (nvm_be_ioctl_rprt sys k dev addr opt ret)),
     be_gfeat := nvm_be_ioctl_gfeat k, be_sfeat := nvm_be_ioctl_sfeat k,
     be_sbbt := nvm_be_ioctl_sbbt k, be_gbbt := nvm_be_ioctl_gbbt sys k,
     be_scalar_erase := nvm_be_ioctl_scalar_erase sys k, be_scalar_write := nvm_be_ioctl_scalar_write k,
     be_scalar_read := nvm_be_ioctl_scalar_read k, be_vector_erase := nvm_be_ioctl_vector_erase k,
     be_vector_write := nvm_be_ioctl_vector_write k, be_vector_read := nvm_be_ioctl_vector_read k\<rparr>"

text \<open>\<open>sizeof(struct nvm_dev)\<close> and the offset of its member \<open>ns\<close>, as laid out on x86-64.\<close>

abbreviation (input) sizeof_dev :: u64 where "sizeof_dev \<equiv> 8592"
abbreviation (input) offsetof_ns :: u64 where "offsetof_ns \<equiv> 4184"

text \<open>
  The device is at the address \<open>p\<close>. The three failures after \<open>open\<close> that neither close the file nor
  free the device are as in the source.
\<close>

definition ioctl_identify :: "'w kern \<Rightarrow> ptr \<Rightarrow> nvm_dev \<Rightarrow> ('w, nvm_dev) op" where
  "ioctl_identify k p dev =
     andThen (k_is_blk k (dev_fd dev)) (\<lambda>blk.
     if \<not> blk then fail (Errno ENOTBLK)
     else (\<lambda>w. case k_ioctl k (dev_fd dev) IoctlId w of (r, w') \<Rightarrow>
       if ir_err r < 1 then (Inl (ioctl_failure r), w')
       else let dev = dev\<lparr>dev_nsid := ir_err r\<rparr>; nsp = p + offsetof_ns in
         andThen (ioctl_wrap k dev (AdminCmd (admin_zero\<lparr>ad_opcode := 0x06, ad_nsid := word_of_int (dev_nsid dev), ad_addr := nsp,
           ad_data_len := 0x1000\<rparr>)) NULL) (\<lambda>_ w. (Inr (dev\<lparr>dev_ns := k_ns_at k nsp w\<rparr>), w)) w'))"

definition ioctl_setup :: "'w sys \<Rightarrow> 'w kern \<Rightarrow> ptr \<Rightarrow> nvm_dev \<Rightarrow> ('w, nvm_dev) op" where
  "ioctl_setup sys k p dev =
     (let cleanup = andThen (upd (k_close k (dev_fd dev))) (\<lambda>_. upd (sys_free sys p)) in
      andThen (on_error (nvm_be_populate sys (ioctl_ops sys k) dev) cleanup) (\<lambda>dev.
      andThen (on_error (nvm_buf_alloc sys dev (l_nbytes (dev_geo dev)) 0) cleanup) (\<lambda>(q, _).
      ok (dev\<lparr>dev_be_state := q\<rparr>))))"

definition nvm_be_ioctl_open :: "'w sys \<Rightarrow> 'w kern \<Rightarrow> string \<Rightarrow> u32 \<Rightarrow> ('w, nvm_dev) op" where
  "nvm_be_ioctl_open sys k path flags =
     (if length path > 37 then fail (Errno EINVAL)
      else andThen (sys_calloc sys 1 sizeof_dev) (\<lambda>p.
        if length path < 5 then fail (Fault OutOfBounds)
        else let dev = dev_zero\<lparr>dev_path := path, dev_name := take 32 (drop 5 path)\<rparr> in
          andThen (on_error (k_open k path (flags = 1)) (upd (sys_free sys p))) (\<lambda>fd.
          andThen (ioctl_identify k p (dev\<lparr>dev_fd := fd\<rparr>)) (ioctl_setup sys k p))))"

definition nvm_be_ioctl :: "'w sys \<Rightarrow> 'w kern \<Rightarrow> 'w nvm_be" where
  "nvm_be_ioctl sys k = (ioctl_ops sys k)\<lparr>be_open := nvm_be_ioctl_open sys k\<rparr>"

section \<open>Reports\<close>

text \<open>A log page command as a device reads it: the number of bytes and the offset in the log.\<close>

definition log_bytes :: "nvm_cmd_admin \<Rightarrow> nat" where
  "log_bytes cmd = (unat (ad_cdw11 cmd AND 0xFFFF) * 2 ^ 16 + unat (drop_bit 16 (ad_cdw10 cmd)) + 1) * 4"

definition log_offset :: "nvm_cmd_admin \<Rightarrow> u64" where
  "log_offset cmd = push_bit 32 (ucast (ad_cdw13 cmd)) OR ucast (ad_cdw12 cmd)"

lemma cdw10_fields:
  fixes x :: u32
  assumes "unat x < 2 ^ 16"
  shows "drop_bit 16 (0xCA OR push_bit 16 x) = x" "(0xCA OR push_bit 16 x) AND 0xFF = 0xCA"
proof -
  have x: "take_bit 16 x = x" by (rule take_bit_id [OF assms])
  have "drop_bit 16 (0xCA OR push_bit 16 x) = take_bit 16 x"
    by (rule bit_word_eqI) (simp add: bit_simps drop_bit_or)
  then show "drop_bit 16 (0xCA OR push_bit 16 x) = x" by (simp add: x)
  have "push_bit 16 x AND (mask 8 :: u32) = 0" by (rule bit_word_eqI) (auto simp: bit_simps)
  then show "(0xCA OR push_bit 16 x) AND 0xFF = 0xCA" by (simp add: mask_eq_exp_minus_1 bit.conj_disj_distrib2)
qed

lemma log_offset_split: "push_bit 32 (ucast (ucast (drop_bit 32 x) :: u32)) OR ucast (ucast x :: u32) = x" for x :: u64
  by (rule bit_word_eqI) (auto simp: bit_simps)

lemma ucast_of_nat_u32: "n < 2 ^ 32 \<Longrightarrow> (ucast (of_nat n :: u32) :: u64) = of_nat n"
  by (simp add: unsigned_of_nat take_bit_nat_eq_self)

lemma numd_word:
  fixes l :: nat
  assumes "0 < l" "l \<le> 512"
  shows "(ucast (drop_bit 2 (of_nat l * 32 :: u64)) - 1 :: u32) = of_nat (l * 8 - 1)"
proof -
  have "l * 32 < 2 ^ 64" using assms(2) by simp
  then have "unat (of_nat (l * 32) :: u64) = l * 32" by (rule unat_u64)
  then have "unat (drop_bit 2 (of_nat l * 32 :: u64)) = l * 8"
    by (simp only: unat_drop_bit_eq) (simp add: drop_bit_eq_div)
  then have "drop_bit 2 (of_nat l * 32 :: u64) = of_nat (l * 8)" by (metis of_nat_unat ucast_id)
  moreover have "(ucast (of_nat (l * 8) :: u64) :: u32) = of_nat (l * 8)"
    using assms(2) by (simp add: unsigned_of_nat take_bit_nat_eq_self del: of_nat_mult)
  ultimately show ?thesis using assms(1) by (simp add: of_nat_diff)
qed

lemma low_word:
  fixes x :: u32
  assumes "unat x < 2 ^ 16"
  shows "(ucast (drop_bit 16 x) :: u16) = 0" "(ucast (ucast (x AND 0xFFFF) :: u16) :: u32) = x"
proof -
  have "unat (drop_bit 16 x) = 0" using assms by (simp only: unat_drop_bit_eq) (simp add: drop_bit_eq_div)
  then show "(ucast (drop_bit 16 x) :: u16) = 0" by (simp add: unat_eq_zero)
  have "(ucast (ucast (x AND mask 16) :: u16) :: u32) = take_bit 16 x" by (rule bit_word_eqI) (auto simp: bit_simps)
  then show "(ucast (ucast (x AND 0xFFFF) :: u16) :: u32) = x" by (simp add: take_bit_id [OF assms] mask_eq_exp_minus_1)
qed

lemma rprt_cmd_decode:
  fixes n j :: nat and dev :: nvm_dev and p lpo :: u64
  assumes "512 * j < n" "n < 2 ^ 31"
  defines "cmd \<equiv> rprt_cmd dev p lpo (of_nat n) (of_nat (512 * j))"
  shows "log_bytes cmd = min 512 (n - 512 * j) * 32" "log_offset cmd = lpo + of_nat (512 * j * 32)" "ad_cdw10 cmd AND 0xFF = 0xCA"
    "ad_opcode cmd = NVM_AOPC_RPRT" "ad_addr cmd = p + 8 + of_nat (512 * j * 32)"
proof -
  let ?l = "min 512 (n - 512 * j)"
  let ?numd = "of_nat (?l * 8 - 1) :: u32"
  have l: "0 < ?l" "?l \<le> 512" using assms(1) by simp_all
  have i: "(ucast (of_nat (512 * j) :: u32) :: u64) = of_nat (512 * j)" using assms(1,2) by (intro ucast_of_nat_u32) simp
  have "(of_nat n - of_nat (512 * j) :: u64) = of_nat (n - 512 * j)" using assms(1) by (simp add: of_nat_diff)
  moreover have "unat (of_nat (n - 512 * j) :: u64) = n - 512 * j" using assms(2) by (intro unat_u64) simp
  ultimately have m: "NVM_MIN 512 (of_nat n - of_nat (512 * j)) = (of_nat ?l :: u64)"
    using assms(2) by (subst NVM_MIN_small) (simp_all add: min_def word_le_nat_alt)
  have nd: "unat ?numd = ?l * 8 - 1" using l by (intro unat_of_nat_lt) simp
  then have hi: "(ucast (drop_bit 16 ?numd) :: u16) = 0" and lo: "(ucast (ucast (?numd AND 0xFFFF) :: u16) :: u32) = ?numd"
    using low_word [of ?numd] l by simp_all
  have c: "ad_cdw10 cmd = 0xCA OR push_bit 16 ?numd" "ad_cdw11 cmd = 0" "ad_cdw12 cmd = ucast (lpo + of_nat (512 * j) * 32)"
    "ad_cdw13 cmd = ucast (drop_bit 32 (lpo + of_nat (512 * j) * 32))" "ad_opcode cmd = NVM_AOPC_RPRT" "ad_addr cmd = p + 8 + of_nat (512 * j) * 32"
    unfolding cmd_def rprt_cmd_def Let_def i m numd_word [OF l] hi lo by simp_all
  show "log_offset cmd = lpo + of_nat (512 * j * 32)" unfolding log_offset_def c log_offset_split by simp
  show "ad_opcode cmd = NVM_AOPC_RPRT" by (rule c)
  show "ad_addr cmd = p + 8 + of_nat (512 * j * 32)" unfolding c by simp
  have "unat ?numd < 2 ^ 16" using nd l by simp
  note f = cdw10_fields [OF this]
  show "log_bytes cmd = min 512 (n - 512 * j) * 32" unfolding log_bytes_def c f nd using l(1) by simp
  show "ad_cdw10 cmd AND 0xFF = 0xCA" unfolding c f ..
qed

text \<open>
  What the backend relies on of the kernel and the device: a successful command for the chunk log stores
  the descriptors at the offset it asks for, one after the other, at the address it gives, and leaves the
  other descriptors of the buffer alone. \<open>chunk_log\<close> is the log of the device.
\<close>

definition log_laws :: "'w kern \<Rightarrow> nvm_dev \<Rightarrow> (nat \<Rightarrow> nvm_spec_rprt_descr) \<Rightarrow> bool" where
  "log_laws k dev chunk_log \<longleftrightarrow> (\<forall>cmd w r w'. k_ioctl k (dev_fd dev) (AdminCmd cmd) w = (r, w') \<longrightarrow> ir_err r = 0 \<longrightarrow>
     ad_opcode cmd = NVM_AOPC_RPRT \<longrightarrow> ad_cdw10 cmd AND 0xFF = 0xCA \<longrightarrow>
     (\<forall>t. t * 32 < log_bytes cmd \<longrightarrow> k_descr_at k (ad_addr cmd + of_nat (t * 32)) w' = chunk_log (unat (log_offset cmd) div 32 + t)) \<and>
     (\<forall>q. (\<forall>t. t * 32 < log_bytes cmd \<longrightarrow> q \<noteq> ad_addr cmd + of_nat (t * 32)) \<longrightarrow> 32 dvd unat (q - ad_addr cmd) \<longrightarrow> k_descr_at k q w' = k_descr_at k q w))"

lemma log_lawsD:
  assumes "log_laws k dev chunk_log" "k_ioctl k (dev_fd dev) (AdminCmd cmd) w = (r, w')" "ir_err r = 0"
    "ad_opcode cmd = NVM_AOPC_RPRT" "ad_cdw10 cmd AND 0xFF = 0xCA"
  shows "t * 32 < log_bytes cmd \<Longrightarrow> k_descr_at k (ad_addr cmd + of_nat (t * 32)) w' = chunk_log (unat (log_offset cmd) div 32 + t)"
    "(\<And>t. t * 32 < log_bytes cmd \<Longrightarrow> q \<noteq> ad_addr cmd + of_nat (t * 32)) \<Longrightarrow> 32 dvd unat (q - ad_addr cmd) \<Longrightarrow> k_descr_at k q w' = k_descr_at k q w"
  using assms unfolding log_laws_def by blast+

definition log_answers :: "'w kern \<Rightarrow> nvm_dev \<Rightarrow> bool" where
  "log_answers k dev \<longleftrightarrow> (\<forall>cmd w. ir_err (fst (k_ioctl k (dev_fd dev) (AdminCmd cmd) w)) = 0)"

lemma rprt_loop:
  fixes n :: nat
  assumes "n + 512 < 2 ^ 32"
  shows "for_op (\<lambda>i. ucast i < (of_nat n :: u64)) (\<lambda>i. i + 512 :: u32) body 0 s w =
    Some (fold_op (\<lambda>j. body (of_nat (512 * j))) [0..<(n + 511) div 512] s w)"
proof -
  let ?c = "(n + 511) div 512"
  have st: "((\<lambda>i. i + 512 :: u32) ^^ j) 0 = of_nat (512 * j)" for j using funpow_plus [where j = j and k = "512" and b = "0 :: u32"] by (simp add: mult.commute)
  have lt: "(ucast (of_nat (512 * j) :: u32) :: u64) < of_nat n \<longleftrightarrow> 512 * j < n" if "j \<le> ?c" for j
  proof -
    have "512 * j < 2 ^ 32" using that assms by simp
    then have "(ucast (of_nat (512 * j) :: u32) :: u64) = of_nat (512 * j)" "unat (of_nat (512 * j) :: u64) = 512 * j"
      by (simp_all only: ucast_of_nat_u32, intro unat_u64, simp)
    moreover have "unat (of_nat n :: u64) = n" using assms by (intro unat_u64) simp
    ultimately show ?thesis by (simp only: word_less_nat_alt)
  qed
  have in_: "512 * j < n" if "j < ?c" for j using that by linarith
  have out: "\<not> 512 * ?c < n" by linarith
  have "for_op (\<lambda>i. ucast i < (of_nat n :: u64)) (\<lambda>i. i + 512 :: u32) body 0 s w =
      Some (fold_op body (map (\<lambda>j. ((\<lambda>i. i + 512 :: u32) ^^ j) 0) [0..<?c]) s w)"
    by (rule for_op_steps; unfold st) (use lt in_ out in auto)
  then show ?thesis by (simp only: st) (simp add: fold_op_map)
qed

lemma fold_op_unit: "fold_op (\<lambda>j _. f j) is () = each_op f is"
  by (induction "is") (auto simp: fun_eq_iff andThen_def split: prod.splits sum.splits)

lemma multiple_diff: "32 dvd unat (of_nat (a * 32) - of_nat (b * 32) :: u64)"
proof -
  have "(of_nat (a * 32) - of_nat (b * 32) :: u64) = word_of_int ((int a - int b) * 32)" by (simp add: left_diff_distrib)
  moreover have "32 dvd uint (word_of_int ((int a - int b) * 32) :: u64)" unfolding uint_word_of_int by (simp add: dvd_mod)
  ultimately have "32 dvd uint (of_nat (a * 32) - of_nat (b * 32) :: u64)" by simp
  then have "int 32 dvd int (unat (of_nat (a * 32) - of_nat (b * 32) :: u64))" by simp
  then show ?thesis by (simp only: int_dvd_int_iff)
qed

definition rprt_piece :: "'w sys \<Rightarrow> 'w kern \<Rightarrow> nvm_dev \<Rightarrow> ptr \<Rightarrow> ptr \<Rightarrow> u64 \<Rightarrow> u64 \<Rightarrow> u32 \<Rightarrow> ('w, unit) op" where
  "rprt_piece sys k dev ret p lpo n i =
     andThen (on_error (ioctl_wrap k dev (AdminCmd (rprt_cmd dev p lpo n i)) ret) (nvm_buf_free sys dev p)) (\<lambda>_. ok ())"

lemma rprt_piece_Inr:
  "rprt_piece sys k dev ret p lpo n i w = (Inr (), w') \<Longrightarrow>
    \<exists>r. k_ioctl k (dev_fd dev) (AdminCmd (rprt_cmd dev p lpo n i)) w = (r, w') \<and> ir_err r = 0"
  by (auto simp: rprt_piece_def andThen_Inr on_error_Inr ok_def ioctl_wrap_def Let_def split: prod.splits if_splits)

lemma rprt_piece_answers:
  assumes "log_answers k dev"
  shows "\<exists>w'. rprt_piece sys k dev ret p lpo n i w = (Inr (), w')"
proof -
  obtain r w' where r: "k_ioctl k (dev_fd dev) (AdminCmd (rprt_cmd dev p lpo n i)) w = (r, w')" by fastforce
  then have "ir_err r = 0" using assms unfolding log_answers_def by (metis fst_conv)
  then show ?thesis using r by (simp add: rprt_piece_def andThen_def on_error_def ioctl_wrap_def ok_def)
qed

lemma pieces_read:
  fixes n idx :: nat
  assumes laws: "log_laws k dev chunk_log" and n: "n < 2 ^ 31" "unat p + 8 + n * 32 < 2 ^ 64" "(idx + n) * 32 < 2 ^ 64"
    and m: "512 * m < n + 512"
    and run: "each_op (\<lambda>j. rprt_piece sys k dev ret p (of_nat (idx * 32)) (of_nat n) (of_nat (512 * j))) [0..<m] w = (Inr (), w')"
  shows "\<forall>t < min (512 * m) n. k_descr_at k (p + 8 + of_nat (t * 32)) w' = chunk_log (idx + t)"
  using m run
proof (induction m arbitrary: w')
  case 0
  then show ?case by simp
next
  case (Suc m)
  let ?cmd = "rprt_cmd dev p (of_nat (idx * 32)) (of_nat n) (of_nat (512 * m))" and ?l = "min 512 (n - 512 * m)"
  from Suc.prems(2) obtain w1 where 1: "each_op (\<lambda>j. rprt_piece sys k dev ret p (of_nat (idx * 32)) (of_nat n) (of_nat (512 * j))) [0..<m] w = (Inr (), w1)"
    "rprt_piece sys k dev ret p (of_nat (idx * 32)) (of_nat n) (of_nat (512 * m)) w1 = (Inr (), w')" by (rule each_op_snoc)
  obtain r where r: "k_ioctl k (dev_fd dev) (AdminCmd ?cmd) w1 = (r, w')" "ir_err r = 0" using rprt_piece_Inr [OF 1(2)] by blast
  have mn: "512 * m < n" using Suc.prems(1) by simp
  note d = rprt_cmd_decode [OF mn n(1), of dev p "of_nat (idx * 32)"]
  have IH: "k_descr_at k (p + 8 + of_nat (t * 32)) w1 = chunk_log (idx + t)" if "t < 512 * m" for t
    using Suc.IH [OF _ 1(1)] mn that by simp
  have "unat (of_nat ((idx + 512 * m) * 32) :: u64) = (idx + 512 * m) * 32" using n(3) mn by (intro unat_u64) simp
  moreover have "log_offset ?cmd = of_nat ((idx + 512 * m) * 32)" unfolding d(2) by (simp add: algebra_simps)
  ultimately have off: "unat (log_offset ?cmd) div 32 = idx + 512 * m" by simp
  have new: "k_descr_at k (ad_addr ?cmd + of_nat (t * 32)) w' = chunk_log (idx + 512 * m + t)" if "t < ?l" for t
    using log_lawsD(1) [OF laws r d(4,3), of t, unfolded d(1) off] that by simp
  have old: "k_descr_at k q w' = k_descr_at k q w1"
    if "\<And>t. t < ?l \<Longrightarrow> q \<noteq> ad_addr ?cmd + of_nat (t * 32)" "32 dvd unat (q - ad_addr ?cmd)" for q
    using log_lawsD(2) [OF laws r d(4,3), of q, unfolded d(1)] that by simp
  show ?case
  proof (intro allI impI)
    fix t assume t: "t < min (512 * Suc m) n"
    show "k_descr_at k (p + 8 + of_nat (t * 32)) w' = chunk_log (idx + t)"
    proof (cases "t < 512 * m")
      case False
      then have a: "t - 512 * m < ?l" "512 * m + (t - 512 * m) = t" "idx + 512 * m + (t - 512 * m) = idx + t" using t by auto
      have "ad_addr ?cmd + of_nat ((t - 512 * m) * 32) = p + 8 + of_nat (t * 32)"
        using a(2) unfolding d(5) by (metis (no_types, lifting) add.assoc add_mult_distrib of_nat_add)
      from new [OF a(1), unfolded this a(3)] show ?thesis .
    next
      case True
      have ne: "p + 8 + of_nat (t * 32) \<noteq> ad_addr ?cmd + of_nat (t' * 32)" if "t' < ?l" for t'
      proof -
        have "t * 32 < 2 ^ 64" "(512 * m + t') * 32 < 2 ^ 64" "t \<noteq> 512 * m + t'" using that True mn n(1) by auto
        then have "(of_nat (t * 32) :: u64) \<noteq> of_nat ((512 * m + t') * 32)" by (metis unat_u64 mult_right_cancel zero_neq_numeral)
        then show ?thesis unfolding d(5) by (metis (no_types, lifting) add.assoc add_left_cancel add_mult_distrib of_nat_add)
      qed
      have "p + 8 + of_nat (t * 32) - ad_addr ?cmd = of_nat (t * 32) - of_nat (512 * m * 32)" unfolding d(5) by (simp only: add_diff_cancel_left)
      then have "32 dvd unat (p + 8 + of_nat (t * 32) - ad_addr ?cmd)" using multiple_diff by metis
      then show ?thesis using old [OF ne] IH [OF True] by simp
    qed
  qed
qed

text \<open>
  C19. A report is complete: on a 2.0 device that answers, for a report of one parallel unit or of the whole
  device, \<open>nvm_be_ioctl_rprt\<close> returns, with as many descriptors as the geometry has chunks, each the one the
  log of the device has for that chunk, in order, whatever the number of commands it takes to read them. The number
  of chunks has to be below \<open>2 ^ 31\<close>: \<open>NVM_MIN\<close>, which gives the size of a command, takes and returns \<open>int\<close>.
\<close>

theorem ioctl_rprt_complete:
  fixes n idx :: nat
  assumes "dev_verid dev = NVM_SPEC_VERID_20" "rprt_ndescrs dev addr = of_nat n" "n < 2 ^ 31"
    and "(case addr of Some a \<Rightarrow> nvm_addr_gen2lpo dev a | None \<Rightarrow> 0) = of_nat (idx * 32)" "(idx + n) * 32 < 2 ^ 64"
    and "nvm_buf_alloc sys dev (rprt_buf_len (of_nat n)) 0 w = (Inr (p, ph), w0)" "unat p + 8 + n * 32 < 2 ^ 64"
    and "log_laws k dev chunk_log" "log_answers k dev"
  shows "\<exists>rprt w'. nvm_be_ioctl_rprt sys k dev addr opt ret w = Some (Inr (p, rprt), w') \<and>
    unat (rprt_ndescr rprt) = n \<and> rprt_descr rprt = map (\<lambda>j. chunk_log (idx + j)) [0..<n]"
proof -
  let ?w1 = "sys_store sys p (replicate (unat (rprt_buf_len (of_nat n))) 0) w0" and ?c = "(n + 511) div 512"
  let ?piece = "rprt_piece sys k dev ret p (of_nat (idx * 32)) (of_nat n)"
  have "\<exists>w'. ?piece i w = (Inr (), w')" for i w
    by (rule rprt_piece_answers [OF assms(9)])
  then obtain w' where run: "each_op (\<lambda>j. ?piece (of_nat (512 * j))) [0..<?c] ?w1 = (Inr (), w')"
    using each_op_succeeds [where P = "\<lambda>_. True" and body = "\<lambda>j. ?piece (of_nat (512 * j))" and w = ?w1] by blast
  have n: "n + 512 < 2 ^ 32" "512 * ?c < n + 512" "min (512 * ?c) n = n" using assms(3) by (simp, linarith+)
  have un: "unat (of_nat n :: u64) = n" "unat (of_nat n :: u32) = n" "(ucast (of_nat n :: u64) :: u32) = of_nat n"
    using assms(3) by (simp_all add: unat_of_nat_lt unsigned_of_nat take_bit_nat_eq_self)
  have descr: "k_descr_at k (p + 8 + of_nat j * 32) w' = chunk_log (idx + j)" if "j < n" for j
    using pieces_read [OF assms(8,3,7,5) n(2) run] that unfolding n(3) by simp
  have loop: "for_op (\<lambda>i. ucast i < (of_nat n :: u64)) (\<lambda>i. i + 512 :: u32) (\<lambda>i _. ?piece i) 0 () ?w1 = Some (Inr (), w')"
    unfolding rprt_loop [OF n(1)] fold_op_unit run ..
  have "nvm_be_ioctl_rprt sys k dev addr opt ret w = Some (Inr (p, \<lparr>rprt_ndescr = of_nat n,
      rprt_descr = map (\<lambda>j. k_descr_at k (p + 8 + of_nat j * 32) w') [0..<n]\<rparr>), w')"
    unfolding nvm_be_ioctl_rprt_def Let_def assms(2,4) rprt_piece_def [symmetric]
    using assms(1,6) loop un by (simp add: lbind_def lret_def buf_or_nomem_def clear_buf_def upd_def)
  then show ?thesis using descr un by simp
qed

text \<open>A kernel whose world is the descriptors in memory and whose device has a log.\<close>

definition ex_log :: "nat \<Rightarrow> nvm_spec_rprt_descr" where
  "ex_log j = \<lparr>descr_cs = 1, descr_ct = 1, descr_wli = of_nat j, descr_addr = of_nat (j * 6144), descr_naddrs = 6144, descr_wp = 0\<rparr>"

definition ex_read :: "nvm_cmd_admin \<Rightarrow> (ptr \<Rightarrow> nvm_spec_rprt_descr) \<Rightarrow> ptr \<Rightarrow> nvm_spec_rprt_descr" where
  "ex_read cmd w q = (let d = unat (q - ad_addr cmd) in
     if 32 dvd d \<and> d < log_bytes cmd then ex_log (unat (log_offset cmd) div 32 + d div 32) else w q)"

definition ex_kern :: "(ptr \<Rightarrow> nvm_spec_rprt_descr) kern" where
  "ex_kern = \<lparr>k_ioctl = (\<lambda>fd req w. (\<lparr>ir_err = 0, ir_errno = EKEEP, ir_status = 0, ir_result = 0\<rparr>,
       case req of AdminCmd cmd \<Rightarrow> ex_read cmd w | _ \<Rightarrow> w)),
     k_open = (\<lambda>_ _ w. (Inr 3, w)), k_is_blk = (\<lambda>_ w. (Inr True, w)), k_close = (\<lambda>_ w. w),
     k_pread = (\<lambda>_ _ n _ w. (Inr (uint n), w)), k_pwrite = (\<lambda>_ _ n _ w. (Inr (uint n), w)),
     k_ret_vio = (\<lambda>_ _ _ w. w), k_ret_status = (\<lambda>_ _ w. w), k_idfy_at = (\<lambda>_ _. dev_idfy dev_zero),
     k_ns_at = (\<lambda>_ _. dev_ns dev_zero), k_bbt_at = (\<lambda>_ _ _. \<lparr>sbbt_tblid = [], sbbt_tblks = 0, sbbt_tfact = 0,
       sbbt_tgrown = 0, sbbt_tdresv = 0, sbbt_thresv = 0, sbbt_blk = []\<rparr>), k_descr_at = (\<lambda>q w. w q)\<rparr>"

definition ex_sys_plain :: "'w sys" where
  "ex_sys_plain = \<lparr>sys_aligned_alloc = \<lambda>_ _ w. (Inr 0x200000, w), sys_free = \<lambda>_ w. w, sys_malloc = \<lambda>_ w. (Inr 0x3000, w),
     sys_calloc = \<lambda>_ _ w. (Inr 0x4000, w), sys_spdk_dma_malloc = \<lambda>_ _ w. (Inl (Errno ENOMEM), w),
     sys_spdk_dma_realloc = \<lambda>_ _ _ w. (Inl (Errno ENOMEM), w), sys_spdk_dma_free = \<lambda>_ w. w,
     sys_spdk_vtophys = \<lambda>_ _. 0, sys_rand = \<lambda>w. (0, w), sys_getenv = \<lambda>_ _. None,
     sys_store = \<lambda>_ _ w. w, sys_ret_async = \<lambda>_ _ w. w, sys_ret_clear = \<lambda>_ w. w\<rparr>"

definition ex_dev_ioctl :: nvm_dev where
  "ex_dev_ioctl = ex_dev_s20\<lparr>dev_be := Some NVM_BE_IOCTL\<rparr>"

lemma ex_log_laws: "log_laws ex_kern dev ex_log"
proof -
  have t: "unat (of_nat (t * 32) :: u64) = t * 32" if "t * 32 < log_bytes cmd" for t cmd
  proof -
    have "unat (ad_cdw11 cmd AND 0xFFFF) * 2 ^ 16 \<le> 2 ^ 32 * 2 ^ 16" "unat (drop_bit 16 (ad_cdw10 cmd)) < 2 ^ 32"
      using unsigned_less [of "ad_cdw11 cmd AND 0xFFFF", where ?'a = nat] unsigned_less [of "drop_bit 16 (ad_cdw10 cmd)", where ?'a = nat]
      by (intro mult_le_mono1, simp_all)
    then have "log_bytes cmd < 2 ^ 64" unfolding log_bytes_def by simp
    then show ?thesis using that by (intro unat_u64) simp
  qed
  have e: "q = ad_addr cmd + of_nat (unat (q - ad_addr cmd) div 32 * 32)" if "32 dvd unat (q - ad_addr cmd)" for q cmd
    using that by (simp add: dvd_div_mult_self del: of_nat_mult)
  show ?thesis
    unfolding log_laws_def
  proof (intro allI impI conjI)
    fix cmd w r w' t assume r: "k_ioctl ex_kern (dev_fd dev) (AdminCmd cmd) w = (r, w')" and l: "t * 32 < log_bytes cmd"
    have "ex_read cmd w (ad_addr cmd + of_nat (t * 32)) = ex_log (unat (log_offset cmd) div 32 + t)"
      using t [OF l] l unfolding ex_read_def Let_def add_diff_cancel_left' by simp
    then show "k_descr_at ex_kern (ad_addr cmd + of_nat (t * 32)) w' = ex_log (unat (log_offset cmd) div 32 + t)"
      using r by (auto simp: ex_kern_def)
  next
    fix cmd w r w' q assume r: "k_ioctl ex_kern (dev_fd dev) (AdminCmd cmd) w = (r, w')"
      and n: "\<forall>t. t * 32 < log_bytes cmd \<longrightarrow> q \<noteq> ad_addr cmd + of_nat (t * 32)" and d: "32 dvd unat (q - ad_addr cmd)"
    have "\<not> unat (q - ad_addr cmd) < log_bytes cmd" using n e [OF d] d by (metis dvd_div_mult_self)
    then show "k_descr_at ex_kern q w' = k_descr_at ex_kern q w" using r by (auto simp: ex_kern_def ex_read_def)
  qed
qed

theorem ioctl_rprt_complete_witness:
  "\<exists>rprt w'. nvm_be_ioctl_rprt ex_sys_plain ex_kern ex_dev_ioctl None 0 0 (\<lambda>_. ex_log 0) = Some (Inr (0x200000, rprt), w') \<and>
    unat (rprt_ndescr rprt) = 47168 \<and> rprt_descr rprt = map (\<lambda>j. ex_log (0 + j)) [0..<47168]"
proof -
  let ?w = "\<lambda>_ :: ptr. ex_log 0"
  have d: "dev_verid ex_dev_ioctl = NVM_SPEC_VERID_20" "rprt_ndescrs ex_dev_ioctl None = of_nat 47168" "(47168 :: nat) < 2 ^ 31"
    "(case None of Some a \<Rightarrow> nvm_addr_gen2lpo ex_dev_ioctl a | None \<Rightarrow> 0) = of_nat (0 * 32)" "(0 + 47168 :: nat) * 32 < 2 ^ 64"
    by (simp_all add: rprt_ndescrs_def ex_dev_ioctl_def ex_dev_s20_def)
  have a: "nvm_buf_alloc ex_sys_plain ex_dev_ioctl (rprt_buf_len (of_nat 47168)) 0 ?w = (Inr (0x200000, 0), ?w)"
    by (simp add: nvm_buf_alloc_def nvm_buf_virt_alloc_def rprt_buf_len_def ex_dev_ioctl_def ex_sys_plain_def ex_dev_s20_def Let_def andThen_def ok_def)
  have p: "unat (0x200000 :: ptr) + 8 + 47168 * 32 < 2 ^ 64" "log_answers ex_kern ex_dev_ioctl"
    by (simp_all add: log_answers_def ex_kern_def)
  show ?thesis by (rule ioctl_rprt_complete [OF d a p(1) ex_log_laws p(2)])
qed

text \<open>
  C36. The buffer of a report is four bytes too short. \<open>nvm_be_ioctl_rprt\<close> allocates the size of the member \<open>ndescr\<close> and of the
  descriptors, but the descriptors start at the next multiple of eight. Whenever the device answers, the call succeeds, and the
  last command it has sent asks the device to store the descriptors up to four bytes behind the end of the buffer.
\<close>

theorem ioctl_rprt_overrun:
  fixes n :: nat
  assumes "dev_verid dev = NVM_SPEC_VERID_20" "rprt_ndescrs dev addr = of_nat n" "0 < n" "n < 2 ^ 31" "log_answers k dev"
    and "nvm_buf_alloc sys dev (of_nat (n * 32 + 4)) 0 w = (Inr (p, ph), w0)" "unat p + 8 + n * 32 < 2 ^ 64"
  shows "\<exists>rprt w' cmd r w1. nvm_be_ioctl_rprt sys k dev addr opt ret w = Some (Inr (p, rprt), w')
    \<and> k_ioctl k (dev_fd dev) (AdminCmd cmd) w1 = (r, w') \<and> ir_err r = 0 \<and> ad_opcode cmd = NVM_AOPC_RPRT
    \<and> unat (ad_addr cmd) + log_bytes cmd = unat p + (n * 32 + 4) + 4"
proof -
  define lpo where "lpo = (case addr of Some a \<Rightarrow> nvm_addr_gen2lpo dev a | None \<Rightarrow> 0)"
  define m where "m = (n - 1) div 512"
  let ?w1 = "sys_store sys p (replicate (unat (rprt_buf_len (of_nat n))) 0) w0" and ?piece = "rprt_piece sys k dev ret p lpo (of_nat n)"
  have "n + 511 = (n - 1) + 512" using assms(3) by simp
  then have c: "(n + 511) div 512 = Suc m" unfolding m_def by (simp only: div_add_self2)
  have j: "512 * m < n" "min 512 (n - 512 * m) = n - 512 * m" "512 * m + (n - 512 * m) = n" using assms(3) unfolding m_def by linarith+
  have "\<exists>w'. ?piece i w = (Inr (), w')" for i w by (rule rprt_piece_answers [OF assms(5)])
  then obtain w' where run: "each_op (\<lambda>j. ?piece (of_nat (512 * j))) [0..<Suc m] ?w1 = (Inr (), w')"
    using each_op_succeeds [where P = "\<lambda>_. True" and body = "\<lambda>j. ?piece (of_nat (512 * j))" and w = ?w1] by blast
  then obtain w1 where last: "?piece (of_nat (512 * m)) w1 = (Inr (), w')" by (rule each_op_snoc)
  let ?cmd = "rprt_cmd dev p lpo (of_nat n) (of_nat (512 * m))"
  obtain r where r: "k_ioctl k (dev_fd dev) (AdminCmd ?cmd) w1 = (r, w')" "ir_err r = 0" using rprt_piece_Inr [OF last] by blast
  note d = rprt_cmd_decode [OF j(1) assms(4), of dev p lpo]
  have "n + 512 < 2 ^ 32" using assms(4) by simp
  then have loop: "for_op (\<lambda>i. ucast i < (of_nat n :: u64)) (\<lambda>i. i + 512 :: u32) (\<lambda>i _. ?piece i) 0 () ?w1 = Some (Inr (), w')"
    unfolding rprt_loop [OF \<open>n + 512 < 2 ^ 32\<close>] fold_op_unit c run by simp
  have len: "rprt_buf_len (of_nat n) = of_nat (n * 32 + 4)" by (simp add: rprt_buf_len_def)
  have "\<exists>rprt. nvm_be_ioctl_rprt sys k dev addr opt ret w = Some (Inr (p, rprt), w')"
    unfolding nvm_be_ioctl_rprt_def Let_def assms(2) lpo_def [symmetric] rprt_piece_def [symmetric]
    using assms(1,6) loop unfolding len [symmetric] by (simp add: lbind_def lret_def buf_or_nomem_def clear_buf_def upd_def)
  moreover have "unat (ad_addr ?cmd) + log_bytes ?cmd = unat p + (n * 32 + 4) + 4"
  proof -
    have lt: "unat p + (8 + 512 * m * 32) < 2 ^ 64" using assms(7) j(1) by simp
    then have "unat (p + of_nat (8 + 512 * m * 32)) = unat p + (8 + 512 * m * 32)"
      by (subst unat_add_lt) (simp_all only: unat_u64, simp_all)
    then have "unat (ad_addr ?cmd) = unat p + (8 + 512 * m * 32)" unfolding d(5) by (simp add: add.assoc)
    then show ?thesis unfolding d(1) j(2) using j(3) by simp
  qed
  ultimately show ?thesis using r d(4) by blast
qed

theorem ioctl_rprt_overrun_witness:
  "\<exists>rprt w' cmd r w1. nvm_be_ioctl_rprt ex_sys_plain ex_kern ex_dev_ioctl None 0 0 (\<lambda>_. ex_log 0) = Some (Inr (0x200000, rprt), w')
    \<and> k_ioctl ex_kern (dev_fd ex_dev_ioctl) (AdminCmd cmd) w1 = (r, w') \<and> ir_err r = 0 \<and> ad_opcode cmd = NVM_AOPC_RPRT
    \<and> unat (ad_addr cmd) + log_bytes cmd = unat (0x200000 :: ptr) + (47168 * 32 + 4) + 4"
proof -
  have d: "dev_verid ex_dev_ioctl = NVM_SPEC_VERID_20" "rprt_ndescrs ex_dev_ioctl None = of_nat 47168" "(0 :: nat) < 47168" "(47168 :: nat) < 2 ^ 31"
    "log_answers ex_kern ex_dev_ioctl" "unat (0x200000 :: ptr) + 8 + 47168 * 32 < 2 ^ 64"
    by (simp_all add: rprt_ndescrs_def ex_dev_ioctl_def ex_dev_s20_def log_answers_def ex_kern_def)
  have a: "nvm_buf_alloc ex_sys_plain ex_dev_ioctl (of_nat (47168 * 32 + 4)) 0 (\<lambda>_. ex_log 0) = (Inr (0x200000, 0), \<lambda>_. ex_log 0)"
    by (simp add: nvm_buf_alloc_def nvm_buf_virt_alloc_def ex_dev_ioctl_def ex_sys_plain_def ex_dev_s20_def Let_def andThen_def ok_def)
  show ?thesis by (rule ioctl_rprt_overrun [OF d(1-5) a d(6)])
qed

end
