(* ===== verification/Nvm_Ioctl_Media.thy ===== *)
theory Nvm_Ioctl_Media
  imports Nvm_Ioctl Nvm_Vblk_IO
begin

text \<open>
  The ioctl backend as the provider of the vector commands a virtual block uses: the contract of the
  kernel, and the simulation that derives the contract of the media from it.
\<close>

section \<open>The ioctl backend as the media of a virtual block\<close>

text \<open>
  What the backend relies on of the kernel: a vector command it accepts is executed on the addresses
  of the command, in the format of the device, with the data of the command. \<open>media\<close> gives the bytes of
  the sector at an address of the device, \<open>mem\<close> those of the memory of the process.
\<close>

definition vio_accepts :: "ioctl_ret \<Rightarrow> bool" where
  "vio_accepts r \<longleftrightarrow> ir_err r = 0 \<and> ir_result r = 0 \<or> ir_result r = 0x700 \<or> ir_result r = 0x4700"

definition cmd_ppas :: "nvm_cmd_vuser \<Rightarrow> u64 list" where
  "cmd_ppas cmd = (case vu_ppa_list cmd of PpaOne a \<Rightarrow> [a] | PpaList as \<Rightarrow> take (unat (vu_nppas cmd) + 1) as)"

definition vio_laws :: "'w kern \<Rightarrow> nvm_dev \<Rightarrow> nat \<Rightarrow> ('w \<Rightarrow> u64 \<Rightarrow> nat \<Rightarrow> u8) \<Rightarrow> ('w \<Rightarrow> ptr \<Rightarrow> u8) \<Rightarrow> bool" where
  "vio_laws k dev B media mem \<longleftrightarrow>
     (\<forall>cmd w r w'. k_ioctl k (dev_fd dev) (SubmitVio cmd) w = (r, w') \<longrightarrow> vio_accepts r \<longrightarrow>
        length (cmd_ppas cmd) = unat (vu_nppas cmd) + 1 \<longrightarrow> unat (vu_data_len cmd) = length (cmd_ppas cmd) * B \<longrightarrow>
        (vu_opcode cmd = ucast NVM_DOPC_VECTOR_WRITE \<longrightarrow> distinct (cmd_ppas cmd) \<longrightarrow>
           mem w' = mem w \<and>
           (\<forall>t < length (cmd_ppas cmd) * B. media w' (cmd_ppas cmd ! (t div B)) (t mod B) = mem w (vu_addr cmd + of_nat t)) \<and>
           (\<forall>a. a \<notin> set (cmd_ppas cmd) \<longrightarrow> media w' a = media w a)) \<and>
        (vu_opcode cmd = ucast NVM_DOPC_VECTOR_READ \<longrightarrow>
           media w' = media w \<and>
           (\<forall>t < length (cmd_ppas cmd) * B. mem w' (vu_addr cmd + of_nat t) = media w (cmd_ppas cmd ! (t div B)) (t mod B)) \<and>
           (\<forall>q. (\<forall>t < length (cmd_ppas cmd) * B. q \<noteq> vu_addr cmd + of_nat t) \<longrightarrow> mem w' q = mem w q))) \<and>
     (\<forall>ret s r w. ret \<noteq> 0 \<longrightarrow> media (k_ret_vio k ret s r w) = media w \<and> mem (k_ret_vio k ret s r w) = mem w)"

lemma ppas_cmd:
  assumes "0 < length as" "length as \<le> 64"
  shows "cmd_ppas (vector_cmd dev as (int (length as)) data 0 fl opc) = as"
    "unat (vu_nppas (vector_cmd dev as (int (length as)) data 0 fl opc)) + 1 = length as"
proof -
  have n: "unat (word_of_int (int (length as) - 1) :: u16) = length as - 1"
  proof -
    have "int (length as) - 1 = int (length as - 1)" using assms(1) by linarith
    then have "(word_of_int (int (length as) - 1) :: u16) = of_nat (length as - 1)" by (simp only: of_int_of_nat_eq)
    moreover have "unat (of_nat (length as - 1) :: u16) = length as - 1" using assms(2) by (intro unat_of_nat_lt) simp
    ultimately show ?thesis by (simp only:)
  qed
  show "unat (vu_nppas (vector_cmd dev as (int (length as)) data 0 fl opc)) + 1 = length as"
    using n assms by (simp add: vector_cmd_def Let_def)
  show "cmd_ppas (vector_cmd dev as (int (length as)) data 0 fl opc) = as"
    using n assms by (cases as rule: remdups_adj.cases) (simp_all add: cmd_ppas_def vector_cmd_def Let_def ppas_def)
qed

lemma ucast_of_nat_u64: "n < 2 ^ 32 \<Longrightarrow> (ucast (of_nat n :: u64) :: u32) = of_nat n"
  by (simp add: unsigned_of_nat take_bit_nat_eq_self)

lemma vector_cmd_fields:
  assumes "0 < length as" "length as \<le> 64" "data \<noteq> 0" "sector_nbytes (dev_geo dev) = of_nat B" "B < 2 ^ 26"
  shows "vu_addr (vector_cmd dev as (int (length as)) data 0 fl opc) = data"
    "vu_opcode (vector_cmd dev as (int (length as)) data 0 fl opc) = ucast opc"
    "unat (vu_data_len (vector_cmd dev as (int (length as)) data 0 fl opc)) = length as * B"
proof -
  have "length as * B < 64 * 2 ^ 26" using assms(2,5) by (intro le_less_trans [OF mult_le_mono1 mult_strict_left_mono]) simp_all
  then have lt: "length as * B < 2 ^ 32" by simp
  have "(ucast (of_nat B * word_of_int (int (length as)) :: u64) :: u32) = of_nat (length as * B)"
    using ucast_of_nat_u64 [OF lt] by (simp add: mult.commute)
  then show "unat (vu_data_len (vector_cmd dev as (int (length as)) data 0 fl opc)) = length as * B"
    using assms(3,4) lt by (simp add: vector_cmd_def Let_def unat_of_nat_lt del: of_nat_mult)
qed (use assms in \<open>simp_all add: vector_cmd_def Let_def\<close>)

lemma dev_addrs_all: "dev_addrs dev as (int (length as)) False = Inr (map (nvm_addr_gen2dev dev) as)"
proof -
  have "map_res (\<lambda>i. if length as \<le> i then Inl (Fault OutOfBounds)
     else if False \<and> addr_check_fails (as ! i) dev then Inl (Errno EINVAL) else Inr (nvm_addr_gen2dev dev (as ! i))) [0..<length as]
    = Inr (map (\<lambda>i. nvm_addr_gen2dev dev (as ! i)) [0..<length as])" by (rule map_res_Inr) simp
  also have "map (\<lambda>i. nvm_addr_gen2dev dev (as ! i)) [0..<length as] = map (nvm_addr_gen2dev dev) as"
    by (rule nth_equalityI) simp_all
  finally show ?thesis by (simp add: dev_addrs_def)
qed

text \<open>A vector command is one call of the kernel, with the addresses converted.\<close>

lemma vector_ewr_run:
  assumes "length as \<le> 64" "fl AND 0x20 = 0"
    "k_ioctl k (dev_fd dev) (SubmitVio (vector_cmd dev (map (nvm_addr_gen2dev dev) as) (int (length as)) data meta fl opc)) w = (r, w1)"
  shows "cmd_vector_ewr k dev as (int (length as)) data meta fl opc ret w =
    (if vio_accepts r then Inr () else Inl (if ir_err r \<noteq> 0 then ioctl_failure r else Errno EIO),
     if ret \<noteq> 0 then k_ret_vio k ret (ir_status r) (ucast (ir_result r)) w1 else w1)"
  using assms by (auto simp: cmd_vector_ewr_def dev_addrs_all ioctl_vio_def vio_done_def Let_def vio_accepts_def)

lemma vio_write:
  assumes "vio_laws k dev B media mem" "k_ioctl k (dev_fd dev) (SubmitVio cmd) w = (r, w')" "vio_accepts r"
    and "length (cmd_ppas cmd) = unat (vu_nppas cmd) + 1" "unat (vu_data_len cmd) = length (cmd_ppas cmd) * B"
    and "vu_opcode cmd = ucast NVM_DOPC_VECTOR_WRITE" "distinct (cmd_ppas cmd)"
  shows "mem w' = mem w"
    "t < length (cmd_ppas cmd) * B \<Longrightarrow> media w' (cmd_ppas cmd ! (t div B)) (t mod B) = mem w (vu_addr cmd + of_nat t)"
    "a \<notin> set (cmd_ppas cmd) \<Longrightarrow> media w' a = media w a"
  using assms unfolding vio_laws_def by blast+

lemma vio_read:
  assumes "vio_laws k dev B media mem" "k_ioctl k (dev_fd dev) (SubmitVio cmd) w = (r, w')" "vio_accepts r"
    and "length (cmd_ppas cmd) = unat (vu_nppas cmd) + 1" "unat (vu_data_len cmd) = length (cmd_ppas cmd) * B"
    and "vu_opcode cmd = ucast NVM_DOPC_VECTOR_READ"
  shows "media w' = media w"
    "t < length (cmd_ppas cmd) * B \<Longrightarrow> mem w' (vu_addr cmd + of_nat t) = media w (cmd_ppas cmd ! (t div B)) (t mod B)"
    "(\<And>t. t < length (cmd_ppas cmd) * B \<Longrightarrow> q \<noteq> vu_addr cmd + of_nat t) \<Longrightarrow> mem w' q = mem w q"
  using assms unfolding vio_laws_def by blast+

lemma vio_ret:
  "vio_laws k dev B media mem \<Longrightarrow> media (if ret \<noteq> 0 then k_ret_vio k ret s r w else w) = media w"
  "vio_laws k dev B media mem \<Longrightarrow> mem (if ret \<noteq> 0 then k_ret_vio k ret s r w else w) = mem w"
  unfolding vio_laws_def by auto

text \<open>The simulation: the backend keeps the contract of the media when the kernel keeps its own.\<close>

lemma ioctl_vector_simps:
  "be_vector_write (nvm_be_ioctl sys k) dev as n data meta fl ret = cmd_vector_ewr k dev as n data meta fl NVM_DOPC_VECTOR_WRITE ret"
  "be_vector_read (nvm_be_ioctl sys k) dev as n data meta fl ret = cmd_vector_ewr k dev as n data meta fl NVM_DOPC_VECTOR_READ ret"
  by (simp_all add: nvm_be_ioctl_def ioctl_ops_def nvm_be_ioctl_vector_write_def nvm_be_ioctl_vector_read_def)

lemma vector_ewr_cases:
  assumes "cmd_vector_ewr k dev as (int (length as)) data meta fl opc ret w = (Inr (), w')" "length as \<le> 64"
  obtains r w1 where
    "k_ioctl k (dev_fd dev) (SubmitVio (vector_cmd dev (map (nvm_addr_gen2dev dev) as) (int (length as)) data meta fl opc)) w = (r, w1)"
    "vio_accepts r" "w' = (if ret \<noteq> 0 then k_ret_vio k ret (ir_status r) (ucast (ir_result r)) w1 else w1)"
proof -
  have fl: "fl AND 0x20 = 0" using assms(1) by (auto simp: cmd_vector_ewr_def fail_def split: if_splits)
  obtain r w1 where run: "k_ioctl k (dev_fd dev)
      (SubmitVio (vector_cmd dev (map (nvm_addr_gen2dev dev) as) (int (length as)) data meta fl opc)) w = (r, w1)"
    by fastforce
  show thesis
    by (rule that [OF run]) (use assms(1) vector_ewr_run [OF assms(2) fl run, of ret] in \<open>auto split: if_splits\<close>)
qed

lemma ioctl_write_laws:
  assumes laws: "vio_laws k dev B media mem" and dev: "wf_fmt dev" "sector_nbytes (dev_geo dev) = of_nat B" "B < 2 ^ 26"
    and as: "0 < length as" "length as \<le> 64" "distinct as" "\<forall>a \<in> set as. fits dev a" and data: "data \<noteq> 0"
    and run: "be_vector_write (nvm_be_ioctl sys k) dev as (int (length as)) data 0 fl ret w = (Inr (), w')"
  shows "mem w' = mem w"
    "t < length as * B \<Longrightarrow> media w' (nvm_addr_gen2dev dev (as ! (t div B))) (t mod B) = mem w (data + of_nat t)"
    "fits dev a \<Longrightarrow> a \<notin> set as \<Longrightarrow> media w' (nvm_addr_gen2dev dev a) = media w (nvm_addr_gen2dev dev a)"
proof -
  let ?g = "nvm_addr_gen2dev dev" and ?cmd = "vector_cmd dev (map (nvm_addr_gen2dev dev) as) (int (length as)) data 0 fl NVM_DOPC_VECTOR_WRITE"
  note g = ppas_cmd [of "map ?g as", unfolded length_map, OF as(1,2), of dev data fl]
    vector_cmd_fields [of "map ?g as", unfolded length_map, OF as(1,2) data dev(2,3), of fl]
  obtain r w1 where x: "k_ioctl k (dev_fd dev) (SubmitVio ?cmd) w = (r, w1)" "vio_accepts r"
    "w' = (if ret \<noteq> 0 then k_ret_vio k ret (ir_status r) (ucast (ir_result r)) w1 else w1)"
    by (rule vector_ewr_cases [OF run [unfolded ioctl_vector_simps] as(2)])
  have d: "distinct (map ?g as)" using fmt.distinct_enc [OF dev(1) as(4)] as(3) by simp
  note y = vio_write [OF laws x(1,2), unfolded g length_map, OF refl refl refl d]
  show "mem w' = mem w" unfolding x(3) vio_ret [OF laws] by (rule y(1))
  show "media w' (?g (as ! (t div B))) (t mod B) = mem w (data + of_nat t)" if "t < length as * B"
    unfolding x(3) vio_ret [OF laws] using y(2) [OF that] that by (simp add: less_mult_imp_div_less)
  show "media w' (?g a) = media w (?g a)" if "fits dev a" "a \<notin> set as"
  proof -
    have "?g a \<notin> ?g ` set as" using inj_on_image_mem_iff [OF fmt.enc_inj [OF dev(1)], of a "set as"] as(4) that by blast
    then show ?thesis unfolding x(3) vio_ret [OF laws] by (intro y(3)) simp
  qed
qed

lemma ioctl_read_laws:
  assumes laws: "vio_laws k dev B media mem" and dev: "sector_nbytes (dev_geo dev) = of_nat B" "B < 2 ^ 26"
    and as: "0 < length as" "length as \<le> 64" and data: "data \<noteq> 0"
    and run: "be_vector_read (nvm_be_ioctl sys k) dev as (int (length as)) data 0 fl ret w = (Inr (), w')"
  shows "media w' = media w"
    "t < length as * B \<Longrightarrow> mem w' (data + of_nat t) = media w (nvm_addr_gen2dev dev (as ! (t div B))) (t mod B)"
    "(\<And>t. t < length as * B \<Longrightarrow> q \<noteq> data + of_nat t) \<Longrightarrow> mem w' q = mem w q"
proof -
  let ?g = "nvm_addr_gen2dev dev" and ?cmd = "vector_cmd dev (map (nvm_addr_gen2dev dev) as) (int (length as)) data 0 fl NVM_DOPC_VECTOR_READ"
  note g = ppas_cmd [of "map ?g as", unfolded length_map, OF as(1,2), of dev data fl]
    vector_cmd_fields [of "map ?g as", unfolded length_map, OF as(1,2) data dev, of fl]
  obtain r w1 where x: "k_ioctl k (dev_fd dev) (SubmitVio ?cmd) w = (r, w1)" "vio_accepts r"
    "w' = (if ret \<noteq> 0 then k_ret_vio k ret (ir_status r) (ucast (ir_result r)) w1 else w1)"
    by (rule vector_ewr_cases [OF run [unfolded ioctl_vector_simps] as(2)])
  note y = vio_read [OF laws x(1,2), unfolded g length_map, OF refl refl refl]
  show "media w' = media w" unfolding x(3) vio_ret [OF laws] by (rule y(1))
  show "mem w' (data + of_nat t) = media w (?g (as ! (t div B))) (t mod B)" if "t < length as * B"
    unfolding x(3) vio_ret [OF laws] using y(2) [OF that] that by (simp add: less_mult_imp_div_less)
  show "mem w' q = mem w q" if "\<And>t. t < length as * B \<Longrightarrow> q \<noteq> data + of_nat t"
    unfolding x(3) vio_ret [OF laws] using that by (rule y(3))
qed

text \<open>Freeing memory changes neither the media nor the bytes of live buffers.\<close>

definition free_laws :: "'w sys \<Rightarrow> ('w \<Rightarrow> u64 \<Rightarrow> nat \<Rightarrow> u8) \<Rightarrow> ('w \<Rightarrow> ptr \<Rightarrow> u8) \<Rightarrow> bool" where
  "free_laws sys media mem \<longleftrightarrow> (\<forall>p w. media (sys_free sys p w) = media w \<and> mem (sys_free sys p w) = mem w) \<and>
     (\<forall>p w. media (sys_spdk_dma_free sys p w) = media w \<and> mem (sys_spdk_dma_free sys p w) = mem w)"

lemma ioctl_media_laws:
  assumes "vio_laws k dev B media mem" "free_laws sys media mem" "wf_fmt dev" "sector_nbytes (dev_geo dev) = of_nat B" "B < 2 ^ 26"
  shows "media_laws sys (nvm_be_ioctl sys k) dev B {a. fits dev a} (\<lambda>w a. media w (nvm_addr_gen2dev dev a)) mem"
  unfolding media_laws_def
proof (intro conjI allI impI ballI)
  fix as data ret w w'
  assume a: "distinct as" "set as \<subseteq> {a. fits dev a}" "0 < length as" "length as \<le> 64" "data \<noteq> 0"
    "be_vector_write (nvm_be_ioctl sys k) dev as (int (length as)) data 0 0x190 ret w = (Inr (), w')"
  then have "\<forall>a \<in> set as. fits dev a" by blast
  note x = ioctl_write_laws [OF assms(1,3-5) a(3,4,1) this a(5,6)]
  show "mem w' = mem w" by (rule x(1))
  show "t < length as * B \<Longrightarrow> media w' (nvm_addr_gen2dev dev (as ! (t div B))) (t mod B) = mem w (data + of_nat t)" for t by (rule x(2))
  show "b \<in> {a. fits dev a} - set as \<Longrightarrow> media w' (nvm_addr_gen2dev dev b) = media w (nvm_addr_gen2dev dev b)" for b by (rule x(3)) simp_all
next
  fix as data ret w w'
  assume a: "0 < length as" "length as \<le> 64" "data \<noteq> 0"
    "be_vector_read (nvm_be_ioctl sys k) dev as (int (length as)) data 0 0x190 ret w = (Inr (), w')"
  note x = ioctl_read_laws [OF assms(1,4,5) a]
  show "(\<lambda>a. media w' (nvm_addr_gen2dev dev a)) = (\<lambda>a. media w (nvm_addr_gen2dev dev a))" unfolding x(1) ..
  show "t < length as * B \<Longrightarrow> mem w' (data + of_nat t) = media w (nvm_addr_gen2dev dev (as ! (t div B))) (t mod B)" for t by (rule x(2))
  show "\<forall>t<length as * B. q \<noteq> data + of_nat t \<Longrightarrow> mem w' q = mem w q" for q by (rule x(3)) blast
qed (use assms(2) in \<open>simp_all add: free_laws_def\<close>)

definition vio_answers :: "'w kern \<Rightarrow> nvm_dev \<Rightarrow> bool" where
  "vio_answers k dev \<longleftrightarrow> (\<forall>cmd w. vio_accepts (fst (k_ioctl k (dev_fd dev) (SubmitVio cmd) w)))"

lemma ioctl_media_answers:
  assumes "vio_answers k dev"
  shows "media_answers (nvm_be_ioctl sys k) dev"
proof -
  have "\<exists>w'. cmd_vector_ewr k dev as (int (length as)) data 0 fl opc ret w = (Inr (), w')"
    if "length as \<le> 64" "fl AND 0x20 = 0" for as data fl opc ret w
  proof -
    obtain r w1 where run: "k_ioctl k (dev_fd dev) (SubmitVio (vector_cmd dev (map (nvm_addr_gen2dev dev) as) (int (length as)) data 0 fl opc)) w = (r, w1)"
      by fastforce
    then have "vio_accepts r" using assms unfolding vio_answers_def by (metis fst_conv)
    then show ?thesis using vector_ewr_run [OF that run] by simp
  qed
  moreover have "(0x190 AND 0x20 :: u16) = 0" by simp
  ultimately show ?thesis unfolding media_answers_def ioctl_vector_simps by blast
qed

text \<open>The chunks of a virtual block, with all their sectors, have addresses in the format of the device.\<close>

definition chunks_fit :: "nvm_dev \<Rightarrow> nvm_vblk \<Rightarrow> nat \<Rightarrow> bool" where
  "chunks_fit dev v len \<longleftrightarrow> list_all (fits dev) (take (nblks_of v) (vblk_blks v)) \<and> len \<le> 2 ^ unat (lbaf_sectr (dev_lbaf dev))"

lemma fits_set_sectr:
  assumes "dev_verid dev = NVM_SPEC_VERID_20" "fits dev a" "x < 2 ^ unat (lbaf_sectr (dev_lbaf dev))" "x < 2 ^ 32"
  shows "fits dev (set_l_sectr (of_nat x) a)"
proof -
  have "unat (of_nat x :: u64) = x" using assms(4) by (intro unat_u64) simp
  moreover have "take_bit 32 (of_nat x :: u64) = of_nat x" using assms(4) calculation by (intro take_bit_id) simp
  ultimately show ?thesis using assms(1-3) by (simp add: fits_def fits_s20_def bitfield_simps)
qed

lemma chunks_fit_sectors:
  assumes "dev_verid dev = NVM_SPEC_VERID_20" "geo_wf v u len" "chunks_fit dev v len"
  shows "sectors_in {a. fits dev a} v u len"
  unfolding sectors_in_def
proof (intro allI impI)
  fix s assume "s < nblks_of v * len"
  then obtain k x where kx: "k < nblks_of v" "x < len" "sector_addr v u s = set_l_sectr (of_nat x) (vblk_blks v ! k)"
    using sector_addr_place [OF assms(2)] by blast
  have g: "len \<le> 2 ^ 32" "nblks_of v \<le> length (vblk_blks v)" using assms(2) by (auto simp: geo_wf_def vblk_wf_def)
  have "fits dev (vblk_blks v ! k)" using assms(3) kx(1) g(2) by (simp add: chunks_fit_def list_all_length)
  then have "fits dev (set_l_sectr (of_nat x) (vblk_blks v ! k))"
    using assms(3) kx(2) g(1) by (intro fits_set_sectr [OF assms(1)]) (simp_all add: chunks_fit_def)
  then show "sector_addr v u s \<in> {a. fits dev a}" by (simp add: kx(3))
qed

text \<open>A kernel whose device is a function from device addresses to sectors.\<close>

definition ex_exec_vio :: "nvm_cmd_vuser \<Rightarrow> u64 media \<Rightarrow> u64 media" where
  "ex_exec_vio cmd =
     (if vu_opcode cmd = ucast NVM_DOPC_VECTOR_WRITE then ex_media_write 4096 (cmd_ppas cmd) (vu_addr cmd)
      else if vu_opcode cmd = ucast NVM_DOPC_VECTOR_READ then ex_media_read 4096 (cmd_ppas cmd) (vu_addr cmd) else id)"

definition ex_kern_vio :: "u64 media kern" where
  "ex_kern_vio = \<lparr>k_ioctl = (\<lambda>fd req w. (\<lparr>ir_err = 0, ir_errno = EKEEP, ir_status = 0, ir_result = 0\<rparr>,
       case req of SubmitVio cmd \<Rightarrow> ex_exec_vio cmd w | _ \<Rightarrow> w)),
     k_open = (\<lambda>_ _ w. (Inr 3, w)), k_is_blk = (\<lambda>_ w. (Inr True, w)), k_close = (\<lambda>_ w. w),
     k_pread = (\<lambda>_ _ n _ w. (Inr (uint n), w)), k_pwrite = (\<lambda>_ _ n _ w. (Inr (uint n), w)),
     k_ret_vio = (\<lambda>_ _ _ w. w), k_ret_status = (\<lambda>_ _ w. w), k_idfy_at = (\<lambda>_ _. dev_idfy dev_zero),
     k_ns_at = (\<lambda>_ _. dev_ns dev_zero), k_bbt_at = (\<lambda>_ _ _. \<lparr>sbbt_tblid = [], sbbt_tblks = 0, sbbt_tfact = 0,
       sbbt_tgrown = 0, sbbt_tdresv = 0, sbbt_thresv = 0, sbbt_blk = []\<rparr>), k_descr_at = (\<lambda>_ _. ex_log 0)\<rparr>"

lemma ex_vio_laws: "vio_laws ex_kern_vio dev 4096 fst snd" "vio_answers ex_kern_vio dev" "free_laws ex_sys_media fst snd"
proof -
  have len: "length (cmd_ppas cmd) * 4096 \<le> 2 ^ 64" if "length (cmd_ppas cmd) = unat (vu_nppas cmd) + 1" for cmd
    using unsigned_less [of "vu_nppas cmd", where ?'a = nat] that by simp
  have op: "(ucast NVM_DOPC_VECTOR_READ :: u8) \<noteq> ucast NVM_DOPC_VECTOR_WRITE" by simp
  have run: "w' = ex_exec_vio cmd w" if "k_ioctl ex_kern_vio (dev_fd dev) (SubmitVio cmd) w = (r, w')" for cmd w r w'
    using that by (simp add: ex_kern_vio_def)
  show "vio_laws ex_kern_vio dev 4096 fst snd"
    unfolding vio_laws_def
  proof (intro conjI allI impI)
    fix cmd w r w'
    assume "k_ioctl ex_kern_vio (dev_fd dev) (SubmitVio cmd) w = (r, w')" and n: "length (cmd_ppas cmd) = unat (vu_nppas cmd) + 1"
    then have w': "w' = ex_exec_vio cmd w" by (simp only: run)
    {
      assume o: "vu_opcode cmd = ucast NVM_DOPC_VECTOR_WRITE" and d: "distinct (cmd_ppas cmd)"
      have x: "w' = ex_media_write 4096 (cmd_ppas cmd) (vu_addr cmd) w" unfolding w' ex_exec_vio_def o by simp
      show "snd w' = snd w" "t < length (cmd_ppas cmd) * 4096 \<Longrightarrow> fst w' (cmd_ppas cmd ! (t div 4096)) (t mod 4096) = snd w (vu_addr cmd + of_nat t)"
        "a \<notin> set (cmd_ppas cmd) \<Longrightarrow> fst w' a = fst w a" for t a
        unfolding x by (rule ex_media_write_laws ex_media_written [OF d]; assumption)+
    next
      assume o: "vu_opcode cmd = ucast NVM_DOPC_VECTOR_READ"
      have x: "w' = ex_media_read 4096 (cmd_ppas cmd) (vu_addr cmd) w" unfolding w' ex_exec_vio_def o by simp
      show "fst w' = fst w" "t < length (cmd_ppas cmd) * 4096 \<Longrightarrow> snd w' (vu_addr cmd + of_nat t) = fst w (cmd_ppas cmd ! (t div 4096)) (t mod 4096)" for t
        unfolding x by (rule ex_media_read_laws(1), rule ex_media_read_laws(3) [OF len [OF n]])
      show "snd w' q = snd w q" if "\<forall>t<length (cmd_ppas cmd) * 4096. q \<noteq> vu_addr cmd + of_nat t" for q
        unfolding x using that by (intro ex_media_read_laws(2)) blast
    }
  qed (simp_all add: ex_kern_vio_def)
  show "vio_answers ex_kern_vio dev" by (simp add: vio_answers_def ex_kern_vio_def vio_accepts_def)
  show "free_laws ex_sys_media fst snd" by (simp add: free_laws_def ex_sys_media_def)
qed

lemma ex_chunks_fit: "wf_fmt ex_dev_unit" "chunks_fit ex_dev_unit ex_vblk 6144" "sector_nbytes (dev_geo ex_dev_unit) = of_nat 4096"
proof -
  show "wf_fmt ex_dev_unit" using ex_dev_wf(1) by (simp add: wf_off_def wf_fmt_def wf_lbaf_def ex_dev_unit_def ex_dev_s20_def)
  show "chunks_fit ex_dev_unit ex_vblk 6144" by code_simp
  show "sector_nbytes (dev_geo ex_dev_unit) = of_nat 4096" by (simp add: ex_dev_unit_def ex_dev_s20_def)
qed

end
