(* ===== verification/Nvm_Lbd.thy ===== *)
theory Nvm_Lbd
  imports Nvm_Ioctl Nvm_Vblk "HOL-Library.Multiset"
begin

text \<open>
  The backend \<open>NVM_BE_LBD\<close>, \<open>src/nvm_be_lbd.c\<close>, with \<open>libaio\<close>: scalar commands are reads, writes and
  discards of a block device, synchronous with system calls and asynchronous with the kernel's \<open>aio\<close>;
  everything else is the ioctl backend. The properties are about the asynchronous contexts: who owns
  the control blocks, and when waiting ends.
\<close>

section \<open>Asynchronous contexts\<close>

text \<open>
  \<open>struct nvm_be_lbd_async_state\<close>. The array \<open>iocbs\<close> is the list of its pointers, \<open>iocbs_at\<close> its address.
  The first \<open>outstanding\<close> entries are in use, the others are free.
\<close>

record nvm_be_lbd_async_state =
  aio_ctx :: u64
  aio_events :: ptr
  iocbs_at :: ptr
  iocbs :: "ptr list"

type_synonym lbd_st = "nvm_async_ctx \<times> nvm_be_lbd_async_state"

datatype aio_opcode = IO_CMD_PREAD | IO_CMD_PWRITE

text \<open>A control block as \<open>io_prep_pread\<close> and \<open>io_prep_pwrite\<close> fill it, with its member \<open>data\<close>.\<close>

record iocb =
  iocb_opcode :: aio_opcode
  iocb_fd :: int
  iocb_buf :: ptr
  iocb_nbytes :: u64
  iocb_offset :: u64
  iocb_data :: ptr

record io_event =
  ev_obj :: ptr
  ev_data :: ptr
  ev_res2 :: u64

text \<open>
  The kernel's \<open>aio\<close>, and the memory of the process as far as it holds contexts and the members of
  \<open>struct nvm_ret\<close>. \<open>aio_getevents\<close> is given the least and the greatest number of events and whether the
  timeout is zero (or there is none); it returns the error number or the events, or does not return.
\<close>

record 'w aio =
  aio_queue_init :: "u32 \<Rightarrow> ('w, u64) op"
  aio_queue_release :: "u64 \<Rightarrow> ('w, unit) op"
  aio_submit :: "u64 \<Rightarrow> ptr \<Rightarrow> iocb \<Rightarrow> ('w, unit) op"
  aio_getevents :: "u64 \<Rightarrow> u32 \<Rightarrow> u32 \<Rightarrow> bool \<Rightarrow> 'w \<Rightarrow> ((int + io_event list) \<times> 'w) option"
  aio_load :: "ptr \<Rightarrow> 'w \<Rightarrow> lbd_st option"
  aio_save :: "ptr \<Rightarrow> lbd_st option \<Rightarrow> 'w \<Rightarrow> 'w"
  aio_ret_ctx :: "ptr \<Rightarrow> 'w \<Rightarrow> ptr"
  aio_ret_status :: "ptr \<Rightarrow> u16 \<Rightarrow> 'w \<Rightarrow> 'w"

text \<open>A function that uses the context at an address.\<close>

definition with_ctx :: "'w aio \<Rightarrow> ptr \<Rightarrow> (lbd_st \<times> 'w, 'a) op \<Rightarrow> ('w, 'a) op" where
  "with_ctx aio p f w = (case aio_load aio p w of None \<Rightarrow> (Inl (Fault NullDeref), w)
     | Some st \<Rightarrow> (case f (st, w) of (r, (st', w')) \<Rightarrow> (r, aio_save aio p (Some st') w')))"

section \<open>Initialisation and termination\<close>

text \<open>None of the allocations is checked; a null pointer is a fault where it is dereferenced.\<close>

definition alloc_deref :: "'w sys \<Rightarrow> u64 \<Rightarrow> u64 \<Rightarrow> ('w, ptr) op" where
  "alloc_deref sys n sz = andThen (alloc_or_null sys n sz) (\<lambda>p. if p = NULL then fail (Fault NullDeref) else ok p)"

definition nvm_be_lbd_async_init :: "'w sys \<Rightarrow> 'w aio \<Rightarrow> nvm_dev \<Rightarrow> u32 \<Rightarrow> u16 \<Rightarrow> ('w, nvm_async_ctx) op" where
  "nvm_be_lbd_async_init sys aio dev depth flags =
     andThen (alloc_or_null sys 1 24) (\<lambda>state.
     andThen (alloc_deref sys 1 16) (\<lambda>self.
     let depth = (if depth = 0 then 256 else depth) in
     if state = NULL then fail (Fault NullDeref)
     else andThen (alloc_or_null sys (ucast depth) 32) (\<lambda>events.
       andThen (alloc_deref sys (ucast depth) 8) (\<lambda>arr.
       andThen (fold_op (\<lambda>_ ps. andThen (alloc_or_null sys 1 64) (\<lambda>p. ok (ps @ [p]))) [0..<unat depth] []) (\<lambda>ps.
       andThen (aio_queue_init aio depth) (\<lambda>q.
       let ctx = \<lparr>ctx_self = self, ctx_depth = depth, ctx_outstanding = 0, ctx_be_ctx = state\<rparr>;
         st = \<lparr>aio_ctx = q, aio_events = events, iocbs_at = arr, iocbs = ps\<rparr> in
       andThen (upd (aio_save aio self (Some (ctx, st)))) (\<lambda>_. ok ctx)))))))"

text \<open>The frees come before \<open>io_queue_release\<close>; when it fails the context stays without its arrays.\<close>

definition nvm_be_lbd_async_term :: "'w sys \<Rightarrow> 'w aio \<Rightarrow> nvm_dev \<Rightarrow> ptr \<Rightarrow> ('w, unit) op" where
  "nvm_be_lbd_async_term sys aio dev ctxp w = (case aio_load aio ctxp w of None \<Rightarrow> (Inl (Fault NullDeref), w)
     | Some (ctx, st) \<Rightarrow>
         andThen (each_op (\<lambda>i. if length (iocbs st) \<le> i then fail (Fault OutOfBounds) else upd (sys_free sys (iocbs st ! i))) [0..<unat (ctx_depth ctx)]) (\<lambda>_.
         andThen (upd (sys_free sys (aio_events st))) (\<lambda>_.
         andThen (upd (sys_free sys (iocbs_at st))) (\<lambda>_.
         andThen (upd (aio_save aio ctxp (Some (ctx, st\<lparr>aio_events := NULL, iocbs_at := NULL, iocbs := []\<rparr>)))) (\<lambda>_.
         andThen (aio_queue_release aio (aio_ctx st)) (\<lambda>_.
         andThen (upd (sys_free sys (ctx_be_ctx ctx))) (\<lambda>_.
         andThen (upd (sys_free sys ctxp)) (\<lambda>_.
         upd (aio_save aio ctxp None)))))))) w)"

section \<open>Control blocks\<close>

text \<open>\<open>state->iocbs[ctx->outstanding++]\<close> and \<open>state->iocbs[--(ctx->outstanding)] = event->obj\<close>.\<close>

definition take_iocb :: "lbd_st \<Rightarrow> (ptr \<times> lbd_st) res" where
  "take_iocb = (\<lambda>(ctx, st). if length (iocbs st) \<le> unat (ctx_outstanding ctx) then Inl (Fault OutOfBounds)
     else Inr (iocbs st ! unat (ctx_outstanding ctx), (ctx\<lparr>ctx_outstanding := ctx_outstanding ctx + 1\<rparr>, st)))"

definition put_iocb :: "ptr \<Rightarrow> lbd_st \<Rightarrow> lbd_st res" where
  "put_iocb p = (\<lambda>(ctx, st). let n = ctx_outstanding ctx - 1 in
     if length (iocbs st) \<le> unat n then Inl (Fault OutOfBounds)
     else Inr (ctx\<lparr>ctx_outstanding := n\<rparr>, st\<lparr>iocbs := (iocbs st)[unat n := p]\<rparr>))"

section \<open>Reaping\<close>

text \<open>
  One event. The member \<open>res\<close> of the event, which holds the number of bytes or the error, is not read. The
  callback is made by the caller of the backend, with the list of events this returns: the callbacks of
  the library do not use the context.
\<close>

definition reap_event :: "'w aio \<Rightarrow> io_event \<Rightarrow> (lbd_st \<times> 'w, unit) op" where
  "reap_event aio ev = (\<lambda>(st, w).
     if ev_data ev = NULL then (Inl (Fault NullDeref), (st, w))
     else let w = aio_ret_status aio (ev_data ev) (ucast (ev_res2 ev)) w in
       (case put_iocb (ev_obj ev) st of Inl e \<Rightarrow> (Inl e, (st, w)) | Inr st' \<Rightarrow> (Inr (), (st', w))))"

definition event_cb :: "io_event \<Rightarrow> ptr \<times> bool" where
  "event_cb ev = (ev_data ev, (ucast (ev_res2 ev) :: u16) \<noteq> 0)"

text \<open>The loop; a negative result of \<open>io_getevents\<close> is returned with its sign changed.\<close>

partial_function (option) cmd_async_getevents ::
  "'w aio \<Rightarrow> u32 \<Rightarrow> u32 \<Rightarrow> bool \<Rightarrow> int \<Rightarrow> (ptr \<times> bool) list \<Rightarrow> lbd_st \<times> 'w \<Rightarrow>
     ((int res \<times> (ptr \<times> bool) list) \<times> (lbd_st \<times> 'w)) option" where
  "cmd_async_getevents aio mn mx tz nevents cbs s =
     (if ctx_outstanding (fst (fst s)) = 0 then Some ((Inr nevents, cbs), s)
      else case aio_getevents aio (aio_ctx (snd (fst s))) mn mx tz (snd s) of None \<Rightarrow> None
        | Some (Inl e, w) \<Rightarrow> Some ((Inr e, cbs), (fst s, w))
        | Some (Inr evs, w) \<Rightarrow>
            if evs = [] then Some ((Inr nevents, cbs), (fst s, w))
            else (case each_op (reap_event aio) evs (fst s, w) of
                (Inl f, s') \<Rightarrow> Some ((Inl f, cbs), s')
              | (Inr _, s') \<Rightarrow> cmd_async_getevents aio mn mx tz (nevents + int (length evs)) (cbs @ map event_cb evs) s'))"

declare cmd_async_getevents.simps [code]

definition lbd_poke :: "'w aio \<Rightarrow> u32 \<Rightarrow> lbd_st \<times> 'w \<Rightarrow> ((int res \<times> (ptr \<times> bool) list) \<times> (lbd_st \<times> 'w)) option" where
  "lbd_poke aio mx s = cmd_async_getevents aio 0 (if mx = 0 then ctx_depth (fst (fst s)) else mx) True 0 [] s"

definition lbd_wait :: "'w aio \<Rightarrow> lbd_st \<times> 'w \<Rightarrow> ((int res \<times> (ptr \<times> bool) list) \<times> (lbd_st \<times> 'w)) option" where
  "lbd_wait aio s = cmd_async_getevents aio (ctx_outstanding (fst (fst s))) (ctx_depth (fst (fst s))) False 0 [] s"

definition reaping_ctx ::
  "'w aio \<Rightarrow> ptr \<Rightarrow> (lbd_st \<times> 'w \<Rightarrow> ((int res \<times> (ptr \<times> bool) list) \<times> (lbd_st \<times> 'w)) option) \<Rightarrow> 'w async_op" where
  "reaping_ctx aio p f w = (case aio_load aio p w of None \<Rightarrow> ((Inl (Fault NullDeref), []), w)
     | Some st \<Rightarrow> (case f (st, w) of None \<Rightarrow> ((Inl (Fault NoReturn), []), w)
         | Some (r, (st', w')) \<Rightarrow> (r, aio_save aio p (Some st') w')))"

definition nvm_be_lbd_async_poke :: "'w aio \<Rightarrow> nvm_dev \<Rightarrow> ptr \<Rightarrow> u32 \<Rightarrow> 'w async_op" where
  "nvm_be_lbd_async_poke aio dev ctxp mx = reaping_ctx aio ctxp (lbd_poke aio mx)"

definition nvm_be_lbd_async_wait :: "'w aio \<Rightarrow> nvm_dev \<Rightarrow> ptr \<Rightarrow> 'w async_op" where
  "nvm_be_lbd_async_wait aio dev ctxp = reaping_ctx aio ctxp (lbd_wait aio)"

section \<open>Scalar commands\<close>

definition lbd_iocb :: "nvm_dev \<Rightarrow> int \<Rightarrow> ptr \<Rightarrow> u64 \<Rightarrow> ptr \<Rightarrow> aio_opcode \<Rightarrow> iocb" where
  "lbd_iocb dev naddrs data offset ret opc = \<lparr>iocb_opcode = opc, iocb_fd = dev_fd dev, iocb_buf = data,
     iocb_nbytes = l_nbytes (dev_geo dev) * word_of_int naddrs, iocb_offset = offset, iocb_data = ret\<rparr>"

definition cmd_async_scalar_wr ::
  "'w aio \<Rightarrow> nvm_dev \<Rightarrow> int \<Rightarrow> ptr \<Rightarrow> u64 \<Rightarrow> ptr \<Rightarrow> u16 \<Rightarrow> (lbd_st \<times> 'w, unit) op" where
  "cmd_async_scalar_wr aio dev naddrs data offset ret opcode = (\<lambda>(st, w).
     if ctx_outstanding (fst st) = ctx_depth (fst st) then (Inl (Errno EAGAIN), (st, w))
     else case take_iocb st of Inl e \<Rightarrow> (Inl e, (st, w))
       | Inr (p, st') \<Rightarrow>
           if opcode \<noteq> NVM_DOPC_SCALAR_WRITE \<and> opcode \<noteq> NVM_DOPC_SCALAR_READ then (Inl (Errno EINVAL), (st', w))
           else if p = NULL then (Inl (Fault NullDeref), (st', w))
           else let opc = (if opcode = NVM_DOPC_SCALAR_WRITE then IO_CMD_PWRITE else IO_CMD_PREAD) in
             (case aio_submit aio (aio_ctx (snd st')) p (lbd_iocb dev naddrs data offset ret opc) w of (r, w') \<Rightarrow> (r, (st', w'))))"

definition nvm_be_lbd_scalar_erase :: "'w kern \<Rightarrow> nvm_dev \<Rightarrow> nvm_addr list \<Rightarrow> int \<Rightarrow> u16 \<Rightarrow> ptr \<Rightarrow> ('w, unit) op" where
  "nvm_be_lbd_scalar_erase k dev addrs naddrs flags ret =
     (if flags AND 0x20 \<noteq> 0 then fail (Errno EINVAL)
      else each_op (\<lambda>i w.
        if length addrs \<le> i then (Inl (Fault OutOfBounds), w)
        else case k_ioctl k (dev_fd dev) (Discard (nvm_addr_gen2off dev (addrs ! i)) (push_bit (unat (dev_ssw dev)) (l_nsectr (dev_geo dev)))) w of
          (r, w') \<Rightarrow> (if ir_err r \<noteq> 0 then Inl (ioctl_failure r) else Inr (), w')) [0..<nat naddrs])"

text \<open>The two commands differ in the system call and the opcode. A result of fewer bytes is a success.\<close>

definition lbd_scalar_rw ::
  "'w aio \<Rightarrow> (int \<Rightarrow> ptr \<Rightarrow> u64 \<Rightarrow> u64 \<Rightarrow> ('w, int) op) \<Rightarrow> u16 \<Rightarrow> nvm_dev \<Rightarrow> nvm_addr \<Rightarrow> int \<Rightarrow> ptr \<Rightarrow> ptr \<Rightarrow> u16 \<Rightarrow> ptr \<Rightarrow> ('w, unit) op" where
  "lbd_scalar_rw aio sysc opcode dev addr naddrs data meta flags ret =
     (let offset = nvm_addr_gen2off dev addr in
      if meta \<noteq> NULL then fail (Errno ENOSYS)
      else if flags AND 0x20 \<noteq> 0 then
        (if ret = NULL then fail (Fault NullDeref)
         else (\<lambda>w. with_ctx aio (aio_ret_ctx aio ret w) (cmd_async_scalar_wr aio dev naddrs data offset ret opcode) w))
      else andThen (sysc (dev_fd dev) data (l_nbytes (dev_geo dev) * word_of_int naddrs) offset) (\<lambda>_. ok ()))"

definition nvm_be_lbd_scalar_read ::
  "'w aio \<Rightarrow> 'w kern \<Rightarrow> nvm_dev \<Rightarrow> nvm_addr \<Rightarrow> int \<Rightarrow> ptr \<Rightarrow> ptr \<Rightarrow> u16 \<Rightarrow> ptr \<Rightarrow> ('w, unit) op" where
  "nvm_be_lbd_scalar_read aio k = lbd_scalar_rw aio (k_pread k) NVM_DOPC_SCALAR_READ"

definition nvm_be_lbd_scalar_write ::
  "'w aio \<Rightarrow> 'w kern \<Rightarrow> nvm_dev \<Rightarrow> nvm_addr \<Rightarrow> int \<Rightarrow> ptr \<Rightarrow> ptr \<Rightarrow> u16 \<Rightarrow> ptr \<Rightarrow> ('w, unit) op" where
  "nvm_be_lbd_scalar_write aio k = lbd_scalar_rw aio (k_pwrite k) NVM_DOPC_SCALAR_WRITE"

definition nvm_be_lbd_open :: "'w sys \<Rightarrow> 'w kern \<Rightarrow> string \<Rightarrow> u32 \<Rightarrow> ('w, nvm_dev) op" where
  "nvm_be_lbd_open sys k path flags = nvm_be_ioctl_open sys k path 1"

definition nvm_be_lbd :: "'w sys \<Rightarrow> 'w kern \<Rightarrow> 'w aio \<Rightarrow> 'w nvm_be" where
  "nvm_be_lbd sys k aio = (ioctl_ops sys k)\<lparr>be_id := NVM_BE_LBD, be_name := ''NVM_BE_LBD'',
     be_open := nvm_be_lbd_open sys k,
     be_scalar_erase := nvm_be_lbd_scalar_erase k, be_scalar_write := nvm_be_lbd_scalar_write aio k,
     be_scalar_read := nvm_be_lbd_scalar_read aio k,
     be_async_init := nvm_be_lbd_async_init sys aio, be_async_term := nvm_be_lbd_async_term sys aio,
     be_async_poke := nvm_be_lbd_async_poke aio, be_async_wait := nvm_be_lbd_async_wait aio\<rparr>"

section \<open>Pools of slots\<close>

text \<open>
  An array of pointers of which the first \<open>top\<close> are taken: a slot is taken at \<open>top\<close>, and whatever slot comes
  back is stored just below it. The free slots are a multiset that taking and giving back keep track of.
\<close>

definition pool_free :: "ptr list \<Rightarrow> nat \<Rightarrow> ptr multiset" where
  "pool_free ps n = mset (drop n ps)"

text \<open>
  The invariant: of the slots \<open>S\<close> the pool started with, those in use and the free ones are different, and
  at least as many are taken as are in use.
\<close>

definition pool_inv :: "ptr multiset \<Rightarrow> ptr multiset \<Rightarrow> ptr list \<Rightarrow> nat \<Rightarrow> bool" where
  "pool_inv S used ps n \<longleftrightarrow> used + pool_free ps n \<subseteq># S \<and> size used \<le> n \<and> n \<le> length ps"

locale slot_pool =
  fixes slots :: "'s \<Rightarrow> ptr list" and top :: "'s \<Rightarrow> nat"
    and takes :: "'s \<Rightarrow> ptr \<Rightarrow> 's \<Rightarrow> bool" and puts :: "ptr \<Rightarrow> 's \<Rightarrow> 's \<Rightarrow> bool"
  assumes takes: "takes s p s' \<Longrightarrow> length (slots s) < 2 ^ 32 \<Longrightarrow>
      top s < length (slots s) \<and> p = slots s ! top s \<and> slots s' = slots s \<and> top s' = Suc (top s)"
    and puts: "puts p s s' \<Longrightarrow> 0 < top s \<Longrightarrow> slots s' = (slots s)[top s - 1 := p] \<and> top s' = top s - 1"
begin

lemma take_free:
  assumes "takes s p s'" "length (slots s) < 2 ^ 32"
  shows "pool_free (slots s) (top s) = add_mset p (pool_free (slots s') (top s'))"
  using takes [OF assms] by (simp add: pool_free_def Cons_nth_drop_Suc [symmetric])

lemma put_free:
  assumes "puts p s s'" "0 < top s" "top s \<le> length (slots s)"
  shows "pool_free (slots s') (top s') = add_mset p (pool_free (slots s) (top s))"
proof -
  let ?n = "top s - 1"
  have "drop ?n ((slots s)[?n := p]) = p # drop (top s) (slots s)"
    using assms(2,3) by (subst Cons_nth_drop_Suc [symmetric]) simp_all
  then show ?thesis using puts [OF assms(1,2)] by (simp add: pool_free_def)
qed

text \<open>A taken slot is in use, or it is lost.\<close>

lemma take_inv:
  assumes "takes s p s'" "length (slots s) < 2 ^ 32" "pool_inv S used (slots s) (top s)"
  shows "pool_inv S (add_mset p used) (slots s') (top s')" "pool_inv S used (slots s') (top s')"
  using assms takes [OF assms(1,2)] take_free [OF assms(1,2)]
  by (auto simp: pool_inv_def dest: mset_subset_eq_insertD intro: subset_mset.less_imp_le)

lemma put_inv:
  assumes "puts p s s'" "p \<in># used" "pool_inv S used (slots s) (top s)"
  shows "pool_inv S (used - {#p#}) (slots s') (top s')"
proof -
  from assms(2) obtain u where u: "used = add_mset p u" by (metis mset_add)
  then have t: "0 < top s" "top s \<le> length (slots s)" using assms(3) by (auto simp: pool_inv_def)
  show ?thesis using assms(3) t puts [OF assms(1) t(1)] put_free [OF assms(1) t] by (auto simp: pool_inv_def u)
qed

end

lemma pool_inv_once:
  assumes "pool_inv (mset ps0) used ps n" "distinct ps0"
  shows "count (used + pool_free ps n) p \<le> 1"
proof -
  have "used + pool_free ps n \<subseteq># mset ps0" using assms(1) by (simp add: pool_inv_def)
  then have "count (used + pool_free ps n) p \<le> count (mset ps0) p" by (rule mset_subset_eq_count)
  also have "\<dots> \<le> 1" using assms(2) by (simp add: distinct_count_atmost_1)
  finally show ?thesis .
qed

lemma unat_dec: "0 < unat n \<Longrightarrow> unat (n - 1) = unat n - 1" for n :: "'a::len word"
  by (metis One_nat_def less_eq_Suc_le unat_1 unat_sub word_le_nat_alt)

lemma unat_inc: "unat n < l \<Longrightarrow> l < 2 ^ LENGTH('a) \<Longrightarrow> unat (n + 1) = Suc (unat n)" for n :: "'a::len word"
  by (subst unat_add_lt) simp_all

text \<open>The control blocks of a context, and the result structures of a virtual block.\<close>

interpretation iocb_pool: slot_pool "\<lambda>s. iocbs (snd s)" "\<lambda>s. unat (ctx_outstanding (fst s))"
  "\<lambda>s p s'. take_iocb s = Inr (p, s')" "\<lambda>p s s'. put_iocb p s = Inr s'"
proof
  fix s p s'
  assume "take_iocb s = Inr (p, s')" "length (iocbs (snd s)) < 2 ^ 32"
  then show "unat (ctx_outstanding (fst s)) < length (iocbs (snd s)) \<and> p = iocbs (snd s) ! unat (ctx_outstanding (fst s)) \<and>
      iocbs (snd s') = iocbs (snd s) \<and> unat (ctx_outstanding (fst s')) = Suc (unat (ctx_outstanding (fst s)))"
    by (auto simp: take_iocb_def split_beta unat_inc [where l = "length (iocbs (snd s))"] split: if_splits)
next
  fix p s s'
  assume "put_iocb p s = Inr s'" "0 < unat (ctx_outstanding (fst s))"
  then show "iocbs (snd s') = (iocbs (snd s))[unat (ctx_outstanding (fst s)) - 1 := p] \<and>
      unat (ctx_outstanding (fst s')) = unat (ctx_outstanding (fst s)) - 1"
    by (auto simp: put_iocb_def split_beta Let_def unat_dec split: if_splits)
qed

interpretation ret_pool: slot_pool "\<lambda>(v, nerr, w). vblk_rets v" "\<lambda>(v, nerr, w). unat (vblk_retsp v)"
  "\<lambda>s p s'. take_ret s = (Inr p, s')" "\<lambda>p s s'. \<exists>sys err. vblk_async_callback sys (p, err) s = (Inr (), s')"
proof
  fix s :: "nvm_vblk \<times> u64 \<times> 'w" and p s'
  assume "take_ret s = (Inr p, s')" "length (case s of (v, nerr, w) \<Rightarrow> vblk_rets v) < 2 ^ 32"
  then show "(case s of (v, nerr, w) \<Rightarrow> unat (vblk_retsp v)) < length (case s of (v, nerr, w) \<Rightarrow> vblk_rets v) \<and>
      p = (case s of (v, nerr, w) \<Rightarrow> vblk_rets v) ! (case s of (v, nerr, w) \<Rightarrow> unat (vblk_retsp v)) \<and>
      (case s' of (v, nerr, w) \<Rightarrow> vblk_rets v) = (case s of (v, nerr, w) \<Rightarrow> vblk_rets v) \<and>
      (case s' of (v, nerr, w) \<Rightarrow> unat (vblk_retsp v)) = Suc (case s of (v, nerr, w) \<Rightarrow> unat (vblk_retsp v))"
    by (cases s) (auto simp: take_ret_def Let_def unat_inc [where l = "length (vblk_rets (fst s))"] split: if_splits)
next
  fix p s s'
  assume "\<exists>sys err. vblk_async_callback sys (p, err) s = (Inr (), s')" "0 < (case s of (v, nerr, w :: 'w) \<Rightarrow> unat (vblk_retsp v))"
  then show "(case s' of (v, nerr, w) \<Rightarrow> vblk_rets v) = (case s of (v, nerr, w) \<Rightarrow> vblk_rets v)[(case s of (v, nerr, w) \<Rightarrow> unat (vblk_retsp v)) - 1 := p] \<and>
      (case s' of (v, nerr, w) \<Rightarrow> unat (vblk_retsp v)) = (case s of (v, nerr, w) \<Rightarrow> unat (vblk_retsp v)) - 1"
    by (cases s) (auto simp: vblk_async_callback_def Let_def unat_dec split: if_splits)
qed

section \<open>The kernel's contract\<close>

text \<open>
  What the backend relies on of \<open>aio\<close> (\<open>io_submit(2)\<close>, \<open>io_getevents(2)\<close>), for a queue \<open>q\<close>: a submission
  that succeeds puts the control block in flight with its \<open>data\<close>, one that fails does not; events
  are reported for control blocks in flight, once, at most \<open>mx\<close> and without a timeout at least \<open>mn\<close>; and
  the call does not return if there is no timeout and fewer than \<open>mn\<close> are in flight.
\<close>

definition ev_pair :: "io_event \<Rightarrow> ptr \<times> ptr" where
  "ev_pair ev = (ev_obj ev, ev_data ev)"

definition aio_laws :: "'w aio \<Rightarrow> u64 \<Rightarrow> ('w \<Rightarrow> (ptr \<times> ptr) multiset) \<Rightarrow> bool" where
  "aio_laws aio q infl \<longleftrightarrow>
     (\<forall>p i w w'. aio_submit aio q p i w = (Inr (), w') \<longrightarrow> infl w' = add_mset (p, iocb_data i) (infl w)) \<and>
     (\<forall>p i e w w'. aio_submit aio q p i w = (Inl e, w') \<longrightarrow> infl w' = infl w) \<and>
     (\<forall>mn mx tz w evs w'. aio_getevents aio q mn mx tz w = Some (Inr evs, w') \<longrightarrow>
        infl w = mset (map ev_pair evs) + infl w' \<and> length evs \<le> unat mx \<and> (tz \<or> unat mn \<le> length evs)) \<and>
     (\<forall>mn mx tz w e w'. aio_getevents aio q mn mx tz w = Some (Inl e, w') \<longrightarrow> infl w' = infl w) \<and>
     (\<forall>mn mx w. mn \<le> mx \<longrightarrow> aio_getevents aio q mn mx False w = None \<longleftrightarrow> size (infl w) < unat mn) \<and>
     (\<forall>mx w. aio_getevents aio q 0 mx True w \<noteq> None) \<and>
     (\<forall>r st w. infl (aio_ret_status aio r st w) = infl w)"

lemma aio_lawsD:
  assumes "aio_laws aio q infl"
  shows "aio_submit aio q p i w = (Inr (), w') \<Longrightarrow> infl w' = add_mset (p, iocb_data i) (infl w)"
    "aio_submit aio q p i w = (Inl e, w') \<Longrightarrow> infl w' = infl w"
    "aio_getevents aio q mn mx tz w = Some (Inr evs, w') \<Longrightarrow> infl w = mset (map ev_pair evs) + infl w'"
    "aio_getevents aio q mn mx False w = Some (Inr evs, w') \<Longrightarrow> unat mn \<le> length evs"
    "aio_getevents aio q mn mx tz w = Some (Inl e', w') \<Longrightarrow> infl w' = infl w"
    "mn \<le> mx \<Longrightarrow> aio_getevents aio q mn mx False w = None \<longleftrightarrow> size (infl w) < unat mn"
    "aio_getevents aio q 0 mx True w \<noteq> None" "infl (aio_ret_status aio r st w) = infl w"
  using assms unfolding aio_laws_def by metis+

definition aio_answers :: "'w aio \<Rightarrow> u64 \<Rightarrow> bool" where
  "aio_answers aio q \<longleftrightarrow> (\<forall>mn mx tz w e w'. mn \<le> mx \<longrightarrow> aio_getevents aio q mn mx tz w \<noteq> Some (Inl e, w'))"

section \<open>The invariant of a context\<close>

definition lbd_inv :: "('w \<Rightarrow> (ptr \<times> ptr) multiset) \<Rightarrow> ptr multiset \<Rightarrow> u64 \<Rightarrow> u32 \<Rightarrow> (ptr \<times> ptr) multiset \<Rightarrow> lbd_st \<times> 'w \<Rightarrow> bool" where
  "lbd_inv infl S q d extra = (\<lambda>((ctx, st), w).
     pool_inv S (image_mset fst (extra + infl w)) (iocbs st) (unat (ctx_outstanding ctx)) \<and>
     length (iocbs st) = unat d \<and> ctx_depth ctx = d \<and> aio_ctx st = q \<and> (\<forall>x \<in># extra + infl w. snd x \<noteq> 0))"

text \<open>The number of control blocks that are taken without being in flight.\<close>

definition lbd_lost :: "('w \<Rightarrow> (ptr \<times> ptr) multiset) \<Rightarrow> lbd_st \<times> 'w \<Rightarrow> nat" where
  "lbd_lost infl = (\<lambda>((ctx, st), w). unat (ctx_outstanding ctx) - size (infl w))"

lemma reap_event_inv:
  assumes laws: "aio_laws aio q infl" and inv: "lbd_inv infl S q d (add_mset (ev_pair ev) extra) s"
  shows "\<exists>s'. reap_event aio ev s = (Inr (), s') \<and> lbd_inv infl S q d extra s' \<and> infl (snd s') = infl (snd s)
    \<and> Suc (unat (ctx_outstanding (fst (fst s')))) = unat (ctx_outstanding (fst (fst s)))"
proof -
  obtain ctx st w where s: "s = ((ctx, st), w)" by (metis prod.exhaust)
  let ?used = "image_mset fst (add_mset (ev_pair ev) extra + infl w)"
  have p: "pool_inv S ?used (iocbs st) (unat (ctx_outstanding ctx))" and len: "length (iocbs st) = unat d"
    and m: "ctx_depth ctx = d" "aio_ctx st = q" "\<forall>x \<in># extra + infl w. snd x \<noteq> 0" and nn: "ev_data ev \<noteq> 0"
    using inv by (auto simp: lbd_inv_def s ev_pair_def)
  have n: "0 < unat (ctx_outstanding ctx)" "unat (ctx_outstanding ctx) \<le> length (iocbs st)" using p by (auto simp: pool_inv_def)
  let ?o = "ctx_outstanding ctx - 1"
  have o: "unat ?o = unat (ctx_outstanding ctx) - 1" by (rule unat_dec [OF n(1)])
  then have put: "put_iocb (ev_obj ev) (ctx, st) =
      Inr (ctx\<lparr>ctx_outstanding := ?o\<rparr>, st\<lparr>iocbs := (iocbs st)[unat ?o := ev_obj ev]\<rparr>)"
    using n by (simp add: put_iocb_def Let_def)
  have in_used: "ev_obj ev \<in># ?used" by (simp add: ev_pair_def)
  note q = iocb_pool.put_inv [OF put in_used, unfolded fst_conv snd_conv, OF p]
  have "?used - {#ev_obj ev#} = image_mset fst (extra + infl w)" by (simp add: ev_pair_def)
  then show ?thesis
    using q nn n o len m by (auto simp: reap_event_def s put Let_def lbd_inv_def aio_lawsD(8) [OF laws])
qed

lemma reap_events_inv:
  assumes laws: "aio_laws aio q infl" and "lbd_inv infl S q d (mset (map ev_pair evs)) s"
  shows "\<exists>s'. each_op (reap_event aio) evs s = (Inr (), s') \<and> lbd_inv infl S q d {#} s' \<and> infl (snd s') = infl (snd s)
    \<and> unat (ctx_outstanding (fst (fst s'))) + length evs = unat (ctx_outstanding (fst (fst s)))"
  using assms(2)
proof (induction evs arbitrary: s)
  case (Cons ev evs)
  from reap_event_inv [OF laws, of S d ev "mset (map ev_pair evs)" s] Cons.prems obtain s1 where
    1: "reap_event aio ev s = (Inr (), s1)" "lbd_inv infl S q d (mset (map ev_pair evs)) s1" "infl (snd s1) = infl (snd s)"
      "Suc (unat (ctx_outstanding (fst (fst s1)))) = unat (ctx_outstanding (fst (fst s)))" by auto
  from Cons.IH [OF 1(2)] 1 show ?case by (auto simp: andThen_Inr)
qed (simp add: ok_def)

lemma lost_eq:
  assumes "lbd_inv infl S q d extra s"
  shows "unat (ctx_outstanding (fst (fst s))) = lbd_lost infl s + size (infl (snd s))"
  using assms by (auto simp: lbd_inv_def lbd_lost_def pool_inv_def)

text \<open>One round of the loop.\<close>

lemma getevents_round:
  "ctx_outstanding ctx = 0 \<Longrightarrow> cmd_async_getevents aio mn mx tz nev cbs ((ctx, st), w) = Some ((Inr nev, cbs), ((ctx, st), w))"
  "ctx_outstanding ctx \<noteq> 0 \<Longrightarrow> aio_getevents aio (aio_ctx st) mn mx tz w = None \<Longrightarrow>
    cmd_async_getevents aio mn mx tz nev cbs ((ctx, st), w) = None"
  "ctx_outstanding ctx \<noteq> 0 \<Longrightarrow> aio_getevents aio (aio_ctx st) mn mx tz w = Some (Inl e, w') \<Longrightarrow>
    cmd_async_getevents aio mn mx tz nev cbs ((ctx, st), w) = Some ((Inr e, cbs), ((ctx, st), w'))"
  "ctx_outstanding ctx \<noteq> 0 \<Longrightarrow> aio_getevents aio (aio_ctx st) mn mx tz w = Some (Inr [], w') \<Longrightarrow>
    cmd_async_getevents aio mn mx tz nev cbs ((ctx, st), w) = Some ((Inr nev, cbs), ((ctx, st), w'))"
  "ctx_outstanding ctx \<noteq> 0 \<Longrightarrow> aio_getevents aio (aio_ctx st) mn mx tz w = Some (Inr evs, w') \<Longrightarrow> evs \<noteq> [] \<Longrightarrow>
    each_op (reap_event aio) evs ((ctx, st), w') = (Inr (), s') \<Longrightarrow>
    cmd_async_getevents aio mn mx tz nev cbs ((ctx, st), w) =
      cmd_async_getevents aio mn mx tz (nev + int (length evs)) (cbs @ map event_cb evs) s'"
  by (simp_all add: cmd_async_getevents.simps [of aio mn mx tz nev cbs])

text \<open>Reaping never faults, keeps the invariant, and does not find what is lost.\<close>

lemma getevents_inv:
  assumes laws: "aio_laws aio q infl" and "lbd_inv infl S q d {#} s"
    and "cmd_async_getevents aio mn mx tz nev cbs s = Some (r, s')"
  shows "lbd_inv infl S q d {#} s' \<and> lbd_lost infl s' = lbd_lost infl s \<and> no_fault (fst r)"
  using assms(2,3)
proof (induction "unat (ctx_outstanding (fst (fst s)))" arbitrary: s nev cbs rule: less_induct)
  case less
  obtain ctx st w where s: "s = ((ctx, st), w)" by (metis prod.exhaust)
  have q: "aio_ctx st = q" using less.prems(1) by (simp add: lbd_inv_def s)
  show ?case
  proof (cases "ctx_outstanding ctx = 0 \<or> aio_getevents aio q mn mx tz w = None")
    case True
    then show ?thesis using less.prems getevents_round(1,2) [of ctx, where aio = aio and st = st and w = w] by (fastforce simp: s q)
  next
    case False
    then obtain x w1 where g: "aio_getevents aio q mn mx tz w = Some (x, w1)" by auto
    show ?thesis
    proof (cases x)
      case (Inl e)
      have "(r, s') = ((Inr e, cbs), ((ctx, st), w1))" using less.prems(2) getevents_round(3) [of ctx aio st] g False by (simp add: s q Inl)
      then show ?thesis using less.prems(1) aio_lawsD(5) [OF laws g [unfolded Inl]] by (auto simp: s lbd_inv_def lbd_lost_def)
    next
      case (Inr evs)
      have fl: "infl w = mset (map ev_pair evs) + infl w1" by (rule aio_lawsD(3) [OF laws g [unfolded Inr]])
      have "lbd_inv infl S q d (mset (map ev_pair evs)) ((ctx, st), w1)" using less.prems(1) by (simp add: s lbd_inv_def fl)
      from reap_events_inv [OF laws this] obtain s1 where
        1: "each_op (reap_event aio) evs ((ctx, st), w1) = (Inr (), s1)" "lbd_inv infl S q d {#} s1" "infl (snd s1) = infl w1"
          "unat (ctx_outstanding (fst (fst s1))) + length evs = unat (ctx_outstanding ctx)" by auto
      have "lbd_lost infl s1 + size (infl w1) + length evs = lbd_lost infl s + size (infl w)"
        using lost_eq [OF 1(2)] lost_eq [OF less.prems(1)] 1(3,4) by (simp add: s)
      then have lost: "lbd_lost infl s1 = lbd_lost infl s" by (simp add: fl)
      show ?thesis
      proof (cases "evs = []")
        case True
        have "(r, s') = ((Inr nev, cbs), ((ctx, st), w1))"
          using less.prems(2) getevents_round(4) [of ctx aio st] g False by (simp add: s q Inr True)
        then show ?thesis using lost 1(1,2) True by (auto simp: ok_def)
      next
        case evs: False
        have "cmd_async_getevents aio mn mx tz (nev + int (length evs)) (cbs @ map event_cb evs) s1 = Some (r, s')"
          using less.prems(2) getevents_round(5) [of ctx aio st, OF _ _ evs 1(1)] g False by (simp add: s q Inr)
        moreover have "unat (ctx_outstanding (fst (fst s1))) < unat (ctx_outstanding (fst (fst s)))" using 1(4) evs by (cases evs) (simp_all add: s)
        ultimately show ?thesis using less.hyps [OF _ 1(2)] lost by auto
      qed
    qed
  qed
qed

lemma poke_returns:
  assumes laws: "aio_laws aio q infl" and "lbd_inv infl S q d {#} s"
  shows "cmd_async_getevents aio 0 mx True nev cbs s \<noteq> None"
  using assms(2)
proof (induction "unat (ctx_outstanding (fst (fst s)))" arbitrary: s nev cbs rule: less_induct)
  case less
  obtain ctx st w where s: "s = ((ctx, st), w)" by (metis prod.exhaust)
  have q: "aio_ctx st = q" using less.prems by (simp add: lbd_inv_def s)
  obtain x w1 where g: "aio_getevents aio (aio_ctx st) 0 mx True w = Some (x, w1)" using aio_lawsD(7) [OF laws, of mx w] by (auto simp: q)
  consider "ctx_outstanding ctx = 0" | e where "ctx_outstanding ctx \<noteq> 0" "x = Inl e" | "ctx_outstanding ctx \<noteq> 0" "x = Inr []"
    | evs where "ctx_outstanding ctx \<noteq> 0" "x = Inr evs" "evs \<noteq> []" by (cases x) auto
  then show ?case
  proof cases
    case 4
    have fl: "infl w = mset (map ev_pair evs) + infl w1" using aio_lawsD(3) [OF laws] g by (simp add: q 4)
    have "lbd_inv infl S q d (mset (map ev_pair evs)) ((ctx, st), w1)" using less.prems by (simp add: s lbd_inv_def fl)
    from reap_events_inv [OF laws this] obtain s1 where
      1: "each_op (reap_event aio) evs ((ctx, st), w1) = (Inr (), s1)" "lbd_inv infl S q d {#} s1"
        "unat (ctx_outstanding (fst (fst s1))) + length evs = unat (ctx_outstanding ctx)" by auto
    have "unat (ctx_outstanding (fst (fst s1))) < unat (ctx_outstanding (fst (fst s)))" using 1(3) 4(3) by (cases evs) (simp_all add: s)
    from less.hyps [OF this 1(2)] show ?thesis unfolding s getevents_round(5) [OF 4(1) g [unfolded 4(2)] 4(3) 1(1)] .
  next
    case 1
    then show ?thesis unfolding s getevents_round(1) [OF 1] by simp
  next
    case (2 e)
    then show ?thesis unfolding s getevents_round(3) [OF 2(1) g [unfolded 2(2)]] by simp
  next
    case 3
    then show ?thesis unfolding s getevents_round(4) [OF 3(1) g [unfolded 3(2)]] by simp
  qed
qed

lemma wait_none:
  assumes laws: "aio_laws aio q infl" and inv: "lbd_inv infl S q d {#} s" and "0 < lbd_lost infl s"
  shows "lbd_wait aio s = None"
proof -
  obtain ctx st w where s: "s = ((ctx, st), w)" by (metis prod.exhaust)
  have i: "aio_ctx st = q" "ctx_depth ctx = d" "unat (ctx_outstanding ctx) \<le> unat d" using inv by (auto simp: lbd_inv_def s pool_inv_def)
  have lt: "size (infl w) < unat (ctx_outstanding ctx)" using lost_eq [OF inv] assms(3) by (simp add: s)
  then have "aio_getevents aio q (ctx_outstanding ctx) d False w = None"
    using aio_lawsD(6) [OF laws] i(3) by (simp add: word_le_nat_alt)
  moreover have "ctx_outstanding ctx \<noteq> 0" using lt by auto
  ultimately show ?thesis using getevents_round(2) [of ctx aio st] by (simp add: lbd_wait_def s i)
qed

lemma wait_all:
  assumes laws: "aio_laws aio q infl" "aio_answers aio q" and inv: "lbd_inv infl S q d {#} s" and "lbd_lost infl s = 0"
  shows "\<exists>cbs s'. lbd_wait aio s = Some ((Inr (int (size (infl (snd s)))), cbs), s') \<and> ctx_outstanding (fst (fst s')) = 0
    \<and> mset (map fst cbs) = image_mset snd (infl (snd s)) \<and> infl (snd s') = {#}"
proof -
  obtain ctx st w where s: "s = ((ctx, st), w)" by (metis prod.exhaust)
  have i: "aio_ctx st = q" "ctx_depth ctx = d" "ctx_outstanding ctx \<le> d"
    using inv by (auto simp: lbd_inv_def s pool_inv_def word_le_nat_alt)
  have sz: "size (infl w) = unat (ctx_outstanding ctx)" using lost_eq [OF inv] assms(4) by (simp add: s)
  show ?thesis
  proof (cases "ctx_outstanding ctx = 0")
    case True
    then have "lbd_wait aio s = Some ((Inr 0, []), s)" using getevents_round(1) [OF True] by (simp add: lbd_wait_def s)
    then show ?thesis using True sz by (auto simp: s)
  next
    case False
    have "aio_getevents aio q (ctx_outstanding ctx) d False w \<noteq> None" using aio_lawsD(6) [OF laws(1) i(3)] sz by simp
    then obtain evs w1 where g: "aio_getevents aio q (ctx_outstanding ctx) d False w = Some (Inr evs, w1)"
      using laws(2) i(3) unfolding aio_answers_def by (metis option.exhaust prod.exhaust sum.exhaust)
    have fl: "infl w = mset (map ev_pair evs) + infl w1" by (rule aio_lawsD(3) [OF laws(1) g])
    have "length evs + size (infl w1) = unat (ctx_outstanding ctx)" using sz by (simp add: fl)
    then have "length evs = unat (ctx_outstanding ctx)" "size (infl w1) = 0" using aio_lawsD(4) [OF laws(1) g] by linarith+
    then have len: "length evs = unat (ctx_outstanding ctx)" "infl w1 = {#}" by simp_all
    have evs: "evs \<noteq> []" using len(1) False by (auto simp: unat_eq_zero)
    have "lbd_inv infl S q d (mset (map ev_pair evs)) ((ctx, st), w1)" using inv by (simp add: s lbd_inv_def fl)
    from reap_events_inv [OF laws(1) this] obtain s1 where
      1: "each_op (reap_event aio) evs ((ctx, st), w1) = (Inr (), s1)" "infl (snd s1) = infl w1"
        "unat (ctx_outstanding (fst (fst s1))) + length evs = unat (ctx_outstanding ctx)" by auto
    have z: "ctx_outstanding (fst (fst s1)) = 0" using 1(3) len(1) by (simp add: unat_eq_zero)
    obtain ctx1 st1 w2 where s1: "s1 = ((ctx1, st1), w2)" by (metis prod.exhaust)
    have "lbd_wait aio s = Some ((Inr (int (length evs)), map event_cb evs), s1)"
      using getevents_round(5) [OF False g [folded i(1)] evs 1(1)] getevents_round(1) z by (simp add: lbd_wait_def s s1 i)
    moreover have "mset (map fst (map event_cb evs)) = image_mset snd (infl w)"
      by (simp add: fl len(2) event_cb_def ev_pair_def image_mset.compositionality o_def)
    moreover have "length evs = size (infl w)" using len(2) by (simp add: fl)
    ultimately show ?thesis using z 1(2) len(2) by (auto simp only: s snd_conv)
  qed
qed

section \<open>Sequences of operations\<close>

text \<open>What can happen to a context: a command is submitted, successfully or not, or completions are reaped.\<close>

inductive lbd_step :: "'w aio \<Rightarrow> nvm_dev \<Rightarrow> lbd_st \<times> 'w \<Rightarrow> lbd_st \<times> 'w \<Rightarrow> bool" for aio dev where
  submit: "ret \<noteq> 0 \<Longrightarrow> cmd_async_scalar_wr aio dev naddrs data offset ret opcode s = (r, s') \<Longrightarrow> lbd_step aio dev s s'"
| poke: "lbd_poke aio mx s = Some (r, s') \<Longrightarrow> lbd_step aio dev s s'"
| wait: "lbd_wait aio s = Some (r, s') \<Longrightarrow> lbd_step aio dev s s'"

text \<open>A context as \<open>nvm_be_lbd_async_init\<close> makes it, with different control blocks.\<close>

definition lbd_fresh :: "('w \<Rightarrow> (ptr \<times> ptr) multiset) \<Rightarrow> lbd_st \<times> 'w \<Rightarrow> bool" where
  "lbd_fresh infl = (\<lambda>((ctx, st), w). ctx_outstanding ctx = 0 \<and> distinct (iocbs st) \<and> length (iocbs st) = unat (ctx_depth ctx) \<and> infl w = {#})"

lemma submit_inv:
  assumes laws: "aio_laws aio q infl" and inv: "lbd_inv infl S q d {#} s" and "ret \<noteq> 0"
    and run: "cmd_async_scalar_wr aio dev naddrs data offset ret opcode s = (r, s')"
  shows "lbd_inv infl S q d {#} s'"
    "lbd_lost infl s' = lbd_lost infl s + (if isl r \<and> ctx_outstanding (fst (fst s)) \<noteq> d then 1 else 0)"
proof -
  obtain ctx st w where s: "s = ((ctx, st), w)" by (metis prod.exhaust)
  have i: "pool_inv S (image_mset fst (infl w)) (iocbs st) (unat (ctx_outstanding ctx))" "length (iocbs st) = unat d" "ctx_depth ctx = d"
    "aio_ctx st = q" "\<forall>x \<in># infl w. snd x \<noteq> 0" using inv by (auto simp: lbd_inv_def s)
  let ?c = "ctx\<lparr>ctx_outstanding := ctx_outstanding ctx + 1\<rparr>"
  have "lbd_inv infl S q d {#} s' \<and> lbd_lost infl s' = lbd_lost infl s + (if isl r \<and> ctx_outstanding ctx \<noteq> d then 1 else 0)"
  proof (cases "ctx_outstanding ctx = d")
    case True
    then show ?thesis using run inv by (auto simp: cmd_async_scalar_wr_def s i)
  next
    case False
    have lt: "unat (ctx_outstanding ctx) < unat d" using i(1,2) False by (metis pool_inv_def nat_less_le word_unat_eq_iff)
    have l32: "length (iocbs st) < 2 ^ 32" using i(2) unsigned_less [of d, where ?'a = nat] by simp
    have tk: "take_iocb (ctx, st) = Inr (iocbs st ! unat (ctx_outstanding ctx), (?c, st))" using lt i(2) by (simp add: take_iocb_def)
    have o: "unat (ctx_outstanding ctx + 1) = Suc (unat (ctx_outstanding ctx))" using lt l32 i(2) by (intro unat_inc) simp_all
    note tv = iocb_pool.take_inv [OF tk, unfolded fst_conv snd_conv, OF l32 i(1)]
    have sz: "size (infl w) \<le> unat (ctx_outstanding ctx)" using i(1) by (simp add: pool_inv_def)
    obtain w' where s': "s' = ((?c, st), w')" using run False tk by (auto simp: cmd_async_scalar_wr_def s i Let_def split: if_splits prod.splits)
    consider "infl w' = infl w" "isl r" | "infl w' = add_mset (iocbs st ! unat (ctx_outstanding ctx), ret) (infl w)" "\<not> isl r"
    proof -
      have "infl w' = infl w \<and> isl r \<or> infl w' = add_mset (iocbs st ! unat (ctx_outstanding ctx), ret) (infl w) \<and> \<not> isl r"
        using run False tk aio_lawsD(1,2) [OF laws]
        by (cases r) (auto simp: cmd_async_scalar_wr_def s s' i Let_def lbd_iocb_def split: if_splits prod.splits)
      then show thesis using that by blast
    qed
    then show ?thesis
      by cases (use tv i False o sz assms(3) in \<open>auto simp: s s' lbd_inv_def lbd_lost_def\<close>)
  qed
  then show "lbd_inv infl S q d {#} s'"
    "lbd_lost infl s' = lbd_lost infl s + (if isl r \<and> ctx_outstanding (fst (fst s)) \<noteq> d then 1 else 0)" by (simp_all add: s)
qed

lemma lbd_step_inv:
  assumes "aio_laws aio q infl" "lbd_inv infl S q d {#} s" "lbd_step aio dev s s'"
  shows "lbd_inv infl S q d {#} s' \<and> lbd_lost infl s \<le> lbd_lost infl s'"
  using assms(3)
proof cases
  case submit
  then show ?thesis using submit_inv [OF assms(1,2)] by (metis le_add1)
next
  case poke
  then show ?thesis using getevents_inv [OF assms(1,2)] unfolding lbd_poke_def by (metis order_refl)
next
  case wait
  then show ?thesis using getevents_inv [OF assms(1,2)] unfolding lbd_wait_def by (metis order_refl)
qed

lemma lbd_steps_inv:
  assumes "(lbd_step aio dev)\<^sup>*\<^sup>* s s'" "aio_laws aio q infl" "lbd_inv infl S q d {#} s"
  shows "lbd_inv infl S q d {#} s' \<and> lbd_lost infl s \<le> lbd_lost infl s'"
  using assms(1)
proof (induction rule: rtranclp_induct)
  case (step s1 s2)
  then show ?case using lbd_step_inv [OF assms(2)] by (meson order_trans)
qed (use assms in simp)

lemma lbd_fresh_inv:
  assumes "lbd_fresh infl s0"
  shows "lbd_inv infl (mset (iocbs (snd (fst s0)))) (aio_ctx (snd (fst s0))) (ctx_depth (fst (fst s0))) {#} s0"
  using assms by (auto simp: lbd_fresh_def lbd_inv_def pool_inv_def pool_free_def split_beta)

section \<open>Properties\<close>

text \<open>
  C10. The control blocks of an asynchronous context have one owner: from a new context, after any
  sequence of submissions, successful or not, of \<open>nvm_be_lbd_async_poke\<close> and of \<open>nvm_be_lbd_async_wait\<close>, a
  control block is in flight at most once and never both in flight and free, at most \<open>depth\<close> are taken,
  at least as many as are in flight, and reaping neither faults nor fails to return when it polls.
\<close>

theorem lbd_iocbs_owned:
  assumes "aio_laws aio (aio_ctx st0) infl" "lbd_fresh infl ((ctx0, st0), w0)" "(lbd_step aio dev)\<^sup>*\<^sup>* ((ctx0, st0), w0) ((ctx, st), w)"
  shows "(\<forall>p. count (image_mset fst (infl w) + mset (drop (unat (ctx_outstanding ctx)) (iocbs st))) p \<le> 1)
    \<and> ctx_outstanding ctx \<le> ctx_depth ctx \<and> size (infl w) \<le> unat (ctx_outstanding ctx)
    \<and> (\<exists>r cbs s'. lbd_poke aio mx ((ctx, st), w) = Some ((r, cbs), s') \<and> no_fault r)"
proof -
  note f = lbd_fresh_inv [OF assms(2), unfolded fst_conv snd_conv]
  have inv: "lbd_inv infl (mset (iocbs st0)) (aio_ctx st0) (ctx_depth ctx0) {#} ((ctx, st), w)"
    using lbd_steps_inv [OF assms(3,1) f] by blast
  then have p: "pool_inv (mset (iocbs st0)) (image_mset fst (infl w)) (iocbs st) (unat (ctx_outstanding ctx))"
    and d: "length (iocbs st) = unat (ctx_depth ctx)" by (simp_all add: lbd_inv_def)
  have "distinct (iocbs st0)" using assms(2) by (simp add: lbd_fresh_def)
  note once = pool_inv_once [OF p this, unfolded pool_free_def]
  obtain x s' where x: "lbd_poke aio mx ((ctx, st), w) = Some (x, s')" using poke_returns [OF assms(1) inv] unfolding lbd_poke_def by fastforce
  then have "no_fault (fst x)" using getevents_inv [OF assms(1) inv] unfolding lbd_poke_def by blast
  with x once p d show ?thesis by (cases x) (auto simp: pool_inv_def word_le_nat_alt)
qed

text \<open>
  C8. Waiting ends exactly when no control block was lost: from a new context, after any sequence of
  operations, \<open>nvm_be_lbd_async_wait\<close> returns if as many commands are in flight as are outstanding, and then
  every command has completed, the callbacks are made exactly for the commands that were in flight,
  and nothing is outstanding any more; otherwise it does not return.
\<close>

theorem lbd_wait_completes:
  assumes "aio_laws aio (aio_ctx st0) infl" "aio_answers aio (aio_ctx st0)" "lbd_fresh infl ((ctx0, st0), w0)"
    and "(lbd_step aio dev)\<^sup>*\<^sup>* ((ctx0, st0), w0) ((ctx, st), w)"
  shows "if size (infl w) = unat (ctx_outstanding ctx)
    then \<exists>cbs ctx' st' w'. lbd_wait aio ((ctx, st), w) = Some ((Inr (int (size (infl w))), cbs), ((ctx', st'), w'))
      \<and> ctx_outstanding ctx' = 0 \<and> infl w' = {#} \<and> mset (map fst cbs) = image_mset snd (infl w)
    else lbd_wait aio ((ctx, st), w) = None"
proof -
  note f = lbd_fresh_inv [OF assms(3), unfolded fst_conv snd_conv]
  have inv: "lbd_inv infl (mset (iocbs st0)) (aio_ctx st0) (ctx_depth ctx0) {#} ((ctx, st), w)"
    using lbd_steps_inv [OF assms(4,1) f] by blast
  note e = lost_eq [OF inv, unfolded fst_conv snd_conv]
  show ?thesis using wait_all [OF assms(1,2) inv] wait_none [OF assms(1) inv] e by (auto split: if_splits)
qed

text \<open>
  C37. A submission that fails after the test for a full queue, because the kernel refuses it or the opcode
  is not a read or a write, loses a control block for ever: no later operation finds it again, and every
  later \<open>nvm_be_lbd_async_wait\<close> does not return.
\<close>

theorem lbd_failed_submit_hangs:
  assumes "aio_laws aio (aio_ctx st0) infl" "lbd_fresh infl ((ctx0, st0), w0)" "(lbd_step aio dev)\<^sup>*\<^sup>* ((ctx0, st0), w0) s"
    and "ret \<noteq> 0" "ctx_outstanding (fst (fst s)) \<noteq> ctx_depth (fst (fst s))"
    and "cmd_async_scalar_wr aio dev naddrs data offset ret opcode s = (Inl e, s1)" "(lbd_step aio dev)\<^sup>*\<^sup>* s1 s2"
  shows "lbd_wait aio s2 = None"
proof -
  note f = lbd_fresh_inv [OF assms(2), unfolded fst_conv snd_conv]
  have inv: "lbd_inv infl (mset (iocbs st0)) (aio_ctx st0) (ctx_depth ctx0) {#} s" using lbd_steps_inv [OF assms(3,1) f] by blast
  then have "ctx_depth (fst (fst s)) = ctx_depth ctx0" by (auto simp: lbd_inv_def)
  then have 1: "lbd_inv infl (mset (iocbs st0)) (aio_ctx st0) (ctx_depth ctx0) {#} s1" "0 < lbd_lost infl s1"
    using submit_inv [OF assms(1) inv assms(4,6)] assms(5) by simp_all
  show ?thesis using lbd_steps_inv [OF assms(7,1) 1(1)] 1(2) by (intro wait_none [OF assms(1)]) auto
qed

text \<open>A kernel that keeps the commands in flight in a list and takes at most three.\<close>

definition ex_aio :: "(ptr \<times> ptr) list aio" where
  "ex_aio = \<lparr>aio_queue_init = \<lambda>_ w. (Inr 5, w), aio_queue_release = \<lambda>_ w. (Inr (), w),
     aio_submit = \<lambda>_ p i w. if length w < 3 then (Inr (), w @ [(p, iocb_data i)]) else (Inl (Errno EAGAIN), w),
     aio_getevents = \<lambda>_ mn mx tz w. if mx < mn then Some (Inl 22, w) else if \<not> tz \<and> length w < unat mn then None
       else if length w < unat mn then Some (Inr [], w)
       else Some (Inr (map (\<lambda>(p, d). \<lparr>ev_obj = p, ev_data = d, ev_res2 = 0\<rparr>) (take (unat mx) w)), drop (unat mx) w),
     aio_load = \<lambda>_ _. None, aio_save = \<lambda>_ _ w. w, aio_ret_ctx = \<lambda>_ _. 0, aio_ret_status = \<lambda>_ _ w. w\<rparr>"

lemma ex_aio_laws: "aio_laws ex_aio q mset" "aio_answers ex_aio q"
proof -
  have m: "image_mset ev_pair (image_mset (\<lambda>(p, d). \<lparr>ev_obj = p, ev_data = d, ev_res2 = 0\<rparr>) M) = M" for M
    by (simp add: image_mset.compositionality o_def ev_pair_def split_beta)
  show "aio_laws ex_aio q mset"
    unfolding aio_laws_def
    by (auto simp: ex_aio_def m word_le_nat_alt word_less_nat_alt split: if_splits)
      (metis append_take_drop_id mset_append)+
  show "aio_answers ex_aio q" by (auto simp: aio_answers_def ex_aio_def word_le_nat_alt word_less_nat_alt split: if_splits)
qed

definition ex_lbd :: "lbd_st \<times> (ptr \<times> ptr) list" where
  "ex_lbd = ((\<lparr>ctx_self = 0x10, ctx_depth = 4, ctx_outstanding = 0, ctx_be_ctx = 0x20\<rparr>,
     \<lparr>aio_ctx = 5, aio_events = 0x30, iocbs_at = 0x40, iocbs = [0x100, 0x200, 0x300, 0x400]\<rparr>), [])"

lemma ex_lbd_run:
  "lbd_fresh mset ex_lbd"
  "cmd_async_scalar_wr ex_aio ex_dev_ioctl 8 0x1000 0 0x700 1 ex_lbd =
    (Inr (), ((fst (fst ex_lbd))\<lparr>ctx_outstanding := 1\<rparr>, snd (fst ex_lbd)), [(0x100, 0x700)])"
  "cmd_async_scalar_wr ex_aio ex_dev_ioctl 8 0x1000 0 0x700 9 ex_lbd =
    (Inl (Errno EINVAL), ((fst (fst ex_lbd))\<lparr>ctx_outstanding := 1\<rparr>, snd (fst ex_lbd)), [])"
  by (simp_all add: lbd_fresh_def ex_lbd_def cmd_async_scalar_wr_def take_iocb_def ex_aio_def lbd_iocb_def)

theorem lbd_iocbs_owned_witness:
  "count (image_mset fst (mset [(0x100, 0x700)]) + mset (drop 1 (iocbs (snd (fst ex_lbd))))) (0x100 :: ptr) \<le> 1"
proof -
  have step: "(lbd_step ex_aio ex_dev_ioctl)\<^sup>*\<^sup>* ((fst (fst ex_lbd), snd (fst ex_lbd)), snd ex_lbd)
      (((fst (fst ex_lbd))\<lparr>ctx_outstanding := 1\<rparr>, snd (fst ex_lbd)), [(0x100, 0x700)])"
    using lbd_step.submit [OF _ ex_lbd_run(2)] by simp
  have f: "lbd_fresh mset ((fst (fst ex_lbd), snd (fst ex_lbd)), snd ex_lbd)" using ex_lbd_run(1) by simp
  from lbd_iocbs_owned [OF ex_aio_laws(1) f step, THEN conjunct1, rule_format, of "0x100"] show ?thesis by simp
qed

theorem lbd_wait_completes_witness:
  "\<exists>cbs ctx' st' w'. lbd_wait ex_aio (((fst (fst ex_lbd))\<lparr>ctx_outstanding := 1\<rparr>, snd (fst ex_lbd)), [(0x100, 0x700)]) =
      Some ((Inr 1, cbs), ((ctx', st'), w')) \<and> ctx_outstanding ctx' = 0 \<and> mset (map fst cbs) = {#0x700#}"
proof -
  have step: "(lbd_step ex_aio ex_dev_ioctl)\<^sup>*\<^sup>* ((fst (fst ex_lbd), snd (fst ex_lbd)), snd ex_lbd)
      (((fst (fst ex_lbd))\<lparr>ctx_outstanding := 1\<rparr>, snd (fst ex_lbd)), [(0x100, 0x700)])"
    using lbd_step.submit [OF _ ex_lbd_run(2)] by simp
  have f: "lbd_fresh mset ((fst (fst ex_lbd), snd (fst ex_lbd)), snd ex_lbd)" using ex_lbd_run(1) by simp
  from lbd_wait_completes [OF ex_aio_laws f step] show ?thesis by simp blast
qed

theorem lbd_failed_submit_hangs_witness:
  "lbd_wait ex_aio (((fst (fst ex_lbd))\<lparr>ctx_outstanding := 1\<rparr>, snd (fst ex_lbd)), []) = None"
proof -
  have f: "lbd_fresh mset ((fst (fst ex_lbd), snd (fst ex_lbd)), snd ex_lbd)" using ex_lbd_run(1) by simp
  have "ctx_outstanding (fst (fst ex_lbd)) \<noteq> ctx_depth (fst (fst ex_lbd))" by (simp add: ex_lbd_def)
  from lbd_failed_submit_hangs [OF ex_aio_laws(1) f _ _ this ex_lbd_run(3) rtranclp.rtrancl_refl] show ?thesis by simp
qed

end
