(* ===== verification/Nvm_Spdk.thy ===== *)
theory Nvm_Spdk
  imports Nvm_Ioctl Nvm_Wrap
begin

text \<open>
  The backend \<open>NVM_BE_SPDK\<close>, \<open>src/nvm_be_spdk.c\<close>: it attaches to a controller with SPDK and submits NVMe
  commands to its queues, waiting for the completion or counting it as outstanding in an asynchronous
  context. SPDK is the record \<open>spdk\<close>. The model has one thread, so the lock of the queue for
  synchronous commands is not part of it.
\<close>

section \<open>SPDK and the state of the backend\<close>

record nvm_be_spdk_state =
  ss_trid :: string
  ss_ctrlr :: ptr
  ss_ns :: ptr
  ss_nsdata :: nvm_nvme_ns
  ss_nsid :: u16
  ss_attached :: bool
  ss_qpair :: ptr

definition spdk_state_zero :: nvm_be_spdk_state where
  "spdk_state_zero = \<lparr>ss_trid = '''', ss_ctrlr = NULL, ss_ns = NULL, ss_nsdata = dev_ns dev_zero, ss_nsid = 0,
     ss_attached = False, ss_qpair = NULL\<rparr>"

text \<open>A controller that a probe finds: its name-spaces are numbered from 1, each a pointer and whether it is active.\<close>

record spdk_ctrlr =
  sc_trid :: string
  sc_self :: ptr
  sc_num_ns :: nat
  sc_ns :: "nat \<Rightarrow> ptr"
  sc_active :: "nat \<Rightarrow> bool"

text \<open>
  What the backend uses of SPDK, and the memory of the process as far as it holds the structures of the
  backend. \<open>sp_io_raw\<close> is given the command and the wrap, whose lists are in DMA memory; a completion
  names its command by the address of the wrap. \<open>sp_poll\<close> returns the result of
  \<open>spdk_nvme_qpair_process_completions\<close> with the completions it reported.
\<close>

record 'w spdk =
  sp_sizeof_state :: u64
  sp_env_ready :: "'w \<Rightarrow> bool"
  sp_set_env_ready :: "'w \<Rightarrow> 'w"
  sp_env_init :: "'w \<Rightarrow> bool \<times> 'w"
  sp_trid_parse :: "string \<Rightarrow> ('w, string) op"
  sp_probe :: "string \<Rightarrow> 'w \<Rightarrow> spdk_ctrlr list \<times> 'w"
  sp_ns_get_data :: "ptr \<Rightarrow> 'w \<Rightarrow> nvm_nvme_ns option"
  sp_default_opts :: "ptr \<Rightarrow> 'w \<Rightarrow> u32 \<times> u32"
  sp_alloc_io_qpair :: "ptr \<Rightarrow> (u32 \<times> u32) option \<Rightarrow> 'w \<Rightarrow> ptr \<times> 'w"
  sp_free_io_qpair :: "ptr \<Rightarrow> 'w \<Rightarrow> bool \<times> 'w"
  sp_detach :: "ptr \<Rightarrow> 'w \<Rightarrow> 'w"
  sp_admin_raw :: "ptr \<Rightarrow> nvm_nvme_cmd \<Rightarrow> u64 list \<Rightarrow> ptr \<Rightarrow> u32 \<Rightarrow> 'w \<Rightarrow> bool \<times> 'w"
  sp_admin_poll :: "ptr \<Rightarrow> 'w \<Rightarrow> nvm_nvme_cpl option \<times> 'w"
  sp_io_raw :: "ptr \<Rightarrow> ptr \<Rightarrow> nvm_nvme_cmd \<Rightarrow> nvm_cmd_wrap \<Rightarrow> 'w \<Rightarrow> bool \<times> 'w"
  sp_poll :: "ptr \<Rightarrow> u32 \<Rightarrow> 'w \<Rightarrow> (int \<times> (ptr \<times> nvm_nvme_cpl) list) \<times> 'w"
  sp_state :: "ptr \<Rightarrow> 'w \<Rightarrow> nvm_be_spdk_state option"
  sp_set_state :: "ptr \<Rightarrow> nvm_be_spdk_state option \<Rightarrow> 'w \<Rightarrow> 'w"
  sp_ctx :: "ptr \<Rightarrow> 'w \<Rightarrow> nvm_async_ctx option"
  sp_set_ctx :: "ptr \<Rightarrow> nvm_async_ctx option \<Rightarrow> 'w \<Rightarrow> 'w"
  sp_wrap :: "ptr \<Rightarrow> 'w \<Rightarrow> nvm_cmd_wrap option"
  sp_set_wrap :: "ptr \<Rightarrow> nvm_cmd_wrap option \<Rightarrow> 'w \<Rightarrow> 'w"
  sp_ret_ctx :: "ptr \<Rightarrow> 'w \<Rightarrow> ptr"
  sp_set_ret :: "ptr \<Rightarrow> nvm_ret \<Rightarrow> 'w \<Rightarrow> 'w"
  sp_sgl_at :: "ptr \<Rightarrow> 'w \<Rightarrow> nvm_sgl option"
  sp_idfy_at :: "ptr \<Rightarrow> 'w \<Rightarrow> nvm_spec_idfy"
  sp_bbt_at :: "ptr \<Rightarrow> nat \<Rightarrow> 'w \<Rightarrow> nvm_spec_bbt"
  sp_descr_at :: "ptr \<Rightarrow> 'w \<Rightarrow> nvm_spec_rprt_descr"

text \<open>The state that \<open>dev->be_state\<close> points to.\<close>

definition dev_state :: "'w spdk \<Rightarrow> nvm_dev \<Rightarrow> ('w, nvm_be_spdk_state) op" where
  "dev_state sp dev w = (case sp_state sp (dev_be_state dev) w of None \<Rightarrow> (Inl (Fault NullDeref), w) | Some st \<Rightarrow> (Inr st, w))"

section \<open>Attaching\<close>

definition probe_cb :: "nvm_be_spdk_state \<Rightarrow> spdk_ctrlr \<Rightarrow> bool" where
  "probe_cb state c \<longleftrightarrow> sc_trid c = ss_trid state \<and> \<not> ss_attached state"

text \<open>The first name-space that is valid and active.\<close>

definition attach_cb :: "spdk_ctrlr \<Rightarrow> nvm_be_spdk_state \<Rightarrow> nvm_be_spdk_state" where
  "attach_cb c state = (case filter (\<lambda>nsid. sc_ns c nsid \<noteq> NULL \<and> sc_active c nsid) [1..<Suc (sc_num_ns c)] of
       [] \<Rightarrow> state
     | nsid # _ \<Rightarrow> state\<lparr>ss_ns := sc_ns c nsid, ss_nsid := of_nat nsid, ss_ctrlr := sc_self c, ss_attached := True\<rparr>)"

text \<open>\<open>nvm_be_spdk_close\<close> and \<open>nvm_be_spdk_state_term\<close> do the same.\<close>

definition nvm_be_spdk_state_term :: "'w sys \<Rightarrow> 'w spdk \<Rightarrow> ptr \<Rightarrow> nvm_be_spdk_state \<Rightarrow> ('w, unit) op" where
  "nvm_be_spdk_state_term sys sp p state =
     upd (\<lambda>w. let w = (if ss_qpair state \<noteq> NULL then snd (sp_free_io_qpair sp (ss_qpair state) w) else w);
                w = (if ss_ctrlr state \<noteq> NULL then sp_detach sp (ss_ctrlr state) w else w) in
              sp_set_state sp p None (sys_free sys p w))"

definition nvm_be_spdk_close :: "'w sys \<Rightarrow> 'w spdk \<Rightarrow> nvm_dev \<Rightarrow> ('w, unit) op" where
  "nvm_be_spdk_close sys sp dev w = (case sp_state sp (dev_be_state dev) w of None \<Rightarrow> (Inr (), w)
     | Some state \<Rightarrow> nvm_be_spdk_state_term sys sp (dev_be_state dev) state w)"

text \<open>The loop with \<open>NVM_BE_SPDK_MAX_PROBE_ATTEMPTS\<close> probes, of which \<open>n\<close> are left.\<close>

primrec probe_loop :: "'w spdk \<Rightarrow> nat \<Rightarrow> nvm_be_spdk_state \<Rightarrow> 'w \<Rightarrow> nvm_be_spdk_state \<times> 'w" where
  "probe_loop sp 0 state w = (state, w)"
| "probe_loop sp (Suc n) state w =
     (if ss_attached state then (state, w)
      else case sp_probe sp (ss_trid state) w of (cs, w') \<Rightarrow>
        probe_loop sp n (fold attach_cb (filter (probe_cb state) cs) state) w')"

definition spdk_env_start :: "'w spdk \<Rightarrow> ('w, unit) op" where
  "spdk_env_start sp w = (if sp_env_ready sp w then (Inr (), w)
     else case sp_env_init sp w of (fine, w') \<Rightarrow> if fine then (Inr (), sp_set_env_ready sp w') else (Inl (Errno EKEEP), w'))"

definition nvm_be_spdk_state_init :: "'w sys \<Rightarrow> 'w spdk \<Rightarrow> string \<Rightarrow> ('w, ptr \<times> nvm_be_spdk_state) op" where
  "nvm_be_spdk_state_init sys sp ident =
     andThen (sys_malloc sys (sp_sizeof_state sp)) (\<lambda>p.
     let term = nvm_be_spdk_state_term sys sp p in
     andThen (on_error (spdk_env_start sp) (term spdk_state_zero)) (\<lambda>_.
     andThen (on_error (sp_trid_parse sp ident) (term spdk_state_zero)) (\<lambda>trid w.
     case probe_loop sp 2 (spdk_state_zero\<lparr>ss_trid := trid\<rparr>) w of (state, w) \<Rightarrow>
       if \<not> ss_attached state then andThen (term state) (\<lambda>_. fail (Errno EKEEP)) w
       else (case sp_ns_get_data sp (ss_ns state) w of
           None \<Rightarrow> andThen (term state) (\<lambda>_. fail (Errno EKEEP)) w
         | Some nsdata \<Rightarrow> (case sp_alloc_io_qpair sp (ss_ctrlr state) None w of (q, w) \<Rightarrow>
             let state = state\<lparr>ss_nsdata := nsdata, ss_qpair := q\<rparr> in
             if q = NULL then andThen (term state) (\<lambda>_. fail (Errno EKEEP)) w
             else (Inr (p, state), sp_set_state sp p (Some state) w))))))"

section \<open>Administration\<close>

definition submit_adc :: "'w spdk \<Rightarrow> ptr \<Rightarrow> nvm_nvme_cmd \<Rightarrow> u64 list \<Rightarrow> ptr \<Rightarrow> u32 \<Rightarrow> ptr \<Rightarrow> u32 \<Rightarrow> u32 \<Rightarrow> 'w \<Rightarrow> bool \<times> 'w" where
  "submit_adc sp ctrlr cmd lst data dlen meta mlen flags =
     (let cmd = (if meta \<noteq> NULL then cmd\<lparr>cmd_mptr := meta\<rparr> else cmd);
        cmd = (if mlen \<noteq> 0 \<and> meta \<noteq> NULL \<and> flags AND NVM_CMD_PADC \<noteq> 0
          then cmd\<lparr>cmd_addrs := bf_set 32 32 (ucast (mlen div 4)) (cmd_addrs cmd)\<rparr> else cmd) in
      sp_admin_raw sp ctrlr cmd lst data dlen)"

partial_function (option) admin_wait :: "'w spdk \<Rightarrow> ptr \<Rightarrow> 'w \<Rightarrow> (nvm_nvme_cpl \<times> 'w) option" where
  "admin_wait sp ctrlr w = (case sp_admin_poll sp ctrlr w of (None, w') \<Rightarrow> admin_wait sp ctrlr w' | (Some cpl, w') \<Rightarrow> Some (cpl, w'))"

declare admin_wait.simps [code]

definition cpl_ret :: "nvm_nvme_cpl \<Rightarrow> nvm_ret" where
  "cpl_ret cpl = (let s = cpl_status cpl in \<lparr>ret_result = ucast (cpl_cdw0 cpl),
     ret_status = st_sc s OR push_bit 8 (st_sct s) OR push_bit 13 (st_m s) OR push_bit 14 (st_dnr s)\<rparr>)"

text \<open>The status of the completion is stored, but it is not looked at.\<close>

definition cmd_sync_admin ::
  "'w spdk \<Rightarrow> nvm_dev \<Rightarrow> nvm_nvme_cmd \<Rightarrow> u64 list \<Rightarrow> ptr \<Rightarrow> u64 \<Rightarrow> ptr \<Rightarrow> u64 \<Rightarrow> u32 \<Rightarrow> ptr \<Rightarrow> ('w, nvm_nvme_cpl) lop" where
  "cmd_sync_admin sp dev cmd lst data data_len meta meta_len flags ret =
     lbind (lret (dev_state sp dev)) (\<lambda>st w.
     case submit_adc sp (ss_ctrlr st) cmd lst data (ucast data_len) meta (ucast meta_len) flags w of (fine, w) \<Rightarrow>
       if \<not> fine then Some (Inl (Errno EKEEP), w)
       else (case admin_wait sp (ss_ctrlr st) w of None \<Rightarrow> None
         | Some (cpl, w) \<Rightarrow> Some (Inr cpl, if ret \<noteq> NULL then sp_set_ret sp ret (cpl_ret cpl) w else w)))"

definition spdk_cmd :: "nvm_be_spdk_state \<Rightarrow> u8 \<Rightarrow> nvm_nvme_cmd" where
  "spdk_cmd st opcode = cmd_zero\<lparr>cmd_opcode := opcode, cmd_nsid := ucast (ss_nsid st)\<rparr>"

text \<open>The lower half of the offset is masked with \<open>0xfffffff\<close>, 28 bits.\<close>

definition glp_cmd :: "nvm_be_spdk_state \<Rightarrow> u32 \<Rightarrow> u64 \<Rightarrow> int \<Rightarrow> nvm_nvme_cmd" where
  "glp_cmd st ndw lpo opt = (spdk_cmd st NVM_AOPC_RPRT)\<lparr>
     cmd_addrs := bf_set 0 8 0xCA (bf_set 8 4 (word_of_int opt) (bf_set 16 16 (ucast (ndw AND 0xFFFF)) (bf_set 32 16 (ucast (drop_bit 16 ndw)) 0))),
     cmd_cdw13 := ucast (drop_bit 32 lpo), cmd_cdw12 := ucast (lpo AND 0xFFFFFFF)\<rparr>"

definition cmd_sync_admin_glp :: "'w spdk \<Rightarrow> nvm_dev \<Rightarrow> ptr \<Rightarrow> u32 \<Rightarrow> u64 \<Rightarrow> int \<Rightarrow> ptr \<Rightarrow> ('w, unit) lop" where
  "cmd_sync_admin_glp sp dev buf ndw lpo opt ret =
     (if lpo AND 3 \<noteq> 0 then lret (fail (Errno EINVAL))
      else lbind (lret (dev_state sp dev)) (\<lambda>st.
        lbind (cmd_sync_admin sp dev (glp_cmd st ndw lpo opt) [] buf (ucast ((ndw + 1) * 4)) NULL 0 0 ret) (\<lambda>_. lret (ok ()))))"

definition lop_error :: "('w, 'a) lop \<Rightarrow> ('w, unit) op \<Rightarrow> ('w, 'a) lop" where
  "lop_error m h w = (case m w of Some (Inl (Errno e), w') \<Rightarrow> Some (andThen h (\<lambda>_. fail (Errno e)) w') | r \<Rightarrow> r)"

definition nvm_be_spdk_idfy :: "'w sys \<Rightarrow> 'w spdk \<Rightarrow> nvm_dev \<Rightarrow> ptr \<Rightarrow> ('w, ptr \<times> nvm_spec_idfy) lop" where
  "nvm_be_spdk_idfy sys sp dev ret =
     lbind (lret (dev_state sp dev)) (\<lambda>st.
     lbind (lret (buf_or_nomem (nvm_buf_alloc sys dev 4096 0))) (\<lambda>p.
     lbind (lret (clear_buf sys p 4096)) (\<lambda>_.
     lbind (lop_error (cmd_sync_admin sp dev (spdk_cmd st NVM_AOPC_IDFY) [] p 4096 NULL 0 0 ret) (nvm_buf_free sys dev p)) (\<lambda>_ w.
     Some (Inr (p, sp_idfy_at sp p w), w)))))"

definition nvm_be_spdk_gfeat :: "'w spdk \<Rightarrow> nvm_dev \<Rightarrow> u8 \<Rightarrow> ptr \<Rightarrow> ('w, u32) lop" where
  "nvm_be_spdk_gfeat sp dev fid ret =
     lbind (lret (dev_state sp dev)) (\<lambda>st.
     lbind (cmd_sync_admin sp dev ((spdk_cmd st NVM_AOPC_GFEAT)\<lparr>cmd_addrs := bf_set 0 8 (ucast fid) 0\<rparr>) [] NULL 0 NULL 0 0 ret) (\<lambda>cpl.
     lret (ok (cpl_cdw0 cpl))))"

definition nvm_be_spdk_sfeat :: "'w spdk \<Rightarrow> nvm_dev \<Rightarrow> u8 \<Rightarrow> u32 \<Rightarrow> ptr \<Rightarrow> ('w, unit) lop" where
  "nvm_be_spdk_sfeat sp dev fid feat ret =
     lbind (lret (dev_state sp dev)) (\<lambda>st.
     lbind (cmd_sync_admin sp dev ((spdk_cmd st NVM_AOPC_SFEAT)\<lparr>cmd_addrs := bf_set 32 32 (ucast feat) (bf_set 0 8 (ucast fid) 0)\<rparr>) []
       NULL 0 NULL 0 0 ret) (\<lambda>_. lret (ok ())))"

text \<open>A \<open>for\<close> loop whose body may not return.\<close>

partial_function (option) for_lop :: "('i \<Rightarrow> bool) \<Rightarrow> ('i \<Rightarrow> 'i) \<Rightarrow> ('i \<Rightarrow> ('w, unit) lop) \<Rightarrow> 'i \<Rightarrow> 'w \<Rightarrow> (unit res \<times> 'w) option" where
  "for_lop c st body i w = (if c i then (case body i w of None \<Rightarrow> None | Some (r, w') \<Rightarrow>
     (case r of Inl e \<Rightarrow> Some (Inl e, w') | Inr _ \<Rightarrow> for_lop c st body (st i) w')) else Some (Inr (), w))"

declare for_lop.simps [code]

text \<open>The pieces of a report have 4096 descriptors; the counter is a \<open>size_t\<close>, the minimum is taken of two \<open>int\<close>.\<close>

definition spdk_rprt_piece :: "'w sys \<Rightarrow> 'w spdk \<Rightarrow> nvm_dev \<Rightarrow> ptr \<Rightarrow> u64 \<Rightarrow> u64 \<Rightarrow> ptr \<Rightarrow> u64 \<Rightarrow> ('w, unit) lop" where
  "spdk_rprt_piece sys sp dev p lpo_off ndescr ret i =
     (let count = NVM_MIN 0x1000 (ndescr - i) in
      lop_error (cmd_sync_admin_glp sp dev (p + 8 + i * sizeof_rprt_descr) (ucast ((count * sizeof_rprt_descr) div 4 - 1))
        (lpo_off + i * sizeof_rprt_descr) 0 ret) (nvm_buf_free sys dev p))"

definition nvm_be_spdk_rprt ::
  "'w sys \<Rightarrow> 'w spdk \<Rightarrow> nvm_dev \<Rightarrow> nvm_addr option \<Rightarrow> int \<Rightarrow> ptr \<Rightarrow> ('w, ptr \<times> nvm_spec_rprt) lop" where
  "nvm_be_spdk_rprt sys sp dev addr opt ret =
     (if dev_verid dev \<noteq> NVM_SPEC_VERID_20 then lret (fail (Errno EINVAL))
      else let lpo_off = (case addr of Some a \<Rightarrow> nvm_addr_gen2lpo dev a | None \<Rightarrow> 0); ndescr = rprt_ndescrs dev addr in
        lbind (lret (buf_or_nomem (nvm_buf_alloc sys dev (rprt_buf_len ndescr) 0))) (\<lambda>p.
        lbind (lret (clear_buf sys p (rprt_buf_len ndescr))) (\<lambda>_.
        lbind (for_lop (\<lambda>i. i < ndescr) (\<lambda>i. i + 0x1000) (spdk_rprt_piece sys sp dev p lpo_off ndescr ret) 0)
          (\<lambda>_ w. Some (Inr (p, \<lparr>rprt_ndescr = ucast ndescr,
            rprt_descr = map (\<lambda>j. sp_descr_at sp (p + 8 + of_nat j * sizeof_rprt_descr) w) [0..<unat ndescr]\<rparr>), w)))))"

definition nvm_be_spdk_gbbt :: "'w sys \<Rightarrow> 'w spdk \<Rightarrow> nvm_dev \<Rightarrow> nvm_addr \<Rightarrow> ptr \<Rightarrow> ('w, ptr \<times> nvm_spec_bbt) lop" where
  "nvm_be_spdk_gbbt sys sp dev addr ret =
     (let nblks = ucast (nblocks (dev_geo dev) * nplanes (dev_geo dev)) :: u32; sz = 64 + ucast nblks :: u64 in
      lbind (lret (buf_or_nomem (nvm_buf_alloc sys dev sz 0))) (\<lambda>p.
      lbind (lret (clear_buf sys p 64)) (\<lambda>_.
      lbind (lret (dev_state sp dev)) (\<lambda>st.
      lbind (lop_error (cmd_sync_admin sp dev ((spdk_cmd st NVM_AOPC_GBBT)\<lparr>cmd_addrs := nvm_addr_gen2dev dev addr\<rparr>) [] p sz NULL 0 0 ret)
        (nvm_buf_free sys dev p)) (\<lambda>_ w. Some (Inr (p, sp_bbt_at sp p (unat nblks) w), w))))))"

text \<open>
  The 16-bit count field decides between one address and a list; the name-space is not set. The
  allocation fails without assigning \<open>errno\<close>.
\<close>

definition sbbt_cmd :: "u16 \<Rightarrow> int \<Rightarrow> nvm_nvme_cmd" where
  "sbbt_cmd flags naddrs = cmd_zero\<lparr>cmd_opcode := NVM_AOPC_SBBT,
     cmd_cdw12 := bf_set 16 16 (ucast flags) (bf_set 0 16 (word_of_int (naddrs - 1)) 0)\<rparr>"

definition dma_or_keep :: "'w sys \<Rightarrow> u64 \<Rightarrow> ('w, ptr \<times> u64) op" where
  "dma_or_keep sys n w = (case sys_spdk_dma_malloc sys n 0x1000 w of (Inl (Errno _), w') \<Rightarrow> (Inl (Errno EKEEP), w') | r \<Rightarrow> r)"

definition nvm_be_spdk_sbbt :: "'w sys \<Rightarrow> 'w spdk \<Rightarrow> nvm_dev \<Rightarrow> nvm_addr list \<Rightarrow> int \<Rightarrow> u16 \<Rightarrow> ptr \<Rightarrow> ('w, unit) lop" where
  "nvm_be_spdk_sbbt sys sp dev addrs naddrs flags ret =
     (let cmd = sbbt_cmd flags naddrs in
      if bf_get 0 16 (cmd_cdw12 cmd) \<noteq> 0 then
        lbind (lret (dma_or_keep sys (word_of_int naddrs * 8))) (\<lambda>(p, phys).
        lbind (lret (lift_res (arg_addrs addrs naddrs))) (\<lambda>as.
        lbind (lop_error (cmd_sync_admin sp dev (cmd\<lparr>cmd_addrs := phys\<rparr>) (map (nvm_addr_gen2dev dev) as) NULL 0 NULL 0 0 ret)
          (upd (sys_spdk_dma_free sys p))) (\<lambda>_.
        lret (upd (sys_spdk_dma_free sys p)))))
      else
        lbind (lret (lift_res (arg_addr0 addrs))) (\<lambda>a.
        lbind (lop_error (cmd_sync_admin sp dev (cmd\<lparr>cmd_addrs := nvm_addr_gen2dev dev a\<rparr>) [] NULL 0 NULL 0 0 ret)
          (upd (sys_spdk_dma_free sys NULL))) (\<lambda>_.
        lret (upd (sys_spdk_dma_free sys NULL)))))"

section \<open>Synchronous commands\<close>

text \<open>The result of \<open>spdk_nvme_qpair_process_completions\<close> is not looked at.\<close>

partial_function (option) sync_wait :: "'w spdk \<Rightarrow> ptr \<Rightarrow> ptr \<Rightarrow> 'w \<Rightarrow> (nvm_nvme_cpl \<times> 'w) option" where
  "sync_wait sp qpair self w = (case sp_poll sp qpair 0 w of ((_, cpls), w') \<Rightarrow>
     (case map_of cpls self of None \<Rightarrow> sync_wait sp qpair self w' | Some cpl \<Rightarrow> Some (cpl, w')))"

declare sync_wait.simps [code]

text \<open>Submission and completion, shared by the commands and by \<open>cmd_sync_pass\<close>.\<close>

definition spdk_sync :: "'w sys \<Rightarrow> 'w spdk \<Rightarrow> nvm_be_spdk_state \<Rightarrow> nvm_nvme_cmd \<Rightarrow> nvm_cmd_wrap \<Rightarrow> ('w, unit) lop" where
  "spdk_sync sys sp st cmd wrap w =
     (case sp_io_raw sp (ss_ctrlr st) (ss_qpair st) cmd wrap w of (fine, w) \<Rightarrow>
        if \<not> fine then Some (andThen (nvm_cmd_wrap_term sys wrap) (\<lambda>_. fail (Errno EKEEP)) w)
        else (case sync_wait sp (ss_qpair st) (wrap_self wrap) w of None \<Rightarrow> None
          | Some (cpl, w) \<Rightarrow> (case nvm_cmd_wrap_cpl wrap cpl of (wrap', r) \<Rightarrow>
              let w = (case r of None \<Rightarrow> w | Some rv \<Rightarrow> sp_set_ret sp (wrap_ret wrap) rv w) in
              Some (andThen (nvm_cmd_wrap_term sys wrap') (\<lambda>_. if wrap_completed wrap' < 0 then fail (Errno EIO) else ok ()) w))))"

definition setup_wrap ::
  "'w sys \<Rightarrow> 'w spdk \<Rightarrow> nvm_dev \<Rightarrow> u16 \<Rightarrow> ptr \<Rightarrow> ptr \<Rightarrow> nvm_addr list \<Rightarrow> nvm_addr list option \<Rightarrow> int \<Rightarrow> u16 \<Rightarrow> ptr \<Rightarrow> ('w, nvm_cmd_wrap) op" where
  "setup_wrap sys sp dev opcode data meta addrs dst naddrs flags ret w =
     nvm_cmd_wrap_setup sys dev opcode data meta (sp_sgl_at sp data w) (sp_sgl_at sp meta w) addrs dst naddrs (ucast flags) ret w"

definition cmd_sync_ewrc ::
  "'w sys \<Rightarrow> 'w spdk \<Rightarrow> nvm_dev \<Rightarrow> nvm_addr list \<Rightarrow> nvm_addr list option \<Rightarrow> int \<Rightarrow> ptr \<Rightarrow> ptr \<Rightarrow> u16 \<Rightarrow> u16 \<Rightarrow> ptr \<Rightarrow> ('w, unit) lop" where
  "cmd_sync_ewrc sys sp dev addrs dst naddrs data meta flags opcode ret =
     lbind (lret (dev_state sp dev)) (\<lambda>st.
     lbind (lret (setup_wrap sys sp dev opcode data meta addrs dst naddrs flags ret)) (\<lambda>wrap.
     spdk_sync sys sp st (wrap_cmd wrap) wrap))"

section \<open>Asynchronous commands\<close>

definition set_outstanding :: "'w spdk \<Rightarrow> ptr \<Rightarrow> (u32 \<Rightarrow> u32) \<Rightarrow> 'w \<Rightarrow> 'w" where
  "set_outstanding sp ctxp f w = (case sp_ctx sp ctxp w of None \<Rightarrow> w
     | Some ctx \<Rightarrow> sp_set_ctx sp ctxp (Some (ctx\<lparr>ctx_outstanding := f (ctx_outstanding ctx)\<rparr>)) w)"

text \<open>Submission to the queue of a context, shared by the commands and by \<open>cmd_async_pass\<close>.\<close>

definition spdk_async ::
  "'w sys \<Rightarrow> 'w spdk \<Rightarrow> nvm_be_spdk_state \<Rightarrow> ptr \<Rightarrow> ptr \<Rightarrow> nvm_nvme_cmd \<Rightarrow> nvm_cmd_wrap \<Rightarrow> ('w, unit) op" where
  "spdk_async sys sp st ctxp qpair cmd wrap w =
     (let w = sp_set_wrap sp (wrap_self wrap) (Some wrap) (set_outstanding sp ctxp (\<lambda>n. n + 1) w) in
      case sp_io_raw sp (ss_ctrlr st) qpair cmd wrap w of (fine, w) \<Rightarrow>
        if fine then (Inr (), w)
        else andThen (nvm_cmd_wrap_term sys wrap) (\<lambda>_. fail (Errno EKEEP))
          (sp_set_wrap sp (wrap_self wrap) None (set_outstanding sp ctxp (\<lambda>n. n - 1) w)))"

definition async_submit ::
  "'w sys \<Rightarrow> 'w spdk \<Rightarrow> nvm_dev \<Rightarrow> ptr \<Rightarrow> ('w, nvm_cmd_wrap) op \<Rightarrow> (nvm_cmd_wrap \<Rightarrow> nvm_nvme_cmd) \<Rightarrow> ('w, unit) op" where
  "async_submit sys sp dev ret setup cmd = andThen (dev_state sp dev) (\<lambda>st w.
     let ctxp = sp_ret_ctx sp ret w in
     case sp_ctx sp ctxp w of None \<Rightarrow> (Inl (Fault NullDeref), w)
     | Some ctx \<Rightarrow>
         if ctx_outstanding ctx + 1 > ctx_depth ctx then (Inl (Errno EAGAIN), w)
         else andThen setup (\<lambda>wrap. spdk_async sys sp st ctxp (ctx_be_ctx ctx) (cmd wrap) wrap) w)"

definition cmd_async_ewrc ::
  "'w sys \<Rightarrow> 'w spdk \<Rightarrow> nvm_dev \<Rightarrow> nvm_addr list \<Rightarrow> nvm_addr list option \<Rightarrow> int \<Rightarrow> ptr \<Rightarrow> ptr \<Rightarrow> u16 \<Rightarrow> u16 \<Rightarrow> ptr \<Rightarrow> ('w, unit) op" where
  "cmd_async_ewrc sys sp dev addrs dst naddrs data meta flags opcode ret =
     async_submit sys sp dev ret (setup_wrap sys sp dev opcode data meta addrs dst naddrs flags ret) wrap_cmd"

text \<open>
  The completion of an asynchronous command. The callback of the command is made by the caller of the
  backend, with the result structure and its status.
\<close>

definition cmd_async_cb :: "'w sys \<Rightarrow> 'w spdk \<Rightarrow> ptr \<times> nvm_nvme_cpl \<Rightarrow> ('w, ptr \<times> bool) op" where
  "cmd_async_cb sys sp = (\<lambda>(p, cpl) w. case sp_wrap sp p w of None \<Rightarrow> (Inl (Fault NullDeref), w)
     | Some wrap \<Rightarrow>
         let ret = wrap_ret wrap; w = set_outstanding sp (sp_ret_ctx sp ret w) (\<lambda>n. n - 1) w in
         (case nvm_cmd_wrap_cpl wrap cpl of (wrap', r) \<Rightarrow>
            case r of None \<Rightarrow> (Inl (Fault NullDeref), w)
            | Some rv \<Rightarrow> andThen (nvm_cmd_wrap_term sys wrap') (\<lambda>_. ok (ret, ret_status rv \<noteq> 0))
                (sp_set_wrap sp p None (sp_set_ret sp ret rv w))))"

definition run_cbs :: "'w sys \<Rightarrow> 'w spdk \<Rightarrow> (ptr \<times> nvm_nvme_cpl) list \<Rightarrow> ('w, (ptr \<times> bool) list) op" where
  "run_cbs sys sp cpls = fold_op (\<lambda>c cbs. andThen (cmd_async_cb sys sp c) (\<lambda>cb. ok (cbs @ [cb]))) cpls []"

definition nvm_be_spdk_async_poke :: "'w sys \<Rightarrow> 'w spdk \<Rightarrow> nvm_dev \<Rightarrow> ptr \<Rightarrow> u32 \<Rightarrow> 'w async_op" where
  "nvm_be_spdk_async_poke sys sp dev ctxp mx w = (case sp_ctx sp ctxp w of None \<Rightarrow> ((Inl (Fault NullDeref), []), w)
     | Some ctx \<Rightarrow> (case sp_poll sp (ctx_be_ctx ctx) mx w of ((res, cpls), w) \<Rightarrow>
         (case run_cbs sys sp cpls w of (Inl e, w) \<Rightarrow> ((Inl e, []), w)
          | (Inr cbs, w) \<Rightarrow> ((if res < 0 then Inl (Errno EKEEP) else Inr res, cbs), w))))"

partial_function (option) spdk_wait ::
  "'w sys \<Rightarrow> 'w spdk \<Rightarrow> nvm_dev \<Rightarrow> ptr \<Rightarrow> int \<Rightarrow> (ptr \<times> bool) list \<Rightarrow> 'w \<Rightarrow> ((int res \<times> (ptr \<times> bool) list) \<times> 'w) option" where
  "spdk_wait sys sp dev ctxp acc cbs w = (case sp_ctx sp ctxp w of None \<Rightarrow> Some ((Inl (Fault NullDeref), cbs), w)
     | Some ctx \<Rightarrow>
         if ctx_outstanding ctx = 0 then Some ((Inr acc, cbs), w)
         else (case nvm_be_spdk_async_poke sys sp dev ctxp 0 w of ((r, cbs'), w) \<Rightarrow>
           (case r of Inl e \<Rightarrow> Some ((Inl e, cbs @ cbs'), w) | Inr n \<Rightarrow> spdk_wait sys sp dev ctxp (acc + n) (cbs @ cbs') w)))"

declare spdk_wait.simps [code]

definition nvm_be_spdk_async_wait :: "'w sys \<Rightarrow> 'w spdk \<Rightarrow> nvm_dev \<Rightarrow> ptr \<Rightarrow> 'w async_op" where
  "nvm_be_spdk_async_wait sys sp dev ctxp w = (case spdk_wait sys sp dev ctxp 0 [] w of None \<Rightarrow> ((Inl (Fault NoReturn), []), w) | Some r \<Rightarrow> r)"

definition nvm_be_spdk_async_init :: "'w sys \<Rightarrow> 'w spdk \<Rightarrow> nvm_dev \<Rightarrow> u32 \<Rightarrow> u16 \<Rightarrow> ('w, nvm_async_ctx) op" where
  "nvm_be_spdk_async_init sys sp dev depth flags = andThen (dev_state sp dev) (\<lambda>st w.
     let opts = (if depth \<noteq> 0 then (depth, depth * 2) else sp_default_opts sp (ss_ctrlr st) w) in
     andThen (sys_calloc sys 1 16) (\<lambda>p w. case sp_alloc_io_qpair sp (ss_ctrlr st) (Some opts) w of (q, w) \<Rightarrow>
       if q = NULL then (Inl (Errno EKEEP), sys_free sys p w)
       else let ctx = \<lparr>ctx_self = p, ctx_depth = fst opts, ctx_outstanding = 0, ctx_be_ctx = q\<rparr> in
         (Inr ctx, sp_set_ctx sp p (Some ctx) w)) w)"

definition nvm_be_spdk_async_term :: "'w sys \<Rightarrow> 'w spdk \<Rightarrow> nvm_dev \<Rightarrow> ptr \<Rightarrow> ('w, unit) op" where
  "nvm_be_spdk_async_term sys sp dev ctxp w = (case sp_ctx sp ctxp w of None \<Rightarrow> (Inl (Errno EINVAL), w)
     | Some ctx \<Rightarrow>
         if ctx_be_ctx ctx = NULL then (Inl (Errno EINVAL), w)
         else (case sp_free_io_qpair sp (ctx_be_ctx ctx) w of (fine, w) \<Rightarrow>
           if \<not> fine then (Inl (Errno EKEEP), w) else (Inr (), sp_set_ctx sp ctxp None (sys_free sys ctxp w))))"

section \<open>The commands\<close>

definition async_args :: "'w spdk \<Rightarrow> ptr \<Rightarrow> 'w \<Rightarrow> bool" where
  "async_args sp ret w \<longleftrightarrow> ret \<noteq> NULL \<and> (case sp_ctx sp (sp_ret_ctx sp ret w) w of None \<Rightarrow> False | Some ctx \<Rightarrow> ctx_be_ctx ctx \<noteq> NULL)"

definition spdk_ewrc ::
  "'w sys \<Rightarrow> 'w spdk \<Rightarrow> nvm_dev \<Rightarrow> nvm_addr list \<Rightarrow> nvm_addr list option \<Rightarrow> int \<Rightarrow> ptr \<Rightarrow> ptr \<Rightarrow> u16 \<Rightarrow> u16 \<Rightarrow> ptr \<Rightarrow> ('w, unit) op" where
  "spdk_ewrc sys sp dev addrs dst naddrs data meta flags opcode ret w =
     (if flags AND 0x30 = 0x20 then
        (if async_args sp ret w then cmd_async_ewrc sys sp dev addrs dst naddrs data meta flags opcode ret w else (Inl (Errno EINVAL), w))
      else returning (cmd_sync_ewrc sys sp dev addrs dst naddrs data meta flags opcode ret) w)"

definition nvm_be_spdk_scalar_erase :: "'w sys \<Rightarrow> 'w spdk \<Rightarrow> nvm_dev \<Rightarrow> nvm_addr list \<Rightarrow> int \<Rightarrow> u16 \<Rightarrow> ptr \<Rightarrow> ('w, unit) op" where
  "nvm_be_spdk_scalar_erase sys sp dev addrs naddrs flags ret =
     spdk_ewrc sys sp dev addrs None naddrs NULL NULL flags NVM_DOPC_SCALAR_ERASE ret"

definition nvm_be_spdk_scalar_write ::
  "'w sys \<Rightarrow> 'w spdk \<Rightarrow> nvm_dev \<Rightarrow> nvm_addr \<Rightarrow> int \<Rightarrow> ptr \<Rightarrow> ptr \<Rightarrow> u16 \<Rightarrow> ptr \<Rightarrow> ('w, unit) op" where
  "nvm_be_spdk_scalar_write sys sp dev addr naddrs data meta flags ret =
     spdk_ewrc sys sp dev [addr] None naddrs data meta flags NVM_DOPC_SCALAR_WRITE ret"

definition nvm_be_spdk_scalar_read ::
  "'w sys \<Rightarrow> 'w spdk \<Rightarrow> nvm_dev \<Rightarrow> nvm_addr \<Rightarrow> int \<Rightarrow> ptr \<Rightarrow> ptr \<Rightarrow> u16 \<Rightarrow> ptr \<Rightarrow> ('w, unit) op" where
  "nvm_be_spdk_scalar_read sys sp dev addr naddrs data meta flags ret =
     spdk_ewrc sys sp dev [addr] None naddrs data meta flags NVM_DOPC_SCALAR_READ ret"

definition nvm_be_spdk_vector_erase ::
  "'w sys \<Rightarrow> 'w spdk \<Rightarrow> nvm_dev \<Rightarrow> nvm_addr list \<Rightarrow> int \<Rightarrow> ptr \<Rightarrow> u16 \<Rightarrow> ptr \<Rightarrow> ('w, unit) op" where
  "nvm_be_spdk_vector_erase sys sp dev addrs naddrs meta flags ret =
     spdk_ewrc sys sp dev addrs None naddrs NULL meta flags NVM_DOPC_VECTOR_ERASE ret"

definition nvm_be_spdk_vector_write ::
  "'w sys \<Rightarrow> 'w spdk \<Rightarrow> nvm_dev \<Rightarrow> nvm_addr list \<Rightarrow> int \<Rightarrow> ptr \<Rightarrow> ptr \<Rightarrow> u16 \<Rightarrow> ptr \<Rightarrow> ('w, unit) op" where
  "nvm_be_spdk_vector_write sys sp dev addrs naddrs data meta flags ret =
     spdk_ewrc sys sp dev addrs None naddrs data meta flags NVM_DOPC_VECTOR_WRITE ret"

definition nvm_be_spdk_vector_read ::
  "'w sys \<Rightarrow> 'w spdk \<Rightarrow> nvm_dev \<Rightarrow> nvm_addr list \<Rightarrow> int \<Rightarrow> ptr \<Rightarrow> ptr \<Rightarrow> u16 \<Rightarrow> ptr \<Rightarrow> ('w, unit) op" where
  "nvm_be_spdk_vector_read sys sp dev addrs naddrs data meta flags ret =
     spdk_ewrc sys sp dev addrs None naddrs data meta flags NVM_DOPC_VECTOR_READ ret"

definition nvm_be_spdk_vector_copy ::
  "'w sys \<Rightarrow> 'w spdk \<Rightarrow> nvm_dev \<Rightarrow> nvm_addr list \<Rightarrow> nvm_addr list \<Rightarrow> int \<Rightarrow> u16 \<Rightarrow> ptr \<Rightarrow> ('w, unit) op" where
  "nvm_be_spdk_vector_copy sys sp dev src dst naddrs flags ret =
     spdk_ewrc sys sp dev src (Some dst) naddrs NULL NULL flags NVM_DOPC_VECTOR_COPY ret"

section \<open>Pass-through\<close>

definition cmd_sync_pass ::
  "'w sys \<Rightarrow> 'w spdk \<Rightarrow> nvm_dev \<Rightarrow> nvm_nvme_cmd \<Rightarrow> ptr \<Rightarrow> u64 \<Rightarrow> ptr \<Rightarrow> u64 \<Rightarrow> ptr \<Rightarrow> ('w, unit) lop" where
  "cmd_sync_pass sys sp dev cmd data dlen meta mlen ret =
     lbind (lret (dev_state sp dev)) (\<lambda>st.
     lbind (lret (nvm_cmd_wrap_pass sys dev data dlen meta mlen ret)) (\<lambda>wrap.
     spdk_sync sys sp st cmd wrap))"

definition cmd_async_pass ::
  "'w sys \<Rightarrow> 'w spdk \<Rightarrow> nvm_dev \<Rightarrow> nvm_nvme_cmd \<Rightarrow> ptr \<Rightarrow> u64 \<Rightarrow> ptr \<Rightarrow> u64 \<Rightarrow> ptr \<Rightarrow> ('w, unit) op" where
  "cmd_async_pass sys sp dev cmd data dlen meta mlen ret =
     async_submit sys sp dev ret (nvm_cmd_wrap_pass sys dev data dlen meta mlen ret) (\<lambda>_. cmd)"

definition nvm_be_spdk_pass ::
  "'w sys \<Rightarrow> 'w spdk \<Rightarrow> nvm_dev \<Rightarrow> nvm_nvme_cmd \<Rightarrow> ptr \<Rightarrow> u64 \<Rightarrow> ptr \<Rightarrow> u64 \<Rightarrow> u32 \<Rightarrow> ptr \<Rightarrow> ('w, unit) op" where
  "nvm_be_spdk_pass sys sp dev cmd data dlen meta mlen flags ret w =
     (if flags AND NVM_CMD_MASK_IOMD = NVM_CMD_ASYNC then
        (if flags AND NVM_CMD_PADC \<noteq> 0 then (Inl (Errno ENOSYS), w)
         else if \<not> async_args sp ret w then (Inl (Errno EINVAL), w)
         else cmd_async_pass sys sp dev cmd data dlen meta mlen ret w)
      else if flags AND NVM_CMD_PADC \<noteq> 0 then
        returning (lbind (cmd_sync_admin sp dev cmd [] data dlen meta mlen flags ret) (\<lambda>_. lret (ok ()))) w
      else returning (cmd_sync_pass sys sp dev cmd data dlen meta mlen ret) w)"

section \<open>The table\<close>

definition spdk_ops :: "'w sys \<Rightarrow> 'w spdk \<Rightarrow> 'w nvm_be" where
  "spdk_ops sys sp = \<lparr>be_id = NVM_BE_SPDK, be_name = ''NVM_BE_SPDK'', be_open = nvm_be_nosys_open,
     be_close = nvm_be_spdk_close sys sp, be_pass = nvm_be_spdk_pass sys sp,
     be_idfy = (\<lambda>dev ret. returning (nvm_be_spdk_idfy sys sp dev ret)),
     be_rprt = (\<lambda>dev addr opt ret. returning (nvm_be_spdk_rprt sys sp dev addr opt ret)),
     be_gfeat = (\<lambda>dev fid ret. returning (nvm_be_spdk_gfeat sp dev fid ret)),
     be_sfeat = (\<lambda>dev fid feat ret. returning (nvm_be_spdk_sfeat sp dev fid feat ret)),
     be_gbbt = (\<lambda>dev addr ret. returning (nvm_be_spdk_gbbt sys sp dev addr ret)),
     be_sbbt = (\<lambda>dev addrs naddrs flags ret. returning (nvm_be_spdk_sbbt sys sp dev addrs naddrs flags ret)),
     be_scalar_erase = nvm_be_spdk_scalar_erase sys sp, be_scalar_write = nvm_be_spdk_scalar_write sys sp,
     be_scalar_read = nvm_be_spdk_scalar_read sys sp, be_vector_erase = nvm_be_spdk_vector_erase sys sp,
     be_vector_write = nvm_be_spdk_vector_write sys sp, be_vector_read = nvm_be_spdk_vector_read sys sp,
     be_vector_copy = nvm_be_spdk_vector_copy sys sp, be_async_init = nvm_be_spdk_async_init sys sp,
     be_async_term = nvm_be_spdk_async_term sys sp, be_async_poke = nvm_be_spdk_async_poke sys sp,
     be_async_wait = nvm_be_spdk_async_wait sys sp\<rparr>"

definition nvm_be_spdk_open :: "'w sys \<Rightarrow> 'w spdk \<Rightarrow> string \<Rightarrow> u32 \<Rightarrow> ('w, nvm_dev) op" where
  "nvm_be_spdk_open sys sp path flags =
     andThen (sys_malloc sys sizeof_dev) (\<lambda>devp.
     andThen (on_error (nvm_be_spdk_state_init sys sp path) (upd (sys_free sys devp))) (\<lambda>(p, state).
     let dev = dev_zero\<lparr>dev_be_state := p, dev_nsid := uint (ss_nsid state), dev_ns := ss_nsdata state\<rparr> in
     on_error (nvm_be_populate sys (spdk_ops sys sp) dev)
       (andThen (nvm_be_spdk_close sys sp dev) (\<lambda>_. upd (sys_free sys devp)))))"

definition nvm_be_spdk :: "'w sys \<Rightarrow> 'w spdk \<Rightarrow> 'w nvm_be" where
  "nvm_be_spdk sys sp = (spdk_ops sys sp)\<lparr>be_open := nvm_be_spdk_open sys sp\<rparr>"

end
