(* ===== verification/Nvm_Spdk_Queue.thy ===== *)
theory Nvm_Spdk_Queue
  imports Nvm_Spdk "HOL-Library.Multiset"
begin

text \<open>
  Correctness of the queues of the SPDK backend (modelled in \<open>Nvm_Spdk\<close>): a synchronous command returns the
  result of the one command the controller executed; an asynchronous context counts what is in flight;
  waiting completes all of it; and the memory of every command is released once.
\<close>

section \<open>What an operation keeps\<close>

definition keeps :: "('w \<Rightarrow> 'b) \<Rightarrow> ('w, 'a) op \<Rightarrow> bool" where
  "keeps f m \<longleftrightarrow> (\<forall>w. f (snd (m w)) = f w)"

named_theorems keeps

lemma keepsD: "keeps f m \<Longrightarrow> m w = (r, w') \<Longrightarrow> f w' = f w"
  by (metis keeps_def snd_conv)

lemma keeps_ok [keeps]: "keeps f (ok x)" "keeps f (fail e)" "keeps f (lift_res r)"
  by (simp_all add: keeps_def ok_def fail_def lift_res_def)

lemma keeps_upd [keeps]: "(\<And>w. f (g w) = f w) \<Longrightarrow> keeps f (upd g)"
  by (simp add: keeps_def upd_def)

lemma keeps_andThen [keeps]: "keeps f m \<Longrightarrow> (\<And>x. keeps f (g x)) \<Longrightarrow> keeps f (andThen m g)"
  by (auto simp: keeps_def andThen_def split: prod.splits sum.splits) (metis snd_conv)+

lemma keeps_on_error [keeps]: "keeps f m \<Longrightarrow> keeps f h \<Longrightarrow> keeps f (on_error m h)"
  by (auto simp: keeps_def on_error_def split: prod.splits sum.splits failure.splits) (metis snd_conv)+

lemma keeps_if [keeps]: "(b \<Longrightarrow> keeps f m) \<Longrightarrow> (\<not> b \<Longrightarrow> keeps f m') \<Longrightarrow> keeps f (if b then m else m')"
  by simp

lemma keeps_option [keeps]:
  "(x = None \<Longrightarrow> keeps f m) \<Longrightarrow> (\<And>y. x = Some y \<Longrightarrow> keeps f (g y)) \<Longrightarrow> keeps f (case x of None \<Rightarrow> m | Some y \<Rightarrow> g y)"
  by (cases x) auto

lemma keeps_prod [keeps]: "(\<And>x y. p = (x, y) \<Longrightarrow> keeps f (g x y)) \<Longrightarrow> keeps f (case p of (x, y) \<Rightarrow> g x y)"
  by (cases p) auto

lemma keeps_let [keeps]: "(\<And>y. y = x \<Longrightarrow> keeps f (g y)) \<Longrightarrow> keeps f (let y = x in g y)"
  by simp

definition sys_keeps :: "'w sys \<Rightarrow> ('w \<Rightarrow> 'b) \<Rightarrow> bool" where
  "sys_keeps sys f \<longleftrightarrow>
     (\<forall>al n. keeps f (sys_aligned_alloc sys al n)) \<and> (\<forall>n al. keeps f (sys_spdk_dma_malloc sys n al))
     \<and> (\<forall>n. keeps f (sys_malloc sys n)) \<and> (\<forall>n sz. keeps f (sys_calloc sys n sz))
     \<and> (\<forall>p w. f (sys_free sys p w) = f w) \<and> (\<forall>p w. f (sys_spdk_dma_free sys p w) = f w)"

lemma buf_keeps [keeps]:
  assumes "sys_keeps sys f"
  shows "keeps f (nvm_buf_alloc sys dev n phys)" "keeps f (nvm_buf_free sys dev p)" "keeps f (nvm_buf_vtophys sys dev p)"
    "keeps f (vtophys_unchecked sys dev p)"
proof -
  show "keeps f (nvm_buf_alloc sys dev n phys)" "keeps f (nvm_buf_free sys dev p)"
    using assms unfolding nvm_buf_alloc_def nvm_buf_free_def nvm_buf_virt_alloc_def nvm_buf_virt_free_def sys_keeps_def
    by (intro keeps | simp)+
  show v: "keeps f (nvm_buf_vtophys sys dev p)" "keeps f (vtophys_unchecked sys dev p)"
    unfolding keeps_def by (metis prod.collapse vtophys_world, metis prod.collapse vtophys_unchecked_world)
qed

lemma wrap_term_keeps [keeps]: "keeps f (nvm_cmd_wrap_term sys wrap)" if "sys_keeps sys f"
  using that unfolding nvm_cmd_wrap_term_def by (intro keeps) (auto simp: sys_keeps_def)

lemma wrap_setup_keeps [keeps]:
  assumes "sys_keeps sys f"
  shows "keeps f (nvm_cmd_wrap_setup sys dev opcode data meta dsgl msgl addrs dst naddrs flags ret)"
    "keeps f (nvm_cmd_wrap_pass sys dev data dlen meta mlen ret)"
proof -
  note k = keeps buf_keeps [OF assms] wrap_term_keeps [OF assms]
  have c: "keeps f (sys_calloc sys n sz)" for n sz using assms by (simp add: sys_keeps_def)
  have v: "keeps f (wrap_setup_vector sys wrap addrs dst naddrs)" for wrap
    unfolding wrap_setup_vector_def wrap_setup_list_def by (intro k)
  have s: "keeps f (cmd_wrap_setup_sgl sys wrap dsgl msgl flags)" for wrap
    unfolding cmd_wrap_setup_sgl_def setup_sgl_data_def setup_sgl_meta_def by (intro k)
  show "keeps f (nvm_cmd_wrap_setup sys dev opcode data meta dsgl msgl addrs dst naddrs flags ret)"
    unfolding nvm_cmd_wrap_setup_def wrap_setup_scalar_erase_def wrap_setup_erase_meta_def by (intro k c v s)
  show "keeps f (nvm_cmd_wrap_pass sys dev data dlen meta mlen ret)"
    unfolding nvm_cmd_wrap_pass_def by (intro k c)
qed

section \<open>Entries and SPDK\<close>

text \<open>
  The state that the queues of the backend are about: the contexts and wraps in memory, the commands in flight
  in each queue, for how many polls none of them completes, and the completions reported so far.
\<close>

record spdk_mem =
  vm_ctx :: "ptr \<Rightarrow> nvm_async_ctx option"
  vm_wrap :: "ptr \<Rightarrow> nvm_cmd_wrap option"
  vm_ret_ctx :: "ptr \<Rightarrow> ptr"
  vm_flight :: "ptr \<Rightarrow> ptr list"
  vm_eta :: "ptr \<Rightarrow> nat"
  vm_hist :: "ptr \<Rightarrow> (ptr \<times> nvm_nvme_cpl) list"

text \<open>
  What the theorems assume of SPDK and the allocator: a new queue is empty; submitted commands are in flight, a rejected one is
  not; a poll takes completed commands out, each reported once, and returns their number; after
  finitely many polls a command in flight completes.
\<close>

definition submit_law :: "'w spdk \<Rightarrow> ('w \<Rightarrow> spdk_mem) \<Rightarrow> ('w \<Rightarrow> ptr set) \<Rightarrow> bool" where
  "submit_law sp view live \<longleftrightarrow> (\<forall>c q cmd wrap w fine w'. sp_io_raw sp c q cmd wrap w = (fine, w') \<longrightarrow> live w' = live w
     \<and> view w' = (if fine then (view w)\<lparr>vm_flight := (vm_flight (view w))(q := vm_flight (view w) q @ [wrap_self wrap])\<rparr> else view w))"

definition poll_law :: "'w spdk \<Rightarrow> ('w \<Rightarrow> spdk_mem) \<Rightarrow> ('w \<Rightarrow> ptr set) \<Rightarrow> bool" where
  "poll_law sp view live \<longleftrightarrow> (\<forall>q mx w r cpls w'. sp_poll sp q mx w = ((r, cpls), w') \<longrightarrow> live w' = live w \<and> r = int (length cpls)
     \<and> (\<exists>fl eta. view w' = (view w)\<lparr>vm_flight := (vm_flight (view w))(q := fl), vm_eta := (vm_eta (view w))(q := eta),
           vm_hist := (vm_hist (view w))(q := vm_hist (view w) q @ cpls)\<rparr>
         \<and> mset (vm_flight (view w) q) = mset (map fst cpls) + mset fl
         \<and> (vm_flight (view w) q = [] \<or> cpls \<noteq> [] \<or> eta < vm_eta (view w) q)))"

definition qpair_law :: "'w spdk \<Rightarrow> ('w \<Rightarrow> spdk_mem) \<Rightarrow> ('w \<Rightarrow> ptr set) \<Rightarrow> bool" where
  "qpair_law sp view live \<longleftrightarrow> (\<forall>c opts w q w'. sp_alloc_io_qpair sp c opts w = (q, w') \<longrightarrow> live w' = live w \<and> view w' = view w
     \<and> (q \<noteq> NULL \<longrightarrow> vm_flight (view w) q = []))"

definition memory_law :: "'w spdk \<Rightarrow> ('w \<Rightarrow> spdk_mem) \<Rightarrow> ('w \<Rightarrow> ptr set) \<Rightarrow> bool" where
  "memory_law sp view live \<longleftrightarrow>
     (\<forall>p w. sp_ctx sp p w = vm_ctx (view w) p \<and> sp_wrap sp p w = vm_wrap (view w) p \<and> sp_ret_ctx sp p w = vm_ret_ctx (view w) p)
     \<and> (\<forall>p x w. live (sp_set_ctx sp p x w) = live w
          \<and> view (sp_set_ctx sp p x w) = (view w)\<lparr>vm_ctx := (vm_ctx (view w))(p := x)\<rparr>)
     \<and> (\<forall>p x w. live (sp_set_wrap sp p x w) = live w
          \<and> view (sp_set_wrap sp p x w) = (view w)\<lparr>vm_wrap := (vm_wrap (view w))(p := x)\<rparr>)
     \<and> (\<forall>p x w. live (sp_set_ret sp p x w) = live w \<and> view (sp_set_ret sp p x w) = view w)"

definition spdk_laws :: "'w sys \<Rightarrow> 'w spdk \<Rightarrow> ('w \<Rightarrow> spdk_mem) \<Rightarrow> ('w \<Rightarrow> ptr set) \<Rightarrow> bool" where
  "spdk_laws sys sp view live \<longleftrightarrow> alloc_ok sys live \<and> sys_keeps sys view \<and> memory_law sp view live
     \<and> submit_law sp view live \<and> poll_law sp view live \<and> qpair_law sp view live"

lemma spdk_lawsD:
  assumes "spdk_laws sys sp view live"
  shows "alloc_ok sys live" "sys_keeps sys view"
    "sp_ctx sp p w = vm_ctx (view w) p" "sp_wrap sp p w = vm_wrap (view w) p" "sp_ret_ctx sp p w = vm_ret_ctx (view w) p"
    "live (sp_set_ctx sp p c w) = live w" "view (sp_set_ctx sp p c w) = (view w)\<lparr>vm_ctx := (vm_ctx (view w))(p := c)\<rparr>"
    "live (sp_set_wrap sp p x w) = live w" "view (sp_set_wrap sp p x w) = (view w)\<lparr>vm_wrap := (vm_wrap (view w))(p := x)\<rparr>"
    "live (sp_set_ret sp p v w) = live w" "view (sp_set_ret sp p v w) = view w"
  using assms by (simp_all add: spdk_laws_def memory_law_def)

lemma io_rawD:
  assumes "spdk_laws sys sp view live" "sp_io_raw sp c q cmd wrap w = (fine, w')"
  shows "live w' = live w" "\<not> fine \<Longrightarrow> view w' = view w"
    "fine \<Longrightarrow> view w' = (view w)\<lparr>vm_flight := (vm_flight (view w))(q := vm_flight (view w) q @ [wrap_self wrap])\<rparr>"
  using assms by (simp_all add: spdk_laws_def submit_law_def)

lemma pollD:
  assumes "spdk_laws sys sp view live" "sp_poll sp q mx w = ((r, cpls), w')"
  obtains fl eta where "live w' = live w" "r = int (length cpls)"
    "view w' = (view w)\<lparr>vm_flight := (vm_flight (view w))(q := fl), vm_eta := (vm_eta (view w))(q := eta),
        vm_hist := (vm_hist (view w))(q := vm_hist (view w) q @ cpls)\<rparr>"
    "mset (vm_flight (view w) q) = mset (map fst cpls) + mset fl"
    "vm_flight (view w) q = [] \<or> cpls \<noteq> [] \<or> eta < vm_eta (view w) q"
proof -
  have "poll_law sp view live" using assms(1) by (simp add: spdk_laws_def)
  from this [unfolded poll_law_def, rule_format, OF assms(2)] that show thesis by blast
qed

section \<open>Synchronous commands\<close>

lemma sync_wait_returns:
  assumes "spdk_laws sys sp view live" "vm_flight (view w) q = [p]"
  shows "\<exists>cpl w'. sync_wait sp q p w = Some (cpl, w') \<and> live w' = live w
    \<and> vm_flight (view w') = (vm_flight (view w))(q := []) \<and> vm_hist (view w') = (vm_hist (view w))(q := vm_hist (view w) q @ [(p, cpl)])
    \<and> vm_ctx (view w') = vm_ctx (view w) \<and> vm_wrap (view w') = vm_wrap (view w) \<and> vm_ret_ctx (view w') = vm_ret_ctx (view w)"
  using assms(2)
proof (induction "vm_eta (view w) q" arbitrary: w rule: less_induct)
  case less
  obtain r cpls w1 where p: "sp_poll sp q 0 w = ((r, cpls), w1)" by (metis prod.collapse)
  obtain fl eta where d: "live w1 = live w" "r = int (length cpls)"
    "view w1 = (view w)\<lparr>vm_flight := (vm_flight (view w))(q := fl), vm_eta := (vm_eta (view w))(q := eta),
        vm_hist := (vm_hist (view w))(q := vm_hist (view w) q @ cpls)\<rparr>"
    "mset (vm_flight (view w) q) = mset (map fst cpls) + mset fl"
    "vm_flight (view w) q = [] \<or> cpls \<noteq> [] \<or> eta < vm_eta (view w) q"
    by (rule pollD [OF assms(1) p])
  have m: "{#p#} = mset (map fst cpls) + mset fl" using d(4) less.prems by simp
  show ?case
  proof (cases cpls)
    case Nil
    then have "fl = [p]" "eta < vm_eta (view w) q" using m d(5) less.prems by (simp_all add: single_is_union)
    moreover have "sync_wait sp q p w = sync_wait sp q p w1" using p Nil by (subst sync_wait.simps) simp
    ultimately show ?thesis using less.hyps [of w1] d(1,3) Nil less.prems by simp
  next
    case (Cons c cs)
    then have "fst c = p" "cs = []" "fl = []" using m by (auto simp: single_is_union add_eq_conv_ex)
    moreover have "sync_wait sp q p w = Some (snd c, w1)" if "cpls = [c]" "fst c = p"
      using p that by (subst sync_wait.simps) (cases c, simp)
    ultimately show ?thesis using d(1,3) Cons by (cases c) simp
  qed
qed

text \<open>Where an entry comes from: \<open>nvm_cmd_wrap_setup\<close>, or \<open>nvm_cmd_wrap_pass\<close> for the commands of the user.\<close>

definition same_id :: "nvm_cmd_wrap \<Rightarrow> nvm_cmd_wrap \<Rightarrow> bool" where
  "same_id x y \<longleftrightarrow> wrap_self x = wrap_self y \<and> wrap_ret x = wrap_ret y"

lemma setup_steps_id:
  "wrap_setup_len x opcode data meta naddrs flags = Inr y \<Longrightarrow> same_id y x"
  "wrap_setup_erase_meta sys x opcode meta naddrs w = (Inr y, w') \<Longrightarrow> same_id y x"
  "wrap_setup_scalar_erase sys x addrs naddrs w = (Inr y, w') \<Longrightarrow> same_id y x"
  "wrap_setup_vector sys x addrs dst naddrs w = (Inr y, w') \<Longrightarrow> same_id y x"
  "setup_sgl_data sys x sgl w = (Inr y, w') \<Longrightarrow> same_id y x"
  "setup_sgl_meta sys x sgl w = (Inr y, w') \<Longrightarrow> same_id y x"
  by (auto simp: wrap_setup_len_def wrap_setup_erase_meta_def wrap_setup_scalar_erase_def wrap_setup_vector_def setup_sgl_data_def
      setup_sgl_meta_def Let_def same_id_def ok_def fail_def lift_res_def andThen_Inr split: if_splits option.splits)

lemma setup_sgl_id: "cmd_wrap_setup_sgl sys x dsgl msgl flags w = (Inr y, w') \<Longrightarrow> same_id y x"
  by (auto simp: cmd_wrap_setup_sgl_def ok_def fail_def andThen_Inr same_id_def split: if_splits option.splits dest!: setup_steps_id(5,6))

lemma wrap_setup_id:
  assumes "nvm_cmd_wrap_setup sys dev opcode data meta dsgl msgl addrs dst naddrs flags ret w = (Inr wrap, w')"
  shows "\<exists>self w1. sys_calloc sys 1 184 w = (Inr self, w1) \<and> same_id wrap (wrap_init self dev opcode data meta naddrs ret)"
  using assms
  by (auto simp: nvm_cmd_wrap_setup_def Let_def andThen_Inr on_error_Inr lift_res_def ok_def same_id_def split: if_splits
      dest!: setup_steps_id setup_sgl_id)

locale entry_source =
  fixes mk :: "'a \<Rightarrow> 'w sys \<Rightarrow> nvm_dev \<Rightarrow> ptr \<Rightarrow> ('w, nvm_cmd_wrap) op"
  assumes mk_owns: "alloc_ok sys live \<Longrightarrow> be_known dev \<Longrightarrow> 0 \<notin> live w \<Longrightarrow> wrap_step_ok dev live (live w) (mk a sys dev ret w)"
    and mk_id: "alloc_ok sys live \<Longrightarrow> mk a sys dev ret w = (Inr wrap, w') \<Longrightarrow> wrap_self wrap \<noteq> 0 \<and> wrap_ret wrap = ret"
    and mk_keeps: "sys_keeps sys f \<Longrightarrow> keeps (f :: 'w \<Rightarrow> spdk_mem) (mk a sys dev ret)"

text \<open>The result of a synchronous command: that of the one command the controller executed, or of none.\<close>

definition cpl_ok :: "nvm_nvme_cpl \<Rightarrow> bool" where
  "cpl_ok cpl \<longleftrightarrow> st_sc (cpl_status cpl) = 0 \<and> st_sct (cpl_status cpl) = 0"

definition sync_result :: "ptr \<Rightarrow> spdk_mem \<Rightarrow> spdk_mem \<Rightarrow> unit res \<Rightarrow> bool" where
  "sync_result q v v' r \<longleftrightarrow> vm_flight v' = vm_flight v \<and>
     (vm_hist v' q = vm_hist v q \<and> (\<exists>e. r = Inl (Errno e)) \<or>
      (\<exists>p cpl. vm_hist v' q = vm_hist v q @ [(p, cpl)] \<and> r = (if cpl_ok cpl then Inr () else Inl (Errno EIO))))"

lemma spdk_sync_result:
  assumes "spdk_laws sys sp view live" "be_known dev" "vm_flight (view w) (ss_qpair st) = []" "wrap_owns dev L (live w) wrap"
  shows "\<exists>r w'. spdk_sync sys sp st cmd wrap w = Some (r, w') \<and> live w' = L \<and> sync_result (ss_qpair st) (view w) (view w') r"
proof -
  note D = spdk_lawsD [OF assms(1)]
  let ?q = "ss_qpair st"
  obtain fine w1 where s: "sp_io_raw sp (ss_ctrlr st) ?q cmd wrap w = (fine, w1)" by (metis prod.collapse)
  note io = io_rawD [OF assms(1) s]
  show ?thesis
  proof (cases fine)
    case False
    obtain w2 where t: "nvm_cmd_wrap_term sys wrap w1 = (Inr (), w2)" "live w2 = L"
      using wrap_term_owns [OF D(1) assms(2), of L w1 wrap] assms(4) io(1) by auto
    then show ?thesis using False s io(2) keepsD [OF wrap_term_keeps [OF D(2)] t(1)]
      by (simp add: spdk_sync_def andThen_def fail_def sync_result_def)
  next
    case True
    then have f: "vm_flight (view w1) ?q = [wrap_self wrap]" using io(3) assms(3) by simp
    obtain cpl w2 where c: "sync_wait sp ?q (wrap_self wrap) w1 = Some (cpl, w2)" "live w2 = live w1"
      "vm_flight (view w2) = (vm_flight (view w1))(?q := [])" "vm_hist (view w2) ?q = vm_hist (view w1) ?q @ [(wrap_self wrap, cpl)]"
      using sync_wait_returns [OF assms(1) f] by auto
    obtain wrap' ret where p: "nvm_cmd_wrap_cpl wrap cpl = (wrap', ret)" by (metis prod.collapse)
    then have p': "same_ptrs wrap' wrap" "wrap_completed wrap' = (if cpl_ok cpl then 1 else - 1)"
      by (auto simp: nvm_cmd_wrap_cpl_def same_ptrs_def Let_def cpl_ok_def)
    define w3 where "w3 = (case ret of None \<Rightarrow> w2 | Some rv \<Rightarrow> sp_set_ret sp (wrap_ret wrap) rv w2)"
    have w3: "live w3 = live w2" "view w3 = view w2" by (simp_all add: w3_def D split: option.split)
    obtain w4 where t: "nvm_cmd_wrap_term sys wrap' w3 = (Inr (), w4)" "live w4 = L"
      using wrap_term_owns [OF D(1) assms(2), of L w3 wrap'] same_ptrs_owns [OF p'(1) assms(4)] io(1) c(2) w3 by auto
    have "spdk_sync sys sp st cmd wrap w = Some (if cpl_ok cpl then Inr () else Inl (Errno EIO), w4)"
      using True s c(1) p t(1) p'(2) by (simp add: spdk_sync_def w3_def [symmetric] andThen_def ok_def fail_def)
    moreover have "sync_result ?q (view w) (view w4) (if cpl_ok cpl then Inr () else Inl (Errno EIO))"
      using keepsD [OF wrap_term_keeps [OF D(2)] t(1)] w3 c(3,4) io(3) True assms(3)
      by (auto simp: sync_result_def fun_eq_iff)
    ultimately show ?thesis using t(2) by blast
  qed
qed

context entry_source
begin

lemma sync_command:
  assumes "spdk_laws sys sp view live" "be_known dev" "0 \<notin> live w" "vm_flight (view w) (ss_qpair st) = []"
  shows "\<exists>r w'. lbind (lret (mk a sys dev ret)) (\<lambda>wrap. spdk_sync sys sp st (cmd wrap) wrap) w = Some (r, w')
    \<and> ((\<forall>f. r \<noteq> Inl (Fault f)) \<longrightarrow> live w' = live w \<and> sync_result (ss_qpair st) (view w) (view w') r)"
proof -
  note D = spdk_lawsD [OF assms(1)]
  obtain m w1 where m: "mk a sys dev ret w = (m, w1)" by (metis prod.collapse)
  have o: "wrap_step_ok dev live (live w) (m, w1)" using mk_owns [OF D(1) assms(2,3), of a ret] m by simp
  have v: "view w1 = view w" by (rule keepsD [OF mk_keeps [OF D(2)] m])
  show ?thesis
  proof (cases m)
    case (Inr wrap)
    then have ow: "wrap_owns dev (live w) (live w1) wrap" using o by (simp add: wrap_step_ok_def)
    have fl: "vm_flight (view w1) (ss_qpair st) = []" using assms(4) v by simp
    show ?thesis using spdk_sync_result [OF assms(1,2) fl ow, of "cmd wrap"] m Inr v by (auto simp: lbind_def lret_def)
  qed (use m o v in \<open>auto simp: lbind_def lret_def wrap_step_ok_def sync_result_def split: failure.splits\<close>)
qed

end


lemma setup_wrap_source:
  "alloc_ok sys live \<Longrightarrow> be_known dev \<Longrightarrow> 0 \<notin> live w \<Longrightarrow>
     wrap_step_ok dev live (live w) (setup_wrap sys sp dev opcode data meta addrs dst naddrs flags ret w)"
  "alloc_ok sys live \<Longrightarrow> setup_wrap sys sp dev opcode data meta addrs dst naddrs flags ret w = (Inr wrap, w') \<Longrightarrow>
     wrap_self wrap \<noteq> 0 \<and> wrap_ret wrap = ret"
  "sys_keeps sys f \<Longrightarrow> keeps f (setup_wrap sys sp dev opcode data meta addrs dst naddrs flags ret)"
proof -
  show "wrap_step_ok dev live (live w) (setup_wrap sys sp dev opcode data meta addrs dst naddrs flags ret w)"
    if "alloc_ok sys live" "be_known dev" "0 \<notin> live w"
    unfolding setup_wrap_def by (rule wrap_setup_owns [OF that])
  show "wrap_self wrap \<noteq> 0 \<and> wrap_ret wrap = ret"
    if a: "alloc_ok sys live" and s: "setup_wrap sys sp dev opcode data meta addrs dst naddrs flags ret w = (Inr wrap, w')"
  proof -
    have "allocates live id (sys_calloc sys 1 184)" using a by (simp add: alloc_ok_def)
    note al = allocatesD(1) [OF this]
    from wrap_setup_id [OF s [unfolded setup_wrap_def]] obtain self w1 where
      "sys_calloc sys 1 184 w = (Inr self, w1)" "same_id wrap (wrap_init self dev opcode data meta naddrs ret)" by blast
    with al [of w self w1] show ?thesis by (simp add: same_id_def wrap_init_def)
  qed
  show "keeps f (setup_wrap sys sp dev opcode data meta addrs dst naddrs flags ret)" if "sys_keeps sys f"
    using wrap_setup_keeps(1) [OF that] by (simp add: keeps_def setup_wrap_def)
qed

lemma wrap_pass_source:
  assumes "alloc_ok sys live"
  shows "be_known dev \<Longrightarrow> 0 \<notin> live w \<Longrightarrow> wrap_step_ok dev live (live w) (nvm_cmd_wrap_pass sys dev data dlen meta mlen ret w)"
    and "nvm_cmd_wrap_pass sys dev data dlen meta mlen ret w = (Inr wrap, w') \<Longrightarrow> wrap_self wrap \<noteq> 0 \<and> wrap_ret wrap = ret"
proof -
  have "allocates live id (sys_calloc sys 1 184)" using assms by (simp add: alloc_ok_def)
  note al = allocatesD [OF this]
  obtain r w1 where c: "sys_calloc sys 1 184 w = (r, w1)" by (metis prod.collapse)
  show "wrap_step_ok dev live (live w) (nvm_cmd_wrap_pass sys dev data dlen meta mlen ret w)" if "0 \<notin> live w"
    using c al(1) [of w "projr r" w1] al(2) [of w "projl r" w1] that
    by (cases r) (auto simp: nvm_cmd_wrap_pass_def andThen_def wrap_step_ok_def ok_def wrap_owns_def wrap_ptrs_def wrap_init_def)
  show "wrap_self wrap \<noteq> 0 \<and> wrap_ret wrap = ret" if "nvm_cmd_wrap_pass sys dev data dlen meta mlen ret w = (Inr wrap, w')"
    using that al(1) [of w] by (auto simp: nvm_cmd_wrap_pass_def andThen_Inr ok_def wrap_init_def)
qed

interpretation ewrc: entry_source
  "\<lambda>(sp, opcode, data, meta, addrs, dst, naddrs, flags) sys dev ret. setup_wrap sys sp dev opcode data meta addrs dst naddrs flags ret"
  by unfold_locales (auto intro: setup_wrap_source(1,3) dest: setup_wrap_source(2))

interpretation upass: entry_source
  "\<lambda>(data, dlen, meta, mlen) sys dev ret. nvm_cmd_wrap_pass sys dev data dlen meta mlen ret"
  by unfold_locales (auto intro: wrap_pass_source(1) wrap_setup_keeps(2) dest: wrap_pass_source(2))

section \<open>Asynchronous contexts\<close>

text \<open>The memory of the commands \<open>F\<close> is disjoint, and with \<open>L\<close> it is all that is allocated.\<close>

definition owned :: "(ptr \<Rightarrow> ptr set) \<Rightarrow> ptr set \<Rightarrow> ptr set \<Rightarrow> ptr set \<Rightarrow> bool" where
  "owned mem L F M \<longleftrightarrow> 0 \<notin> M \<and> M = L \<union> \<Union> (mem ` F) \<and> (\<forall>p \<in> F. p \<in> mem p \<and> mem p \<inter> L = {})
     \<and> (\<forall>p \<in> F. \<forall>p' \<in> F. p \<noteq> p' \<longrightarrow> mem p \<inter> mem p' = {})"

lemma owned_notin: "owned mem L F M \<Longrightarrow> p \<notin> M \<Longrightarrow> p \<notin> F"
  by (auto simp: owned_def)

lemma owned_insert:
  assumes "owned mem L F M" "S \<inter> M = {}" "p \<in> S" "0 \<notin> S" "mem' p = S" "\<And>p'. p' \<in> F \<Longrightarrow> mem' p' = mem p'"
  shows "owned mem' L (insert p F) (M \<union> S)"
  using assms by (auto simp: owned_def)

lemma owned_remove:
  assumes "owned mem L F M" "p \<in> F" "\<And>p'. p' \<in> F - {p} \<Longrightarrow> mem' p' = mem p'"
  shows "owned mem' L (F - {p}) (M - mem p)"
proof -
  have "\<Union> (mem' ` (F - {p})) = \<Union> (mem ` (F - {p}))" using assms(3) by auto
  moreover have "M - mem p = L \<union> \<Union> (mem ` (F - {p}))" using assms(1,2) unfolding owned_def by blast
  ultimately show ?thesis using assms unfolding owned_def by auto
qed

definition cmd_mem :: "spdk_mem \<Rightarrow> ptr \<Rightarrow> ptr set" where
  "cmd_mem v p = (case vm_wrap v p of None \<Rightarrow> {} | Some wrap \<Rightarrow> wrap_ptrs wrap)"

text \<open>The entry of a command that was submitted to the context \<open>ctxp\<close>.\<close>

definition entry_of :: "nvm_dev \<Rightarrow> ptr \<Rightarrow> spdk_mem \<Rightarrow> ptr \<Rightarrow> bool" where
  "entry_of dev ctxp v p \<longleftrightarrow> (case vm_wrap v p of None \<Rightarrow> False
     | Some wrap \<Rightarrow> wrap_self wrap = p \<and> wrap_dev wrap = dev \<and> wrap_ret wrap \<noteq> NULL \<and> vm_ret_ctx v (wrap_ret wrap) = ctxp)"

lemma entry_cong:
  assumes "vm_wrap v' p = vm_wrap v p"
  shows "vm_ret_ctx v' = vm_ret_ctx v \<Longrightarrow> entry_of dev ctxp v' p = entry_of dev ctxp v p" "cmd_mem v' p = cmd_mem v p"
  using assms by (simp_all add: entry_of_def cmd_mem_def split: option.split)

text \<open>
  The invariant of a context, for the commands \<open>ps\<close> that were submitted and whose callback has not been made:
  they are counted in \<open>outstanding\<close>, there are at most \<open>depth\<close> of them, and each owns its memory.
\<close>

definition accounts :: "nvm_dev \<Rightarrow> ptr \<Rightarrow> ptr \<Rightarrow> u32 \<Rightarrow> ptr set \<Rightarrow> ptr list \<Rightarrow> spdk_mem \<Rightarrow> ptr set \<Rightarrow> bool" where
  "accounts dev ctxp q depth L ps v M \<longleftrightarrow>
     (\<exists>ctx. vm_ctx v ctxp = Some ctx \<and> ctx_be_ctx ctx = q \<and> ctx_depth ctx = depth \<and> unat (ctx_outstanding ctx) = length ps)
     \<and> length ps \<le> unat depth \<and> distinct ps \<and> (\<forall>p \<in> set ps. entry_of dev ctxp v p) \<and> owned (cmd_mem v) L (set ps) M"

lemma accounts_mset: "mset ps = mset ps' \<Longrightarrow> accounts dev ctxp q depth L ps v M \<Longrightarrow> accounts dev ctxp q depth L ps' v M"
  using mset_eq_setD [of ps ps'] mset_eq_length [of ps ps'] mset_eq_imp_distinct_iff [of ps ps'] by (simp add: accounts_def)

lemma owned_cong: "(\<And>p. p \<in> F \<Longrightarrow> mem' p = mem p) \<Longrightarrow> owned mem' L F M = owned mem L F M"
  by (simp add: owned_def cong: SUP_cong)

lemma accounts_view:
  assumes "accounts dev ctxp q depth L ps v M" "vm_ctx v' = vm_ctx v" "\<And>p. p \<in> set ps \<Longrightarrow> vm_wrap v' p = vm_wrap v p" "vm_ret_ctx v' = vm_ret_ctx v"
  shows "accounts dev ctxp q depth L ps v' M"
proof -
  have "owned (cmd_mem v') L (set ps) M = owned (cmd_mem v) L (set ps) M"
    by (rule owned_cong) (use assms(3) entry_cong(2) in blast)
  then show ?thesis using assms(1,2) entry_cong(1) [OF assms(3,4)] by (simp add: accounts_def)
qed

lemma set_outstanding_view:
  assumes "spdk_laws sys sp view live" "vm_ctx (view w) ctxp = Some ctx"
  shows "live (set_outstanding sp ctxp f w) = live w"
    "view (set_outstanding sp ctxp f w) = (view w)\<lparr>vm_ctx := (vm_ctx (view w))(ctxp \<mapsto> ctx\<lparr>ctx_outstanding := f (ctx_outstanding ctx)\<rparr>)\<rparr>"
  using assms(2) by (simp_all add: set_outstanding_def spdk_lawsD [OF assms(1)])

lemma accounts_submit:
  assumes "accounts dev ctxp q depth L ps v M" "wrap_owns dev M M' wrap" "wrap_self wrap \<noteq> 0" "wrap_ret wrap \<noteq> 0"
    and "vm_ret_ctx v (wrap_ret wrap) = ctxp" "vm_ctx v ctxp = Some ctx" "length ps < unat depth"
    and "v' = v\<lparr>vm_ctx := (vm_ctx v)(ctxp \<mapsto> ctx\<lparr>ctx_outstanding := ctx_outstanding ctx + 1\<rparr>), vm_wrap := (vm_wrap v)(wrap_self wrap \<mapsto> wrap),
          vm_flight := fl\<rparr>"
  shows "accounts dev ctxp q depth L (wrap_self wrap # ps) v' M'"
proof -
  let ?p = "wrap_self wrap"
  have o: "owned (cmd_mem v) L (set ps) M" and out: "unat (ctx_outstanding ctx) = length ps"
    and c: "ctx_be_ctx ctx = q" "ctx_depth ctx = depth" and ps: "distinct ps" "\<forall>p \<in> set ps. entry_of dev ctxp v p"
    using assms(1,6) by (auto simp: accounts_def)
  have w: "wrap_ptrs wrap \<inter> M = {}" "M' = M \<union> wrap_ptrs wrap" "wrap_dev wrap = dev" "?p \<in> wrap_ptrs wrap" "0 \<notin> wrap_ptrs wrap"
    using assms(2,3) by (auto simp: wrap_owns_def wrap_ptrs_def)
  then have p: "?p \<notin> set ps" using owned_notin [OF o] by blast
  have "owned (cmd_mem v') L (insert ?p (set ps)) M'"
    unfolding w(2) by (rule owned_insert [OF o w(1,4,5)]) (use p assms(8) in \<open>auto simp: cmd_mem_def\<close>)
  moreover have "unat (ctx_outstanding ctx + 1) = Suc (length ps)"
    using out assms(7) unsigned_less [of depth, where 'a = nat] by (simp add: unat_word_ariths)
  moreover have "entry_of dev ctxp v' p' = entry_of dev ctxp v p'" if "p' \<in> set ps" for p'
    by (rule entry_cong(1)) (use that p assms(8) in auto)
  moreover have "entry_of dev ctxp v' ?p" using w(3) assms(4,5,8) by (simp add: entry_of_def)
  ultimately show ?thesis using c p ps assms(7,8) by (simp add: accounts_def)
qed

lemma accounts_complete:
  assumes "accounts dev ctxp q depth L (p # ps) v M" "vm_wrap v p = Some wrap" "vm_ctx v ctxp = Some ctx"
    and "v' = v\<lparr>vm_ctx := (vm_ctx v)(ctxp \<mapsto> ctx\<lparr>ctx_outstanding := ctx_outstanding ctx - 1\<rparr>), vm_wrap := (vm_wrap v)(p := None)\<rparr>"
  shows "accounts dev ctxp q depth L ps v' (M - wrap_ptrs wrap)"
proof -
  have o: "owned (cmd_mem v) L (set (p # ps)) M" and out: "unat (ctx_outstanding ctx) = Suc (length ps)"
    and c: "ctx_be_ctx ctx = q" "ctx_depth ctx = depth" and ps: "p \<notin> set ps" "distinct ps" "\<forall>p \<in> set ps. entry_of dev ctxp v p"
    using assms(1,3) by (auto simp: accounts_def)
  have "owned (cmd_mem v') L (set (p # ps) - {p}) (M - cmd_mem v p)"
    by (rule owned_remove [OF o]) (use assms(4) in \<open>auto simp: cmd_mem_def\<close>)
  moreover have "set (p # ps) - {p} = set ps" "cmd_mem v p = wrap_ptrs wrap" using ps(1) assms(2) by (auto simp: cmd_mem_def)
  moreover have "unat (ctx_outstanding ctx - 1) = length ps" using out by (metis diff_Suc_1 unat_minus_one unat_0 nat.distinct(1))
  moreover have "entry_of dev ctxp v' p' = entry_of dev ctxp v p'" if "p' \<in> set ps" for p'
    by (rule entry_cong(1)) (use that ps(1) assms(4) in auto)
  moreover have "length ps \<le> unat depth" using assms(1) by (simp add: accounts_def)
  ultimately show ?thesis using c ps assms(4) by (simp add: accounts_def)
qed

text \<open>A context between two operations: what is accounted for is what is in flight.\<close>

definition ctx_ok :: "nvm_dev \<Rightarrow> ptr \<Rightarrow> ptr \<Rightarrow> u32 \<Rightarrow> ptr set \<Rightarrow> spdk_mem \<Rightarrow> ptr set \<Rightarrow> bool" where
  "ctx_ok dev ctxp q depth L v M \<longleftrightarrow> accounts dev ctxp q depth L (vm_flight v q) v M"

lemma spdk_async_step:
  assumes "spdk_laws sys sp view live" "be_known dev" "ctx_ok dev ctxp q depth L (view w) M" "wrap_owns dev M (live w) wrap"
    and "wrap_self wrap \<noteq> 0" "wrap_ret wrap \<noteq> 0" "vm_ret_ctx (view w) (wrap_ret wrap) = ctxp" "length (vm_flight (view w) q) < unat depth"
  shows "\<exists>r w'. spdk_async sys sp st ctxp q cmd wrap w = (r, w') \<and> ctx_ok dev ctxp q depth L (view w') (live w')
    \<and> (r = Inr () \<and> vm_flight (view w') q = vm_flight (view w) q @ [wrap_self wrap] \<or> r = Inl (Errno EKEEP) \<and> vm_flight (view w') q = vm_flight (view w) q)"
proof -
  note D = spdk_lawsD [OF assms(1)]
  let ?p = "wrap_self wrap" and ?v = "view w"
  have acc: "accounts dev ctxp q depth L (vm_flight ?v q) ?v M" using assms(3) by (simp add: ctx_ok_def)
  then obtain ctx where ctx: "vm_ctx ?v ctxp = Some ctx" by (auto simp: accounts_def)
  define w1 where "w1 = sp_set_wrap sp ?p (Some wrap) (set_outstanding sp ctxp (\<lambda>n. n + 1) w)"
  have w1: "live w1 = live w"
    "view w1 = ?v\<lparr>vm_ctx := (vm_ctx ?v)(ctxp \<mapsto> ctx\<lparr>ctx_outstanding := ctx_outstanding ctx + 1\<rparr>), vm_wrap := (vm_wrap ?v)(?p \<mapsto> wrap)\<rparr>"
    by (simp_all add: w1_def D set_outstanding_view [OF assms(1) ctx])
  obtain fine w2 where s: "sp_io_raw sp (ss_ctrlr st) q cmd wrap w1 = (fine, w2)" by (metis prod.collapse)
  note io = io_rawD [OF assms(1) s]
  show ?thesis
  proof (cases fine)
    case True
    have "accounts dev ctxp q depth L (?p # vm_flight ?v q) (view w2) (live w2)"
      by (rule accounts_submit [OF acc assms(4-7) ctx assms(8), where fl = "(vm_flight ?v)(q := vm_flight ?v q @ [?p])", folded io(1) [unfolded w1(1)]])
        (simp add: io(3) [OF True] w1(2))
    then have "ctx_ok dev ctxp q depth L (view w2) (live w2)" unfolding ctx_ok_def
      by (rule accounts_mset [rotated]) (simp add: io(3) [OF True] w1(2))
    then show ?thesis using True s io(3) w1(2) by (simp add: spdk_async_def w1_def [symmetric])
  next
    case False
    have v2: "view w2 = view w1" "live w2 = live w" using io False w1(1) by simp_all
    have c2: "vm_ctx (view w2) ctxp = Some (ctx\<lparr>ctx_outstanding := ctx_outstanding ctx + 1\<rparr>)" by (simp add: v2 w1)
    define w3 where "w3 = sp_set_wrap sp ?p None (set_outstanding sp ctxp (\<lambda>n. n - 1) w2)"
    have w3: "live w3 = live w" "view w3 = ?v\<lparr>vm_wrap := (vm_wrap ?v)(?p := None)\<rparr>"
      using ctx by (simp_all add: w3_def D set_outstanding_view [OF assms(1) c2] v2 w1 fun_upd_idem)
    obtain w4 where t: "nvm_cmd_wrap_term sys wrap w3 = (Inr (), w4)" "live w4 = M"
      using wrap_term_owns [OF D(1) assms(2), of M w3 wrap] assms(4) w3(1) by auto
    have v4: "view w4 = view w3" by (rule keepsD [OF wrap_term_keeps [OF D(2)] t(1)])
    have "?p \<notin> set (vm_flight ?v q)"
      using acc assms(4,5) owned_notin [of "cmd_mem ?v" L "set (vm_flight ?v q)" M ?p] by (auto simp: accounts_def wrap_owns_def wrap_ptrs_def)
    then have "accounts dev ctxp q depth L (vm_flight ?v q) (view w4) (live w4)"
      unfolding t(2) by (intro accounts_view [OF acc]) (auto simp: v4 w3)
    then show ?thesis using False s t(1) v4 w3(2)
      by (simp add: spdk_async_def w1_def [symmetric] w3_def [symmetric] andThen_def fail_def ctx_ok_def)
  qed
qed

context entry_source
begin

lemma async_command:
  assumes "spdk_laws sys sp view live" "be_known dev" "ctx_ok dev ctxp q depth L (view w) (live w)" "depth \<noteq> - 1"
    and "ret \<noteq> 0" "vm_ret_ctx (view w) ret = ctxp" "async_submit sys sp dev ret (mk a sys dev ret) cmd w = (r, w')" "\<forall>f. r \<noteq> Inl (Fault f)"
  shows "ctx_ok dev ctxp q depth L (view w') (live w')
    \<and> (r = Inr () \<and> (\<exists>p. vm_flight (view w') q = vm_flight (view w) q @ [p]) \<or> vm_flight (view w') q = vm_flight (view w) q)"
proof -
  note D = spdk_lawsD [OF assms(1)]
  obtain ctx where ctx: "vm_ctx (view w) ctxp = Some ctx" "ctx_be_ctx ctx = q" "ctx_depth ctx = depth"
    "unat (ctx_outstanding ctx) = length (vm_flight (view w) q)" and z: "0 \<notin> live w" "length (vm_flight (view w) q) \<le> unat depth"
    using assms(3) by (auto simp: ctx_ok_def accounts_def owned_def)
  obtain m w1 where m: "mk a sys dev ret w = (m, w1)" by (metis prod.collapse)
  have o: "wrap_step_ok dev live (live w) (m, w1)" using mk_owns [OF D(1) assms(2) z(1), of a ret] m by simp
  have v: "view w1 = view w" by (rule keepsD [OF mk_keeps [OF D(2)] m])
  obtain st where st: "dev_state sp dev w = (Inr st, w)" using assms(7,8)
    by (cases "sp_state sp (dev_be_state dev) w") (auto simp: async_submit_def andThen_def dev_state_def)
  have sub: "async_submit sys sp dev ret (mk a sys dev ret) cmd w =
    (if ctx_outstanding ctx + 1 > depth then (Inl (Errno EAGAIN), w)
     else case m of Inl e \<Rightarrow> (Inl e, w1) | Inr wrap \<Rightarrow> spdk_async sys sp st ctxp q (cmd wrap) wrap w1)"
    using st ctx m by (simp add: async_submit_def andThen_def Let_def D assms(6) split: sum.split)
  show ?thesis
  proof (cases "ctx_outstanding ctx + 1 > depth")
    case True
    then show ?thesis using sub assms(3,7) by auto
  next
    case False
    have "ctx_outstanding ctx \<noteq> depth"
    proof
      assume "ctx_outstanding ctx = depth"
      moreover have "unat (depth + 1) = Suc (unat depth)" using unatSuc [of depth] assms(4) by (simp add: add.commute eq_neg_iff_add_eq_0)
      ultimately show False using False by (simp add: word_less_nat_alt)
    qed
    then have lt: "length (vm_flight (view w1) q) < unat depth" using z(2) ctx(4) v by (metis le_neq_implies_less word_unat_eq_iff)
    show ?thesis
    proof (cases m)
      case (Inl e)
      then show ?thesis using False sub assms(3,7,8) o v by (cases e) (auto simp: wrap_step_ok_def)
    next
      case (Inr wrap)
      then have ow: "wrap_owns dev (live w) (live w1) wrap" using o by (simp add: wrap_step_ok_def)
      have i: "wrap_self wrap \<noteq> 0" "wrap_ret wrap = ret" using mk_id [OF D(1)] m Inr by blast+
      have c: "ctx_ok dev ctxp q depth L (view w1) (live w)" "wrap_ret wrap \<noteq> 0" "vm_ret_ctx (view w1) (wrap_ret wrap) = ctxp"
        using assms(3,5,6) v i by simp_all
      from spdk_async_step [OF assms(1,2) c(1) ow i(1) c(2,3) lt, of st "cmd wrap"] show ?thesis
        using False sub assms(7) Inr v by auto
    qed
  qed
qed

end

text \<open>The callback that a completion leads to: the result structure of the command, and whether it failed.\<close>

definition cb_of :: "spdk_mem \<Rightarrow> ptr \<times> nvm_nvme_cpl \<Rightarrow> ptr \<times> bool" where
  "cb_of v = (\<lambda>(p, cpl). (wrap_ret (the (vm_wrap v p)), ret_status (cpl_ret cpl) \<noteq> 0))"

definition queue_same :: "spdk_mem \<Rightarrow> spdk_mem \<Rightarrow> bool" where
  "queue_same v v' \<longleftrightarrow> vm_flight v' = vm_flight v \<and> vm_eta v' = vm_eta v \<and> vm_hist v' = vm_hist v \<and> vm_ret_ctx v' = vm_ret_ctx v"

lemma async_cb_step:
  assumes "spdk_laws sys sp view live" "be_known dev" "accounts dev ctxp q depth L (p # ps) (view w) (live w)"
  shows "\<exists>w'. cmd_async_cb sys sp (p, cpl) w = (Inr (cb_of (view w) (p, cpl)), w') \<and> accounts dev ctxp q depth L ps (view w') (live w')
    \<and> queue_same (view w) (view w') \<and> (\<forall>p' \<in> set ps. vm_wrap (view w') p' = vm_wrap (view w) p')"
proof -
  note D = spdk_lawsD [OF assms(1)]
  let ?v = "view w"
  have "entry_of dev ctxp ?v p" using assms(3) by (simp add: accounts_def)
  then obtain wrap where wr: "vm_wrap ?v p = Some wrap" "wrap_dev wrap = dev" "wrap_ret wrap \<noteq> 0" "vm_ret_ctx ?v (wrap_ret wrap) = ctxp"
    by (auto simp: entry_of_def split: option.splits)
  obtain ctx where ctx: "vm_ctx ?v ctxp = Some ctx" using assms(3) by (auto simp: accounts_def)
  have c: "nvm_cmd_wrap_cpl wrap cpl = (wrap', r) \<Longrightarrow> same_ptrs wrap' wrap \<and> r = Some (cpl_ret cpl)" for wrap' r
    using wr(3) by (auto simp: nvm_cmd_wrap_cpl_def same_ptrs_def cpl_ret_def Let_def)
  obtain wrap' where cp: "nvm_cmd_wrap_cpl wrap cpl = (wrap', Some (cpl_ret cpl))" "same_ptrs wrap' wrap" by (metis c prod.collapse)
  define w1 where "w1 = set_outstanding sp ctxp (\<lambda>n. n - 1) w"
  define w2 where "w2 = sp_set_wrap sp p None (sp_set_ret sp (wrap_ret wrap) (cpl_ret cpl) w1)"
  have w2: "live w2 = live w"
    "view w2 = ?v\<lparr>vm_ctx := (vm_ctx ?v)(ctxp \<mapsto> ctx\<lparr>ctx_outstanding := ctx_outstanding ctx - 1\<rparr>), vm_wrap := (vm_wrap ?v)(p := None)\<rparr>"
    by (simp_all add: w2_def w1_def D set_outstanding_view [OF assms(1) ctx])
  have acc: "accounts dev ctxp q depth L ps (view w2) (live w - wrap_ptrs wrap)" by (rule accounts_complete [OF assms(3) wr(1) ctx w2(2)])
  have "owned (cmd_mem ?v) L (set (p # ps)) (live w)" using assms(3) by (simp add: accounts_def)
  then have "0 \<notin> live w \<and> wrap_ptrs wrap \<subseteq> live w" using wr(1) by (auto simp: owned_def cmd_mem_def)
  then have "wrap_owns dev (live w - wrap_ptrs wrap) (live w2) wrap'"
    using wr(2) w2(1) by (intro same_ptrs_owns [OF cp(2)]) (auto simp: wrap_owns_def)
  from wrap_term_owns [OF D(1) assms(2) this] obtain w3 where t: "nvm_cmd_wrap_term sys wrap' w2 = (Inr (), w3)" "live w3 = live w - wrap_ptrs wrap"
    by blast
  have v3: "view w3 = view w2" by (rule keepsD [OF wrap_term_keeps [OF D(2)] t(1)])
  have "cmd_async_cb sys sp (p, cpl) w = (Inr (cb_of ?v (p, cpl)), w3)"
    using wr cp(1) t(1) by (simp add: cmd_async_cb_def D Let_def w1_def [symmetric] w2_def [symmetric] andThen_def ok_def cb_of_def)
  moreover have "p \<notin> set ps" using assms(3) by (simp add: accounts_def)
  ultimately show ?thesis using acc v3 w2(2) t(2) by (auto simp: queue_same_def)
qed

lemma cb_of_cong: "(\<And>p cpl. (p, cpl) \<in> set cpls \<Longrightarrow> vm_wrap v' p = vm_wrap v p) \<Longrightarrow> map (cb_of v') cpls = map (cb_of v) cpls"
  by (auto simp: cb_of_def)

lemma run_cbs_fold:
  assumes "spdk_laws sys sp view live" "be_known dev" "accounts dev ctxp q depth L (map fst cpls @ ps) (view w) (live w)"
  shows "\<exists>w'. fold_op (\<lambda>c cbs. andThen (cmd_async_cb sys sp c) (\<lambda>cb. ok (cbs @ [cb]))) cpls cbs w = (Inr (cbs @ map (cb_of (view w)) cpls), w')
    \<and> accounts dev ctxp q depth L ps (view w') (live w') \<and> queue_same (view w) (view w')
    \<and> (\<forall>p \<in> set ps. vm_wrap (view w') p = vm_wrap (view w) p)"
  using assms(3)
proof (induction cpls arbitrary: cbs w)
  case Nil
  then show ?case by (simp add: ok_def queue_same_def)
next
  case (Cons c cpls)
  obtain p cpl where c: "c = (p, cpl)" by (cases c)
  from Cons.prems c have a: "accounts dev ctxp q depth L (p # map fst cpls @ ps) (view w) (live w)" by simp
  obtain w1 where w1: "cmd_async_cb sys sp (p, cpl) w = (Inr (cb_of (view w) (p, cpl)), w1)"
    "accounts dev ctxp q depth L (map fst cpls @ ps) (view w1) (live w1)" "queue_same (view w) (view w1)"
    "\<forall>p' \<in> set (map fst cpls @ ps). vm_wrap (view w1) p' = vm_wrap (view w) p'"
    using async_cb_step [OF assms(1,2) a, of cpl] by blast
  have "map (cb_of (view w1)) cpls = map (cb_of (view w)) cpls" by (rule cb_of_cong) (use w1(4) in force)
  with Cons.IH [OF w1(2), of "cbs @ [cb_of (view w) c]"] w1 c show ?case
    by (auto simp: andThen_def ok_def queue_same_def)
qed

lemma poke_step:
  assumes "spdk_laws sys sp view live" "be_known dev" "ctx_ok dev ctxp q depth L (view w) (live w)"
  shows "\<exists>cpls w'. nvm_be_spdk_async_poke sys sp dev ctxp mx w = ((Inr (int (length cpls)), map (cb_of (view w)) cpls), w')
    \<and> ctx_ok dev ctxp q depth L (view w') (live w') \<and> mset (vm_flight (view w) q) = mset (map fst cpls) + mset (vm_flight (view w') q)
    \<and> vm_hist (view w') q = vm_hist (view w) q @ cpls \<and> (\<forall>p \<in> set (vm_flight (view w') q). vm_wrap (view w') p = vm_wrap (view w) p)
    \<and> (vm_flight (view w) q = [] \<or> cpls \<noteq> [] \<or> vm_eta (view w') q < vm_eta (view w) q)"
proof -
  obtain ctx where ctx: "sp_ctx sp ctxp w = Some ctx" "ctx_be_ctx ctx = q"
    using assms(3) by (auto simp: ctx_ok_def accounts_def spdk_lawsD [OF assms(1)])
  obtain r cpls w1 where p: "sp_poll sp q mx w = ((r, cpls), w1)" by (metis prod.collapse)
  obtain fl eta where d: "live w1 = live w" "r = int (length cpls)"
    "view w1 = (view w)\<lparr>vm_flight := (vm_flight (view w))(q := fl), vm_eta := (vm_eta (view w))(q := eta),
        vm_hist := (vm_hist (view w))(q := vm_hist (view w) q @ cpls)\<rparr>"
    "mset (vm_flight (view w) q) = mset (map fst cpls) + mset fl" "vm_flight (view w) q = [] \<or> cpls \<noteq> [] \<or> eta < vm_eta (view w) q"
    by (rule pollD [OF assms(1) p])
  have a: "accounts dev ctxp q depth L (map fst cpls @ fl) (view w1) (live w1)"
    unfolding d(1) by (rule accounts_view [OF accounts_mset [OF _ assms(3) [unfolded ctx_ok_def]]]) (simp_all add: d(3,4))
  from run_cbs_fold [OF assms(1,2) this, of "[]"] obtain w2 where w2: "run_cbs sys sp cpls w1 = (Inr (map (cb_of (view w1)) cpls), w2)"
    "accounts dev ctxp q depth L fl (view w2) (live w2)" "queue_same (view w1) (view w2)" "\<forall>p \<in> set fl. vm_wrap (view w2) p = vm_wrap (view w1) p"
    unfolding run_cbs_def by auto
  have "cb_of (view w1) = cb_of (view w)" by (simp add: fun_eq_iff cb_of_def d(3))
  then have "nvm_be_spdk_async_poke sys sp dev ctxp mx w = ((Inr (int (length cpls)), map (cb_of (view w)) cpls), w2)"
    using ctx p w2(1) d(2) by (simp add: nvm_be_spdk_async_poke_def)
  then show ?thesis using w2(2-4) d(3-5) by (auto simp: ctx_ok_def queue_same_def)
qed

lemma wait_completes:
  assumes "spdk_laws sys sp view live" "be_known dev" "ctx_ok dev ctxp q depth L (view w) (live w)"
  shows "\<exists>cpls w'. spdk_wait sys sp dev ctxp acc cbs w = Some ((Inr (acc + int (length cpls)), cbs @ map (cb_of (view w)) cpls), w')
    \<and> ctx_ok dev ctxp q depth L (view w') (live w') \<and> vm_flight (view w') q = [] \<and> mset (map fst cpls) = mset (vm_flight (view w) q)
    \<and> vm_hist (view w') q = vm_hist (view w) q @ cpls"
  using assms(3)
proof (induction "(length (vm_flight (view w) q), vm_eta (view w) q)" arbitrary: acc cbs w
    rule: wf_induct_rule [OF wf_lex_prod [OF wf_less_than wf_less_than]])
  case 1
  let ?v = "view w"
  obtain ctx where ctx: "sp_ctx sp ctxp w = Some ctx" "unat (ctx_outstanding ctx) = length (vm_flight ?v q)"
    using 1(2) by (auto simp: ctx_ok_def accounts_def spdk_lawsD [OF assms(1)])
  show ?case
  proof (cases "vm_flight ?v q = []")
    case True
    then have "ctx_outstanding ctx = 0" using ctx(2) by (simp add: unat_eq_zero)
    then have "spdk_wait sys sp dev ctxp acc cbs w = Some ((Inr acc, cbs), w)" using ctx(1) by (subst spdk_wait.simps) simp
    then show ?thesis using True 1(2) by (intro exI [of _ "[]"]) simp
  next
    case False
    then have o: "ctx_outstanding ctx \<noteq> 0" using ctx(2) by auto
    from poke_step [OF assms(1,2) 1(2), of 0] obtain cpls w1 where
      p: "nvm_be_spdk_async_poke sys sp dev ctxp 0 w = ((Inr (int (length cpls)), map (cb_of ?v) cpls), w1)"
      and k: "ctx_ok dev ctxp q depth L (view w1) (live w1)" and m: "mset (vm_flight ?v q) = mset (map fst cpls) + mset (vm_flight (view w1) q)"
      and h: "vm_hist (view w1) q = vm_hist ?v q @ cpls" and wr: "\<forall>p \<in> set (vm_flight (view w1) q). vm_wrap (view w1) p = vm_wrap ?v p"
      and e: "vm_flight ?v q = [] \<or> cpls \<noteq> [] \<or> vm_eta (view w1) q < vm_eta ?v q" by blast
    have st: "spdk_wait sys sp dev ctxp acc cbs w = spdk_wait sys sp dev ctxp (acc + int (length cpls)) (cbs @ map (cb_of ?v) cpls) w1"
      using ctx(1) o p by (subst spdk_wait.simps) simp
    have len: "length (vm_flight ?v q) = length cpls + length (vm_flight (view w1) q)"
      using arg_cong [OF m, of size] by simp
    then have "((length (vm_flight (view w1) q), vm_eta (view w1) q), (length (vm_flight ?v q), vm_eta ?v q)) \<in> less_than <*lex*> less_than"
      using e False by (cases cpls) auto
    from 1(1) [OF this k, of "acc + int (length cpls)" "cbs @ map (cb_of ?v) cpls"] obtain cpls' w2 where
      r: "spdk_wait sys sp dev ctxp (acc + int (length cpls)) (cbs @ map (cb_of ?v) cpls) w1 =
        Some ((Inr (acc + int (length cpls) + int (length cpls')), (cbs @ map (cb_of ?v) cpls) @ map (cb_of (view w1)) cpls'), w2)"
        "ctx_ok dev ctxp q depth L (view w2) (live w2)" "vm_flight (view w2) q = []" "mset (map fst cpls') = mset (vm_flight (view w1) q)"
        "vm_hist (view w2) q = vm_hist (view w1) q @ cpls'" by blast
    have "fst ` set cpls' = set (vm_flight (view w1) q)" using mset_eq_setD [OF r(4)] by simp
    then have "map (cb_of (view w1)) cpls' = map (cb_of ?v) cpls'" using wr by (intro cb_of_cong) force
    then show ?thesis using st r m h by (intro exI [of _ "cpls @ cpls'"] exI [of _ w2]) (simp add: add.assoc)
  qed
qed

text \<open>The histories of a context: submissions, also rejected ones, and polls in any order.\<close>

inductive spdk_run :: "'w sys \<Rightarrow> 'w spdk \<Rightarrow> nvm_dev \<Rightarrow> ptr \<Rightarrow> 'w \<Rightarrow> 'w \<Rightarrow> bool" for sys sp dev ctxp w0 where
  start: "spdk_run sys sp dev ctxp w0 w0"
| command: "spdk_run sys sp dev ctxp w0 w \<Longrightarrow> ret \<noteq> NULL \<Longrightarrow> sp_ret_ctx sp ret w = ctxp \<Longrightarrow>
    cmd_async_ewrc sys sp dev addrs dst naddrs data meta flags opcode ret w = (r, w') \<Longrightarrow> \<forall>f. r \<noteq> Inl (Fault f) \<Longrightarrow> spdk_run sys sp dev ctxp w0 w'"
| raw: "spdk_run sys sp dev ctxp w0 w \<Longrightarrow> ret \<noteq> NULL \<Longrightarrow> sp_ret_ctx sp ret w = ctxp \<Longrightarrow>
    cmd_async_pass sys sp dev cmd data dlen meta mlen ret w = (r, w') \<Longrightarrow> \<forall>f. r \<noteq> Inl (Fault f) \<Longrightarrow> spdk_run sys sp dev ctxp w0 w'"
| poke: "spdk_run sys sp dev ctxp w0 w \<Longrightarrow> nvm_be_spdk_async_poke sys sp dev ctxp mx w = (r, w') \<Longrightarrow> spdk_run sys sp dev ctxp w0 w'"

lemma async_init_parts:
  assumes "nvm_be_spdk_async_init sys sp dev depth flags w = (Inr ctx, w')"
  obtains p w1 q w2 opts c where "sys_calloc sys 1 16 w = (Inr p, w1)" "sp_alloc_io_qpair sp c opts w1 = (q, w2)" "q \<noteq> 0"
    "ctx_self ctx = p" "ctx_be_ctx ctx = q" "ctx_outstanding ctx = 0" "w' = sp_set_ctx sp p (Some ctx) w2"
proof -
  obtain st where st: "dev_state sp dev w = (Inr st, w)"
    using assms by (cases "sp_state sp (dev_be_state dev) w") (auto simp: nvm_be_spdk_async_init_def andThen_def dev_state_def)
  define opts where "opts = (if depth \<noteq> 0 then (depth, depth * 2) else sp_default_opts sp (ss_ctrlr st) w)"
  let ?ctx = "\<lambda>p q. \<lparr>ctx_self = p, ctx_depth = fst opts, ctx_outstanding = 0, ctx_be_ctx = q\<rparr>"
  let ?tail = "\<lambda>p w. case sp_alloc_io_qpair sp (ss_ctrlr st) (Some opts) w of (q, w) \<Rightarrow>
    if q = NULL then (Inl (Errno EKEEP), sys_free sys p w) else (Inr (?ctx p q), sp_set_ctx sp p (Some (?ctx p q)) w)"
  have "andThen (sys_calloc sys 1 16) ?tail w = (Inr ctx, w')"
    using assms unfolding nvm_be_spdk_async_init_def Let_def opts_def andThen_def [of "dev_state sp dev"] st by simp
  then obtain p w1 where a: "sys_calloc sys 1 16 w = (Inr p, w1)" "?tail p w1 = (Inr ctx, w')" unfolding andThen_Inr by blast
  obtain q w2 where q: "sp_alloc_io_qpair sp (ss_ctrlr st) (Some opts) w1 = (q, w2)" by (metis prod.collapse)
  show thesis by (rule that [OF a(1) q]) (use a(2) q in \<open>auto split: if_splits\<close>)
qed

lemma async_init_ok:
  assumes "spdk_laws sys sp view live" "0 \<notin> live w" "nvm_be_spdk_async_init sys sp dev depth flags w = (Inr ctx, w')"
  shows "ctx_ok dev (ctx_self ctx) (ctx_be_ctx ctx) (ctx_depth ctx) (live w') (view w') (live w') \<and> vm_flight (view w') (ctx_be_ctx ctx) = []"
proof -
  note D = spdk_lawsD [OF assms(1)]
  have al: "allocates live id (sys_calloc sys 1 16)" and k: "keeps view (sys_calloc sys 1 16)" using D(1,2) by (simp_all add: alloc_ok_def sys_keeps_def)
  obtain p w1 q w2 opts c where i: "sys_calloc sys 1 16 w = (Inr p, w1)" "sp_alloc_io_qpair sp c opts w1 = (q, w2)" "q \<noteq> 0"
    "ctx_self ctx = p" "ctx_be_ctx ctx = q" "ctx_outstanding ctx = 0" "w' = sp_set_ctx sp p (Some ctx) w2"
    by (rule async_init_parts [OF assms(3)])
  have "qpair_law sp view live" using assms(1) by (simp add: spdk_laws_def)
  with i(2,3) have q: "live w2 = live w1" "view w2 = view w1" "vm_flight (view w1) q = []" by (auto simp: qpair_law_def)
  show ?thesis using i q allocatesD(1) [OF al i(1)] assms(2)
    by (auto simp: ctx_ok_def accounts_def owned_def D)
qed

lemma spdk_run_ok:
  assumes "spdk_run sys sp dev ctxp w0 w" "spdk_laws sys sp view live" "be_known dev" "depth \<noteq> - 1"
    "ctx_ok dev ctxp q depth L (view w0) (live w0)"
  shows "ctx_ok dev ctxp q depth L (view w) (live w)"
  using assms(1)
proof induction
  case (command w ret addrs dst naddrs data meta flags opcode r w')
  then show ?case
    using ewrc.async_command [OF assms(2,3) command.IH assms(4) command.hyps(2), where a = "(sp, opcode, data, meta, addrs, dst, naddrs, flags)" and cmd = wrap_cmd]
    by (simp add: cmd_async_ewrc_def spdk_lawsD(5) [OF assms(2)])
next
  case (raw w ret cmd data dlen meta mlen r w')
  then show ?case
    using upass.async_command [OF assms(2,3) raw.IH assms(4) raw.hyps(2), where a = "(data, dlen, meta, mlen)" and cmd = "\<lambda>_. cmd"]
    by (simp add: cmd_async_pass_def spdk_lawsD(5) [OF assms(2)])
next
  case (poke w mx r w')
  then show ?case using poke_step [OF assms(2,3) poke.IH, of mx] by auto
qed (rule assms(5))

section \<open>A concrete SPDK\<close>

text \<open>
  For the witnesses: a world with the allocator \<open>ex_sys\<close> and the state of the queues. A queue takes two
  commands, and a command completes at the third poll, with success.
\<close>

type_synonym ex_world = "ptr list \<times> spdk_mem"

definition on_slots :: "(ptr list, 'a) op \<Rightarrow> (ex_world, 'a) op" where
  "on_slots m w = (case m (fst w) of (r, l) \<Rightarrow> (r, (l, snd w)))"

definition ex_sys_q :: "ex_world sys" where
  "ex_sys_q = \<lparr>sys_aligned_alloc = (\<lambda>al n. on_slots (sys_aligned_alloc ex_sys al n)), sys_free = (\<lambda>p. apfst (sys_free ex_sys p)),
     sys_malloc = (\<lambda>n. on_slots (sys_malloc ex_sys n)), sys_calloc = (\<lambda>n sz. on_slots (sys_calloc ex_sys n sz)),
     sys_spdk_dma_malloc = (\<lambda>n al. on_slots (sys_spdk_dma_malloc ex_sys n al)),
     sys_spdk_dma_realloc = (\<lambda>p n al. on_slots (sys_spdk_dma_realloc ex_sys p n al)),
     sys_spdk_dma_free = (\<lambda>p. apfst (sys_spdk_dma_free ex_sys p)), sys_spdk_vtophys = (\<lambda>p w. p + 0x100000000),
     sys_rand = (\<lambda>w. (7, w)), sys_getenv = (\<lambda>s w. None), sys_store = (\<lambda>p bs w. w), sys_ret_async = (\<lambda>r c w. w), sys_ret_clear = (\<lambda>r w. w)\<rparr>"

definition ex_poll :: "ptr \<Rightarrow> u32 \<Rightarrow> ex_world \<Rightarrow> (int \<times> (ptr \<times> nvm_nvme_cpl) list) \<times> ex_world" where
  "ex_poll q mx w = (let v = snd w; n = (if vm_eta v q = 0 then 1 else 0 :: nat); fl = vm_flight v q;
       cpls = map (\<lambda>p. (p, \<lparr>cpl_cdw0 = 0, cpl_status = \<lparr>st_sc = 0, st_sct = 0, st_m = 0, st_dnr = 0\<rparr>\<rparr>)) (take n fl) in
     ((int (length cpls), cpls), (fst w, v\<lparr>vm_flight := (vm_flight v)(q := drop n fl),
        vm_eta := (vm_eta v)(q := if vm_eta v q = 0 then 2 else vm_eta v q - 1), vm_hist := (vm_hist v)(q := vm_hist v q @ cpls)\<rparr>)))"

definition ex_ctrlr :: spdk_ctrlr where
  "ex_ctrlr = \<lparr>sc_trid = ''0000:01:00.0'', sc_self = 0x10, sc_num_ns = 2, sc_ns = (\<lambda>n. 0x100 + of_nat n), sc_active = (\<lambda>n. n = 2)\<rparr>"

definition ex_state :: nvm_be_spdk_state where
  "ex_state = spdk_state_zero\<lparr>ss_trid := ''0000:01:00.0'', ss_ctrlr := 0x10, ss_ns := 0x102, ss_nsid := 2, ss_attached := True, ss_qpair := 0x21\<rparr>"

definition ex_spdk :: "ex_world spdk" where
  "ex_spdk = \<lparr>sp_sizeof_state = 512, sp_env_ready = (\<lambda>w. False), sp_set_env_ready = id, sp_env_init = (\<lambda>w. (True, w)),
     sp_trid_parse = ok, sp_probe = (\<lambda>t w. ([ex_ctrlr], w)), sp_ns_get_data = (\<lambda>p w. Some (dev_ns dev_zero)), sp_default_opts = (\<lambda>p w. (64, 128)),
     sp_alloc_io_qpair = (\<lambda>c opts w. (if vm_flight (snd w) 0x20 = [] then 0x20 else 0, w)), sp_free_io_qpair = (\<lambda>q w. (True, w)), sp_detach = (\<lambda>c w. w),
     sp_admin_raw = (\<lambda>c cmd l d n w. (True, w)),
     sp_admin_poll = (\<lambda>c w. (Some \<lparr>cpl_cdw0 = 0, cpl_status = \<lparr>st_sc = 0, st_sct = 0, st_m = 0, st_dnr = 0\<rparr>\<rparr>, w)),
     sp_io_raw = (\<lambda>c q cmd wrap w. if length (vm_flight (snd w) q) < 2
        then (True, (fst w, (snd w)\<lparr>vm_flight := (vm_flight (snd w))(q := vm_flight (snd w) q @ [wrap_self wrap])\<rparr>)) else (False, w)),
     sp_poll = ex_poll, sp_state = (\<lambda>p w. if p = 0 then None else Some ex_state), sp_set_state = (\<lambda>p x w. w),
     sp_ctx = (\<lambda>p w. vm_ctx (snd w) p), sp_set_ctx = (\<lambda>p x w. (fst w, (snd w)\<lparr>vm_ctx := (vm_ctx (snd w))(p := x)\<rparr>)),
     sp_wrap = (\<lambda>p w. vm_wrap (snd w) p), sp_set_wrap = (\<lambda>p x w. (fst w, (snd w)\<lparr>vm_wrap := (vm_wrap (snd w))(p := x)\<rparr>)),
     sp_ret_ctx = (\<lambda>p w. vm_ret_ctx (snd w) p), sp_set_ret = (\<lambda>p r w. w), sp_sgl_at = (\<lambda>p w. None),
     sp_idfy_at = (\<lambda>p w. dev_idfy dev_zero), sp_bbt_at = (\<lambda>p n w. \<lparr>sbbt_tblid = [], sbbt_tblks = 0, sbbt_tfact = 0, sbbt_tgrown = 0, sbbt_tdresv = 0, sbbt_thresv = 0, sbbt_blk = []\<rparr>),
     sp_descr_at = (\<lambda>p w. \<lparr>descr_cs = 1, descr_ct = 2, descr_wli = 0, descr_addr = 0, descr_naddrs = 0, descr_wp = 0\<rparr>)\<rparr>"

lemma on_slots_allocates: "allocates set pt m \<Longrightarrow> allocates (set \<circ> fst) pt (on_slots m)" "keeps snd (on_slots m)"
  by (auto simp: allocates_def on_slots_def keeps_def split: prod.splits sum.splits)

lemma ex_poll_fst: "map (fst \<circ> (\<lambda>p. (p, c))) ps = ps"
  by (simp add: comp_def)

lemma ex_spdk_laws: "spdk_laws ex_sys_q ex_spdk snd (set \<circ> fst)"
  unfolding spdk_laws_def
proof (intro conjI)
  show "alloc_ok ex_sys_q (set \<circ> fst)" using ex_sys_ok by (auto simp: alloc_ok_def ex_sys_q_def on_slots_allocates)
  show "sys_keeps ex_sys_q snd" by (simp add: sys_keeps_def ex_sys_q_def on_slots_allocates)
  show "memory_law ex_spdk snd (set \<circ> fst)" by (simp add: memory_law_def ex_spdk_def)
  show "submit_law ex_spdk snd (set \<circ> fst)" by (auto simp: submit_law_def ex_spdk_def split: if_splits)
  show "qpair_law ex_spdk snd (set \<circ> fst)" by (simp add: qpair_law_def ex_spdk_def)
  show "poll_law ex_spdk snd (set \<circ> fst)"
    unfolding poll_law_def
  proof (intro allI impI conjI)
    fix q mx w r cpls w' assume "sp_poll ex_spdk q mx w = ((r, cpls), w')"
    then have p: "ex_poll q mx w = ((r, cpls), w')" by (simp add: ex_spdk_def)
    then show "(set \<circ> fst) w' = (set \<circ> fst) w" "r = int (length cpls)" by (auto simp: ex_poll_def Let_def)
    let ?n = "if vm_eta (snd w) q = 0 then 1 else 0 :: nat"
    have c: "map fst cpls = take ?n (vm_flight (snd w) q)" using p by (auto simp: ex_poll_def Let_def ex_poll_fst)
    have m: "mset (vm_flight (snd w) q) = mset (map fst cpls) + mset (drop ?n (vm_flight (snd w) q))"
      unfolding c by (simp flip: mset_append)
    show "\<exists>fl eta. snd w' = (snd w)\<lparr>vm_flight := (vm_flight (snd w))(q := fl), vm_eta := (vm_eta (snd w))(q := eta),
           vm_hist := (vm_hist (snd w))(q := vm_hist (snd w) q @ cpls)\<rparr>
         \<and> mset (vm_flight (snd w) q) = mset (map fst cpls) + mset fl
         \<and> (vm_flight (snd w) q = [] \<or> cpls \<noteq> [] \<or> eta < vm_eta (snd w) q)"
      using p m by (intro exI [of _ "drop ?n (vm_flight (snd w) q)"] exI [of _ "if vm_eta (snd w) q = 0 then 2 else vm_eta (snd w) q - 1"])
        (auto simp: ex_poll_def Let_def)
  qed
qed

definition ex_mem :: spdk_mem where
  "ex_mem = \<lparr>vm_ctx = (\<lambda>_. None), vm_wrap = (\<lambda>_. None), vm_ret_ctx = (\<lambda>_. 0x1000), vm_flight = (\<lambda>_. []), vm_eta = (\<lambda>_. 2), vm_hist = (\<lambda>_. [])\<rparr>"

definition ex_dev_spdk :: nvm_dev where
  "ex_dev_spdk = ex_dev_s20\<lparr>dev_be := Some NVM_BE_SPDK, dev_be_state := 0x40\<rparr>"

text \<open>A context of depth 4 is opened, and three writes are submitted, the third of which the queue rejects.\<close>

definition ex_open :: "nvm_async_ctx res \<times> ex_world" where
  "ex_open = nvm_be_spdk_async_init ex_sys_q ex_spdk ex_dev_spdk 4 0 ([], ex_mem)"

definition ex_write :: "ex_world \<Rightarrow> unit res \<times> ex_world" where
  "ex_write = cmd_async_ewrc ex_sys_q ex_spdk ex_dev_spdk [NvmAddr 0, NvmAddr 1] None 2 0x90000 0 0x20 NVM_DOPC_VECTOR_WRITE 0x50"

definition ex_async :: ex_world where
  "ex_async = snd (ex_write (snd (ex_write (snd (ex_write (snd ex_open))))))"

section \<open>Properties\<close>

text \<open>
  C12. A synchronous command of the SPDK backend: when commands in flight complete after finitely many
  polls, \<open>cmd_sync_ewrc\<close> returns; unless it faults on its arguments, the memory allocated is what it was before,
  and its result is that of the one command the controller executed, success exactly when the
  completion has a status code and type of 0, or an error when no command was executed.
\<close>

theorem spdk_sync_command:
  assumes "spdk_laws sys sp view live" "be_known dev" "0 \<notin> live w"
    and "sp_state sp (dev_be_state dev) w = Some st" "vm_flight (view w) (ss_qpair st) = []"
  shows "\<exists>r w'. cmd_sync_ewrc sys sp dev addrs dst naddrs data meta flags opcode ret w = Some (r, w')
    \<and> ((\<forall>f. r \<noteq> Inl (Fault f)) \<longrightarrow> live w' = live w \<and> sync_result (ss_qpair st) (view w) (view w') r)"
  using ewrc.sync_command [OF assms(1-3,5), where a = "(sp, opcode, data, meta, addrs, dst, naddrs, flags)" and ret = ret and cmd = wrap_cmd] assms(4)
  by (simp add: cmd_sync_ewrc_def lbind_def [of "lret (dev_state sp dev)"] lret_def [of "dev_state sp dev"] dev_state_def)

theorem spdk_sync_command_witness:
  "\<exists>r w'. cmd_sync_ewrc ex_sys_q ex_spdk ex_dev_spdk [NvmAddr 0, NvmAddr 1] None 2 0x90000 0 0 NVM_DOPC_VECTOR_WRITE 0 ([0x1000], ex_mem) = Some (r, w')
    \<and> r = Inr () \<and> set (fst w') = {0x1000} \<and> (\<exists>p cpl. vm_hist (snd w') 0x21 = [(p, cpl)] \<and> cpl_ok cpl)"
proof -
  let ?c = "cmd_sync_ewrc ex_sys_q ex_spdk ex_dev_spdk [NvmAddr 0, NvmAddr 1] None 2 0x90000 0 0 NVM_DOPC_VECTOR_WRITE 0 ([0x1000], ex_mem)"
  have k: "be_known ex_dev_spdk" "0 \<notin> (set \<circ> fst) ([0x1000] :: ptr list, ex_mem)"
    "sp_state ex_spdk (dev_be_state ex_dev_spdk) ([0x1000], ex_mem) = Some ex_state" "vm_flight (snd ([0x1000] :: ptr list, ex_mem)) (ss_qpair ex_state) = []"
    by (simp_all add: be_known_def ex_dev_spdk_def ex_spdk_def ex_mem_def)
  obtain r w' where c: "?c = Some (r, w')" and res: "(\<forall>f. r \<noteq> Inl (Fault f)) \<longrightarrow>
      (set \<circ> fst) w' = (set \<circ> fst) ([0x1000], ex_mem) \<and> sync_result (ss_qpair ex_state) (snd ([0x1000] :: ptr list, ex_mem)) (snd w') r"
    using spdk_sync_command [OF ex_spdk_laws k] by blast
  have "case ?c of None \<Rightarrow> False | Some (r, w') \<Rightarrow> \<not> isl r" by code_simp
  then have "r = Inr ()" using c by (cases r) auto
  then show ?thesis using c res by (auto simp: sync_result_def ex_state_def spdk_state_zero_def ex_mem_def split: if_splits)
qed

text \<open>
  C9. An asynchronous context of the SPDK backend counts its commands: after any sequence of submissions and
  polls, rejected submissions included, \<open>outstanding\<close> is the number of commands in flight and at most the
  depth, no entry is in flight twice, and what is allocated beyond the state at the start is exactly the
  memory of the commands in flight.
\<close>

theorem spdk_outstanding_exact:
  assumes "spdk_laws sys sp view live" "be_known dev" "0 \<notin> live w"
    and "nvm_be_spdk_async_init sys sp dev depth flags w = (Inr ctx, w0)" "ctx_depth ctx \<noteq> - 1" "spdk_run sys sp dev (ctx_self ctx) w0 w1"
  shows "\<exists>c. sp_ctx sp (ctx_self ctx) w1 = Some c \<and> unat (ctx_outstanding c) = length (vm_flight (view w1) (ctx_be_ctx ctx))
    \<and> ctx_outstanding c \<le> ctx_depth ctx \<and> distinct (vm_flight (view w1) (ctx_be_ctx ctx))
    \<and> live w1 = live w0 \<union> \<Union> (cmd_mem (view w1) ` set (vm_flight (view w1) (ctx_be_ctx ctx)))"
proof -
  have "ctx_ok dev (ctx_self ctx) (ctx_be_ctx ctx) (ctx_depth ctx) (live w0) (view w1) (live w1)"
    using spdk_run_ok [OF assms(6,1,2,5)] async_init_ok [OF assms(1,3,4)] by blast
  then show ?thesis by (auto simp: ctx_ok_def accounts_def owned_def spdk_lawsD(3) [OF assms(1)] word_le_nat_alt)
qed

lemma ex_open_facts:
  obtains ctx where "nvm_be_spdk_async_init ex_sys_q ex_spdk ex_dev_spdk 4 0 ([], ex_mem) = (Inr ctx, snd ex_open)"
    "ctx_self ctx = 0x1000" "ctx_be_ctx ctx = 0x20" "ctx_depth ctx = 4"
proof -
  have "case fst ex_open of Inl _ \<Rightarrow> False | Inr ctx \<Rightarrow> ctx_self ctx = 0x1000 \<and> ctx_be_ctx ctx = 0x20 \<and> ctx_depth ctx = 4" by code_simp
  then obtain ctx where "fst ex_open = Inr ctx" "ctx_self ctx = 0x1000" "ctx_be_ctx ctx = 0x20" "ctx_depth ctx = 4"
    by (auto split: sum.splits)
  with that show thesis unfolding ex_open_def by (metis prod.collapse)
qed

lemma ex_async_run: "spdk_run ex_sys_q ex_spdk ex_dev_spdk 0x1000 (snd ex_open) ex_async"
proof -
  have step: "spdk_run ex_sys_q ex_spdk ex_dev_spdk 0x1000 (snd ex_open) (snd (ex_write w))"
    if "spdk_run ex_sys_q ex_spdk ex_dev_spdk 0x1000 (snd ex_open) w" "vm_ret_ctx (snd w) 0x50 = 0x1000"
      "case fst (ex_write w) of Inl (Fault _) \<Rightarrow> False | _ \<Rightarrow> True" for w
  proof -
    have c: "cmd_async_ewrc ex_sys_q ex_spdk ex_dev_spdk [NvmAddr 0, NvmAddr 1] None 2 0x90000 0 0x20 NVM_DOPC_VECTOR_WRITE 0x50 w = (fst (ex_write w), snd (ex_write w))"
      by (simp add: ex_write_def)
    have r: "(0x50 :: ptr) \<noteq> 0" "sp_ret_ctx ex_spdk 0x50 w = 0x1000" "\<forall>f. fst (ex_write w) \<noteq> Inl (Fault f)"
      using that(2,3) by (auto simp: ex_spdk_def)
    show ?thesis by (rule spdk_run.command [OF that(1) r(1,2) c r(3)])
  qed
  let ?a = "snd ex_open" let ?b = "snd (ex_write ?a)" let ?c = "snd (ex_write ?b)"
  have "vm_ret_ctx (snd ?a) 0x50 = 0x1000" "vm_ret_ctx (snd ?b) 0x50 = 0x1000" "vm_ret_ctx (snd ?c) 0x50 = 0x1000" by code_simp+
  moreover have "case fst (ex_write ?a) of Inl (Fault _) \<Rightarrow> False | _ \<Rightarrow> True" "case fst (ex_write ?b) of Inl (Fault _) \<Rightarrow> False | _ \<Rightarrow> True"
    "case fst (ex_write ?c) of Inl (Fault _) \<Rightarrow> False | _ \<Rightarrow> True" by code_simp+
  ultimately show ?thesis unfolding ex_async_def by (intro step spdk_run.start)
qed

theorem spdk_outstanding_exact_witness:
  "\<exists>c. sp_ctx ex_spdk 0x1000 ex_async = Some c \<and> unat (ctx_outstanding c) = 2 \<and> set (fst ex_async) = {0x1000, 0x2000, 0x3000, 0x4000, 0x5000}"
proof -
  obtain ctx where i: "nvm_be_spdk_async_init ex_sys_q ex_spdk ex_dev_spdk 4 0 ([], ex_mem) = (Inr ctx, snd ex_open)"
    "ctx_self ctx = 0x1000" "ctx_be_ctx ctx = 0x20" "ctx_depth ctx = 4" by (rule ex_open_facts)
  have k: "be_known ex_dev_spdk" "0 \<notin> (set \<circ> fst) ([] :: ptr list, ex_mem)" "ctx_depth ctx \<noteq> - 1"
    using i(4) by (simp_all add: be_known_def ex_dev_spdk_def)
  have "length (vm_flight (snd ex_async) 0x20) = 2" "set (fst ex_async) = {0x1000, 0x2000, 0x3000, 0x4000, 0x5000}" by code_simp+
  then show ?thesis using spdk_outstanding_exact [OF ex_spdk_laws k(1,2) i(1) k(3) ex_async_run [folded i(2)]] i by auto
qed

text \<open>
  C7. Waiting on a context of the SPDK backend: after any sequence of submissions and polls, also with rejected
  submissions, \<open>nvm_be_spdk_async_wait\<close> returns; it makes the callback of every command in flight, once, with the
  result structure of the command and the status of its completion; then nothing is outstanding and
  the memory of all commands has been released.
\<close>

theorem spdk_wait_completes:
  assumes "spdk_laws sys sp view live" "be_known dev" "0 \<notin> live w"
    and "nvm_be_spdk_async_init sys sp dev depth flags w = (Inr ctx, w0)" "ctx_depth ctx \<noteq> - 1" "spdk_run sys sp dev (ctx_self ctx) w0 w1"
  shows "\<exists>cpls w2. nvm_be_spdk_async_wait sys sp dev (ctx_self ctx) w1 = ((Inr (int (length cpls)), map (cb_of (view w1)) cpls), w2)
    \<and> mset (map fst cpls) = mset (vm_flight (view w1) (ctx_be_ctx ctx))
    \<and> vm_hist (view w2) (ctx_be_ctx ctx) = vm_hist (view w1) (ctx_be_ctx ctx) @ cpls
    \<and> vm_flight (view w2) (ctx_be_ctx ctx) = [] \<and> live w2 = live w0
    \<and> (\<exists>c. sp_ctx sp (ctx_self ctx) w2 = Some c \<and> ctx_outstanding c = 0)"
proof -
  have k: "ctx_ok dev (ctx_self ctx) (ctx_be_ctx ctx) (ctx_depth ctx) (live w0) (view w1) (live w1)"
    using spdk_run_ok [OF assms(6,1,2,5)] async_init_ok [OF assms(1,3,4)] by blast
  obtain cpls w2 where w2: "spdk_wait sys sp dev (ctx_self ctx) 0 [] w1 = Some ((Inr (int (length cpls)), map (cb_of (view w1)) cpls), w2)"
    "ctx_ok dev (ctx_self ctx) (ctx_be_ctx ctx) (ctx_depth ctx) (live w0) (view w2) (live w2)" "vm_flight (view w2) (ctx_be_ctx ctx) = []"
    "mset (map fst cpls) = mset (vm_flight (view w1) (ctx_be_ctx ctx))"
    "vm_hist (view w2) (ctx_be_ctx ctx) = vm_hist (view w1) (ctx_be_ctx ctx) @ cpls"
    using wait_completes [OF assms(1,2) k, of 0 "[]"] by auto
  then have "live w2 = live w0 \<and> (\<exists>c. sp_ctx sp (ctx_self ctx) w2 = Some c \<and> ctx_outstanding c = 0)"
    by (auto simp: ctx_ok_def accounts_def owned_def spdk_lawsD(3) [OF assms(1)] unat_eq_zero)
  with w2 show ?thesis by (auto simp: nvm_be_spdk_async_wait_def)
qed

theorem spdk_wait_completes_witness:
  "\<exists>cbs w2. nvm_be_spdk_async_wait ex_sys_q ex_spdk ex_dev_spdk 0x1000 ex_async = ((Inr 2, cbs), w2) \<and> length cbs = 2 \<and> set (fst w2) = {0x1000}"
proof -
  obtain ctx where i: "nvm_be_spdk_async_init ex_sys_q ex_spdk ex_dev_spdk 4 0 ([], ex_mem) = (Inr ctx, snd ex_open)"
    "ctx_self ctx = 0x1000" "ctx_be_ctx ctx = 0x20" "ctx_depth ctx = 4" by (rule ex_open_facts)
  have k: "be_known ex_dev_spdk" "0 \<notin> (set \<circ> fst) ([] :: ptr list, ex_mem)" "ctx_depth ctx \<noteq> - 1"
    using i(4) by (simp_all add: be_known_def ex_dev_spdk_def)
  have f: "length (vm_flight (snd ex_async) 0x20) = 2" "set (fst (snd ex_open)) = {0x1000}" by code_simp+
  obtain cpls w2 where w: "nvm_be_spdk_async_wait ex_sys_q ex_spdk ex_dev_spdk 0x1000 ex_async = ((Inr (int (length cpls)), map (cb_of (snd ex_async)) cpls), w2)"
    "mset (map fst cpls) = mset (vm_flight (snd ex_async) 0x20)" "(set \<circ> fst) w2 = (set \<circ> fst) (snd ex_open)"
    using spdk_wait_completes [OF ex_spdk_laws k(1,2) i(1) k(3) ex_async_run [folded i(2)]] unfolding i(2,3) by blast
  have "length cpls = 2" using mset_eq_length [OF w(2)] f(1) by simp
  then show ?thesis using w f(2) by auto
qed

end
