(* ===== verification/Nvm_Nocd.thy ===== *)
theory Nvm_Nocd
  imports Nvm_Spdk_Queue Nvm_Populate
begin

text \<open>
  The backend \<open>NVM_BE_NOCD\<close>, \<open>src/nvm_be_nocd.c\<close>: an ordinary NVMe namespace behind SPDK made to look like
  an Open-Channel device. The identify structure and the chunk reports are made up, and vector commands
  become scalar ones.
\<close>

text \<open>
  The memory of \<open>struct nvm_be_nocd_state\<close>, which starts with the state of the SPDK backend: the
  descriptors behind it, and \<open>realloc\<close>, which moves the state.
\<close>

record 'w nocd_mem =
  nm_sizeof :: u64
  nm_realloc :: "ptr \<Rightarrow> u64 \<Rightarrow> ('w, ptr) op"
  nm_descrs :: "ptr \<Rightarrow> 'w \<Rightarrow> nvm_spec_rprt_descr list"
  nm_set_descrs :: "ptr \<Rightarrow> nvm_spec_rprt_descr list \<Rightarrow> 'w \<Rightarrow> 'w"

definition nvm_be_nocd_close :: "'w sys \<Rightarrow> 'w spdk \<Rightarrow> nvm_dev \<Rightarrow> ('w, unit) op" where
  "nvm_be_nocd_close sys sp dev = nvm_be_spdk_close sys sp dev"

text \<open>The number of descriptors is kept in 32 bits, and the index of a chunk in the 16 of an address.\<close>

definition nocd_descr :: "nvm_dev \<Rightarrow> nat \<Rightarrow> nvm_spec_rprt_descr" where
  "nocd_descr dev idx = \<lparr>descr_cs = 1, descr_ct = 2, descr_wli = 0,
     descr_addr = nvm_addr_gen2dev dev (set_l_chunk (of_nat idx) (NvmAddr 0)), descr_naddrs = l_nsectr (dev_geo dev), descr_wp = 0\<rparr>"

definition nvm_be_nocd_reinit :: "'w spdk \<Rightarrow> 'w nocd_mem \<Rightarrow> nvm_dev \<Rightarrow> ('w, ptr) op" where
  "nvm_be_nocd_reinit sp nm dev w =
     (let geo = dev_geo dev; ndescr = l_npugrp geo * l_npunit geo * l_nchunk geo; nbytes = ndescr * sizeof_rprt_descr in
      if sp_state sp (dev_be_state dev) w = None \<or> ndescr = 0 \<or> nbytes = 0 then (Inl (Errno EINVAL), w)
      else andThen (nm_realloc nm (dev_be_state dev) (nm_sizeof nm + nbytes)) (\<lambda>p.
        andThen (upd (nm_set_descrs nm p (map (nocd_descr dev) [0..<unat (ucast ndescr :: u32)]))) (\<lambda>_. ok p)) w)"

text \<open>The shift of the \<open>int\<close> 1 is a fault from 31 on.\<close>

definition nocd_s20 :: "nvm_nvme_ns \<Rightarrow> nvm_spec_idfy_s20 res" where
  "nocd_s20 ns =
     (let i = unat (ns_flbas ns AND 0xF) in
      if length (ns_lbaf ns) \<le> i then Inl (Fault OutOfBounds)
      else let ds = unat (lbaf_ds (ns_lbaf ns ! i)) in
        if 31 \<le> ds then Inl (Fault BadShift)
        else let lba_byts = push_bit ds 1 :: u64; ncap_byts = ns_ncap ns * lba_byts in
          Inr \<lparr>s20_lbaf = \<lparr>lbaf_pugrp = 1, lbaf_punit = 1, lbaf_chunk = 16, lbaf_sectr = 12\<rparr>, s20_mccap = 0, s20_wit = 0,
            s20_lgeo = \<lparr>lgeo_npugrp = 1, lgeo_npunit = 1, lgeo_nchunk = ucast (ncap_byts div (4096 * lba_byts)), lgeo_nsectr = 4096\<rparr>,
            s20_wrt = \<lparr>ws_min = 1, ws_opt = 4, mw_cunits = 0, maxoc = 0, maxocpu = 0\<rparr>\<rparr>)"

definition nvm_be_nocd_idfy :: "'w sys \<Rightarrow> nvm_dev \<Rightarrow> ptr \<Rightarrow> ('w, ptr \<times> nvm_spec_idfy) op" where
  "nvm_be_nocd_idfy sys dev ret =
     andThen (lift_res (nocd_s20 (dev_ns dev))) (\<lambda>s20.
     andThen (buf_or_nomem (nvm_buf_alloc sys dev 4096 0)) (\<lambda>p.
     andThen (clear_buf sys p 4096) (\<lambda>_.
     ok (p, \<lparr>idfy_verid = NVM_SPEC_VERID_20, idfy_s12 = idfy_s12 (dev_idfy dev_zero), idfy_s20 = s20\<rparr>))))"

text \<open>The descriptors are copied from the made-up ones; reading past them is a fault.\<close>

definition nvm_be_nocd_rprt ::
  "'w sys \<Rightarrow> 'w nocd_mem \<Rightarrow> nvm_dev \<Rightarrow> nvm_addr option \<Rightarrow> int \<Rightarrow> ptr \<Rightarrow> ('w, ptr \<times> nvm_spec_rprt) op" where
  "nvm_be_nocd_rprt sys nm dev addr opt ret =
     (if dev_verid dev \<noteq> NVM_SPEC_VERID_20 then fail (Errno EINVAL)
      else let idx = unat (case addr of Some a \<Rightarrow> nvm_addr_gen2lpo dev a div sizeof_rprt_descr | None \<Rightarrow> 0);
          ndescr = rprt_ndescrs dev addr in
        andThen (buf_or_nomem (nvm_buf_alloc sys dev (rprt_buf_len ndescr) 0)) (\<lambda>p.
        andThen (clear_buf sys p (rprt_buf_len ndescr)) (\<lambda>_ w.
        let ds = nm_descrs nm (dev_be_state dev) w in
        if length ds < idx + unat ndescr then (Inl (Fault OutOfBounds), w)
        else (Inr (p, \<lparr>rprt_ndescr = ucast ndescr, rprt_descr = take (unat ndescr) (drop idx ds)\<rparr>), w))))"

section \<open>Vector commands\<close>

text \<open>The whole list is erased as often as it has addresses.\<close>

definition nvm_be_nocd_vector_erase ::
  "'w sys \<Rightarrow> 'w spdk \<Rightarrow> nvm_dev \<Rightarrow> nvm_addr list \<Rightarrow> int \<Rightarrow> ptr \<Rightarrow> u16 \<Rightarrow> ptr \<Rightarrow> ('w, unit) op" where
  "nvm_be_nocd_vector_erase sys sp dev addrs naddrs meta flags ret =
     (if meta \<noteq> NULL then fail (Errno ENOSYS)
      else each_op (\<lambda>_. nvm_be_spdk_scalar_erase sys sp dev addrs naddrs flags ret) [0..<nat naddrs])"

text \<open>The test for contiguous addresses compares the sectors only; it stops at the first that does not follow.\<close>

fun nocd_contig :: "nvm_addr list \<Rightarrow> bool" where
  "nocd_contig (a # b # as) \<longleftrightarrow> l_sectr b = l_sectr a + 1 \<and> nocd_contig (b # as)"
| "nocd_contig _ \<longleftrightarrow> True"

text \<open>
  The two commands, with the scalar command \<open>io\<close>. In the loop the source advances its own copies of the
  pointers, \<open>cdata\<close> and \<open>cmeta\<close>, and passes \<open>data\<close> and \<open>meta\<close>.
\<close>

definition nocd_vector_rw ::
  "(nvm_addr \<Rightarrow> int \<Rightarrow> ptr \<Rightarrow> ptr \<Rightarrow> u16 \<Rightarrow> ptr \<Rightarrow> ('w, unit) op) \<Rightarrow> nvm_addr list \<Rightarrow> int \<Rightarrow> ptr \<Rightarrow> ptr \<Rightarrow> u16 \<Rightarrow> ptr \<Rightarrow> ('w, unit) op" where
  "nocd_vector_rw io addrs naddrs data meta flags ret =
     andThen (lift_res (arg_addrs addrs naddrs)) (\<lambda>as.
     if nocd_contig as then andThen (lift_res (arg_addr0 addrs)) (\<lambda>a. io a naddrs data meta flags ret)
     else if flags AND 0x20 \<noteq> 0 then fail (Errno ENOSYS)
     else each_op (\<lambda>a. io a 1 data meta flags ret) as)"

definition nvm_be_nocd_vector_write ::
  "'w sys \<Rightarrow> 'w spdk \<Rightarrow> nvm_dev \<Rightarrow> nvm_addr list \<Rightarrow> int \<Rightarrow> ptr \<Rightarrow> ptr \<Rightarrow> u16 \<Rightarrow> ptr \<Rightarrow> ('w, unit) op" where
  "nvm_be_nocd_vector_write sys sp dev = nocd_vector_rw (nvm_be_spdk_scalar_write sys sp dev)"

definition nvm_be_nocd_vector_read ::
  "'w sys \<Rightarrow> 'w spdk \<Rightarrow> nvm_dev \<Rightarrow> nvm_addr list \<Rightarrow> int \<Rightarrow> ptr \<Rightarrow> ptr \<Rightarrow> u16 \<Rightarrow> ptr \<Rightarrow> ('w, unit) op" where
  "nvm_be_nocd_vector_read sys sp dev = nocd_vector_rw (nvm_be_spdk_scalar_read sys sp dev)"

section \<open>Opening\<close>

definition nvm_be_nocd_gfeat :: "'w spdk \<Rightarrow> nvm_dev \<Rightarrow> u8 \<Rightarrow> ptr \<Rightarrow> ('w, u32) lop" where
  "nvm_be_nocd_gfeat sp dev fid ret = nvm_be_spdk_gfeat sp dev fid ret"

definition nvm_be_nocd_sfeat :: "'w spdk \<Rightarrow> nvm_dev \<Rightarrow> u8 \<Rightarrow> u32 \<Rightarrow> ptr \<Rightarrow> ('w, unit) lop" where
  "nvm_be_nocd_sfeat sp dev fid feat ret = nvm_be_spdk_sfeat sp dev fid feat ret"

definition nocd_ops :: "'w sys \<Rightarrow> 'w spdk \<Rightarrow> 'w nocd_mem \<Rightarrow> 'w nvm_be" where
  "nocd_ops sys sp nm = (spdk_ops sys sp)\<lparr>be_id := NVM_BE_NOCD, be_name := ''NVM_BE_NOCD'',
     be_close := nvm_be_nocd_close sys sp, be_idfy := nvm_be_nocd_idfy sys, be_rprt := nvm_be_nocd_rprt sys nm,
     be_gfeat := (\<lambda>dev fid ret. returning (nvm_be_nocd_gfeat sp dev fid ret)),
     be_sfeat := (\<lambda>dev fid feat ret. returning (nvm_be_nocd_sfeat sp dev fid feat ret)),
     be_sbbt := nvm_be_nosys_sbbt, be_gbbt := nvm_be_nosys_gbbt,
     be_vector_erase := nvm_be_nocd_vector_erase sys sp, be_vector_write := nvm_be_nocd_vector_write sys sp,
     be_vector_read := nvm_be_nocd_vector_read sys sp\<rparr>"

text \<open>When the device structure cannot be allocated the state of SPDK is not released.\<close>

definition nvm_be_nocd_open :: "'w sys \<Rightarrow> 'w spdk \<Rightarrow> 'w nocd_mem \<Rightarrow> string \<Rightarrow> u32 \<Rightarrow> ('w, nvm_dev) op" where
  "nvm_be_nocd_open sys sp nm path flags =
     andThen (nvm_be_spdk_state_init sys sp path) (\<lambda>(p, state).
     andThen (sys_malloc sys sizeof_dev) (\<lambda>devp.
     let dev = dev_zero\<lparr>dev_be_state := p, dev_nsid := uint (ss_nsid state), dev_ns := ss_nsdata state\<rparr>;
       failed = andThen (nvm_be_nocd_close sys sp dev) (\<lambda>_. upd (sys_free sys devp)) in
     andThen (on_error (nvm_be_populate sys (nocd_ops sys sp nm) dev) failed) (\<lambda>dev.
     andThen (on_error (nvm_be_nocd_reinit sp nm dev) failed) (\<lambda>q.
     ok (dev\<lparr>dev_be_state := q\<rparr>)))))"

definition nvm_be_nocd :: "'w sys \<Rightarrow> 'w spdk \<Rightarrow> 'w nocd_mem \<Rightarrow> 'w nvm_be" where
  "nvm_be_nocd sys sp nm = (nocd_ops sys sp nm)\<lparr>be_open := nvm_be_nocd_open sys sp nm\<rparr>"

section \<open>Addresses\<close>

lemma populate_dev_of:
  assumes "nvm_be_populate sys be dev w = (Inr dev', w')"
  obtains buf idfy w1 where "be_idfy be (dev\<lparr>dev_be := Some (be_id be)\<rparr>) NULL w = (Inr (buf, idfy), w1)"
    "populate_dev (dev\<lparr>dev_be := Some (be_id be)\<rparr>) idfy = Inr dev'"
  using assms by (auto simp: nvm_be_populate_def Let_def andThen_Inr on_error_Inr lift_res_def ok_def)

lemma nocd_chunks_bound:
  fixes ncap :: u64
  assumes "ds < 31"
  shows "unat (ucast ((ncap * push_bit ds 1) div (4096 * push_bit ds 1)) :: u32) * 4096 \<le> unat ncap"
proof -
  have le: "(2 :: nat) ^ ds \<le> 2 ^ 30" using assms by (intro power_increasing) auto
  then have b: "unat (push_bit ds 1 :: u64) = 2 ^ ds" using unat_of_nat_lt [of "2 ^ ds", where 'a = 64] by simp
  have "4096 * (2 :: nat) ^ ds < 2 ^ 64" using le by simp
  then have d: "unat (4096 * push_bit ds 1 :: u64) = 4096 * 2 ^ ds" using b by (simp add: unat_word_ariths)
  have "unat (ncap * push_bit ds 1) \<le> unat ncap * 2 ^ ds" using b by (simp add: unat_word_ariths)
  then have "unat (ncap * push_bit ds 1) div (4096 * 2 ^ ds) \<le> (unat ncap * 2 ^ ds) div (4096 * 2 ^ ds)" by (rule div_le_mono)
  also have "(unat ncap * 2 ^ ds) div (4096 * 2 ^ ds) = unat ncap div 4096" by simp
  finally have "unat ((ncap * push_bit ds 1) div (4096 * push_bit ds 1)) \<le> unat ncap div 4096" using d by (simp add: unat_div)
  moreover have "unat (ucast x :: u32) \<le> unat x" for x :: u64 by (simp add: unsigned_ucast_eq take_bit_nat_eq_self_iff)
  ultimately have "unat (ucast ((ncap * push_bit ds 1) div (4096 * push_bit ds 1)) :: u32) \<le> unat ncap div 4096" by (rule order.trans [rotated])
  then show ?thesis by (simp add: less_eq_div_iff_mult_less_eq)
qed

lemma chunk_or_sector:
  fixes c s :: u64
  assumes "unat c < 2 ^ 16" "unat s < 2 ^ 12"
  shows "unat (push_bit 12 c OR s) = unat c * 4096 + unat s"
proof -
  have "\<not> bit s n" if "12 \<le> n" for n using bit_lt_of_fits [OF assms(2), of n] that by auto
  then have "push_bit 12 c AND s = 0" by (intro bit_word_eqI) (auto simp: bit_simps)
  then have "push_bit 12 c OR s = push_bit 12 c + s" by (metis add_0 word_plus_and_or)
  moreover have "unat (push_bit 12 c) = unat c * 4096" using assms(1) by (simp add: push_bit_eq_mult unat_word_ariths)
  ultimately show ?thesis using assms by (simp add: unat_word_ariths)
qed


lemma nocd_populated:
  assumes "nvm_be_populate sys (nocd_ops sys sp nm) dev w = (Inr dev', w')"
  shows "dev_verid dev' = 2 \<and> wf_lbaf dev' \<and> wf_off dev'
    \<and> dev_lbaf dev' = \<lparr>lbaf_pugrp = 1, lbaf_punit = 1, lbaf_chunk = 16, lbaf_sectr = 12\<rparr>
    \<and> l_npugrp (dev_geo dev') = 1 \<and> l_npunit (dev_geo dev') = 1 \<and> l_nsectr (dev_geo dev') = 4096
    \<and> unat (l_nchunk (dev_geo dev')) * 4096 \<le> unat (ns_ncap (dev_ns dev))"
proof -
  let ?d = "dev\<lparr>dev_be := Some (be_id (nocd_ops sys sp nm))\<rparr>"
  obtain buf idfy w1 where i: "be_idfy (nocd_ops sys sp nm) ?d NULL w = (Inr (buf, idfy), w1)" and pop: "populate_dev ?d idfy = Inr dev'"
    by (rule populate_dev_of [OF assms])
  have idfy: "idfy_verid idfy = 2" "nocd_s20 (dev_ns dev) = Inr (idfy_s20 idfy)"
    using i by (auto simp: nocd_ops_def nvm_be_nocd_idfy_def andThen_Inr lift_res_def ok_def)
  let ?ds = "unat (lbaf_ds (ns_fmt (dev_ns dev)))" and ?lba = "push_bit (unat (lbaf_ds (ns_fmt (dev_ns dev)))) 1 :: u64"
  have s20: "?ds < 31" "s20_lbaf (idfy_s20 idfy) = \<lparr>lbaf_pugrp = 1, lbaf_punit = 1, lbaf_chunk = 16, lbaf_sectr = 12\<rparr>"
    "s20_lgeo (idfy_s20 idfy) = \<lparr>lgeo_npugrp = 1, lgeo_npunit = 1,
        lgeo_nchunk = ucast ((ns_ncap (dev_ns dev) * ?lba) div (4096 * ?lba)), lgeo_nsectr = 4096\<rparr>"
    using idfy(2) by (auto simp: nocd_s20_def Let_def ns_fmt_def split: if_splits dest!: sym [of _ "idfy_s20 idfy"])
  have v: "idfy_verid idfy = 2 \<or> idfy_verid idfy = 3" using idfy(1) by simp
  have "wf_lbaf dev' \<and> wf_off dev'" by (rule populated_s20_format [OF pop v]) (use s20(1) in \<open>simp add: s20(2)\<close>)
  then show ?thesis
    using populate_dev_s20 [OF pop v] nocd_chunks_bound [OF s20(1), of "ns_ncap (dev_ns dev)"] by (simp add: s20(2,3) unat_ucast_up)
qed

lemma nocd_lba:
  assumes "nvm_be_populate sys (nocd_ops sys sp nm) dev w = (Inr dev', w')" "nvm_addr_check a dev' = Inr 0"
  shows "unat (nvm_addr_gen2dev dev' a) = unat (l_chunk a) * 4096 + unat (l_sectr a)
    \<and> unat (nvm_addr_gen2dev dev' a) < unat (ns_ncap (dev_ns dev)) \<and> nvm_addr_dev2gen dev' (nvm_addr_gen2dev dev' a) = a"
proof -
  note p = nocd_populated [OF assms(1)]
  have "in_bounds_s20 (dev_geo dev') a" using assms(2) addr_check_fails_s20 [of dev' a] p by (auto simp: addr_check_fails_def)
  then have b: "l_pugrp a = 0" "l_punit a = 0" "unat (l_chunk a) < unat (l_nchunk (dev_geo dev'))" "unat (l_sectr a) < 4096"
    using p by (auto simp: in_bounds_s20_def word_less_nat_alt unat_eq_zero)
  have c: "unat (l_chunk a) < 2 ^ 16" by (rule addr_get_lt)
  have z: "unat (lbaz_chunk (dev_lbaz dev')) = 12" "unat (lbaz_sectr (dev_lbaz dev')) = 0"
    using p by (auto simp: wf_lbaf_def Let_def)
  have "fits dev' a" using p b(1,2,4) c by (simp add: fits_def fits_s20_def)
  moreover have e: "unat (nvm_addr_gen2dev dev' a) = unat (l_chunk a) * 4096 + unat (l_sectr a)"
    using p z b chunk_or_sector [OF c] by (simp add: nvm_addr_gen2dev_def gen2dev_s20_def)
  moreover have "unat (l_chunk a) * 4096 + unat (l_sectr a) < (unat (l_chunk a) + 1) * 4096" using b(4) by simp
  moreover have "(unat (l_chunk a) + 1) * 4096 \<le> unat (l_nchunk (dev_geo dev')) * 4096" using b(3) by simp
  ultimately show ?thesis using p fmt.dec_enc [of dev' a] by (simp add: wf_off_def)
qed


section \<open>Properties\<close>

text \<open>
  C11. Emulation of an Open-Channel device on an ordinary namespace: on a device initialised through the
  \<open>NVM_BE_NOCD\<close> backend, every address that passes \<open>nvm_addr_check\<close> has as device address the logical block
  4096 times its chunk plus its sector, which is within the capacity of the namespace, and the
  conversion back returns the address; whatever the capacity and the block size of the namespace are.
\<close>

theorem nocd_addresses_namespace:
  assumes "nvm_be_populate sys (nocd_ops sys sp nm) dev w = (Inr dev', w')" "nvm_addr_check a dev' = Inr 0"
  shows "unat (nvm_addr_gen2dev dev' a) = unat (l_chunk a) * 4096 + unat (l_sectr a)
    \<and> unat (nvm_addr_gen2dev dev' a) < unat (ns_ncap (dev_ns dev)) \<and> nvm_addr_dev2gen dev' (nvm_addr_gen2dev dev' a) = a"
  by (rule nocd_lba [OF assms])

text \<open>A namespace of 100000 blocks of 4096 bytes, which gives 24 chunks.\<close>

definition ex_nocd_mem :: "ex_world nocd_mem" where
  "ex_nocd_mem = \<lparr>nm_sizeof = 1024, nm_realloc = (\<lambda>p n. ok p), nm_descrs = (\<lambda>p w. []), nm_set_descrs = (\<lambda>p ds w. w)\<rparr>"

definition ex_nocd :: "nvm_dev res \<times> ex_world" where
  "ex_nocd = nvm_be_populate ex_sys_q (nocd_ops ex_sys_q ex_spdk ex_nocd_mem) (dev_zero\<lparr>dev_ns := ex_ns\<lparr>ns_ncap := 100000\<rparr>\<rparr>) ([], ex_mem)"

theorem nocd_addresses_namespace_witness:
  "\<exists>dev' w'. ex_nocd = (Inr dev', w') \<and> nvm_addr_check (NvmAddr 0x0000001700000005) dev' = Inr 0
    \<and> unat (nvm_addr_gen2dev dev' (NvmAddr 0x0000001700000005)) = 23 * 4096 + 5"
proof -
  have "case fst ex_nocd of Inl _ \<Rightarrow> False | Inr dev' \<Rightarrow> nvm_addr_check (NvmAddr 0x0000001700000005) dev' = Inr 0" by code_simp
  then obtain dev' where d: "fst ex_nocd = Inr dev'" "nvm_addr_check (NvmAddr 0x0000001700000005) dev' = Inr 0" by (auto split: sum.splits)
  have e: "nvm_be_populate ex_sys_q (nocd_ops ex_sys_q ex_spdk ex_nocd_mem) (dev_zero\<lparr>dev_ns := ex_ns\<lparr>ns_ncap := 100000\<rparr>\<rparr>) ([], ex_mem)
    = (Inr dev', snd ex_nocd)" using d(1) unfolding ex_nocd_def by (metis prod.collapse)
  have f: "l_chunk (NvmAddr 0x0000001700000005) = 23" "l_sectr (NvmAddr 0x0000001700000005) = 5" by code_simp+
  have "unat (nvm_addr_gen2dev dev' (NvmAddr 0x0000001700000005)) = 23 * 4096 + 5"
    using conjunct1 [OF nocd_addresses_namespace [OF e d(2)]] unfolding f by simp
  with e d(2) show ?thesis unfolding ex_nocd_def by blast
qed

end
