(* ===== verification/Nvm_Spdk_Media.thy ===== *)
theory Nvm_Spdk_Media
  imports Nvm_Nocd Nvm_Ioctl_Media
begin

text \<open>
  The data that commands of the SPDK backend transfer: the contract of SPDK and the controller, the
  simulation that derives from it the contract of the media that virtual blocks assume, and the
  scalar commands on which the emulation of vector commands (\<open>nvm_be_nocd.c\<close>) rests.
\<close>

section \<open>What a command transfers\<close>

text \<open>
  The logical blocks that a controller finds in a command when it is submitted in the world \<open>w\<close>: those that follow the address of a
  scalar command; for a vector command with a count of 0 the address itself; for one with more addresses the words of memory
  from the physical address in its field. The list of the entry is the memory behind its DMA pointer, so the controller finds it only
  when the field is the physical address of that pointer; nothing is known of what it finds elsewhere.
\<close>

definition wrap_lbas :: "'w sys \<Rightarrow> 'w \<Rightarrow> nvm_cmd_wrap \<Rightarrow> u64 list option" where
  "wrap_lbas sys w wrap = (let cmd = wrap_cmd wrap in
     if nvm_cmd_is_scalar (ucast (cmd_opcode cmd)) then Some (map (\<lambda>i. cmd_addrs cmd + of_nat i) [0..<unat (bf_get 0 16 (cmd_cdw12 cmd)) + 1])
     else if bf_get 0 6 (cmd_cdw12 cmd) = 0 then Some [cmd_addrs cmd]
     else if cmd_addrs cmd = sys_spdk_vtophys sys (wrap_addrs_dma wrap) w
     then Some (take (unat (bf_get 0 6 (cmd_cdw12 cmd)) + 1) (wrap_addrs wrap)) else None)"

definition stored :: "('w \<Rightarrow> u64 \<Rightarrow> nat \<Rightarrow> u8) \<Rightarrow> ('w \<Rightarrow> ptr \<Rightarrow> u8) \<Rightarrow> nat \<Rightarrow> u64 list \<Rightarrow> ptr \<Rightarrow> 'w \<Rightarrow> 'w \<Rightarrow> bool" where
  "stored media mem B lbas data w w' \<longleftrightarrow> mem w' = mem w
     \<and> (\<forall>t < length lbas * B. media w' (lbas ! (t div B)) (t mod B) = mem w (data + of_nat t)) \<and> (\<forall>a. a \<notin> set lbas \<longrightarrow> media w' a = media w a)"

definition loaded :: "('w \<Rightarrow> u64 \<Rightarrow> nat \<Rightarrow> u8) \<Rightarrow> ('w \<Rightarrow> ptr \<Rightarrow> u8) \<Rightarrow> nat \<Rightarrow> u64 list \<Rightarrow> ptr \<Rightarrow> 'w \<Rightarrow> 'w \<Rightarrow> bool" where
  "loaded media mem B lbas data w w' \<longleftrightarrow> media w' = media w
     \<and> (\<forall>t < length lbas * B. mem w' (data + of_nat t) = media w (lbas ! (t div B)) (t mod B))
     \<and> (\<forall>q. (\<forall>t < length lbas * B. q \<noteq> data + of_nat t) \<longrightarrow> mem w' q = mem w q)"

text \<open>
  What the backend relies on of SPDK and the controller: a command that was submitted and whose
  completion reports success has been executed on the logical blocks that it names; the physical address that
  \<open>spdk_dma_malloc\<close> returns is the one of its pointer; the allocator and the storing of results change
  neither the media nor the buffers.
\<close>

definition executed :: "nat \<Rightarrow> ('w \<Rightarrow> u64 \<Rightarrow> nat \<Rightarrow> u8) \<Rightarrow> ('w \<Rightarrow> ptr \<Rightarrow> u8) \<Rightarrow> nvm_cmd_wrap \<Rightarrow> u64 list \<Rightarrow> 'w \<Rightarrow> 'w \<Rightarrow> bool" where
  "executed B media mem wrap lbas w w' \<longleftrightarrow> unat (wrap_data_len wrap) = length lbas * B \<longrightarrow>
     (cmd_opcode (wrap_cmd wrap) \<in> {ucast NVM_DOPC_SCALAR_WRITE, ucast NVM_DOPC_VECTOR_WRITE} \<longrightarrow> distinct lbas \<longrightarrow>
        stored media mem B lbas (wrap_data wrap) w w') \<and>
     (cmd_opcode (wrap_cmd wrap) \<in> {ucast NVM_DOPC_SCALAR_READ, ucast NVM_DOPC_VECTOR_READ} \<longrightarrow>
        loaded media mem B lbas (wrap_data wrap) w w')"

definition exec_law :: "'w sys \<Rightarrow> 'w spdk \<Rightarrow> nat \<Rightarrow> ('w \<Rightarrow> u64 \<Rightarrow> nat \<Rightarrow> u8) \<Rightarrow> ('w \<Rightarrow> ptr \<Rightarrow> u8) \<Rightarrow> bool" where
  "exec_law sys sp B media mem \<longleftrightarrow> (\<forall>c q wrap lbas w w1 cpl w2. sp_io_raw sp c q (wrap_cmd wrap) wrap w = (True, w1) \<longrightarrow>
     sync_wait sp q (wrap_self wrap) w1 = Some (cpl, w2) \<longrightarrow> cpl_ok cpl \<longrightarrow> wrap_lbas sys w wrap = Some lbas \<longrightarrow>
     executed B media mem wrap lbas w w2)"

definition dma_law :: "'w sys \<Rightarrow> bool" where
  "dma_law sys \<longleftrightarrow> (\<forall>n al w p phys w'. sys_spdk_dma_malloc sys n al w = (Inr (p, phys), w') \<longrightarrow> sys_spdk_vtophys sys p w' = phys)"

definition exec_laws :: "'w sys \<Rightarrow> 'w spdk \<Rightarrow> nat \<Rightarrow> ('w \<Rightarrow> u64 \<Rightarrow> nat \<Rightarrow> u8) \<Rightarrow> ('w \<Rightarrow> ptr \<Rightarrow> u8) \<Rightarrow> bool" where
  "exec_laws sys sp B media mem \<longleftrightarrow> exec_law sys sp B media mem \<and> dma_law sys \<and> sys_keeps sys (\<lambda>w. (media w, mem w))
     \<and> (\<forall>p r w. media (sp_set_ret sp p r w) = media w \<and> mem (sp_set_ret sp p r w) = mem w)"

section \<open>The entries\<close>

text \<open>The devices whose buffers SPDK allocates.\<close>

definition dma_dev :: "nvm_dev \<Rightarrow> bool" where
  "dma_dev dev \<longleftrightarrow> dev_be dev = Some NVM_BE_SPDK \<or> dev_be dev = Some NVM_BE_NOCD"

lemma dma_dev_known: "dma_dev dev \<Longrightarrow> be_known dev"
  by (auto simp: dma_dev_def be_known_def)

lemma dma_alloc_phys: "dma_law sys \<Longrightarrow> dma_dev dev \<Longrightarrow> nvm_buf_alloc sys dev n phys0 w = (Inr (p, phys), w') \<Longrightarrow> sys_spdk_vtophys sys p w' = phys"
  by (auto simp: dma_law_def dma_dev_def nvm_buf_alloc_def Let_def fail_def split: if_splits)

definition same_io :: "nvm_cmd_wrap \<Rightarrow> nvm_cmd_wrap \<Rightarrow> bool" where
  "same_io x y \<longleftrightarrow> wrap_dev x = wrap_dev y \<and> wrap_data x = wrap_data y \<and> wrap_data_len x = wrap_data_len y
     \<and> cmd_opcode (wrap_cmd x) = cmd_opcode (wrap_cmd y) \<and> cmd_cdw12 (wrap_cmd x) = cmd_cdw12 (wrap_cmd y)"

lemma erase_meta_io: "wrap_setup_erase_meta sys x opcode meta naddrs w = (Inr y, w') \<Longrightarrow> same_io y x"
  by (auto simp: wrap_setup_erase_meta_def same_io_def andThen_Inr ok_def split: if_splits)

lemma setup_vector_io:
  assumes "wrap_setup_vector sys x addrs None naddrs w = (Inr y, w')"
  shows "same_io y x" "naddrs \<le> 1 \<Longrightarrow> \<exists>a as. addrs = a # as \<and> cmd_addrs (wrap_cmd y) = nvm_addr_gen2dev (wrap_dev x) a"
    "1 < naddrs \<Longrightarrow> nat naddrs \<le> length addrs \<and> wrap_addrs y = map (nvm_addr_gen2dev (wrap_dev x)) (take (nat naddrs) addrs)
      \<and> nvm_buf_alloc sys (wrap_dev x) (wrap_addrs_len x) 0 w = (Inr (wrap_addrs_dma y, cmd_addrs (wrap_cmd y)), w')"
  using assms by (auto simp: wrap_setup_vector_def wrap_setup_list_def same_io_def Let_def andThen_Inr on_error_Inr lift_res_def ok_def
      arg_addrs_def arg_addr0_def split: if_splits list.splits)

lemma setup_io_Inr:
  assumes "nvm_cmd_wrap_setup sys dev opcode data meta dsgl msgl addrs None naddrs flags ret w = (Inr wrap, w')"
    and "opcode \<noteq> NVM_DOPC_SCALAR_ERASE" "flags AND NVM_CMD_SGL = 0"
  obtains self x y w1 w2 where "wrap_setup_len (wrap_init self dev opcode data meta naddrs ret) opcode data meta naddrs flags = Inr x"
    "wrap_setup_erase_meta sys x opcode meta naddrs w1 = (Inr y, w2)"
    "nvm_cmd_is_scalar opcode \<longrightarrow> (\<exists>a as. addrs = a # as \<and> wrap = y\<lparr>wrap_cmd := (wrap_cmd y)\<lparr>cmd_addrs := nvm_addr_gen2dev dev a\<rparr>\<rparr>)"
    "\<not> nvm_cmd_is_scalar opcode \<longrightarrow> wrap_setup_vector sys y addrs None naddrs w2 = (Inr wrap, w')"
  using assms
  by (auto simp: nvm_cmd_wrap_setup_def Let_def andThen_Inr on_error_Inr lift_res_def ok_def cmd_wrap_setup_sgl_def arg_addr0_def
      nvm_cmd_is_scalar_def split: if_splits list.splits)

lemma setup_io_fields:
  assumes "nvm_cmd_wrap_setup sys dev opcode data meta dsgl msgl addrs None naddrs flags ret w = (Inr wrap, w')"
    and "opcode \<noteq> NVM_DOPC_SCALAR_ERASE" "flags AND NVM_CMD_SGL = 0" "dev_verid dev = NVM_SPEC_VERID_20" "data \<noteq> 0"
  shows "wrap_data wrap = data" "cmd_opcode (wrap_cmd wrap) = ucast opcode" "wrap_data_len wrap = l_nbytes (dev_geo dev) * word_of_int naddrs"
    "cmd_cdw12 (wrap_cmd wrap) = (if nvm_cmd_is_scalar opcode then bf_set 0 16 (word_of_int (naddrs - 1)) 0 else bf_set 0 6 (word_of_int (naddrs - 1)) 0)"
    "nvm_cmd_is_scalar opcode \<or> naddrs \<le> 1 \<Longrightarrow> \<exists>a as. addrs = a # as \<and> cmd_addrs (wrap_cmd wrap) = nvm_addr_gen2dev dev a"
    "\<not> nvm_cmd_is_scalar opcode \<Longrightarrow> 1 < naddrs \<Longrightarrow> nat naddrs \<le> length addrs \<and> wrap_addrs wrap = map (nvm_addr_gen2dev dev) (take (nat naddrs) addrs)
      \<and> (\<exists>n w0. nvm_buf_alloc sys dev n 0 w0 = (Inr (wrap_addrs_dma wrap, cmd_addrs (wrap_cmd wrap)), w'))"
proof -
  obtain self x y w1 w2 where x: "wrap_setup_len (wrap_init self dev opcode data meta naddrs ret) opcode data meta naddrs flags = Inr x"
    and y: "wrap_setup_erase_meta sys x opcode meta naddrs w1 = (Inr y, w2)"
    and s: "nvm_cmd_is_scalar opcode \<longrightarrow> (\<exists>a as. addrs = a # as \<and> wrap = y\<lparr>wrap_cmd := (wrap_cmd y)\<lparr>cmd_addrs := nvm_addr_gen2dev dev a\<rparr>\<rparr>)"
    and v: "\<not> nvm_cmd_is_scalar opcode \<longrightarrow> wrap_setup_vector sys y addrs None naddrs w2 = (Inr wrap, w')"
    by (rule setup_io_Inr [OF assms(1-3)])
  have xf: "wrap_dev x = dev" "wrap_data x = data" "cmd_opcode (wrap_cmd x) = ucast opcode" "wrap_data_len x = l_nbytes (dev_geo dev) * word_of_int naddrs"
    "cmd_cdw12 (wrap_cmd x) = (if nvm_cmd_is_scalar opcode then bf_set 0 16 (word_of_int (naddrs - 1)) 0 else bf_set 0 6 (word_of_int (naddrs - 1)) 0)"
    using x assms(4,5) by (auto simp: wrap_setup_len_def Let_def wrap_init_def cmd_zero_def)
  have yx: "same_io y x" by (rule erase_meta_io [OF y])
  have "same_io wrap y"
  proof (cases "nvm_cmd_is_scalar opcode")
    case True
    then show ?thesis using s by (auto simp: same_io_def)
  next
    case False
    with v have "wrap_setup_vector sys y addrs None naddrs w2 = (Inr wrap, w')" by simp
    then show ?thesis by (rule setup_vector_io(1))
  qed
  then show "wrap_data wrap = data" "cmd_opcode (wrap_cmd wrap) = ucast opcode" "wrap_data_len wrap = l_nbytes (dev_geo dev) * word_of_int naddrs"
    "cmd_cdw12 (wrap_cmd wrap) = (if nvm_cmd_is_scalar opcode then bf_set 0 16 (word_of_int (naddrs - 1)) 0 else bf_set 0 6 (word_of_int (naddrs - 1)) 0)"
    using yx xf by (simp_all add: same_io_def)
  have yd: "wrap_dev y = dev" using yx xf(1) by (simp add: same_io_def)
  show "\<exists>a as. addrs = a # as \<and> cmd_addrs (wrap_cmd wrap) = nvm_addr_gen2dev dev a" if "nvm_cmd_is_scalar opcode \<or> naddrs \<le> 1"
    using that s v setup_vector_io(2) [of sys y addrs naddrs w2 wrap w'] yd by (cases "nvm_cmd_is_scalar opcode") auto
  show "nat naddrs \<le> length addrs \<and> wrap_addrs wrap = map (nvm_addr_gen2dev dev) (take (nat naddrs) addrs)
      \<and> (\<exists>n w0. nvm_buf_alloc sys dev n 0 w0 = (Inr (wrap_addrs_dma wrap, cmd_addrs (wrap_cmd wrap)), w'))"
    if "\<not> nvm_cmd_is_scalar opcode" "1 < naddrs"
    using that v setup_vector_io(3) [of sys y addrs naddrs w2 wrap w'] yd by auto
qed

lemma vector_lbas:
  assumes "nvm_cmd_wrap_setup sys dev opcode data meta dsgl msgl as None (int (length as)) flags ret w = (Inr wrap, w')"
    and "opcode \<in> {NVM_DOPC_VECTOR_WRITE, NVM_DOPC_VECTOR_READ}" "flags AND NVM_CMD_SGL = 0" "dev_verid dev = NVM_SPEC_VERID_20" "data \<noteq> 0"
    and "0 < length as" "length as \<le> 64" "dma_law sys" "dma_dev dev"
  shows "wrap_lbas sys w' wrap = Some (map (nvm_addr_gen2dev dev) as)"
proof -
  have ns: "\<not> nvm_cmd_is_scalar opcode" "opcode \<noteq> 9" "\<not> nvm_cmd_is_scalar (ucast (ucast opcode :: u8))"
    using assms(2) by (auto simp: nvm_cmd_is_scalar_def)
  note f = setup_io_fields [OF assms(1) ns(2) assms(3-5)]
  have c: "unat (bf_get 0 6 (cmd_cdw12 (wrap_cmd wrap))) + 1 = length as"
    using count_field [of "int (length as)" 6 0 0] assms(6,7) ns(1) by (simp add: f(4))
  show ?thesis
  proof (cases "length as = 1")
    case True
    then obtain a where "as = [a]" by (metis One_nat_def length_0_conv length_Suc_conv)
    moreover have "bf_get 0 6 (cmd_cdw12 (wrap_cmd wrap)) = 0" using c True by (simp add: unat_eq_zero)
    ultimately show ?thesis using f(5) ns by (simp add: wrap_lbas_def f(2) Let_def)
  next
    case False
    then have nz: "bf_get 0 6 (cmd_cdw12 (wrap_cmd wrap)) \<noteq> 0" "1 < int (length as)" using c assms(6) by auto
    note l = f(6) [OF ns(1) nz(2)]
    then have "sys_spdk_vtophys sys (wrap_addrs_dma wrap) w' = cmd_addrs (wrap_cmd wrap)" using dma_alloc_phys [OF assms(8,9)] by blast
    then show ?thesis using l nz(1) ns(3) c by (simp add: wrap_lbas_def f(2) Let_def)
  qed
qed

lemma scalar_lbas:
  assumes "nvm_cmd_wrap_setup sys dev opcode data meta dsgl msgl [a] None (int n) flags ret w = (Inr wrap, w')"
    and "opcode \<in> {NVM_DOPC_SCALAR_WRITE, NVM_DOPC_SCALAR_READ}" "flags AND NVM_CMD_SGL = 0" "dev_verid dev = NVM_SPEC_VERID_20" "data \<noteq> 0"
    and "0 < n" "n \<le> 2 ^ 16"
  shows "wrap_lbas sys w' wrap = Some (map (\<lambda>i. nvm_addr_gen2dev dev a + of_nat i) [0..<n])"
proof -
  have ns: "nvm_cmd_is_scalar opcode" "opcode \<noteq> 9" "nvm_cmd_is_scalar (ucast (ucast opcode :: u8))"
    using assms(2) by (auto simp: nvm_cmd_is_scalar_def)
  note f = setup_io_fields [OF assms(1) ns(2) assms(3-5)]
  have "unat (bf_get 0 16 (cmd_cdw12 (wrap_cmd wrap))) + 1 = n"
    using count_field [of "int n" 16 0 0] assms(6,7) ns(1) by (simp add: f(4))
  then show ?thesis using f(5) ns unfolding wrap_lbas_def f(2) Let_def by simp
qed

lemma entry_len:
  assumes "sector_nbytes geo = of_nat B" "B < 2 ^ 26" "n \<le> 2 ^ 16"
  shows "unat (sector_nbytes geo * word_of_int (int n)) = n * B"
proof -
  have "n * B \<le> 2 ^ 16 * 2 ^ 26" using assms(2,3) by (intro mult_le_mono) simp_all
  then have "unat (of_nat (n * B) :: u64) = n * B" by (intro unat_u64) simp
  then show ?thesis using assms(1) by (simp add: mult.commute)
qed


section \<open>The effect of a synchronous command\<close>

lemma spdk_sync_Inr:
  assumes "spdk_sync sys sp st cmd wrap w = Some (Inr (), w')" "sys_keeps sys f" "\<And>p r w. f (sp_set_ret sp p r w) = f w"
  obtains w1 cpl w2 where "sp_io_raw sp (ss_ctrlr st) (ss_qpair st) cmd wrap w = (True, w1)"
    "sync_wait sp (ss_qpair st) (wrap_self wrap) w1 = Some (cpl, w2)" "cpl_ok cpl" "f w' = f w2"
proof -
  obtain fine w1 where s: "sp_io_raw sp (ss_ctrlr st) (ss_qpair st) cmd wrap w = (fine, w1)" by (metis prod.collapse)
  have fine: "fine" using assms(1) s by (auto simp: spdk_sync_def andThen_Inr fail_def split: if_splits)
  obtain cpl w2 where c: "sync_wait sp (ss_qpair st) (wrap_self wrap) w1 = Some (cpl, w2)"
    using assms(1) s fine by (cases "sync_wait sp (ss_qpair st) (wrap_self wrap) w1") (auto simp: spdk_sync_def)
  obtain wrap' r where p: "nvm_cmd_wrap_cpl wrap cpl = (wrap', r)" by (metis prod.collapse)
  define w3 where "w3 = (case r of None \<Rightarrow> w2 | Some rv \<Rightarrow> sp_set_ret sp (wrap_ret wrap) rv w2)"
  have e: "andThen (nvm_cmd_wrap_term sys wrap') (\<lambda>_. if wrap_completed wrap' < 0 then fail (Errno EIO) else ok ()) w3 = (Inr (), w')"
    using assms(1) s fine c p by (simp add: spdk_sync_def w3_def)
  then have t: "nvm_cmd_wrap_term sys wrap' w3 = (Inr (), w')" "\<not> wrap_completed wrap' < 0"
    by (auto simp: andThen_Inr ok_def fail_def split: if_splits)
  have "cpl_ok cpl" using t(2) p by (auto simp: nvm_cmd_wrap_cpl_def Let_def cpl_ok_def split: if_splits)
  moreover have "f w' = f w2"
    using keepsD [OF wrap_term_keeps [OF assms(2)] t(1)] assms(3) by (simp add: w3_def split: option.splits)
  moreover have "sp_io_raw sp (ss_ctrlr st) (ss_qpair st) cmd wrap w = (True, w1)" using s fine by simp
  ultimately show thesis using that c by blast
qed

text \<open>A synchronous command with an entry that is well-formed leads to the transfer of its data.\<close>

lemma sync_ewrc_effect:
  assumes "exec_laws sys sp B media mem" "cmd_sync_ewrc sys sp dev addrs None naddrs data meta flags opcode ret w = Some (Inr (), w')"
  obtains wrap w0 dsgl msgl where "nvm_cmd_wrap_setup sys dev opcode data meta dsgl msgl addrs None naddrs (ucast flags) ret w = (Inr wrap, w0)"
    "\<forall>lbas. wrap_lbas sys w0 wrap = Some lbas \<longrightarrow> executed B media mem wrap lbas w w'"
proof -
  have k: "sys_keeps sys (\<lambda>w. (media w, mem w))" "\<And>p r w. (media (sp_set_ret sp p r w), mem (sp_set_ret sp p r w)) = (media w, mem w)"
    and ex: "exec_law sys sp B media mem" using assms(1) by (simp_all add: exec_laws_def)
  obtain st where st: "dev_state sp dev w = (Inr st, w)"
    using assms(2) by (cases "sp_state sp (dev_be_state dev) w") (auto simp: cmd_sync_ewrc_def lbind_def lret_def dev_state_def)
  obtain wrap w0 where m: "setup_wrap sys sp dev opcode data meta addrs None naddrs flags ret w = (Inr wrap, w0)"
    "spdk_sync sys sp st (wrap_cmd wrap) wrap w0 = Some (Inr (), w')"
    using assms(2) st by (auto simp: cmd_sync_ewrc_def lbind_def lret_def split: prod.splits sum.splits)
  obtain w1 cpl w2 where s: "sp_io_raw sp (ss_ctrlr st) (ss_qpair st) (wrap_cmd wrap) wrap w0 = (True, w1)"
    "sync_wait sp (ss_qpair st) (wrap_self wrap) w1 = Some (cpl, w2)" "cpl_ok cpl" "(media w', mem w') = (media w2, mem w2)"
    by (rule spdk_sync_Inr [OF m(2) k])
  have w0: "(media w0, mem w0) = (media w, mem w)" by (rule keepsD [OF setup_wrap_source(3) [OF k(1)] m(1)])
  have "stored media mem B l d w w' = stored media mem B l d w0 w2" "loaded media mem B l d w w' = loaded media mem B l d w0 w2" for l d
    using s(4) w0 by (simp_all add: stored_def loaded_def)
  then have "executed B media mem wrap l w w' = executed B media mem wrap l w0 w2" for l by (simp add: executed_def)
  with ex [unfolded exec_law_def, rule_format, OF s(1-3)] show thesis
    by (intro that [OF m(1) [unfolded setup_wrap_def]]) simp
qed

lemma spdk_ewrc_sync: "flags AND 0x30 \<noteq> 0x20 \<Longrightarrow> spdk_ewrc sys sp dev addrs dst naddrs data meta flags opcode ret w = (Inr (), w') \<Longrightarrow>
    cmd_sync_ewrc sys sp dev addrs dst naddrs data meta flags opcode ret w = Some (Inr (), w')"
  by (auto simp: spdk_ewrc_def returning_def split: option.splits)

lemma vector_effect:
  assumes "exec_laws sys sp B media mem" "cmd_sync_ewrc sys sp dev as None (int (length as)) data 0 0x190 opcode ret w = Some (Inr (), w')"
    and "dev_verid dev = NVM_SPEC_VERID_20" "sector_nbytes (dev_geo dev) = of_nat B" "B < 2 ^ 26" "data \<noteq> 0" "0 < length as" "length as \<le> 64"
    and "dma_dev dev"
  shows "opcode = NVM_DOPC_VECTOR_WRITE \<Longrightarrow> distinct (map (nvm_addr_gen2dev dev) as) \<Longrightarrow> stored media mem B (map (nvm_addr_gen2dev dev) as) data w w'"
    "opcode = NVM_DOPC_VECTOR_READ \<Longrightarrow> loaded media mem B (map (nvm_addr_gen2dev dev) as) data w w'"
proof -
  obtain wrap w0 dsgl msgl where s: "nvm_cmd_wrap_setup sys dev opcode data 0 dsgl msgl as None (int (length as)) (ucast (0x190 :: u16)) ret w = (Inr wrap, w0)"
    and e: "\<forall>lbas. wrap_lbas sys w0 wrap = Some lbas \<longrightarrow> executed B media mem wrap lbas w w'"
    by (rule sync_ewrc_effect [OF assms(1,2)])
  have fl: "(ucast (0x190 :: u16) :: u32) AND NVM_CMD_SGL = 0" by simp
  have x: "executed B media mem wrap (map (nvm_addr_gen2dev dev) as) w w'" "wrap_data wrap = data" "cmd_opcode (wrap_cmd wrap) = ucast opcode"
    "unat (wrap_data_len wrap) = length as * B" if o: "opcode \<in> {NVM_DOPC_VECTOR_WRITE, NVM_DOPC_VECTOR_READ}"
  proof -
    have ne: "opcode \<noteq> NVM_DOPC_SCALAR_ERASE" using o by auto
    note f = setup_io_fields [OF s ne fl assms(3,6)]
    have "dma_law sys" using assms(1) by (simp add: exec_laws_def)
    then show "executed B media mem wrap (map (nvm_addr_gen2dev dev) as) w w'" by (rule e [rule_format, OF vector_lbas [OF s o fl assms(3,6-8) _ assms(9)]])
    show "wrap_data wrap = data" "cmd_opcode (wrap_cmd wrap) = ucast opcode" by (rule f)+
    show "unat (wrap_data_len wrap) = length as * B" unfolding f(3)
      by (rule entry_len [OF assms(4,5)]) (use assms(8) in simp)
  qed
  show "opcode = NVM_DOPC_VECTOR_WRITE \<Longrightarrow> distinct (map (nvm_addr_gen2dev dev) as) \<Longrightarrow> stored media mem B (map (nvm_addr_gen2dev dev) as) data w w'"
    using x by (simp add: executed_def)
  show "opcode = NVM_DOPC_VECTOR_READ \<Longrightarrow> loaded media mem B (map (nvm_addr_gen2dev dev) as) data w w'"
    using x by (simp add: executed_def)
qed

lemma scalar_effect:
  assumes "exec_laws sys sp B media mem" "nvm_be_spdk_scalar_write sys sp dev a (int n) data meta flags ret w = (Inr (), w')"
    and "flags AND 0x30 \<noteq> 0x20" "(ucast flags :: u32) AND NVM_CMD_SGL = 0" "dev_verid dev = NVM_SPEC_VERID_20"
    and "sector_nbytes (dev_geo dev) = of_nat B" "B < 2 ^ 26" "data \<noteq> 0" "0 < n" "n \<le> 2 ^ 16"
  shows "stored media mem B (map (\<lambda>i. nvm_addr_gen2dev dev a + of_nat i) [0..<n]) data w w'"
proof -
  note c = spdk_ewrc_sync [OF assms(3) assms(2) [unfolded nvm_be_spdk_scalar_write_def]]
  obtain wrap w0 dsgl msgl where s: "nvm_cmd_wrap_setup sys dev NVM_DOPC_SCALAR_WRITE data meta dsgl msgl [a] None (int n) (ucast flags) ret w = (Inr wrap, w0)"
    and e: "\<forall>lbas. wrap_lbas sys w0 wrap = Some lbas \<longrightarrow> executed B media mem wrap lbas w w'"
    by (rule sync_ewrc_effect [OF assms(1) c])
  have o: "NVM_DOPC_SCALAR_WRITE \<in> {NVM_DOPC_SCALAR_WRITE, NVM_DOPC_SCALAR_READ}" "NVM_DOPC_SCALAR_WRITE \<noteq> (NVM_DOPC_SCALAR_ERASE :: u16)" by simp_all
  note f = setup_io_fields [OF s o(2) assms(4,5,8)]
  let ?l = "map (\<lambda>i. nvm_addr_gen2dev dev a + of_nat i) [0..<n]"
  have l: "executed B media mem wrap ?l w w'" by (rule e [rule_format, OF scalar_lbas [OF s o(1) assms(4,5,8-10)]])
  have u: "unat (of_nat i :: u64) = i" if "i < n" for i using that assms(10) by (intro unat_u64) simp
  have "inj_on (\<lambda>i. nvm_addr_gen2dev dev a + of_nat i) {0..<n}" by (rule inj_onI) (metis add_left_cancel atLeastLessThan_iff u)
  then have "distinct ?l" by (simp add: distinct_map)
  moreover have "unat (wrap_data_len wrap) = length ?l * B" unfolding f(3) using entry_len [OF assms(6,7,10)] by simp
  ultimately show ?thesis using f(1,2) l by (simp add: executed_def)
qed

lemma spdk_vector_simps:
  "be_vector_write (nvm_be_spdk sys sp) dev as n data meta fl ret = spdk_ewrc sys sp dev as None n data meta fl NVM_DOPC_VECTOR_WRITE ret"
  "be_vector_read (nvm_be_spdk sys sp) dev as n data meta fl ret = spdk_ewrc sys sp dev as None n data meta fl NVM_DOPC_VECTOR_READ ret"
  by (simp_all add: nvm_be_spdk_def spdk_ops_def nvm_be_spdk_vector_write_def nvm_be_spdk_vector_read_def)

text \<open>The simulation: the SPDK backend keeps the contract of the media.\<close>

lemma spdk_media_laws:
  assumes "exec_laws sys sp B media mem" "dev_verid dev = NVM_SPEC_VERID_20" "wf_fmt dev" "sector_nbytes (dev_geo dev) = of_nat B" "B < 2 ^ 26" "dma_dev dev"
  shows "media_laws sys (nvm_be_spdk sys sp) dev B {a. fits dev a} (\<lambda>w a. media w (nvm_addr_gen2dev dev a)) mem"
  unfolding media_laws_def spdk_vector_simps
proof (intro conjI allI impI ballI)
  let ?g = "nvm_addr_gen2dev dev"
  have fl: "(0x190 :: u16) AND 0x30 \<noteq> 0x20" by simp
  {
    fix as data ret w w'
    assume a: "distinct as" "set as \<subseteq> {a. fits dev a}" "0 < length as" "length as \<le> 64" "data \<noteq> 0"
      "spdk_ewrc sys sp dev as None (int (length as)) data 0 0x190 NVM_DOPC_VECTOR_WRITE ret w = (Inr (), w')"
    then have f: "\<forall>a \<in> set as. fits dev a" by blast
    have "distinct (map ?g as)" using fmt.distinct_enc [OF assms(3) f] a(1) by simp
    note st = vector_effect(1) [OF assms(1) spdk_ewrc_sync [OF fl a(6)] assms(2,4,5) a(5,3,4) assms(6) refl this]
    show "mem w' = mem w" using st by (simp add: stored_def)
    show "media w' (?g (as ! (t div B))) (t mod B) = mem w (data + of_nat t)" if "t < length as * B" for t
      using st that by (simp add: stored_def less_mult_imp_div_less)
    show "media w' (?g b) = media w (?g b)" if b: "b \<in> {a. fits dev a} - set as" for b
    proof -
      have "?g b \<notin> ?g ` set as" using inj_on_image_mem_iff [OF fmt.enc_inj [OF assms(3)], of b "set as"] f b by blast
      then show ?thesis using st by (simp add: stored_def)
    qed
  next
    fix as data ret w w'
    assume a: "0 < length as" "length as \<le> 64" "data \<noteq> 0"
      "spdk_ewrc sys sp dev as None (int (length as)) data 0 0x190 NVM_DOPC_VECTOR_READ ret w = (Inr (), w')"
    note ld = vector_effect(2) [OF assms(1) spdk_ewrc_sync [OF fl a(4)] assms(2,4,5) a(3,1,2) assms(6) refl]
    show "(\<lambda>a. media w' (?g a)) = (\<lambda>a. media w (?g a))" using ld by (simp add: loaded_def)
    show "mem w' (data + of_nat t) = media w (?g (as ! (t div B))) (t mod B)" if "t < length as * B" for t
      using ld that by (simp add: loaded_def less_mult_imp_div_less)
    show "mem w' q = mem w q" if "\<forall>t < length as * B. q \<noteq> data + of_nat t" for q using ld that by (simp add: loaded_def)
  }
qed (use assms(1) in \<open>simp_all add: exec_laws_def sys_keeps_def\<close>)

text \<open>When allocations succeed and the controller executes what it is given, every command does.\<close>

definition spdk_answers :: "'w sys \<Rightarrow> 'w spdk \<Rightarrow> nvm_dev \<Rightarrow> bool" where
  "spdk_answers sys sp dev \<longleftrightarrow> (\<forall>w. sp_state sp (dev_be_state dev) w \<noteq> None) \<and> (\<forall>w. \<exists>p w'. sys_calloc sys 1 sizeof_wrap w = (Inr p, w'))
     \<and> (\<forall>n w. n \<noteq> 0 \<longrightarrow> (\<exists>p w'. nvm_buf_alloc sys dev n 0 w = (Inr p, w')))
     \<and> (\<forall>c q cmd wrap w. \<exists>w1 cpl w2. sp_io_raw sp c q cmd wrap w = (True, w1) \<and> sync_wait sp q (wrap_self wrap) w1 = Some (cpl, w2) \<and> cpl_ok cpl)"

lemma wrap_term_returns: "be_known (wrap_dev wrap) \<Longrightarrow> \<exists>w'. nvm_cmd_wrap_term sys wrap w = (Inr (), w')"
  by (auto simp: nvm_cmd_wrap_term_def be_known_def nvm_buf_free_def nvm_buf_virt_free_def upd_def andThen_def)

lemma wrap_setup_dev:
  assumes "nvm_cmd_wrap_setup sys dev opcode data meta dsgl msgl addrs None naddrs flags ret w = (Inr wrap, w')"
    and "opcode \<noteq> NVM_DOPC_SCALAR_ERASE" "flags AND NVM_CMD_SGL = 0"
  shows "wrap_dev wrap = dev"
proof -
  obtain self x y w1 w2 where x: "wrap_setup_len (wrap_init self dev opcode data meta naddrs ret) opcode data meta naddrs flags = Inr x"
    and y: "wrap_setup_erase_meta sys x opcode meta naddrs w1 = (Inr y, w2)"
    and s: "nvm_cmd_is_scalar opcode \<longrightarrow> (\<exists>a as. addrs = a # as \<and> wrap = y\<lparr>wrap_cmd := (wrap_cmd y)\<lparr>cmd_addrs := nvm_addr_gen2dev dev a\<rparr>\<rparr>)"
    and v: "\<not> nvm_cmd_is_scalar opcode \<longrightarrow> wrap_setup_vector sys y addrs None naddrs w2 = (Inr wrap, w')"
    by (rule setup_io_Inr [OF assms])
  have "wrap_dev x = dev" using x by (auto simp: wrap_setup_len_def Let_def wrap_init_def split: if_splits)
  then have "wrap_dev y = dev" using erase_meta_io [OF y] by (simp add: same_io_def)
  then show ?thesis using s v setup_vector_io(1) [of sys y addrs naddrs w2 wrap w'] by (cases "nvm_cmd_is_scalar opcode") (auto simp: same_io_def)
qed

lemma setup_returns:
  assumes "spdk_answers sys sp dev" "dev_verid dev = NVM_SPEC_VERID_20" "flags AND NVM_CMD_SGL = 0"
  obtains x w1 where "nvm_cmd_is_scalar opcode \<and> opcode \<noteq> NVM_DOPC_SCALAR_ERASE \<longrightarrow> nvm_cmd_wrap_setup sys dev opcode data 0 dsgl msgl addrs None naddrs flags ret w
      = andThen (lift_res (arg_addr0 addrs)) (\<lambda>a. ok (x\<lparr>wrap_cmd := (wrap_cmd x)\<lparr>cmd_addrs := nvm_addr_gen2dev dev a\<rparr>\<rparr>)) w1"
    "\<not> nvm_cmd_is_scalar opcode \<longrightarrow> nvm_cmd_wrap_setup sys dev opcode data 0 dsgl msgl addrs None naddrs flags ret w = wrap_setup_vector sys x addrs None naddrs w1"
    "wrap_dev x = dev" "wrap_addrs_len x = word_of_int naddrs * 8"
proof -
  obtain self w1 where c: "sys_calloc sys 1 sizeof_wrap w = (Inr self, w1)" using assms(1) unfolding spdk_answers_def by blast
  obtain x where x: "wrap_setup_len (wrap_init self dev opcode data 0 naddrs ret) opcode data 0 naddrs flags = Inr x" "wrap_dev x = dev"
    "wrap_addrs_len x = word_of_int naddrs * 8"
    using assms(2) by (simp add: wrap_setup_len_def Let_def wrap_init_def)
  have l: "lift_res (Inr z) = ok z" for z :: nvm_cmd_wrap by (simp add: fun_eq_iff lift_res_def ok_def)
  show thesis
    by (rule that [OF _ _ x(2,3), of w1]) (use c x(1) assms(3) in \<open>auto simp: nvm_cmd_wrap_setup_def nvm_cmd_is_scalar_def
      andThen_def [of "sys_calloc sys 1 sizeof_wrap"] Let_def l wrap_setup_erase_meta_def cmd_wrap_setup_sgl_def\<close>)
qed

lemma setup_vector_returns:
  assumes "spdk_answers sys sp dev" "dev_verid dev = NVM_SPEC_VERID_20" "flags AND NVM_CMD_SGL = 0"
    and "opcode \<in> {NVM_DOPC_VECTOR_WRITE, NVM_DOPC_VECTOR_READ}" "0 < length as" "length as \<le> 64"
  shows "\<exists>wrap w'. nvm_cmd_wrap_setup sys dev opcode data 0 dsgl msgl as None (int (length as)) flags ret w = (Inr wrap, w')"
proof -
  let ?n = "word_of_int (int (length as)) * 8 :: u64"
  have "unat (of_nat (length as * 8) :: u64) = length as * 8" using assms(6) by (intro unat_u64) simp
  then have "?n \<noteq> 0" using assms(5) by auto
  then have al: "\<exists>p w'. nvm_buf_alloc sys dev ?n 0 w = (Inr p, w')" for w using assms(1) by (simp add: spdk_answers_def)
  obtain x w1 where x: "\<not> nvm_cmd_is_scalar opcode \<longrightarrow> nvm_cmd_wrap_setup sys dev opcode data 0 dsgl msgl as None (int (length as)) flags ret w
      = wrap_setup_vector sys x as None (int (length as)) w1" "wrap_dev x = dev" "wrap_addrs_len x = ?n"
    by (rule setup_returns [OF assms(1-3)])
  have "\<exists>y w'. wrap_setup_vector sys x as None (int (length as)) w1 = (Inr y, w')"
    using x(2,3) al [of w1] assms(5) by (cases as) (auto simp: wrap_setup_vector_def wrap_setup_list_def Let_def andThen_def on_error_def ok_def
        lift_res_def arg_addrs_def arg_addr0_def)
  then show ?thesis using x(1) assms(4) by (auto simp: nvm_cmd_is_scalar_def)
qed

lemma setup_scalar_returns:
  assumes "spdk_answers sys sp dev" "dev_verid dev = NVM_SPEC_VERID_20" "flags AND NVM_CMD_SGL = 0"
    and "opcode \<in> {NVM_DOPC_SCALAR_WRITE, NVM_DOPC_SCALAR_READ}"
  shows "\<exists>wrap w'. nvm_cmd_wrap_setup sys dev opcode data 0 dsgl msgl [a] None n flags ret w = (Inr wrap, w')"
proof -
  have s: "nvm_cmd_is_scalar opcode \<and> opcode \<noteq> NVM_DOPC_SCALAR_ERASE" using assms(4) by (auto simp: nvm_cmd_is_scalar_def)
  obtain x w1 where "nvm_cmd_is_scalar opcode \<and> opcode \<noteq> NVM_DOPC_SCALAR_ERASE \<longrightarrow> nvm_cmd_wrap_setup sys dev opcode data 0 dsgl msgl [a] None n flags ret w
      = andThen (lift_res (arg_addr0 [a])) (\<lambda>a. ok (x\<lparr>wrap_cmd := (wrap_cmd x)\<lparr>cmd_addrs := nvm_addr_gen2dev dev a\<rparr>\<rparr>)) w1"
    by (rule setup_returns [OF assms(1-3)])
  then show ?thesis using s by (simp add: arg_addr0_def ok_def)
qed

lemma sync_returns:
  assumes "spdk_answers sys sp dev" "be_known dev" "flags AND 0x30 \<noteq> 0x20" "(ucast flags :: u32) AND NVM_CMD_SGL = 0" "opcode \<noteq> NVM_DOPC_SCALAR_ERASE"
    and "\<And>dsgl msgl. \<exists>wrap w'. nvm_cmd_wrap_setup sys dev opcode data 0 dsgl msgl as None n (ucast flags) ret w = (Inr wrap, w')"
  shows "\<exists>w'. spdk_ewrc sys sp dev as None n data 0 flags opcode ret w = (Inr (), w')"
proof -
  obtain st where st: "sp_state sp (dev_be_state dev) w = Some st" using assms(1) unfolding spdk_answers_def by blast
  obtain wrap w0 where s: "setup_wrap sys sp dev opcode data 0 as None n flags ret w = (Inr wrap, w0)"
    unfolding setup_wrap_def using assms(6) by blast
  obtain w1 cpl w2 where x: "sp_io_raw sp (ss_ctrlr st) (ss_qpair st) (wrap_cmd wrap) wrap w0 = (True, w1)"
    "sync_wait sp (ss_qpair st) (wrap_self wrap) w1 = Some (cpl, w2)" "cpl_ok cpl" using assms(1) unfolding spdk_answers_def by meson
  obtain wrap' r where p: "nvm_cmd_wrap_cpl wrap cpl = (wrap', r)" by (metis prod.collapse)
  have "wrap_dev wrap = dev" by (rule wrap_setup_dev [OF s [unfolded setup_wrap_def] assms(5,4)])
  then have "wrap_dev wrap' = dev" "\<not> wrap_completed wrap' < 0" using p x(3) by (auto simp: nvm_cmd_wrap_cpl_def Let_def cpl_ok_def)
  then show ?thesis
    using st s x(1,2) p wrap_term_returns [of wrap' sys "case r of None \<Rightarrow> w2 | Some rv \<Rightarrow> sp_set_ret sp (wrap_ret wrap) rv w2"] assms(2,3)
    by (auto simp: spdk_ewrc_def returning_def cmd_sync_ewrc_def lbind_def lret_def dev_state_def spdk_sync_def andThen_def ok_def)
qed

lemma spdk_media_answers:
  assumes "spdk_answers sys sp dev" "be_known dev" "dev_verid dev = NVM_SPEC_VERID_20"
  shows "media_answers (nvm_be_spdk sys sp) dev"
proof -
  have fl: "(ucast (0x190 :: u16) :: u32) AND NVM_CMD_SGL = 0" "(0x190 :: u16) AND 0x30 \<noteq> 0x20" by simp_all
  have "\<exists>w'. spdk_ewrc sys sp dev as None (int (length as)) data 0 0x190 opcode ret w = (Inr (), w')"
    if "0 < length as" "length as \<le> 64" "opcode \<in> {NVM_DOPC_VECTOR_WRITE, NVM_DOPC_VECTOR_READ}" for as data opcode ret w
    by (rule sync_returns [OF assms(1,2) fl(2,1) _ setup_vector_returns [OF assms(1,3) fl(1) that(3,1,2)]]) (use that(3) in auto)
  then show ?thesis unfolding media_answers_def spdk_vector_simps by blast
qed

lemma scalar_write_returns:
  assumes "spdk_answers sys sp dev" "be_known dev" "dev_verid dev = NVM_SPEC_VERID_20" "flags AND 0x30 \<noteq> 0x20" "(ucast flags :: u32) AND NVM_CMD_SGL = 0"
  shows "\<exists>w'. nvm_be_spdk_scalar_write sys sp dev a n data 0 flags ret w = (Inr (), w')"
  unfolding nvm_be_spdk_scalar_write_def by (rule sync_returns [OF assms(1,2,4,5) _ setup_scalar_returns [OF assms(1,3,5)]]) simp_all

section \<open>Vector writes made of scalar writes\<close>

lemma nocd_contig_nth: "nocd_contig as \<Longrightarrow> i < length as \<Longrightarrow> l_sectr (as ! i) = l_sectr (hd as) + of_nat i"
proof (induction as arbitrary: i rule: nocd_contig.induct)
  case (1 a b as)
  then show ?case
  proof (cases i)
    case (Suc j)
    then show ?thesis using 1 by (simp add: algebra_simps)
  qed simp
qed auto

lemma stored_one:
  assumes "stored media mem B [l] data w w'" "t < B"
  shows "media w' l t = mem w (data + of_nat t)" "mem w' = mem w" "a \<noteq> l \<Longrightarrow> media w' a = media w a"
  using assms by (auto simp: stored_def)

lemma each_write_stores:
  assumes "\<And>a w w'. io a w = (Inr (), w') \<Longrightarrow> stored media mem B [g a] data w w'" "each_op io as w = (Inr (), w')" "distinct (map g as)"
    and "a \<in> set as" "t < B"
  shows "media w' (g a) t = mem w (data + of_nat t)"
proof -
  have "mem w' = mem w \<and> (\<forall>a \<in> set as. media w' (g a) t = mem w (data + of_nat t)) \<and> (\<forall>l. l \<notin> g ` set as \<longrightarrow> media w' l = media w l)"
    using assms(2,3)
  proof (induction as arbitrary: w)
    case Nil
    then show ?case by (simp add: ok_def)
  next
    case (Cons b bs)
    from Cons.prems(1) obtain w1 where s: "io b w = (Inr (), w1)" "each_op io bs w1 = (Inr (), w')" by (auto simp: andThen_Inr)
    note o = stored_one [OF assms(1) [OF s(1)] assms(5)]
    note ih = Cons.IH [OF s(2)]
    show ?case using ih Cons.prems(2) o by (auto simp: image_iff)
  qed
  then show ?thesis using assms(4) by blast
qed


lemma nocd_contig_lbas:
  assumes "nvm_be_populate sys (nocd_ops sys sp nm) d0 w0 = (Inr dev, w1)" "\<forall>a \<in> set as. nvm_addr_check a dev = Inr 0"
    and "nocd_contig as" "\<forall>a \<in> set as. l_chunk a = l_chunk (hd as)" "i < length as"
  shows "nvm_addr_gen2dev dev (as ! i) = nvm_addr_gen2dev dev (hd as) + of_nat i"
proof -
  have in1: "as ! i \<in> set as" "hd as \<in> set as" using assms(5) by (auto intro: hd_in_set)
  have a: "unat (nvm_addr_gen2dev dev (as ! i)) = unat (l_chunk (as ! i)) * 4096 + unat (l_sectr (as ! i))"
    using nocd_lba [OF assms(1)] assms(2) in1(1) by blast
  have b: "unat (nvm_addr_gen2dev dev (hd as)) = unat (l_chunk (hd as)) * 4096 + unat (l_sectr (hd as))"
    using nocd_lba [OF assms(1)] assms(2) in1(2) by blast
  have "nvm_addr_gen2dev dev (as ! i) = l_chunk (as ! i) * 4096 + l_sectr (as ! i)" using arg_cong [OF a, of "of_nat :: nat \<Rightarrow> u64"] by simp
  moreover have "nvm_addr_gen2dev dev (hd as) = l_chunk (hd as) * 4096 + l_sectr (hd as)" using arg_cong [OF b, of "of_nat :: nat \<Rightarrow> u64"] by simp
  moreover have "l_chunk (as ! i) = l_chunk (hd as)" using assms(4) in1(1) by blast
  ultimately show ?thesis using nocd_contig_nth [OF assms(3,5)] by simp
qed

section \<open>Properties\<close>

text \<open>
  C13. Vector writes of the \<open>NVM_BE_NOCD\<close> backend, when the controller executes the scalar writes it is given. The check for
  contiguous addresses looks at the sectors only. A successful synchronous write to addresses whose sector numbers follow
  each other, in whatever chunks, stores the blocks of the buffer at the logical blocks that follow that of the first
  address and nothing anywhere else; these are the requested addresses, each with its own block, when all are in one chunk. A
  write to other addresses stores the first block of the buffer at every one of them, because the pointer that
  is passed is never advanced.
\<close>

theorem nocd_vector_write_stores:
  assumes "nvm_be_populate sys' (nocd_ops sys' sp' nm) d0 w0 = (Inr dev, w1)" "\<forall>a \<in> set as. nvm_addr_check a dev = Inr 0"
    and "exec_laws sys sp B media mem" "l_nbytes (dev_geo dev) = of_nat B" "B < 2 ^ 26" "distinct as" "as \<noteq> []" "length as \<le> 2 ^ 16"
    and "flags AND 0x30 \<noteq> 0x20" "(ucast flags :: u32) AND NVM_CMD_SGL = 0" "data \<noteq> NULL"
    and "nvm_be_nocd_vector_write sys sp dev as (int (length as)) data meta flags ret w = (Inr (), w')"
  shows "(nocd_contig as \<longrightarrow> stored media mem B (map (\<lambda>i. nvm_addr_gen2dev dev (hd as) + of_nat i) [0..<length as]) data w w')
    \<and> (nocd_contig as \<and> (\<forall>a \<in> set as. l_chunk a = l_chunk (hd as)) \<longrightarrow>
       (\<forall>t < length as * B. media w' (nvm_addr_gen2dev dev (as ! (t div B))) (t mod B) = mem w (data + of_nat t)))
    \<and> (\<not> nocd_contig as \<longrightarrow> (\<forall>a \<in> set as. \<forall>t < B. media w' (nvm_addr_gen2dev dev a) t = mem w (data + of_nat t)))"
proof (intro conjI impI ballI allI)
  have v: "dev_verid dev = 2" using nocd_populated [OF assms(1)] by blast
  have sc: "stored media mem B (map (\<lambda>i. nvm_addr_gen2dev dev a + of_nat i) [0..<n]) data x x'"
    if "nvm_be_spdk_scalar_write sys sp dev a (int n) data meta flags ret x = (Inr (), x')" "0 < n" "n \<le> 2 ^ 16" for a n x x'
    by (rule scalar_effect [OF assms(3) that(1) assms(9,10) v assms(4,5,11) that(2,3)])
  have as: "arg_addrs as (int (length as)) = Inr as" "arg_addr0 as = Inr (hd as)" using assms(7) by (auto simp: arg_addrs_def arg_addr0_def split: list.split)
  show st: "stored media mem B (map (\<lambda>i. nvm_addr_gen2dev dev (hd as) + of_nat i) [0..<length as]) data w w'" if "nocd_contig as"
  proof -
    have "nvm_be_spdk_scalar_write sys sp dev (hd as) (int (length as)) data meta flags ret w = (Inr (), w')"
      using assms(12) that as by (simp add: nvm_be_nocd_vector_write_def nocd_vector_rw_def)
    then show ?thesis using assms(7) by (intro sc [OF _ _ assms(8)]) simp_all
  qed
  show "media w' (nvm_addr_gen2dev dev (as ! (t div B))) (t mod B) = mem w (data + of_nat t)"
    if c: "nocd_contig as \<and> (\<forall>a \<in> set as. l_chunk a = l_chunk (hd as))" "t < length as * B" for t
  proof -
    have i: "t div B < length as" using c(2) by (simp add: less_mult_imp_div_less)
    have "nvm_addr_gen2dev dev (as ! (t div B)) = nvm_addr_gen2dev dev (hd as) + of_nat (t div B)"
      using c(1) i by (intro nocd_contig_lbas [OF assms(1,2)]) blast+
    then show ?thesis using st c i by (auto simp: stored_def)
  qed
  show "media w' (nvm_addr_gen2dev dev a) t = mem w (data + of_nat t)" if "\<not> nocd_contig as" "a \<in> set as" "t < B" for a t
  proof (rule each_write_stores [where g = "nvm_addr_gen2dev dev" and as = as and io = "\<lambda>a. nvm_be_spdk_scalar_write sys sp dev a 1 data meta flags ret"])
    show "stored media mem B [nvm_addr_gen2dev dev a] data x x'"
      if "nvm_be_spdk_scalar_write sys sp dev a 1 data meta flags ret x = (Inr (), x')" for a x x' using sc [of a 1 x x'] that by simp
    show "each_op (\<lambda>a. nvm_be_spdk_scalar_write sys sp dev a 1 data meta flags ret) as w = (Inr (), w')"
      using assms(12) that(1) as by (auto simp: nvm_be_nocd_vector_write_def nocd_vector_rw_def fail_def split: if_splits)
    have "inj_on (nvm_addr_gen2dev dev) (set as)" by (rule inj_on_inverseI [where g = "nvm_addr_dev2gen dev"]) (use nocd_lba [OF assms(1)] assms(2) in blast)
    then show "distinct (map (nvm_addr_gen2dev dev) as)" using assms(6) by (simp add: distinct_map)
  qed (use that in auto)
qed

text \<open>An SPDK whose controller executes a command when it is submitted, on media with blocks of 4096 bytes.\<close>

type_synonym ex_spdk_world = "u64 media \<times> ptr"

definition ex_sys_any :: "'w sys" where
  "ex_sys_any = \<lparr>sys_aligned_alloc = (\<lambda>_ _. ok 0x2000), sys_free = (\<lambda>_ w. w), sys_malloc = (\<lambda>_. ok 0x3000), sys_calloc = (\<lambda>_ _. ok 0x4000),
     sys_spdk_dma_malloc = (\<lambda>_ _. ok (0x5000, 0x5000)), sys_spdk_dma_realloc = (\<lambda>_ _ _. ok (0x5000, 0x5000)), sys_spdk_dma_free = (\<lambda>_ w. w),
     sys_spdk_vtophys = (\<lambda>p _. p), sys_rand = (\<lambda>w. (0, w)), sys_getenv = (\<lambda>_ _. None), sys_store = (\<lambda>_ _ w. w),
     sys_ret_async = (\<lambda>_ _ w. w), sys_ret_clear = (\<lambda>_ w. w)\<rparr>"

definition ex_exec_wrap :: "nvm_cmd_wrap \<Rightarrow> ex_spdk_world \<Rightarrow> u64 media" where
  "ex_exec_wrap wrap w = (let opc = cmd_opcode (wrap_cmd wrap) in
     case wrap_lbas ex_sys_any w wrap of None \<Rightarrow> fst w
     | Some lbas \<Rightarrow> if opc = 0x01 \<or> opc = 0x91 then ex_media_write 4096 lbas (wrap_data wrap) (fst w)
         else if opc = 0x02 \<or> opc = 0x92 then ex_media_read 4096 lbas (wrap_data wrap) (fst w) else fst w)"

definition ex_spdk_m :: "ex_spdk_world spdk" where
  "ex_spdk_m = \<lparr>sp_sizeof_state = 512, sp_env_ready = (\<lambda>w. True), sp_set_env_ready = id, sp_env_init = (\<lambda>w. (True, w)),
     sp_trid_parse = ok, sp_probe = (\<lambda>t w. ([ex_ctrlr], w)), sp_ns_get_data = (\<lambda>p w. Some (dev_ns dev_zero)), sp_default_opts = (\<lambda>p w. (64, 128)),
     sp_alloc_io_qpair = (\<lambda>c opts w. (0x20, w)), sp_free_io_qpair = (\<lambda>q w. (True, w)), sp_detach = (\<lambda>c w. w),
     sp_admin_raw = (\<lambda>c cmd l d n w. (True, w)),
     sp_admin_poll = (\<lambda>c w. (Some \<lparr>cpl_cdw0 = 0, cpl_status = \<lparr>st_sc = 0, st_sct = 0, st_m = 0, st_dnr = 0\<rparr>\<rparr>, w)),
     sp_io_raw = (\<lambda>c q cmd wrap w. (True, (ex_exec_wrap wrap w, wrap_self wrap))),
     sp_poll = (\<lambda>q mx w. ((1, [(snd w, \<lparr>cpl_cdw0 = 0, cpl_status = \<lparr>st_sc = 0, st_sct = 0, st_m = 0, st_dnr = 0\<rparr>\<rparr>)]), w)),
     sp_state = (\<lambda>p w. Some ex_state), sp_set_state = (\<lambda>p x w. w), sp_ctx = (\<lambda>p w. None), sp_set_ctx = (\<lambda>p x w. w),
     sp_wrap = (\<lambda>p w. None), sp_set_wrap = (\<lambda>p x w. w), sp_ret_ctx = (\<lambda>p w. 0), sp_set_ret = (\<lambda>p r w. w), sp_sgl_at = (\<lambda>p w. None),
     sp_idfy_at = (\<lambda>p w. dev_idfy dev_zero),
     sp_bbt_at = (\<lambda>p n w. \<lparr>sbbt_tblid = [], sbbt_tblks = 0, sbbt_tfact = 0, sbbt_tgrown = 0, sbbt_tdresv = 0, sbbt_thresv = 0, sbbt_blk = []\<rparr>),
     sp_descr_at = (\<lambda>p w. \<lparr>descr_cs = 1, descr_ct = 2, descr_wli = 0, descr_addr = 0, descr_naddrs = 0, descr_wp = 0\<rparr>)\<rparr>"

lemma ex_sync_wait: "sync_wait ex_spdk_m q p (m, p) = Some (\<lparr>cpl_cdw0 = 0, cpl_status = \<lparr>st_sc = 0, st_sct = 0, st_m = 0, st_dnr = 0\<rparr>\<rparr>, (m, p))"
  by (subst sync_wait.simps) (simp add: ex_spdk_m_def)

lemma ex_exec_laws: "exec_laws ex_sys_any ex_spdk_m 4096 (fst \<circ> fst) (snd \<circ> fst)"
proof -
  have "exec_law ex_sys_any ex_spdk_m 4096 (fst \<circ> fst) (snd \<circ> fst)"
    unfolding exec_law_def executed_def
  proof (intro allI impI conjI)
    fix c q wrap lbas w w1 cpl w2
    assume r: "sp_io_raw ex_spdk_m c q (wrap_cmd wrap) wrap w = (True, w1)" and s: "sync_wait ex_spdk_m q (wrap_self wrap) w1 = Some (cpl, w2)"
      and lb: "wrap_lbas ex_sys_any w wrap = Some lbas" and l: "unat (wrap_data_len wrap) = length lbas * 4096"
    have w1: "w1 = (ex_exec_wrap wrap w, wrap_self wrap)" using r by (simp add: ex_spdk_m_def)
    then have w2: "fst w2 = ex_exec_wrap wrap w" using s ex_sync_wait [of q "wrap_self wrap"] by auto
    have le: "length lbas * 4096 \<le> 2 ^ 64" using l unsigned_less [of "wrap_data_len wrap", where 'a = nat] by simp
    show "stored (fst \<circ> fst) (snd \<circ> fst) 4096 lbas (wrap_data wrap) w w2"
      if "cmd_opcode (wrap_cmd wrap) \<in> {ucast NVM_DOPC_SCALAR_WRITE, ucast NVM_DOPC_VECTOR_WRITE}" "distinct lbas"
    proof -
      have "fst w2 = ex_media_write 4096 lbas (wrap_data wrap) (fst w)" using that(1) w2 lb by (auto simp: ex_exec_wrap_def)
      then show ?thesis by (simp add: stored_def ex_media_write_laws ex_media_written [OF that(2)])
    qed
    show "loaded (fst \<circ> fst) (snd \<circ> fst) 4096 lbas (wrap_data wrap) w w2"
      if "cmd_opcode (wrap_cmd wrap) \<in> {ucast NVM_DOPC_SCALAR_READ, ucast NVM_DOPC_VECTOR_READ}"
    proof -
      have "fst w2 = ex_media_read 4096 lbas (wrap_data wrap) (fst w)" using that(1) w2 lb by (auto simp: ex_exec_wrap_def)
      then show ?thesis by (simp add: loaded_def ex_media_read_laws(1,2) ex_media_read_laws(3) [OF le])
    qed
  qed
  moreover have "dma_law ex_sys_any" by (auto simp: dma_law_def ex_sys_any_def ok_def)
  ultimately show ?thesis by (simp add: exec_laws_def ex_spdk_m_def sys_keeps_def ex_sys_any_def keeps)
qed

lemma ex_any_alloc: "be_known dev \<Longrightarrow> n \<noteq> 0 \<Longrightarrow> \<exists>p w'. nvm_buf_alloc ex_sys_any dev n 0 w = (Inr p, w')"
  by (auto simp: be_known_def nvm_buf_alloc_def nvm_buf_virt_alloc_def ex_sys_any_def Let_def ok_def andThen_def)

lemma ex_spdk_answers: "spdk_answers ex_sys_any ex_spdk_m dev" if "be_known dev"
proof -
  have "\<exists>w1 cpl w2. sp_io_raw ex_spdk_m c q cmd wrap w = (True, w1) \<and> sync_wait ex_spdk_m q (wrap_self wrap) w1 = Some (cpl, w2) \<and> cpl_ok cpl"
    for c q cmd wrap w by (rule exI [of _ "(ex_exec_wrap wrap w, wrap_self wrap)"]) (simp add: ex_sync_wait cpl_ok_def, simp add: ex_spdk_m_def)
  moreover have "sp_state ex_spdk_m p w \<noteq> None" "\<exists>p w'. sys_calloc ex_sys_any 1 sizeof_wrap w = (Inr p, w')" for p and w :: ex_spdk_world
    by (simp_all add: ex_spdk_m_def ex_sys_any_def ok_def)
  ultimately show ?thesis unfolding spdk_answers_def using ex_any_alloc [OF that] by blast
qed

text \<open>A write of two blocks to the sectors 5 and 3 of the first chunk.\<close>

theorem nocd_vector_write_stores_witness:
  "\<exists>dev w'. nvm_be_nocd_vector_write ex_sys_any ex_spdk_m dev [NvmAddr 5, NvmAddr 3] 2 0x10000 0 0x10 0 ((\<lambda>_ _. 0, \<lambda>q. ucast q), 0) = (Inr (), w')
    \<and> (fst \<circ> fst) w' (nvm_addr_gen2dev dev (NvmAddr 3)) 7 = ucast (0x10000 + of_nat 7 :: ptr)"
proof -
  let ?as = "[NvmAddr 5, NvmAddr 3]" and ?w = "((\<lambda>_ _. 0, \<lambda>q. ucast q), 0) :: ex_spdk_world"
  have "case fst ex_nocd of Inl _ \<Rightarrow> False | Inr dev \<Rightarrow> (\<forall>a \<in> set ?as. nvm_addr_check a dev = Inr 0) \<and> l_nbytes (dev_geo dev) = 4096
      \<and> be_known dev \<and> dev_verid dev = 2" by code_simp
  then obtain dev where d: "fst ex_nocd = Inr dev" "\<forall>a \<in> set ?as. nvm_addr_check a dev = Inr 0" "l_nbytes (dev_geo dev) = 4096"
    "be_known dev" "dev_verid dev = 2" by (auto split: sum.splits)
  have e: "nvm_be_populate ex_sys_q (nocd_ops ex_sys_q ex_spdk ex_nocd_mem) (dev_zero\<lparr>dev_ns := ex_ns\<lparr>ns_ncap := 100000\<rparr>\<rparr>) ([], ex_mem)
    = (Inr dev, snd ex_nocd)" using d(1) unfolding ex_nocd_def by (metis prod.collapse)
  have f: "l_nbytes (dev_geo dev) = of_nat 4096" "(4096 :: nat) < 2 ^ 26" "distinct ?as" "?as \<noteq> []" "length ?as \<le> 2 ^ 16"
    "(0x10 :: u16) AND 0x30 \<noteq> 0x20" "(ucast (0x10 :: u16) :: u32) AND NVM_CMD_SGL = 0" "(0x10000 :: ptr) \<noteq> 0" using d(3) by simp_all
  have n: "\<not> nocd_contig ?as" by code_simp
  have "\<exists>w'. each_op (\<lambda>a. nvm_be_spdk_scalar_write ex_sys_any ex_spdk_m dev a 1 0x10000 0 0x10 0) ?as ?w = (Inr (), w')"
    using each_op_succeeds [where P = "\<lambda>_. True"] scalar_write_returns [OF ex_spdk_answers [OF d(4)] d(4,5) f(6,7)] by (metis (mono_tags, lifting))
  then obtain w' where r: "nvm_be_nocd_vector_write ex_sys_any ex_spdk_m dev ?as (int (length ?as)) 0x10000 0 0x10 0 ?w = (Inr (), w')"
    using n by (auto simp: nvm_be_nocd_vector_write_def nocd_vector_rw_def arg_addrs_def)
  have "(fst \<circ> fst) w' (nvm_addr_gen2dev dev (NvmAddr 3)) 7 = (snd \<circ> fst) ?w (0x10000 + of_nat 7)"
    using nocd_vector_write_stores [OF e d(2) ex_exec_laws f r] n by simp
  then show ?thesis using r by (intro exI [of _ dev] exI [of _ w']) simp
qed

end
