(* ===== verification/Nvm_Text.thy ===== *)
theory Nvm_Text
  imports Nvm_Prelude
begin

text \<open>
  Text of the command-line tools: the numbers that \<open>strtoll\<close>, \<open>atoi\<close> and \<open>atol\<close> read and those that
  \<open>printf\<close> prints with the conversions of the sources, on an LP64 target where \<open>long\<close> has 64 bits.
  What is printed in base 10 or 16 is read back, up to the saturation of \<open>strtoll\<close> and the
  conversion of \<open>atoi\<close> to \<open>int\<close>.
\<close>

section \<open>Reading numbers\<close>

definition c_isspace :: "char \<Rightarrow> bool" where
  "c_isspace c \<longleftrightarrow> c = CHR '' '' \<or> (let n = of_char c :: int in 9 \<le> n \<and> n \<le> 13)"

text \<open>The value of a digit; 36 for a character that is none.\<close>

definition digit_val :: "char \<Rightarrow> int" where
  "digit_val c = (let n = of_char c :: int in
     if 48 \<le> n \<and> n \<le> 57 then n - 48 else if 97 \<le> n \<and> n \<le> 122 then n - 87
     else if 65 \<le> n \<and> n \<le> 90 then n - 55 else 36)"

definition digits_val :: "int \<Rightarrow> string \<Rightarrow> int" where
  "digits_val base s = foldl (\<lambda>a c. a * base + digit_val c) 0 (takeWhile (\<lambda>c. digit_val c < base) s)"

text \<open>In base 16 a prefix \<open>0x\<close> is skipped when a digit follows it.\<close>

definition skip_0x :: "int \<Rightarrow> string \<Rightarrow> string" where
  "skip_0x base s = (case s of
       z # x # d # s' \<Rightarrow>
         if base = 16 \<and> z = CHR ''0'' \<and> (x = CHR ''x'' \<or> x = CHR ''X'') \<and> digit_val d < 16 then d # s' else s
     | _ \<Rightarrow> s)"

definition c_strtoll :: "int \<Rightarrow> string \<Rightarrow> int" where
  "c_strtoll base str =
     (let s = dropWhile c_isspace str in
      case s of
        [] \<Rightarrow> 0
      | c # s' \<Rightarrow>
          if c = CHR ''-'' then max (- (2 ^ 63)) (- digits_val base (skip_0x base s'))
          else min (2 ^ 63 - 1) (digits_val base (skip_0x base (if c = CHR ''+'' then s' else s))))"

definition c_atoi :: "string \<Rightarrow> int" where
  "c_atoi s = c_int (c_strtoll 10 s)"

definition c_atol :: "string \<Rightarrow> int" where
  "c_atol s = c_strtoll 10 s"

text \<open>\<open>sscanf\<close> with \<open>%u\<close>; a string without a number leaves the variable, which the caller set to 0.\<close>

definition c_scan_u32 :: "string \<Rightarrow> u32" where
  "c_scan_u32 str =
     (case dropWhile c_isspace str of
        [] \<Rightarrow> 0
      | c # s \<Rightarrow>
          let n = min (2 ^ 64 - 1) (digits_val 10 (if c = CHR ''-'' \<or> c = CHR ''+'' then s else c # s)) in
          word_of_int (if c = CHR ''-'' then - n else n))"

section \<open>Printing numbers\<close>

definition digit_char :: "int \<Rightarrow> char" where
  "digit_char d = char_of (if d < 10 then 48 + d else 87 + d)"

function digits_of :: "int \<Rightarrow> int \<Rightarrow> string" where
  "digits_of base n = (if n < base \<or> base < 2 then [digit_char n] else digits_of base (n div base) @ [digit_char (n mod base)])"
  by pat_completeness auto

termination
proof (relation "measure (\<lambda>(base, n). nat n)")
  fix base n :: int
  assume "\<not> (n < base \<or> base < 2)"
  then have "n div base < n" "0 < n" by (simp_all add: int_div_less_self)
  then show "((base, n div base), base, n) \<in> measure (\<lambda>(base, n). nat n)" by simp
qed simp

declare digits_of.simps [simp del]

text \<open>The width of a conversion, filled with zeros on the left, or with blanks.\<close>

definition pad0 :: "nat \<Rightarrow> string \<Rightarrow> string" where
  "pad0 k s = replicate (k - length s) CHR ''0'' @ s"

definition pad_blank :: "nat \<Rightarrow> string \<Rightarrow> string" where
  "pad_blank k s = replicate (k - length s) CHR '' '' @ s"

text \<open>\<open>0x%016lx\<close>, \<open>%0<k>lu\<close> and \<open>%0<k>d\<close> of a number that is not negative.\<close>

definition pr_hex64 :: "u64 \<Rightarrow> string" where
  "pr_hex64 x = ''0x'' @ pad0 16 (digits_of 16 (uint x))"

definition pr_dec :: "nat \<Rightarrow> int \<Rightarrow> string" where
  "pr_dec k n = pad0 k (digits_of 10 n)"

definition newline :: string where
  "newline = [CHR 0x0A]"

section \<open>What is printed is read back\<close>

lemma digit_val_char: "0 \<le> d \<Longrightarrow> d < 36 \<Longrightarrow> digit_val (digit_char d) = d"
  by (auto simp: digit_val_def digit_char_def Let_def)

lemma digit_char_not_sign:
  assumes "0 \<le> d" "d < 36" shows "digit_char d \<noteq> CHR ''-''" "digit_char d \<noteq> CHR ''+''" "\<not> c_isspace (digit_char d)"
proof -
  have "of_char (digit_char d) = (if d < 10 then 48 + d else 87 + d)" using assms by (simp add: digit_char_def)
  then have n: "(48 :: int) \<le> of_char (digit_char d)" using assms by simp
  show "digit_char d \<noteq> CHR ''-''" "digit_char d \<noteq> CHR ''+''" using n by (auto simp del: of_char_of)
  show "\<not> c_isspace (digit_char d)" using n by (auto simp: c_isspace_def Let_def)
qed

lemma digits_of_digits:
  "c \<in> set (digits_of base n) \<Longrightarrow> 2 \<le> base \<Longrightarrow> 0 \<le> n \<Longrightarrow> \<exists>d \<in> {0..<base}. c = digit_char d"
proof (induction base n rule: digits_of.induct)
  case (1 base n)
  have m: "n mod base \<in> {0..<base}" "0 \<le> n div base" using "1.prems"(2,3) by (simp_all add: pos_imp_zdiv_nonneg_iff)
  show ?case
  proof (cases "n < base")
    case True
    then show ?thesis using "1.prems" by (auto simp: digits_of.simps [of base n])
  next
    case False
    then have "c \<in> set (digits_of base (n div base)) \<or> c = digit_char (n mod base)" 
      using "1.prems" by (auto simp: digits_of.simps [of base n])
    then show ?thesis using "1.IH" [OF _ _ "1.prems"(2) m(2)] m(1) False "1.prems"(2) by auto
  qed
qed

lemma foldl_digits:
  "2 \<le> base \<Longrightarrow> base \<le> 36 \<Longrightarrow> 0 \<le> n \<Longrightarrow> foldl (\<lambda>a c. a * base + digit_val c) 0 (digits_of base n) = n"
proof (induction base n rule: digits_of.induct)
  case (1 base n)
  have m: "0 \<le> n mod base" "n mod base < base" "0 \<le> n div base" using "1.prems" by (simp_all add: pos_imp_zdiv_nonneg_iff)
  show ?case
  proof (cases "n < base")
    case True
    then show ?thesis using "1.prems" by (simp add: digits_of.simps [of base n] digit_val_char)
  next
    case False
    then have "foldl (\<lambda>a c. a * base + digit_val c) 0 (digits_of base (n div base)) = n div base"
      using "1.IH" [OF _ "1.prems"(1,2) m(3)] "1.prems"(1) by simp
    moreover have "digit_val (digit_char (n mod base)) = n mod base" using m "1.prems"(2) by (intro digit_val_char) linarith+
    ultimately show ?thesis using False "1.prems" by (simp add: digits_of.simps [of base n])
  qed
qed

lemma foldl_zeros: "foldl (\<lambda>a c. a * base + digit_val c) 0 (replicate k CHR ''0'' @ s) = foldl (\<lambda>a c. a * base + digit_val c) 0 s"
  by (induction k) (simp_all add: digit_val_def)

lemma pad0_digits:
  assumes "c \<in> set (pad0 k (digits_of base n))" "2 \<le> base" "0 \<le> n" shows "\<exists>d \<in> {0..<base}. c = digit_char d"
proof (cases "c \<in> set (digits_of base n)")
  case False
  then have "c = CHR ''0''" using assms(1) by (auto simp: pad0_def)
  then have "c = digit_char 0" by (simp add: digit_char_def char_of_def bit_0)
  then show ?thesis using assms(2) by auto
qed (rule digits_of_digits [OF _ assms(2,3)])

lemma digits_val_pad0:
  assumes "2 \<le> base" "base \<le> 36" "0 \<le> n" shows "digits_val base (pad0 k (digits_of base n)) = n"
proof -
  have "digit_val c < base" if "c \<in> set (pad0 k (digits_of base n))" for c
    using pad0_digits [OF that assms(1,3)] assms(2) by (auto simp: digit_val_char)
  then have "takeWhile (\<lambda>c. digit_val c < base) (pad0 k (digits_of base n)) = pad0 k (digits_of base n)"
    by (simp add: takeWhile_eq_all_conv)
  then show ?thesis by (simp only: digits_val_def) (simp only: pad0_def foldl_zeros foldl_digits [OF assms])
qed

lemma digits_of_nonempty [simp]: "digits_of base n \<noteq> []" "pad0 k (digits_of base n) \<noteq> []"
  by (subst digits_of.simps, simp, simp add: pad0_def) (subst digits_of.simps, simp)

text \<open>The first character of a printed number is a digit.\<close>

lemma pad0_head:
  assumes "2 \<le> base" "0 \<le> n"
  obtains d s where "pad0 k (digits_of base n) = digit_char d # s" "0 \<le> d" "d < base"
proof (cases "pad0 k (digits_of base n)")
  case (Cons c s)
  then show ?thesis using pad0_digits [OF _ assms, of c k] that by auto
qed simp

lemma strtoll_pr_dec: "0 \<le> n \<Longrightarrow> c_strtoll 10 (pr_dec k n) = min (2 ^ 63 - 1) n"
proof -
  assume n: "0 \<le> n"
  obtain d s where d: "pad0 k (digits_of 10 n) = digit_char d # s" "0 \<le> d" "d < 10" by (rule pad0_head [of 10, OF _ n]) auto
  have "skip_0x 10 t = t" for t by (simp add: skip_0x_def split: list.splits)
  moreover have "digits_val 10 (digit_char d # s) = n" using digits_val_pad0 [of 10 n k] d(1) n by simp
  ultimately show ?thesis
    using d digit_char_not_sign [of d] by (simp add: c_strtoll_def pr_dec_def)
qed

lemma strtoll_pr_hex64: "c_strtoll 16 (pr_hex64 x) = min (2 ^ 63 - 1) (uint x)"
proof -
  obtain d s where d: "pad0 16 (digits_of 16 (uint x)) = digit_char d # s" "0 \<le> d" "d < 16" by (rule pad0_head [of 16 "uint x"]) auto
  have "digits_val 16 (digit_char d # s) = uint x" using digits_val_pad0 [of 16 "uint x" 16] d(1) by simp
  then show ?thesis
    using d by (simp add: c_strtoll_def pr_hex64_def skip_0x_def digit_val_char c_isspace_def)
qed

lemma atoi_pr_dec: "0 \<le> n \<Longrightarrow> n < 2 ^ 31 \<Longrightarrow> c_atoi (pr_dec k n) = n"
  by (simp add: c_atoi_def strtoll_pr_dec)

lemma pr_hex64_head: "\<exists>s. pr_hex64 x = CHR ''0'' # CHR ''x'' # s"
  by (simp add: pr_hex64_def)

lemma atoi_range: "c_atoi s \<in> {- (2 ^ 31)..<2 ^ 31}"
  using signed_take_bit_int_less_exp [of 31] signed_take_bit_int_greater_eq_minus_exp [of 31] by (auto simp: c_atoi_def c_int_def)

end
