(* ===== verification/Nvm_Print.thy ===== *)
theory Nvm_Print
  imports Nvm_Text Nvm_Types
begin

text \<open>
  What the library prints of addresses, bounds and devices: \<open>src/nvm_addr.c\<close>, \<open>src/nvm_bounds.c\<close>, \<open>src/nvm_geo.c\<close>,
  and the functions of \<open>src/nvm_dev.c\<close> and \<open>src/nvm_spec.c\<close> that \<open>nvm_dev_pr\<close> calls. Each is the text written
  to standard output.
\<close>

section \<open>Formats\<close>

definition line :: "string \<Rightarrow> string" where
  "line s = s @ newline"

text \<open>\<open>%0<k>d\<close>, where a sign counts as a character.\<close>

definition pr_int :: "nat \<Rightarrow> int \<Rightarrow> string" where
  "pr_int k i = (if i < 0 then CHR ''-'' # pad0 (k - 1) (digits_of 10 (- i)) else pr_dec k i)"

definition pr_word :: "nat \<Rightarrow> 'a::len word \<Rightarrow> string" where
  "pr_word k x = pr_dec k (uint x)"

definition hex_upper :: "char \<Rightarrow> char" where
  "hex_upper c = (if c \<in> set ''abcdef'' then char_of (of_char c - (32 :: int)) else c)"

text \<open>The macros \<open>NVM_I8_TO_STR\<close> to \<open>NVM_I64_TO_STR\<close>: the bits, highest first.\<close>

definition NVM_I_TO_STR :: "nat \<Rightarrow> 'a::len word \<Rightarrow> string" where
  "NVM_I_TO_STR n x = map (\<lambda>i. if bit x i then CHR ''1'' else CHR ''0'') (rev [0..<n])"

definition quoted :: "string \<Rightarrow> string" where
  "quoted s = [CHR 0x27] @ s @ [CHR 0x27]"

section \<open>Addresses\<close>

definition nvm_addr_pr :: "nvm_addr \<Rightarrow> string" where
  "nvm_addr_pr addr = pr_hex64 (val addr)"

text \<open>The conversion is \<open>%d\<close>: the sector of 32 bits is read as an \<open>int\<close>.\<close>

definition nvm_addr_pr_s12 :: "nvm_addr \<Rightarrow> string" where
  "nvm_addr_pr_s12 addr = ''{'' @ ''val: '' @ pr_hex64 (val addr) @ '', '' @ ''ch: '' @ pr_word 2 (g_ch addr) @ '', ''
     @ ''lun: '' @ pr_word 2 (g_lun addr) @ '', '' @ ''blk: '' @ pr_word 4 (g_blk addr) @ '', '' @ ''pl: '' @ pr_word 0 (g_pl addr) @ '', ''
     @ ''pg: '' @ pr_word 3 (g_pg addr) @ '', '' @ ''sec: '' @ pr_word 0 (g_sec addr) @ line ''}''"

definition nvm_addr_pr_s20 :: "nvm_addr \<Rightarrow> string" where
  "nvm_addr_pr_s20 addr = ''{'' @ ''val: '' @ pr_hex64 (val addr) @ '', '' @ ''pugrp: '' @ pr_word 2 (l_pugrp addr) @ '', ''
     @ ''punit: '' @ pr_word 2 (l_punit addr) @ '', '' @ ''chunk: '' @ pr_word 4 (l_chunk addr) @ '', ''
     @ ''sectr: '' @ pr_int 4 (c_int (uint (l_sectr addr))) @ line ''}''"

definition nvm_addr_prn :: "nvm_addr list \<Rightarrow> int \<Rightarrow> nvm_dev \<Rightarrow> string res" where
  "nvm_addr_prn addrs naddrs dev =
     (let n = unat (word_of_int naddrs :: u32) in
      if length addrs < n then Inl (Fault OutOfBounds)
      else Inr (line (''naddrs: '' @ pr_int 0 naddrs) @ line ''addrs:''
        @ concat (map (\<lambda>a. ''  - '' @ (if dev_verid dev = NVM_SPEC_VERID_12 then nvm_addr_pr_s12 a
            else if dev_verid dev = NVM_SPEC_VERID_20 then nvm_addr_pr_s20 a else line ''UNSUPPORTED_VERID'')) (take n addrs))))"

section \<open>Bounds\<close>

definition nvm_bounds_pr :: "u32 \<Rightarrow> string" where
  "nvm_bounds_pr msk =
     (if msk = 0 then line ''bounds: ~''
      else line ''bounds:''
        @ (if msk AND NVM_BOUNDS_CHANNEL \<noteq> 0 then line ''- channel'' else [])
        @ (if msk AND NVM_BOUNDS_LUN \<noteq> 0 then line ''- lun'' else [])
        @ (if msk AND NVM_BOUNDS_PLANE \<noteq> 0 then line ''- plane'' else [])
        @ (if msk AND NVM_BOUNDS_BLOCK \<noteq> 0 then line ''- block'' else [])
        @ (if msk AND NVM_BOUNDS_PAGE \<noteq> 0 then line ''- page'' else [])
        @ (if msk AND NVM_BOUNDS_SECTOR \<noteq> 0 then line ''- sector'' else [])
        @ (if msk AND NVM_BOUNDS_PUGRP \<noteq> 0 then line ''- pugrp'' else [])
        @ (if msk AND NVM_BOUNDS_PUNIT \<noteq> 0 then line ''- punit'' else [])
        @ (if msk AND NVM_BOUNDS_CHUNK \<noteq> 0 then line ''- chunk'' else [])
        @ (if msk AND NVM_BOUNDS_SECTR \<noteq> 0 then line ''- sectr'' else []))"

section \<open>Devices\<close>

definition nvm_geo_pr :: "nvm_geo \<Rightarrow> string" where
  "nvm_geo_pr geo = line ''geo:'' @ line (''  verid: 0x'' @ map hex_upper (pad0 2 (digits_of 16 (uint (word_of_int (geo_verid geo) :: u32)))))
     @ (if geo_verid geo = NVM_SPEC_VERID_12 then
          line (''  nchannels: '' @ pr_word 0 (nchannels geo)) @ line (''  nluns: '' @ pr_word 0 (nluns geo))
          @ line (''  nplanes: '' @ pr_word 0 (nplanes geo)) @ line (''  nblocks: '' @ pr_word 0 (nblocks geo))
          @ line (''  npages: '' @ pr_word 0 (npages geo)) @ line (''  nsectors: '' @ pr_word 0 (nsectors geo))
          @ line (''  page_nbytes: '' @ pr_word 0 (page_nbytes geo)) @ line (''  sector_nbytes: '' @ pr_word 0 (sector_nbytes geo))
          @ line (''  meta_nbytes: '' @ pr_word 0 (meta_nbytes geo))
        else if geo_verid geo = NVM_SPEC_VERID_20 then
          line (''  npugrp: '' @ pr_word 0 (l_npugrp geo)) @ line (''  npunit: '' @ pr_word 0 (l_npunit geo))
          @ line (''  nchunk: '' @ pr_word 0 (l_nchunk geo)) @ line (''  nsectr: '' @ pr_word 0 (l_nsectr geo))
          @ line (''  nbytes: '' @ pr_word 0 (l_nbytes geo)) @ line (''  nbytes_oob: '' @ pr_word 0 (l_nbytes_oob geo))
        else [])
     @ line (''  tbytes: '' @ pr_word 0 (tbytes geo)) @ line (''  tmbytes: '' @ pr_word 0 (drop_bit 20 (tbytes geo)))"

definition nvm_spec_ppaf_nand_pr :: "nvm_spec_ppaf_nand option \<Rightarrow> string" where
  "nvm_spec_ppaf_nand_pr ppaf = ''ppaf:'' @ (case ppaf of None \<Rightarrow> line '' ~'' | Some n \<Rightarrow> newline
     @ line (''  ch_off: '' @ pr_word 2 (ch_off n)) @ line (''  ch_len: '' @ pr_word 2 (ch_len n))
     @ line (''  lun_off: '' @ pr_word 2 (lun_off n)) @ line (''  lun_len: '' @ pr_word 2 (lun_len n))
     @ line (''  pl_off: '' @ pr_word 2 (pl_off n)) @ line (''  pl_len: '' @ pr_word 2 (pl_len n))
     @ line (''  blk_off: '' @ pr_word 2 (blk_off n)) @ line (''  blk_len: '' @ pr_word 2 (blk_len n))
     @ line (''  pg_off: '' @ pr_word 2 (pg_off n)) @ line (''  pg_len: '' @ pr_word 2 (pg_len n))
     @ line (''  sec_off: '' @ pr_word 2 (sec_off n)) @ line (''  sec_len: '' @ pr_word 2 (sec_len n)))"

definition nvm_spec_ppaf_nand_mask_pr :: "nvm_spec_ppaf_nand_mask option \<Rightarrow> string" where
  "nvm_spec_ppaf_nand_mask_pr msk = ''ppaf_mask:'' @ (case msk of None \<Rightarrow> line '' ~'' | Some n \<Rightarrow> newline
     @ line (''  ch:  '' @ quoted (NVM_I_TO_STR 64 (m_ch n))) @ line (''  lun: '' @ quoted (NVM_I_TO_STR 64 (m_lun n)))
     @ line (''  pl:  '' @ quoted (NVM_I_TO_STR 64 (m_pl n))) @ line (''  blk: '' @ quoted (NVM_I_TO_STR 64 (m_blk n)))
     @ line (''  pg:  '' @ quoted (NVM_I_TO_STR 64 (m_pg n))) @ line (''  sec: '' @ quoted (NVM_I_TO_STR 64 (m_sec n))))"

definition nvm_spec_lbaf_pr :: "nvm_spec_lbaf option \<Rightarrow> string" where
  "nvm_spec_lbaf_pr lbaf = ''lbaf:'' @ (case lbaf of None \<Rightarrow> line '' ~'' | Some l \<Rightarrow> newline
     @ line (''  pugrp: '' @ pr_word 0 (lbaf_pugrp l)) @ line (''  punit: '' @ pr_word 0 (lbaf_punit l))
     @ line (''  chunk: '' @ pr_word 0 (lbaf_chunk l)) @ line (''  sectr: '' @ pr_word 0 (lbaf_sectr l)))"

definition nvm_spec_lbaz_pr :: "nvm_spec_lbaz option \<Rightarrow> string" where
  "nvm_spec_lbaz_pr lbaz = ''lbaz:'' @ (case lbaz of None \<Rightarrow> line '' ~'' | Some l \<Rightarrow> newline
     @ line (''  pugrp: '' @ pr_word 0 (lbaz_pugrp l)) @ line (''  punit: '' @ pr_word 0 (lbaz_punit l))
     @ line (''  chunk: '' @ pr_word 0 (lbaz_chunk l)) @ line (''  sectr: '' @ pr_word 0 (lbaz_sectr l)))"

definition nvm_spec_lbam_pr :: "nvm_spec_lbam option \<Rightarrow> string" where
  "nvm_spec_lbam_pr lbam = ''lbam:'' @ (case lbam of None \<Rightarrow> line '' ~'' | Some l \<Rightarrow> newline
     @ line (''  pugrp:  '' @ quoted (NVM_I_TO_STR 64 (lbam_pugrp l))) @ line (''  punit:  '' @ quoted (NVM_I_TO_STR 64 (lbam_punit l)))
     @ line (''  chunk:  '' @ quoted (NVM_I_TO_STR 64 (lbam_chunk l))) @ line (''  sectr:  '' @ quoted (NVM_I_TO_STR 64 (lbam_sectr l))))"

definition nvm_pmode_str :: "int \<Rightarrow> string" where
  "nvm_pmode_str pmode = (if pmode = NVM_FLAG_PMODE_SNGL then ''SNGL'' else if pmode = NVM_FLAG_PMODE_DUAL then ''DUAL''
     else if pmode = NVM_FLAG_PMODE_QUAD then ''QUAD'' else ''UNKN'')"

definition nvm_dev_vblk_opts_pr :: "nvm_dev \<Rightarrow> string" where
  "nvm_dev_vblk_opts_pr dev = line ''vblk_opts:'' @ line (''  pmode: '' @ quoted (nvm_pmode_str (dev_pmode dev)))
     @ line (''  erase_naddrs_max: '' @ pr_int 0 (dev_erase_naddrs_max dev)) @ line (''  read_naddrs_max: '' @ pr_int 0 (dev_read_naddrs_max dev))
     @ line (''  write_naddrs_max: '' @ pr_int 0 (dev_write_naddrs_max dev)) @ line (''  meta_mode: '' @ pr_int 0 (dev_meta_mode dev))"

definition nvm_dev_cmd_opts_pr :: "nvm_dev \<Rightarrow> string" where
  "nvm_dev_cmd_opts_pr dev = line ''cmd_opts:'' @ line (''  mask: '' @ quoted (NVM_I_TO_STR 32 (dev_cmd_opts dev)))
     @ line (''  iomd: '' @ quoted (if dev_cmd_opts dev AND NVM_CMD_SYNC \<noteq> 0 then ''SYNC'' else ''ASYNC''))
     @ line (''  addr: '' @ quoted (if dev_cmd_opts dev AND NVM_CMD_SCALAR \<noteq> 0 then ''SCALAR'' else ''VECTOR''))
     @ line (''  plod: '' @ quoted (if dev_cmd_opts dev AND NVM_CMD_PRP \<noteq> 0 then ''PRP'' else ''SGL''))"

text \<open>The identifier and the name are those of the backend.\<close>

definition nvm_dev_attr_pr :: "u32 \<Rightarrow> string \<Rightarrow> nvm_dev \<Rightarrow> string" where
  "nvm_dev_attr_pr be_id be_name dev = line ''attr:'' @ line (''  verid: 0x'' @ pad0 2 (digits_of 16 (uint (dev_verid dev))))
     @ line (''  be_id: 0x'' @ pad0 2 (digits_of 16 (uint be_id))) @ line (''  be_name: '' @ quoted be_name)
     @ line (''  name: '' @ quoted (dev_name dev)) @ line (''  path: '' @ quoted (dev_path dev))
     @ line (''  fd: '' @ pr_int 0 (dev_fd dev)) @ line (''  ssw: '' @ pr_word 0 (dev_ssw dev))
     @ line (''  mccap: '' @ quoted (NVM_I_TO_STR 32 (dev_mccap dev)))
     @ line (''  bbts_cached: '' @ pr_int 0 (dev_bbts_cached dev)) @ line (''  quirks: '' @ quoted (NVM_I_TO_STR 8 (dev_quirks dev)))"

definition nvm_dev_pr :: "u32 \<Rightarrow> string \<Rightarrow> nvm_dev \<Rightarrow> string" where
  "nvm_dev_pr be_id be_name dev =
     ''dev_'' @ nvm_dev_attr_pr be_id be_name dev @ ''dev_'' @ nvm_geo_pr (dev_geo dev)
     @ ''dev_'' @ nvm_dev_cmd_opts_pr dev @ ''dev_'' @ nvm_dev_vblk_opts_pr dev
     @ (if dev_verid dev = NVM_SPEC_VERID_12 then
          ''dev_'' @ nvm_spec_ppaf_nand_pr (Some (dev_ppaf dev)) @ ''dev_'' @ nvm_spec_ppaf_nand_mask_pr (Some (dev_mask dev))
          @ ''dev_'' @ nvm_spec_lbaf_pr None @ ''dev_'' @ nvm_spec_lbaz_pr None @ ''dev_'' @ nvm_spec_lbam_pr None
        else if dev_verid dev = NVM_SPEC_VERID_20 then
          ''dev_'' @ nvm_spec_ppaf_nand_pr None @ ''dev_'' @ nvm_spec_ppaf_nand_mask_pr None
          @ ''dev_'' @ nvm_spec_lbaf_pr (Some (dev_lbaf dev)) @ ''dev_'' @ nvm_spec_lbaz_pr (Some (dev_lbaz dev))
          @ ''dev_'' @ nvm_spec_lbam_pr (Some (dev_lbam dev))
        else [])"

end
