(* ===== verification/Nvm_Cli.thy ===== *)
theory Nvm_Cli
  imports Nvm_Print Nvm_Bbt
begin

text \<open>
  The command-line interface, \<open>src/nvm_cli.c\<close> and \<open>include/liblightnvm_cli.h\<close>: positional arguments, options,
  environment variables, files passed to commands, the usage text, and the life of a tool from
  \<open>nvm_cli_init\<close> to \<open>nvm_cli_destroy\<close>.

  A command of a tool is named by a value of the type \<open>'f\<close> in place of a function pointer; \<open>nvm_cli_run\<close> takes
  what the names stand for. \<open>argv\<close> is a list of strings and \<open>argc\<close> its length. The state of a tool is its
  \<open>struct nvm_cli\<close>, the world of the library and the text written to standard output; what is written to
  standard error is not kept. Members \<open>a_*\<close>, \<open>o_*\<close>, \<open>pf_*\<close>, \<open>ev_*\<close> are those of the arguments, the options, the
  files and the environment variables; \<open>geo\<close> is the geometry of the device.
\<close>

section \<open>Data\<close>

datatype nvm_cli_cmd_arg_type =
    NVM_CLI_ARG_NONE | NVM_CLI_ARG_DEV_PATH
  | NVM_CLI_ARG_DECVAL | NVM_CLI_ARG_DECVAL_LIST | NVM_CLI_ARG_DECVAL_BEGIN_END
  | NVM_CLI_ARG_HEXVAL | NVM_CLI_ARG_HEXVAL_LIST
  | NVM_CLI_ARG_ADDR | NVM_CLI_ARG_ADDR_LIST | NVM_CLI_ARG_ADDR_SRC_DST
  | NVM_CLI_ARG_ADDR_LUN | NVM_CLI_ARG_ADDR_BLK | NVM_CLI_ARG_ADDR_PG | NVM_CLI_ARG_ADDR_SEC
  | NVM_CLI_ARG_ADDR_LUN_HEXVAL | NVM_CLI_ARG_ADDR_BLK_HEXVAL
  | NVM_CLI_ARG_ADDR_CHK_HEXVAL | NVM_CLI_ARG_ADDR_CHK_VAL_HEXVAL
  | NVM_CLI_ARG_VCOPY | NVM_CLI_ARG_VCOPY_S20 | NVM_CLI_ARG_ADDR_S12 | NVM_CLI_ARG_ADDR_S20
  | NVM_CLI_ARG_VBLK_LINE | NVM_CLI_ARG_VBLK_LINE_POS
  | NVM_CLI_ARG_REGISTER | NVM_CLI_ARG_REGISTER_VALUE | NVM_CLI_ARG_COUNT_OFFSET

abbreviation (input) NVM_CLI_OPT_HELP :: u32 where "NVM_CLI_OPT_HELP \<equiv> 1"
abbreviation (input) NVM_CLI_OPT_BRIEF :: u32 where "NVM_CLI_OPT_BRIEF \<equiv> 2"
abbreviation (input) NVM_CLI_OPT_VERBOSE :: u32 where "NVM_CLI_OPT_VERBOSE \<equiv> 4"
abbreviation (input) NVM_CLI_OPT_STATUS :: u32 where "NVM_CLI_OPT_STATUS \<equiv> 8"
abbreviation (input) NVM_CLI_OPT_FILE_CMD :: u32 where "NVM_CLI_OPT_FILE_CMD \<equiv> 0x10"
abbreviation (input) NVM_CLI_OPT_FILE_DATA :: u32 where "NVM_CLI_OPT_FILE_DATA \<equiv> 0x20"
abbreviation (input) NVM_CLI_OPT_FILE_META :: u32 where "NVM_CLI_OPT_FILE_META \<equiv> 0x40"
abbreviation (input) NVM_CLI_OPT_FILE_INPUT :: u32 where "NVM_CLI_OPT_FILE_INPUT \<equiv> 0x80"
abbreviation (input) NVM_CLI_OPT_FILE_OUTPUT :: u32 where "NVM_CLI_OPT_FILE_OUTPUT \<equiv> 0x100"
abbreviation (input) NVM_CLI_OPT_VAL_DEC :: u32 where "NVM_CLI_OPT_VAL_DEC \<equiv> 0x200"
abbreviation (input) NVM_CLI_OPT_VAL_HEX :: u32 where "NVM_CLI_OPT_VAL_HEX \<equiv> 0x400"
abbreviation (input) NVM_CLI_OPT_TERSE :: u32 where "NVM_CLI_OPT_TERSE \<equiv> 0x800"
abbreviation (input) NVM_CLI_OPT_DEFAULT :: u32 where "NVM_CLI_OPT_DEFAULT \<equiv> 5"

abbreviation (input) NVM_DEV_PATH_LEN :: nat where "NVM_DEV_PATH_LEN \<equiv> 37"
abbreviation (input) NVM_CLI_CMD_LEN :: nat where "NVM_CLI_CMD_LEN \<equiv> 50"
abbreviation (input) NVM_CLI_VALS :: nat where "NVM_CLI_VALS \<equiv> 1024"

record nvm_cli_evars =
  ev_pmode :: int
  ev_meta_mode :: int
  ev_noverify :: int
  ev_erase_naddrs_max :: int
  ev_read_naddrs_max :: int
  ev_write_naddrs_max :: int
  ev_meta_pr :: int
  ev_cmd_opts :: int

record nvm_cli_cmd_args =
  a_dev_path :: string
  a_dev :: "nvm_dev option"
  a_addrs :: "nvm_addr list"
  a_naddrs :: int
  a_dec_vals :: "u64 list"
  a_ndec_vals :: int
  a_hex_vals :: "u64 list"
  a_nhex_vals :: int

text \<open>Entry 0 is the command, 1 the metadata, 2 the data.\<close>

record nvm_cli_opts_pfile =
  pf_bufs :: "ptr list"
  pf_phys :: "u64 list"
  pf_dups :: "ptr list"
  pf_paths :: "string list"
  pf_nbytes :: "u64 list"

record nvm_cli_opts =
  o_mask :: u32
  o_help :: int
  o_brief :: int
  o_verbose :: int
  o_terse :: int
  o_status :: int
  o_pfile :: nvm_cli_opts_pfile
  o_file_input :: "string option"
  o_file_output :: "string option"
  o_dec_val :: u64
  o_hex_val :: u64

record 'f nvm_cli_cmd =
  cc_name :: string
  cc_func :: 'f
  cc_arg_type :: nvm_cli_cmd_arg_type
  cc_opt_types :: u32

record 'f nvm_cli =
  cli_title :: "string option"
  cli_descr_short :: "string option"
  cli_descr_long :: "string option"
  cli_cmds :: "'f nvm_cli_cmd list"
  cli_name :: string
  cli_cmd :: "'f nvm_cli_cmd option"
  cli_args :: nvm_cli_cmd_args
  cli_opts :: nvm_cli_opts
  cli_evars :: nvm_cli_evars
  cli_version :: string

text \<open>The static structures of the tools start with zeros.\<close>

definition args_zero :: nvm_cli_cmd_args where
  "args_zero = \<lparr>a_dev_path = [], a_dev = None, a_addrs = replicate NVM_CLI_VALS (NvmAddr 0), a_naddrs = 0,
     a_dec_vals = replicate NVM_CLI_VALS 0, a_ndec_vals = 0, a_hex_vals = replicate NVM_CLI_VALS 0, a_nhex_vals = 0\<rparr>"

definition pfile_zero :: nvm_cli_opts_pfile where
  "pfile_zero = \<lparr>pf_bufs = [0, 0, 0], pf_phys = [0, 0, 0], pf_dups = [0, 0, 0], pf_paths = [[], [], []], pf_nbytes = [0, 0, 0]\<rparr>"

definition opts_zero :: nvm_cli_opts where
  "opts_zero = \<lparr>o_mask = 0, o_help = 0, o_brief = 0, o_verbose = 0, o_terse = 0, o_status = 0, o_pfile = pfile_zero,
     o_file_input = None, o_file_output = None, o_dec_val = 0, o_hex_val = 0\<rparr>"

definition evars_zero :: nvm_cli_evars where
  "evars_zero = \<lparr>ev_pmode = 0, ev_meta_mode = 0, ev_noverify = 0, ev_erase_naddrs_max = 0, ev_read_naddrs_max = 0,
     ev_write_naddrs_max = 0, ev_meta_pr = 0, ev_cmd_opts = 0\<rparr>"

definition cli_static :: "string \<Rightarrow> string \<Rightarrow> 'f nvm_cli_cmd list \<Rightarrow> string \<Rightarrow> 'f nvm_cli" where
  "cli_static title descr cmds version = \<lparr>cli_title = Some title, cli_descr_short = Some descr, cli_descr_long = None, cli_cmds = cmds,
     cli_name = [], cli_cmd = None, cli_args = args_zero, cli_opts = opts_zero, cli_evars = evars_zero, cli_version = version\<rparr>"

section \<open>Positional arguments\<close>

text \<open>A parser returns how many arguments it took, and the arguments it filled in.\<close>

type_synonym arg_parser = "string list \<Rightarrow> nvm_cli_cmd_args \<Rightarrow> (nat \<times> nvm_cli_cmd_args) res"

definition arg_int :: "string \<Rightarrow> u64" where
  "arg_int s = word_of_int (c_atoi s)"

definition arg_hex :: "string \<Rightarrow> u64" where
  "arg_hex s = word_of_int (c_strtoll 16 s)"

text \<open>The common frame: enough arguments, or \<open>EINVAL\<close>.\<close>

definition taking :: "nat \<Rightarrow> string list \<Rightarrow> nvm_cli_cmd_args res \<Rightarrow> (nat \<times> nvm_cli_cmd_args) res" where
  "taking inc argv r = (if length argv < inc then Inl (Errno EINVAL) else map_sum id (Pair inc) r)"

definition put_addr :: "nat \<Rightarrow> nvm_addr \<Rightarrow> nvm_cli_cmd_args \<Rightarrow> nvm_cli_cmd_args" where
  "put_addr i a args = args\<lparr>a_addrs := (a_addrs args)[i := a]\<rparr>"

definition put_dec :: "nat \<Rightarrow> u64 \<Rightarrow> nvm_cli_cmd_args \<Rightarrow> nvm_cli_cmd_args" where
  "put_dec i x args = args\<lparr>a_dec_vals := (a_dec_vals args)[i := x]\<rparr>"

definition put_hex :: "nat \<Rightarrow> u64 \<Rightarrow> nvm_cli_cmd_args \<Rightarrow> nvm_cli_cmd_args" where
  "put_hex i x args = args\<lparr>a_hex_vals := (a_hex_vals args)[i := x]\<rparr>"

text \<open>\<open>vals[n++] = x\<close> for an array of 1024.\<close>

definition push_addr :: "nvm_addr \<Rightarrow> nvm_cli_cmd_args \<Rightarrow> nvm_cli_cmd_args res" where
  "push_addr a args = (if 0 \<le> a_naddrs args \<and> nat (a_naddrs args) < NVM_CLI_VALS
     then Inr ((put_addr (nat (a_naddrs args)) a args)\<lparr>a_naddrs := a_naddrs args + 1\<rparr>) else Inl (Fault OutOfBounds))"

definition push_dec :: "u64 \<Rightarrow> nvm_cli_cmd_args \<Rightarrow> nvm_cli_cmd_args res" where
  "push_dec x args = (if 0 \<le> a_ndec_vals args \<and> nat (a_ndec_vals args) < NVM_CLI_VALS
     then Inr ((put_dec (nat (a_ndec_vals args)) x args)\<lparr>a_ndec_vals := a_ndec_vals args + 1\<rparr>) else Inl (Fault OutOfBounds))"

definition push_hex :: "u64 \<Rightarrow> nvm_cli_cmd_args \<Rightarrow> nvm_cli_cmd_args res" where
  "push_hex x args = (if 0 \<le> a_nhex_vals args \<and> nat (a_nhex_vals args) < NVM_CLI_VALS
     then Inr ((put_hex (nat (a_nhex_vals args)) x args)\<lparr>a_nhex_vals := a_nhex_vals args + 1\<rparr>) else Inl (Fault OutOfBounds))"

definition res_then :: "'a res \<Rightarrow> ('a \<Rightarrow> 'b res) \<Rightarrow> 'b res" where
  "res_then r f = (case r of Inl e \<Rightarrow> Inl e | Inr x \<Rightarrow> f x)"

text \<open>The words of a list end at the first that starts with a dash; its length is not compared with the array.\<close>

definition list_words :: "string list \<Rightarrow> string list" where
  "list_words argv = takeWhile (\<lambda>s. case s of [] \<Rightarrow> True | c # _ \<Rightarrow> c \<noteq> CHR ''-'') argv"

definition fill_vals :: "'a list \<Rightarrow> 'a list \<Rightarrow> 'a list res" where
  "fill_vals xs vals = (if length xs \<le> NVM_CLI_VALS then Inr (xs @ drop (length xs) vals) else Inl (Fault OutOfBounds))"

definition parse_arg_count_offset :: arg_parser where
  "parse_arg_count_offset argv args = taking 2 argv
     (Inr ((put_dec 1 (arg_int (argv ! 1)) (put_dec 0 (arg_int (argv ! 0)) args))\<lparr>a_ndec_vals := 2\<rparr>))"

definition addr_g_blk :: "string \<Rightarrow> string \<Rightarrow> string \<Rightarrow> nvm_addr" where
  "addr_g_blk ch lun blk = set_g_blk (arg_int blk) (set_g_lun (arg_int lun) (set_g_ch (arg_int ch) (NvmAddr 0)))"

definition addr_l_chunk :: "string \<Rightarrow> string \<Rightarrow> string \<Rightarrow> nvm_addr" where
  "addr_l_chunk pugrp punit chunk = set_l_chunk (arg_int chunk) (set_l_punit (arg_int punit) (set_l_pugrp (arg_int pugrp) (NvmAddr 0)))"

definition parse_arg_vcopy :: arg_parser where
  "parse_arg_vcopy argv args = taking 6 argv
     (Inr ((put_addr 1 (addr_g_blk (argv ! 3) (argv ! 4) (argv ! 5))
       (put_addr 0 (addr_g_blk (argv ! 0) (argv ! 1) (argv ! 2)) args))\<lparr>a_naddrs := 2\<rparr>))"

definition parse_arg_vcopy_s20 :: arg_parser where
  "parse_arg_vcopy_s20 argv args = taking 6 argv
     (Inr ((put_addr 1 (addr_l_chunk (argv ! 3) (argv ! 4) (argv ! 5))
       (put_addr 0 (addr_l_chunk (argv ! 0) (argv ! 1) (argv ! 2)) args))\<lparr>a_naddrs := 2\<rparr>))"

definition parse_arg_addr_s12 :: arg_parser where
  "parse_arg_addr_s12 argv args = taking 6 argv
     (Inr ((put_addr 0 (set_g_sec (arg_int (argv ! 5)) (set_g_pg (arg_int (argv ! 4)) (set_g_pl (arg_int (argv ! 3))
       (addr_g_blk (argv ! 0) (argv ! 1) (argv ! 2))))) args)\<lparr>a_naddrs := 1\<rparr>))"

definition parse_arg_addr_s20 :: arg_parser where
  "parse_arg_addr_s20 argv args = taking 4 argv
     (Inr ((put_addr 0 (set_l_sectr (arg_int (argv ! 3)) (addr_l_chunk (argv ! 0) (argv ! 1) (argv ! 2))) args)\<lparr>a_naddrs := 1\<rparr>))"

definition parse_arg_vblk_line :: arg_parser where
  "parse_arg_vblk_line argv args = taking 5 argv
     (Inr ((put_addr 1 (addr_g_blk (argv ! 1) (argv ! 3) (argv ! 4))
       (put_addr 0 (addr_g_blk (argv ! 0) (argv ! 2) (argv ! 4)) args))\<lparr>a_naddrs := 2\<rparr>))"

definition parse_arg_vblk_line_pos :: arg_parser where
  "parse_arg_vblk_line_pos argv args = taking 7 argv
     (Inr ((put_dec 1 (word_of_int (c_atol (argv ! 6))) (put_dec 0 (word_of_int (c_atol (argv ! 5)))
       (put_addr 1 (addr_g_blk (argv ! 1) (argv ! 3) (argv ! 4))
       (put_addr 0 (addr_g_blk (argv ! 0) (argv ! 2) (argv ! 4)) args))))\<lparr>a_naddrs := 2, a_ndec_vals := 2\<rparr>))"

definition parse_arg_addr_sec :: arg_parser where
  "parse_arg_addr_sec argv args = taking 6 argv
     (Inr ((put_addr 0 (set_g_sec (arg_int (argv ! 5)) (set_g_pg (arg_int (argv ! 4)) (set_g_blk (arg_int (argv ! 3))
       (set_g_pl (arg_int (argv ! 2)) (set_g_lun (arg_int (argv ! 1)) (set_g_ch (arg_int (argv ! 0)) (NvmAddr 0))))))) args)
       \<lparr>a_naddrs := 1\<rparr>))"

definition parse_arg_addr_lun_hexval :: arg_parser where
  "parse_arg_addr_lun_hexval argv args = taking 3 argv
     (Inr ((put_hex 0 (arg_hex (argv ! 2)) (put_addr 0 (set_g_lun (arg_int (argv ! 1)) (set_g_ch (arg_int (argv ! 0)) (NvmAddr 0))) args))
       \<lparr>a_naddrs := 1, a_nhex_vals := 1\<rparr>))"

definition parse_arg_addr_blk_hexval :: arg_parser where
  "parse_arg_addr_blk_hexval argv args = taking 4 argv
     (Inr ((put_hex 0 (arg_hex (argv ! 3)) (put_addr 0 (addr_g_blk (argv ! 0) (argv ! 1) (argv ! 2)) args))
       \<lparr>a_naddrs := 1, a_nhex_vals := 1\<rparr>))"

definition parse_arg_addr_chk_hexval :: arg_parser where
  "parse_arg_addr_chk_hexval argv args = taking 4 argv
     (Inr ((put_hex 0 (arg_hex (argv ! 3)) (put_addr 0 (addr_l_chunk (argv ! 0) (argv ! 1) (argv ! 2)) args))
       \<lparr>a_naddrs := 1, a_nhex_vals := 1\<rparr>))"

definition parse_arg_addr_chk_val_hexval :: arg_parser where
  "parse_arg_addr_chk_val_hexval argv args = taking 5 argv
     (Inr ((put_hex 0 (arg_hex (argv ! 4)) (put_dec 0 (word_of_int (c_strtoll 10 (argv ! 3)))
       (put_addr 0 (addr_l_chunk (argv ! 0) (argv ! 1) (argv ! 2)) args)))
       \<lparr>a_naddrs := 1, a_ndec_vals := 1, a_nhex_vals := 1\<rparr>))"

definition parse_arg_addr_pg :: arg_parser where
  "parse_arg_addr_pg argv args = taking 4 argv
     (Inr ((put_addr 0 (set_g_pg (arg_int (argv ! 3)) (addr_g_blk (argv ! 0) (argv ! 1) (argv ! 2))) args)\<lparr>a_naddrs := 1\<rparr>))"

definition parse_arg_addr_blk :: arg_parser where
  "parse_arg_addr_blk argv args = taking 3 argv
     (Inr ((put_addr 0 (addr_g_blk (argv ! 0) (argv ! 1) (argv ! 2)) args)\<lparr>a_naddrs := 1\<rparr>))"

definition parse_arg_addr_lun :: arg_parser where
  "parse_arg_addr_lun argv args = taking 2 argv
     (Inr ((put_addr 0 (set_g_lun (arg_int (argv ! 1)) (set_g_ch (arg_int (argv ! 0)) (NvmAddr 0))) args)\<lparr>a_naddrs := 1\<rparr>))"

definition parse_arg_register :: arg_parser where
  "parse_arg_register argv args = taking 1 argv (push_hex (arg_hex (argv ! 0)) args)"

text \<open>Two arguments are required and stored, and 1 is returned.\<close>

definition parse_arg_register_value :: arg_parser where
  "parse_arg_register_value argv args =
     map_sum id (\<lambda>(_, args). (1, args))
       (taking 2 argv (res_then (push_hex (arg_hex (argv ! 0)) args) (push_hex (arg_hex (argv ! 1)))))"

definition parse_arg_addr :: arg_parser where
  "parse_arg_addr argv args = taking 1 argv (push_addr (NvmAddr (arg_hex (argv ! 0))) args)"

definition parse_arg_addr_list :: arg_parser where
  "parse_arg_addr_list argv args =
     (let ws = list_words argv in
      res_then (fill_vals (map (\<lambda>s. NvmAddr (arg_hex s)) ws) (a_addrs args)) (\<lambda>addrs.
        Inr (length ws, args\<lparr>a_addrs := addrs, a_naddrs := int (length ws)\<rparr>)))"

definition parse_arg_addr_src_dst :: arg_parser where
  "parse_arg_addr_src_dst argv args = taking 2 argv
     (res_then (push_addr (NvmAddr (arg_hex (argv ! 0))) args) (\<lambda>args.
      res_then (push_addr (NvmAddr (arg_hex (argv ! 1))) args) (\<lambda>args. Inr (args\<lparr>a_naddrs := 2\<rparr>))))"

definition parse_arg_decval :: arg_parser where
  "parse_arg_decval argv args = taking 1 argv (push_dec (arg_int (argv ! 0)) args)"

definition parse_arg_decval_list :: arg_parser where
  "parse_arg_decval_list argv args =
     (let ws = list_words argv in
      res_then (fill_vals (map arg_int ws) (a_dec_vals args)) (\<lambda>vals.
        Inr (length ws, args\<lparr>a_dec_vals := vals, a_ndec_vals := int (length ws)\<rparr>)))"

definition parse_arg_decval_begin_end :: arg_parser where
  "parse_arg_decval_begin_end argv args = taking 2 argv
     (Inr ((put_dec 1 (arg_int (argv ! 1)) (put_dec 0 (arg_int (argv ! 0)) args))\<lparr>a_ndec_vals := 2\<rparr>))"

definition parse_arg_hexval :: arg_parser where
  "parse_arg_hexval argv args = taking 1 argv (push_hex (arg_hex (argv ! 0)) args)"

definition parse_arg_hexval_list :: arg_parser where
  "parse_arg_hexval_list argv args =
     (let ws = list_words argv in
      res_then (fill_vals (map arg_hex ws) (a_hex_vals args)) (\<lambda>vals.
        Inr (length ws, args\<lparr>a_hex_vals := vals, a_nhex_vals := int (length ws)\<rparr>)))"

definition parse_arg_dev_path :: arg_parser where
  "parse_arg_dev_path argv args =
     (if length argv < 1 then Inl (Errno EINVAL)
      else if length (argv ! 0) < 1 \<or> length (argv ! 0) > NVM_DEV_PATH_LEN then Inl (Errno EINVAL)
      else Inr (1, args\<lparr>a_dev_path := argv ! 0\<rparr>))"

definition arg_parser_of :: "nvm_cli_cmd_arg_type \<Rightarrow> arg_parser" where
  "arg_parser_of t = (case t of
       NVM_CLI_ARG_DECVAL \<Rightarrow> parse_arg_decval
     | NVM_CLI_ARG_DECVAL_LIST \<Rightarrow> parse_arg_decval_list
     | NVM_CLI_ARG_DECVAL_BEGIN_END \<Rightarrow> parse_arg_decval_begin_end
     | NVM_CLI_ARG_HEXVAL \<Rightarrow> parse_arg_hexval
     | NVM_CLI_ARG_HEXVAL_LIST \<Rightarrow> parse_arg_hexval_list
     | NVM_CLI_ARG_ADDR \<Rightarrow> parse_arg_addr
     | NVM_CLI_ARG_ADDR_LIST \<Rightarrow> parse_arg_addr_list
     | NVM_CLI_ARG_ADDR_SRC_DST \<Rightarrow> parse_arg_addr_src_dst
     | NVM_CLI_ARG_ADDR_LUN \<Rightarrow> parse_arg_addr_lun
     | NVM_CLI_ARG_ADDR_BLK \<Rightarrow> parse_arg_addr_blk
     | NVM_CLI_ARG_ADDR_PG \<Rightarrow> parse_arg_addr_pg
     | NVM_CLI_ARG_ADDR_SEC \<Rightarrow> parse_arg_addr_sec
     | NVM_CLI_ARG_ADDR_LUN_HEXVAL \<Rightarrow> parse_arg_addr_lun_hexval
     | NVM_CLI_ARG_ADDR_BLK_HEXVAL \<Rightarrow> parse_arg_addr_blk_hexval
     | NVM_CLI_ARG_ADDR_CHK_HEXVAL \<Rightarrow> parse_arg_addr_chk_hexval
     | NVM_CLI_ARG_ADDR_CHK_VAL_HEXVAL \<Rightarrow> parse_arg_addr_chk_val_hexval
     | NVM_CLI_ARG_VCOPY \<Rightarrow> parse_arg_vcopy
     | NVM_CLI_ARG_VCOPY_S20 \<Rightarrow> parse_arg_vcopy_s20
     | NVM_CLI_ARG_ADDR_S12 \<Rightarrow> parse_arg_addr_s12
     | NVM_CLI_ARG_ADDR_S20 \<Rightarrow> parse_arg_addr_s20
     | NVM_CLI_ARG_VBLK_LINE \<Rightarrow> parse_arg_vblk_line
     | NVM_CLI_ARG_VBLK_LINE_POS \<Rightarrow> parse_arg_vblk_line_pos
     | NVM_CLI_ARG_COUNT_OFFSET \<Rightarrow> parse_arg_count_offset
     | NVM_CLI_ARG_REGISTER \<Rightarrow> parse_arg_register
     | NVM_CLI_ARG_REGISTER_VALUE \<Rightarrow> parse_arg_register_value
     | NVM_CLI_ARG_DEV_PATH \<Rightarrow> (\<lambda>argv args. Inr (0, args))
     | NVM_CLI_ARG_NONE \<Rightarrow> (\<lambda>argv args. Inr (0, args)))"

definition parse_args :: "nvm_cli_cmd_arg_type \<Rightarrow> arg_parser" where
  "parse_args t argv args =
     res_then (if t \<noteq> NVM_CLI_ARG_NONE then parse_arg_dev_path argv args else Inr (0, args)) (\<lambda>(inc, args).
     res_then (arg_parser_of t (drop inc argv) args) (\<lambda>(n, args). Inr (inc + n, args)))"

text \<open>The command and the name of the tool; the name is copied into an array of 50 characters.\<close>

definition parse :: "string list \<Rightarrow> 'f nvm_cli \<Rightarrow> (nat \<times> 'f nvm_cli) res" where
  "parse argv cli =
     (if length argv < 1 then Inl (Errno EINVAL)
      else case find (\<lambda>c. argv ! 0 = cc_name c) (cli_cmds cli) of
          Some c \<Rightarrow> Inr (1, cli\<lparr>cli_cmd := Some c\<rparr>)
        | None \<Rightarrow> Inl (Errno EINVAL))"

definition parse_cli_name :: "string list \<Rightarrow> 'f nvm_cli \<Rightarrow> (nat \<times> 'f nvm_cli) res" where
  "parse_cli_name argv cli =
     (if length argv < 1 then Inl (Errno EINVAL)
      else if length (argv ! 0) \<ge> NVM_CLI_CMD_LEN then Inl (Fault OutOfBounds)
      else Inr (1, cli\<lparr>cli_name := argv ! 0\<rparr>))"

definition help_is_wanted :: "string list \<Rightarrow> bool" where
  "help_is_wanted argv = list_ex (\<lambda>s. s = ''-h'') argv"

section \<open>Options\<close>

text \<open>
  \<open>getopt\<close> of the GNU C library with the option string of \<open>parse_opts\<close>: words that are not options are
  skipped, unless \<open>POSIXLY_CORRECT\<close> is set, in which case the first of them ends the scan, as \<open>--\<close> does. A
  letter followed by a colon takes the rest of its word or the next word as its value.
\<close>

definition opt_string :: string where
  "opt_string = '':hbvc:m:d:ti:o:n:x:''"

datatype opt_event =
    Flag char           \<comment> \<open>an option without a value\<close>
  | Value char string   \<comment> \<open>an option and its \<open>optarg\<close>\<close>
  | Invalid             \<comment> \<open>\<open>?\<close> or \<open>:\<close>\<close>

datatype opt_arity = Takes_none | Takes_value | Unknown

definition opt_kind :: "char \<Rightarrow> opt_arity" where
  "opt_kind c = (if c = CHR '':'' \<or> c = CHR '';'' then Unknown
     else case dropWhile (\<lambda>d. d \<noteq> c) opt_string of
         [] \<Rightarrow> Unknown
       | _ # s \<Rightarrow> (case s of [] \<Rightarrow> Takes_none | d # _ \<Rightarrow> if d = CHR '':'' then Takes_value else Takes_none))"

text \<open>The letters of one word, with the words after it.\<close>

fun getopt_word :: "string \<Rightarrow> string list \<Rightarrow> opt_event list \<times> string list" where
  "getopt_word [] rest = ([], rest)"
| "getopt_word (c # cs) rest = (case opt_kind c of
       Unknown \<Rightarrow> ([Invalid], rest)
     | Takes_none \<Rightarrow> (case getopt_word cs rest of (evs, rest') \<Rightarrow> (Flag c # evs, rest'))
     | Takes_value \<Rightarrow> (if cs \<noteq> [] then ([Value c cs], rest)
         else case rest of [] \<Rightarrow> ([Invalid], []) | s # rest' \<Rightarrow> ([Value c s], rest')))"

lemma getopt_word_consumes: "length (snd (getopt_word cs rest)) \<le> length rest"
  by (induction cs rest rule: getopt_word.induct) (auto split: opt_arity.splits prod.splits list.splits)

lemma getopt_word_less: "(evs, rest') = getopt_word cs rest \<Longrightarrow> length rest' < Suc (length rest)"
  using getopt_word_consumes [of cs rest] by (metis le_imp_less_Suc snd_conv)

definition is_option :: "string \<Rightarrow> bool" where
  "is_option s \<longleftrightarrow> length s \<ge> 2 \<and> s ! 0 = CHR ''-''"

function getopt_scan :: "bool \<Rightarrow> string list \<Rightarrow> opt_event list" where
  "getopt_scan posix [] = []"
| "getopt_scan posix (s # ss) =
     (if s = ''--'' then []
      else if is_option s then (case getopt_word (drop 1 s) ss of (evs, ss') \<Rightarrow> evs @ getopt_scan posix ss')
      else if posix then [] else getopt_scan posix ss)"
  by pat_completeness auto

termination
  by (relation "measure (\<lambda>(posix, ss). length ss)") (simp_all add: getopt_word_less)

text \<open>One pass of the loop of \<open>parse_opts\<close>. No event has the letter \<open>s\<close>, which the option string lacks.\<close>

definition add_opt :: "u32 \<Rightarrow> nvm_cli_opts \<Rightarrow> nvm_cli_opts" where
  "add_opt flag opts = opts\<lparr>o_mask := o_mask opts OR flag\<rparr>"

definition set_pfile :: "nat \<Rightarrow> string \<Rightarrow> u64 \<Rightarrow> nvm_cli_opts \<Rightarrow> nvm_cli_opts" where
  "set_pfile i path nbytes opts = opts\<lparr>o_pfile := (o_pfile opts)\<lparr>pf_paths := (pf_paths (o_pfile opts))[i := path],
     pf_nbytes := (pf_nbytes (o_pfile opts))[i := nbytes]\<rparr>\<rparr>"

definition parse_opt :: "opt_event \<Rightarrow> nvm_cli_opts \<Rightarrow> nvm_cli_opts res" where
  "parse_opt ev opts = (case ev of
       Invalid \<Rightarrow> Inl (Errno EKEEP)
     | Flag c \<Rightarrow> Inr (
         if c = CHR ''h'' then (add_opt NVM_CLI_OPT_HELP opts)\<lparr>o_help := 1\<rparr>
         else if c = CHR ''b'' then (add_opt NVM_CLI_OPT_BRIEF opts)\<lparr>o_brief := 1\<rparr>
         else if c = CHR ''v'' then (add_opt NVM_CLI_OPT_VERBOSE opts)\<lparr>o_verbose := 1\<rparr>
         else if c = CHR ''s'' then (add_opt NVM_CLI_OPT_STATUS opts)\<lparr>o_status := 1\<rparr>
         else if c = CHR ''t'' then (add_opt NVM_CLI_OPT_TERSE opts)\<lparr>o_terse := 1\<rparr>
         else opts)
     | Value c optarg \<Rightarrow> Inr (
         if c = CHR ''c'' then set_pfile 0 optarg 64 (add_opt NVM_CLI_OPT_FILE_CMD opts)
         else if c = CHR ''m'' then set_pfile 1 optarg 0x100000 (add_opt NVM_CLI_OPT_FILE_META opts)
         else if c = CHR ''d'' then set_pfile 2 optarg 0x100000 (add_opt NVM_CLI_OPT_FILE_DATA opts)
         else if c = CHR ''i'' then (add_opt NVM_CLI_OPT_FILE_INPUT opts)\<lparr>o_file_input := Some optarg\<rparr>
         else if c = CHR ''o'' then (add_opt NVM_CLI_OPT_FILE_OUTPUT opts)\<lparr>o_file_output := Some optarg\<rparr>
         else if c = CHR ''n'' then (add_opt NVM_CLI_OPT_VAL_DEC opts)\<lparr>o_dec_val := arg_int optarg\<rparr>
         else if c = CHR ''x'' then (add_opt NVM_CLI_OPT_VAL_HEX opts)\<lparr>o_hex_val := arg_hex optarg\<rparr>
         else opts))"

fun parse_opts_loop :: "opt_event list \<Rightarrow> nvm_cli_opts \<Rightarrow> nvm_cli_opts res" where
  "parse_opts_loop [] opts = Inr opts"
| "parse_opts_loop (ev # evs) opts = res_then (parse_opt ev opts) (parse_opts_loop evs)"

text \<open>\<open>getopt\<close> starts after the first word it is given.\<close>

definition parse_opts :: "bool \<Rightarrow> string list \<Rightarrow> nvm_cli_opts \<Rightarrow> nvm_cli_opts res" where
  "parse_opts posix argv opts = parse_opts_loop (getopt_scan posix (drop 1 argv)) opts"

section \<open>The host of a tool\<close>

text \<open>
  What a tool uses beside its own state: the C library, the table of backends, files and memory, and the
  addresses of the structure of a device and of its table of bad-block tables. \<open>h_read_file\<close> is the
  content of a file, \<open>None\<close> when it cannot be opened; \<open>h_write_file\<close> creates a file with a content and
  returns how much was written, \<open>None\<close> when it cannot be created; \<open>h_load\<close> and \<open>h_load_cmd\<close> read bytes and a \<open>struct nvm_nvme_cmd\<close> from memory.
\<close>

record 'w host =
  h_sys :: "'w sys"
  h_imps :: "'w nvm_be list"
  h_read_file :: "string \<Rightarrow> 'w \<Rightarrow> u8 list option"
  h_write_file :: "string \<Rightarrow> u8 list \<Rightarrow> 'w \<Rightarrow> (nat \<times> 'w) option"
  h_load :: "ptr \<Rightarrow> nat \<Rightarrow> 'w \<Rightarrow> u8 list"
  h_load_cmd :: "ptr \<Rightarrow> 'w \<Rightarrow> nvm_nvme_cmd"
  h_dev_ptr :: "nvm_dev \<Rightarrow> ptr"
  h_bbts_ptr :: "nvm_dev \<Rightarrow> ptr"

type_synonym ('f, 'w) tool = "'f nvm_cli \<times> 'w \<times> string"
type_synonym ('f, 'w, 'a) top = "(('f, 'w) tool, 'a) op"

definition in_world :: "('w, 'a) op \<Rightarrow> ('f, 'w, 'a) top" where
  "in_world m = (\<lambda>(cli, w, out). case m w of (r, w') \<Rightarrow> (r, (cli, w', out)))"

definition get_cli :: "('f, 'w, 'f nvm_cli) top" where
  "get_cli s = (Inr (fst s), s)"

definition set_cli :: "('f nvm_cli \<Rightarrow> 'f nvm_cli) \<Rightarrow> ('f, 'w, unit) top" where
  "set_cli f = (\<lambda>(cli, w, out). (Inr (), (f cli, w, out)))"

definition print :: "string \<Rightarrow> ('f, 'w, unit) top" where
  "print s = (\<lambda>(cli, w, out). (Inr (), (cli, w, out @ s)))"

definition get_env :: "'w host \<Rightarrow> string \<Rightarrow> ('f, 'w, string option) top" where
  "get_env h name = (\<lambda>(cli, w, out). (Inr (sys_getenv (h_sys h) name w), (cli, w, out)))"

text \<open>An error return that the caller looks at; undefined behaviour is not caught.\<close>

definition attempt :: "('s, 'a) op \<Rightarrow> ('s, errno + 'a) op" where
  "attempt m s = (case m s of (Inl (Errno e), s') \<Rightarrow> (Inr (Inl e), s') | (Inl (Fault f), s') \<Rightarrow> (Inl (Fault f), s')
     | (Inr x, s') \<Rightarrow> (Inr (Inr x), s'))"

text \<open>Every error return of the caller sets \<open>errno\<close> to \<open>EINVAL\<close>.\<close>

definition as_einval :: "('s, 'a) op \<Rightarrow> ('s, 'a) op" where
  "as_einval m = andThen (attempt m) (\<lambda>r. case r of Inl e \<Rightarrow> fail (Errno EINVAL) | Inr x \<Rightarrow> ok x)"

definition upd_args :: "(nvm_cli_cmd_args \<Rightarrow> nvm_cli_cmd_args) \<Rightarrow> 'f nvm_cli \<Rightarrow> 'f nvm_cli" where
  "upd_args f cli = cli\<lparr>cli_args := f (cli_args cli)\<rparr>"

definition upd_evars :: "(nvm_cli_evars \<Rightarrow> nvm_cli_evars) \<Rightarrow> 'f nvm_cli \<Rightarrow> 'f nvm_cli" where
  "upd_evars f cli = cli\<lparr>cli_evars := f (cli_evars cli)\<rparr>"

definition dev_backend :: "'w host \<Rightarrow> nvm_dev \<Rightarrow> 'w nvm_be option" where
  "dev_backend h dev = find (\<lambda>be. dev_be dev = Some (be_id be)) (h_imps h)"

text \<open>The device of the arguments, and its backend; a tool that uses it without a device has undefined behaviour.\<close>

definition the_dev :: "('f, 'w, nvm_dev) top" where
  "the_dev = andThen get_cli (\<lambda>cli. case a_dev (cli_args cli) of None \<Rightarrow> fail (Fault NullDeref) | Some dev \<Rightarrow> ok dev)"

definition the_be :: "'w host \<Rightarrow> nvm_dev \<Rightarrow> ('f, 'w, 'w nvm_be) top" where
  "the_be h dev = (case dev_backend h dev of None \<Rightarrow> fail (Fault NullDeref) | Some be \<Rightarrow> ok be)"

definition close_dev :: "'w host \<Rightarrow> ('f, 'w, unit) top" where
  "close_dev h = andThen get_cli (\<lambda>cli. case a_dev (cli_args cli) of
       None \<Rightarrow> ok ()
     | Some dev \<Rightarrow> andThen (the_be h dev) (\<lambda>be.
         in_world (nvm_dev_close (h_sys h) be (h_bbts_ptr h dev) (h_dev_ptr h dev) (Some dev))))"

section \<open>Environment variables and the device\<close>

definition with_dev :: "(nvm_dev \<Rightarrow> nvm_dev res) \<Rightarrow> ('f, 'w, unit) top" where
  "with_dev f = andThen the_dev (\<lambda>dev. andThen (lift_res (f dev)) (\<lambda>dev'. set_cli (upd_args (a_dev_update (\<lambda>_. Some dev')))))"

definition evar_pmode :: "'w host \<Rightarrow> ('f, 'w, unit) top" where
  "evar_pmode h = andThen the_dev (\<lambda>dev. andThen (get_env h ''NVM_CLI_PMODE'') (\<lambda>pmode_env.
     case pmode_env of
       None \<Rightarrow> set_cli (upd_evars (ev_pmode_update (\<lambda>_. dev_pmode dev)))
     | Some s \<Rightarrow>
         (let m = c_strtoll 16 s in
          if m = NVM_FLAG_PMODE_QUAD then
            (if nplanes (dev_geo dev) < 4 then fail (Errno EINVAL) else set_cli (upd_evars (ev_pmode_update (\<lambda>_. NVM_FLAG_PMODE_QUAD))))
          else if m = NVM_FLAG_PMODE_DUAL then
            (if nplanes (dev_geo dev) < 2 then fail (Errno EINVAL) else set_cli (upd_evars (ev_pmode_update (\<lambda>_. NVM_FLAG_PMODE_DUAL))))
          else if m = NVM_FLAG_PMODE_SNGL then set_cli (upd_evars (ev_pmode_update (\<lambda>_. NVM_FLAG_PMODE_SNGL)))
          else fail (Errno EINVAL))))"

definition evar_noverify :: "'w host \<Rightarrow> ('f, 'w, unit) top" where
  "evar_noverify h = andThen (get_env h ''NVM_CLI_NOVERIFY'') (\<lambda>s. set_cli (upd_evars (ev_noverify_update (\<lambda>_. if s = None then 0 else 1))))"

definition evar_meta_pr :: "'w host \<Rightarrow> ('f, 'w, unit) top" where
  "evar_meta_pr h = andThen (get_env h ''NVM_CLI_META_PR'') (\<lambda>s. set_cli (upd_evars (ev_meta_pr_update (\<lambda>_. if s = None then 0 else 1))))"

definition evar_erase_naddrs_max :: "'w host \<Rightarrow> ('f, 'w, unit) top" where
  "evar_erase_naddrs_max h = andThen the_dev (\<lambda>dev. andThen (get_env h ''NVM_CLI_ERASE_NADDRS_MAX'') (\<lambda>s.
     set_cli (upd_evars (ev_erase_naddrs_max_update (\<lambda>_. case s of None \<Rightarrow> dev_erase_naddrs_max dev | Some n \<Rightarrow> c_atoi n)))))"

definition evar_write_naddrs_max :: "'w host \<Rightarrow> ('f, 'w, unit) top" where
  "evar_write_naddrs_max h = andThen the_dev (\<lambda>dev. andThen (get_env h ''NVM_CLI_WRITE_NADDRS_MAX'') (\<lambda>s.
     set_cli (upd_evars (ev_write_naddrs_max_update (\<lambda>_. case s of None \<Rightarrow> dev_write_naddrs_max dev | Some n \<Rightarrow> c_atoi n)))))"

definition evar_read_naddrs_max :: "'w host \<Rightarrow> ('f, 'w, unit) top" where
  "evar_read_naddrs_max h = andThen the_dev (\<lambda>dev. andThen (get_env h ''NVM_CLI_READ_NADDRS_MAX'') (\<lambda>s.
     set_cli (upd_evars (ev_read_naddrs_max_update (\<lambda>_. case s of None \<Rightarrow> dev_read_naddrs_max dev | Some n \<Rightarrow> c_atoi n)))))"

definition evar_meta_mode :: "'w host \<Rightarrow> ('f, 'w, unit) top" where
  "evar_meta_mode h = andThen the_dev (\<lambda>dev. andThen (get_env h ''NVM_CLI_META_MODE'') (\<lambda>meta_mode_env.
     case meta_mode_env of
       None \<Rightarrow> set_cli (upd_evars (ev_meta_mode_update (\<lambda>_. dev_meta_mode dev)))
     | Some s \<Rightarrow>
         (let m = c_strtoll 16 s in
          if m = NVM_META_MODE_NONE \<or> m = NVM_META_MODE_ALPHA \<or> m = NVM_META_MODE_CONST
          then set_cli (upd_evars (ev_meta_mode_update (\<lambda>_. m))) else fail (Errno EINVAL))))"

definition evar_cmd_opts :: "'w host \<Rightarrow> ('f, 'w, unit) top" where
  "evar_cmd_opts h = andThen (get_env h ''NVM_CLI_CMD_OPTS'') (\<lambda>s. case s of
       None \<Rightarrow> ok ()
     | Some opts \<Rightarrow> set_cli (upd_evars (ev_cmd_opts_update (\<lambda>_. c_int (c_strtoll 16 opts)))))"

text \<open>The loop that checks the addresses; the index is below the length of the array when the count is.\<close>

definition check_addr :: "nat \<Rightarrow> ('f, 'w, unit) top" where
  "check_addr i = andThen the_dev (\<lambda>dev. andThen get_cli (\<lambda>cli.
     if length (a_addrs (cli_args cli)) \<le> i then fail (Fault OutOfBounds)
     else let addr = a_addrs (cli_args cli) ! i;
          bounds = (case nvm_addr_check addr dev of Inl e \<Rightarrow> - 1 | Inr b \<Rightarrow> b) in
       if bounds \<noteq> 0 then
         andThen (print (nvm_addr_pr addr @ newline @ line ''# Exceeded'' @ nvm_bounds_pr bounds)) (\<lambda>_. fail (Errno EINVAL))
       else ok ()))"

definition check_addrs :: "('f, 'w, unit) top" where
  "check_addrs = andThen get_cli (\<lambda>cli.
     if ev_noverify (cli_evars cli) = 0 then each_op check_addr [0..<nat (a_naddrs (cli_args cli))] else ok ())"

definition selected_arg_type :: "'f nvm_cli \<Rightarrow> nvm_cli_cmd_arg_type" where
  "selected_arg_type cli = (case cli_cmd cli of None \<Rightarrow> NVM_CLI_ARG_NONE | Some c \<Rightarrow> cc_arg_type c)"

definition open_dev :: "'w host \<Rightarrow> ('f, 'w, unit) top" where
  "open_dev h = andThen get_cli (\<lambda>cli.
     andThen (in_world (nvm_dev_openf (h_sys h) (h_imps h) (a_dev_path (cli_args cli)) (word_of_int (ev_cmd_opts (cli_evars cli))))) (\<lambda>dev.
     set_cli (upd_args (a_dev_update (\<lambda>_. Some dev)))))"

definition use_option :: "(nvm_dev \<Rightarrow> int \<Rightarrow> nvm_dev res) \<Rightarrow> (nvm_cli_evars \<Rightarrow> int) \<Rightarrow> ('f, 'w, unit) top" where
  "use_option setter ev = andThen get_cli (\<lambda>cli. with_dev (\<lambda>dev. setter dev (ev (cli_evars cli))))"

definition dev_setup :: "'w host \<Rightarrow> ('f, 'w, unit) top" where
  "dev_setup h =
     andThen (open_dev h) (\<lambda>_.
     andThen (evar_pmode h) (\<lambda>_. andThen (use_option nvm_dev_set_pmode ev_pmode) (\<lambda>_.
     andThen (evar_meta_mode h) (\<lambda>_. andThen (use_option nvm_dev_set_meta_mode ev_meta_mode) (\<lambda>_.
     andThen (evar_erase_naddrs_max h) (\<lambda>_. andThen (use_option nvm_dev_set_erase_naddrs_max ev_erase_naddrs_max) (\<lambda>_.
     andThen (evar_write_naddrs_max h) (\<lambda>_. andThen (use_option nvm_dev_set_write_naddrs_max ev_write_naddrs_max) (\<lambda>_.
     andThen (evar_read_naddrs_max h) (\<lambda>_. andThen (use_option nvm_dev_set_read_naddrs_max ev_read_naddrs_max) (\<lambda>_.
     andThen (evar_noverify h) (\<lambda>_.
     andThen (evar_meta_pr h) (\<lambda>_.
     check_addrs)))))))))))))"

definition evar_and_dev_setup :: "'w host \<Rightarrow> ('f, 'w, unit) top" where
  "evar_and_dev_setup h =
     andThen (evar_cmd_opts h) (\<lambda>_. andThen get_cli (\<lambda>cli.
     if selected_arg_type cli = NVM_CLI_ARG_NONE then ok () else dev_setup h))"

section \<open>Files\<close>

text \<open>
  \<open>nvm_buf_from_file\<close> and \<open>nvm_buf_to_file\<close> of \<open>src/nvm_buf.c\<close> do not look at the result of \<open>fopen\<close>.
\<close>

definition nvm_buf_from_file :: "'w host \<Rightarrow> ptr \<Rightarrow> nat \<Rightarrow> string \<Rightarrow> ('w, unit) op" where
  "nvm_buf_from_file h buf nbytes path w =
     (case h_read_file h path w of
        None \<Rightarrow> (Inl (Fault NullDeref), w)
      | Some content \<Rightarrow>
          (let w' = sys_store (h_sys h) buf (take nbytes content) w in
           if length (take nbytes content) \<noteq> nbytes then (Inl (Errno EINVAL), w') else (Inr (), w')))"

definition nvm_buf_to_file :: "'w host \<Rightarrow> ptr \<Rightarrow> nat \<Rightarrow> string \<Rightarrow> ('w, unit) op" where
  "nvm_buf_to_file h buf nbytes path w =
     (case h_write_file h path (h_load h buf nbytes w) w of
        None \<Rightarrow> (Inl (Fault NullDeref), w)
      | Some (fcount, w') \<Rightarrow> if fcount \<noteq> nbytes then (Inl (Errno EINVAL), w') else (Inr (), w'))"

text \<open>
  The pieces in which \<open>fread\<close> delivers a file; \<open>pfile_to_buf\<close> stores each of them at the start of the
  buffer and returns their total length.
\<close>

fun file_pieces :: "u8 list \<Rightarrow> u8 list list" where
  "file_pieces content = (if content = [] then [] else take 4096 content # file_pieces (drop 4096 content))"

declare file_pieces.simps [simp del]

definition pfile_to_buf :: "'w host \<Rightarrow> string \<Rightarrow> ptr \<Rightarrow> nat \<Rightarrow> ('w, nat) op" where
  "pfile_to_buf h fname buf max_fsize w =
     (case h_read_file h fname w of
        None \<Rightarrow> (Inl (Errno EKEEP), w)
      | Some content \<Rightarrow>
          if length content > max_fsize then (Inl (Errno EINVAL), w)
          else (Inr (length (concat (file_pieces content))), fold (sys_store (h_sys h) buf) (file_pieces content) w))"

definition upd_pfile :: "(nvm_cli_opts_pfile \<Rightarrow> nvm_cli_opts_pfile) \<Rightarrow> 'f nvm_cli \<Rightarrow> 'f nvm_cli" where
  "upd_pfile f cli = cli\<lparr>cli_opts := (cli_opts cli)\<lparr>o_pfile := f (o_pfile (cli_opts cli))\<rparr>\<rparr>"

definition get_pfile :: "('f, 'w, nvm_cli_opts_pfile) top" where
  "get_pfile = andThen get_cli (\<lambda>cli. ok (o_pfile (cli_opts cli)))"

definition nvm_cli_opts_pfile_unload :: "'w host \<Rightarrow> ('f, 'w, unit) top" where
  "nvm_cli_opts_pfile_unload h = each_op (\<lambda>i. andThen the_dev (\<lambda>dev. andThen get_pfile (\<lambda>pf.
     andThen (in_world (nvm_buf_free (h_sys h) dev (pf_bufs pf ! i))) (\<lambda>_.
     in_world (nvm_buf_free (h_sys h) dev (pf_dups pf ! i)))))) [0..<3]"

definition pfile_load_step :: "'w host \<Rightarrow> nat \<Rightarrow> ('f, 'w, unit) top" where
  "pfile_load_step h i = andThen get_pfile (\<lambda>pf.
     if pf_nbytes pf ! i = 0 then ok ()
     else andThen the_dev (\<lambda>dev.
       on_error (
         andThen (in_world (nvm_buf_alloc (h_sys h) dev (pf_nbytes pf ! i) 0)) (\<lambda>(dup, _).
         andThen (set_cli (upd_pfile (\<lambda>pf. pf\<lparr>pf_dups := (pf_dups pf)[i := dup]\<rparr>))) (\<lambda>_.
         andThen (in_world (upd (sys_store (h_sys h) dup (replicate (unat (pf_nbytes pf ! i)) 0)))) (\<lambda>_.
         andThen (in_world (pfile_to_buf h (pf_paths pf ! i) dup (unat (pf_nbytes pf ! i)))) (\<lambda>nbytes.
         andThen (set_cli (upd_pfile (\<lambda>pf. pf\<lparr>pf_nbytes := (pf_nbytes pf)[i := of_nat nbytes]\<rparr>))) (\<lambda>_.
         andThen (in_world (nvm_buf_alloc (h_sys h) dev (of_nat nbytes) 0)) (\<lambda>(buf, _).
         andThen (set_cli (upd_pfile (\<lambda>pf. pf\<lparr>pf_bufs := (pf_bufs pf)[i := buf]\<rparr>))) (\<lambda>_.
         in_world (\<lambda>w. upd (sys_store (h_sys h) buf (h_load h dup nbytes w)) w))))))))) 
         (nvm_cli_opts_pfile_unload h)))"

definition nvm_cli_opts_pfile_load :: "'w host \<Rightarrow> ('f, 'w, unit) top" where
  "nvm_cli_opts_pfile_load h = each_op (pfile_load_step h) [0..<3]"

text \<open>A file is written when the buffer no longer agrees with its copy.\<close>

definition nvm_cli_opts_pfile_dump :: "'w host \<Rightarrow> ('f, 'w, unit) top" where
  "nvm_cli_opts_pfile_dump h = each_op (\<lambda>i. andThen get_pfile (\<lambda>pf.
     let buf = pf_bufs pf ! i; dup = pf_dups pf ! i; n = unat (pf_nbytes pf ! i) in
     if \<not> (buf \<noteq> 0 \<and> dup \<noteq> 0 \<and> n \<noteq> 0) then ok ()
     else in_world (\<lambda>w. andThen (lift_res (nvm_buf_diff (h_load h buf n w) (h_load h dup n w) n)) (\<lambda>diff.
       if diff = 0 then ok () else nvm_buf_to_file h buf n (pf_paths pf ! i)) w))) [0..<3]"

section \<open>The usage text\<close>

text \<open>The options in the order of their bits; \<open>NVM_CLI_OPT_FILE_INPUT\<close> has no entry in the first table.\<close>

definition opt_usage :: "u32 \<Rightarrow> string" where
  "opt_usage opt =
     (if opt = NVM_CLI_OPT_HELP then '' [-h]'' else if opt = NVM_CLI_OPT_BRIEF then '' [-b]''
      else if opt = NVM_CLI_OPT_VERBOSE then '' [-v]'' else if opt = NVM_CLI_OPT_STATUS then '' [-s]''
      else if opt = NVM_CLI_OPT_TERSE then '' [-t]'' else if opt = NVM_CLI_OPT_FILE_CMD then '' [-c FILE]''
      else if opt = NVM_CLI_OPT_FILE_DATA then '' [-d FILE]'' else if opt = NVM_CLI_OPT_FILE_META then '' [-m FILE]''
      else if opt = NVM_CLI_OPT_FILE_OUTPUT then '' [-o FILE]'' else if opt = NVM_CLI_OPT_VAL_DEC then '' [-n VAL]''
      else if opt = NVM_CLI_OPT_VAL_HEX then '' [-x 0xVAL]'' else [])"

definition opts_mask_pr :: "u32 \<Rightarrow> string" where
  "opts_mask_pr msk = concat (map (\<lambda>i. let opt = push_bit i 1 in if msk AND opt = 0 then [] else opt_usage opt) [0..<12])"

definition opt_line :: "string \<Rightarrow> string \<Rightarrow> string \<Rightarrow> string" where
  "opt_line letter arg descr = '' -'' @ letter @ '' '' @ pad_blank 5 arg @ '' '' @ descr"

definition opt_descr :: "u32 \<Rightarrow> string" where
  "opt_descr opt =
     (if opt = NVM_CLI_OPT_HELP then opt_line ''h'' '' '' ''Print usage''
      else if opt = NVM_CLI_OPT_BRIEF then opt_line ''b'' '' '' ''Brief, minimal output''
      else if opt = NVM_CLI_OPT_VERBOSE then opt_line ''v'' '' '' ''Dump CLI state to stdout''
      else if opt = NVM_CLI_OPT_STATUS then opt_line ''s'' '' '' ''Dump status msgs to stdout''
      else if opt = NVM_CLI_OPT_TERSE then opt_line ''t'' '' '' ''Print only the address''
      else if opt = NVM_CLI_OPT_FILE_CMD then opt_line ''c'' ''FILE'' ''Path to cmd, 64 byte''
      else if opt = NVM_CLI_OPT_FILE_META then opt_line ''m'' ''FILE'' ''Path to meta, 1 MiB max''
      else if opt = NVM_CLI_OPT_FILE_DATA then opt_line ''d'' ''FILE'' ''Path to data, 1 MiB max''
      else if opt = NVM_CLI_OPT_FILE_INPUT then opt_line ''i'' ''FILE'' ''Path to input file''
      else if opt = NVM_CLI_OPT_FILE_OUTPUT then opt_line ''o'' ''FILE'' ''Path to output file''
      else if opt = NVM_CLI_OPT_VAL_DEC then opt_line ''n'' ''val'' ''Integer value''
      else if opt = NVM_CLI_OPT_VAL_HEX then opt_line ''x'' ''0xVAL'' ''Hexadecimal value'' else [])"

definition opts_mask_descr_pr :: "u32 \<Rightarrow> string" where
  "opts_mask_descr_pr msk = concat (map (\<lambda>i. let opt = push_bit i 1 in if msk AND opt = 0 then [] else line (opt_descr opt)) [0..<12])"

definition arg_usage :: "nvm_cli_cmd_arg_type \<Rightarrow> string" where
  "arg_usage t = (case t of
       NVM_CLI_ARG_ADDR \<Rightarrow> ''dev_path 0xADDR''
     | NVM_CLI_ARG_ADDR_LIST \<Rightarrow> ''dev_path 0xADDR [0xADDR...]''
     | NVM_CLI_ARG_ADDR_SRC_DST \<Rightarrow> ''dev_path 0xSRC 0xDST''
     | NVM_CLI_ARG_DECVAL \<Rightarrow> ''dev_path val''
     | NVM_CLI_ARG_DECVAL_LIST \<Rightarrow> ''dev_path val [val...]''
     | NVM_CLI_ARG_DECVAL_BEGIN_END \<Rightarrow> ''dev_path begin end''
     | NVM_CLI_ARG_HEXVAL \<Rightarrow> ''dev_path 0xVAL''
     | NVM_CLI_ARG_HEXVAL_LIST \<Rightarrow> ''dev_path 0xVAL [0xVAL...]''
     | NVM_CLI_ARG_ADDR_LUN \<Rightarrow> ''dev_path ch lun''
     | NVM_CLI_ARG_ADDR_BLK \<Rightarrow> ''dev_path ch lun blk''
     | NVM_CLI_ARG_ADDR_PG \<Rightarrow> ''dev_path ch lun blk pg''
     | NVM_CLI_ARG_ADDR_SEC \<Rightarrow> ''dev_path ch lun pl blk pg sec''
     | NVM_CLI_ARG_ADDR_LUN_HEXVAL \<Rightarrow> ''dev_path ch lun 0xVAL''
     | NVM_CLI_ARG_ADDR_BLK_HEXVAL \<Rightarrow> ''dev_path ch lun blk 0xVAL''
     | NVM_CLI_ARG_ADDR_CHK_HEXVAL \<Rightarrow> ''dev_path grp pu chk 0xVAL''
     | NVM_CLI_ARG_ADDR_CHK_VAL_HEXVAL \<Rightarrow> ''dev_path grp pu chk NADDRS 0xOPT''
     | NVM_CLI_ARG_VCOPY \<Rightarrow> ''dev_path ch lun blk ch lun blk''
     | NVM_CLI_ARG_VCOPY_S20 \<Rightarrow> ''dev_path pugrp punit chunk pugrp punit chunk''
     | NVM_CLI_ARG_ADDR_S12 \<Rightarrow> ''dev_path ch lun blk pl pg sec''
     | NVM_CLI_ARG_ADDR_S20 \<Rightarrow> ''dev_path pugrp punit chunk sectr''
     | NVM_CLI_ARG_VBLK_LINE \<Rightarrow> ''dev_path ch_bgn ch_end lun_bgn lun_end blk''
     | NVM_CLI_ARG_VBLK_LINE_POS \<Rightarrow> ''dev_path ch_bgn ch_end lun_bgn lun_end blk count offset''
     | NVM_CLI_ARG_COUNT_OFFSET \<Rightarrow> ''dev_path count offset''
     | NVM_CLI_ARG_REGISTER \<Rightarrow> ''dev_path 0xREG''
     | NVM_CLI_ARG_REGISTER_VALUE \<Rightarrow> ''dev_path 0xREG 0xVAL''
     | NVM_CLI_ARG_DEV_PATH \<Rightarrow> ''dev_path''
     | NVM_CLI_ARG_NONE \<Rightarrow> [])"

definition nvm_cli_usage_pr :: "'f nvm_cli \<Rightarrow> string" where
  "nvm_cli_usage_pr cli =
     (let all_opts = fold (\<lambda>c m. m OR cc_opt_types c) (cli_cmds cli) 0 in
      (case cli_title cli of None \<Rightarrow> [] | Some t \<Rightarrow> t @ '' -- '' @ line (cli_version cli))
      @ (case cli_descr_short cli of None \<Rightarrow> [] | Some d \<Rightarrow> newline @ line d)
      @ newline @ line ''Usage:''
      @ concat (map (\<lambda>c. '' '' @ cli_name cli @ '' '' @ pad_blank 12 (cc_name c) @ '' '' @ arg_usage (cc_arg_type c)
          @ line (opts_mask_pr (cc_opt_types c))) (cli_cmds cli))
      @ (if all_opts \<noteq> 0 then newline @ line ''Options:'' @ opts_mask_descr_pr all_opts else [])
      @ (case cli_descr_long cli of
           None \<Rightarrow> newline @ line ''See: http://lightnvm.io/liblightnvm/cli/ for usage examples''
         | Some d \<Rightarrow> if length d > 4 then newline @ line ''Description:'' @ newline @ line d else []))"

section \<open>The life of a tool\<close>

text \<open>What follows \<open>parse_args\<close> starts again at the first positional argument.\<close>

definition init_parse :: "'w host \<Rightarrow> string list \<Rightarrow> ('f, 'w, unit) top" where
  "init_parse h argv =
     andThen get_cli (\<lambda>cli. andThen (lift_res (parse (drop 1 argv) cli)) (\<lambda>(n, cli). andThen (set_cli (\<lambda>_. cli)) (\<lambda>_.
     let rest = drop (1 + n) argv in
     andThen (lift_res (parse_args (selected_arg_type cli) rest (cli_args cli))) (\<lambda>(_, args).
     andThen (set_cli (upd_args (\<lambda>_. args))) (\<lambda>_.
     andThen (get_env h ''POSIXLY_CORRECT'') (\<lambda>posix.
     andThen (lift_res (parse_opts (posix \<noteq> None) rest (cli_opts cli))) (\<lambda>opts.
     set_cli (\<lambda>cli. cli\<lparr>cli_opts := opts\<rparr>))))))))"

definition nvm_cli_init :: "'w host \<Rightarrow> string list \<Rightarrow> ('f, 'w, unit) top" where
  "nvm_cli_init h argv =
     andThen get_cli (\<lambda>cli.
     andThen (as_einval (lift_res (parse_cli_name argv cli))) (\<lambda>(_, cli). andThen (set_cli (\<lambda>_. cli)) (\<lambda>_.
     if length argv = 1 \<or> help_is_wanted argv then set_cli (\<lambda>cli. cli\<lparr>cli_opts := (cli_opts cli)\<lparr>o_help := 1\<rparr>\<rparr>)
     else
       andThen (as_einval (init_parse h argv)) (\<lambda>_.
       andThen (as_einval (on_error (evar_and_dev_setup h) (close_dev h))) (\<lambda>_.
       as_einval (on_error (nvm_cli_opts_pfile_load h) (close_dev h)))))))"

definition nvm_cli_run :: "('f \<Rightarrow> ('f, 'w, int) top) \<Rightarrow> ('f, 'w, int) top" where
  "nvm_cli_run call =
     andThen get_cli (\<lambda>cli.
     if o_help (cli_opts cli) \<noteq> 0 then andThen (print (nvm_cli_usage_pr cli)) (\<lambda>_. ok 0)
     else case cli_cmd cli of
       None \<Rightarrow> fail (Fault NullDeref)
     | Some c \<Rightarrow> andThen (call (cc_func c)) (\<lambda>res. ok (if res \<noteq> 0 then 1 else 0)))"

definition nvm_cli_destroy :: "'w host \<Rightarrow> ('f, 'w, unit) top" where
  "nvm_cli_destroy h =
     andThen get_cli (\<lambda>cli.
     andThen (if a_dev (cli_args cli) \<noteq> None then nvm_cli_opts_pfile_unload h else ok ()) (\<lambda>_. close_dev h))"

text \<open>The function \<open>main\<close> of every tool; its result is the exit status.\<close>

definition tool_main :: "'w host \<Rightarrow> ('f \<Rightarrow> ('f, 'w, int) top) \<Rightarrow> string list \<Rightarrow> ('f, 'w, int) top" where
  "tool_main h call argv =
     andThen (attempt (nvm_cli_init h argv)) (\<lambda>r. case r of
       Inl e \<Rightarrow> ok 1
     | Inr _ \<Rightarrow> andThen (nvm_cli_run call) (\<lambda>res. andThen (nvm_cli_destroy h) (\<lambda>_. ok res)))"

end
