(* ===== verification/Nvm_Tools.thy ===== *)
theory Nvm_Tools
  imports Nvm_Cli Nvm_Vblk
begin

text \<open>
  The command-line tools, \<open>cli/cli_addr.c\<close>, \<open>cli/cli_dev.c\<close>, \<open>cli/cli_bbt.c\<close>, \<open>cli/cli_cmd.c\<close> and \<open>cli/cli_vblk.c\<close>: the
  functions of their commands and their tables. Each tool names its functions by a datatype; \<open>tool_main\<close> of
  \<open>Nvm_Cli\<close> is their \<open>main\<close>. The output of \<open>nvm_addr\<close> and \<open>nvm_dev\<close> is modelled; of the other tools, what they do to
  the device, to files and to memory, and what they return. The arguments \<open>ret\<close> are the addresses of
  local variables.
\<close>

section \<open>Shared\<close>

definition info_pr :: "string \<Rightarrow> ('f, 'w, unit) top" where
  "info_pr s = print (''# '' @ line s)"

text \<open>The first \<open>n\<close> elements of an array; a loop that runs past its end has undefined behaviour.\<close>

definition elems :: "int \<Rightarrow> 'a list \<Rightarrow> ('s, 'a list) op" where
  "elems n xs = (if nat n \<le> length xs then ok (take (nat n) xs) else fail (Fault OutOfBounds))"

text \<open>An operation on the device of the arguments.\<close>

definition in_dev :: "(nvm_dev \<times> 'w, 'a) op \<Rightarrow> ('f, 'w, 'a) top" where
  "in_dev m = (\<lambda>(cli, w, out). case a_dev (cli_args cli) of
       None \<Rightarrow> (Inl (Fault NullDeref), (cli, w, out))
     | Some dev \<Rightarrow> (case m (dev, w) of (r, (dev', w')) \<Rightarrow> (r, (upd_args (a_dev_update (\<lambda>_. Some dev')) cli, w', out))))"

text \<open>A call whose error return makes the caller return a value.\<close>

definition or_return :: "('s, 'a) op \<Rightarrow> int \<Rightarrow> ('a \<Rightarrow> ('s, int) op) \<Rightarrow> ('s, int) op" where
  "or_return m ret k = andThen (attempt m) (\<lambda>r. case r of Inl e \<Rightarrow> ok ret | Inr x \<Rightarrow> k x)"

definition get_args :: "('f, 'w, nvm_cli_cmd_args) top" where
  "get_args = andThen get_cli (\<lambda>cli. ok (cli_args cli))"

section \<open>Addresses\<close>

datatype addr_func = Cmd_fmt | Cmd_dfmt | Cmd_gen2dev | Cmd_gen2off | Cmd_gen2lpo | Cmd_dev2gen | Cmd_off2gen | Cmd_lpo2gen

definition cmd_fmt :: "('f, 'w, int) top" where
  "cmd_fmt = andThen get_cli (\<lambda>cli.
     if o_terse (cli_opts cli) \<noteq> 0 then andThen (print (nvm_addr_pr (a_addrs (cli_args cli) ! 0) @ newline)) (\<lambda>_. ok 0)
     else andThen the_dev (\<lambda>dev.
       andThen (lift_res (nvm_addr_prn (a_addrs (cli_args cli)) (a_naddrs (cli_args cli)) dev)) (\<lambda>s. andThen (print s) (\<lambda>_. ok 0))))"

definition cmd_dfmt :: "('f, 'w, int) top" where
  "cmd_dfmt = andThen (info_pr ''NOTICE: addresses are converted to gen to print geo'') (\<lambda>_.
     andThen get_args (\<lambda>args. andThen the_dev (\<lambda>dev. andThen (elems (a_nhex_vals args) (a_hex_vals args)) (\<lambda>vals.
     andThen (set_cli (upd_args (\<lambda>args. args\<lparr>a_addrs := map (nvm_addr_dev2gen dev) vals @ drop (length vals) (a_addrs args),
       a_naddrs := a_nhex_vals args\<rparr>))) (\<lambda>_.
     andThen get_args (\<lambda>args.
     andThen (lift_res (nvm_addr_prn (a_addrs args) (a_naddrs args) dev)) (\<lambda>s. andThen (print s) (\<lambda>_. ok 0))))))))"

text \<open>
  The two forms of a conversion: one result per line, or both sides of it. \<open>src\<close> and \<open>dst\<close> print an
  argument and its conversion.
\<close>

definition conversion :: "('a \<Rightarrow> string) \<Rightarrow> ('a \<Rightarrow> string) \<Rightarrow> string \<Rightarrow> string \<Rightarrow> 'a list \<Rightarrow> ('f, 'w, int) top" where
  "conversion src dst srcname dstname xs = andThen get_cli (\<lambda>cli.
     andThen (print (if o_terse (cli_opts cli) \<noteq> 0 then concat (map (\<lambda>x. line (dst x)) xs)
       else concat (map (\<lambda>x. ''- {'' @ srcname @ '': '' @ src x @ '', '' @ dstname @ '': '' @ dst x @ line ''}'') xs))) (\<lambda>_. ok 0))"

definition cmd_gen2dev :: "('f, 'w, int) top" where
  "cmd_gen2dev = andThen get_args (\<lambda>args. andThen the_dev (\<lambda>dev. andThen (elems (a_naddrs args) (a_addrs args)) (\<lambda>addrs.
     conversion nvm_addr_pr (\<lambda>a. pr_hex64 (nvm_addr_gen2dev dev a)) ''gen'' ''dev'' addrs)))"

definition cmd_gen2off :: "('f, 'w, int) top" where
  "cmd_gen2off = andThen get_args (\<lambda>args. andThen the_dev (\<lambda>dev. andThen (elems (a_naddrs args) (a_addrs args)) (\<lambda>addrs.
     conversion nvm_addr_pr (\<lambda>a. pr_word 64 (nvm_addr_gen2off dev a)) ''gen'' ''off'' addrs)))"

definition cmd_gen2lpo :: "('f, 'w, int) top" where
  "cmd_gen2lpo = andThen get_args (\<lambda>args. andThen the_dev (\<lambda>dev. andThen (elems (a_naddrs args) (a_addrs args)) (\<lambda>addrs.
     conversion nvm_addr_pr (\<lambda>a. pr_word 64 (nvm_addr_gen2lpo dev a)) ''gen'' ''lpo'' addrs)))"

definition cmd_dev2gen :: "('f, 'w, int) top" where
  "cmd_dev2gen = andThen get_args (\<lambda>args. andThen the_dev (\<lambda>dev. andThen (elems (a_nhex_vals args) (a_hex_vals args)) (\<lambda>vals.
     conversion pr_hex64 (\<lambda>x. nvm_addr_pr (nvm_addr_dev2gen dev x)) ''dev'' ''gen'' vals)))"

definition cmd_off2gen :: "('f, 'w, int) top" where
  "cmd_off2gen = andThen get_args (\<lambda>args. andThen the_dev (\<lambda>dev. andThen (elems (a_ndec_vals args) (a_dec_vals args)) (\<lambda>vals.
     conversion (pr_word 64) (\<lambda>x. nvm_addr_pr (nvm_addr_off2gen dev x)) ''off'' ''gen'' vals)))"

text \<open>The label of the argument is \<open>off\<close>, and a geometry without chunks divides by zero.\<close>

definition cmd_lpo2gen :: "('f, 'w, int) top" where
  "cmd_lpo2gen = andThen get_args (\<lambda>args. andThen the_dev (\<lambda>dev. andThen (elems (a_ndec_vals args) (a_dec_vals args)) (\<lambda>vals.
     andThen (lift_res (map_res (nvm_addr_lpo2gen dev) vals)) (\<lambda>gens.
     conversion (\<lambda>(x, _). pr_word 64 x) (\<lambda>(_, g). nvm_addr_pr g) ''off'' ''gen'' (zip vals gens)))))"

definition addr_call :: "addr_func \<Rightarrow> ('f, 'w, int) top" where
  "addr_call f = (case f of Cmd_fmt \<Rightarrow> cmd_fmt | Cmd_dfmt \<Rightarrow> cmd_dfmt | Cmd_gen2dev \<Rightarrow> cmd_gen2dev | Cmd_gen2off \<Rightarrow> cmd_gen2off
     | Cmd_gen2lpo \<Rightarrow> cmd_gen2lpo | Cmd_dev2gen \<Rightarrow> cmd_dev2gen | Cmd_off2gen \<Rightarrow> cmd_off2gen | Cmd_lpo2gen \<Rightarrow> cmd_lpo2gen)"

abbreviation (input) cmd :: "string \<Rightarrow> 'f \<Rightarrow> nvm_cli_cmd_arg_type \<Rightarrow> u32 \<Rightarrow> 'f nvm_cli_cmd" where
  "cmd name f t opts \<equiv> \<lparr>cc_name = name, cc_func = f, cc_arg_type = t, cc_opt_types = opts\<rparr>"

definition addr_cmds :: "addr_func nvm_cli_cmd list" where
  "addr_cmds =
    [cmd ''s12_to_gen'' Cmd_fmt NVM_CLI_ARG_ADDR_S12 (NVM_CLI_OPT_DEFAULT OR NVM_CLI_OPT_TERSE),
     cmd ''s20_to_gen'' Cmd_fmt NVM_CLI_ARG_ADDR_S20 (NVM_CLI_OPT_DEFAULT OR NVM_CLI_OPT_TERSE),
     cmd ''gen2dev'' Cmd_gen2dev NVM_CLI_ARG_ADDR_LIST (NVM_CLI_OPT_DEFAULT OR NVM_CLI_OPT_TERSE),
     cmd ''dev2gen'' Cmd_dev2gen NVM_CLI_ARG_HEXVAL_LIST (NVM_CLI_OPT_DEFAULT OR NVM_CLI_OPT_TERSE),
     cmd ''gen2off'' Cmd_gen2off NVM_CLI_ARG_ADDR_LIST (NVM_CLI_OPT_DEFAULT OR NVM_CLI_OPT_TERSE),
     cmd ''off2gen'' Cmd_off2gen NVM_CLI_ARG_DECVAL_LIST (NVM_CLI_OPT_DEFAULT OR NVM_CLI_OPT_TERSE),
     cmd ''gen2lpo'' Cmd_gen2lpo NVM_CLI_ARG_ADDR_LIST (NVM_CLI_OPT_DEFAULT OR NVM_CLI_OPT_TERSE),
     cmd ''lpo2gen'' Cmd_lpo2gen NVM_CLI_ARG_DECVAL_LIST (NVM_CLI_OPT_DEFAULT OR NVM_CLI_OPT_TERSE),
     cmd ''gen_as_geo'' Cmd_fmt NVM_CLI_ARG_ADDR_LIST NVM_CLI_OPT_DEFAULT,
     cmd ''dev_as_geo'' Cmd_dfmt NVM_CLI_ARG_HEXVAL_LIST NVM_CLI_OPT_DEFAULT]"

definition addr_cli :: "string \<Rightarrow> addr_func nvm_cli" where
  "addr_cli = cli_static ''NVM address (nvm_addr_*)'' ''Construct and convert addresses'' addr_cmds"

section \<open>Device information\<close>

datatype dev_func = Cmd_enum | Cmd_info

text \<open>\<open>cli_ptr\<close> is the address of the static structure as \<open>%p\<close> prints it.\<close>

definition cmd_enum :: "string \<Rightarrow> ('f, 'w, int) top" where
  "cmd_enum cli_ptr = andThen (info_pr ''Device enumeration'') (\<lambda>_. andThen (print (''Not implemented '' @ line cli_ptr)) (\<lambda>_. ok 0))"

definition cmd_info :: "'w host \<Rightarrow> ('f, 'w, int) top" where
  "cmd_info h = andThen (info_pr ''Device information -- nvm_dev_pr'') (\<lambda>_.
     andThen get_cli (\<lambda>cli. andThen the_dev (\<lambda>dev. andThen (the_be h dev) (\<lambda>be.
     andThen (print (if o_brief (cli_opts cli) \<noteq> 0
       then ''dev_'' @ nvm_dev_attr_pr (be_id be) (be_name be) dev @ ''dev_'' @ nvm_geo_pr (dev_geo dev)
       else nvm_dev_pr (be_id be) (be_name be) dev)) (\<lambda>_. ok 0)))))"

definition dev_call :: "'w host \<Rightarrow> string \<Rightarrow> dev_func \<Rightarrow> ('f, 'w, int) top" where
  "dev_call h cli_ptr f = (case f of Cmd_enum \<Rightarrow> cmd_enum cli_ptr | Cmd_info \<Rightarrow> cmd_info h)"

definition dev_cmds :: "dev_func nvm_cli_cmd list" where
  "dev_cmds = [cmd ''enum'' Cmd_enum NVM_CLI_ARG_NONE NVM_CLI_OPT_HELP, cmd ''info'' Cmd_info NVM_CLI_ARG_DEV_PATH (NVM_CLI_OPT_HELP OR NVM_CLI_OPT_BRIEF)]"

definition dev_cli :: "string \<Rightarrow> dev_func nvm_cli" where
  "dev_cli = cli_static ''NVM Device (nvm_dev_*)'' ''Retrieve device information'' dev_cmds"

section \<open>Bad-block tables\<close>

datatype bbt_func = Get | Set_state u8 | Mark_state u8

definition bbt_get :: "'w host \<Rightarrow> ptr \<Rightarrow> ('f, 'w, int) top" where
  "bbt_get h ret = andThen get_args (\<lambda>args. andThen the_dev (\<lambda>dev. andThen (the_be h dev) (\<lambda>be.
     or_return (in_dev (nvm_bbt_get (h_sys h) be (a_addrs args ! 0) ret)) (- 1) (\<lambda>_. ok 0))))"

text \<open>The result of \<open>nvm_bbt_set\<close> is only printed.\<close>

definition bbt_set :: "'w host \<Rightarrow> ptr \<Rightarrow> u8 \<Rightarrow> ('f, 'w, int) top" where
  "bbt_set h ret state = andThen get_args (\<lambda>args. andThen the_dev (\<lambda>dev. andThen (the_be h dev) (\<lambda>be.
     andThen (attempt (in_dev (nvm_bbt_get (h_sys h) be (a_addrs args ! 0) ret))) (\<lambda>r.
     or_return (in_world (nvm_bbt_alloc_cp (h_sys h) (case r of Inl e \<Rightarrow> None | Inr b \<Rightarrow> Some b))) (- 1) (\<lambda>bbt.
     let bbt = bbt\<lparr>bbt_blks := replicate (length (bbt_blks bbt)) state\<rparr> in
     andThen (attempt (in_dev (nvm_bbt_set (h_sys h) be bbt ret))) (\<lambda>_.
     andThen (in_world (nvm_bbt_free (h_sys h) (Some bbt))) (\<lambda>_. ok 0)))))))"

definition bbt_mark :: "'w host \<Rightarrow> ptr \<Rightarrow> u8 \<Rightarrow> ('f, 'w, int) top" where
  "bbt_mark h ret state = andThen get_args (\<lambda>args. andThen the_dev (\<lambda>dev. andThen (the_be h dev) (\<lambda>be.
     or_return (in_dev (nvm_bbt_mark (h_sys h) be (a_addrs args) (a_naddrs args) (ucast state) ret)) (- 1) (\<lambda>_. ok 0))))"

definition bbt_call :: "'w host \<Rightarrow> ptr \<Rightarrow> bbt_func \<Rightarrow> ('f, 'w, int) top" where
  "bbt_call h ret f = (case f of Get \<Rightarrow> bbt_get h ret | Set_state s \<Rightarrow> bbt_set h ret s | Mark_state s \<Rightarrow> bbt_mark h ret s)"

definition bbt_cmds :: "bbt_func nvm_cli_cmd list" where
  "bbt_cmds =
    [cmd ''get'' Get NVM_CLI_ARG_ADDR_LUN NVM_CLI_OPT_DEFAULT,
     cmd ''set_f'' (Set_state NVM_BBT_FREE) NVM_CLI_ARG_ADDR_LUN NVM_CLI_OPT_DEFAULT,
     cmd ''set_b'' (Set_state NVM_BBT_BAD) NVM_CLI_ARG_ADDR_LUN NVM_CLI_OPT_DEFAULT,
     cmd ''set_g'' (Set_state NVM_BBT_GBAD) NVM_CLI_ARG_ADDR_LUN NVM_CLI_OPT_DEFAULT,
     cmd ''set_d'' (Set_state NVM_BBT_DMRK) NVM_CLI_ARG_ADDR_LUN NVM_CLI_OPT_DEFAULT,
     cmd ''set_h'' (Set_state NVM_BBT_HMRK) NVM_CLI_ARG_ADDR_LUN NVM_CLI_OPT_DEFAULT,
     cmd ''mark_f'' (Mark_state NVM_BBT_FREE) NVM_CLI_ARG_ADDR_LIST NVM_CLI_OPT_DEFAULT,
     cmd ''mark_b'' (Mark_state NVM_BBT_BAD) NVM_CLI_ARG_ADDR_LIST NVM_CLI_OPT_DEFAULT,
     cmd ''mark_g'' (Mark_state NVM_BBT_GBAD) NVM_CLI_ARG_ADDR_LIST NVM_CLI_OPT_DEFAULT,
     cmd ''mark_d'' (Mark_state NVM_BBT_DMRK) NVM_CLI_ARG_ADDR_LIST NVM_CLI_OPT_DEFAULT,
     cmd ''mark_h'' (Mark_state NVM_BBT_HMRK) NVM_CLI_ARG_ADDR_LIST NVM_CLI_OPT_DEFAULT]"

definition bbt_cli :: "string \<Rightarrow> bbt_func nvm_cli" where
  "bbt_cli = cli_static ''NVM bad-block-table (nvm_bbt_*)'' ''Retrieve (get) and modify (set/mark) the bad block table'' bbt_cmds"

section \<open>Commands\<close>

datatype cmd_func = Cmd_idfy | Cmd_rprt | Cmd_gbbt | Cmd_sbbt | Cmd_erase | Cmd_write | Cmd_read | Cmd_copy | Cmd_pioc | Cmd_padc

definition on_dev :: "'w host \<Rightarrow> (nvm_dev \<Rightarrow> 'w nvm_be \<Rightarrow> nvm_cli_cmd_args \<Rightarrow> ('f, 'w, 'a) top) \<Rightarrow> ('f, 'w, 'a) top" where
  "on_dev h k = andThen get_args (\<lambda>args. andThen the_dev (\<lambda>dev. andThen (the_be h dev) (\<lambda>be. k dev be args)))"

definition cmd_idfy :: "'w host \<Rightarrow> ('f, 'w, int) top" where
  "cmd_idfy h = on_dev h (\<lambda>dev be args. or_return (in_world (nvm_cmd_idfy be dev NULL)) (- 1) (\<lambda>(buf, _).
     andThen (in_world (nvm_buf_free (h_sys h) dev buf)) (\<lambda>_. ok 0)))"

definition cmd_rprt :: "'w host \<Rightarrow> ('f, 'w, int) top" where
  "cmd_rprt h = on_dev h (\<lambda>dev be args.
     let addr = (if a_naddrs args \<noteq> 0 then Some (a_addrs args ! 0) else None) in
     or_return (in_world (nvm_cmd_rprt be dev addr 0 NULL)) (- 1) (\<lambda>(buf, _).
     andThen (in_world (nvm_buf_free (h_sys h) dev buf)) (\<lambda>_. ok 0)))"

definition cmd_gbbt :: "'w host \<Rightarrow> ('f, 'w, int) top" where
  "cmd_gbbt h = on_dev h (\<lambda>dev be args. or_return (in_world (nvm_cmd_gbbt be dev (a_addrs args ! 0) NULL)) (- 1) (\<lambda>(buf, _).
     andThen (in_world (nvm_buf_free (h_sys h) dev buf)) (\<lambda>_. ok 0)))"

text \<open>An error of \<open>nvm_cmd_sbbt\<close> is only printed.\<close>

definition cmd_sbbt :: "'w host \<Rightarrow> ('f, 'w, int) top" where
  "cmd_sbbt h = on_dev h (\<lambda>dev be args.
     andThen (attempt (in_world (nvm_cmd_sbbt be dev (a_addrs args) (a_naddrs args) (ucast (a_hex_vals args ! 0)) NULL))) (\<lambda>_. ok 0))"

text \<open>The local variable \<open>pmode\<close>, converted to the flags of a command.\<close>

definition pmode_flags :: "('f, 'w, u16) top" where
  "pmode_flags = andThen get_cli (\<lambda>cli. ok (word_of_int (ev_pmode (cli_evars cli))))"

definition cmd_erase :: "'w host \<Rightarrow> ptr \<Rightarrow> ('f, 'w, int) top" where
  "cmd_erase h ret = on_dev h (\<lambda>dev be args. andThen pmode_flags (\<lambda>pmode.
     or_return (in_world (nvm_cmd_erase be dev (a_addrs args) (a_naddrs args) NULL pmode ret)) 1 (\<lambda>_. ok 0)))"

text \<open>The sizes of the buffers are products of type \<open>size_t\<close> that are stored in an \<open>int\<close>.\<close>

definition io_nbytes :: "nvm_cli_cmd_args \<Rightarrow> u64 \<Rightarrow> u64" where
  "io_nbytes args n = word_of_int (c_int (uint (word_of_int (a_naddrs args) * n :: u64)))"

text \<open>The metadata buffer; the data buffer is released when it cannot be allocated.\<close>

definition io_meta :: "'w host \<Rightarrow> nvm_dev \<Rightarrow> ptr \<Rightarrow> u64 \<Rightarrow> ('w, ptr) op" where
  "io_meta h dev buf meta_tbytes =
     (if meta_tbytes = 0 then ok NULL
      else andThen (on_error (nvm_buf_alloc (h_sys h) dev meta_tbytes 0) (nvm_buf_free (h_sys h) dev buf)) (\<lambda>(meta, _).
        andThen (upd (sys_store (h_sys h) meta (replicate (unat meta_tbytes) 0))) (\<lambda>_. ok meta)))"

text \<open>The payload of a write: a file when the option \<open>-i\<close> is given, else a pattern.\<close>

definition file_opt :: "u32 \<Rightarrow> string option \<Rightarrow> nvm_cli_opts \<Rightarrow> string option" where
  "file_opt flag path opts = (if o_mask opts AND flag \<noteq> 0 then path else None)"

definition io_payload :: "'w host \<Rightarrow> nvm_dev \<Rightarrow> nvm_cli_opts \<Rightarrow> ptr \<Rightarrow> u64 \<Rightarrow> ('w, unit) op" where
  "io_payload h dev opts buf nbytes =
     (case file_opt NVM_CLI_OPT_FILE_INPUT (o_file_input opts) opts of
        Some path \<Rightarrow> on_error (nvm_buf_from_file h buf (unat nbytes) path) (nvm_buf_free (h_sys h) dev buf)
      | None \<Rightarrow> fill_at (h_sys h) buf nbytes)"

text \<open>The buffer of a read is written to the file of the option \<open>-o\<close>; an error is only printed.\<close>

definition io_save :: "'w host \<Rightarrow> nvm_cli_opts \<Rightarrow> ptr \<Rightarrow> u64 \<Rightarrow> ('w, unit) op" where
  "io_save h opts buf nbytes =
     (case file_opt NVM_CLI_OPT_FILE_OUTPUT (o_file_output opts) opts of
        Some path \<Rightarrow> andThen (attempt (nvm_buf_to_file h buf (unat nbytes) path)) (\<lambda>_. ok ())
      | None \<Rightarrow> ok ())"

text \<open>The result of a command, after what follows it on both paths.\<close>

definition err_then :: "('s, unit) op \<Rightarrow> ('s, unit) op \<Rightarrow> ('s, int) op" where
  "err_then m k = andThen (attempt m) (\<lambda>r. andThen k (\<lambda>_. ok (case r of Inl e \<Rightarrow> - 1 | Inr _ \<Rightarrow> 0)))"

definition free_bufs :: "'w host \<Rightarrow> nvm_dev \<Rightarrow> ptr \<Rightarrow> ptr \<Rightarrow> ('w, unit) op" where
  "free_bufs h dev buf meta = andThen (nvm_buf_free (h_sys h) dev buf) (\<lambda>_. nvm_buf_free (h_sys h) dev meta)"

definition cmd_write :: "'w host \<Rightarrow> ptr \<Rightarrow> ('f, 'w, int) top" where
  "cmd_write h ret = on_dev h (\<lambda>dev be args. andThen pmode_flags (\<lambda>pmode. andThen get_cli (\<lambda>cli.
     let nbytes = io_nbytes args (sector_nbytes (dev_geo dev)); meta_tbytes = io_nbytes args (meta_nbytes (dev_geo dev)) in
     or_return (in_world (nvm_buf_alloc (h_sys h) dev nbytes 0)) (- 1) (\<lambda>(buf, _).
     or_return (in_world (io_payload h dev (cli_opts cli) buf nbytes)) (- 1) (\<lambda>_.
     or_return (in_world (io_meta h dev buf meta_tbytes)) (- 1) (\<lambda>meta.
     in_world (err_then (nvm_cmd_write be dev (a_addrs args) (a_naddrs args) buf meta pmode ret) (free_bufs h dev buf meta))))))))"

definition cmd_read :: "'w host \<Rightarrow> ptr \<Rightarrow> ('f, 'w, int) top" where
  "cmd_read h ret = on_dev h (\<lambda>dev be args. andThen pmode_flags (\<lambda>pmode. andThen get_cli (\<lambda>cli.
     let nbytes = io_nbytes args (sector_nbytes (dev_geo dev)); meta_tbytes = io_nbytes args (meta_nbytes (dev_geo dev)) in
     or_return (in_world (nvm_buf_alloc (h_sys h) dev nbytes 0)) (- 1) (\<lambda>(buf, _).
     or_return (in_world (io_meta h dev buf meta_tbytes)) (- 1) (\<lambda>meta.
     in_world (err_then (nvm_cmd_read be dev (a_addrs args) (a_naddrs args) buf meta pmode ret)
       (andThen (io_save h (cli_opts cli) buf nbytes) (\<lambda>_. free_bufs h dev buf meta))))))))"

text \<open>
  Copying a chunk; the number of bytes is returned when every
  command succeeded, converted to \<open>int\<close>.
\<close>

definition copy_step :: "'w nvm_be \<Rightarrow> nvm_dev \<Rightarrow> ptr \<Rightarrow> nvm_addr \<Rightarrow> nvm_addr \<Rightarrow> u64 \<Rightarrow> u64 \<Rightarrow> u64 \<Rightarrow> u64 \<Rightarrow> u64 \<Rightarrow> ('w, u64) op" where
  "copy_step be dev ret src dst ws cmd_nsectr_max sectr_end sectr_ofz nerr =
     (let cmd_nsectr = NVM_MIN (sectr_end - sectr_ofz + 1) cmd_nsectr_max;
        sectrs = map (\<lambda>idx. let sectr = sectr_ofz + of_nat idx in sectr mod ws + sectr div ws * ws) [0..<unat cmd_nsectr] in
      counted (nvm_cmd_copy be dev (map (\<lambda>s. set_l_sectr s src) sectrs) (map (\<lambda>s. set_l_sectr s dst) sectrs)
        (c_int (uint cmd_nsectr)) 0 ret) nerr)"

definition cmd_copy :: "'w host \<Rightarrow> ptr \<Rightarrow> ('f, 'w, int) top" where
  "cmd_copy h ret = on_dev h (\<lambda>dev be args.
     let ws = ws_u32 (nvm_dev_get_ws_min dev); nbytes = l_nbytes (dev_geo dev); count = nbytes * l_nsectr (dev_geo dev);
       src = a_addrs args ! 0; dst = a_addrs args ! 1; nsectr = count div nbytes; sectr_bgn = 0 div nbytes;
       sectr_end = sectr_bgn + nsectr - 1; cmd_nsectr_max = (NVM_NADDR_MAX div ws) * ws in
     if nbytes = 0 \<or> ws = 0 then fail (Fault DivByZero)
     else if nsectr mod ws \<noteq> 0 then ok (- 1)
     else if sectr_bgn mod ws \<noteq> 0 then ok (- 1)
     else andThen (in_world (returning (for_op (\<lambda>ofz. ofz \<le> sectr_end) (\<lambda>ofz. ofz + cmd_nsectr_max)
         (copy_step be dev ret src dst ws cmd_nsectr_max sectr_end) sectr_bgn 0))) (\<lambda>nerr.
       ok (if nerr \<noteq> 0 then - 1 else c_int (uint count))))"

text \<open>A command read from a file, with the flags of its submission.\<close>

definition cmd_pass :: "'w host \<Rightarrow> ptr \<Rightarrow> u32 \<Rightarrow> ('f, 'w, int) top" where
  "cmd_pass h ret flags = on_dev h (\<lambda>dev be args. andThen get_pfile (\<lambda>pf.
     if pf_bufs pf ! 0 = NULL then ok (- 1)
     else or_return (in_world (\<lambda>w. nvm_cmd_pass be dev (h_load_cmd h (pf_bufs pf ! 0) w) (pf_bufs pf ! 2) (pf_nbytes pf ! 2)
         (pf_bufs pf ! 1) (pf_nbytes pf ! 1) flags ret w)) (- 1) (\<lambda>_.
       or_return (nvm_cli_opts_pfile_dump h) (- 1) (\<lambda>_. ok 0))))"

definition cmd_pioc :: "'w host \<Rightarrow> ptr \<Rightarrow> ('f, 'w, int) top" where
  "cmd_pioc h ret = cmd_pass h ret (NVM_CMD_SYNC OR NVM_CMD_PIOC)"

definition cmd_padc :: "'w host \<Rightarrow> ptr \<Rightarrow> ('f, 'w, int) top" where
  "cmd_padc h ret = cmd_pass h ret (NVM_CMD_SYNC OR NVM_CMD_PADC)"

definition cmd_call :: "'w host \<Rightarrow> ptr \<Rightarrow> cmd_func \<Rightarrow> ('f, 'w, int) top" where
  "cmd_call h ret f = (case f of Cmd_idfy \<Rightarrow> cmd_idfy h | Cmd_rprt \<Rightarrow> cmd_rprt h | Cmd_gbbt \<Rightarrow> cmd_gbbt h | Cmd_sbbt \<Rightarrow> cmd_sbbt h
     | Cmd_erase \<Rightarrow> cmd_erase h ret | Cmd_write \<Rightarrow> cmd_write h ret | Cmd_read \<Rightarrow> cmd_read h ret | Cmd_copy \<Rightarrow> cmd_copy h ret
     | Cmd_pioc \<Rightarrow> cmd_pioc h ret | Cmd_padc \<Rightarrow> cmd_padc h ret)"

definition cmd_cmds :: "cmd_func nvm_cli_cmd list" where
  "cmd_cmds =
    [cmd ''idfy'' Cmd_idfy NVM_CLI_ARG_DEV_PATH NVM_CLI_OPT_DEFAULT,
     cmd ''rprt_all'' Cmd_rprt NVM_CLI_ARG_DEV_PATH NVM_CLI_OPT_DEFAULT,
     cmd ''rprt_lun'' Cmd_rprt NVM_CLI_ARG_ADDR_LUN NVM_CLI_OPT_DEFAULT,
     cmd ''gbbt'' Cmd_gbbt NVM_CLI_ARG_ADDR_LUN NVM_CLI_OPT_DEFAULT,
     cmd ''sbbt'' Cmd_sbbt NVM_CLI_ARG_ADDR_BLK_HEXVAL NVM_CLI_OPT_DEFAULT,
     cmd ''erase'' Cmd_erase NVM_CLI_ARG_ADDR_LIST NVM_CLI_OPT_DEFAULT,
     cmd ''write'' Cmd_write NVM_CLI_ARG_ADDR_LIST (NVM_CLI_OPT_DEFAULT OR NVM_CLI_OPT_FILE_INPUT),
     cmd ''read'' Cmd_read NVM_CLI_ARG_ADDR_LIST (NVM_CLI_OPT_DEFAULT OR NVM_CLI_OPT_FILE_OUTPUT),
     cmd ''copy'' Cmd_copy NVM_CLI_ARG_VCOPY_S20 NVM_CLI_OPT_DEFAULT,
     cmd ''pioc'' Cmd_pioc NVM_CLI_ARG_DEV_PATH
       (NVM_CLI_OPT_DEFAULT OR NVM_CLI_OPT_FILE_CMD OR NVM_CLI_OPT_FILE_META OR NVM_CLI_OPT_FILE_DATA),
     cmd ''padc'' Cmd_padc NVM_CLI_ARG_DEV_PATH
       (NVM_CLI_OPT_DEFAULT OR NVM_CLI_OPT_FILE_CMD OR NVM_CLI_OPT_FILE_META OR NVM_CLI_OPT_FILE_DATA)]"

definition cmd_cli :: "string \<Rightarrow> cmd_func nvm_cli" where
  "cmd_cli = cli_static ''NVM command (C API: nvm_cmd_*)'' ''Construct and execute NVMe/NVM commands'' cmd_cmds"

section \<open>Virtual blocks\<close>

datatype vblk_action = Erase | Write | Read | Pread | Pad
datatype vblk_func = Single vblk_action | Set_of vblk_action | Line_of vblk_action | Copy

definition vblk_cmd_mode :: "'w host \<Rightarrow> nvm_dev \<Rightarrow> 'w nvm_be \<Rightarrow> (nvm_vblk \<times> 'w, unit) op" where
  "vblk_cmd_mode h dev be = (\<lambda>(v, w).
     let env = (\<lambda>s. sys_getenv (h_sys h) s w); depth = (case env ''NVM_CLI_VBLK_ASYNC_DEPTH'' of None \<Rightarrow> 0 | Some s \<Rightarrow> c_scan_u32 s) in
     andThen (attempt (if env ''NVM_CLI_VBLK_ASYNC'' \<noteq> None then nvm_vblk_set_async (h_sys h) be dev depth else ok ())) (\<lambda>_.
     if env ''NVM_CLI_VBLK_SCALAR'' \<noteq> None then upd (\<lambda>(v, w). (nvm_vblk_set_scalar v, w)) else ok ()) (v, w))"

definition get_vblk :: "(nvm_vblk \<times> 'w, nvm_vblk) op" where
  "get_vblk s = (Inr (fst s), s)"

definition erasing :: "'w nvm_be \<Rightarrow> nvm_dev \<Rightarrow> ptr \<Rightarrow> (nvm_vblk \<times> 'w, int) lop" where
  "erasing be dev ret = (\<lambda>(v, w). case nvm_vblk_erase be dev ret v w of None \<Rightarrow> None
     | Some (Inl e, w') \<Rightarrow> Some (Inl e, (v, w')) | Some (Inr (r, v'), w') \<Rightarrow> Some (Inr r, (v', w')))"

definition vblk_erase :: "'w host \<Rightarrow> nvm_dev \<Rightarrow> 'w nvm_be \<Rightarrow> ptr \<Rightarrow> (nvm_vblk \<times> 'w, int) op" where
  "vblk_erase h dev be ret = andThen (vblk_cmd_mode h dev be) (\<lambda>_. or_return (returning (erasing be dev ret)) (- 1) ok)"

text \<open>A transfer that returned, successfully or not, is followed by the release of the buffer.\<close>

definition transfer_then :: "(nvm_vblk \<times> 'w, int) lop \<Rightarrow> (nvm_vblk \<times> 'w, unit) op \<Rightarrow> (nvm_vblk \<times> 'w, int) op" where
  "transfer_then m k = andThen (or_return (returning m) (- 1) ok) (\<lambda>res. andThen k (\<lambda>_. ok res))"

definition vblk_write :: "'w host \<Rightarrow> nvm_cli_opts \<Rightarrow> nvm_dev \<Rightarrow> 'w nvm_be \<Rightarrow> ptr \<Rightarrow> (nvm_vblk \<times> 'w, int) op" where
  "vblk_write h opts dev be ret = andThen (vblk_cmd_mode h dev be) (\<lambda>_. andThen get_vblk (\<lambda>v.
     or_return (with_vblk (nvm_buf_alloc (h_sys h) dev (vblk_nbytes v) 0)) (- 1) (\<lambda>(buf, _).
     or_return (with_vblk (io_payload h dev opts buf (vblk_nbytes v))) (- 1) (\<lambda>_.
     transfer_then (nvm_vblk_write (h_sys h) be dev ret buf (vblk_nbytes v)) (with_vblk (nvm_buf_free (h_sys h) dev buf))))))"

definition vblk_read :: "'w host \<Rightarrow> nvm_cli_opts \<Rightarrow> nvm_dev \<Rightarrow> 'w nvm_be \<Rightarrow> ptr \<Rightarrow> (nvm_vblk \<times> 'w, int) op" where
  "vblk_read h opts dev be ret = andThen (vblk_cmd_mode h dev be) (\<lambda>_. andThen get_vblk (\<lambda>v.
     or_return (with_vblk (nvm_buf_alloc (h_sys h) dev (vblk_nbytes v) 0)) (- 1) (\<lambda>(buf, _).
     andThen (with_vblk (fill_at (h_sys h) buf (vblk_nbytes v))) (\<lambda>_.
     transfer_then (nvm_vblk_read (h_sys h) be dev ret buf (vblk_nbytes v))
       (with_vblk (andThen (io_save h opts buf (vblk_nbytes v)) (\<lambda>_. nvm_buf_free (h_sys h) dev buf)))))))"

definition vblk_pread :: "'w host \<Rightarrow> nvm_cli_opts \<Rightarrow> nvm_cli_cmd_args \<Rightarrow> nvm_dev \<Rightarrow> 'w nvm_be \<Rightarrow> ptr \<Rightarrow> (nvm_vblk \<times> 'w, int) op" where
  "vblk_pread h opts args dev be ret = andThen (vblk_cmd_mode h dev be) (\<lambda>_.
     let nbytes = a_dec_vals args ! 0; offset = a_dec_vals args ! 1 in
     or_return (with_vblk (nvm_buf_alloc (h_sys h) dev nbytes 0)) (- 1) (\<lambda>(buf, _).
     transfer_then (nvm_vblk_pread (h_sys h) be dev ret buf nbytes offset)
       (with_vblk (andThen (io_save h opts buf nbytes) (\<lambda>_. nvm_buf_free (h_sys h) dev buf)))))"

definition vblk_pad :: "'w host \<Rightarrow> nvm_dev \<Rightarrow> 'w nvm_be \<Rightarrow> ptr \<Rightarrow> (nvm_vblk \<times> 'w, int) op" where
  "vblk_pad h dev be ret = andThen (vblk_cmd_mode h dev be) (\<lambda>_. or_return (returning (nvm_vblk_pad (h_sys h) be dev ret)) (- 1) ok)"

definition vblk_act :: "'w host \<Rightarrow> ptr \<Rightarrow> 'f nvm_cli \<Rightarrow> nvm_dev \<Rightarrow> 'w nvm_be \<Rightarrow> vblk_action \<Rightarrow> (nvm_vblk \<times> 'w, int) op" where
  "vblk_act h ret cli dev be act = (case act of
       Erase \<Rightarrow> vblk_erase h dev be ret
     | Write \<Rightarrow> vblk_write h (cli_opts cli) dev be ret
     | Read \<Rightarrow> vblk_read h (cli_opts cli) dev be ret
     | Pread \<Rightarrow> vblk_pread h (cli_opts cli) (cli_args cli) dev be ret
     | Pad \<Rightarrow> vblk_pad h dev be ret)"

text \<open>A virtual block for the time of an action.\<close>

definition on_vblk :: "'w sys \<Rightarrow> nvm_vblk \<Rightarrow> (nvm_vblk \<times> 'w, int) op \<Rightarrow> ('w, int) op" where
  "on_vblk sys v m w = (case m (v, w) of
       (Inl e, (v', w')) \<Rightarrow> (Inl e, w')
     | (Inr res, (v', w')) \<Rightarrow> andThen (nvm_vblk_free sys v') (\<lambda>_. ok (if res < 0 then - 1 else 0)) w')"

text \<open>The numbers of \<open>errno\<close> on Linux; some of the functions return \<open>errno\<close> when the allocation fails.\<close>

definition errno_no :: "errno \<Rightarrow> int" where
  "errno_no e = (case e of EINVAL \<Rightarrow> 22 | ENOMEM \<Rightarrow> 12 | EIO \<Rightarrow> 5 | ENOSYS \<Rightarrow> 38 | EAGAIN \<Rightarrow> 11 | ENOTBLK \<Rightarrow> 15 | EOTHER n \<Rightarrow> n | EKEEP \<Rightarrow> 0)"

definition vblk_single :: "'w host \<Rightarrow> nvm_dev \<Rightarrow> nvm_addr list \<Rightarrow> nat \<Rightarrow> ('w, nvm_vblk) op" where
  "vblk_single h dev addrs i = nvm_vblk_alloc (h_sys h) (h_dev_ptr h dev) dev (drop i addrs) 1"

definition cmd_vblk :: "'w host \<Rightarrow> ptr \<Rightarrow> vblk_action \<Rightarrow> ('f, 'w, int) top" where
  "cmd_vblk h ret act = on_dev h (\<lambda>dev be args. andThen get_cli (\<lambda>cli.
     or_return (in_world (vblk_single h dev (a_addrs args) 0)) (- 1) (\<lambda>v. in_world (on_vblk (h_sys h) v (vblk_act h ret cli dev be act)))))"

definition cmd_vblk_line :: "'w host \<Rightarrow> ptr \<Rightarrow> vblk_action \<Rightarrow> ('f, 'w, int) top" where
  "cmd_vblk_line h ret act = on_dev h (\<lambda>dev be args. andThen get_cli (\<lambda>cli.
     let bgn = a_addrs args ! 0; end = a_addrs args ! 1 in
     or_return (in_world (nvm_vblk_alloc_line (h_sys h) (h_dev_ptr h dev) dev (uint (g_ch bgn)) (uint (g_ch end))
         (uint (g_lun bgn)) (uint (g_lun end)) (uint (g_blk bgn)))) (- 1) (\<lambda>v.
       in_world (on_vblk (h_sys h) v (vblk_act h ret cli dev be act)))))"

definition cmd_vblk_set :: "'w host \<Rightarrow> ptr \<Rightarrow> vblk_action \<Rightarrow> ('f, 'w, int) top" where
  "cmd_vblk_set h ret act = on_dev h (\<lambda>dev be args. andThen get_cli (\<lambda>cli.
     andThen (attempt (in_world (nvm_vblk_alloc (h_sys h) (h_dev_ptr h dev) dev (a_addrs args) (a_naddrs args)))) (\<lambda>r. case r of
       Inl e \<Rightarrow> ok (if act = Erase then - 1 else errno_no e)
     | Inr v \<Rightarrow> in_world (on_vblk (h_sys h) v (vblk_act h ret cli dev be act)))))"

definition cmd_vblk_copy :: "'w host \<Rightarrow> ptr \<Rightarrow> ('f, 'w, int) top" where
  "cmd_vblk_copy h ret = on_dev h (\<lambda>dev be args.
     or_return (in_world (vblk_single h dev (a_addrs args) 0)) (- 1) (\<lambda>src.
     or_return (in_world (on_error (vblk_single h dev (a_addrs args) 1) (nvm_vblk_free (h_sys h) src))) (- 1) (\<lambda>dst.
     andThen (or_return (in_world (returning (nvm_vblk_copy be dev ret src dst))) (- 1) ok) (\<lambda>res.
     andThen (in_world (nvm_vblk_free (h_sys h) src)) (\<lambda>_. andThen (in_world (nvm_vblk_free (h_sys h) dst)) (\<lambda>_.
     ok (if res < 0 then - 1 else 0)))))))"

definition vblk_call :: "'w host \<Rightarrow> ptr \<Rightarrow> vblk_func \<Rightarrow> ('f, 'w, int) top" where
  "vblk_call h ret f = (case f of Single a \<Rightarrow> cmd_vblk h ret a | Set_of a \<Rightarrow> cmd_vblk_set h ret a | Line_of a \<Rightarrow> cmd_vblk_line h ret a
     | Copy \<Rightarrow> cmd_vblk_copy h ret)"

definition vblk_cmds :: "vblk_func nvm_cli_cmd list" where
  "vblk_cmds =
    [cmd ''erase'' (Single Erase) NVM_CLI_ARG_ADDR NVM_CLI_OPT_DEFAULT,
     cmd ''write'' (Single Write) NVM_CLI_ARG_ADDR (NVM_CLI_OPT_DEFAULT OR NVM_CLI_OPT_FILE_INPUT),
     cmd ''read'' (Single Read) NVM_CLI_ARG_ADDR (NVM_CLI_OPT_DEFAULT OR NVM_CLI_OPT_FILE_OUTPUT),
     cmd ''pad'' (Single Pad) NVM_CLI_ARG_ADDR NVM_CLI_OPT_DEFAULT,
     cmd ''copy'' Copy NVM_CLI_ARG_ADDR_SRC_DST NVM_CLI_OPT_DEFAULT,
     cmd ''set_erase'' (Set_of Erase) NVM_CLI_ARG_ADDR_LIST NVM_CLI_OPT_DEFAULT,
     cmd ''set_write'' (Set_of Write) NVM_CLI_ARG_ADDR_LIST (NVM_CLI_OPT_DEFAULT OR NVM_CLI_OPT_FILE_INPUT),
     cmd ''set_read'' (Set_of Read) NVM_CLI_ARG_ADDR_LIST (NVM_CLI_OPT_DEFAULT OR NVM_CLI_OPT_FILE_OUTPUT),
     cmd ''set_pad'' (Set_of Pad) NVM_CLI_ARG_ADDR_LIST NVM_CLI_OPT_DEFAULT,
     cmd ''line_erase'' (Line_of Erase) NVM_CLI_ARG_VBLK_LINE NVM_CLI_OPT_DEFAULT,
     cmd ''line_write'' (Line_of Write) NVM_CLI_ARG_VBLK_LINE (NVM_CLI_OPT_DEFAULT OR NVM_CLI_OPT_FILE_INPUT),
     cmd ''line_read'' (Line_of Read) NVM_CLI_ARG_VBLK_LINE (NVM_CLI_OPT_DEFAULT OR NVM_CLI_OPT_FILE_OUTPUT),
     cmd ''line_pread'' (Line_of Pread) NVM_CLI_ARG_VBLK_LINE_POS (NVM_CLI_OPT_DEFAULT OR NVM_CLI_OPT_FILE_OUTPUT),
     cmd ''line_pad'' (Line_of Pad) NVM_CLI_ARG_VBLK_LINE NVM_CLI_OPT_DEFAULT]"

definition vblk_cli :: "string \<Rightarrow> vblk_func nvm_cli" where
  "vblk_cli = cli_static ''NVM Virtual Block (nvm_vblk_*)'' ''Erase, write, and read virtual blocks'' vblk_cmds"

end
