(* ===== verification/Nvm_Cli_Life.thy ===== *)
theory Nvm_Cli_Life
  imports Nvm_Cli
begin

text \<open>
  The life of a command-line tool: what \<open>nvm_cli_init\<close> keeps, and which device it opens and how the environment
  configures it. Operations of \<open>Nvm_Cli\<close> are treated by two forms of judgement, the preservation of a predicate and
  triples for operations that return.
\<close>

section \<open>Preservation\<close>

text \<open>
  An operation stays in \<open>P\<close> when it never leaves it, whatever it returns; the rules follow the structure of the
  operations.
\<close>

definition stays :: "('s \<Rightarrow> bool) \<Rightarrow> ('s, 'a) op \<Rightarrow> bool" where
  "stays P m \<longleftrightarrow> (\<forall>s. P s \<longrightarrow> P (snd (m s)))"

named_theorems stays_intros \<open>rules for the preservation of a predicate by an operation\<close>

lemma staysD: "stays P m \<Longrightarrow> P s \<Longrightarrow> m s = (r, s') \<Longrightarrow> P s'"
  by (auto simp: stays_def dest!: spec [of _ s])

lemma stays_basic [stays_intros]: "stays P (ok x)" "stays P (fail e)" "stays P (lift_res r)"
  by (simp_all add: stays_def ok_def fail_def lift_res_def)

lemma stays_get [stays_intros]: "stays P get_cli" "stays P (get_env h name)"
  by (auto simp: stays_def get_cli_def get_env_def)

lemma stays_andThen [stays_intros]: "stays P m \<Longrightarrow> (\<And>x. stays P (f x)) \<Longrightarrow> stays P (andThen m f)"
  unfolding stays_def andThen_def by (auto split: prod.splits sum.splits)

lemma stays_on_error [stays_intros]: "stays P m \<Longrightarrow> stays P h \<Longrightarrow> stays P (on_error m h)"
  unfolding stays_def on_error_def by (auto split: prod.splits sum.splits failure.splits)

lemma stays_attempt [stays_intros]: "stays P m \<Longrightarrow> stays P (attempt m)"
  unfolding stays_def attempt_def by (auto split: prod.splits sum.splits failure.splits)

lemma stays_as_einval [stays_intros]: "stays P m \<Longrightarrow> stays P (as_einval m)"
  unfolding as_einval_def by (intro stays_intros) (auto split: sum.split intro: stays_intros)

lemma stays_each [stays_intros]: "(\<And>i. i \<in> set is \<Longrightarrow> stays P (f i)) \<Longrightarrow> stays P (each_op f is)"
  by (induction "is") (auto intro: stays_intros)

lemma stays_if [stays_intros]: "(b \<Longrightarrow> stays P m) \<Longrightarrow> (\<not> b \<Longrightarrow> stays P n) \<Longrightarrow> stays P (if b then m else n)"
  by simp

lemma stays_cases [stays_intros]:
  "stays P m \<Longrightarrow> (\<And>x. stays P (f x)) \<Longrightarrow> stays P (case v of None \<Rightarrow> m | Some x \<Rightarrow> f x)"
  "(\<And>a b. stays P (g a b)) \<Longrightarrow> stays P (case p of (a, b) \<Rightarrow> g a b)"
  by (auto split: option.split prod.split)

text \<open>Predicates of the structure alone, and predicates of the world alone.\<close>

definition on_cli :: "('f nvm_cli \<Rightarrow> bool) \<Rightarrow> ('f, 'w) tool \<Rightarrow> bool" where
  "on_cli Q s \<longleftrightarrow> Q (fst s)"

definition on_w :: "('w \<Rightarrow> bool) \<Rightarrow> ('f, 'w) tool \<Rightarrow> bool" where
  "on_w Q s \<longleftrightarrow> Q (fst (snd s))"

lemma stays_on_cli [stays_intros]: "stays (on_cli Q) (in_world m)" "stays (on_cli Q) (print t)" "(\<And>c. Q c \<Longrightarrow> Q (f c)) \<Longrightarrow> stays (on_cli Q) (set_cli f)"
  by (auto simp: stays_def on_cli_def in_world_def print_def set_cli_def split: prod.splits)

lemma stays_on_w [stays_intros]: "stays Q m \<Longrightarrow> stays (on_w Q) (in_world m)" "stays (on_w Q) (print t)" "stays (on_w Q) (set_cli f)"
  by (auto simp: stays_def on_w_def in_world_def print_def set_cli_def split: prod.splits)

lemma stays_the_dev [stays_intros]: "stays P the_dev" "stays P (the_be h dev)" "stays P get_pfile"
  unfolding the_dev_def the_be_def get_pfile_def by (intro stays_intros)+

section \<open>The type of the structure\<close>

text \<open>
  The arrays keep their lengths, the counts stay within them, the path fits its array, and the selected
  command is one of the table.
\<close>

definition args_wf :: "nvm_cli_cmd_args \<Rightarrow> bool" where
  "args_wf args \<longleftrightarrow> length (a_addrs args) = NVM_CLI_VALS \<and> length (a_dec_vals args) = NVM_CLI_VALS \<and> length (a_hex_vals args) = NVM_CLI_VALS
     \<and> a_naddrs args \<in> {0..1024} \<and> a_ndec_vals args \<in> {0..1024} \<and> a_nhex_vals args \<in> {0..1024} \<and> length (a_dev_path args) \<le> NVM_DEV_PATH_LEN"

definition opts_wf :: "nvm_cli_opts \<Rightarrow> bool" where
  "opts_wf opts \<longleftrightarrow> (let pf = o_pfile opts in length (pf_bufs pf) = 3 \<and> length (pf_dups pf) = 3 \<and> length (pf_paths pf) = 3 \<and> length (pf_nbytes pf) = 3)"

definition cli_wf :: "'f nvm_cli \<Rightarrow> bool" where
  "cli_wf cli \<longleftrightarrow> args_wf (cli_args cli) \<and> opts_wf (cli_opts cli) \<and> length (cli_name cli) < NVM_CLI_CMD_LEN
     \<and> (\<forall>c. cli_cmd cli = Some c \<longrightarrow> c \<in> set (cli_cmds cli))"

lemma args_wf_zero: "args_wf args_zero" "opts_wf opts_zero" "cli_wf (cli_static title descr cmds version)"
  by (simp_all add: args_wf_def args_zero_def opts_wf_def opts_zero_def pfile_zero_def cli_wf_def cli_static_def)

lemma args_wf_put [simp]:
  "args_wf args \<Longrightarrow> args_wf (put_addr i a args)" "args_wf args \<Longrightarrow> args_wf (put_dec i x args)" "args_wf args \<Longrightarrow> args_wf (put_hex i x args)"
  "args_wf args \<Longrightarrow> n \<in> {0..1024} \<Longrightarrow> args_wf (args\<lparr>a_naddrs := n\<rparr>)" "args_wf args \<Longrightarrow> n \<in> {0..1024} \<Longrightarrow> args_wf (args\<lparr>a_ndec_vals := n\<rparr>)"
  "args_wf args \<Longrightarrow> n \<in> {0..1024} \<Longrightarrow> args_wf (args\<lparr>a_nhex_vals := n\<rparr>)"
  by (simp_all add: args_wf_def put_addr_def put_dec_def put_hex_def)

lemma push_wf:
  "args_wf args \<Longrightarrow> push_addr a args = Inr args' \<Longrightarrow> args_wf args'" "args_wf args \<Longrightarrow> push_dec x args = Inr args' \<Longrightarrow> args_wf args'"
  "args_wf args \<Longrightarrow> push_hex x args = Inr args' \<Longrightarrow> args_wf args'"
  by (auto simp: push_addr_def push_dec_def push_hex_def args_wf_def put_addr_def put_dec_def put_hex_def split: if_splits)

lemma res_then_Inr: "res_then r f = Inr y \<longleftrightarrow> (\<exists>x. r = Inr x \<and> f x = Inr y)"
  by (cases r) (simp_all add: res_then_def)

lemma taking_Inr: "taking inc argv r = Inr (n, args) \<longleftrightarrow> inc \<le> length argv \<and> n = inc \<and> r = Inr args"
  by (cases r) (auto simp: taking_def)

lemma fill_vals_wf: "fill_vals xs vals = Inr ys \<Longrightarrow> length vals = NVM_CLI_VALS \<Longrightarrow> length ys = NVM_CLI_VALS \<and> length xs \<le> NVM_CLI_VALS"
  by (auto simp: fill_vals_def split: if_splits)

lemmas parser_defs = parse_arg_count_offset_def parse_arg_vcopy_def parse_arg_vcopy_s20_def parse_arg_addr_s12_def parse_arg_addr_s20_def
  parse_arg_vblk_line_def parse_arg_vblk_line_pos_def parse_arg_addr_sec_def parse_arg_addr_lun_hexval_def parse_arg_addr_blk_hexval_def
  parse_arg_addr_chk_hexval_def parse_arg_addr_chk_val_hexval_def parse_arg_addr_pg_def parse_arg_addr_blk_def parse_arg_addr_lun_def
  parse_arg_register_def parse_arg_addr_def parse_arg_addr_src_dst_def parse_arg_decval_def
  parse_arg_decval_begin_end_def parse_arg_hexval_def

lemma list_parsers_wf:
  assumes "args_wf args"
  shows "parse_arg_addr_list argv args = Inr (n, args') \<Longrightarrow> args_wf args'" "parse_arg_decval_list argv args = Inr (n, args') \<Longrightarrow> args_wf args'"
    "parse_arg_hexval_list argv args = Inr (n, args') \<Longrightarrow> args_wf args'"
  using assms by (auto simp: parse_arg_addr_list_def parse_arg_decval_list_def parse_arg_hexval_list_def Let_def res_then_Inr args_wf_def
    dest!: fill_vals_wf)

lemma register_value_wf: "args_wf args \<Longrightarrow> parse_arg_register_value argv args = Inr (n, args') \<Longrightarrow> args_wf args'"
  unfolding parse_arg_register_value_def taking_def
  by (cases "push_hex (arg_hex (argv ! 0)) args"; cases "push_hex (arg_hex (argv ! 1)) (projr (push_hex (arg_hex (argv ! 0)) args))")
    (auto simp: res_then_def split: if_splits dest: push_wf)

lemma arg_parser_wf: "args_wf args \<Longrightarrow> arg_parser_of t argv args = Inr (n, args') \<Longrightarrow> args_wf args'"
  by (cases t) (auto simp: arg_parser_of_def parser_defs taking_Inr res_then_Inr dest: push_wf list_parsers_wf register_value_wf
    intro: args_wf_put(4) [OF push_wf(1) [OF push_wf(1)]])

lemma parse_args_wf: "args_wf args \<Longrightarrow> parse_args t argv args = Inr (n, args') \<Longrightarrow> args_wf args'"
proof -
  assume wf: "args_wf args" and r: "parse_args t argv args = Inr (n, args')"
  then obtain i a m where a: "(if t \<noteq> NVM_CLI_ARG_NONE then parse_arg_dev_path argv args else Inr (0, args)) = Inr (i, a)"
    "arg_parser_of t (drop i argv) a = Inr (m, args')" by (auto simp: parse_args_def res_then_Inr)
  have "args_wf a" using a(1) wf by (auto simp: parse_arg_dev_path_def args_wf_def split: if_splits)
  then show ?thesis by (rule arg_parser_wf [OF _ a(2)])
qed

lemma parse_wf:
  "cli_wf cli \<Longrightarrow> parse argv cli = Inr (n, cli') \<Longrightarrow> cli_wf cli'" "cli_wf cli \<Longrightarrow> parse_cli_name argv cli = Inr (n, cli') \<Longrightarrow> cli_wf cli'"
  by (auto simp: parse_def parse_cli_name_def cli_wf_def find_Some_iff split: if_splits option.splits)

lemma parse_opts_wf: "opts_wf opts \<Longrightarrow> parse_opts_loop evs opts = Inr opts' \<Longrightarrow> opts_wf opts'"
proof (induction evs arbitrary: opts)
  case (Cons ev evs)
  then obtain o1 where o1: "parse_opt ev opts = Inr o1" "parse_opts_loop evs o1 = Inr opts'" by (auto simp: res_then_Inr)
  have "opts_wf o1" using o1(1) Cons.prems(1)
    by (auto simp: parse_opt_def opts_wf_def set_pfile_def add_opt_def Let_def split: opt_event.splits if_splits)
  then show ?case using Cons.IH o1(2) by blast
qed simp

text \<open>An operation whose result says how the structure is replaced.\<close>

lemma stays_lift [stays_intros]:
  assumes "\<And>x. r = Inr x \<Longrightarrow> stays P (f x)" shows "stays P (andThen (lift_res r) f)"
  using assms by (cases r) (auto intro: stays_intros)

lemma stays_get_cli:
  assumes "\<And>cli. Q cli \<Longrightarrow> stays (on_cli Q) (f cli)" shows "stays (on_cli Q) (andThen get_cli f)"
  using assms by (auto simp: stays_def andThen_def get_cli_def on_cli_def)

lemma cli_wf_upd: "cli_wf cli \<Longrightarrow> cli_wf (upd_evars f cli)"
  "cli_wf cli \<Longrightarrow> cli_wf (upd_args (a_dev_update g) cli)" "cli_wf cli \<Longrightarrow> args_wf args \<Longrightarrow> cli_wf (upd_args (\<lambda>_. args) cli)"
  "cli_wf cli \<Longrightarrow> opts_wf opts \<Longrightarrow> cli_wf (cli\<lparr>cli_opts := opts\<rparr>)" "cli_wf cli \<Longrightarrow> cli_wf (upd_pfile (pf_dups_update (\<lambda>xs. xs[i := p])) cli)"
  by (auto simp: cli_wf_def upd_evars_def upd_args_def args_wf_def upd_pfile_def opts_wf_def Let_def)

lemma setup_stays_wf: "stays (on_cli cli_wf) (evar_and_dev_setup h)"
  unfolding evar_and_dev_setup_def dev_setup_def use_option_def evar_cmd_opts_def open_dev_def evar_pmode_def evar_meta_mode_def evar_erase_naddrs_max_def
    evar_write_naddrs_max_def evar_read_naddrs_max_def evar_noverify_def evar_meta_pr_def check_addrs_def check_addr_def with_dev_def Let_def
  by (intro stays_intros cli_wf_upd | assumption)+

lemma close_stays: "stays (on_cli Q) (close_dev h)"
  unfolding close_dev_def by (intro stays_intros)

lemma unload_stays: "stays (on_cli Q) (nvm_cli_opts_pfile_unload h)"
  unfolding nvm_cli_opts_pfile_unload_def by (intro stays_intros)

lemma load_stays_wf: "stays (on_cli cli_wf) (nvm_cli_opts_pfile_load h)"
  unfolding nvm_cli_opts_pfile_load_def pfile_load_step_def
  by (intro stays_intros unload_stays) (auto simp: cli_wf_def upd_pfile_def opts_wf_def Let_def)

lemma stays_lift2:
  assumes "\<And>a b. r = Inr (a, b) \<Longrightarrow> stays P (f a b)" shows "stays P (andThen (lift_res r) (\<lambda>(a, b). f a b))"
  using assms by (cases r) (auto intro: stays_intros)

lemma init_parse_stays_wf: "stays (on_cli cli_wf) (init_parse h argv)"
  unfolding init_parse_def Let_def
proof (intro stays_get_cli stays_lift2 stays_lift stays_andThen [OF stays_on_cli(3)] stays_andThen [OF stays_get(2)] stays_on_cli(3))
  fix cli cli1 cli2 :: "'a nvm_cli" and n m args posix opts
  assume cli: "cli_wf cli" "parse (drop 1 argv) cli = Inr (n, cli1)"
  show wf: "cli_wf cli1" by (rule parse_wf(1) [OF cli])
  assume args: "parse_args (selected_arg_type cli1) (drop (1 + n) argv) (cli_args cli1) = Inr (m, args)"
  have "args_wf (cli_args cli1)" using wf by (simp add: cli_wf_def)
  then show "cli_wf (upd_args (\<lambda>_. args) cli2)" if "cli_wf cli2" for cli2 :: "'a nvm_cli"
    by (rule cli_wf_upd(3) [OF that parse_args_wf [OF _ args]])
  assume opts: "parse_opts (posix \<noteq> None) (drop (1 + n) argv) (cli_opts cli1) = Inr opts" "cli_wf cli2"
  have "opts_wf (cli_opts cli1)" using wf by (simp add: cli_wf_def)
  then show "cli_wf (cli2\<lparr>cli_opts := opts\<rparr>)"
    using opts cli_wf_upd(4) parse_opts_wf unfolding parse_opts_def by blast
qed

lemma as_einval_lift: "as_einval (lift_res r) = lift_res (case r of Inl (Errno e) \<Rightarrow> Inl (Errno EINVAL) | _ \<Rightarrow> r)"
  by (auto simp: fun_eq_iff as_einval_def andThen_def attempt_def lift_res_def fail_def ok_def split: sum.splits failure.splits)

lemma init_stays_wf: "stays (on_cli cli_wf) (nvm_cli_init h argv)"
  unfolding nvm_cli_init_def as_einval_lift
proof (intro stays_get_cli stays_lift2 stays_andThen [OF stays_on_cli(3)] stays_if)
  fix cli cli1 cli2 :: "'a nvm_cli" and n
  assume cli: "cli_wf cli" "(case parse_cli_name argv cli of Inl (Errno e) \<Rightarrow> Inl (Errno EINVAL) | _ \<Rightarrow> parse_cli_name argv cli) = Inr (n, cli1)"
  then show "cli_wf cli1" using parse_wf(2) [OF cli(1)] by (auto split: sum.splits failure.splits)
  show "stays (on_cli cli_wf) (set_cli (\<lambda>cli. cli\<lparr>cli_opts := (cli_opts cli)\<lparr>o_help := 1\<rparr>\<rparr>))"
    by (intro stays_intros) (simp add: cli_wf_def opts_wf_def)
  show "stays (on_cli cli_wf) (andThen (as_einval (init_parse h argv)) (\<lambda>_.
       andThen (as_einval (on_error (evar_and_dev_setup h) (close_dev h))) (\<lambda>_.
       as_einval (on_error (nvm_cli_opts_pfile_load h) (close_dev h)))))"
    by (intro stays_intros init_parse_stays_wf setup_stays_wf load_stays_wf close_stays)
qed

section \<open>What holds after a successful start\<close>

text \<open>Triples for operations that return: the precondition, the operation, and the postcondition of a success.\<close>

definition gives :: "('s \<Rightarrow> bool) \<Rightarrow> ('s, 'a) op \<Rightarrow> ('a \<Rightarrow> 's \<Rightarrow> bool) \<Rightarrow> bool" where
  "gives P m Q \<longleftrightarrow> (\<forall>s x s'. P s \<longrightarrow> m s = (Inr x, s') \<longrightarrow> Q x s')"

lemma givesD: "gives P m Q \<Longrightarrow> P s \<Longrightarrow> m s = (Inr x, s') \<Longrightarrow> Q x s'"
  by (simp add: gives_def)

lemma gives_andThen: "gives P m R \<Longrightarrow> (\<And>x. gives (R x) (f x) Q) \<Longrightarrow> gives P (andThen m f) Q"
  unfolding gives_def by (simp only: andThen_Inr) blast

lemma gives_stays: "stays P m \<Longrightarrow> gives P m (\<lambda>_. P)"
  by (auto simp: gives_def dest: staysD)

lemma gives_get_cli:
  "(\<And>cli. gives (\<lambda>s. P s \<and> fst s = cli) (f cli) Q) \<Longrightarrow> gives P (andThen get_cli f) Q"
  unfolding gives_def by (auto simp: andThen_Inr get_cli_def)

lemma gives_pre: "gives P' m Q \<Longrightarrow> (\<And>s. P s \<Longrightarrow> P' s) \<Longrightarrow> gives P m Q"
  by (auto simp: gives_def)

lemma gives_post: "gives P m Q \<Longrightarrow> (\<And>x s. Q x s \<Longrightarrow> Q' x s) \<Longrightarrow> gives P m Q'"
  by (auto simp: gives_def)

lemma gives_any: "gives P m (\<lambda>_ _. True)"
  by (simp add: gives_def)

lemma gives_if: "(b \<Longrightarrow> gives P m Q) \<Longrightarrow> (\<not> b \<Longrightarrow> gives P n Q) \<Longrightarrow> gives P (if b then m else n) Q"
  by simp

lemma as_einval_Inr: "as_einval m s = (Inr x, s') \<longleftrightarrow> m s = (Inr x, s')"
  unfolding as_einval_def andThen_Inr attempt_def by (auto simp: ok_def fail_def split: prod.splits sum.splits failure.splits)

lemma gives_as_einval: "gives P m Q \<Longrightarrow> gives P (as_einval m) Q"
  by (simp add: gives_def as_einval_Inr)

lemma gives_on_error: "gives P m Q \<Longrightarrow> gives P (on_error m h) Q"
  by (auto simp: gives_def on_error_Inr)

text \<open>
  What the environment asks of a device: the value of a variable that is set, and otherwise what the device had when it was
  opened.
\<close>

definition env_or :: "string option \<Rightarrow> (string \<Rightarrow> int) \<Rightarrow> int \<Rightarrow> int" where
  "env_or v f dflt = (case v of None \<Rightarrow> dflt | Some s \<Rightarrow> f s)"

definition configured :: "(string \<Rightarrow> string option) \<Rightarrow> nvm_dev \<Rightarrow> nvm_dev" where
  "configured env dev = dev\<lparr>
     dev_pmode := env_or (env ''NVM_CLI_PMODE'') (c_strtoll 16) (dev_pmode dev),
     dev_meta_mode := env_or (env ''NVM_CLI_META_MODE'') (c_strtoll 16) (dev_meta_mode dev),
     dev_erase_naddrs_max := env_or (env ''NVM_CLI_ERASE_NADDRS_MAX'') c_atoi (dev_erase_naddrs_max dev),
     dev_write_naddrs_max := env_or (env ''NVM_CLI_WRITE_NADDRS_MAX'') c_atoi (dev_write_naddrs_max dev),
     dev_read_naddrs_max := env_or (env ''NVM_CLI_READ_NADDRS_MAX'') c_atoi (dev_read_naddrs_max dev)\<rparr>"

text \<open>An environment that does not change while the tool runs.\<close>

definition env_law :: "'w host \<Rightarrow> (string \<Rightarrow> string option) \<Rightarrow> bool" where
  "env_law h env \<longleftrightarrow> (\<forall>name w. sys_getenv (h_sys h) name w = env name)"

lemma tool_steps_Inr:
  "the_dev s = (Inr dev, s') \<longleftrightarrow> s' = s \<and> a_dev (cli_args (fst s)) = Some dev" "set_cli f s = (Inr x, s') \<longleftrightarrow> s' = (f (fst s), snd s)"
  "get_cli s = (Inr c, s') \<longleftrightarrow> s' = s \<and> c = fst s"
  by (auto simp: the_dev_def set_cli_def get_cli_def andThen_def ok_def fail_def split: option.splits prod.splits)

lemma get_env_Inr: "env_law h env \<Longrightarrow> get_env h name s = (Inr v, s') \<longleftrightarrow> s' = s \<and> v = env name"
  by (auto simp: get_env_def env_law_def split: prod.splits)

definition has_dev :: "nvm_dev \<Rightarrow> string \<Rightarrow> 'f nvm_cli \<Rightarrow> bool" where
  "has_dev dev path cli \<longleftrightarrow> a_dev (cli_args cli) = Some dev \<and> a_dev_path (cli_args cli) = path"

text \<open>Every function \<open>evar_\<close> stores what its variable says.\<close>

lemma evars_give:
  assumes "env_law h env"
  shows "gives (on_cli (has_dev d path)) (evar_pmode h)
      (\<lambda>_. on_cli (\<lambda>c. has_dev d path c \<and> ev_pmode (cli_evars c) = env_or (env ''NVM_CLI_PMODE'') (c_strtoll 16) (dev_pmode d)))"
    "gives (on_cli (has_dev d path)) (evar_meta_mode h)
      (\<lambda>_. on_cli (\<lambda>c. has_dev d path c \<and> ev_meta_mode (cli_evars c) = env_or (env ''NVM_CLI_META_MODE'') (c_strtoll 16) (dev_meta_mode d)))"
    "gives (on_cli (has_dev d path)) (evar_erase_naddrs_max h)
      (\<lambda>_. on_cli (\<lambda>c. has_dev d path c \<and> ev_erase_naddrs_max (cli_evars c) = env_or (env ''NVM_CLI_ERASE_NADDRS_MAX'') c_atoi (dev_erase_naddrs_max d)))"
    "gives (on_cli (has_dev d path)) (evar_write_naddrs_max h)
      (\<lambda>_. on_cli (\<lambda>c. has_dev d path c \<and> ev_write_naddrs_max (cli_evars c) = env_or (env ''NVM_CLI_WRITE_NADDRS_MAX'') c_atoi (dev_write_naddrs_max d)))"
    "gives (on_cli (has_dev d path)) (evar_read_naddrs_max h)
      (\<lambda>_. on_cli (\<lambda>c. has_dev d path c \<and> ev_read_naddrs_max (cli_evars c) = env_or (env ''NVM_CLI_READ_NADDRS_MAX'') c_atoi (dev_read_naddrs_max d)))"
    "gives (on_cli (has_dev d path)) (evar_noverify h)
      (\<lambda>_. on_cli (\<lambda>c. has_dev d path c \<and> ev_noverify (cli_evars c) = (if env ''NVM_CLI_NOVERIFY'' = None then 0 else 1)))"
    "gives (on_cli (\<lambda>c. has_dev d path c \<and> ev_noverify (cli_evars c) = k)) (evar_meta_pr h) (\<lambda>_. on_cli (\<lambda>c. has_dev d path c \<and> ev_noverify (cli_evars c) = k))"
  by (auto simp: gives_def evar_pmode_def evar_meta_mode_def evar_erase_naddrs_max_def evar_write_naddrs_max_def evar_read_naddrs_max_def evar_noverify_def
      evar_meta_pr_def Let_def andThen_Inr tool_steps_Inr get_env_Inr [OF assms] on_cli_def has_dev_def upd_evars_def env_or_def fail_def
      split: option.splits if_splits)

lemma with_dev_Inr:
  "with_dev f (cli, w, out) = (Inr (), s') \<longleftrightarrow>
    (\<exists>dev dev'. a_dev (cli_args cli) = Some dev \<and> f dev = Inr dev' \<and> s' = (upd_args (a_dev_update (\<lambda>_. Some dev')) cli, w, out))"
  by (auto simp: with_dev_def the_dev_def get_cli_def andThen_def ok_def fail_def lift_res_def set_cli_def split: option.splits sum.splits)

lemma setters_Inr:
  "nvm_dev_set_pmode dev m = Inr dev' \<Longrightarrow> dev' = dev\<lparr>dev_pmode := m\<rparr>" "nvm_dev_set_meta_mode dev m = Inr dev' \<Longrightarrow> dev' = dev\<lparr>dev_meta_mode := m\<rparr>"
  "nvm_dev_set_erase_naddrs_max dev m = Inr dev' \<Longrightarrow> dev' = dev\<lparr>dev_erase_naddrs_max := m\<rparr>"
  "nvm_dev_set_write_naddrs_max dev m = Inr dev' \<Longrightarrow> dev' = dev\<lparr>dev_write_naddrs_max := m\<rparr>"
  "nvm_dev_set_read_naddrs_max dev m = Inr dev' \<Longrightarrow> dev' = dev\<lparr>dev_read_naddrs_max := m\<rparr>"
  by (auto simp: nvm_dev_set_pmode_def nvm_dev_set_meta_mode_def nvm_dev_set_erase_naddrs_max_def nvm_dev_set_write_naddrs_max_def
    nvm_dev_set_read_naddrs_max_def Let_def split: if_splits)

definition addrs_checked :: "'f nvm_cli \<Rightarrow> bool" where
  "addrs_checked cli \<longleftrightarrow> ev_noverify (cli_evars cli) = 0 \<longrightarrow>
     (\<forall>i < nat (a_naddrs (cli_args cli)). \<forall>dev. a_dev (cli_args cli) = Some dev \<longrightarrow> \<not> addr_check_fails (a_addrs (cli_args cli) ! i) dev)"

lemma check_addr_Inr:
  "check_addr i s = (Inr (), s') \<Longrightarrow> s' = s \<and> (\<exists>dev. a_dev (cli_args (fst s)) = Some dev \<and> \<not> addr_check_fails (a_addrs (cli_args (fst s)) ! i) dev)"
  by (auto simp: check_addr_def the_dev_def get_cli_def andThen_Inr andThen_Inl ok_def fail_def print_def Let_def addr_check_fails_def
    split: option.splits if_splits sum.splits prod.splits)

lemma check_each_Inr:
  "each_op check_addr is s = (Inr (), s') \<Longrightarrow> s' = s \<and> (\<forall>i \<in> set is. \<exists>dev. a_dev (cli_args (fst s)) = Some dev \<and> \<not> addr_check_fails (a_addrs (cli_args (fst s)) ! i) dev)"
  by (induction "is") (auto simp: ok_def andThen_Inr dest!: check_addr_Inr)

lemma check_addrs_give: "gives (on_cli P) check_addrs (\<lambda>_. on_cli (\<lambda>cli. P cli \<and> addrs_checked cli))"
  unfolding check_addrs_def gives_def
  by (auto simp: andThen_Inr get_cli_def on_cli_def addrs_checked_def ok_def split: if_splits dest!: check_each_Inr)

text \<open>A tool whose device was opened at its path with the given flags, configured and checked.\<close>

definition cli_ready :: "'w host \<Rightarrow> (string \<Rightarrow> string option) \<Rightarrow> int \<Rightarrow> 'f nvm_cli \<Rightarrow> bool" where
  "cli_ready h env flags cli \<longleftrightarrow> (\<exists>dev w0 w1.
     nvm_dev_openf (h_sys h) (h_imps h) (a_dev_path (cli_args cli)) (word_of_int flags) w0 = (Inr dev, w1)
     \<and> a_dev (cli_args cli) = Some (configured env dev)
     \<and> (env ''NVM_CLI_NOVERIFY'' = None \<longrightarrow> (\<forall>i < nat (a_naddrs (cli_args cli)). \<not> addr_check_fails (a_addrs (cli_args cli) ! i) (configured env dev))))"

lemma gives_ex: "(\<And>x. gives (P x) m Q) \<Longrightarrow> gives (\<lambda>s. \<exists>x. P x s) m Q"
  by (auto simp: gives_def)

lemma gives_fact: "(F \<Longrightarrow> gives P m Q) \<Longrightarrow> gives (\<lambda>s. F \<and> P s) m Q"
  by (auto simp: gives_def)

lemma open_gives:
  "gives (on_cli (\<lambda>c. ev_cmd_opts (cli_evars c) = flags)) (open_dev h) (\<lambda>_ s. \<exists>dev path.
     (\<exists>w0 w1. nvm_dev_openf (h_sys h) (h_imps h) path (word_of_int flags) w0 = (Inr dev, w1)) \<and> on_cli (has_dev dev path) s)"
  unfolding open_dev_def gives_def
  by (fastforce simp: andThen_Inr tool_steps_Inr in_world_def on_cli_def upd_args_def has_dev_def split: prod.splits)

text \<open>A variable followed by its setter.\<close>

lemma option_step:
  assumes "gives (on_cli (has_dev d path)) evar (\<lambda>_. on_cli (\<lambda>c. has_dev d path c \<and> ev (cli_evars c) = m))"
    and "\<And>dev'. setter d m = Inr dev' \<Longrightarrow> dev' = d'" and "gives (on_cli (has_dev d' path)) k Q"
  shows "gives (on_cli (has_dev d path)) (andThen evar (\<lambda>_. andThen (use_option setter ev) (\<lambda>_. k))) Q"
proof (rule gives_andThen [OF assms(1) gives_andThen [OF _ assms(3)]])
  show "gives (on_cli (\<lambda>c. has_dev d path c \<and> ev (cli_evars c) = m)) (use_option setter ev) (\<lambda>_. on_cli (has_dev d' path))"
    unfolding use_option_def using assms(2) by (intro gives_get_cli) (auto simp: gives_def with_dev_Inr on_cli_def has_dev_def upd_args_def)
qed

lemma option_steps:
  assumes "env_law h env"
  shows "gives (on_cli (has_dev (d\<lparr>dev_pmode := env_or (env ''NVM_CLI_PMODE'') (c_strtoll 16) (dev_pmode d)\<rparr>) path)) k Q \<Longrightarrow>
      gives (on_cli (has_dev d path)) (andThen (evar_pmode h) (\<lambda>_. andThen (use_option nvm_dev_set_pmode ev_pmode) (\<lambda>_. k))) Q"
    "gives (on_cli (has_dev (d\<lparr>dev_meta_mode := env_or (env ''NVM_CLI_META_MODE'') (c_strtoll 16) (dev_meta_mode d)\<rparr>) path)) k Q \<Longrightarrow>
      gives (on_cli (has_dev d path)) (andThen (evar_meta_mode h) (\<lambda>_. andThen (use_option nvm_dev_set_meta_mode ev_meta_mode) (\<lambda>_. k))) Q"
    "gives (on_cli (has_dev (d\<lparr>dev_erase_naddrs_max := env_or (env ''NVM_CLI_ERASE_NADDRS_MAX'') c_atoi (dev_erase_naddrs_max d)\<rparr>) path)) k Q \<Longrightarrow>
      gives (on_cli (has_dev d path)) (andThen (evar_erase_naddrs_max h) (\<lambda>_. andThen (use_option nvm_dev_set_erase_naddrs_max ev_erase_naddrs_max) (\<lambda>_. k))) Q"
    "gives (on_cli (has_dev (d\<lparr>dev_write_naddrs_max := env_or (env ''NVM_CLI_WRITE_NADDRS_MAX'') c_atoi (dev_write_naddrs_max d)\<rparr>) path)) k Q \<Longrightarrow>
      gives (on_cli (has_dev d path)) (andThen (evar_write_naddrs_max h) (\<lambda>_. andThen (use_option nvm_dev_set_write_naddrs_max ev_write_naddrs_max) (\<lambda>_. k))) Q"
    "gives (on_cli (has_dev (d\<lparr>dev_read_naddrs_max := env_or (env ''NVM_CLI_READ_NADDRS_MAX'') c_atoi (dev_read_naddrs_max d)\<rparr>) path)) k Q \<Longrightarrow>
      gives (on_cli (has_dev d path)) (andThen (evar_read_naddrs_max h) (\<lambda>_. andThen (use_option nvm_dev_set_read_naddrs_max ev_read_naddrs_max) (\<lambda>_. k))) Q"
  by (rule option_step [OF evars_give(1) [OF assms]] option_step [OF evars_give(2) [OF assms]] option_step [OF evars_give(3) [OF assms]]
      option_step [OF evars_give(4) [OF assms]] option_step [OF evars_give(5) [OF assms]], erule setters_Inr, assumption)+

lemma ready_intro:
  assumes "\<exists>w0 w1. nvm_dev_openf (h_sys h) (h_imps h) path (word_of_int flags) w0 = (Inr dev, w1)"
    and "on_cli (\<lambda>c. (has_dev d' path c \<and> ev_noverify (cli_evars c) = (if env ''NVM_CLI_NOVERIFY'' = None then 0 else 1)) \<and> addrs_checked c) s"
    and "d' = configured env dev"
  shows "on_cli (cli_ready h env flags) s"
  using assms unfolding on_cli_def has_dev_def cli_ready_def addrs_checked_def by (intro exI [of _ dev]) auto

lemma dev_setup_gives:
  fixes h :: "'w host"
  assumes "env_law h env"
  shows "gives (on_cli (\<lambda>c. ev_cmd_opts (cli_evars c) = flags)) (dev_setup h :: ('f, 'w, unit) top) (\<lambda>_. on_cli (cli_ready h env flags))"
  unfolding dev_setup_def
  by (rule gives_andThen [OF open_gives], intro gives_ex gives_fact option_steps [OF assms] gives_andThen [OF evars_give(6) [OF assms]]
    gives_andThen [OF evars_give(7) [OF assms]], rule gives_post [OF check_addrs_give], erule ready_intro, assumption) (simp add: configured_def)

lemma cmd_opts_give:
  assumes "env_law h env"
  shows "gives (on_cli (\<lambda>c. ev_cmd_opts (cli_evars c) = e)) (evar_cmd_opts h)
    (\<lambda>_. on_cli (\<lambda>c. ev_cmd_opts (cli_evars c) = env_or (env ''NVM_CLI_CMD_OPTS'') (\<lambda>s. c_int (c_strtoll 16 s)) e))"
  by (auto simp: gives_def evar_cmd_opts_def andThen_Inr get_env_Inr [OF assms] tool_steps_Inr on_cli_def upd_evars_def env_or_def ok_def split: option.splits)

lemma setup_gives_ready:
  fixes h :: "'w host"
  assumes "env_law h env"
  shows "gives (on_cli (\<lambda>c. ev_cmd_opts (cli_evars c) = e)) (evar_and_dev_setup h :: ('f, 'w, unit) top)
    (\<lambda>_. on_cli (\<lambda>c. selected_arg_type c \<noteq> NVM_CLI_ARG_NONE \<longrightarrow> cli_ready h env (env_or (env ''NVM_CLI_CMD_OPTS'') (\<lambda>s. c_int (c_strtoll 16 s)) e) c))"
  unfolding evar_and_dev_setup_def
proof (rule gives_andThen [OF cmd_opts_give [OF assms]], intro gives_get_cli gives_if)
  fix cli :: "'f nvm_cli"
  let ?fl = "env_or (env ''NVM_CLI_CMD_OPTS'') (\<lambda>s. c_int (c_strtoll 16 s)) e"
  let ?ready = "\<lambda>_. on_cli (\<lambda>c. selected_arg_type c \<noteq> NVM_CLI_ARG_NONE \<longrightarrow> cli_ready h env ?fl c)"
  show "gives (\<lambda>s. on_cli (\<lambda>c. ev_cmd_opts (cli_evars c) = ?fl) s \<and> fst s = cli) (ok () :: ('f, 'w, unit) top) ?ready" if "selected_arg_type cli = NVM_CLI_ARG_NONE"
    using that by (simp add: gives_def ok_def on_cli_def)
  show "gives (\<lambda>s. on_cli (\<lambda>c. ev_cmd_opts (cli_evars c) = ?fl) s \<and> fst s = cli) (dev_setup h :: ('f, 'w, unit) top) ?ready"
    by (rule gives_pre [OF gives_post [OF dev_setup_gives [OF assms, of ?fl]]]) (auto simp: on_cli_def)
qed

text \<open>Parsing leaves the environment variables alone, and loading the files changes only the options.\<close>

lemma parse_evars: "parse argv cli = Inr (n, cli') \<Longrightarrow> cli_evars cli' = cli_evars cli" "parse_cli_name argv cli = Inr (n, cli') \<Longrightarrow> cli_evars cli' = cli_evars cli"
  by (auto simp: parse_def parse_cli_name_def split: if_splits option.splits)

lemma init_parse_evars: "stays (on_cli (\<lambda>c. cli_evars c = e)) (init_parse h argv)"
  unfolding init_parse_def Let_def
  by (intro stays_get_cli stays_lift2 stays_lift stays_andThen [OF stays_on_cli(3)] stays_andThen [OF stays_get(2)] stays_on_cli(3))
    (auto simp: upd_args_def dest!: parse_evars(1))

lemma load_stays_ready: "stays (on_cli (\<lambda>c. selected_arg_type c \<noteq> NVM_CLI_ARG_NONE \<longrightarrow> cli_ready h env flags c)) (nvm_cli_opts_pfile_load h)"
  unfolding nvm_cli_opts_pfile_load_def pfile_load_step_def
  by (intro stays_intros unload_stays) (auto simp: upd_pfile_def cli_ready_def selected_arg_type_def)

lemma init_gives_ready:
  assumes "env_law h env"
  shows "gives (on_cli (\<lambda>c. cli_evars c = e)) (nvm_cli_init h argv)
    (\<lambda>_. on_cli (\<lambda>c. o_help (cli_opts c) = 0 \<longrightarrow> selected_arg_type c \<noteq> NVM_CLI_ARG_NONE \<longrightarrow>
      cli_ready h env (env_or (env ''NVM_CLI_CMD_OPTS'') (\<lambda>s. c_int (c_strtoll 16 s)) (ev_cmd_opts e)) c))"
    (is "gives ?ev _ ?ready")
proof -
  let ?sel = "\<lambda>_ :: unit. on_cli (\<lambda>c. selected_arg_type c \<noteq> NVM_CLI_ARG_NONE \<longrightarrow>
      cli_ready h env (env_or (env ''NVM_CLI_CMD_OPTS'') (\<lambda>s. c_int (c_strtoll 16 s)) (ev_cmd_opts e)) c)"
  have "gives ?ev (as_einval (on_error (evar_and_dev_setup h) (close_dev h))) ?sel"
    by (intro gives_as_einval gives_on_error gives_pre [OF setup_gives_ready [OF assms]]) (simp add: on_cli_def)
  moreover have "gives (?sel ()) (as_einval (on_error (nvm_cli_opts_pfile_load h) (close_dev h))) ?sel"
    by (intro gives_as_einval gives_on_error gives_stays load_stays_ready)
  ultimately have run: "gives ?ev (andThen (as_einval (on_error (evar_and_dev_setup h) (close_dev h))) (\<lambda>_.
      as_einval (on_error (nvm_cli_opts_pfile_load h) (close_dev h)))) ?ready"
    by (rule gives_post [OF gives_andThen]) (simp add: on_cli_def)
  have usage: "gives Q (set_cli (\<lambda>cli. cli\<lparr>cli_opts := (cli_opts cli)\<lparr>o_help := 1\<rparr>\<rparr>)) ?ready" for Q
    by (auto simp: gives_def set_cli_def on_cli_def)
  have name: "gives (\<lambda>s. ?ev s \<and> fst s = cli) (as_einval (lift_res (parse_cli_name argv cli))) (\<lambda>p _. cli_evars (snd p) = e)" for cli
    by (auto simp: gives_def as_einval_Inr lift_res_def on_cli_def split: sum.splits dest!: parse_evars(2))
  have put: "gives (\<lambda>_. cli_evars c = e) (set_cli (\<lambda>_. c)) (\<lambda>_. ?ev)" for c
    by (auto simp: gives_def set_cli_def on_cli_def)
  show ?thesis
    unfolding nvm_cli_init_def split_beta
    by (intro gives_get_cli gives_andThen [OF name] gives_andThen [OF put] gives_if usage
      gives_andThen [OF gives_as_einval [OF gives_stays [OF init_parse_evars]]] run)
qed

end
