(* ===== verification/Nvm_Tools_Life.thy ===== *)
theory Nvm_Tools_Life
  imports Nvm_Tools Nvm_Cli_Life
begin

text \<open>
  Runs of the command-line tools, from \<open>nvm_cli_init\<close> to \<open>nvm_cli_destroy\<close>: every tool keeps its structure well-formed, a tool
  that started has the device it was asked for, and the tools that only print close the device they opened when no allocation fails.
  The locales \<open>typed_tool\<close> and \<open>printing_tool\<close> are what \<open>nvm_cli_run\<close> relies on of the functions of a tool.
\<close>

section \<open>Types\<close>

lemma stays_sum [stays_intros]:
  "(\<And>e. stays P (f e)) \<Longrightarrow> (\<And>x. stays P (g x)) \<Longrightarrow> stays P (case r of Inl e \<Rightarrow> f e | Inr x \<Rightarrow> g x)"
  by (auto split: sum.split)



lemma stays_shared [stays_intros]:
  "stays P (elems n xs)" "stays P get_args" 
  unfolding elems_def get_args_def by (intro stays_intros)+



lemma stays_or_return [stays_intros]: "stays P m \<Longrightarrow> (\<And>x. stays P (k x)) \<Longrightarrow> stays P (or_return m ret k)"
  unfolding or_return_def by (intro stays_intros)

lemma stays_on_dev [stays_intros]: "(\<And>dev be args. stays P (k dev be args)) \<Longrightarrow> stays P (on_dev h k)"
  unfolding on_dev_def by (intro stays_intros)

lemma stays_conversion [stays_intros]: "stays (on_cli Q) (conversion src dst s d xs)"
  unfolding conversion_def by (intro stays_intros)












section \<open>The device is closed\<close>

text \<open>Triples with a postcondition for error returns as well; nothing is said about undefined behaviour.\<close>

definition ends :: "('s \<Rightarrow> bool) \<Rightarrow> ('s, 'a) op \<Rightarrow> ('s \<Rightarrow> bool) \<Rightarrow> ('s \<Rightarrow> bool) \<Rightarrow> bool" where
  "ends P m Q E \<longleftrightarrow> (\<forall>s. P s \<longrightarrow> (case m s of (Inr _, s') \<Rightarrow> Q s' | (Inl (Errno _), s') \<Rightarrow> E s' | (Inl (Fault _), _) \<Rightarrow> True))"

lemma ends_stays: "stays P m \<Longrightarrow> ends P m P P"
  by (auto simp: ends_def stays_def split: prod.splits sum.splits failure.splits)

lemma ends_andThen: "ends P m R E \<Longrightarrow> (\<And>x. ends R (f x) Q E) \<Longrightarrow> ends P (andThen m f) Q E"
  unfolding ends_def andThen_def by (fastforce split: prod.splits sum.splits failure.splits)

lemma ends_on_error: "ends P m Q R \<Longrightarrow> ends R c E E \<Longrightarrow> ends P (on_error m c) Q E"
  unfolding ends_def on_error_def by (fastforce split: prod.splits sum.splits failure.splits)

lemma ends_as_einval: "ends P m Q E \<Longrightarrow> ends P (as_einval m) Q E"
  unfolding ends_def as_einval_def andThen_def attempt_def ok_def fail_def by (fastforce split: prod.splits sum.splits failure.splits)

lemma ends_weaken: "ends P m Q E \<Longrightarrow> (\<And>s. P' s \<Longrightarrow> P s) \<Longrightarrow> (\<And>s. Q s \<Longrightarrow> Q' s) \<Longrightarrow> (\<And>s. E s \<Longrightarrow> E' s) \<Longrightarrow> ends P' m Q' E'"
  unfolding ends_def by (fastforce split: prod.splits sum.splits failure.splits)

lemma ends_stays_any: "stays P m \<Longrightarrow> ends P m P (\<lambda>_. True)"
  by (rule ends_weaken [OF ends_stays]) auto

lemma ends_if: "(b \<Longrightarrow> ends P m Q E) \<Longrightarrow> (\<not> b \<Longrightarrow> ends P n Q E) \<Longrightarrow> ends P (if b then m else n) Q E"
  by simp

lemma endsD: "ends P m Q E \<Longrightarrow> P s \<Longrightarrow> m s = (Inr x, s') \<Longrightarrow> Q s'"
  unfolding ends_def by (auto split: prod.splits)

lemma ends_attempt:
  assumes "ends P m Q E" "\<And>e. ends E (f e) R F" "\<And>x. ends Q (g x) R F"
  shows "ends P (andThen (attempt m) (\<lambda>r. case r of Inl e \<Rightarrow> f e | Inr x \<Rightarrow> g x)) R F"
  using assms unfolding ends_def andThen_def attempt_def by (fastforce split: prod.splits sum.splits failure.splits)

lemma ends_tool:
  assumes "\<And>cli w out. P (cli, w, out) \<Longrightarrow> (case m (cli, w, out) of (Inr _, s') \<Rightarrow> Q s' | (Inl (Errno _), s') \<Rightarrow> E s' | (Inl (Fault _), _) \<Rightarrow> True)"
  shows "ends P m Q E"
  using assms by (auto simp: ends_def)

text \<open>
  \<open>live\<close> counts the open devices of a world. Opening adds one when it succeeds, closing takes one away, and the
  operations on memory and on bad-block tables leave the number alone.
\<close>

definition keeps :: "('w \<Rightarrow> int) \<Rightarrow> ('w, 'a) op \<Rightarrow> bool" where
  "keeps live m \<longleftrightarrow> (\<forall>n. stays (\<lambda>w. live w = n) m)"

definition backend_counts :: "('w \<Rightarrow> int) \<Rightarrow> 'w nvm_be \<Rightarrow> bool" where
  "backend_counts live be \<longleftrightarrow>
     (\<forall>path flags w. live (snd (be_open be path flags w)) = live w + (case fst (be_open be path flags w) of Inl _ \<Rightarrow> 0 | Inr _ \<Rightarrow> 1))
     \<and> (\<forall>dev w. live (snd (be_close be dev w)) = live w - 1)
     \<and> (\<forall>dev addr ret. keeps live (be_gbbt be dev addr ret)) \<and> (\<forall>dev addrs n flags ret. keeps live (be_sbbt be dev addrs n flags ret))"

definition memory_keeps :: "('w \<Rightarrow> int) \<Rightarrow> 'w sys \<Rightarrow> bool" where
  "memory_keeps live sys \<longleftrightarrow>
     (\<forall>n w. \<exists>p w'. sys_malloc sys n w = (Inr p, w') \<and> live w' = live w)
     \<and> (\<forall>al n. keeps live (sys_aligned_alloc sys al n)) \<and> (\<forall>n al. keeps live (sys_spdk_dma_malloc sys n al))
     \<and> (\<forall>p w. live (sys_free sys p w) = live w) \<and> (\<forall>p w. live (sys_spdk_dma_free sys p w) = live w)
     \<and> (\<forall>p bs w. live (sys_store sys p bs w) = live w)"

definition device_laws :: "'w host \<Rightarrow> ('w \<Rightarrow> int) \<Rightarrow> bool" where
  "device_laws h live \<longleftrightarrow> memory_keeps live (h_sys h) \<and> (\<forall>be \<in> set (h_imps h). backend_counts live be)"

lemma keeps_basic: "keeps live m \<Longrightarrow> stays (\<lambda>w. live w = n) m" "(\<And>w. live (f w) = live w) \<Longrightarrow> stays (\<lambda>w. live w = n) (upd f)"
  by (simp_all add: keeps_def) (simp add: stays_def upd_def)

lemma on_world_stays [stays_intros]: "stays P m \<Longrightarrow> stays (\<lambda>s. P (snd s)) (on_world m)"
  by (auto simp: stays_def on_world_def split: prod.splits)

lemma table_stays [stays_intros]: "stays (\<lambda>s. P (snd s)) (bbts_read i)" "stays (\<lambda>s. P (snd s)) (bbts_write i e)" "stays Q get_dev"
  by (auto simp: stays_def bbts_read_def bbts_write_def get_dev_def)

lemma flush_all_stays:
  assumes "memory_keeps live sys" "backend_counts live be"
  shows "stays (\<lambda>s. live (snd s) = n) (nvm_bbt_flush_all sys be ret)"
proof -
  have "stays (\<lambda>w. live w = n) (be_gbbt be dev addr ret)" "stays (\<lambda>w. live w = n) (be_sbbt be dev addrs k flags ret)" "stays (\<lambda>w. live w = n) (upd (sys_free sys p))"
    for dev addr ret addrs k flags p
    using assms by (auto simp: memory_keeps_def backend_counts_def intro!: keeps_basic)
  then show ?thesis
    unfolding nvm_bbt_flush_all_def nvm_bbt_flush_def flush_step_def nvm_cmd_sbbt_def nvm_cmd_gbbt_def nvm_bbt_free_def Let_def option.case
    by (intro stays_intros) auto
qed

lemma dev_close_counts:
  assumes "memory_keeps live sys" "backend_counts live be" "nvm_dev_close sys be p q (Some dev) w = (r, w')" "\<forall>f. r \<noteq> Inl (Fault f)"
  shows "live w' = live w - 1"
proof -
  obtain r1 d w1 where f: "nvm_bbt_flush_all sys be NULL (dev, w) = (r1, (d, w1))" by (metis prod.collapse)
  obtain r2 w2 where c: "be_close be d w1 = (r2, w2)" by (metis prod.collapse)
  have "live w1 = live w" using staysD [OF flush_all_stays [OF assms(1,2), of "live w"] _ f] by simp
  moreover have "live (snd (be_close be d w1)) = live w1 - 1" "live (sys_free sys x y) = live y" for x y
    using assms(1,2) by (auto simp: backend_counts_def memory_keeps_def)
  ultimately show ?thesis
    using assms(3,4) f c by (auto simp: nvm_dev_close_def andThen_def upd_def split: sum.splits failure.splits)
qed

lemma openf_counts:
  assumes "memory_keeps live sys" "\<forall>be \<in> set imps. backend_counts live be" "nvm_dev_openf sys imps path flags w = (r, w')"
  shows "\<forall>f. r \<noteq> Inl (Fault f) \<Longrightarrow> live w' = live w + (case r of Inl _ \<Rightarrow> 0 | Inr _ \<Rightarrow> 1)"
proof -
  have loop: "live w1 = live w0 + (case r1 of Inl _ \<Rightarrow> 0 | Inr _ \<Rightarrow> 1)"
    if "factory_loop b path flags en bes w0 = (r1, w1)" "set bes \<subseteq> set imps" for b en bes r1 w0 w1
    using that
  proof (induction bes arbitrary: w0 en)
    case (Cons be bes)
    have be: "live (snd (be_open be path flags w0)) = live w0 + (case fst (be_open be path flags w0) of Inl _ \<Rightarrow> 0 | Inr _ \<Rightarrow> 1)"
      using Cons.prems(2) assms(2) by (simp add: backend_counts_def)
    obtain r0 w2 where o1: "be_open be path flags w0 = (r0, w2)" by (metis prod.collapse)
    then show ?case using Cons.prems Cons.IH [where ?w0.0 = w0] Cons.IH [where ?w0.0 = w2] be
      by (auto split: if_splits sum.splits failure.splits)
  qed (auto simp: fail_def)
  then have "live w1 = live w + (case r1 of Inl _ \<Rightarrow> 0 | Inr _ \<Rightarrow> 1)" if "nvm_be_factory sys imps path flags w = (r1, w1)" for r1 w1
    using that by (auto simp: nvm_be_factory_def Let_def fail_def split: option.splits if_splits)
  moreover obtain r1 w1 where f: "nvm_be_factory sys imps path flags w = (r1, w1)" by (metis prod.collapse)
  moreover obtain p w2 where "sys_malloc sys (8 * (nchannels (dev_geo (projr r1)) * nluns (dev_geo (projr r1)))) w1 = (Inr p, w2)" "live w2 = live w1"
    using assms(1) unfolding memory_keeps_def by blast
  ultimately show "live w' = live w + (case r of Inl _ \<Rightarrow> 0 | Inr _ \<Rightarrow> 1)"
    using assms(3) by (cases r1) (auto simp: nvm_dev_openf_def Let_def split: failure.splits)
qed


text \<open>The number of open devices, before, while the tool holds a device, and after.\<close>

definition devs_are :: "('w \<Rightarrow> int) \<Rightarrow> int \<Rightarrow> ('f, 'w) tool \<Rightarrow> bool" where
  "devs_are live n = on_w (\<lambda>w. live w = n)"

definition holds_dev :: "('w \<Rightarrow> int) \<Rightarrow> int \<Rightarrow> ('f, 'w) tool \<Rightarrow> bool" where
  "holds_dev live n s \<longleftrightarrow> live (fst (snd s)) = n + (if a_dev (cli_args (fst s)) = None then 0 else 1)"

definition no_dev :: "('w \<Rightarrow> int) \<Rightarrow> int \<Rightarrow> ('f, 'w) tool \<Rightarrow> bool" where
  "no_dev live n s \<longleftrightarrow> live (fst (snd s)) = n \<and> a_dev (cli_args (fst s)) = None"

lemma holds_intros [stays_intros]:
  "(\<And>n. stays (\<lambda>w. live w = n) m) \<Longrightarrow> stays (holds_dev live k) (in_world m)" "stays (holds_dev live k) (print t)"
  "(\<And>cli. (a_dev (cli_args (f cli)) = None) = (a_dev (cli_args cli) = None)) \<Longrightarrow> stays (holds_dev live k) (set_cli f)"
  by (auto simp: stays_def holds_dev_def in_world_def print_def set_cli_def split: prod.splits) (metis snd_conv)+

lemma with_dev_holds: "stays (holds_dev live n) (with_dev f)"
  by (auto simp: stays_def holds_dev_def with_dev_def the_dev_def get_cli_def andThen_def ok_def fail_def lift_res_def set_cli_def upd_args_def
    split: option.splits sum.splits)

lemma setup_keeps_holds:
  "stays (holds_dev live n) (evar_pmode h)" "stays (holds_dev live n) (evar_meta_mode h)" "stays (holds_dev live n) (evar_erase_naddrs_max h)"
  "stays (holds_dev live n) (evar_write_naddrs_max h)" "stays (holds_dev live n) (evar_read_naddrs_max h)" "stays (holds_dev live n) (evar_noverify h)"
  "stays (holds_dev live n) (evar_meta_pr h)" "stays (holds_dev live n) check_addrs" "stays (holds_dev live n) (use_option setter ev)"
  unfolding evar_pmode_def evar_meta_mode_def evar_erase_naddrs_max_def evar_write_naddrs_max_def evar_read_naddrs_max_def evar_noverify_def
    evar_meta_pr_def check_addrs_def check_addr_def use_option_def Let_def
  by (intro stays_intros with_dev_holds; simp add: upd_evars_def)+

lemma no_dev_stays: "(\<And>cli. a_dev (cli_args cli) = None \<Longrightarrow> a_dev (cli_args (f cli)) = None) \<Longrightarrow> stays (no_dev live n) (set_cli f)"
  by (auto simp: stays_def no_dev_def set_cli_def)

lemma map_sum_Inr: "map_sum f g r = Inr y \<longleftrightarrow> (\<exists>x. r = Inr x \<and> y = g x)"
  by (cases r) auto

lemma arg_parser_dev: "arg_parser_of t argv args = Inr (k, args') \<Longrightarrow> a_dev args' = a_dev args"
  by (cases t) (auto simp: arg_parser_of_def parser_defs parse_arg_addr_list_def parse_arg_decval_list_def parse_arg_hexval_list_def parse_arg_register_value_def
    taking_Inr res_then_Inr map_sum_Inr push_addr_def push_dec_def push_hex_def put_addr_def put_dec_def put_hex_def Let_def split: if_splits)

lemma parse_args_dev: "parse_args t argv args = Inr (k, args') \<Longrightarrow> a_dev args' = a_dev args"
  by (auto simp: parse_args_def res_then_Inr parse_arg_dev_path_def split: if_splits dest!: arg_parser_dev)

lemma init_parse_no_dev: "stays (no_dev live n) (init_parse h argv)"
proof -
  have p: "a_dev (cli_args c) = a_dev (cli_args cli)" if "parse xs cli = Inr (k, c)" for xs k and c cli :: "'a nvm_cli"
    using that by (auto simp: parse_def split: if_splits option.splits)
  show ?thesis
    unfolding stays_def no_dev_def init_parse_def
    by (auto simp: andThen_def get_cli_def lift_res_def set_cli_def get_env_def upd_args_def Let_def split: sum.splits prod.splits
      dest!: p parse_args_dev)
qed

lemma open_ends:
  assumes "device_laws h live"
  shows "ends (no_dev live n) (open_dev h) (holds_dev live n) (holds_dev live n)"
proof -
  have "live w' = live w + (case r of Inl _ \<Rightarrow> 0 | Inr _ \<Rightarrow> 1)"
    if "nvm_dev_openf (h_sys h) (h_imps h) path flags w = (r, w')" "\<forall>f. r \<noteq> Inl (Fault f)" for path flags r w w'
    using openf_counts [of live "h_sys h" "h_imps h", OF _ _ that] assms by (auto simp: device_laws_def)
  note counts = this
  show ?thesis
  proof (rule ends_tool)
    fix cli w out assume s: "no_dev live n (cli, w, out)"
    obtain r w' where o1: "nvm_dev_openf (h_sys h) (h_imps h) (a_dev_path (cli_args cli)) (word_of_int (ev_cmd_opts (cli_evars cli))) w = (r, w')"
      by (metis prod.collapse)
    show "case open_dev h (cli, w, out) of (Inr _, s') \<Rightarrow> holds_dev live n s' | (Inl (Errno _), s') \<Rightarrow> holds_dev live n s' | (Inl (Fault _), _) \<Rightarrow> True"
      using s counts [OF o1]
      by (simp add: open_dev_def andThen_def get_cli_def in_world_def o1 set_cli_def upd_args_def no_dev_def holds_dev_def split: sum.split failure.split)
  qed
qed

lemma setup_ends:
  assumes "device_laws h live"
  shows "ends (no_dev live n) (evar_and_dev_setup h) (holds_dev live n) (holds_dev live n)"
proof -
  have "ends (no_dev live n) (dev_setup h) (holds_dev live n) (holds_dev live n)"
    unfolding dev_setup_def by (intro ends_andThen [OF open_ends [OF assms]] ends_stays stays_andThen setup_keeps_holds)
  moreover have "stays (no_dev live n) (evar_cmd_opts h)"
    unfolding evar_cmd_opts_def by (intro stays_intros no_dev_stays) (simp add: upd_evars_def)
  moreover have "holds_dev live n s" if "no_dev live n s" for s
    using that by (simp add: holds_dev_def no_dev_def)
  ultimately show ?thesis
    unfolding evar_and_dev_setup_def
    by (intro ends_andThen [OF ends_weaken [OF ends_stays]] ends_andThen [OF ends_weaken [OF ends_stays [OF stays_get(1)]]] ends_if
      ends_weaken [OF ends_stays [OF stays_basic(1)]])
qed

lemma close_ends:
  assumes "device_laws h live"
  shows "ends (holds_dev live n) (close_dev h) (devs_are live n) (devs_are live n)"
proof -
  have counts: "live w' = live w - 1"
    if "nvm_dev_close (h_sys h) be p q (Some dev) w = (r, w')" "\<forall>f. r \<noteq> Inl (Fault f)" "be \<in> set (h_imps h)" for be p q dev w r w'
    using dev_close_counts [OF _ _ that(1,2)] that(3) assms by (auto simp: device_laws_def)
  show ?thesis
  proof (rule ends_tool)
    fix cli w out assume s: "holds_dev live n (cli, w, out)"
    have f: "be \<in> set (h_imps h)" if "dev_backend h dev = Some be" for dev be
      using that by (auto simp: dev_backend_def find_Some_iff)
    show "case close_dev h (cli, w, out) of (Inr _, s') \<Rightarrow> devs_are live n s' | (Inl (Errno _), s') \<Rightarrow> devs_are live n s' | (Inl (Fault _), _) \<Rightarrow> True"
    proof (cases "a_dev (cli_args cli)")
      case None
      then show ?thesis using s by (simp add: close_dev_def andThen_def get_cli_def ok_def holds_dev_def devs_are_def on_w_def)
    next
      case (Some dev)
      note dev = this
      show ?thesis
      proof (cases "dev_backend h dev")
        case None
        then show ?thesis using dev by (simp add: close_dev_def andThen_def get_cli_def the_be_def fail_def)
      next
        case (Some be)
        obtain r w' where c: "nvm_dev_close (h_sys h) be (h_bbts_ptr h dev) (h_dev_ptr h dev) (Some dev) w = (r, w')" by (metis prod.collapse)
        show ?thesis using s dev Some counts [OF c _ f [OF Some]]
          by (simp add: close_dev_def andThen_def get_cli_def the_be_def ok_def in_world_def c holds_dev_def devs_are_def on_w_def split: sum.split failure.split)
      qed
    qed
  qed
qed

lemma buf_stays:
  assumes "device_laws h live"
  shows "stays (\<lambda>w. live w = n) (nvm_buf_alloc (h_sys h) dev nbytes phys)" "stays (\<lambda>w. live w = n) (nvm_buf_free (h_sys h) dev p)"
    "stays (\<lambda>w. live w = n) (upd (sys_store (h_sys h) p bs))" "stays (\<lambda>w. live w = n) (pfile_to_buf h path p k)"
proof -
  note l = assms [unfolded device_laws_def memory_keeps_def]
  show "stays (\<lambda>w. live w = n) (nvm_buf_alloc (h_sys h) dev nbytes phys)"
    unfolding nvm_buf_alloc_def nvm_buf_virt_alloc_def Let_def using l by (intro stays_intros keeps_basic(1)) auto
  show "stays (\<lambda>w. live w = n) (nvm_buf_free (h_sys h) dev p)"
    unfolding nvm_buf_free_def nvm_buf_virt_free_def using l by (intro stays_intros keeps_basic(2)) auto
  show "stays (\<lambda>w. live w = n) (upd (sys_store (h_sys h) p bs))" using l by (intro keeps_basic(2)) auto
  have "live (fold (sys_store (h_sys h) p) bss w) = live w" for bss w
    using l by (induction bss arbitrary: w) auto
  then show "stays (\<lambda>w. live w = n) (pfile_to_buf h path p k)"
    by (auto simp: stays_def pfile_to_buf_def split: option.split)
qed

lemma pfile_holds:
  assumes "device_laws h live"
  shows "stays (holds_dev live n) (nvm_cli_opts_pfile_unload h)" "stays (holds_dev live n) (nvm_cli_opts_pfile_load h)"
proof -
  show un: "stays (holds_dev live n) (nvm_cli_opts_pfile_unload h)"
    unfolding nvm_cli_opts_pfile_unload_def by (intro stays_intros buf_stays assms)
  have "stays (\<lambda>w. live w = k) (\<lambda>w. upd (sys_store (h_sys h) buf (h_load h dup nbytes w)) w)" for k buf dup nbytes
    using buf_stays(3) [OF assms] by (simp add: stays_def upd_def)
  then show "stays (holds_dev live n) (nvm_cli_opts_pfile_load h)"
    unfolding nvm_cli_opts_pfile_load_def pfile_load_step_def
    by (intro stays_intros un buf_stays assms) (simp_all add: upd_pfile_def)
qed

lemma ends_get_cli: "(\<And>cli. ends (\<lambda>s. P s \<and> fst s = cli) (f cli) Q E) \<Longrightarrow> ends P (andThen get_cli f) Q E"
  unfolding ends_def by (auto simp: andThen_def get_cli_def)

lemma ends_lift2:
  assumes "\<And>a b. r = Inr (a, b) \<Longrightarrow> ends P (f a b) Q E" "\<And>s. P s \<Longrightarrow> E s"
  shows "ends P (andThen (lift_res r) (\<lambda>(a, b). f a b)) Q E"
proof (cases r)
  case (Inl e)
  then show ?thesis using assms(2) by (auto simp: ends_def fail_def split: failure.split)
next
  case (Inr ab)
  then show ?thesis using assms(1) by (cases ab) simp
qed

lemma init_ends:
  assumes laws: "device_laws h live"
  shows "ends (no_dev live n) (nvm_cli_init h argv) (holds_dev live n) (devs_are live n)"
proof -
  have closed: "devs_are live n s" "holds_dev live n s" if "no_dev live n s" for s
    using that by (simp_all add: no_dev_def devs_are_def on_w_def holds_dev_def)
  have dev: "ends (no_dev live n) (as_einval (on_error (evar_and_dev_setup h) (close_dev h))) (holds_dev live n) (devs_are live n)"
    by (intro ends_as_einval ends_on_error [OF setup_ends close_ends] laws)
  have load: "ends (holds_dev live n) (as_einval (on_error (nvm_cli_opts_pfile_load h) (close_dev h))) (holds_dev live n) (devs_are live n)"
    by (intro ends_as_einval ends_on_error [OF ends_stays close_ends] pfile_holds laws)
  have parse: "ends (no_dev live n) (as_einval (init_parse h argv)) (no_dev live n) (devs_are live n)"
    by (rule ends_weaken [OF ends_as_einval [OF ends_stays [OF init_parse_no_dev]]]) (auto intro: closed)
  have usage: "ends (no_dev live n) (set_cli (\<lambda>cli. cli\<lparr>cli_opts := (cli_opts cli)\<lparr>o_help := 1\<rparr>\<rparr>)) (holds_dev live n) (devs_are live n)"
    by (rule ends_weaken [OF ends_stays [OF no_dev_stays]]) (auto intro: closed)
  have name: "ends (\<lambda>s. no_dev live n s \<and> fst s = cli) (set_cli (\<lambda>_. cli1)) (no_dev live n) (devs_are live n)"
    if "(case parse_cli_name argv cli of Inl (Errno e) \<Rightarrow> Inl (Errno EINVAL) | _ \<Rightarrow> parse_cli_name argv cli) = Inr (k, cli1)" for cli cli1 k
    using that by (auto simp: ends_def set_cli_def no_dev_def parse_cli_name_def split: if_splits)
  show ?thesis
    unfolding nvm_cli_init_def as_einval_lift
    by (intro ends_get_cli ends_lift2 ends_andThen [OF name] ends_if usage ends_andThen [OF parse] ends_andThen [OF dev] load) (auto intro: closed)
qed

lemma main_closes:
  assumes laws: "device_laws h live" and call: "\<And>f. stays (holds_dev live n) (call f)"
    and main: "tool_main h call argv (cli, w, out) = (Inr status, (cli', w', out'))" "a_dev (cli_args cli) = None" "live w = n"
  shows "live w' = n"
proof -
  have run: "ends (holds_dev live n) (nvm_cli_run call) (holds_dev live n) (\<lambda>_. True)"
    unfolding nvm_cli_run_def by (intro ends_stays_any stays_intros call)
  have "ends (holds_dev live n) (close_dev h) (devs_are live n) (\<lambda>_. True)"
    by (rule ends_weaken [OF close_ends [OF laws]]) auto
  then have destroy: "ends (holds_dev live n) (nvm_cli_destroy h) (devs_are live n) (\<lambda>_. True)"
    unfolding nvm_cli_destroy_def by (intro ends_andThen [OF ends_stays_any] stays_intros pfile_holds laws)
  have t: "ends (no_dev live n) (tool_main h call argv) (devs_are live n) (\<lambda>_. True)"
    unfolding tool_main_def
    by (intro ends_attempt [OF init_ends [OF laws]] ends_weaken [OF ends_stays [OF stays_basic(1)]] ends_andThen [OF run]
      ends_andThen [OF destroy]) auto
  show ?thesis using endsD [OF t _ main(1)] main(2,3) by (auto simp: no_dev_def devs_are_def on_w_def)
qed


locale printing_tool =
  fixes call :: "'c \<Rightarrow> ('f, 'w, int) top"
  assumes prints: "stays (\<lambda>s. Q (a_dev (cli_args (fst s))) (fst (snd s))) (call f)"
begin

lemma call_holds: "stays (holds_dev live n) (call f)"
  unfolding holds_dev_def using prints [of "\<lambda>dev w. live w = n + (if dev = None then 0 else 1)"] .

end

lemma dev_world_intros [stays_intros]:
  "stays (\<lambda>s. Q (a_dev (cli_args (fst s))) (fst (snd s))) (print t)"
  "(\<And>cli. a_dev (cli_args (f cli)) = a_dev (cli_args cli)) \<Longrightarrow> stays (\<lambda>s. Q (a_dev (cli_args (fst s))) (fst (snd s))) (set_cli f)"
  by (auto simp: stays_def print_def set_cli_def)

lemma addr_call_prints: "stays (\<lambda>s. Q (a_dev (cli_args (fst s))) (fst (snd s))) (addr_call f)"
  unfolding addr_call_def cmd_fmt_def cmd_dfmt_def cmd_gen2dev_def cmd_gen2off_def cmd_gen2lpo_def cmd_dev2gen_def cmd_off2gen_def cmd_lpo2gen_def
    conversion_def elems_def get_args_def info_pr_def
  by (cases f) (simp, (intro stays_intros; simp add: upd_args_def))+

lemma dev_call_prints: "stays (\<lambda>s. Q (a_dev (cli_args (fst s))) (fst (snd s))) (dev_call h p f)"
  unfolding dev_call_def cmd_enum_def cmd_info_def info_pr_def by (cases f) (simp, (intro stays_intros)+)+

interpretation addr_prints: printing_tool addr_call by unfold_locales (rule addr_call_prints)
interpretation dev_prints: printing_tool "dev_call h p" for h p by unfold_locales (rule dev_call_prints)

section \<open>What a successful start leaves\<close>

text \<open>Predicates of the structure and of the text printed so far.\<close>

definition seen :: "('f nvm_cli \<Rightarrow> bool) \<Rightarrow> string \<Rightarrow> ('f, 'w) tool \<Rightarrow> bool" where
  "seen Q out s \<longleftrightarrow> Q (fst s) \<and> snd (snd s) = out"

lemma seen_intros [stays_intros]: "stays (seen Q out) (in_world m)" "(\<And>c. Q c \<Longrightarrow> Q (f c)) \<Longrightarrow> stays (seen Q out) (set_cli f)"
  by (auto simp: stays_def seen_def in_world_def set_cli_def split: prod.splits)

text \<open>The command, the positional arguments and the options of the command line.\<close>

definition given :: "'f nvm_cli_cmd \<Rightarrow> nvm_cli_cmd_args \<Rightarrow> int \<Rightarrow> 'f nvm_cli \<Rightarrow> bool" where
  "given c args terse cli \<longleftrightarrow> cli_cmd cli = Some c \<and> (cli_args cli)\<lparr>a_dev := None\<rparr> = args
     \<and> o_terse (cli_opts cli) = terse \<and> o_help (cli_opts cli) = 0"

lemma given_upd:
  "given c args terse cli \<Longrightarrow> given c args terse (upd_evars f cli)" "given c args terse cli \<Longrightarrow> given c args terse (upd_args (a_dev_update g) cli)"
  "given c args terse cli \<Longrightarrow> given c args terse (upd_pfile u cli)"
  by (auto simp: given_def upd_evars_def upd_args_def upd_pfile_def)

lemma setup_stays_given:
  "stays (seen (given c args terse) out) (evar_cmd_opts h)" "stays (seen (given c args terse) out) (open_dev h)"
  "stays (seen (given c args terse) out) (evar_pmode h)" "stays (seen (given c args terse) out) (evar_meta_mode h)"
  "stays (seen (given c args terse) out) (evar_erase_naddrs_max h)" "stays (seen (given c args terse) out) (evar_write_naddrs_max h)"
  "stays (seen (given c args terse) out) (evar_read_naddrs_max h)" "stays (seen (given c args terse) out) (evar_noverify h)"
  "stays (seen (given c args terse) out) (evar_meta_pr h)" "stays (seen (given c args terse) out) (use_option setter ev)"
  unfolding evar_cmd_opts_def open_dev_def evar_pmode_def evar_meta_mode_def evar_erase_naddrs_max_def evar_write_naddrs_max_def evar_read_naddrs_max_def
    evar_noverify_def evar_meta_pr_def use_option_def with_dev_def Let_def
  by (intro stays_intros given_upd; assumption)+

lemma check_addrs_gives: "gives P check_addrs (\<lambda>_. P)"
  unfolding check_addrs_def gives_def by (auto simp: andThen_Inr get_cli_def ok_def split: if_splits dest!: check_each_Inr)

lemma setup_gives_given: "gives (seen (given c args terse) out) (evar_and_dev_setup h) (\<lambda>_. seen (given c args terse) out)"
  unfolding evar_and_dev_setup_def dev_setup_def
  by (intro gives_andThen [OF gives_stays] setup_stays_given stays_get gives_if gives_stays stays_basic check_addrs_gives)

lemma load_stays_given: "stays (seen (given c args terse) out) (nvm_cli_opts_pfile_load h)"
  unfolding nvm_cli_opts_pfile_load_def pfile_load_step_def nvm_cli_opts_pfile_unload_def
  by (intro stays_intros given_upd; assumption)

lemma init_given:
  assumes "nvm_cli_init h argv (cli, w, out) = (Inr (), (cli', w', out'))"
    and "2 \<le> length argv" "\<not> help_is_wanted argv"
    and "init_parse h argv (cli\<lparr>cli_name := argv ! 0\<rparr>, w, out) = (Inr (), (cli1, w, out))" "given c args terse cli1"
  shows "given c args terse cli' \<and> out' = out"
proof -
  have "length (argv ! 0) < NVM_CLI_CMD_LEN"
    using assms(1,2) by (auto simp: nvm_cli_init_def andThen_Inr as_einval_Inr get_cli_def lift_res_def parse_cli_name_def split: if_splits)
  then obtain s where s: "evar_and_dev_setup h (cli1, w, out) = (Inr (), s)" "nvm_cli_opts_pfile_load h s = (Inr (), (cli', w', out'))"
    using assms(1-4) by (auto simp: nvm_cli_init_def andThen_Inr as_einval_Inr on_error_Inr get_cli_def lift_res_def set_cli_def parse_cli_name_def
      split: if_splits)
  have "seen (given c args terse) out s"
    by (rule givesD [OF setup_gives_given _ s(1)]) (simp add: seen_def assms(5))
  then have "seen (given c args terse) out (cli', w', out')"
    by (rule staysD [OF load_stays_given _ s(2)])
  then show ?thesis by (simp add: seen_def)
qed

section \<open>The command line of a conversion\<close>

text \<open>A command, a device, a list of words and the option \<open>-t\<close>.\<close>

definition terse_argv :: "string \<Rightarrow> string \<Rightarrow> string \<Rightarrow> string list \<Rightarrow> string list" where
  "terse_argv name c path ws = name # c # path # ws @ [''-t'']"

definition plain :: "string \<Rightarrow> bool" where
  "plain s \<longleftrightarrow> (\<exists>c s'. s = c # s' \<and> c \<noteq> CHR ''-'')"

lemma scan_terse: "(\<forall>s \<in> set ws. plain s) \<Longrightarrow> getopt_scan False (ws @ [''-t'']) = [Flag CHR ''t'']"
  by (induction ws) (auto simp: is_option_def plain_def opt_kind_def opt_string_def)

lemma list_words_terse: "(\<forall>s \<in> set ws. plain s) \<Longrightarrow> list_words (ws @ [''-t'']) = ws"
  by (induction ws) (auto simp: list_words_def plain_def)

lemma no_help: "(\<forall>s \<in> set ws. plain s) \<Longrightarrow> name \<noteq> ''-h'' \<Longrightarrow> c \<noteq> ''-h'' \<Longrightarrow> path \<noteq> ''-h'' \<Longrightarrow> \<not> help_is_wanted (terse_argv name c path ws)"
  by (induction ws) (auto simp: help_is_wanted_def terse_argv_def plain_def)

lemma init_parse_terse:
  assumes "find (\<lambda>c. cname = cc_name c) (cli_cmds cli) = Some c" "sys_getenv (h_sys h) ''POSIXLY_CORRECT'' w = None" "\<forall>s \<in> set ws. plain s"
    and "0 < length path" "length path \<le> NVM_DEV_PATH_LEN" "o_help (cli_opts cli) = 0"
    and "cc_arg_type c \<noteq> NVM_CLI_ARG_NONE" "arg_parser_of (cc_arg_type c) (ws @ [''-t'']) ((cli_args cli)\<lparr>a_dev_path := path\<rparr>) = Inr (k, args)"
  shows "\<exists>cli1. init_parse h (terse_argv name cname path ws) (cli, w, out) = (Inr (), (cli1, w, out)) \<and> given c (args\<lparr>a_dev := None\<rparr>) 1 cli1"
  using assms
  by (auto simp: init_parse_def terse_argv_def andThen_def get_cli_def lift_res_def set_cli_def get_env_def parse_def parse_args_def parse_arg_dev_path_def
    res_then_def selected_arg_type_def parse_opts_def scan_terse parse_opt_def add_opt_def upd_args_def given_def)


text \<open>A run that exits with 0 and did not print the usage is the start, the function of the command and the end.\<close>

lemma attempt_Inr:
  "attempt m s = (Inr r, s') \<longleftrightarrow> (case r of Inl e \<Rightarrow> m s = (Inl (Errno e), s') | Inr x \<Rightarrow> m s = (Inr x, s'))"
  by (auto simp: attempt_def split: prod.splits sum.splits failure.splits)

lemma main_runs:
  assumes "tool_main h call argv (cli, w, out) = (Inr 0, (cli', w', out'))"
    and i: "2 \<le> length argv" "\<not> help_is_wanted argv"
      "init_parse h argv (cli\<lparr>cli_name := argv ! 0\<rparr>, w, out) = (Inr (), (cli1, w, out))" "given c args terse cli1"
  obtains cli2 w2 w3 where "given c args terse cli2" "call (cc_func c) (cli2, w2, out) = (Inr 0, (cli', w3, out'))"
proof -
  obtain cli2 w2 out2 where s: "nvm_cli_init h argv (cli, w, out) = (Inr (), (cli2, w2, out2))"
    and r: "andThen (nvm_cli_run call) (\<lambda>res. andThen (nvm_cli_destroy h) (\<lambda>_. ok res)) (cli2, w2, out2) = (Inr 0, (cli', w', out'))"
  proof -
    obtain res s1 where a: "attempt (nvm_cli_init h argv) (cli, w, out) = (Inr res, s1)"
      "(case res of Inl e \<Rightarrow> ok 1 | Inr _ \<Rightarrow> andThen (nvm_cli_run call) (\<lambda>res. andThen (nvm_cli_destroy h) (\<lambda>_. ok res))) s1 = (Inr 0, (cli', w', out'))"
      using assms(1) unfolding tool_main_def andThen_Inr by blast
    then show ?thesis using that by (cases res; cases s1) (simp_all add: attempt_Inr ok_def)
  qed
  have g: "given c args terse cli2" "out2 = out" using init_given [OF s i] by simp_all
  then obtain cli3 w3 out3 where call: "call (cc_func c) (cli2, w2, out) = (Inr 0, (cli3, w3, out3))"
    and d: "nvm_cli_destroy h (cli3, w3, out3) = (Inr (), (cli', w', out'))"
    using r by (auto simp: andThen_Inr nvm_cli_run_def get_cli_def given_def ok_def split: if_splits)
  have "stays (seen (\<lambda>c. c = cli3) out3) (nvm_cli_destroy h)"
    unfolding nvm_cli_destroy_def nvm_cli_opts_pfile_unload_def close_dev_def by (intro stays_intros)
  from staysD [OF this _ d] have "cli' = cli3" "out' = out3" by (simp_all add: seen_def)
  then show ?thesis using that g(1) call by blast
qed

section \<open>Round trip\<close>

text \<open>The lines of a text.\<close>

function out_lines :: "string \<Rightarrow> string list" where
  "out_lines s = (if s = [] then [] else takeWhile (\<lambda>c. c \<noteq> CHR 0x0A) s # out_lines (drop 1 (dropWhile (\<lambda>c. c \<noteq> CHR 0x0A) s)))"
  by pat_completeness auto

termination
proof (relation "measure length")
  fix s :: string assume "s \<noteq> []"
  moreover have "length (dropWhile (\<lambda>c. c \<noteq> CHR 0x0A) s) \<le> length s" by (rule length_dropWhile_le)
  ultimately show "(drop 1 (dropWhile (\<lambda>c. c \<noteq> CHR 0x0A) s), s) \<in> measure length" by (cases s) auto
qed simp

declare out_lines.simps [simp del]

lemma out_lines_line: "CHR 0x0A \<notin> set x \<Longrightarrow> out_lines (line x @ s) = x # out_lines s"
  by (subst out_lines.simps) (auto simp: line_def newline_def takeWhile_append dropWhile_append)

lemma out_lines_concat: "\<forall>x \<in> set xs. CHR 0x0A \<notin> set (f x) \<Longrightarrow> out_lines (concat (map (\<lambda>x. line (f x)) xs)) = map f xs"
  by (induction xs) (simp_all add: out_lines_line out_lines.simps [of "[]"])

lemma hex_chars: "CHR 0x0A \<notin> set (pr_hex64 x)" "plain (pr_hex64 x)"
proof -
  have "c \<noteq> CHR 0x0A" if "c \<in> set (pad0 16 (digits_of 16 (uint x)))" for c
  proof -
    from pad0_digits [OF that] obtain d where "0 \<le> d" "d < 16" "c = digit_char d" by auto
    then have "\<not> c_isspace c" using digit_char_not_sign(3) [of d] by simp
    then show ?thesis by (auto simp: c_isspace_def)
  qed
  then show "CHR 0x0A \<notin> set (pr_hex64 x)" by (auto simp: pr_hex64_def)
  show "plain (pr_hex64 x)" by (simp add: plain_def pr_hex64_def)
qed

lemma arg_hex_pr: assumes "unat x < 2 ^ 63" shows "arg_hex (pr_hex64 x) = x"
proof -
  have "int (unat x) < int (2 ^ 63)" using assms by (simp only: of_nat_less_iff)
  then have "uint x \<le> 2 ^ 63 - 1" by simp
  then show ?thesis by (simp add: arg_hex_def strtoll_pr_hex64 min_absorb2)
qed

lemma conversion_terse:
  "o_terse (cli_opts cli) \<noteq> 0 \<Longrightarrow> conversion src dst a b xs (cli, w, out) = (Inr 0, (cli, w, out @ concat (map (\<lambda>x. line (dst x)) xs)))"
  by (simp add: conversion_def andThen_def get_cli_def print_def ok_def)


lemma given_fields:
  assumes "given c args terse cli"
  shows "a_addrs (cli_args cli) = a_addrs args" "a_naddrs (cli_args cli) = a_naddrs args" "a_hex_vals (cli_args cli) = a_hex_vals args"
    "a_nhex_vals (cli_args cli) = a_nhex_vals args" "o_terse (cli_opts cli) = terse"
  using assms by (auto simp: given_def)

text \<open>A conversion of the tool prints one line for every word of the command line.\<close>

text \<open>A structure from which the tool can start; the static one is such a structure.\<close>

definition addr_start :: "addr_func nvm_cli \<Rightarrow> bool" where
  "addr_start cli \<longleftrightarrow> cli_cmds cli = addr_cmds \<and> a_dev (cli_args cli) = None \<and> o_help (cli_opts cli) = 0"

lemma addr_cli_start: "addr_start (addr_cli version)"
  by (simp add: addr_start_def addr_cli_def cli_static_def args_zero_def opts_zero_def)

lemma terse_run:
  fixes h :: "'w host"
  assumes run: "tool_main h addr_call (terse_argv name cname path ws) (cli, w, []) = (Inr 0, (cli', w', out'))" and cli: "addr_start cli"
    and env: "sys_getenv (h_sys h) ''POSIXLY_CORRECT'' w = None" "name \<noteq> ''-h''" "path \<noteq> ''-h''" "0 < length path" "length path \<le> NVM_DEV_PATH_LEN"
    and ws: "\<forall>s \<in> set ws. plain s"
    and c: "find (\<lambda>c. cname = cc_name c) addr_cmds = Some c" "cname \<noteq> ''-h''" "cc_arg_type c \<noteq> NVM_CLI_ARG_NONE"
    and args: "arg_parser_of (cc_arg_type c) (ws @ [''-t'']) ((cli_args cli)\<lparr>a_dev_path := path\<rparr>) = Inr (k, args)" "a_dev args = None"
  obtains cli2 and w2 w3 :: 'w where "given c args 1 cli2" "addr_call (cc_func c) (cli2, w2, []) = (Inr 0, (cli', w3, out'))"
proof -
  let ?cli = "cli\<lparr>cli_name := name\<rparr>"
  have z: "cli_cmds ?cli = addr_cmds" "cli_args ?cli = cli_args cli" "o_help (cli_opts ?cli) = 0"
    using cli by (simp_all add: addr_start_def)
  have "args\<lparr>a_dev := None\<rparr> = args" using args(2) by (cases args) simp
  have "find (\<lambda>c. cname = cc_name c) (cli_cmds ?cli) = Some c" "arg_parser_of (cc_arg_type c) (ws @ [''-t'']) ((cli_args ?cli)\<lparr>a_dev_path := path\<rparr>) = Inr (k, args)"
    using c(1) args(1) by (simp_all only: z)
  from init_parse_terse [OF this(1) env(1) ws env(4,5) z(3) c(3) this(2), of name "[]"]
  obtain cli1 where i: "init_parse h (terse_argv name cname path ws) (?cli, w, []) = (Inr (), (cli1, w, []))" "given c args 1 cli1"
    using \<open>args\<lparr>a_dev := None\<rparr> = args\<close> by auto
  have l: "2 \<le> length (terse_argv name cname path ws)" "terse_argv name cname path ws ! 0 = name" by (simp_all add: terse_argv_def)
  show ?thesis
    by (rule main_runs [OF run l(1) no_help [OF ws env(2) c(2) env(3)] _ i(2)]) (simp add: l(2) i(1), rule that)
qed

lemma addr_cmds_find:
  "find (\<lambda>c. ''gen2dev'' = cc_name c) addr_cmds = Some (cmd ''gen2dev'' Cmd_gen2dev NVM_CLI_ARG_ADDR_LIST (NVM_CLI_OPT_DEFAULT OR NVM_CLI_OPT_TERSE))"
  "find (\<lambda>c. ''dev2gen'' = cc_name c) addr_cmds = Some (cmd ''dev2gen'' Cmd_dev2gen NVM_CLI_ARG_HEXVAL_LIST (NVM_CLI_OPT_DEFAULT OR NVM_CLI_OPT_TERSE))"
  by (simp_all add: addr_cmds_def)

lemma gen2dev_run:
  fixes h :: "'w host"
  assumes run: "tool_main h addr_call (terse_argv name ''gen2dev'' path (map nvm_addr_pr addrs)) (cli, w, []) = (Inr 0, (cli', w', out'))" and cli: "addr_start cli"
    and env: "sys_getenv (h_sys h) ''POSIXLY_CORRECT'' w = None" "name \<noteq> ''-h''" "path \<noteq> ''-h''" "0 < length path" "length path \<le> NVM_DEV_PATH_LEN"
    and addrs: "\<forall>a \<in> set addrs. unat (val a) < 2 ^ 63" "length addrs \<le> NVM_CLI_VALS" and dev: "a_dev (cli_args cli') = Some dev"
  shows "out' = concat (map (\<lambda>a. line (pr_hex64 (nvm_addr_gen2dev dev a))) addrs)"
proof -
  let ?args = "(cli_args cli)\<lparr>a_dev_path := path, a_addrs := addrs @ drop (length addrs) (a_addrs (cli_args cli)), a_naddrs := int (length addrs)\<rparr>"
  have p: "\<forall>s \<in> set (map nvm_addr_pr addrs). plain s" by (simp add: nvm_addr_pr_def hex_chars)
  have "map (\<lambda>a. NvmAddr (arg_hex (nvm_addr_pr a))) addrs = addrs"
    using addrs(1) by (simp add: nvm_addr_pr_def arg_hex_pr map_idI)
  then have a: "parse_arg_addr_list (map nvm_addr_pr addrs @ [''-t'']) ((cli_args cli)\<lparr>a_dev_path := path\<rparr>) = Inr (length addrs, ?args)"
    using addrs(2) by (simp add: parse_arg_addr_list_def list_words_terse [OF p] fill_vals_def res_then_def o_def)
  obtain cli2 and w2 w3 :: 'w where g: "given (cmd ''gen2dev'' Cmd_gen2dev NVM_CLI_ARG_ADDR_LIST (NVM_CLI_OPT_DEFAULT OR NVM_CLI_OPT_TERSE)) ?args 1 cli2"
    and call: "cmd_gen2dev (cli2, w2, []) = (Inr 0, (cli', w3, out'))"
    by (rule terse_run [OF run cli env p addr_cmds_find(1), of "length addrs" ?args]) (use a cli in \<open>simp_all add: arg_parser_of_def addr_call_def addr_start_def\<close>)
  then have c: "cli' = cli2" "out' = concat (map (\<lambda>a. line (pr_hex64 (nvm_addr_gen2dev dev a))) (take (nat (a_naddrs (cli_args cli2))) (a_addrs (cli_args cli2))))"
    using dev given_fields(5) [OF g]
    by (auto simp: cmd_gen2dev_def andThen_Inr get_args_def get_cli_def ok_def fail_def the_dev_def elems_def conversion_terse split: option.splits if_splits)
  show ?thesis using c(2) given_fields [OF g] by simp
qed


lemma dev2gen_run:
  fixes h :: "'w host"
  assumes run: "tool_main h addr_call (terse_argv name ''dev2gen'' path (map pr_hex64 xs)) (cli, w, []) = (Inr 0, (cli', w', out'))" and cli: "addr_start cli"
    and env: "sys_getenv (h_sys h) ''POSIXLY_CORRECT'' w = None" "name \<noteq> ''-h''" "path \<noteq> ''-h''" "0 < length path" "length path \<le> NVM_DEV_PATH_LEN"
    and xs: "\<forall>x \<in> set xs. unat x < 2 ^ 63" "length xs \<le> NVM_CLI_VALS" and dev: "a_dev (cli_args cli') = Some dev"
  shows "out' = concat (map (\<lambda>x. line (nvm_addr_pr (nvm_addr_dev2gen dev x))) xs)"
proof -
  let ?args = "(cli_args cli)\<lparr>a_dev_path := path, a_hex_vals := xs @ drop (length xs) (a_hex_vals (cli_args cli)), a_nhex_vals := int (length xs)\<rparr>"
  have p: "\<forall>s \<in> set (map pr_hex64 xs). plain s" by (simp add: hex_chars)
  have "map (\<lambda>x. arg_hex (pr_hex64 x)) xs = xs"
    using xs(1) by (simp add: arg_hex_pr map_idI)
  then have a: "parse_arg_hexval_list (map pr_hex64 xs @ [''-t'']) ((cli_args cli)\<lparr>a_dev_path := path\<rparr>) = Inr (length xs, ?args)"
    using xs(2) by (simp add: parse_arg_hexval_list_def list_words_terse [OF p] fill_vals_def res_then_def o_def)
  obtain cli2 and w2 w3 :: 'w where g: "given (cmd ''dev2gen'' Cmd_dev2gen NVM_CLI_ARG_HEXVAL_LIST (NVM_CLI_OPT_DEFAULT OR NVM_CLI_OPT_TERSE)) ?args 1 cli2"
    and call: "cmd_dev2gen (cli2, w2, []) = (Inr 0, (cli', w3, out'))"
    by (rule terse_run [OF run cli env p addr_cmds_find(2), of "length xs" ?args]) (use a cli in \<open>simp_all add: arg_parser_of_def addr_call_def addr_start_def\<close>)
  then have c: "cli' = cli2" "out' = concat (map (\<lambda>x. line (nvm_addr_pr (nvm_addr_dev2gen dev x))) (take (nat (a_nhex_vals (cli_args cli2))) (a_hex_vals (cli_args cli2))))"
    using dev given_fields(5) [OF g]
    by (auto simp: cmd_dev2gen_def andThen_Inr get_args_def get_cli_def ok_def fail_def the_dev_def elems_def conversion_terse split: option.splits if_splits)
  show ?thesis using c(2) given_fields [OF g] by simp
qed

section \<open>An example\<close>

text \<open>For the witnesses: a host whose world is the number of open devices, with one backend.\<close>

definition ex_count_sys :: "int sys" where
  "ex_count_sys = \<lparr>sys_aligned_alloc = (\<lambda>al n. ok 0x1000), sys_free = (\<lambda>p w. w), sys_malloc = (\<lambda>n. ok 0x2000), sys_calloc = (\<lambda>n sz. ok 0x3000),
     sys_spdk_dma_malloc = (\<lambda>n al. ok (0x4000, 0)), sys_spdk_dma_realloc = (\<lambda>p n al. ok (p, 0)), sys_spdk_dma_free = (\<lambda>p w. w),
     sys_spdk_vtophys = (\<lambda>p w. p), sys_rand = (\<lambda>w. (7, w)),
     sys_getenv = (\<lambda>s w. if s = ''NVM_CLI_READ_NADDRS_MAX'' then Some ''16'' else None),
     sys_store = (\<lambda>p bs w. w), sys_ret_async = (\<lambda>r c w. w), sys_ret_clear = (\<lambda>r w. w)\<rparr>"

definition ex_dev_small :: nvm_dev where
  "ex_dev_small = ex_dev_s20\<lparr>dev_geo := (dev_geo ex_dev_s20)\<lparr>nchannels := 2, nluns := 1\<rparr>\<rparr>"

definition ex_count_be :: "int nvm_be" where
  "ex_count_be = (nvm_be_disabled NVM_BE_SPDK ''NVM_BE_SPDK'')\<lparr>be_open := (\<lambda>path flags w. (Inr ex_dev_small, w + 1)), be_close := (\<lambda>dev w. (Inr (), w - 1))\<rparr>"

definition ex_host :: "int host" where
  "ex_host = \<lparr>h_sys = ex_count_sys, h_imps = [ex_count_be], h_read_file = (\<lambda>path w. None), h_write_file = (\<lambda>path bs w. None),
     h_load = (\<lambda>p n w. replicate n 0), h_load_cmd = (\<lambda>p w. cmd_zero), h_dev_ptr = (\<lambda>dev. 0x2000), h_bbts_ptr = (\<lambda>dev. 0x2000)\<rparr>"

definition ex_argv :: "string list" where
  "ex_argv = [''nvm_addr'', ''gen2dev'', ''/dev/nvme0n1'', ''0x0100000500000002'', ''0x0000000100000000'', ''-t'']"

lemma ex_host_laws: "device_laws ex_host (\<lambda>w. w)"
  by (auto simp: device_laws_def memory_keeps_def backend_counts_def keeps_def stays_def ex_host_def ex_count_sys_def ex_count_be_def
    nvm_be_disabled_def nvm_be_nosys_gbbt_def nvm_be_nosys_sbbt_def ok_def fail_def)

text \<open>The device after its options were set, and the same tool with short arrays.\<close>

definition ex_dev_opened :: nvm_dev where
  "ex_dev_opened = ex_dev_small\<lparr>dev_be := Some NVM_BE_SPDK, dev_bbts_cached := 0, dev_nbbts := 2, dev_bbts := [None, None],
     dev_cmd_opts := openf_cmd_opts 0, dev_read_naddrs_max := 16\<rparr>"

definition ex_cli :: "addr_func nvm_cli" where
  "ex_cli = (addr_cli [])\<lparr>cli_args := args_zero\<lparr>a_addrs := replicate 4 (NvmAddr 0), a_dec_vals := [], a_hex_vals := []\<rparr>\<rparr>"

definition ex_addrs :: "nvm_addr list" where
  "ex_addrs = [NvmAddr 0x0100000500000002, NvmAddr 0x0000000100000000]"

definition ex_words :: "string list" where
  "ex_words = map (\<lambda>a. pr_hex64 (nvm_addr_gen2dev ex_dev_opened a)) ex_addrs"

lemma ex_gen2dev_evaluates:
  "case tool_main ex_host addr_call ex_argv (ex_cli, 0, []) of
     (Inr st, (cli1, w1, out1)) \<Rightarrow> st = 0 \<and> w1 = 0 \<and> out_lines out1 = ex_words \<and> a_dev (cli_args cli1) = Some ex_dev_opened
   | _ \<Rightarrow> False"
  by code_simp

lemma ex_dev2gen_evaluates:
  "case tool_main ex_host addr_call (terse_argv ''nvm_addr'' ''dev2gen'' ''/dev/nvme0n1'' ex_words) (ex_cli, 0, []) of
     (Inr st, (cli2, w2, out2)) \<Rightarrow> st = 0 \<and> a_dev (cli_args cli2) = Some ex_dev_opened
   | _ \<Rightarrow> False"
  by code_simp

lemma ex_runs:
  obtains cli1 out1 cli2 w2 out2 where
    "tool_main ex_host addr_call ex_argv (ex_cli, 0, []) = (Inr 0, (cli1, 0, out1))" "out_lines out1 = ex_words" "a_dev (cli_args cli1) = Some ex_dev_opened"
    "tool_main ex_host addr_call (terse_argv ''nvm_addr'' ''dev2gen'' ''/dev/nvme0n1'' ex_words) (ex_cli, 0, []) = (Inr 0, (cli2, w2, out2))"
    "a_dev (cli_args cli2) = Some ex_dev_opened"
  using ex_gen2dev_evaluates ex_dev2gen_evaluates by (auto split: prod.splits sum.splits)

lemma ex_cli_start: "addr_start ex_cli"
  by (simp add: ex_cli_def addr_start_def addr_cli_def cli_static_def args_zero_def opts_zero_def)

lemma ex_argv_terse: "ex_argv = terse_argv ''nvm_addr'' ''gen2dev'' ''/dev/nvme0n1'' (map nvm_addr_pr ex_addrs)"
  by code_simp

section \<open>Properties\<close>



text \<open>
  C18. A tool starts with the device and the options that its command line and its environment ask for. When \<open>nvm_cli_init\<close> succeeds for a
  command that takes a device, and usage is not asked for, the device was opened at the path of the arguments, with the flags of
  \<open>NVM_CLI_CMD_OPTS\<close>. Its plane mode and metadata mode are the hexadecimal values of \<open>NVM_CLI_PMODE\<close> and \<open>NVM_CLI_META_MODE\<close>, its
  limits the decimal values of \<open>NVM_CLI_ERASE_NADDRS_MAX\<close>, \<open>NVM_CLI_WRITE_NADDRS_MAX\<close> and \<open>NVM_CLI_READ_NADDRS_MAX\<close> (\<open>configured\<close>); what is not in the
  environment is as it was when the device was opened, and nothing else of the device is changed. Every address of the arguments is one of the device
  unless \<open>NVM_CLI_NOVERIFY\<close> is set. The environment is assumed not to change during the run.
\<close>

theorem nvm_cli_init_ready:
  assumes "nvm_cli_init h argv (cli, w, out) = (Inr (), (cli', w', out'))"
    and "o_help (cli_opts cli') = 0" "selected_arg_type cli' \<noteq> NVM_CLI_ARG_NONE" "\<forall>name w. sys_getenv (h_sys h) name w = env name"
  shows "\<exists>dev w0 w1. nvm_dev_openf (h_sys h) (h_imps h) (a_dev_path (cli_args cli'))
        (word_of_int (env_or (env ''NVM_CLI_CMD_OPTS'') (\<lambda>s. c_int (c_strtoll 16 s)) (ev_cmd_opts (cli_evars cli)))) w0 = (Inr dev, w1)
    \<and> a_dev (cli_args cli') = Some (configured env dev)
    \<and> (env ''NVM_CLI_NOVERIFY'' = None \<longrightarrow>
        (\<forall>i < nat (a_naddrs (cli_args cli')). nvm_addr_check (a_addrs (cli_args cli') ! i) (configured env dev) = Inr 0))"
proof -
  have e: "env_law h env" using assms(4) by (simp add: env_law_def)
  have "on_cli (\<lambda>c. cli_evars c = cli_evars cli) (cli, w, out)" by (simp add: on_cli_def)
  from givesD [OF init_gives_ready [OF e] this assms(1)] assms(2,3)
  show ?thesis unfolding on_cli_def cli_ready_def addr_check_fails_def not_not by simp
qed

text \<open>The environment limits reads to 16 addresses.\<close>

theorem nvm_cli_init_ready_witness:
  "\<exists>cli' w' out' dev. nvm_cli_init ex_host ex_argv (ex_cli, 0, []) = (Inr (), (cli', w', out'))
     \<and> a_dev (cli_args cli') = Some dev \<and> dev_read_naddrs_max dev = 16 \<and> a_naddrs (cli_args cli') = 2
     \<and> nvm_addr_check (a_addrs (cli_args cli') ! 1) dev = Inr 0"
proof -
  let ?env = "\<lambda>s. if s = ''NVM_CLI_READ_NADDRS_MAX'' then Some ''16'' else None"
  have "case nvm_cli_init ex_host ex_argv (ex_cli, 0, []) of (Inr (), (cli', _)) \<Rightarrow> o_help (cli_opts cli') = 0 \<and> selected_arg_type cli' \<noteq> NVM_CLI_ARG_NONE
      \<and> a_naddrs (cli_args cli') = 2 | _ \<Rightarrow> False"
    by code_simp
  then obtain cli' w' out' where i: "nvm_cli_init ex_host ex_argv (ex_cli, 0, []) = (Inr (), (cli', w', out'))" "o_help (cli_opts cli') = 0"
    "selected_arg_type cli' \<noteq> NVM_CLI_ARG_NONE" "a_naddrs (cli_args cli') = 2"
    by (auto split: prod.splits sum.splits unit.splits)
  have env: "\<forall>name w. sys_getenv (h_sys ex_host) name w = ?env name" by (simp add: ex_host_def ex_count_sys_def)
  have n: "c_atoi ''16'' = 16" by code_simp
  then have r: "dev_read_naddrs_max (configured ?env dev) = 16" for dev by (simp add: configured_def env_or_def)
  from nvm_cli_init_ready [OF i(1-3) env] obtain dev where d: "a_dev (cli_args cli') = Some (configured ?env dev)"
    "\<forall>j < nat (a_naddrs (cli_args cli')). nvm_addr_check (a_addrs (cli_args cli') ! j) (configured ?env dev) = Inr 0" by auto
  have "nvm_addr_check (a_addrs (cli_args cli') ! 1) (configured ?env dev) = Inr 0" using d(2) i(4) by simp
  then show ?thesis using i(1,4) d(1) r [of dev] by blast
qed

text \<open>
  The tool \<open>nvm_addr\<close> closes the device it opened, when \<open>malloc\<close> does not fail and no backend leaves a device open that it fails to
  open (\<open>device_laws\<close>; the ioctl backend does so on some errors, and \<open>nvm_dev_openf\<close> when it finds no memory for the table of bad-block
  tables): when its \<open>main\<close> returns there are as many open devices as before, also when an environment variable, an address or a file passed
  with an option is refused after the device was opened.
\<close>

theorem addr_tool_closes_device:
  assumes "device_laws h live" "addr_start cli" "tool_main h addr_call argv (cli, w, out) = (Inr status, (cli', w', out'))"
  shows "live w' = live w"
  by (rule main_closes [OF assms(1) addr_prints.call_holds assms(3)]) (use assms(2) in \<open>simp_all add: addr_start_def\<close>)

theorem addr_tool_closes_device_witness:
  "\<exists>cli' out'. tool_main ex_host addr_call ex_argv (ex_cli, 0, []) = (Inr 0, (cli', 0, out'))"
proof -
  obtain cli' w' out' where m: "tool_main ex_host addr_call ex_argv (ex_cli, 0, []) = (Inr 0, (cli', w', out'))"
    by (rule ex_runs)
  from addr_tool_closes_device [OF ex_host_laws ex_cli_start m] m show ?thesis by auto
qed

text \<open>
  C16. The round trip of the tool \<open>nvm_addr\<close>: the lines that \<open>nvm_addr gen2dev -t\<close> prints for a list of addresses, given as the words of
  \<open>nvm_addr dev2gen -t\<close>, make it print the addresses. The command lines are parsed, the device is opened and set up, and the
  numbers are printed and read. The values have to be below \<open>2 ^ 63\<close>, where \<open>strtoll\<close> saturates.
\<close>

theorem addr_tool_roundtrip:
  assumes "tool_main h addr_call (terse_argv name ''gen2dev'' path (map nvm_addr_pr addrs)) (cli, w, []) = (Inr 0, (cli1, w1, out1))"
    and "tool_main h addr_call (terse_argv name ''dev2gen'' path (out_lines out1)) (cli, w1, []) = (Inr 0, (cli2, w2, out2))"
    and "addr_start cli" "sys_getenv (h_sys h) ''POSIXLY_CORRECT'' w = None" "sys_getenv (h_sys h) ''POSIXLY_CORRECT'' w1 = None"
    and "name \<noteq> ''-h''" "path \<noteq> ''-h''" "0 < length path" "length path \<le> NVM_DEV_PATH_LEN" "length addrs \<le> NVM_CLI_VALS"
    and "a_dev (cli_args cli1) = Some dev" "a_dev (cli_args cli2) = Some dev" "wf_fmt dev" "\<forall>a \<in> set addrs. fits dev a"
    and "\<forall>a \<in> set addrs. unat (val a) < 2 ^ 63 \<and> unat (nvm_addr_gen2dev dev a) < 2 ^ 63"
  shows "out2 = concat (map (\<lambda>a. line (nvm_addr_pr a)) addrs)"
proof -
  let ?xs = "map (nvm_addr_gen2dev dev) addrs"
  have o1: "out1 = concat (map (\<lambda>a. line (pr_hex64 (nvm_addr_gen2dev dev a))) addrs)"
    by (rule gen2dev_run [OF assms(1,3,4,6-9) _ assms(10,11)]) (use assms(15) in blast)
  have l: "out_lines out1 = map pr_hex64 ?xs"
    unfolding o1 using out_lines_concat [of addrs "\<lambda>a. pr_hex64 (nvm_addr_gen2dev dev a)"] by (simp add: hex_chars o_def)
  have "out2 = concat (map (\<lambda>x. line (nvm_addr_pr (nvm_addr_dev2gen dev x))) ?xs)"
    by (rule dev2gen_run [OF assms(2) [unfolded l] assms(3,5-9) _ _ assms(12)]) (use assms(10,15) in auto)
  also have "\<dots> = concat (map (\<lambda>a. line (nvm_addr_pr a)) (map (nvm_addr_dev2gen dev) ?xs))" by (simp add: o_def)
  finally show ?thesis unfolding fmt.map_dec_enc [OF assms(13,14)] .
qed

theorem addr_tool_roundtrip_witness:
  "\<exists>cli1 w1 out1 cli2 w2 out2. tool_main ex_host addr_call ex_argv (ex_cli, 0, []) = (Inr 0, (cli1, w1, out1))
     \<and> tool_main ex_host addr_call (terse_argv ''nvm_addr'' ''dev2gen'' ''/dev/nvme0n1'' (out_lines out1)) (ex_cli, w1, []) = (Inr 0, (cli2, w2, out2))
     \<and> out_lines out2 = [''0x0100000500000002'', ''0x0000000100000000'']"
proof -
  obtain cli1 out1 cli2 w2 out2 where r: "tool_main ex_host addr_call ex_argv (ex_cli, 0, []) = (Inr 0, (cli1, 0, out1))"
    and o: "out_lines out1 = ex_words" and d: "a_dev (cli_args cli1) = Some ex_dev_opened" "a_dev (cli_args cli2) = Some ex_dev_opened"
    and r2: "tool_main ex_host addr_call (terse_argv ''nvm_addr'' ''dev2gen'' ''/dev/nvme0n1'' ex_words) (ex_cli, 0, []) = (Inr 0, (cli2, w2, out2))"
    by (rule ex_runs)
  have e: "sys_getenv (h_sys ex_host) ''POSIXLY_CORRECT'' w = None" for w by (simp add: ex_host_def ex_count_sys_def)
  have f: "wf_fmt ex_dev_opened" "\<forall>a \<in> set ex_addrs. fits ex_dev_opened a"
    "\<forall>a \<in> set ex_addrs. unat (val a) < 2 ^ 63 \<and> unat (nvm_addr_gen2dev ex_dev_opened a) < 2 ^ 63"
    by (simp_all add: wf_fmt_def wf_lbaf_def field_mask_def mask_eq_exp_minus_1 ex_dev_opened_def ex_dev_small_def ex_dev_s20_def ex_addrs_def fits_def fits_s20_def
      addr_get_def bf_get_def nvm_addr_gen2dev_def gen2dev_s20_def)
  have "out2 = concat (map (\<lambda>a. line (nvm_addr_pr a)) ex_addrs)"
    by (rule addr_tool_roundtrip [OF r [unfolded ex_argv_terse] r2 [folded o] ex_cli_start e e _ _ _ _ _ d f]) (simp_all add: ex_addrs_def)
  moreover have "out_lines (concat (map (\<lambda>a. line (nvm_addr_pr a)) ex_addrs)) = [''0x0100000500000002'', ''0x0000000100000000'']"
    by code_simp
  ultimately show ?thesis using r r2 o by auto
qed

end
