(* ===== verification/Nvm_Cli_Input.thy ===== *)
theory Nvm_Cli_Input
  imports Nvm_Cli
begin

text \<open>
  What a command-line tool reads: which options of a command line are recognised, and what a file passed with an
  option leaves in its buffer.
\<close>

section \<open>Options\<close>

text \<open>A piece of a command line: an argument, an option, or an option with its value in the next word.\<close>

datatype piece = Word string | Opt char | Opt_val char string

definition piece_ok :: "piece \<Rightarrow> bool" where
  "piece_ok p = (case p of
       Word s \<Rightarrow> \<not> is_option s
     | Opt c \<Rightarrow> c \<in> set ''hbvt''
     | Opt_val c s \<Rightarrow> c \<in> set ''cmdionx'')"

definition piece_words :: "piece \<Rightarrow> string list" where
  "piece_words p = (case p of Word s \<Rightarrow> [s] | Opt c \<Rightarrow> [CHR ''-'' # [c]] | Opt_val c s \<Rightarrow> [CHR ''-'' # [c], s])"

definition piece_events :: "piece \<Rightarrow> opt_event list" where
  "piece_events p = (case p of Word s \<Rightarrow> [] | Opt c \<Rightarrow> [Flag c] | Opt_val c s \<Rightarrow> [Value c s])"

text \<open>The pieces that \<open>getopt\<close> reaches: all of them, or those before the first argument when \<open>POSIXLY_CORRECT\<close> is set.\<close>

definition reached :: "bool \<Rightarrow> piece list \<Rightarrow> piece list" where
  "reached posix ps = (if posix then takeWhile (\<lambda>p. case p of Word s \<Rightarrow> False | _ \<Rightarrow> True) ps else ps)"

lemma reached_simps [simp]: "reached posix [] = []"
  "reached posix (p # ps) = (case p of Word s \<Rightarrow> if posix then [] else p # reached posix ps | _ \<Rightarrow> p # reached posix ps)"
  by (auto simp: reached_def split: piece.splits)

lemma opt_kinds: "c \<in> set ''hbvt'' \<Longrightarrow> opt_kind c = Takes_none" "c \<in> set ''cmdionx'' \<Longrightarrow> opt_kind c = Takes_value" "opt_kind CHR ''s'' = Unknown"
proof -
  have "list_all (\<lambda>c. opt_kind c = Takes_none) ''hbvt'' \<and> list_all (\<lambda>c. opt_kind c = Takes_value) ''cmdionx'' \<and> opt_kind CHR ''s'' = Unknown"
    by code_simp
  then show "c \<in> set ''hbvt'' \<Longrightarrow> opt_kind c = Takes_none" "c \<in> set ''cmdionx'' \<Longrightarrow> opt_kind c = Takes_value" "opt_kind CHR ''s'' = Unknown"
    unfolding list_all_iff by blast+
qed

lemma scan_piece: "piece_ok p \<Longrightarrow> getopt_scan posix (piece_words p @ ws) =
    (case p of Word s \<Rightarrow> if posix then [] else getopt_scan posix ws | _ \<Rightarrow> piece_events p @ getopt_scan posix ws)"
proof (cases p)
  case (Word s)
  assume "piece_ok p"
  then show ?thesis using Word by (auto simp: piece_ok_def piece_words_def piece_events_def is_option_def)
next
  case (Opt c)
  assume "piece_ok p"
  then have "opt_kind c = Takes_none" "c \<noteq> CHR ''-''" using Opt opt_kinds(1) by (auto simp: piece_ok_def)
  then show ?thesis using Opt by (simp add: piece_words_def piece_events_def is_option_def)
next
  case (Opt_val c s)
  assume "piece_ok p"
  then have "opt_kind c = Takes_value" "c \<noteq> CHR ''-''" using Opt_val opt_kinds(2) by (auto simp: piece_ok_def)
  then show ?thesis using Opt_val by (simp add: piece_words_def piece_events_def is_option_def)
qed

lemma scan_pieces: "\<forall>p \<in> set ps. piece_ok p \<Longrightarrow> getopt_scan posix (concat (map piece_words ps) @ ws) =
    concat (map piece_events (reached posix ps)) @ (if reached posix ps = ps then getopt_scan posix ws else [])"
  by (induction ps) (auto simp: scan_piece piece_events_def split: piece.splits)

lemma loop_append: "parse_opts_loop (evs @ evs') opts = res_then (parse_opts_loop evs opts) (parse_opts_loop evs')"
  by (induction evs arbitrary: opts) (auto simp: res_then_def split: sum.split)

lemma loop_returns: "Invalid \<notin> set evs \<Longrightarrow> \<exists>opts'. parse_opts_loop evs opts = Inr opts'"
proof (induction evs arbitrary: opts)
  case (Cons ev evs)
  then have "\<exists>o1. parse_opt ev opts = Inr o1" by (cases ev) (simp_all add: parse_opt_def)
  then show ?case using Cons by (auto simp: res_then_def)
qed simp

lemma pieces_valid: "Invalid \<notin> set (concat (map piece_events ps))"
  by (auto simp: piece_events_def split: piece.splits)

section \<open>Files\<close>

text \<open>A store to memory: the bytes from an address on.\<close>

definition store_law :: "'w sys \<Rightarrow> ('w \<Rightarrow> ptr \<Rightarrow> u8) \<Rightarrow> bool" where
  "store_law sys mem \<longleftrightarrow> (\<forall>p bs w q. mem (sys_store sys p bs w) q = (if unat (q - p) < length bs then bs ! unat (q - p) else mem w q))"

text \<open>The last of the pieces of 4096 bytes that has a byte at position \<open>i\<close> decides it.\<close>

lemma pieces_stored:
  assumes "store_law sys mem" "i < 2 ^ 64"
  shows "mem (fold (sys_store sys p) (file_pieces bs) w) (p + of_nat i) =
    (if i < length bs \<and> i < 4096 then bs ! (i + (length bs - 1 - i) div 4096 * 4096) else mem w (p + of_nat i))"
proof (induction bs arbitrary: w rule: file_pieces.induct)
  case (1 bs)
  show ?case
  proof (cases "bs = []")
    case False
    define w1 where "w1 = sys_store sys p (take 4096 bs) w"
    have u: "unat (of_nat i :: ptr) = i" using assms(2) by (simp add: unsigned_of_nat take_bit_nat_eq_self)
    have m: "mem w1 (p + of_nat i) = (if i < length bs \<and> i < 4096 then bs ! i else mem w (p + of_nat i))"
      using assms(1) by (simp add: store_law_def w1_def u)
    have "fold (sys_store sys p) (file_pieces bs) w = fold (sys_store sys p) (file_pieces (drop 4096 bs)) w1"
      using False by (subst file_pieces.simps) (simp add: w1_def)
    then have "mem (fold (sys_store sys p) (file_pieces bs) w) (p + of_nat i) =
      (if i < length bs - 4096 \<and> i < 4096 then drop 4096 bs ! (i + (length bs - 4096 - 1 - i) div 4096 * 4096) else mem w1 (p + of_nat i))"
      using "1.IH" [OF False, of w1] by simp
    also have "\<dots> = (if i < length bs \<and> i < 4096 then bs ! (i + (length bs - 1 - i) div 4096 * 4096) else mem w (p + of_nat i))"
    proof (cases "i < length bs - 4096")
      case True
      then have l: "length bs - 1 - i = 4096 + (length bs - 4096 - 1 - i)" by simp
      have n: "(4096 :: nat) \<noteq> 0" by simp
      have e: "(length bs - 1 - i) div 4096 = Suc ((length bs - 4096 - 1 - i) div 4096)"
        unfolding l div_add_self1 [OF n] Suc_eq_plus1 ..
      have "4096 \<le> length bs" using True by simp
      then have "drop 4096 bs ! (i + (length bs - 4096 - 1 - i) div 4096 * 4096) = bs ! (i + (length bs - 1 - i) div 4096 * 4096)"
        unfolding e by (simp only: nth_drop) (rule arg_cong [where f = "nth bs"], simp)
      moreover have "i < length bs" using True by simp
      ultimately show ?thesis using True m by (cases "i < 4096") simp_all
    next
      case False
      then have "i < length bs \<Longrightarrow> length bs - 1 - i < 4096" by simp
      then show ?thesis using False m by simp
    qed
    finally show ?thesis .
  qed (simp add: file_pieces.simps)
qed

lemma pieces_concat: "concat (file_pieces bs) = bs"
  by (induction bs rule: file_pieces.induct) (subst file_pieces.simps, simp)


section \<open>Properties\<close>

text \<open>
  C38. Which options \<open>parse_opts\<close> processes. The first word it is given is skipped, whatever it is, an option too. After it, for every
  sequence of arguments and of the options \<open>-h\<close>, \<open>-b\<close>, \<open>-v\<close>, \<open>-t\<close> and, with a value in the next word, \<open>-c\<close>, \<open>-m\<close>, \<open>-d\<close>, \<open>-i\<close>, \<open>-o\<close>, \<open>-n\<close> and \<open>-x\<close>, exactly these options
  are processed, in the order in which they are given: wherever they stand among the arguments when \<open>POSIXLY_CORRECT\<close> is not set, and up
  to the first argument when it is. An option \<open>-s\<close> that is reached is refused, although the usage text lists it and
  \<open>parse_opts\<close> has a case for it, since the string given to \<open>getopt\<close> lacks it.
\<close>

theorem parse_opts_pieces:
  assumes "\<forall>p \<in> set ps. piece_ok p"
  shows "parse_opts posix (first # concat (map piece_words ps)) opts = parse_opts_loop (concat (map piece_events (reached posix ps))) opts
    \<and> (\<exists>opts'. parse_opts posix (first # concat (map piece_words ps)) opts = Inr opts')
    \<and> (reached posix ps = ps \<longrightarrow> parse_opts posix (first # concat (map piece_words ps) @ ''-s'' # ws) opts = Inl (Errno EKEEP))"
proof -
  obtain opts' where l: "parse_opts_loop (concat (map piece_events (reached posix ps))) opts = Inr opts'"
    using loop_returns [OF pieces_valid] by blast
  have "getopt_scan posix (''-s'' # ws) = Invalid # getopt_scan posix ws"
    by (simp add: is_option_def opt_kinds(3))
  then have "reached posix ps = ps \<longrightarrow> parse_opts posix (first # concat (map piece_words ps) @ ''-s'' # ws) opts = Inl (Errno EKEEP)"
    using l by (auto simp: parse_opts_def scan_pieces [OF assms] loop_append res_then_def parse_opt_def)
  moreover have "getopt_scan posix (concat (map piece_words ps)) = concat (map piece_events (reached posix ps))"
    using scan_pieces [OF assms, of posix "[]"] by (simp split: if_splits)
  ultimately show ?thesis using l by (simp add: parse_opts_def)
qed

theorem parse_opts_pieces_witness:
  "\<exists>opts'. parse_opts False [''/dev/nvme0n1'', ''0x10'', ''-v'', ''-o'', ''out.bin'', ''0x20''] opts_zero = Inr opts'
     \<and> o_file_output opts' = Some ''out.bin'' \<and> o_verbose opts' = 1
     \<and> parse_opts True [''/dev/nvme0n1'', ''0x10'', ''-v'', ''-o'', ''out.bin'', ''0x20''] opts_zero = Inr opts_zero"
proof -
  let ?ps = "[Word ''0x10'', Opt CHR ''v'', Opt_val CHR ''o'' ''out.bin'', Word ''0x20'']"
  have "\<forall>p \<in> set ?ps. piece_ok p" by (simp add: piece_ok_def is_option_def)
  note p = parse_opts_pieces [OF this, of False "''/dev/nvme0n1''" opts_zero] parse_opts_pieces [OF this, of True "''/dev/nvme0n1''" opts_zero]
  have "concat (map piece_words ?ps) = [''0x10'', ''-v'', ''-o'', ''out.bin'', ''0x20'']" "concat (map piece_events ?ps) = [Flag CHR ''v'', Value CHR ''o'' ''out.bin'']"
    by (simp_all add: piece_words_def piece_events_def)
  with p show ?thesis by (auto simp: reached_def res_then_def parse_opt_def add_opt_def)
qed

text \<open>
  C39. The buffer of a file passed with \<open>-c\<close>, \<open>-m\<close> or \<open>-d\<close>: \<open>pfile_to_buf\<close> returns the length of the file, and stores the file itself when it has
  at most 4096 bytes. Of a longer file every piece of 4096 bytes is stored at the start of the buffer, over the one before: byte \<open>i\<close> is
  the one at the last position of the file that is \<open>i\<close> modulo 4096, and what lies behind is left as it was.
\<close>

theorem pfile_to_buf_stores:
  assumes "store_law (h_sys h) mem" "h_read_file h path w = Some bs" "length bs \<le> max_fsize" "length bs < 2 ^ 64"
  shows "\<exists>w'. pfile_to_buf h path buf max_fsize w = (Inr (length bs), w')
    \<and> (\<forall>i < length bs. mem w' (buf + of_nat i) = (if i < 4096 then bs ! (i + (length bs - 1 - i) div 4096 * 4096) else mem w (buf + of_nat i)))
    \<and> (length bs \<le> 4096 \<longrightarrow> (\<forall>i < length bs. mem w' (buf + of_nat i) = bs ! i))"
proof -
  let ?w = "fold (sys_store (h_sys h) buf) (file_pieces bs) w"
  have r: "pfile_to_buf h path buf max_fsize w = (Inr (length bs), ?w)"
    using assms(2,3) by (simp add: pfile_to_buf_def pieces_concat)
  have m: "mem ?w (buf + of_nat i) = (if i < 4096 then bs ! (i + (length bs - 1 - i) div 4096 * 4096) else mem w (buf + of_nat i))" if "i < length bs" for i
    using pieces_stored [OF assms(1), of i buf bs w] that assms(4) by simp
  moreover have "mem ?w (buf + of_nat i) = bs ! i" if "i < length bs" "length bs \<le> 4096" for i
  proof -
    have "(length bs - 1 - i) div 4096 = 0" using that(2) by simp
    then show ?thesis using m [OF that(1)] that by simp
  qed
  ultimately show ?thesis using r by blast
qed

definition ex_mem_host :: "(ptr \<Rightarrow> u8) host" where
  "ex_mem_host = \<lparr>h_sys = \<lparr>sys_aligned_alloc = (\<lambda>al n. ok 0x1000), sys_free = (\<lambda>p w. w), sys_malloc = (\<lambda>n. ok 0x2000), sys_calloc = (\<lambda>n sz. ok 0x3000),
       sys_spdk_dma_malloc = (\<lambda>n al. ok (0x4000, 0)), sys_spdk_dma_realloc = (\<lambda>p n al. ok (p, 0)), sys_spdk_dma_free = (\<lambda>p w. w),
       sys_spdk_vtophys = (\<lambda>p w. p), sys_rand = (\<lambda>w. (7, w)), sys_getenv = (\<lambda>s w. None),
       sys_store = (\<lambda>p bs w q. if unat (q - p) < length bs then bs ! unat (q - p) else w q), sys_ret_async = (\<lambda>r c w. w), sys_ret_clear = (\<lambda>r w. w)\<rparr>,
     h_imps = [], h_read_file = (\<lambda>path w. Some (replicate 4096 1 @ [2, 3])), h_write_file = (\<lambda>path bs w. None),
     h_load = (\<lambda>p n w. map (\<lambda>i. w (p + of_nat i)) [0..<n]), h_load_cmd = (\<lambda>p w. cmd_zero), h_dev_ptr = (\<lambda>dev. 0x2000), h_bbts_ptr = (\<lambda>dev. 0x2000)\<rparr>"

theorem pfile_to_buf_stores_witness:
  "\<exists>w'. pfile_to_buf ex_mem_host ''data'' 0x1000 0x100000 (\<lambda>_. 0) = (Inr 4098, w')
     \<and> w' 0x1000 = 2 \<and> w' 0x1001 = 3 \<and> w' 0x1002 = 1 \<and> w' 0x2000 = 0"
proof -
  let ?bs = "replicate 4096 1 @ [2, 3] :: u8 list"
  have h: "store_law (h_sys ex_mem_host) (\<lambda>w. w)" "h_read_file ex_mem_host ''data'' (\<lambda>_. 0) = Some ?bs"
    by (simp_all add: store_law_def ex_mem_host_def)
  have l: "length ?bs = 4098" by simp
  obtain w' where w: "pfile_to_buf ex_mem_host ''data'' 0x1000 0x100000 (\<lambda>_. 0) = (Inr 4098, w')"
    "\<And>i. i < 4098 \<Longrightarrow> w' (0x1000 + of_nat i) = (if i < 4096 then ?bs ! (i + (4098 - 1 - i) div 4096 * 4096) else 0)"
    using pfile_to_buf_stores [OF h, of "0x100000" "0x1000", unfolded l] by auto
  from w(2) [of 0] w(2) [of 1] w(2) [of 2] w(2) [of 4096] w(1) show ?thesis by (auto simp: nth_append)
qed

end
