(* ===== verification/Nvm_Bp.thy ===== *)
theory Nvm_Bp
  imports Nvm_Cli Nvm_Vblk
begin

text \<open>
  The boilerplate of example programs, \<open>src/nvm_bp.c\<close>: a device, a virtual block on free chunks of it and buffers of
  its size. The pointer \<open>geo\<close>, into the device, is left out, and so is the printing.
\<close>

section \<open>Operations\<close>

abbreviation (input) NVM_CHUNK_STATE_FREE :: int where "NVM_CHUNK_STATE_FREE \<equiv> 1"

record nvm_bp =
  bp_self :: ptr
  bp_dev :: "nvm_dev option"
  bp_bufs :: "nvm_buf_set option"
  bp_vblk :: "nvm_vblk option"
  bp_ws_opt :: u64
  bp_naddrs :: u64
  bp_addrs :: "nvm_addr list"

definition nvm_bp_term :: "'w sys \<Rightarrow> nvm_bp option \<Rightarrow> ('w, unit) op" where
  "nvm_bp_term sys bp = (case bp of
       None \<Rightarrow> ok ()
     | Some b \<Rightarrow>
         andThen (nvm_buf_set_free sys (bp_bufs b)) (\<lambda>_.
         andThen (case bp_vblk b of None \<Rightarrow> ok () | Some v \<Rightarrow> nvm_vblk_free sys v) (\<lambda>_.
         upd (sys_free sys (bp_self b)))))"

text \<open>\<open>calloc\<close> of the structure, 48 bytes, and of its addresses; a negative number makes the size wrap around.\<close>

definition bp_alloc :: "'w sys \<Rightarrow> int \<Rightarrow> ('w, nvm_bp) op" where
  "bp_alloc sys naddrs =
     andThen (sys_calloc sys 1 (48 + 8 * word_of_int naddrs)) (\<lambda>p.
     if 48 + 8 * word_of_int naddrs < (48 :: u64) then fail (Fault OutOfBounds)
     else ok \<lparr>bp_self = p, bp_dev = None, bp_bufs = None, bp_vblk = None, bp_ws_opt = 0, bp_naddrs = word_of_int naddrs,
       bp_addrs = replicate (nat naddrs) (NvmAddr 0)\<rparr>)"

text \<open>From \<open>src/nvm_buf.c\<close>.\<close>

definition nvm_buf_set_fill :: "'w sys \<Rightarrow> nvm_buf_set \<Rightarrow> ('w, unit) op" where
  "nvm_buf_set_fill sys b =
     (let fill = (\<lambda>wr rd n. if n = 0 then ok () else andThen (fill_at sys wr n) (\<lambda>_. upd (sys_store sys rd (replicate (unat n) 0)))) in
      andThen (fill (bs_write b) (bs_read b) (bs_nbytes b)) (\<lambda>_. fill (bs_write_meta b) (bs_read_meta b) (bs_nbytes_meta b)))"

text \<open>The errors of \<open>nvm_dev_get_ws_opt\<close> are stored as they are returned.\<close>

definition bp_ws :: "nvm_dev \<Rightarrow> u64" where
  "bp_ws dev = (case nvm_dev_get_ws_opt dev of Inl e \<Rightarrow> - 1 | Inr n \<Rightarrow> word_of_int n)"

definition bp_backend :: "'w host \<Rightarrow> nvm_dev \<Rightarrow> ('w, 'w nvm_be) op" where
  "bp_backend h dev = (case dev_backend h dev of None \<Rightarrow> fail (Fault NullDeref) | Some be \<Rightarrow> ok be)"

definition nvm_bp_init :: "'w host \<Rightarrow> string \<Rightarrow> int \<Rightarrow> int \<Rightarrow> ('w, nvm_bp) op" where
  "nvm_bp_init h dev_ident flags naddrs =
     (let sys = h_sys h in
      andThen (bp_alloc sys naddrs) (\<lambda>bp.
      andThen (on_error (nvm_dev_openf sys (h_imps h) dev_ident (word_of_int flags)) (nvm_bp_term sys (Some bp))) (\<lambda>dev.
      let bp = bp\<lparr>bp_dev := Some dev, bp_ws_opt := bp_ws dev\<rparr> in
      andThen (bp_backend h dev) (\<lambda>be.
      andThen (on_error (nvm_cmd_rprt_arbs sys be dev NVM_CHUNK_STATE_FREE naddrs (bp_addrs bp)) (nvm_bp_term sys (Some bp))) (\<lambda>addrs.
      let bp = bp\<lparr>bp_addrs := addrs\<rparr> in
      andThen (on_error (nvm_vblk_alloc sys (h_dev_ptr h dev) dev addrs naddrs) (nvm_bp_term sys (Some bp))) (\<lambda>v.
      let bp = bp\<lparr>bp_vblk := Some v\<rparr> in
      andThen (on_error (nvm_buf_set_alloc sys dev (vblk_nbytes v) 0) (nvm_bp_term sys (Some bp))) (\<lambda>b.
      andThen (nvm_buf_set_fill sys b) (\<lambda>_. ok (bp\<lparr>bp_bufs := Some b\<rparr>)))))))))"

definition nvm_bp_init_from_args :: "'w host \<Rightarrow> string list \<Rightarrow> ('w, nvm_bp) op" where
  "nvm_bp_init_from_args h argv =
     (let argc = length argv;
        naddrs = (if argc = 4 then c_int (c_strtoll 10 (argv ! 3)) else 1);
        flags = (if argc = 4 \<or> argc = 3 then c_int (c_strtoll 16 (argv ! 2)) else uint NVM_BE_ANY) in
      if argc < 2 \<or> 4 < argc then fail (Errno EINVAL)
      else if length (argv ! 1) > NVM_DEV_PATH_LEN then fail (Errno EINVAL)
      else nvm_bp_init h (argv ! 1) flags naddrs)"

section \<open>Lemmas\<close>

text \<open>The chunks that \<open>nvm_cmd_rprt_arbs\<close> finds are on different parallel units.\<close>

lemma rprt_arbs_apart:
  assumes ok: "nvm_cmd_rprt_arbs sys be dev cs naddrs addrs w = (Inr out, w')" and rnd: "sys_rand sys w = (arb, w1)" "0 \<le> arb"
    and geo: "unat (l_npugrp (dev_geo dev)) \<le> 256" "unat (l_npunit (dev_geo dev)) \<le> 256" "l_nchunk (dev_geo dev) \<noteq> 0"
      "unat (l_nchunk (dev_geo dev)) \<le> 2 ^ 16" and ij: "i < nat naddrs" "j < nat naddrs" "i \<noteq> j"
  shows "l_pugrp (out ! i) \<noteq> l_pugrp (out ! j) \<or> l_punit (out ! i) \<noteq> l_punit (out ! j)"
proof (rule ccontr)
  let ?G = "unat (l_npugrp (dev_geo dev))" and ?cur = "\<lambda>i. nat ((int i + arb) mod naddrs)"
  note facts = rprt_arbs_facts [OF ok rnd(1) geo] and p = rprt_arbs_picks [OF ok geo(3) rnd(1)]
  assume "\<not> ?thesis"
  then have "?cur i mod ?G = ?cur j mod ?G" "?cur i div ?G = ?cur j div ?G"
    using facts [OF ij(1)] facts [OF ij(2)] by metis+
  then have "?cur i = ?cur j" by (metis div_mult_mod_eq)
  with arbs_cur_inj [of i "nat naddrs" j arb] ij rnd(2) p show False by simp
qed

lemma alloc_addrs_fold:
  "vblk_alloc_addrs dev addrs is blks = Inr blks' \<Longrightarrow>
     (\<forall>i \<in> set is. i < length addrs \<and> i < length blks \<and> \<not> addr_check_fails (addrs ! i) dev) \<and> blks' = fold (\<lambda>i b. b[i := addrs ! i]) is blks"
  by (induction dev addrs "is" blks rule: vblk_alloc_addrs.induct) (auto split: if_splits)

lemma alloc_addrs_copies:
  assumes "vblk_alloc_addrs dev addrs [0..<n] blks = Inr blks'"
  shows "n \<le> length addrs \<and> blks' = take n addrs @ drop n blks \<and> n \<le> length blks \<and> (\<forall>i < n. \<not> addr_check_fails (addrs ! i) dev)"
proof -
  have f: "\<forall>i < n. i < length addrs \<and> i < length blks \<and> \<not> addr_check_fails (addrs ! i) dev" "blks' = fold (\<lambda>i b. b[i := addrs ! i]) [0..<n] blks"
    using alloc_addrs_fold [OF assms] by auto
  then have "n \<le> length addrs" "n \<le> length blks" by (metis less_irrefl not_le)+
  moreover have "map ((!) addrs) [0..<n] = take n addrs" using \<open>n \<le> length addrs\<close> by (intro nth_equalityI) simp_all
  ultimately show ?thesis using f by (simp add: fold_update)
qed

lemma vblk_alloc_takes:
  assumes "nvm_vblk_alloc sys devp dev addrs naddrs w = (Inr v, w')"
  shows "naddrs \<le> 128 \<and> vblk_nblks v = naddrs \<and> nat naddrs \<le> length addrs \<and> take (nat naddrs) (vblk_blks v) = take (nat naddrs) addrs
    \<and> vblk_tbytes dev naddrs = Inr (vblk_nbytes v) \<and> (\<forall>i < nat naddrs. nvm_addr_check (addrs ! i) dev = Inr 0)"
  using assms
  by (auto simp: nvm_vblk_alloc_def on_error_Inr lift_res_def addr_check_fails_def split: if_splits prod.splits sum.splits failure.splits
    dest!: alloc_addrs_copies)

lemma buf_set_alloc_sizes:
  assumes "nvm_buf_set_alloc sys dev n 0 w = (Inr b, w')" shows "bs_nbytes b = n \<and> bs_nbytes_meta b = 0"
  using assms by (auto simp: nvm_buf_set_alloc_def buf_set_data_def buf_set_meta_def andThen_Inr on_error_Inr Let_def ok_def split: if_splits)


section \<open>Properties\<close>

text \<open>
  C40. A structure that \<open>nvm_bp_init\<close> returns is ready for use: its virtual block consists of the requested number of chunks, which a report
  of the device showed free, all in bounds and on different parallel units, and the buffers have the size of the block.
\<close>

theorem nvm_bp_init_ready:
  assumes "nvm_bp_init h ident flags naddrs w = (Inr bp, w')" "bp_dev bp = Some dev" "\<forall>w. 0 \<le> fst (sys_rand (h_sys h) w)"
    and "unat (l_npugrp (dev_geo dev)) \<le> 256" "unat (l_npunit (dev_geo dev)) \<le> 256" "l_nchunk (dev_geo dev) \<noteq> 0" "unat (l_nchunk (dev_geo dev)) \<le> 2 ^ 16"
  shows "\<exists>v b be. bp_vblk bp = Some v \<and> bp_bufs bp = Some b \<and> dev_backend h dev = Some be
    \<and> vblk_nblks v = naddrs \<and> naddrs \<le> 128 \<and> take (nat naddrs) (vblk_blks v) = bp_addrs bp \<and> length (bp_addrs bp) = nat naddrs
    \<and> bs_nbytes b = vblk_nbytes v
    \<and> (\<forall>i < nat naddrs. nvm_addr_check (bp_addrs bp ! i) dev = Inr 0
        \<and> (\<exists>wa wb buf rprt. be_rprt be dev (Some (set_l_chunk 0 (bp_addrs bp ! i))) 0 NULL wa = (Inr (buf, rprt), wb)
            \<and> uint (descr_cs (rprt_descr rprt ! unat (l_chunk (bp_addrs bp ! i)))) = NVM_CHUNK_STATE_FREE)
        \<and> (\<forall>j < nat naddrs. i \<noteq> j \<longrightarrow> l_pugrp (bp_addrs bp ! i) \<noteq> l_pugrp (bp_addrs bp ! j) \<or> l_punit (bp_addrs bp ! i) \<noteq> l_punit (bp_addrs bp ! j)))"
proof -
  obtain bp0 be addrs v b w0 w1 w2 w3 w4 where bp0: "bp_alloc (h_sys h) naddrs w = (Inr bp0, w0)" and be: "dev_backend h dev = Some be"
    and r: "nvm_cmd_rprt_arbs (h_sys h) be dev NVM_CHUNK_STATE_FREE naddrs (bp_addrs bp0) w1 = (Inr addrs, w2)"
    and v: "nvm_vblk_alloc (h_sys h) (h_dev_ptr h dev) dev addrs naddrs w2 = (Inr v, w3)"
    and b: "nvm_buf_set_alloc (h_sys h) dev (vblk_nbytes v) 0 w3 = (Inr b, w4)"
    and bp: "bp_addrs bp = addrs" "bp_vblk bp = Some v" "bp_bufs bp = Some b"
    using assms(1,2)
    by (auto simp: nvm_bp_init_def bp_backend_def Let_def andThen_Inr on_error_Inr ok_def fail_def split: option.splits)
  obtain arb w5 where rnd: "sys_rand (h_sys h) w1 = (arb, w5)" "0 \<le> arb" using assms(3) by (metis prod.collapse)
  have "length (bp_addrs bp0) = nat naddrs"
    using bp0 by (auto simp: bp_alloc_def andThen_Inr ok_def fail_def split: if_splits)
  then have l: "length addrs = nat naddrs" using rprt_arbs_picks [OF r assms(6) rnd(1)] by simp
  note facts = rprt_arbs_facts [OF r rnd(1) assms(4-7)] and apart = rprt_arbs_apart [OF r rnd assms(4-7)]
  show ?thesis
    using bp be l vblk_alloc_takes [OF v] buf_set_alloc_sizes [OF b] facts apart by auto
qed


text \<open>A device with two groups of one parallel unit with two chunks each, of which the second is free.\<close>

definition ex_dev_bp :: nvm_dev where
  "ex_dev_bp = ex_dev_s20\<lparr>dev_geo := (dev_geo ex_dev_s20)\<lparr>nchannels := 2, nluns := 1, nblocks := 2, nsectors := 2, sector_nbytes := 16\<rparr>\<rparr>"

definition ex_be_bp :: "ptr list nvm_be" where
  "ex_be_bp = (nvm_be_disabled NVM_BE_SPDK ''NVM_BE_SPDK'')\<lparr>be_open := (\<lambda>path flags. ok ex_dev_bp),
     be_rprt := (\<lambda>dev addr opt ret. andThen ex_alloc (\<lambda>p. ok (p, \<lparr>rprt_ndescr = 2, rprt_descr =
       [\<lparr>descr_cs = 2, descr_ct = 0, descr_wli = 0, descr_addr = 0, descr_naddrs = 2, descr_wp = 2\<rparr>,
        \<lparr>descr_cs = 1, descr_ct = 0, descr_wli = 0, descr_addr = 0, descr_naddrs = 2, descr_wp = 0\<rparr>]\<rparr>)))\<rparr>"

definition ex_host_bp :: "ptr list host" where
  "ex_host_bp = \<lparr>h_sys = ex_sys, h_imps = [ex_be_bp], h_read_file = (\<lambda>path w. None), h_write_file = (\<lambda>path bs w. None),
     h_load = (\<lambda>p n w. replicate n 0), h_load_cmd = (\<lambda>p w. cmd_zero), h_dev_ptr = (\<lambda>dev. 0x2000), h_bbts_ptr = (\<lambda>dev. 0x2000)\<rparr>"

theorem nvm_bp_init_ready_witness:
  "\<exists>bp w' v. nvm_bp_init ex_host_bp ''traddr:0000:01:00.0'' 0 2 [] = (Inr bp, w') \<and> bp_vblk bp = Some v
     \<and> vblk_nblks v = 2 \<and> take 2 (vblk_blks v) = bp_addrs bp \<and> l_pugrp (bp_addrs bp ! 0) \<noteq> l_pugrp (bp_addrs bp ! 1)"
proof -
  have "case nvm_bp_init ex_host_bp ''traddr:0000:01:00.0'' 0 2 [] of
      (Inr bp, _) \<Rightarrow> (case bp_dev bp of None \<Rightarrow> False | Some dev \<Rightarrow>
        dev_geo dev = dev_geo ex_dev_bp \<and> l_punit (bp_addrs bp ! 0) = 0 \<and> l_punit (bp_addrs bp ! 1) = 0) | _ \<Rightarrow> False"
    by code_simp
  then obtain bp w' dev where i: "nvm_bp_init ex_host_bp ''traddr:0000:01:00.0'' 0 2 [] = (Inr bp, w')" "bp_dev bp = Some dev"
    and d: "dev_geo dev = dev_geo ex_dev_bp" "l_punit (bp_addrs bp ! 0) = 0" "l_punit (bp_addrs bp ! 1) = 0"
    by (auto split: prod.splits sum.splits option.splits)
  have g: "\<forall>w. 0 \<le> fst (sys_rand (h_sys ex_host_bp) w)" "unat (l_npugrp (dev_geo dev)) \<le> 256" "unat (l_npunit (dev_geo dev)) \<le> 256"
    "l_nchunk (dev_geo dev) \<noteq> 0" "unat (l_nchunk (dev_geo dev)) \<le> 2 ^ 16"
    by (simp_all add: d(1) ex_host_bp_def ex_sys_def ex_dev_bp_def)
  from nvm_bp_init_ready [OF i g] obtain v where v: "bp_vblk bp = Some v" "vblk_nblks v = 2" "take 2 (vblk_blks v) = bp_addrs bp"
    and x: "\<forall>i < 2. \<forall>j < 2. i \<noteq> j \<longrightarrow> l_pugrp (bp_addrs bp ! i) \<noteq> l_pugrp (bp_addrs bp ! j) \<or> l_punit (bp_addrs bp ! i) \<noteq> l_punit (bp_addrs bp ! j)"
    by auto
  have "l_pugrp (bp_addrs bp ! 0) \<noteq> l_pugrp (bp_addrs bp ! 1)" using x [rule_format, of 0 1] d(2,3) by simp
  then show ?thesis using i v by blast
qed

end
