(* ===== verification/Spec2Isabelle.thy ===== *)
theory Spec2Isabelle
  imports Nvm_Addr Nvm_Buf Nvm_Dev Nvm_Be Nvm_Populate Nvm_Sgl Nvm_Cmd Nvm_Wrap Nvm_Bbt Nvm_Vblk_Ops Nvm_Ioctl_Media Nvm_Lbd Nvm_Nocd Nvm_Spdk_Media
    Nvm_Tools_Life Nvm_Cli_Input Nvm_Bp
begin

text \<open>
  A verification development for liblightnvm, the user space library for Open-Channel SSDs.

  \<^bold>\<open>The program.\<close> A device (\<open>struct nvm_dev\<close>) is opened by one of several backends, which implement the
  table of operations \<open>struct nvm_be\<close>. Opening reads the identify structure of the device and derives the
  geometry, the format of addresses and the options. Addresses are kept in a generic format and
  converted to that of the device (revision 1.2 or 2.0) for each command. On top of the commands are
  virtual blocks, which stripe reads, writes and erases over many chunks, and the bad-block tables with
  their cache. Buffers, scatter-gather lists and the wrapping of NVMe commands serve the backends.

  \<^bold>\<open>Conventions\<close> (\<open>Nvm_Prelude\<close>). Unsigned integers are words of their width, so that arithmetic wraps as in C;
  an \<open>int\<close> is an HOL integer with \<open>c_int\<close> at conversions. A function that can fail returns \<open>'a res\<close>: an \<open>errno\<close>, or
  a fault where the C program has undefined behaviour, or the result. Code with effects is a function
  of a world of any type: the allocator and the C library (\<open>sys\<close>), a backend (\<open>nvm_be\<close>), the kernel (\<open>kern\<close>,
  \<open>aio\<close>), SPDK (\<open>spdk\<close>) are records of operations on it, and what a theorem needs of them is a hypothesis on these
  records. A loop that may not end is a \<open>partial_function\<close> into \<open>option\<close>; \<open>None\<close> is a call that does not
  return. There is no fuel; recursions over C loops with a bound are over lists of their indices. The OpenMP loops of virtual blocks
  (\<open>omp_for\<close>) have the iterations that are fixed when they are entered, a fault when the counter would wrap, and execute them in order;
  that the order does not matter to a write is a theorem.

  \<^bold>\<open>Theories and sources\<close> (under \<open>src/\<close>).

  \<^item> \<open>Nvm_Types\<close>: the structures of \<open>liblightnvm.h\<close>, \<open>liblightnvm_spec.h\<close>, \<open>nvm_dev.h\<close>, with the bit fields
    of an address.
  \<^item> \<open>Nvm_Addr\<close>: \<open>nvm_addr.c\<close>, checks and conversions of addresses. Round trips for both formats, byte
    offsets that do not overlap, offsets in the chunk report; the locale \<open>addr_codec\<close> is the interface.
  \<^item> \<open>Nvm_Buf\<close>: \<open>nvm_buf.c\<close>. No allocation is leaked on any path; the locale \<open>buf_provider\<close> is what a client
    relies on.
  \<^item> \<open>Nvm_Dev\<close>, \<open>Nvm_Be\<close>, \<open>Nvm_Populate\<close>: \<open>nvm_dev.c\<close> and \<open>nvm_be.c\<close>, setters, the table of operations, the choice
    of a backend, \<open>nvm_be_populate\<close>. A populated device has a well-formed address format, and no sequence
    of setters takes its options out of their bounds.
  \<^item> \<open>Nvm_Sgl\<close>, \<open>Nvm_Cmd\<close>, \<open>Nvm_Wrap\<close>: \<open>nvm_sgl.c\<close> and \<open>nvm_cmd.c\<close>. Scatter-gather lists refine lists of transfers; a
    wrapped command carries the addresses and lengths of the request and releases what it allocated;
    the search for arbitrary chunks returns what the device reported.
  \<^item> \<open>Nvm_Bbt\<close>: \<open>nvm_bbt.c\<close>. The cache refines a table per LUN; the locale \<open>write_back\<close> says when a flush
    makes the device agree with it.
  \<^item> \<open>Nvm_Vblk\<close>, \<open>Nvm_Stripe\<close>, \<open>Nvm_Vblk_IO\<close>, \<open>Nvm_Vblk_Ops\<close>: \<open>nvm_vblk.c\<close> and \<open>nvm_async.c\<close>. The locale \<open>layout\<close> is a
    striping that is a bijection and fills every chunk in order, interpreted on that of both
    revisions; on it rest the round trip of writes and reads, the order of writes, erase and copy, and
    the invariant of the positions.
  \<^item> \<open>Nvm_Ioctl\<close>, \<open>Nvm_Ioctl_Media\<close>: \<open>nvm_be_ioctl.c\<close>. Every command the backend builds; reports are complete;
    the backend is a simulation of the media that virtual blocks assume.
  \<^item> \<open>Nvm_Lbd\<close>: \<open>nvm_be_lbd.c\<close>. The locale \<open>slot_pool\<close> is a stack of free slots, interpreted on the control
    blocks of a context and on the result structures of a virtual block; ownership of control blocks
    and the termination of waiting follow for every reachable state.
  \<^item> \<open>Nvm_Spdk\<close>, \<open>Nvm_Spdk_Queue\<close>, \<open>Nvm_Spdk_Media\<close>: \<open>nvm_be_spdk.c\<close>. Attaching, administration, synchronous and asynchronous
    commands. The locale \<open>entry_source\<close> is what makes submission entries, interpreted on \<open>nvm_cmd_wrap_setup\<close> and
    \<open>nvm_cmd_wrap_pass\<close>; on it rest the result of a synchronous command, the count of outstanding commands,
    the ownership of their memory and the termination of waiting. The backend is a simulation of the media.
  \<^item> \<open>Nvm_Nocd\<close>: \<open>nvm_be_nocd.c\<close>, an ordinary namespace as an Open-Channel device. Its addresses are the logical
    blocks of the namespace; what its vector writes store is in \<open>Nvm_Spdk_Media\<close>.

  \<^item> \<open>Nvm_Text\<close>, \<open>Nvm_Print\<close>: the numbers that the C library reads and prints, with the round trip between both, and what
    the tools print of addresses, bounds, geometries and devices (\<open>nvm_addr.c\<close>, \<open>nvm_bounds.c\<close>, \<open>nvm_geo.c\<close>, \<open>nvm_dev.c\<close>, \<open>nvm_spec.c\<close>).
  \<^item> \<open>Nvm_Cli\<close>, \<open>Nvm_Cli_Input\<close>, \<open>Nvm_Cli_Life\<close>: \<open>nvm_cli.c\<close>. Parsing of arguments, options and environment variables, files, the usage
    text, and the life of a tool over a host (\<open>host\<close>) of files, memory and backends. Which options are recognised, what a file leaves in its
    buffer, what \<open>nvm_cli_init\<close> keeps and how it configures the device from the environment, by judgements on operations.
  \<^item> \<open>Nvm_Tools\<close>, \<open>Nvm_Tools_Life\<close>: the five tools of \<open>cli/\<close>. The locale \<open>typed_tool\<close>, interpreted on all of them, keeps the structure of a
    tool well-formed; the locale \<open>printing_tool\<close>, interpreted on \<open>nvm_addr\<close> and \<open>nvm_dev\<close>, gives that the device is closed when allocations succeed and backends leave
    nothing open on errors. The round trip of
    \<open>nvm_addr\<close> goes from one command line to the output of another.
  \<^item> \<open>Nvm_Bp\<close>: \<open>nvm_bp.c\<close>, a device with a virtual block of free chunks and its buffers.

  \<^bold>\<open>Not modelled.\<close> Printing of identify structures, chunk reports, bad-block tables, commands, results, virtual blocks and the version
    (\<open>nvm_spec.c\<close>, \<open>nvm_ret.c\<close>, \<open>nvm_ver.c\<close> and functions \<open>_pr\<close> of other files) and what the tools write to standard error: output that nothing
    reads. The text printed by the tools for bad-block tables, commands and virtual blocks. Timers, tests and examples. Callbacks of
    asynchronous commands are made by the caller of a backend from the list of completions it returns; a callback that submits commands
    itself is not modelled. There is one thread: the lock of the queue for synchronous SPDK commands is left out, and iterations of parallel
    loops are not interleaved. A write past an array of the tools (more than 1024 words, a name of 50 characters) is a fault, after which nothing is
    said of the state.
\<close>

section \<open>Properties that span components\<close>

text \<open>
  C4. The round trip of a virtual block through the ioctl backend: when the kernel executes the vector
  commands it is given, on the device addresses they carry, then what \<open>nvm_vblk_pwrite\<close> writes to a
  virtual block of an opened 2.0 device, \<open>nvm_vblk_pread\<close> returns, byte for byte. The striping over the
  chunks, the conversion of the addresses, the fields of the commands and the results of the calls of
  the kernel together preserve the data.
\<close>

theorem ioctl_vblk_write_read:
  fixes count offset :: u64
  assumes "unit_dev dev u B" "be_known dev" "u \<le> 64" "geo_wf v u len" "vblk_flags v = NVM_VBLK_CMD_OPTS"
    and "dev_meta_mode dev = NVM_META_MODE_NONE" "wf_fmt dev" "chunks_fit dev v len" "sector_nbytes (dev_geo dev) = of_nat B" "B < 2 ^ 26"
    and "vio_laws k dev B media mem" "vio_answers k dev" "free_laws sys media mem"
    and "unat count = n * u * B" "0 < n" "unat offset = m * u * B" "(m + n) * u \<le> nblks_of v * len"
    and "buf \<noteq> 0" "unat buf + unat count \<le> 2 ^ 64" "dbuf \<noteq> 0" "unat dbuf + (n * u + 63) * B \<le> 2 ^ 64"
  shows "\<exists>w1 w2. nvm_vblk_pwrite sys (nvm_be_ioctl sys k) dev ret buf count offset (v, w) = Some (Inr (sint count), (v, w1))
    \<and> nvm_vblk_pread sys (nvm_be_ioctl sys k) dev ret dbuf count offset (v, w1) = Some (Inr (sint count), (v, w2))
    \<and> (\<forall>t < unat count. mem w2 (dbuf + of_nat t) = mem w (buf + of_nat t))"
  by (rule block_write_read [OF assms(1-5) ioctl_media_laws [OF assms(11,13,7,9,10)] ioctl_media_answers [OF assms(12)]
      assms(18,6,14-17,19-21) chunks_fit_sectors [OF unit_devD(9) [OF assms(1)] assms(4,8)]])

theorem ioctl_vblk_write_read_witness:
  "\<exists>w1 w2. nvm_vblk_pwrite ex_sys_media (nvm_be_ioctl ex_sys_media ex_kern_vio) ex_dev_unit 0 0x100000 (24 * 4096) (16 * 4096)
      (ex_vblk, (\<lambda>_ _. 0, \<lambda>q. ucast q)) = Some (Inr (24 * 4096), (ex_vblk, w1)) \<and>
    nvm_vblk_pread ex_sys_media (nvm_be_ioctl ex_sys_media ex_kern_vio) ex_dev_unit 0 0x900000 (24 * 4096) (16 * 4096) (ex_vblk, w1) =
      Some (Inr (24 * 4096), (ex_vblk, w2)) \<and>
    snd w2 (0x900000 + of_nat 5000) = ucast (0x100000 + of_nat 5000 :: ptr)"
proof -
  note e = ex_unit_facts
  have a: "unat (24 * 4096 :: u64) = 3 * 8 * 4096" "unat (16 * 4096 :: u64) = 2 * 8 * 4096"
    "(2 + 3) * 8 \<le> nblks_of ex_vblk * 6144" "(0x100000 :: ptr) \<noteq> 0" "unat (0x100000 :: ptr) + unat (24 * 4096 :: u64) \<le> 2 ^ 64"
    "(0x900000 :: ptr) \<noteq> 0" "unat (0x900000 :: ptr) + (3 * 8 + 63) * 4096 \<le> 2 ^ 64" by (simp_all add: e(8))
  have b: "(8 :: nat) \<le> 64" "(0 :: nat) < 3" "(4096 :: nat) < 2 ^ 26" "sint (24 * 4096 :: u64) = 24 * 4096" "(5000 :: nat) < 3 * 8 * 4096" by simp_all
  note x = ioctl_vblk_write_read [OF e(1,2) b(1) e(3,6,7) ex_chunks_fit b(3) ex_vio_laws a(1) b(2) a(2-7),
    where w = "(\<lambda>_ _. 0, \<lambda>q. ucast q)" and ret = "0"]
  show ?thesis using x b(5) unfolding a(1) b(4) snd_conv by blast
qed

text \<open>
  C5. The round trip of a virtual block through the SPDK backend: when allocations succeed and the controller
  executes the commands it is given and reports their completion, then what \<open>nvm_vblk_pwrite\<close> writes to a virtual block
  of an opened 2.0 device, \<open>nvm_vblk_pread\<close> returns, byte for byte. The controller takes the logical blocks from the
  command: its address field for a single one, and for more the list in memory at the physical address in that field, which it
  finds only if the field is the address of the list that was allocated for the entry. The striping, the conversion of
  the addresses, the submission entries with their address lists and the polling for completions together preserve the data.
\<close>

theorem spdk_vblk_write_read:
  fixes count offset :: u64
  assumes "unit_dev dev u B" "dma_dev dev" "u \<le> 64" "geo_wf v u len" "vblk_flags v = NVM_VBLK_CMD_OPTS"
    and "dev_meta_mode dev = NVM_META_MODE_NONE" "wf_fmt dev" "chunks_fit dev v len" "sector_nbytes (dev_geo dev) = of_nat B" "B < 2 ^ 26"
    and "exec_laws sys sp B media mem" "spdk_answers sys sp dev"
    and "unat count = n * u * B" "0 < n" "unat offset = m * u * B" "(m + n) * u \<le> nblks_of v * len"
    and "buf \<noteq> 0" "unat buf + unat count \<le> 2 ^ 64" "dbuf \<noteq> 0" "unat dbuf + (n * u + 63) * B \<le> 2 ^ 64"
  shows "\<exists>w1 w2. nvm_vblk_pwrite sys (nvm_be_spdk sys sp) dev ret buf count offset (v, w) = Some (Inr (sint count), (v, w1))
    \<and> nvm_vblk_pread sys (nvm_be_spdk sys sp) dev ret dbuf count offset (v, w1) = Some (Inr (sint count), (v, w2))
    \<and> (\<forall>t < unat count. mem w2 (dbuf + of_nat t) = mem w (buf + of_nat t))"
  by (rule block_write_read [OF assms(1) dma_dev_known [OF assms(2)] assms(3-5) spdk_media_laws [OF assms(11) unit_devD(9) [OF assms(1)] assms(7,9,10,2)]
      spdk_media_answers [OF assms(12) dma_dev_known [OF assms(2)] unit_devD(9) [OF assms(1)]]
      assms(17,6,13-16,18-20) chunks_fit_sectors [OF unit_devD(9) [OF assms(1)] assms(4,8)]])

theorem spdk_vblk_write_read_witness:
  "\<exists>w1 w2. nvm_vblk_pwrite ex_sys_any (nvm_be_spdk ex_sys_any ex_spdk_m) ex_dev_unit 0 0x100000 (24 * 4096) (16 * 4096)
      (ex_vblk, ((\<lambda>_ _. 0, \<lambda>q. ucast q), 0)) = Some (Inr (24 * 4096), (ex_vblk, w1)) \<and>
    nvm_vblk_pread ex_sys_any (nvm_be_spdk ex_sys_any ex_spdk_m) ex_dev_unit 0 0x900000 (24 * 4096) (16 * 4096) (ex_vblk, w1) =
      Some (Inr (24 * 4096), (ex_vblk, w2)) \<and>
    snd (fst w2) (0x900000 + of_nat 5000) = ucast (0x100000 + of_nat 5000 :: ptr)"
proof -
  note e = ex_unit_facts
  have a: "unat (24 * 4096 :: u64) = 3 * 8 * 4096" "unat (16 * 4096 :: u64) = 2 * 8 * 4096"
    "(2 + 3) * 8 \<le> nblks_of ex_vblk * 6144" "(0x100000 :: ptr) \<noteq> 0" "unat (0x100000 :: ptr) + unat (24 * 4096 :: u64) \<le> 2 ^ 64"
    "(0x900000 :: ptr) \<noteq> 0" "unat (0x900000 :: ptr) + (3 * 8 + 63) * 4096 \<le> 2 ^ 64" by (simp_all add: e(8))
  have b: "(8 :: nat) \<le> 64" "(0 :: nat) < 3" "(4096 :: nat) < 2 ^ 26" "sint (24 * 4096 :: u64) = 24 * 4096" "(5000 :: nat) < 3 * 8 * 4096" by simp_all
  have s: "dma_dev ex_dev_unit" by (simp add: dma_dev_def ex_dev_unit_def ex_dev_s20_def)
  note x = spdk_vblk_write_read [OF e(1) s b(1) e(3,6,7) ex_chunks_fit b(3) ex_exec_laws ex_spdk_answers [OF e(2)] a(1) b(2) a(2-7),
    where w = "((\<lambda>_ _. 0, \<lambda>q. ucast q), 0)" and ret = "0"]
  show ?thesis using x b(5) unfolding a(1) b(4) comp_apply fst_conv snd_conv by blast
qed

end
